(* ===== verification/Prelude.thy ===== *)
theory Prelude
  imports Main "HOL-Library.AList" "HOL-Library.Sublist"
begin

text \<open>
  Shared vocabulary of the development: Go's maps, Go's error-or-value results, the string
  functions of Go's standard library that the sources call (\<open>strconv.Itoa\<close>, \<open>fmt\<close> padding,
  \<open>strings.Join\<close>, \<open>strings.Split\<close>, \<open>strings.Contains\<close>, \<open>strings.Trim\<close>, \<open>filepath.Clean\<close>), and
  the generic lemmas the components use. Strings are byte sequences; case mapping and the
  loops over runes are those of ASCII text.
\<close>

named_theorems go_simps \<open>unfolding rules for the Go library functions\<close>
named_theorems key_neq \<open>facts that separate storage keys\<close>

section \<open>Maps, results and errors\<close>

text \<open>A Go map is an association list with distinct keys, so that \<open>len\<close> and iteration compute;
  the order of the list carries no meaning.\<close>

type_synonym ('k, 'v) gomap = "('k \<times> 'v) list"

definition gm_wf :: "('k, 'v) gomap \<Rightarrow> bool" where
  "gm_wf m \<longleftrightarrow> distinct (map fst m)"

definition gm_get :: "('k, 'v) gomap \<Rightarrow> 'k \<Rightarrow> 'v option" where
  "gm_get m k = map_of m k"

definition gm_has :: "('k, 'v) gomap \<Rightarrow> 'k \<Rightarrow> bool" where
  "gm_has m k \<longleftrightarrow> map_of m k \<noteq> None"

definition gm_set :: "'k \<Rightarrow> 'v \<Rightarrow> ('k, 'v) gomap \<Rightarrow> ('k, 'v) gomap" where
  "gm_set k v m = AList.update k v m"

definition gm_del :: "'k \<Rightarrow> ('k, 'v) gomap \<Rightarrow> ('k, 'v) gomap" where
  "gm_del k m = AList.delete k m"

fun gm_merge :: "('k, 'v) gomap \<Rightarrow> ('k, 'v) gomap \<Rightarrow> ('k, 'v) gomap" where
  "gm_merge m [] = m"
| "gm_merge m ((k, v) # rest) = gm_merge (gm_set k v m) rest"

lemma gm_get_set [simp]: "gm_get (gm_set k v m) k' = (if k' = k then Some v else gm_get m k')"
  by (simp add: gm_get_def gm_set_def update_conv')

lemma gm_get_del [simp]: "gm_get (gm_del k m) k' = (if k' = k then None else gm_get m k')"
  by (simp add: gm_get_def gm_del_def delete_conv')

lemma gm_get_Nil [simp]: "gm_get [] k = None"
  by (simp add: gm_get_def)

lemma gm_has_iff: "gm_has m k \<longleftrightarrow> gm_get m k \<noteq> None"
  by (simp add: gm_has_def gm_get_def)

lemma gm_set_wf [simp]: "gm_wf m \<Longrightarrow> gm_wf (gm_set k v m)"
  by (simp add: gm_wf_def gm_set_def distinct_update)

lemma gm_wf_Nil [simp]: "gm_wf []"
  by (simp add: gm_wf_def)

lemma gm_get_merge:
  "gm_wf n \<Longrightarrow> gm_get (gm_merge m n) k = (case gm_get n k of None \<Rightarrow> gm_get m k | Some v \<Rightarrow> Some v)"
  by (induction m n rule: gm_merge.induct)
    (auto simp: gm_wf_def gm_get_def gm_set_def update_conv' map_of_eq_None_iff
      split: option.splits dest: map_of_SomeD intro: rev_image_eqI)

text \<open>A Go call returns a value or an error: \<open>Inl\<close> is the error branch.\<close>

definition ebind :: "'e + 'a \<Rightarrow> ('a \<Rightarrow> 'e + 'b) \<Rightarrow> 'e + 'b" where
  "ebind r f = (case r of Inl e \<Rightarrow> Inl e | Inr x \<Rightarrow> f x)"

lemma ebind_simps [simp]: "ebind (Inl e) f = Inl e" "ebind (Inr x) f = f x"
  by (simp_all add: ebind_def)

lemma ebind_Inr_iff: "ebind r f = Inr y \<longleftrightarrow> (\<exists>x. r = Inr x \<and> f x = Inr y)"
  by (cases r) auto

text \<open>The loop \<open>for _, x := range xs { if err := f(x); err != nil { return err } }\<close>: the first
  error, in list order.\<close>

fun first_err :: "('a \<Rightarrow> 'e option) \<Rightarrow> 'a list \<Rightarrow> 'e option" where
  "first_err f [] = None"
| "first_err f (x # xs) = (case f x of Some e \<Rightarrow> Some e | None \<Rightarrow> first_err f xs)"

lemma first_err_None_iff [simp]: "first_err f xs = None \<longleftrightarrow> (\<forall>x\<in>set xs. f x = None)"
  by (induction xs) (auto split: option.splits)

lemma first_err_Some_ex: "first_err f xs = Some e \<Longrightarrow> \<exists>x\<in>set xs. f x = Some e"
  by (induction xs) (auto split: option.splits)

lemma first_err_cong [fundef_cong]:
  "xs = ys \<Longrightarrow> (\<And>x. x \<in> set ys \<Longrightarrow> f x = g x) \<Longrightarrow> first_err f xs = first_err g ys"
  by (induction ys arbitrary: xs) (auto split: option.splits)

lemma first_err_append:
  "first_err f (xs @ ys) = (case first_err f xs of Some e \<Rightarrow> Some e | None \<Rightarrow> first_err f ys)"
  by (induction xs) (simp_all del: first_err_None_iff split: option.split)

text \<open>Sequencing of checks that only report an error: \<open>err = a(); if err != nil return err; b()\<close>.\<close>

definition then_check :: "'e option \<Rightarrow> 'e option \<Rightarrow> 'e option" where
  "then_check a b = (case a of Some e \<Rightarrow> Some e | None \<Rightarrow> b)"

lemma then_check_None_iff [simp]: "then_check a b = None \<longleftrightarrow> a = None \<and> b = None"
  by (cases a) (auto simp: then_check_def)

lemma then_check_simps [simp]: "then_check (Some e) b = Some e" "then_check None b = b"
  by (simp_all add: then_check_def)

end
