(* ===== verification/Go_Strings.thy ===== *)
theory Go_Strings
  imports Prelude
begin

text \<open>
  The functions of Go's packages \<open>strconv\<close>, \<open>strings\<close>, \<open>fmt\<close> and \<open>path/filepath\<close> that the
  modelled sources call, as executable definitions over byte strings, with the lemmas that make
  storage keys injective (decimal printing, zero padding, separators).
\<close>

section \<open>Decimal numbers\<close>

definition digit_char :: "nat \<Rightarrow> char" where
  "digit_char d = char_of (48 + d)"

fun digits10 :: "nat \<Rightarrow> string" where
  "digits10 n = (if n < 10 then [digit_char n] else digits10 (n div 10) @ [digit_char (n mod 10)])"

declare digits10.simps [simp del]

text \<open>\<open>strconv.Itoa\<close> and the verb \<open>%d\<close>.\<close>

definition itoa :: "int \<Rightarrow> string" where
  "itoa i = (if i < 0 then CHR ''-'' # digits10 (nat (- i)) else digits10 (nat i))"

text \<open>The verb \<open>%0*d\<close> on a non-negative number.\<close>

definition zero_pad :: "nat \<Rightarrow> nat \<Rightarrow> string" where
  "zero_pad w n = replicate (w - length (digits10 n)) (CHR ''0'') @ digits10 n"

text \<open>The value of a digit string, the left inverse of printing.\<close>

definition val10 :: "string \<Rightarrow> nat" where
  "val10 s = foldl (\<lambda>a c. 10 * a + (of_char c - 48)) 0 s"

lemma of_char_digit_char [simp]: "d < 10 \<Longrightarrow> of_char (digit_char d) = 48 + d"
  by (simp add: digit_char_def)

lemma val10_snoc: "val10 (s @ [c]) = 10 * val10 s + (of_char c - 48)"
  by (simp add: val10_def)

lemma val10_digits10 [simp]: "val10 (digits10 n) = n"
proof (induction n rule: digits10.induct)
  case (1 n)
  show ?case
  proof (cases "n < 10")
    case True
    then show ?thesis by (simp add: digits10.simps [of n] val10_def)
  next
    case False
    with 1 have "val10 (digits10 (n div 10)) = n div 10" by simp
    with False show ?thesis
      by (simp add: digits10.simps [of n] val10_snoc)
  qed
qed

lemma val10_replicate_zero: "val10 (replicate k (CHR ''0'') @ s) = val10 s"
  by (induction k) (simp_all add: val10_def)

lemma val10_zero_pad [simp]: "val10 (zero_pad w n) = n"
  by (simp add: zero_pad_def val10_replicate_zero)

lemma digits10_inj [simp]: "digits10 m = digits10 n \<longleftrightarrow> m = n"
  by (metis val10_digits10)

lemma zero_pad_inj [simp]: "zero_pad w m = zero_pad w n \<longleftrightarrow> m = n"
  by (metis val10_zero_pad)

lemma digits10_nonempty [simp]: "digits10 n \<noteq> []"
  by (subst digits10.simps) simp

definition is_digit :: "char \<Rightarrow> bool" where
  "is_digit c \<longleftrightarrow> 48 \<le> (of_char c :: nat) \<and> (of_char c :: nat) \<le> 57"

lemma digits10_all_digits: "c \<in> set (digits10 n) \<Longrightarrow> is_digit c"
proof (induction n rule: digits10.induct)
  case (1 n)
  then show ?case
    by (cases "n < 10") (auto simp: digits10.simps [of n] is_digit_def digit_char_def)
qed

lemma zero_pad_all_digits: "c \<in> set (zero_pad w n) \<Longrightarrow> is_digit c"
  by (auto simp: zero_pad_def is_digit_def dest!: digits10_all_digits split: if_splits)

lemma slash_not_digit [simp]: "\<not> is_digit (CHR ''/'')"
  by (simp add: is_digit_def)

lemma minus_not_digit [simp]: "\<not> is_digit (CHR ''-'')"
  by (simp add: is_digit_def)

lemma slash_notin_zero_pad [simp]: "CHR ''/'' \<notin> set (zero_pad w n)"
  using zero_pad_all_digits slash_not_digit by blast

lemma slash_notin_digits10 [simp]: "CHR ''/'' \<notin> set (digits10 n)"
  using digits10_all_digits slash_not_digit by blast

lemma itoa_inj [simp]: "itoa i = itoa j \<longleftrightarrow> i = j"
proof -
  have "hd (digits10 n) \<noteq> CHR ''-''" for n
    using digits10_all_digits [of "hd (digits10 n)" n] by auto
  then have "CHR ''-'' # s \<noteq> digits10 n" and "digits10 n \<noteq> CHR ''-'' # s" for s n
    by (metis list.sel(1))+
  then show ?thesis
    by (auto simp: itoa_def)
qed

section \<open>Substrings, prefixes, joining and splitting\<close>

definition HasPrefix :: "string \<Rightarrow> string \<Rightarrow> bool" where
  "HasPrefix s p \<longleftrightarrow> take (length p) s = p"

definition HasSuffix :: "string \<Rightarrow> string \<Rightarrow> bool" where
  "HasSuffix s p \<longleftrightarrow> length p \<le> length s \<and> drop (length s - length p) s = p"

definition TrimPrefix :: "string \<Rightarrow> string \<Rightarrow> string" where
  "TrimPrefix s p = (if HasPrefix s p then drop (length p) s else s)"

fun Contains :: "string \<Rightarrow> string \<Rightarrow> bool" where
  "Contains [] p \<longleftrightarrow> p = []"
| "Contains (c # s) p \<longleftrightarrow> HasPrefix (c # s) p \<or> Contains s p"

fun JoinStr :: "string list \<Rightarrow> string \<Rightarrow> string" where
  "JoinStr [] sep = []"
| "JoinStr [x] sep = x"
| "JoinStr (x # xs) sep = x @ sep @ JoinStr xs sep"

text \<open>\<open>strings.Split\<close> with a one-byte separator: always at least one part.\<close>

fun SplitChar :: "char \<Rightarrow> string \<Rightarrow> string list" where
  "SplitChar sep [] = [[]]"
| "SplitChar sep (c # s) =
     (if c = sep then [] # SplitChar sep s
      else (case SplitChar sep s of [] \<Rightarrow> [[c]] | p # ps \<Rightarrow> (c # p) # ps))"

text \<open>\<open>strings.SplitN(s, sep, 2)\<close>: one part when the separator does not occur.\<close>

fun SplitN2 :: "char \<Rightarrow> string \<Rightarrow> string list" where
  "SplitN2 sep [] = [[]]"
| "SplitN2 sep (c # s) =
     (if c = sep then [[], s]
      else (case SplitN2 sep s of [] \<Rightarrow> [[c]] | p # ps \<Rightarrow> (c # p) # ps))"

definition TrimChar :: "char \<Rightarrow> string \<Rightarrow> string" where
  "TrimChar ch s = rev (dropWhile (\<lambda>c. c = ch) (rev (dropWhile (\<lambda>c. c = ch) s)))"

definition is_space :: "char \<Rightarrow> bool" where
  "is_space c \<longleftrightarrow> (of_char c :: nat) \<in> {9, 10, 11, 12, 13, 32}"

definition TrimSpace :: "string \<Rightarrow> string" where
  "TrimSpace s = rev (dropWhile is_space (rev (dropWhile is_space s)))"

definition lower_char :: "char \<Rightarrow> char" where
  "lower_char c = (let n = (of_char c :: nat) in if 65 \<le> n \<and> n \<le> 90 then char_of (n + 32) else c)"

definition ToLower :: "string \<Rightarrow> string" where
  "ToLower s = map lower_char s"

lemma HasPrefix_iff: "HasPrefix s p \<longleftrightarrow> (\<exists>r. s = p @ r)"
proof
  assume "HasPrefix s p"
  then have "s = p @ drop (length p) s"
    unfolding HasPrefix_def by (metis append_take_drop_id)
  then show "\<exists>r. s = p @ r" ..
qed (auto simp: HasPrefix_def)

lemma HasPrefix_append [simp]: "HasPrefix (p @ r) p"
  by (auto simp: HasPrefix_iff)

lemma Contains_iff: "Contains s p \<longleftrightarrow> (\<exists>a b. s = a @ p @ b)"
proof (induction s)
  case (Cons c s)
  show ?case
  proof
    assume "Contains (c # s) p"
    then consider b where "c # s = p @ b" | a b where "s = a @ p @ b"
      using Cons by (auto simp: HasPrefix_iff)
    then show "\<exists>a b. c # s = a @ p @ b"
      by cases (metis append_Nil, metis append_Cons)
  next
    assume "\<exists>a b. c # s = a @ p @ b"
    then obtain a b where "c # s = a @ p @ b" by blast
    then have "HasPrefix (c # s) p \<or> (\<exists>a b. s = a @ p @ b)"
      by (cases a) (auto simp: HasPrefix_iff)
    then show "Contains (c # s) p"
      using Cons by auto
  qed
qed auto

lemma SplitChar_nonempty [simp]: "SplitChar sep s \<noteq> []"
  by (induction s) (auto split: list.splits)

lemma SplitChar_no_sep: "p \<in> set (SplitChar sep s) \<Longrightarrow> sep \<notin> set p"
  by (induction s arbitrary: p) (auto split: if_splits list.splits)

lemma JoinStr_Cons: "xs \<noteq> [] \<Longrightarrow> JoinStr (x # xs) sep = x @ sep @ JoinStr xs sep"
  by (cases xs) auto

lemma Join_Split [simp]: "JoinStr (SplitChar sep s) [sep] = s"
proof (induction s)
  case (Cons c s)
  then show ?case
    by (cases "SplitChar sep s"; cases "tl (SplitChar sep s)") (auto simp: JoinStr_Cons)
qed simp

lemma SplitChar_no_occ: "sep \<notin> set s \<Longrightarrow> SplitChar sep s = [s]"
  by (induction s) auto

lemma SplitChar_append_sep: "sep \<notin> set a \<Longrightarrow> SplitChar sep (a @ sep # s) = a # SplitChar sep s"
  by (induction a) auto

lemma Split_Join:
  "xs \<noteq> [] \<Longrightarrow> (\<And>x. x \<in> set xs \<Longrightarrow> sep \<notin> set x) \<Longrightarrow> SplitChar sep (JoinStr xs [sep]) = xs"
  by (induction xs "[sep]" rule: JoinStr.induct)
    (simp_all add: SplitChar_no_occ SplitChar_append_sep)

lemma SplitChar_append_plain: "SplitChar (CHR ''/'') (a @ CHR ''/'' # s) = SplitChar (CHR ''/'') a @ SplitChar (CHR ''/'') s"
  by (induction a) (auto split: list.split)

lemma JoinStr_append:
  "xs \<noteq> [] \<Longrightarrow> ys \<noteq> [] \<Longrightarrow> JoinStr (xs @ ys) sep = JoinStr xs sep @ sep @ JoinStr ys sep"
  by (induction xs sep rule: JoinStr.induct) (auto simp: JoinStr_Cons)

section \<open>Path cleaning\<close>

text \<open>\<open>filepath.Clean\<close> on a rooted Unix path: empty and \<open>.\<close> elements vanish, \<open>..\<close> removes the
  element before it and stops at the root.\<close>

fun clean_parts :: "string list \<Rightarrow> string list \<Rightarrow> string list" where
  "clean_parts acc [] = rev acc"
| "clean_parts acc (p # ps) =
     (if p = [] \<or> p = ''.'' then clean_parts acc ps
      else if p = ''..'' then clean_parts (tl acc) ps
      else clean_parts (p # acc) ps)"

definition clean_rooted :: "string \<Rightarrow> string" where
  "clean_rooted s = CHR ''/'' # JoinStr (clean_parts [] (SplitChar (CHR ''/'') s)) ''/''"

definition plain_part :: "string \<Rightarrow> bool" where
  "plain_part p \<longleftrightarrow> p \<noteq> [] \<and> p \<noteq> ''.'' \<and> p \<noteq> ''..'' \<and> CHR ''/'' \<notin> set p"

lemma clean_parts_plain:
  "(\<And>p. p \<in> set ps \<Longrightarrow> plain_part p) \<Longrightarrow> clean_parts acc ps = rev acc @ ps"
  by (induction acc ps rule: clean_parts.induct) (auto simp: plain_part_def)

lemma clean_parts_append:
  "(\<And>p. p \<in> set ys \<Longrightarrow> plain_part p) \<Longrightarrow> clean_parts acc (xs @ ys) = clean_parts acc xs @ ys"
  by (induction acc xs rule: clean_parts.induct) (simp_all add: clean_parts_plain)

lemma clean_parts_are_plain:
  assumes "\<And>p. p \<in> set ps \<Longrightarrow> CHR ''/'' \<notin> set p" and "\<And>p. p \<in> set acc \<Longrightarrow> plain_part p"
    and "p \<in> set (clean_parts acc ps)"
  shows "plain_part p"
  using assms
proof (induction acc ps rule: clean_parts.induct)
  case (2 acc q ps)
  consider "q = [] \<or> q = ''.''" | "q = ''..''" | "q \<noteq> [] \<and> q \<noteq> ''.'' \<and> q \<noteq> ''..''" by blast
  then show ?case
  proof cases
    case 2
    have "set (tl acc) \<subseteq> set acc" by (cases acc) auto
    with 2 "2.IH"(2) "2.prems" show ?thesis by (auto simp: plain_part_def)
  qed (use 2 in \<open>auto simp: plain_part_def\<close>)
qed auto

lemma clean_rooted_parts:
  "SplitChar (CHR ''/'') (clean_rooted s) =
     [] # (let ps = clean_parts [] (SplitChar (CHR ''/'') s) in if ps = [] then [[]] else ps)"
proof -
  have "CHR ''/'' \<notin> set p" if "p \<in> set (clean_parts [] (SplitChar (CHR ''/'') s))" for p
    using clean_parts_are_plain [OF _ _ that] SplitChar_no_sep
    by (auto simp: plain_part_def)
  then show ?thesis
    by (auto simp: clean_rooted_def Split_Join Let_def)
qed

theorem clean_rooted_idem: "clean_rooted (clean_rooted s) = clean_rooted s"
proof -
  let ?ps = "clean_parts [] (SplitChar (CHR ''/'') s)"
  have "plain_part p" if "p \<in> set ?ps" for p
    using clean_parts_are_plain [OF _ _ that] SplitChar_no_sep by auto
  then have "clean_parts [] ?ps = ?ps"
    using clean_parts_plain [of ?ps "[]"] by simp
  then have "clean_parts [] (SplitChar (CHR ''/'') (clean_rooted s)) = ?ps"
    by (simp add: clean_rooted_parts Let_def)
  then show ?thesis
    by (metis clean_rooted_def)
qed

end
