(* ===== verification/Json.thy ===== *)
theory Json
  imports Go_Strings "HOL-Library.Char_ord" "HOL-Library.List_Lexorder"
begin

text \<open>
  Dynamic values (\<open>any\<close>, \<open>map[string]any\<close>, \<open>storage.Payload\<close>), their text as \<open>json.Marshal\<close> prints it
  (object keys sorted, strings escaped), and the two SQLite functions on JSON that the storage
  statements use: \<open>json_extract(x, '$.field')\<close> and \<open>jsonb_patch\<close> (RFC 7396 merge patch). Numbers are
  integers: the sources store no other.
\<close>

section \<open>Values\<close>

datatype json =
    JNull
  | JBool bool
  | JNum int
  | JStr string
  | JArr "json list"
  | JObj "(string \<times> json) list"

fun json_str :: "json \<Rightarrow> string option" where
  "json_str (JStr s) = Some s"
| "json_str _ = None"

fun json_obj :: "json \<Rightarrow> (string, json) gomap option" where
  "json_obj (JObj m) = Some m"
| "json_obj _ = None"

fun json_int :: "json \<Rightarrow> int option" where
  "json_int (JNum i) = Some i"
| "json_int _ = None"

text \<open>The type assertions \<open>m[k].(string)\<close> and \<open>m[k].(float64)\<close> on a \<open>map[string]any\<close>.\<close>

definition obj_str :: "(string, json) gomap \<Rightarrow> string \<Rightarrow> string option" where
  "obj_str m k = Option.bind (gm_get m k) json_str"

definition obj_int :: "(string, json) gomap \<Rightarrow> string \<Rightarrow> int option" where
  "obj_int m k = Option.bind (gm_get m k) json_int"

section \<open>Text\<close>

definition hex_digit :: "nat \<Rightarrow> char" where
  "hex_digit d = (if d < 10 then char_of (48 + d) else char_of (87 + d))"

definition hex_val :: "char \<Rightarrow> nat" where
  "hex_val c = (let n = of_char c in if n < 58 then n - 48 else n - 87)"

text \<open>The escapes of \<open>encoding/json\<close> for ASCII text; bytes above 127 are left as they are.\<close>

definition u_escaped :: "char \<Rightarrow> bool" where
  "u_escaped c \<longleftrightarrow> (of_char c :: nat) < 32 \<or> c \<in> {CHR ''<'', CHR ''>'', CHR ''&''}"

definition short_escapes :: "(char \<times> char) list" where
  "short_escapes = [(CHR 0x22, CHR 0x22), (CHR 0x5C, CHR 0x5C), (CHR 0x08, CHR ''b''), (CHR 0x0C, CHR ''f''),
     (CHR 0x0A, CHR ''n''), (CHR 0x0D, CHR ''r''), (CHR 0x09, CHR ''t'')]"

definition json_escape :: "char \<Rightarrow> string" where
  "json_escape c =
     (case map_of short_escapes c of
        Some e \<Rightarrow> [CHR 0x5C, e]
      | None \<Rightarrow>
          if u_escaped c
          then [CHR 0x5C, CHR ''u'', CHR ''0'', CHR ''0'', hex_digit (of_char c div 16), hex_digit (of_char c mod 16)]
          else [c])"

definition json_quote :: "string \<Rightarrow> string" where
  "json_quote s = CHR 0x22 # concat (map json_escape s) @ [CHR 0x22]"

fun json_text :: "json \<Rightarrow> string" where
  "json_text JNull = ''null''"
| "json_text (JBool b) = (if b then ''true'' else ''false'')"
| "json_text (JNum i) = itoa i"
| "json_text (JStr s) = json_quote s"
| "json_text (JArr xs) = ''['' @ JoinStr (map json_text xs) '','' @ '']''"
| "json_text (JObj kvs) =
     ''{'' @ JoinStr (map snd (sort_key fst (map (\<lambda>(k, v). (k, json_quote k @ '':'' @ json_text v)) kvs))) '',''
     @ ''}''"

text \<open>\<open>json.Marshal\<close> of a \<open>map[string]string\<close>.\<close>

definition marshal_strmap :: "(string, string) gomap \<Rightarrow> string" where
  "marshal_strmap m =
     ''{'' @ JoinStr (map (\<lambda>(k, v). json_quote k @ '':'' @ json_quote v) (sort_key fst m)) '','' @ ''}''"

section \<open>Reading a quoted string back\<close>

lemma hex_val_digit [simp]: "d < 16 \<Longrightarrow> hex_val (hex_digit d) = d"
  by (auto simp: hex_val_def hex_digit_def Let_def)

fun json_unquote :: "string \<Rightarrow> (string \<times> string) option" where
  "json_unquote [] = None"
| "json_unquote (c # s) =
     (if c = CHR 0x22 then Some ([], s)
      else if c = CHR 0x5C then
        (case s of
           [] \<Rightarrow> None
         | e # t \<Rightarrow>
             if e = CHR ''u'' then
               (case t of
                  _ # _ # h # l # r \<Rightarrow>
                    map_option (\<lambda>(a, b). (char_of (16 * hex_val h + hex_val l) # a, b)) (json_unquote r)
                | _ \<Rightarrow> None)
             else (case map_of (map (\<lambda>(a, b). (b, a)) short_escapes) e of
                     None \<Rightarrow> None
                   | Some a \<Rightarrow> map_option (\<lambda>(x, y). (a # x, y)) (json_unquote t)))
      else map_option (\<lambda>(a, b). (c # a, b)) (json_unquote s))"

lemma json_unquote_escape:
  "json_unquote (json_escape c @ s) = map_option (\<lambda>(a, b). (c # a, b)) (json_unquote s)"
proof (cases "map_of short_escapes c")
  case (Some e)
  then show ?thesis
    by (auto simp: json_escape_def short_escapes_def split: if_splits)
next
  case None
  then have plain: "c \<noteq> CHR 0x22" "c \<noteq> CHR 0x5C"
    by (auto simp: short_escapes_def split: if_splits)
  show ?thesis
  proof (cases "u_escaped c")
    case True
    have "of_char c < (256 :: nat)" by simp
    then have "(of_char c :: nat) div 16 < 16" by (simp add: div_less_iff_less_mult)
    then have "char_of (16 * hex_val (hex_digit (of_char c div 16)) + hex_val (hex_digit (of_char c mod 16))) = c"
      by (simp add: mult.commute [of 16])
    with True None show ?thesis
      by (simp add: json_escape_def)
  next
    case False
    with None plain show ?thesis by (simp add: json_escape_def)
  qed
qed

lemma json_unquote_quote:
  "json_unquote (concat (map json_escape s) @ CHR 0x22 # r) = Some (s, r)"
  by (induction s) (simp_all add: json_unquote_escape)

lemma json_quote_prefix:
  assumes "json_quote s @ r = json_quote s' @ r'"
  shows "s = s' \<and> r = r'"
proof -
  have "concat (map json_escape s) @ CHR 0x22 # r = concat (map json_escape s') @ CHR 0x22 # r'"
    using assms by (simp add: json_quote_def del: concat.simps map_map)
  then have "Some (s, r) = Some (s', r')"
    by (metis json_unquote_quote)
  then show ?thesis by simp
qed

definition pair_text :: "string \<times> string \<Rightarrow> string" where
  "pair_text = (\<lambda>(k, v). json_quote k @ '':'' @ json_quote v)"

lemma pair_text_prefix: "pair_text p @ r = pair_text q @ r' \<Longrightarrow> p = q \<and> r = r'"
proof -
  assume eq: "pair_text p @ r = pair_text q @ r'"
  obtain k v k' v' where pq: "p = (k, v)" "q = (k', v')" by (cases p; cases q)
  with eq have "json_quote k @ CHR '':'' # json_quote v @ r = json_quote k' @ CHR '':'' # json_quote v' @ r'"
    by (simp add: pair_text_def)
  from json_quote_prefix [OF this] have "k = k'" and "json_quote v @ r = json_quote v' @ r'"
    by simp_all
  with pq json_quote_prefix show ?thesis by blast
qed

lemma pair_text_nonempty: "pair_text p \<noteq> []"
  by (cases p) (simp add: pair_text_def json_quote_def)

lemma join_pairs_inj:
  "JoinStr (map pair_text ps) '','' @ ''}'' = JoinStr (map pair_text qs) '','' @ ''}'' \<Longrightarrow> ps = qs"
proof (induction ps arbitrary: qs)
  case Nil
  then show ?case
  proof (cases qs)
    case (Cons q qs')
    with Nil show ?thesis
      by (cases qs'; cases q) (auto simp: pair_text_def json_quote_def)
  qed simp
next
  case (Cons p ps)
  show ?case
  proof (cases qs)
    case Nil
    with Cons.prems show ?thesis
      by (cases ps; cases p) (auto simp: pair_text_def json_quote_def)
  next
    case (Cons q qs')
    let ?tail = "\<lambda>xs. (if xs = [] then [] else '','' @ JoinStr (map pair_text xs) '','') @ ''}''"
    have join: "JoinStr (map pair_text (x # xs)) '','' @ ''}'' = pair_text x @ ?tail xs" for x xs
      by (cases xs) auto
    have eq: "p = q \<and> ?tail ps = ?tail qs'"
      using Cons.prems unfolding Cons join by (rule pair_text_prefix)
    then have "ps = [] \<longleftrightarrow> qs' = []" by (auto split: if_splits)
    with eq have "JoinStr (map pair_text ps) '','' @ ''}'' = JoinStr (map pair_text qs') '','' @ ''}''"
      by (auto split: if_splits)
    then have "ps = qs'" by (rule Cons.IH)
    with eq Cons show ?thesis by simp
  qed
qed

lemma marshal_strmap_inj:
  assumes "gm_wf m" and "gm_wf n"
  shows "marshal_strmap m = marshal_strmap n \<longleftrightarrow> map_of m = map_of n"
proof
  assume "marshal_strmap m = marshal_strmap n"
  then have "sort_key fst m = sort_key fst n"
    by (intro join_pairs_inj) (simp add: marshal_strmap_def pair_text_def)
  then have "set m = set n" by (metis set_sort)
  with assms show "map_of m = map_of n"
    by (simp add: gm_wf_def map_of_inject_set)
next
  assume "map_of m = map_of n"
  with assms have "set m = set n"
    by (simp add: gm_wf_def map_of_inject_set)
  then have "sort_key fst m = sort_key fst n"
    using assms
    by (intro map_sorted_distinct_set_unique [where f = fst])
      (auto simp: gm_wf_def inj_on_def distinct_map dest: eq_key_imp_eq_value)
  then show "marshal_strmap m = marshal_strmap n"
    by (simp add: marshal_strmap_def)
qed

section \<open>Merge patch and extraction\<close>

text \<open>\<open>jsonb_patch(target, patch)\<close>: a patch that is an object updates the target member by member,
  a \<open>null\<close> member removes it, any other patch replaces the target.\<close>

fun json_patch :: "json \<Rightarrow> json \<Rightarrow> json"
  and patch_members :: "(string, json) gomap \<Rightarrow> (string \<times> json) list \<Rightarrow> (string, json) gomap" where
  "json_patch target (JObj ps) = JObj (patch_members (case target of JObj m \<Rightarrow> m | _ \<Rightarrow> []) ps)"
| "json_patch target patch = patch"
| "patch_members m [] = m"
| "patch_members m ((k, v) # ps) =
     patch_members
       (if v = JNull then gm_del k m
        else gm_set k (json_patch (case gm_get m k of None \<Rightarrow> JNull | Some t \<Rightarrow> t) v) m) ps"

text \<open>\<open>json_extract(payload, '$.field')\<close> on an object, as the value of a text column.\<close>

definition column_text :: "json \<Rightarrow> string option" where
  "column_text j =
     (case j of
        JNull \<Rightarrow> None
      | JBool b \<Rightarrow> Some (if b then ''1'' else ''0'')
      | JStr s \<Rightarrow> Some s
      | _ \<Rightarrow> Some (json_text j))"

definition json_extract :: "json \<Rightarrow> string \<Rightarrow> string option" where
  "json_extract j field =
     (case j of JObj m \<Rightarrow> Option.bind (gm_get m field) column_text | _ \<Rightarrow> None)"

lemma gm_get_patch_members:
  assumes "gm_wf ps"
  shows "gm_get (patch_members m ps) k =
     (case gm_get ps k of
        None \<Rightarrow> gm_get m k
      | Some v \<Rightarrow> if v = JNull then None
                  else Some (json_patch (case gm_get m k of None \<Rightarrow> JNull | Some t \<Rightarrow> t) v))"
  using assms
proof (induction ps arbitrary: m)
  case (Cons p ps)
  obtain a v where p: "p = (a, v)" by (cases p)
  with Cons.prems have wf: "gm_wf ps" and fresh: "gm_get ps a = None"
    by (auto simp: gm_wf_def gm_get_def map_of_eq_None_iff)
  have "gm_get (p # ps) k = (if k = a then Some v else gm_get ps k)"
    by (simp add: gm_get_def p)
  with Cons.IH [OF wf] fresh show ?case
    by (auto simp: p split: option.splits)
qed simp

end
