(* ===== verification/Config.thy ===== *)
theory Config
  imports Json
begin

text \<open>
  The pipeline configuration of \<open>backwards/config.go\<close>: the YAML structs as records, the recursive
  \<open>Step\<close> as a datatype over a record of its flat fields, and the methods of that file
  (\<open>ByteSize.UnmarshalYAML\<close>, \<open>EffectiveLimits\<close>, \<open>GetVersionMode\<close>, \<open>GetPinnedVersion\<close>,
  \<open>NotifyNames\<close>). A Go pointer is an \<open>option\<close>, an \<open>any\<close> value a \<open>json\<close> value, an \<open>int64\<close> an
  integer on which arithmetic wraps explicitly.
\<close>

section \<open>Byte sizes\<close>

definition int64_min :: int where "int64_min = - (2 ^ 63)"
definition int64_max :: int where "int64_max = 2 ^ 63 - 1"

definition in_int64 :: "int \<Rightarrow> bool" where
  "in_int64 x \<longleftrightarrow> int64_min \<le> x \<and> x \<le> int64_max"

text \<open>Two's complement wrap-around of an \<open>int64\<close> operation.\<close>

definition wrap64 :: "int \<Rightarrow> int" where
  "wrap64 x = (x + 2 ^ 63) mod 2 ^ 64 - 2 ^ 63"

text \<open>\<open>strconv.ParseInt(s, 10, 64)\<close>: an optional sign, one digit or more, value in range.\<close>

definition parse_int64 :: "string \<Rightarrow> int option" where
  "parse_int64 s =
     (let (neg, ds) = (case s of [] \<Rightarrow> (False, [])
                       | c # r \<Rightarrow> if c = CHR ''-'' then (True, r)
                                  else if c = CHR ''+'' then (False, r) else (False, s))
      in if ds = [] \<or> \<not> list_all is_digit ds then None
         else (let v = (if neg then - int (val10 ds) else int (val10 ds))
               in if in_int64 v then Some v else None))"

datatype bytesize_error =
    BadNode
  | CannotParse string
  | UnknownUnit string string

definition bytesize_multipliers :: "(string, int) gomap" where
  "bytesize_multipliers =
     [('''', 1), (''b'', 1),
      (''kb'', 1000), (''kib'', 1024),
      (''mb'', 1000 * 1000), (''mib'', 1024 * 1024),
      (''gb'', 1000 * 1000 * 1000), (''gib'', 1024 * 1024 * 1024),
      (''tb'', 1000 * 1000 * 1000 * 1000), (''tib'', 1024 * 1024 * 1024 * 1024)]"

text \<open>A YAML node offers what \<open>unmarshal(&n)\<close> and \<open>unmarshal(&s)\<close> would return for it.\<close>

record yaml_node =
  as_int64 :: "int option"
  as_string :: "string option"

definition bytesize_of_string :: "string \<Rightarrow> bytesize_error + int" where
  "bytesize_of_string s0 =
     (let s = TrimSpace s0 in
      if s = [] then Inr 0
      else
        (let unit_part = takeWhile (\<lambda>c. \<not> is_digit c) (rev s);
             numStr = take (length s - length unit_part) s;
             unit = ToLower (TrimSpace (rev unit_part))
         in case parse_int64 numStr of
              None \<Rightarrow> Inl (CannotParse s)
            | Some val \<Rightarrow>
                (case gm_get bytesize_multipliers unit of
                   None \<Rightarrow> Inl (UnknownUnit unit s)
                 | Some mult \<Rightarrow> Inr (wrap64 (val * mult)))))"

definition bytesize_unmarshal :: "yaml_node \<Rightarrow> bytesize_error + int" where
  "bytesize_unmarshal node =
     (case as_int64 node of
        Some n \<Rightarrow> Inr n
      | None \<Rightarrow>
          (case as_string node of
             None \<Rightarrow> Inl BadNode
           | Some s \<Rightarrow> bytesize_of_string s))"

section \<open>Task configuration\<close>

record image_resource =
  ir_source :: "(string, json) gomap"
  ir_type :: string

record task_config_run =
  run_args :: "string list"
  run_dir :: string
  run_path :: string
  run_user :: string

record input_spec =
  in_name :: string
  in_size_gb :: int

record output_spec =
  out_name :: string
  out_size_gb :: int

record container_limits =
  lim_cpu :: int
  lim_cpu_kind :: string
  lim_memory :: int

record cache =
  cache_path :: string
  cache_scope :: string
  cache_size_gb :: int

record task_config =
  tc_caches :: "cache list"
  tc_container_limits :: container_limits
  tc_limits :: container_limits
  tc_env :: "(string, string) gomap option"
  tc_image :: string
  tc_image_resource :: image_resource
  tc_inputs :: "input_spec list"
  tc_outputs :: "output_spec list"
  tc_platform :: string
  tc_run :: "task_config_run option"

definition limits_set :: "container_limits \<Rightarrow> bool" where
  "limits_set l \<longleftrightarrow> lim_memory l \<noteq> 0 \<or> lim_cpu l \<noteq> 0 \<or> lim_cpu_kind l \<noteq> []"

definition EffectiveLimits :: "task_config \<Rightarrow> container_limits" where
  "EffectiveLimits t = (if limits_set (tc_limits t) then tc_limits t else tc_container_limits t)"

section \<open>Get, put, across and image builds\<close>

record get_config =
  gc_resource :: string
  gc_passed :: "string list"
  gc_trigger :: bool
  gc_version :: "json option"

definition GetVersionMode :: "get_config \<Rightarrow> string" where
  "GetVersionMode g =
     (case gc_version g of
        None \<Rightarrow> ''latest''
      | Some v \<Rightarrow> (case v of JStr s \<Rightarrow> if s = ''every'' then ''every'' else ''latest''
                          | _ \<Rightarrow> ''pinned''))"

text \<open>Entries of the pinned map that are not strings are dropped, as the type assertion does.\<close>

fun string_entries :: "(string \<times> json) list \<Rightarrow> (string, string) gomap" where
  "string_entries [] = []"
| "string_entries ((k, v) # r) =
     (case json_str v of Some s \<Rightarrow> (k, s) # string_entries r | None \<Rightarrow> string_entries r)"

definition GetPinnedVersion :: "get_config \<Rightarrow> (string, string) gomap option" where
  "GetPinnedVersion g =
     (case gc_version g of
        Some (JObj m) \<Rightarrow> Some (string_entries m)
      | _ \<Rightarrow> None)"

record put_config =
  pc_get_params :: "(string, string) gomap"
  pc_inputs :: "string list"
  pc_no_get :: bool

record across_var =
  av_var :: string
  av_values :: "string list"
  av_max_in_flight :: int

record build_image_registry =
  reg_hostname :: string
  reg_username :: string
  reg_password :: string
  reg_insecure :: bool

record build_image_config =
  bi_name :: string
  bi_context :: string
  bi_dockerfile :: string
  bi_tag :: string
  bi_push :: bool
  bi_build_args :: "(string, string) gomap"
  bi_target :: string
  bi_platforms :: "string list"
  bi_image :: string
  bi_inputs :: "input_spec list"
  bi_caches :: "cache list"
  bi_env :: "(string, string) gomap"
  bi_registry :: "build_image_registry option"
  bi_timeout :: int
  bi_container_limits :: container_limits
  bi_limits :: container_limits

definition BuildImageEffectiveLimits :: "build_image_config \<Rightarrow> container_limits" where
  "BuildImageEffectiveLimits b =
     (if limits_set (bi_limits b) then bi_limits b else bi_container_limits b)"

section \<open>Steps\<close>

record step_assert =
  sa_code :: "int option"
  sa_stderr :: string
  sa_stdout :: string

text \<open>The fields of \<open>Step\<close> that hold no step. The agent's own settings (\<open>llm\<close>, \<open>thinking\<close>,
  \<open>safety\<close>, \<open>limits\<close>, \<open>context\<close>, \<dots>) are one opaque value here: no function of the YAML engine reads
  them. A \<open>time.Duration\<close> is an integer of nanoseconds.\<close>

record step_fields =
  sf_assert :: "step_assert option"
  sf_task :: string
  sf_parallelism :: int
  sf_config :: "task_config option"
  sf_container_limits :: "container_limits option"
  sf_file :: string
  sf_uri :: string
  sf_image :: string
  sf_privileged :: bool
  sf_agent :: string
  sf_prompt :: string
  sf_model :: string
  sf_prompt_file :: string
  sf_agent_settings :: json
  sf_description :: string
  sf_build_image :: "build_image_config option"
  sf_get :: string
  sf_get_config :: get_config
  sf_put :: string
  sf_put_config :: "put_config option"
  sf_params :: "(string, string) gomap option"
  sf_notify :: "json option"
  sf_message :: string
  sf_message_file :: string
  sf_async :: bool
  sf_in_parallel_limit :: int
  sf_in_parallel_fail_fast :: bool
  sf_across :: "across_var list"
  sf_across_fail_fast :: bool
  sf_attempts :: int
  sf_timeout :: int

datatype step = Step
  (sfields: step_fields)
  (step_tools: "step list")
  (step_do: "step list")
  (step_try: "step list")
  (step_in_parallel: "step list")
  (step_ensure: "step option")
  (step_on_abort: "step option")
  (step_on_error: "step option")
  (step_on_success: "step option")
  (step_on_failure: "step option")

definition with_fields :: "(step_fields \<Rightarrow> step_fields) \<Rightarrow> step \<Rightarrow> step" where
  "with_fields f s =
     Step (f (sfields s)) (step_tools s) (step_do s) (step_try s) (step_in_parallel s)
       (step_ensure s) (step_on_abort s) (step_on_error s) (step_on_success s) (step_on_failure s)"

definition NotifyNames :: "step \<Rightarrow> string list" where
  "NotifyNames s =
     (case sf_notify (sfields s) of
        Some (JStr v) \<Rightarrow> if v = [] then [] else [v]
      | Some (JArr v) \<Rightarrow> List.map_filter json_str v
      | _ \<Rightarrow> [])"

section \<open>Jobs and pipelines\<close>

record webhook_trigger_config =
  wt_filter :: string
  wt_dedup_key :: string
  wt_params :: "(string, string) gomap"

record schedule_trigger_config =
  st_cron :: string
  st_every :: string

record triggers =
  tr_webhook :: "webhook_trigger_config option"
  tr_schedule :: "schedule_trigger_config option"
  tr_passed :: "string list"

record gate_config =
  gate_message :: string
  gate_timeout :: string

record build_log_retention =
  blr_builds :: int
  blr_days :: int

text \<open>\<open>job_assert\<close> is the pointer \<open>Assert\<close>; the slice \<open>Execution\<close> inside may itself be nil.\<close>

record job =
  job_assert :: "string list option option"
  job_retention :: "build_log_retention option"
  job_name :: string
  job_plan :: "step list"
  job_depends_on :: "string list"
  job_gate :: "gate_config option"
  job_max_in_flight :: int
  job_public :: bool
  job_ensure :: "step option"
  job_on_abort :: "step option"
  job_on_error :: "step option"
  job_on_success :: "step option"
  job_on_failure :: "step option"
  job_timeout :: int
  job_triggers :: "triggers option"
  job_webhook_trigger :: string

record resource_type =
  rt_name :: string
  rt_source :: "(string, json) gomap"
  rt_type :: string

record resource =
  res_name :: string
  res_icon :: string
  res_source :: "(string, json) gomap"
  res_type :: string

record config =
  cfg_assert_execution :: "string list option"
  cfg_max_in_flight :: int
  cfg_notifications :: "(string, json) gomap"
  cfg_jobs :: "job list"
  cfg_resources :: "resource list"
  cfg_resource_types :: "resource_type list"

section \<open>Byte sizes in range\<close>

lemma wrap64_id [simp]: "in_int64 x \<Longrightarrow> wrap64 x = x"
  by (simp add: wrap64_def in_int64_def int64_min_def int64_max_def)

lemma wrap64_in_int64: "in_int64 (wrap64 x)"
  using pos_mod_bound [of "2 ^ 64" "x + 2 ^ 63"] pos_mod_sign [of "2 ^ 64" "x + 2 ^ 63"]
  by (simp add: wrap64_def in_int64_def int64_min_def int64_max_def)

lemma digit_not_space: "is_digit c \<Longrightarrow> \<not> is_space c"
  by (auto simp: is_digit_def is_space_def)

lemma minus_not_space [simp]: "\<not> is_space (CHR ''-'')"
  by (simp add: is_space_def)

lemma parse_int64_itoa:
  assumes "in_int64 n"
  shows "parse_int64 (itoa n) = Some n"
proof (cases "n < 0")
  case True
  then show ?thesis
    using assms digits10_all_digits
    by (auto simp: parse_int64_def itoa_def list_all_iff)
next
  case False
  obtain c cs where ds: "digits10 (nat n) = c # cs"
    using digits10_nonempty [of "nat n"] by (meson neq_Nil_conv)
  have dig: "list_all is_digit (c # cs)"
    using digits10_all_digits [of _ "nat n"] ds by (metis list_all_iff)
  have "val10 (c # cs) = nat n"
    using val10_digits10 [of "nat n"] ds by simp
  moreover have "c \<noteq> CHR ''-''" "c \<noteq> CHR ''+''"
    using dig by (auto simp: is_digit_def)
  ultimately show ?thesis
    using assms False ds dig by (simp add: parse_int64_def itoa_def)
qed

lemma TrimSpace_id: "list_all (\<lambda>c. \<not> is_space c) s \<Longrightarrow> TrimSpace s = s"
proof -
  assume "list_all (\<lambda>c. \<not> is_space c) s"
  then have "dropWhile is_space s = s" "dropWhile is_space (rev s) = rev s"
    by (metis dropWhile_eq_self_iff hd_in_set list_all_iff)
      (metis \<open>list_all (\<lambda>c. \<not> is_space c) s\<close> dropWhile_eq_self_iff hd_in_set list_all_iff set_rev)
  then show ?thesis by (simp add: TrimSpace_def)
qed

lemma itoa_no_space: "list_all (\<lambda>c. \<not> is_space c) (itoa n)"
  by (auto simp: itoa_def list_all_iff dest!: digits10_all_digits digit_not_space)

lemma itoa_last_digit: "itoa n \<noteq> [] \<and> is_digit (last (itoa n))"
  by (simp add: itoa_def digits10_all_digits [OF last_in_set])

text \<open>A byte size written as a decimal \<open>int64\<close> followed by a known unit, in any case, reads as
  the product of the number and the unit's multiplier: exactly when the product fits an \<open>int64\<close>, and
  wrapped modulo $2^{64}$, with no error, when it does not.\<close>

theorem bytesize_of_number_and_unit:
  assumes "in_int64 n"
    and "list_all (\<lambda>c. \<not> is_digit c \<and> \<not> is_space c) u"
    and "gm_get bytesize_multipliers (ToLower u) = Some m"
  shows "bytesize_of_string (itoa n @ u) = Inr (wrap64 (n * m))
    \<and> (in_int64 (n * m) \<longrightarrow> bytesize_of_string (itoa n @ u) = Inr (n * m))"
proof -
  have u: "list_all (\<lambda>c. \<not> is_space c) u" "list_all (\<lambda>c. \<not> is_digit c) u"
    using assms(2) by (auto simp: list_all_iff)
  then have trim: "TrimSpace (itoa n @ u) = itoa n @ u" "TrimSpace u = u"
    using itoa_no_space by (simp_all add: TrimSpace_id)
  have "takeWhile (\<lambda>c. \<not> is_digit c) (rev (itoa n)) = []"
    using itoa_last_digit [of n] by (cases "itoa n" rule: rev_cases) auto
  then have "takeWhile (\<lambda>c. \<not> is_digit c) (rev (itoa n @ u)) = rev u"
    using u(2) by (simp add: list_all_iff takeWhile_append)
  then have "bytesize_of_string (itoa n @ u) = Inr (wrap64 (n * m))"
    using trim assms parse_int64_itoa itoa_last_digit
    by (simp add: bytesize_of_string_def Let_def)
  then show ?thesis
    by simp
qed

text \<open>512 mebibytes are exact; $2^{54}$ kibibytes wrap to zero.\<close>

theorem bytesize_of_number_and_unit_witness:
  "bytesize_of_string (itoa 512 @ ''MiB'') = Inr 536870912
   \<and> bytesize_of_string (itoa 18014398509481984 @ ''KiB'') = Inr 0"
proof -
  have "gm_get bytesize_multipliers (ToLower ''MiB'') = Some 1048576"
    and "gm_get bytesize_multipliers (ToLower ''KiB'') = Some 1024"
    by code_simp+
  then have "bytesize_of_string (itoa 512 @ ''MiB'') = Inr (wrap64 (512 * 1048576))"
    and "bytesize_of_string (itoa 18014398509481984 @ ''KiB'') = Inr (wrap64 (18014398509481984 * 1024))"
    using bytesize_of_number_and_unit [of 512 "''MiB''" 1048576]
      bytesize_of_number_and_unit [of 18014398509481984 "''KiB''" 1024]
    by (simp_all add: in_int64_def int64_min_def int64_max_def is_digit_def is_space_def)
  then show ?thesis
    by (simp add: wrap64_def)
qed

end
