(* ===== verification/Samples.thy ===== *)
theory Samples
  imports Config
begin

text \<open>
  The zero values of the configuration structs, as Go initialises them, and small builders for
  the concrete pipelines on which the theorems of the other theories are instantiated.
\<close>

definition zero_limits :: container_limits where
  "zero_limits = \<lparr>lim_cpu = 0, lim_cpu_kind = [], lim_memory = 0\<rparr>"

definition zero_task_config :: task_config where
  "zero_task_config =
     \<lparr>tc_caches = [], tc_container_limits = zero_limits, tc_limits = zero_limits, tc_env = None,
      tc_image = [], tc_image_resource = \<lparr>ir_source = [], ir_type = []\<rparr>, tc_inputs = [],
      tc_outputs = [], tc_platform = [], tc_run = None\<rparr>"

definition zero_get_config :: get_config where
  "zero_get_config = \<lparr>gc_resource = [], gc_passed = [], gc_trigger = False, gc_version = None\<rparr>"

definition zero_fields :: step_fields where
  "zero_fields =
     \<lparr>sf_assert = None, sf_task = [], sf_parallelism = 0, sf_config = None, sf_container_limits = None,
      sf_file = [], sf_uri = [], sf_image = [], sf_privileged = False, sf_agent = [], sf_prompt = [],
      sf_model = [], sf_prompt_file = [], sf_agent_settings = JNull, sf_description = [],
      sf_build_image = None, sf_get = [], sf_get_config = zero_get_config, sf_put = [],
      sf_put_config = None, sf_params = None, sf_notify = None, sf_message = [], sf_message_file = [],
      sf_async = False, sf_in_parallel_limit = 0, sf_in_parallel_fail_fast = False, sf_across = [],
      sf_across_fail_fast = False, sf_attempts = 0, sf_timeout = 0\<rparr>"

definition leaf_step :: "step_fields \<Rightarrow> step" where
  "leaf_step f = Step f [] [] [] [] None None None None None"

definition run_config :: "string \<Rightarrow> string list \<Rightarrow> string list \<Rightarrow> task_config" where
  "run_config path ins outs =
     zero_task_config\<lparr>tc_run := Some \<lparr>run_args = [], run_dir = [], run_path = path, run_user = []\<rparr>,
       tc_inputs := map (\<lambda>n. \<lparr>in_name = n, in_size_gb = 0\<rparr>) ins,
       tc_outputs := map (\<lambda>n. \<lparr>out_name = n, out_size_gb = 0\<rparr>) outs\<rparr>"

definition task_fields :: "string \<Rightarrow> string list \<Rightarrow> string list \<Rightarrow> step_fields" where
  "task_fields name ins outs =
     zero_fields\<lparr>sf_task := name, sf_config := Some (run_config ''sh'' ins outs)\<rparr>"

definition get_fields :: "string \<Rightarrow> string list \<Rightarrow> step_fields" where
  "get_fields name passed =
     zero_fields\<lparr>sf_get := name, sf_get_config := zero_get_config\<lparr>gc_passed := passed\<rparr>\<rparr>"

definition task_step :: "string \<Rightarrow> step" where
  "task_step name = leaf_step (task_fields name [] [])"

definition do_step :: "step list \<Rightarrow> step" where
  "do_step ss = Step zero_fields [] ss [] [] None None None None None"

definition try_step :: "step list \<Rightarrow> step" where
  "try_step ss = Step zero_fields [] [] ss [] None None None None None"

definition par_step :: "step list \<Rightarrow> step" where
  "par_step ss = Step zero_fields [] [] [] ss None None None None None"

definition zero_job :: "string \<Rightarrow> step list \<Rightarrow> job" where
  "zero_job name plan =
     \<lparr>job_assert = None, job_retention = None, job_name = name, job_plan = plan, job_depends_on = [],
      job_gate = None, job_max_in_flight = 0, job_public = False, job_ensure = None, job_on_abort = None,
      job_on_error = None, job_on_success = None, job_on_failure = None, job_timeout = 0,
      job_triggers = None, job_webhook_trigger = []\<rparr>"

definition zero_config :: "job list \<Rightarrow> config" where
  "zero_config jobs =
     \<lparr>cfg_assert_execution = None, cfg_max_in_flight = 0, cfg_notifications = [], cfg_jobs = jobs,
      cfg_resources = [], cfg_resource_types = []\<rparr>"

lemmas sample_defs =
  zero_limits_def zero_task_config_def zero_get_config_def zero_fields_def leaf_step_def run_config_def
  task_fields_def get_fields_def task_step_def do_step_def try_step_def par_step_def
  zero_job_def zero_config_def

end
