(* ===== verification/Dfs.thy ===== *)
theory Dfs
  imports Prelude
begin

text \<open>
  The three-colour depth-first search that \<open>backwards/pipeline.go\<close> (\<open>validateDependsOn\<close>) and
  \<open>runtime/backwards/runner.go\<close> (\<open>validateNoCycles\<close>) both write out: the closure \<open>visit\<close> over the
  map \<open>color\<close>, and the loop that starts it at every white job. \<open>visit\<close> recurses without a
  structural argument, so it carries fuel; \<open>dfs_enough_fuel\<close> shows that one unit per node is enough,
  and \<open>dfs_all_iff\<close> that the search accepts exactly the acyclic graphs.
\<close>

datatype color = White | Gray | Black

type_synonym colors = "string \<Rightarrow> color"
type_synonym adjacency = "string \<Rightarrow> string list"

datatype dfs_result =
    Explored colors
  | Cycle string string
  | OutOfFuel

fun visit :: "nat \<Rightarrow> adjacency \<Rightarrow> string \<Rightarrow> colors \<Rightarrow> dfs_result"
and visit_deps :: "nat \<Rightarrow> adjacency \<Rightarrow> string \<Rightarrow> string list \<Rightarrow> colors \<Rightarrow> dfs_result" where
  "visit 0 adj name col = OutOfFuel"
| "visit (Suc n) adj name col =
     (case visit_deps n adj name (adj name) (col(name := Gray)) of
        Explored col' \<Rightarrow> Explored (col'(name := Black))
      | r \<Rightarrow> r)"
| "visit_deps n adj name [] col = Explored col"
| "visit_deps n adj name (dep # deps) col =
     (case col dep of
        Gray \<Rightarrow> Cycle name dep
      | White \<Rightarrow>
          (case visit n adj dep col of
             Explored col' \<Rightarrow> visit_deps n adj name deps col'
           | r \<Rightarrow> r)
      | Black \<Rightarrow> visit_deps n adj name deps col)"

fun visit_all :: "nat \<Rightarrow> adjacency \<Rightarrow> string list \<Rightarrow> colors \<Rightarrow> dfs_result" where
  "visit_all n adj [] col = Explored col"
| "visit_all n adj (name # names) col =
     (if col name = White
      then (case visit n adj name col of
              Explored col' \<Rightarrow> visit_all n adj names col'
            | r \<Rightarrow> r)
      else visit_all n adj names col)"

definition dfs_all :: "adjacency \<Rightarrow> string list \<Rightarrow> dfs_result" where
  "dfs_all adj names = visit_all (Suc (length names)) adj names (\<lambda>_. White)"

definition edges :: "adjacency \<Rightarrow> (string \<times> string) set" where
  "edges adj = {(a, b). b \<in> set (adj a)}"

lemma edges_iff [simp]: "(a, b) \<in> edges adj \<longleftrightarrow> b \<in> set (adj a)"
  by (simp add: edges_def)

section \<open>The search keeps black nodes closed and free of cycles\<close>

definition black_inv :: "adjacency \<Rightarrow> colors \<Rightarrow> bool" where
  "black_inv adj col \<longleftrightarrow>
     (\<forall>x. col x = Black \<longrightarrow> (\<forall>y\<in>set (adj x). col y = Black) \<and> (x, x) \<notin> (edges adj)\<^sup>+)"

text \<open>What a completed call may change: grey nodes stay exactly the grey nodes, black nodes stay
  black.\<close>

definition col_ext :: "colors \<Rightarrow> colors \<Rightarrow> bool" where
  "col_ext col col' \<longleftrightarrow> (\<forall>x. (col' x = Gray \<longleftrightarrow> col x = Gray) \<and> (col x = Black \<longrightarrow> col' x = Black))"

lemma col_ext_refl [simp]: "col_ext col col"
  by (simp add: col_ext_def)

lemma col_ext_trans: "col_ext a b \<Longrightarrow> col_ext b c \<Longrightarrow> col_ext a c"
  by (simp add: col_ext_def)

lemma black_closed_rtrancl:
  assumes "(x, y) \<in> (edges adj)\<^sup>*" and "black_inv adj col" and "col x = Black"
  shows "col y = Black"
  using assms by (induction rule: rtrancl_induct) (auto simp: black_inv_def)

lemma finish_black_inv:
  assumes inv: "black_inv adj col'" and gray: "col' name = Gray"
    and deps: "\<forall>d\<in>set (adj name). col' d = Black"
  shows "black_inv adj (col'(name := Black))"
proof -
  have "(name, name) \<notin> (edges adj)\<^sup>+"
  proof
    assume "(name, name) \<in> (edges adj)\<^sup>+"
    then obtain d where "d \<in> set (adj name)" and "(d, name) \<in> (edges adj)\<^sup>*"
      by (auto dest: tranclD)
    then have "col' name = Black"
      using black_closed_rtrancl [OF _ inv] deps by blast
    with gray show False by simp
  qed
  with inv deps show ?thesis by (auto simp: black_inv_def)
qed

lemma visit_explored:
  "visit n adj name col = Explored col' \<Longrightarrow> black_inv adj col \<Longrightarrow> col name = White \<Longrightarrow>
     black_inv adj col' \<and> col_ext col col' \<and> col' name = Black"
  "visit_deps n adj name deps col = Explored col' \<Longrightarrow> black_inv adj col \<Longrightarrow>
     black_inv adj col' \<and> col_ext col col' \<and> (\<forall>d\<in>set deps. col' d = Black)"
proof (induction n adj name col and n adj name deps col arbitrary: col' and col'
    rule: visit_visit_deps.induct)
  case (2 n adj name col)
  from "2.prems"(1) obtain c where
    c: "visit_deps n adj name (adj name) (col(name := Gray)) = Explored c"
    and col': "col' = c(name := Black)"
    by (auto split: dfs_result.splits)
  have "black_inv adj (col(name := Gray))"
    using "2.prems"(2,3) by (auto simp: black_inv_def)
  with "2.IH" c have c_inv: "black_inv adj c" and c_ext: "col_ext (col(name := Gray)) c"
    and c_deps: "\<forall>d\<in>set (adj name). c d = Black"
    by blast+
  then have "c name = Gray" by (auto simp: col_ext_def)
  then have "black_inv adj col'"
    unfolding col' using finish_black_inv c_inv c_deps by blast
  moreover have "col_ext col col'"
    using c_ext "2.prems"(3) unfolding col' col_ext_def by (auto split: if_splits)
  moreover have "col' name = Black" by (simp add: col')
  ultimately show ?case by blast
next
  case (4 n adj name dep deps col)
  show ?case
  proof (cases "col dep")
    case White
    with "4.prems"(1) obtain c where v: "visit n adj dep col = Explored c"
      and d: "visit_deps n adj name deps c = Explored col'"
      by (auto split: dfs_result.splits)
    have c: "black_inv adj c \<and> col_ext col c \<and> c dep = Black"
      using "4.IH"(1) White v "4.prems"(2) by blast
    have "black_inv adj col' \<and> col_ext c col' \<and> (\<forall>x\<in>set deps. col' x = Black)"
      using "4.IH"(2) White v d c by blast
    with c show ?thesis
      by (auto intro: col_ext_trans simp: col_ext_def)
  next
    case Black
    with 4 show ?thesis by (auto simp: col_ext_def)
  qed (use 4 in auto)
qed auto

text \<open>A reported cycle is one: the grey nodes are the path from the start to the current node.\<close>

definition gray_path :: "adjacency \<Rightarrow> string \<Rightarrow> colors \<Rightarrow> bool" where
  "gray_path adj name col \<longleftrightarrow> (\<forall>g. col g = Gray \<longrightarrow> (g, name) \<in> (edges adj)\<^sup>*)"

lemma gray_path_step:
  assumes "gray_path adj name col" and "dep \<in> set (adj name)"
  shows "gray_path adj dep (col(dep := Gray))"
  using assms unfolding gray_path_def
  by (auto simp: edges_def intro: rtrancl.rtrancl_into_rtrancl split: if_splits)

lemma visit_cycle:
  "visit n adj name col = Cycle a b \<Longrightarrow> black_inv adj col \<Longrightarrow> col name = White \<Longrightarrow>
     gray_path adj name (col(name := Gray)) \<Longrightarrow> (a, b) \<in> edges adj \<and> (b, a) \<in> (edges adj)\<^sup>*"
  "visit_deps n adj name deps col = Cycle a b \<Longrightarrow> black_inv adj col \<Longrightarrow> set deps \<subseteq> set (adj name) \<Longrightarrow>
     gray_path adj name col \<Longrightarrow> (a, b) \<in> edges adj \<and> (b, a) \<in> (edges adj)\<^sup>*"
proof (induction n adj name col and n adj name deps col rule: visit_visit_deps.induct)
  case (2 n adj name col)
  have "black_inv adj (col(name := Gray))"
    using "2.prems"(2,3) by (auto simp: black_inv_def)
  moreover have "visit_deps n adj name (adj name) (col(name := Gray)) = Cycle a b"
    using "2.prems"(1) by (simp split: dfs_result.splits)
  ultimately show ?case using "2.IH" "2.prems"(4) by blast
next
  case (4 n adj name dep deps col)
  have dep: "dep \<in> set (adj name)" using "4.prems"(3) by simp
  show ?case
  proof (cases "col dep")
    case White
    show ?thesis
    proof (cases "visit n adj dep col")
      case (Explored c)
      with "4.prems"(2) White have c: "black_inv adj c" "col_ext col c"
        using visit_explored(1) by blast+
      then have "gray_path adj name c"
        using "4.prems"(4) by (auto simp: gray_path_def col_ext_def)
      with "4.IH"(2) White Explored c "4.prems"(1,3) show ?thesis by simp
    next
      case (Cycle a' b')
      have "gray_path adj dep (col(dep := Gray))"
        by (rule gray_path_step [OF "4.prems"(4) dep])
      moreover have "visit n adj dep col = Cycle a b"
        using White Cycle "4.prems"(1) by simp
      ultimately show ?thesis using "4.IH"(1) White "4.prems"(2) by blast
    qed (use White "4.prems"(1) in simp)
  next
    case Gray
    with "4.prems"(1,4) dep show ?thesis by (auto simp: gray_path_def)
  qed (use 4 in auto)
qed auto

lemma visit_all_explored:
  "visit_all n adj names col = Explored col' \<Longrightarrow> black_inv adj col \<Longrightarrow> (\<forall>x. col x \<noteq> Gray) \<Longrightarrow>
     black_inv adj col' \<and> col_ext col col' \<and> (\<forall>x\<in>set names. col' x = Black)"
proof (induction n adj names col rule: visit_all.induct)
  case (2 n adj name names col)
  show ?case
  proof (cases "col name = White")
    case True
    with "2.prems"(1) obtain c where v: "visit n adj name col = Explored c"
      and a: "visit_all n adj names c = Explored col'"
      by (auto split: dfs_result.splits)
    have c: "black_inv adj c \<and> col_ext col c \<and> c name = Black"
      using visit_explored(1) [OF v "2.prems"(2) True] .
    then have "\<forall>x. c x \<noteq> Gray" using "2.prems"(3) by (auto simp: col_ext_def)
    with "2.IH"(1) [OF True v a] c have
      "black_inv adj col' \<and> col_ext c col' \<and> (\<forall>x\<in>set names. col' x = Black)" by blast
    with c show ?thesis by (simp add: col_ext_def)
  next
    case False
    with "2.prems"(3) have "col name = Black" by (cases "col name") auto
    moreover have "visit_all n adj names col = Explored col'"
      using False "2.prems"(1) by simp
    ultimately show ?thesis
      using "2.IH"(2) [OF False _ "2.prems"(2,3)] by (simp add: col_ext_def)
  qed
qed auto

lemma visit_all_cycle:
  "visit_all n adj names col = Cycle a b \<Longrightarrow> black_inv adj col \<Longrightarrow> (\<forall>x. col x \<noteq> Gray) \<Longrightarrow>
     (a, b) \<in> edges adj \<and> (b, a) \<in> (edges adj)\<^sup>*"
proof (induction n adj names col rule: visit_all.induct)
  case (2 n adj name names col)
  show ?case
  proof (cases "col name = White")
    case True
    show ?thesis
    proof (cases "visit n adj name col")
      case (Explored c)
      then have "black_inv adj c" "\<forall>x. c x \<noteq> Gray"
        using visit_explored(1) [OF Explored "2.prems"(2) True] "2.prems"(3)
        by (auto simp: col_ext_def)
      with "2.IH"(1) True Explored "2.prems"(1) show ?thesis by simp
    next
      case (Cycle a' b')
      have "gray_path adj name (col(name := Gray))"
        using "2.prems"(3) by (simp add: gray_path_def)
      with visit_cycle(1) [OF _ "2.prems"(2) True] Cycle True "2.prems"(1) show ?thesis by simp
    qed (use True "2.prems"(1) in simp)
  qed (use 2 in simp)
qed auto

section \<open>Enough fuel\<close>

definition whites :: "string set \<Rightarrow> colors \<Rightarrow> nat" where
  "whites U col = card {x \<in> U. col x = White}"

lemma whites_mono:
  assumes "finite U" and "\<forall>x. col' x = White \<longrightarrow> col x = White"
  shows "whites U col' \<le> whites U col"
  unfolding whites_def using assms by (intro card_mono) auto

lemma whites_gray:
  assumes "finite U" and "name \<in> U" and "col name = White"
  shows "whites U (col(name := Gray)) < whites U col"
  unfolding whites_def using assms by (intro psubset_card_mono) auto

definition closed_nodes :: "string set \<Rightarrow> adjacency \<Rightarrow> bool" where
  "closed_nodes U adj \<longleftrightarrow> (\<forall>x\<in>U. set (adj x) \<subseteq> U)"

definition no_new_white :: "dfs_result \<Rightarrow> colors \<Rightarrow> bool" where
  "no_new_white r col \<longleftrightarrow> r \<noteq> OutOfFuel \<and> (\<forall>c x. r = Explored c \<longrightarrow> c x = White \<longrightarrow> col x = White)"

lemma visit_no_fuel:
  "finite U \<Longrightarrow> closed_nodes U adj \<Longrightarrow> name \<in> U \<Longrightarrow> col name = White \<Longrightarrow> whites U col \<le> n \<Longrightarrow>
     no_new_white (visit n adj name col) col"
  "finite U \<Longrightarrow> closed_nodes U adj \<Longrightarrow> set deps \<subseteq> U \<Longrightarrow> whites U col \<le> n \<Longrightarrow>
     no_new_white (visit_deps n adj name deps col) col"
proof (induction n adj name col and n adj name deps col rule: visit_visit_deps.induct)
  case (1 adj name col)
  then show ?case using whites_gray [of U name col] by simp
next
  case (2 n adj name col)
  let ?r = "visit_deps n adj name (adj name) (col(name := Gray))"
  have "whites U (col(name := Gray)) \<le> n"
    using whites_gray [of U name col] 2 by linarith
  moreover have "set (adj name) \<subseteq> U"
    using "2.prems"(2,3) by (simp add: closed_nodes_def)
  ultimately have "no_new_white ?r (col(name := Gray))"
    using 2 by blast
  then show ?case
    by (cases ?r) (auto simp: no_new_white_def split: if_splits)
next
  case (4 n adj name dep deps col)
  show ?case
  proof (cases "col dep")
    case White
    with 4 have v: "no_new_white (visit n adj dep col) col" by simp
    show ?thesis
    proof (cases "visit n adj dep col")
      case (Explored c)
      with v have mono: "\<forall>x. c x = White \<longrightarrow> col x = White" by (auto simp: no_new_white_def)
      then have "whites U c \<le> n"
        using whites_mono [OF "4.prems"(1)] "4.prems"(4) le_trans by blast
      with "4.IH"(2) [OF White Explored] "4.prems" have "no_new_white (visit_deps n adj name deps c) c"
        by simp
      with mono White Explored show ?thesis by (auto simp: no_new_white_def)
    qed (use White v in \<open>auto simp: no_new_white_def\<close>)
  next
    case Gray
    then show ?thesis by (simp add: no_new_white_def)
  next
    case Black
    with 4 show ?thesis by simp
  qed
qed (simp_all add: no_new_white_def)

lemma visit_all_no_fuel:
  assumes "finite U" and "closed_nodes U adj"
  shows "set names \<subseteq> U \<Longrightarrow> whites U col \<le> n \<Longrightarrow> visit_all n adj names col \<noteq> OutOfFuel"
proof (induction names arbitrary: col)
  case (Cons name names)
  show ?case
  proof (cases "col name = White")
    case True
    have v: "no_new_white (visit n adj name col) col"
      using visit_no_fuel(1) assms True Cons.prems by simp
    show ?thesis
    proof (cases "visit n adj name col")
      case (Explored c)
      with v have "whites U c \<le> whites U col"
        using whites_mono [OF assms(1)] by (auto simp: no_new_white_def)
      with Cons True Explored show ?thesis by simp
    qed (use v True in \<open>auto simp: no_new_white_def\<close>)
  qed (use Cons in simp)
qed simp

section \<open>The search decides acyclicity\<close>

lemma black_inv_init [simp]: "black_inv adj (\<lambda>_. White)"
  by (simp add: black_inv_def)

lemma dfs_enough_fuel:
  assumes "\<And>x. x \<in> set names \<Longrightarrow> set (adj x) \<subseteq> set names"
  shows "dfs_all adj names \<noteq> OutOfFuel"
proof -
  have "whites (set names) (\<lambda>_. White) \<le> Suc (length names)"
    unfolding whites_def by (simp add: card_length le_SucI)
  with assms show ?thesis
    unfolding dfs_all_def
    by (intro visit_all_no_fuel [of "set names"]) (auto simp: closed_nodes_def)
qed

lemma dfs_all_cycle: "dfs_all adj names = Cycle a b \<Longrightarrow> \<not> acyclic (edges adj)"
  using visit_all_cycle [of "Suc (length names)" adj names "\<lambda>_. White" a b]
    rtrancl_into_trancl2 [of a b "edges adj" a]
  unfolding dfs_all_def acyclic_def by auto

lemma dfs_all_explored:
  assumes "dfs_all adj names = Explored col" and "\<And>x. adj x \<noteq> [] \<Longrightarrow> x \<in> set names"
  shows "acyclic (edges adj)"
proof -
  have inv: "black_inv adj col" and black: "\<forall>x\<in>set names. col x = Black"
    using visit_all_explored [OF assms(1) [unfolded dfs_all_def]] by auto
  show ?thesis
  proof (rule acyclicI, rule allI, rule notI)
    fix x assume cyc: "(x, x) \<in> (edges adj)\<^sup>+"
    then have "adj x \<noteq> []" by (auto dest: tranclD)
    with assms(2) black have "col x = Black" by blast
    with inv cyc show False by (auto simp: black_inv_def)
  qed
qed

lemma dfs_all_iff:
  assumes "\<And>x. x \<in> set names \<Longrightarrow> set (adj x) \<subseteq> set names"
    and "\<And>x. adj x \<noteq> [] \<Longrightarrow> x \<in> set names"
  shows "(\<exists>col. dfs_all adj names = Explored col) \<longleftrightarrow> acyclic (edges adj)"
proof (cases "dfs_all adj names")
  case (Explored col)
  then show ?thesis using dfs_all_explored assms(2) by auto
next
  case (Cycle a b)
  then show ?thesis using dfs_all_cycle by auto
next
  case OutOfFuel
  then show ?thesis using dfs_enough_fuel assms(1) by blast
qed

end
