(* ===== verification/Go_Time.thy ===== *)
theory Go_Time
  imports Go_Strings
begin

text \<open>
  Go's \<open>time.ParseDuration\<close> as the sources use it (gate timeouts, schedule intervals): a signed
  sequence of decimal numbers with unit suffixes, in nanoseconds, with the overflow checks of the
  library. The library adds a fraction with floating point; here it is the exact quotient
  rounded down, which is the same value for the fractions a float holds exactly.
\<close>

definition duration_units :: "(string, nat) gomap" where
  "duration_units =
     [(''ns'', 1), (''us'', 1000), ([char_of (0xC2 :: nat), char_of (0xB5 :: nat), CHR ''s''], 1000),
      ([char_of (0xCE :: nat), char_of (0xBC :: nat), CHR ''s''], 1000), (''ms'', 1000000), (''s'', 1000000000),
      (''m'', 60 * 1000000000), (''h'', 3600 * 1000000000)]"

definition frac_part :: "string \<Rightarrow> string \<times> string" where
  "frac_part r = (case r of c # r' \<Rightarrow> if c = CHR ''.'' then (takeWhile is_digit r', dropWhile is_digit r')
                                     else ([], r)
                  | [] \<Rightarrow> ([], r))"

definition unit_end :: "char \<Rightarrow> bool" where
  "unit_end c \<longleftrightarrow> c = CHR ''.'' \<or> is_digit c"

lemma length_frac_part [termination_simp]: "length (snd (frac_part r)) \<le> length r"
  by (auto simp: frac_part_def split: list.splits)
    (meson le_SucI length_dropWhile_le)

lemma dropWhile_shorter: "takeWhile P s \<noteq> [] \<Longrightarrow> length (dropWhile P s) < length s"
  by (cases s) (auto simp: le_imp_less_Suc length_dropWhile_le split: if_splits)

function parse_duration_loop :: "nat \<Rightarrow> string \<Rightarrow> nat option" where
  "parse_duration_loop d s =
     (if s = [] then Some d
      else
        (let ip = takeWhile is_digit s; r1 = dropWhile is_digit s;
             fp = fst (frac_part r1); r2 = snd (frac_part r1);
             u = takeWhile (\<lambda>c. \<not> unit_end c) r2; rest = dropWhile (\<lambda>c. \<not> unit_end c) r2
         in if ip = [] \<and> fp = [] then None
            else if val10 ip > 2 ^ 63 then None
            else if u = [] then None
            else (case gm_get duration_units u of
                    None \<Rightarrow> None
                  | Some unit \<Rightarrow>
                      (if val10 ip > 2 ^ 63 div unit then None
                       else (let v = val10 ip * unit + val10 fp * unit div 10 ^ length fp
                             in if v > 2 ^ 63 \<or> d + v > 2 ^ 63 then None
                                else parse_duration_loop (d + v) rest)))))"
  by pat_completeness auto
termination
proof (relation "measure (\<lambda>(d, s). length s)", goal_cases)
  case (2 d s ip r1 fp r2 u rest unit v)
  have "length rest < length r2"
    using 2 by (auto intro!: dropWhile_shorter)
  also have "\<dots> \<le> length r1"
    using 2 length_frac_part by auto
  also have "\<dots> \<le> length s"
    using 2 by (simp add: length_dropWhile_le)
  finally show ?case by simp
qed simp

declare parse_duration_loop.simps [simp del]

definition ParseDuration :: "string \<Rightarrow> int option" where
  "ParseDuration s0 =
     (let (neg, s) = (case s0 of [] \<Rightarrow> (False, [])
                      | c # r \<Rightarrow> if c = CHR ''-'' then (True, r)
                                 else if c = CHR ''+'' then (False, r) else (False, s0))
      in if s = ''0'' then Some 0
         else if s = [] then None
         else (case parse_duration_loop 0 s of
                 None \<Rightarrow> None
               | Some d \<Rightarrow> if neg then Some (- int d)
                           else if d > 2 ^ 63 - 1 then None else Some (int d)))"

lemma parse_duration_loop_Nil [simp]: "parse_duration_loop d [] = Some d"
  by (simp add: parse_duration_loop.simps)

lemma parse_duration_rest_shorter:
  assumes "takeWhile P (snd (frac_part (dropWhile Q s))) \<noteq> []"
  shows "length (dropWhile P (snd (frac_part (dropWhile Q s)))) < length s"
  using dropWhile_shorter [OF assms] length_frac_part [of "dropWhile Q s"] length_dropWhile_le [of Q s]
  by linarith

lemma parse_duration_loop_step:
  assumes "parse_duration_loop d s = Some r" and "s \<noteq> []"
  shows "\<exists>v rest. length rest < length s \<and> d + v \<le> 2 ^ 63 \<and> parse_duration_loop (d + v) rest = Some r"
proof -
  have "\<exists>v. d + v \<le> 2 ^ 63 \<and>
      takeWhile (\<lambda>c. \<not> unit_end c) (snd (frac_part (dropWhile is_digit s))) \<noteq> [] \<and>
      parse_duration_loop (d + v)
        (dropWhile (\<lambda>c. \<not> unit_end c) (snd (frac_part (dropWhile is_digit s)))) = Some r"
    using assms
    by (subst (asm) parse_duration_loop.simps)
      (auto simp: Let_def not_less split: if_splits option.splits)
  then show ?thesis using parse_duration_rest_shorter by blast
qed

lemma parse_duration_loop_bound:
  "parse_duration_loop d s = Some r \<Longrightarrow> d \<le> 2 ^ 63 \<Longrightarrow> d \<le> r \<and> r \<le> 2 ^ 63"
proof (induction "length s" arbitrary: d s rule: less_induct)
  case less
  show ?case
  proof (cases "s = []")
    case False
    with less.prems(1) obtain v rest where "length rest < length s" and "d + v \<le> 2 ^ 63"
      and "parse_duration_loop (d + v) rest = Some r"
      using parse_duration_loop_step by blast
    with less.hyps have "d + v \<le> r \<and> r \<le> 2 ^ 63" by blast
    then show ?thesis by linarith
  qed (use less.prems in auto)
qed

text \<open>A parsed duration fits an \<open>int64\<close>.\<close>

lemma ParseDuration_range:
  assumes "ParseDuration s = Some d"
  shows "- (2 ^ 63) \<le> d \<and> d \<le> 2 ^ 63 - 1"
  using assms parse_duration_loop_bound [of 0]
  by (fastforce simp: ParseDuration_def split: if_splits option.splits list.splits)

end
