(* ===== verification/Validate.thy ===== *)
theory Validate
  imports Samples Dfs Go_Time
begin

text \<open>
  Pipeline validation. First the checks of \<open>backwards/pipeline.go\<close>, composed by
  \<open>ValidatePipeline\<close> when a pipeline is set; then the checks of \<open>runtime/backwards/runner.go\<close>,
  composed by \<open>ValidateConfig\<close> before a run. The template engine, the YAML decoder and the struct
  validator are third-party code: arguments of \<open>preprocessYAML\<close> and \<open>ValidatePipeline\<close>. A check returns the first
  error in the order of the loops of the source.
\<close>

datatype validation_error =
    TemplateParseFailed
  | TemplateRenderFailed
  | UnmarshalFailed
  | StructInvalid
  | UndefinedResourceType string string
  | FileAndUri string nat
  | TaskNeedsRunPath string string nat
  | AgentNeedsPrompt string string nat
  | PipelineMaxInFlight
  | JobMaxInFlight string
  | ParallelismNegative string nat
  | ParallelismNotTask string nat
  | InParallelLimitNegative string nat
  | AcrossMaxInFlightNegative string nat
  | InputNotProduced string string string
  | DependsOnUnknown string string
  | DependsOnItself string
  | CircularDependency string string
  | GateTimeoutInvalid string string
  | DuplicateJobName string
  | UndefinedResource string string
  | PassedUnknownJob string string string
  | PassedOnNonGet string string
  | TriggersPassedEmpty string
  | TriggersPassedSelf string
  | TriggersPassedUnknown string string
  | TriggersPassedTwice string string
  | NoLeafTrigger
  | CircularPassed string string
  | SearchFuel

section \<open>Template preprocessing\<close>

definition template_marker :: string where
  "template_marker = ''pocketci: template''"

text \<open>\<open>parse_tmpl\<close> is \<open>template.New(..).Funcs(..).Parse\<close>, \<open>render\<close> is \<open>Execute\<close>.\<close>

definition preprocessYAML ::
  "(string \<Rightarrow> 't option) \<Rightarrow> ('t \<Rightarrow> string option) \<Rightarrow> string \<Rightarrow> validation_error + string" where
  "preprocessYAML parse_tmpl render content =
     (let lines = SplitN2 (CHR ''\<newline>'') content in
      if lines = [] \<or> \<not> Contains (hd lines) template_marker then Inr content
      else (case parse_tmpl content of
              None \<Rightarrow> Inl TemplateParseFailed
            | Some tmpl \<Rightarrow> (case render tmpl of
                              None \<Rightarrow> Inl TemplateRenderFailed
                            | Some out \<Rightarrow> Inr out)))"

section \<open>Step checks\<close>

definition hasExternalConfig :: "step \<Rightarrow> bool" where
  "hasExternalConfig s \<longleftrightarrow> sf_file (sfields s) \<noteq> [] \<or> sf_uri (sfields s) \<noteq> []"

definition has_run_path :: "step_fields \<Rightarrow> bool" where
  "has_run_path f \<longleftrightarrow>
     (case sf_config f of
        None \<Rightarrow> False
      | Some c \<Rightarrow> (case tc_run c of None \<Rightarrow> False | Some r \<Rightarrow> run_path r \<noteq> []))"

definition validateStep :: "string \<Rightarrow> nat \<Rightarrow> step \<Rightarrow> validation_error option" where
  "validateStep jobName i s =
     (let f = sfields s in
      if sf_file f \<noteq> [] \<and> sf_uri f \<noteq> [] then Some (FileAndUri jobName i)
      else if sf_task f \<noteq> [] \<and> \<not> hasExternalConfig s \<and> \<not> has_run_path f
        then Some (TaskNeedsRunPath (sf_task f) jobName i)
      else if sf_agent f \<noteq> [] \<and> \<not> hasExternalConfig s \<and> sf_prompt f = [] \<and> sf_prompt_file f = []
        then Some (AgentNeedsPrompt (sf_agent f) jobName i)
      else None)"

definition validateSteps :: "job list \<Rightarrow> validation_error option" where
  "validateSteps jobs =
     first_err (\<lambda>job. first_err (\<lambda>(i, s). validateStep (job_name job) i s)
                        (enumerate 0 (job_plan job))) jobs"

lemma enumerate_step_size [termination_simp]:
  "(i, x) \<in> set (enumerate n xs) \<Longrightarrow> size x \<le> size_list size xs"
  by (auto simp: enumerate_eq_zip dest: set_zip_rightD intro: size_list_estimation')

fun validateStepConcurrency :: "string \<Rightarrow> nat \<Rightarrow> step \<Rightarrow> validation_error option" where
  "validateStepConcurrency jobName i (Step f tools do_steps try_steps par ens ab er su fa) =
     (if sf_parallelism f < 0 then Some (ParallelismNegative jobName i)
      else if sf_parallelism f > 0 \<and> sf_task f = [] then Some (ParallelismNotTask jobName i)
      else if sf_in_parallel_limit f < 0 then Some (InParallelLimitNegative jobName i)
      else if \<exists>v\<in>set (sf_across f). av_max_in_flight v < 0
        then Some (AcrossMaxInFlightNegative jobName i)
      else then_check (first_err (\<lambda>(k, s). validateStepConcurrency jobName k s) (enumerate 0 do_steps))
          (then_check (first_err (\<lambda>(k, s). validateStepConcurrency jobName k s) (enumerate 0 try_steps))
             (first_err (\<lambda>(k, s). validateStepConcurrency jobName k s) (enumerate 0 par))))"

definition validateConcurrency :: "config \<Rightarrow> validation_error option" where
  "validateConcurrency cfg =
     (if cfg_max_in_flight cfg < 0 then Some PipelineMaxInFlight
      else first_err (\<lambda>job.
             if job_max_in_flight job < 0 then Some (JobMaxInFlight (job_name job))
             else first_err (\<lambda>(i, s). validateStepConcurrency (job_name job) i s)
                    (enumerate 0 (job_plan job))) (cfg_jobs cfg))"

section \<open>Input and output wiring\<close>

text \<open>The map \<open>available\<close> is the list of its keys.\<close>

definition own_outputs :: "step_fields \<Rightarrow> string list" where
  "own_outputs f =
     (if sf_get f \<noteq> [] then [sf_get f]
      else if sf_put f \<noteq> [] then [sf_put f]
      else if sf_task f \<noteq> [] then
        (case sf_config f of None \<Rightarrow> [] | Some c \<Rightarrow> map out_name (tc_outputs c))
      else if sf_agent f \<noteq> [] then
        (case sf_config f of
           Some c \<Rightarrow> if tc_outputs c \<noteq> [] then map out_name (tc_outputs c) else [sf_agent f]
         | None \<Rightarrow> [sf_agent f])
      else [])"

fun collectStepOutputs :: "step \<Rightarrow> string list \<Rightarrow> string list" where
  "collectStepOutputs (Step f tools do_steps try_steps par ens ab er su fa) available =
     fold collectStepOutputs par (fold collectStepOutputs do_steps (available @ own_outputs f))"

definition step_label :: "step_fields \<Rightarrow> string" where
  "step_label f = (if sf_task f = [] then sf_agent f else sf_task f)"

definition checked_inputs :: "step_fields \<Rightarrow> string list" where
  "checked_inputs f =
     (if step_label f \<noteq> [] \<and> sf_file f = [] \<and> sf_uri f = [] \<and> sf_prompt_file f = []
      then (case sf_config f of None \<Rightarrow> [] | Some c \<Rightarrow> map in_name (tc_inputs c))
      else [])"

fun checkStepInputs :: "step \<Rightarrow> string list \<Rightarrow> string \<Rightarrow> validation_error list" where
  "checkStepInputs (Step f tools do_steps try_steps par ens ab er su fa) available jobName =
     map (\<lambda>i. InputNotProduced (step_label f) jobName i)
         (filter (\<lambda>i. i \<notin> set available) (checked_inputs f))
     @ concat (map (\<lambda>s. checkStepInputs s available jobName) do_steps)
     @ concat (map (\<lambda>s. checkStepInputs s available jobName) par)"

fun wire_plan :: "string \<Rightarrow> string list \<Rightarrow> step list \<Rightarrow> validation_error option" where
  "wire_plan jobName available [] = None"
| "wire_plan jobName available (s # rest) =
     (let available' = collectStepOutputs s available in
      case checkStepInputs s available' jobName of
        e # _ \<Rightarrow> Some e
      | [] \<Rightarrow> wire_plan jobName available' rest)"

definition validateInputOutputWiring :: "job list \<Rightarrow> validation_error option" where
  "validateInputOutputWiring jobs = first_err (\<lambda>job. wire_plan (job_name job) [] (job_plan job)) jobs"

section \<open>Resource types, dependencies and gates\<close>

definition validateResourceTypes :: "config \<Rightarrow> validation_error option" where
  "validateResourceTypes cfg =
     (let validTypes = ''registry-image'' # map rt_name (cfg_resource_types cfg) in
      first_err (\<lambda>r. if res_type r \<notin> set validTypes
                     then Some (UndefinedResourceType (res_name r) (res_type r)) else None)
        (cfg_resources cfg))"

text \<open>A Go map filled in a loop keeps the last value written for a key.\<close>

definition last_wins :: "('a \<Rightarrow> string) \<Rightarrow> ('a \<Rightarrow> 'b list) \<Rightarrow> 'a list \<Rightarrow> string \<Rightarrow> 'b list" where
  "last_wins key val xs k =
     (case map_of (rev (map (\<lambda>x. (key x, val x)) xs)) k of None \<Rightarrow> [] | Some v \<Rightarrow> v)"

definition depends_adj :: "job list \<Rightarrow> adjacency" where
  "depends_adj jobs = last_wins job_name job_depends_on jobs"

definition cycle_error :: "(string \<Rightarrow> string \<Rightarrow> validation_error) \<Rightarrow> dfs_result \<Rightarrow> validation_error option" where
  "cycle_error mk r = (case r of Explored _ \<Rightarrow> None | Cycle a b \<Rightarrow> Some (mk a b) | OutOfFuel \<Rightarrow> Some SearchFuel)"

definition validateDependsOn :: "job list \<Rightarrow> validation_error option" where
  "validateDependsOn jobs =
     (let jobNames = map job_name jobs in
      then_check
        (first_err (\<lambda>job. first_err (\<lambda>dep.
             if dep \<notin> set jobNames then Some (DependsOnUnknown (job_name job) dep)
             else if dep = job_name job then Some (DependsOnItself (job_name job))
             else None) (job_depends_on job)) jobs)
        (cycle_error CircularDependency (dfs_all (depends_adj jobs) jobNames)))"

definition validateGateConfigs :: "job list \<Rightarrow> validation_error option" where
  "validateGateConfigs jobs =
     first_err (\<lambda>job.
       case job_gate job of
         None \<Rightarrow> None
       | Some g \<Rightarrow>
           if gate_timeout g \<noteq> [] \<and> ParseDuration (gate_timeout g) = None
           then Some (GateTimeoutInvalid (job_name job) (gate_timeout g)) else None) jobs"

definition ValidatePipeline ::
  "(string \<Rightarrow> 't option) \<Rightarrow> ('t \<Rightarrow> string option) \<Rightarrow> (string \<Rightarrow> config option) \<Rightarrow> (config \<Rightarrow> bool) \<Rightarrow>
   string \<Rightarrow> validation_error option" where
  "ValidatePipeline parse_tmpl render unmarshal struct_ok content =
     (case preprocessYAML parse_tmpl render content of
        Inl e \<Rightarrow> Some e
      | Inr processed \<Rightarrow>
          (case unmarshal processed of
             None \<Rightarrow> Some UnmarshalFailed
           | Some cfg \<Rightarrow>
               then_check (if struct_ok cfg then None else Some StructInvalid)
               (then_check (validateResourceTypes cfg)
               (then_check (validateSteps (cfg_jobs cfg))
               (then_check (validateConcurrency cfg)
               (then_check (validateInputOutputWiring (cfg_jobs cfg))
               (then_check (validateDependsOn (cfg_jobs cfg))
                  (validateGateConfigs (cfg_jobs cfg)))))))))"

section \<open>The runner's checks\<close>

text \<open>\<open>native\<close> lists the registered native resources (\<open>Registry.IsNative\<close>).\<close>

definition runner_validateResourceTypes :: "string list \<Rightarrow> config \<Rightarrow> validation_error option" where
  "runner_validateResourceTypes native cfg =
     (let validTypes = ''registry-image'' # map rt_name (cfg_resource_types cfg) in
      first_err (\<lambda>r. if res_type r \<notin> set validTypes \<and> res_type r \<notin> set native
                     then Some (UndefinedResourceType (res_name r) (res_type r)) else None)
        (cfg_resources cfg))"

fun validateJobNames :: "string list \<Rightarrow> job list \<Rightarrow> validation_error + string list" where
  "validateJobNames seen [] = Inr seen"
| "validateJobNames seen (job # jobs) =
     (if job_name job \<in> set seen then Inl (DuplicateJobName (job_name job))
      else validateJobNames (seen @ [job_name job]) jobs)"

definition get_ref :: "step_fields \<Rightarrow> string" where
  "get_ref f = (if gc_resource (sf_get_config f) \<noteq> [] then gc_resource (sf_get_config f) else sf_get f)"

definition validateResourceRefs :: "config \<Rightarrow> validation_error option" where
  "validateResourceRefs cfg =
     first_err (\<lambda>job. first_err (\<lambda>s.
       let f = sfields s in
       if sf_get f \<noteq> [] \<and> get_ref f \<notin> set (map res_name (cfg_resources cfg))
       then Some (UndefinedResource (job_name job) (get_ref f)) else None) (job_plan job))
       (cfg_jobs cfg)"

definition passed_kind :: "step_fields \<Rightarrow> string" where
  "passed_kind f =
     (if sf_task f \<noteq> [] then ''task '' @ sf_task f
      else if sf_build_image f \<noteq> None then ''build_image step''
      else if sf_put f \<noteq> [] then ''put '' @ sf_put f
      else ''task'')"

definition validateJobPlanPassed :: "job \<Rightarrow> string list \<Rightarrow> validation_error option" where
  "validateJobPlanPassed job jobNames =
     first_err (\<lambda>s.
       let f = sfields s in
       if sf_get f \<noteq> [] then
         first_err (\<lambda>dep. if dep \<notin> set jobNames
                          then Some (PassedUnknownJob (job_name job) (sf_get f) dep) else None)
           (gc_passed (sf_get_config f))
       else if gc_passed (sf_get_config f) = [] then None
       else Some (PassedOnNonGet (job_name job) (passed_kind f))) (job_plan job)"

fun triggers_passed_loop :: "string \<Rightarrow> string list \<Rightarrow> string list \<Rightarrow> string list \<Rightarrow> validation_error option" where
  "triggers_passed_loop name jobNames seen [] = None"
| "triggers_passed_loop name jobNames seen (dep # deps) =
     (if dep = [] then Some (TriggersPassedEmpty name)
      else if dep = name then Some (TriggersPassedSelf name)
      else if dep \<notin> set jobNames then Some (TriggersPassedUnknown name dep)
      else if dep \<in> set seen then Some (TriggersPassedTwice name dep)
      else triggers_passed_loop name jobNames (dep # seen) deps)"

definition job_passed :: "job \<Rightarrow> string list" where
  "job_passed job = (case job_triggers job of None \<Rightarrow> [] | Some t \<Rightarrow> tr_passed t)"

definition validateJobTriggersPassed :: "job \<Rightarrow> string list \<Rightarrow> validation_error option" where
  "validateJobTriggersPassed job jobNames = triggers_passed_loop (job_name job) jobNames [] (job_passed job)"

definition validatePassedConstraints :: "config \<Rightarrow> string list \<Rightarrow> validation_error option" where
  "validatePassedConstraints cfg jobNames =
     first_err (\<lambda>job. then_check (validateJobPlanPassed job jobNames)
                                  (validateJobTriggersPassed job jobNames)) (cfg_jobs cfg)"

definition is_leaf_job :: "job \<Rightarrow> bool" where
  "is_leaf_job job \<longleftrightarrow>
     (case job_triggers job of None \<Rightarrow> True | Some t \<Rightarrow> tr_webhook t \<noteq> None \<or> tr_schedule t \<noteq> None)"

definition validateLeafTriggers :: "config \<Rightarrow> validation_error option" where
  "validateLeafTriggers cfg =
     (if cfg_jobs cfg = [] \<or> (\<exists>job\<in>set (cfg_jobs cfg). is_leaf_job job) then None else Some NoLeafTrigger)"

text \<open>\<open>seen\<close> is the keys of the map: a dependency is appended the first time it occurs.\<close>

fun add_unseen :: "string list \<Rightarrow> string list \<Rightarrow> string list" where
  "add_unseen deps [] = deps"
| "add_unseen deps (p # ps) = add_unseen (if p \<in> set deps then deps else deps @ [p]) ps"

definition extractJobDependencies :: "step list \<Rightarrow> string list" where
  "extractJobDependencies plan =
     fold (\<lambda>s deps. if sf_get (sfields s) \<noteq> [] then add_unseen deps (gc_passed (sf_get_config (sfields s)))
                    else deps) plan []"

definition job_all_deps :: "job \<Rightarrow> string list" where
  "job_all_deps job = add_unseen (extractJobDependencies (job_plan job)) (job_passed job)"

definition passed_adj :: "config \<Rightarrow> adjacency" where
  "passed_adj cfg = last_wins job_name job_all_deps (cfg_jobs cfg)"

definition validateNoCycles :: "config \<Rightarrow> validation_error option" where
  "validateNoCycles cfg =
     cycle_error CircularPassed (dfs_all (passed_adj cfg) (map job_name (cfg_jobs cfg)))"

definition ValidateConfig :: "string list \<Rightarrow> config \<Rightarrow> validation_error option" where
  "ValidateConfig native cfg =
     then_check (runner_validateResourceTypes native cfg)
       (case validateJobNames [] (cfg_jobs cfg) of
          Inl e \<Rightarrow> Some e
        | Inr jobNames \<Rightarrow>
            then_check (validateResourceRefs cfg)
            (then_check (validatePassedConstraints cfg jobNames)
            (then_check (validateLeafTriggers cfg)
               (validateNoCycles cfg))))"

section \<open>What the pipeline checks accept\<close>

lemma enumerate_all: "(\<forall>p\<in>set (enumerate n xs). P (snd p)) \<longleftrightarrow> (\<forall>x\<in>set xs. P x)"
  by (induction xs arbitrary: n) auto

text \<open>The steps reached through \<open>do\<close>, \<open>try\<close> and \<open>in_parallel\<close>, the step itself included.\<close>

fun nested_steps :: "step \<Rightarrow> step list" where
  "nested_steps (Step f tools do_steps try_steps par ens ab er su fa) =
     Step f tools do_steps try_steps par ens ab er su fa
     # concat (map nested_steps do_steps) @ concat (map nested_steps try_steps) @ concat (map nested_steps par)"

definition concurrency_ok :: "step_fields \<Rightarrow> bool" where
  "concurrency_ok f \<longleftrightarrow>
     0 \<le> sf_parallelism f \<and> (sf_task f = [] \<longrightarrow> sf_parallelism f = 0) \<and> 0 \<le> sf_in_parallel_limit f
     \<and> (\<forall>v\<in>set (sf_across f). 0 \<le> av_max_in_flight v)"

lemma validateStepConcurrency_iff:
  "validateStepConcurrency jobName i s = None \<longleftrightarrow> (\<forall>t\<in>set (nested_steps s). concurrency_ok (sfields t))"
proof (induction jobName i s rule: validateStepConcurrency.induct)
  case (1 jobName i f tools do_steps try_steps par ens ab er su fa)
  have sub: "(\<forall>p\<in>set (enumerate 0 ss). (case p of (k, s) \<Rightarrow> validateStepConcurrency jobName k s) = None)
      \<longleftrightarrow> (\<forall>s\<in>set ss. \<forall>t\<in>set (nested_steps s). concurrency_ok (sfields t))"
    if "\<And>p k s. p \<in> set (enumerate 0 ss) \<Longrightarrow> (k, s) = p \<Longrightarrow>
         (validateStepConcurrency jobName k s = None) = (\<forall>t\<in>set (nested_steps s). concurrency_ok (sfields t))"
    for ss
  proof -
    have "(\<forall>p\<in>set (enumerate 0 ss). (case p of (k, s) \<Rightarrow> validateStepConcurrency jobName k s) = None)
      \<longleftrightarrow> (\<forall>p\<in>set (enumerate 0 ss). \<forall>t\<in>set (nested_steps (snd p)). concurrency_ok (sfields t))"
      using that by (auto simp: split_beta)
    then show ?thesis
      using enumerate_all [of 0 ss "\<lambda>s. \<forall>t\<in>set (nested_steps s). concurrency_ok (sfields t)"] by simp
  qed
  show ?case
  proof (cases "sf_parallelism f < 0 \<or> (sf_parallelism f > 0 \<and> sf_task f = []) \<or> sf_in_parallel_limit f < 0
      \<or> (\<exists>v\<in>set (sf_across f). av_max_in_flight v < 0)")
    case True
    then have "\<not> concurrency_ok f" by (force simp: concurrency_ok_def)
    with True show ?thesis by auto
  next
    case False
    then have "concurrency_ok f" by (force simp: concurrency_ok_def)
    with False 1 sub [of do_steps] sub [of try_steps] sub [of par] show ?thesis
      by simp blast
  qed
qed

text \<open>Inputs: the inline inputs of the steps reached through \<open>do\<close> and \<open>in_parallel\<close>.\<close>

fun plan_inputs :: "step \<Rightarrow> string list" where
  "plan_inputs (Step f tools do_steps try_steps par ens ab er su fa) =
     checked_inputs f @ concat (map plan_inputs do_steps) @ concat (map plan_inputs par)"

fun plan_outputs :: "step \<Rightarrow> string list" where
  "plan_outputs (Step f tools do_steps try_steps par ens ab er su fa) =
     own_outputs f @ concat (map plan_outputs do_steps) @ concat (map plan_outputs par)"

lemma fold_collect:
  "(\<And>s av. s \<in> set ss \<Longrightarrow> collectStepOutputs s av = av @ plan_outputs s) \<Longrightarrow>
   fold collectStepOutputs ss av = av @ concat (map plan_outputs ss)"
  by (induction ss arbitrary: av) auto

lemma collectStepOutputs_eq: "collectStepOutputs s available = available @ plan_outputs s"
  by (induction s available rule: collectStepOutputs.induct) (simp add: fold_collect)

lemma checkStepInputs_Nil_iff:
  "checkStepInputs s available jobName = [] \<longleftrightarrow> set (plan_inputs s) \<subseteq> set available"
  by (induction s available jobName rule: checkStepInputs.induct) (auto simp: filter_empty_conv)

lemma wire_plan_None_iff:
  "wire_plan jobName available plan = None \<longleftrightarrow>
     (\<forall>k<length plan. set (plan_inputs (plan ! k))
        \<subseteq> set available \<union> (\<Union>s\<in>set (take (Suc k) plan). set (plan_outputs s)))"
proof (induction jobName available plan rule: wire_plan.induct)
  case (2 jobName available s rest)
  show ?case
  proof (cases "checkStepInputs s (collectStepOutputs s available) jobName")
    case Nil
    then have "wire_plan jobName available (s # rest) = wire_plan jobName (collectStepOutputs s available) rest"
      by (simp add: Let_def)
    moreover have "set (plan_inputs s) \<subseteq> set available \<union> set (plan_outputs s)"
      using Nil by (simp add: checkStepInputs_Nil_iff collectStepOutputs_eq)
    ultimately show ?thesis
      using 2 Nil by (simp add: collectStepOutputs_eq All_less_Suc2 Un_assoc del: wire_plan.simps)
  next
    case (Cons e es)
    then have "\<not> set (plan_inputs s) \<subseteq> set available \<union> set (plan_outputs s)"
      using checkStepInputs_Nil_iff [of s "collectStepOutputs s available" jobName]
      by (simp add: collectStepOutputs_eq)
    with Cons show ?thesis
      by (auto intro!: exI [of _ 0])
  qed
qed simp

lemma last_wins_cases:
  "last_wins key val xs k = [] \<or> (\<exists>x\<in>set xs. key x = k \<and> last_wins key val xs k = val x)"
  by (auto simp: last_wins_def split: option.splits dest!: map_of_SomeD)

lemma last_wins_distinct:
  assumes "distinct (map key xs)" and "x \<in> set xs"
  shows "last_wins key val xs (key x) = val x"
proof -
  have "map_of (rev (map (\<lambda>x. (key x, val x)) xs)) (key x) = Some (val x)"
    using assms by (intro map_of_is_SomeI) (auto simp: rev_map [symmetric] o_def)
  then show ?thesis by (simp add: last_wins_def)
qed

lemma cycle_error_iff:
  assumes "\<And>x. set (last_wins key val xs x) \<subseteq> key ` set xs"
  shows "cycle_error mk (dfs_all (last_wins key val xs) (map key xs)) = None
     \<longleftrightarrow> acyclic (edges (last_wins key val xs))"
proof -
  have "x \<in> set (map key xs)" if "last_wins key val xs x \<noteq> []" for x
    using last_wins_cases [of key val xs x] that by auto
  then have "(\<exists>col. dfs_all (last_wins key val xs) (map key xs) = Explored col)
      \<longleftrightarrow> acyclic (edges (last_wins key val xs))"
    using assms by (intro dfs_all_iff) auto
  then show ?thesis
    by (auto simp: cycle_error_def split: dfs_result.splits)
qed

lemma validateDependsOn_iff:
  "validateDependsOn jobs = None \<longleftrightarrow>
     (\<forall>job\<in>set jobs. \<forall>dep\<in>set (job_depends_on job). dep \<in> job_name ` set jobs \<and> dep \<noteq> job_name job)
     \<and> acyclic (edges (depends_adj jobs))"
proof -
  let ?refs = "\<forall>job\<in>set jobs. \<forall>dep\<in>set (job_depends_on job). dep \<in> job_name ` set jobs \<and> dep \<noteq> job_name job"
  have first: "first_err (\<lambda>job. first_err (\<lambda>dep.
             if dep \<notin> set (map job_name jobs) then Some (DependsOnUnknown (job_name job) dep)
             else if dep = job_name job then Some (DependsOnItself (job_name job))
             else None) (job_depends_on job)) jobs = None \<longleftrightarrow> ?refs"
    by auto
  show ?thesis
  proof (cases ?refs)
    case True
    then have "set (depends_adj jobs x) \<subseteq> job_name ` set jobs" for x
      using last_wins_cases [of job_name job_depends_on jobs x] by (auto simp: depends_adj_def)
    then have "cycle_error CircularDependency (dfs_all (depends_adj jobs) (map job_name jobs)) = None
        \<longleftrightarrow> acyclic (edges (depends_adj jobs))"
      unfolding depends_adj_def by (rule cycle_error_iff)
    with first True show ?thesis
      unfolding validateDependsOn_def Let_def then_check_None_iff by blast
  next
    case False
    with first show ?thesis
      unfolding validateDependsOn_def Let_def then_check_None_iff by blast
  qed
qed


definition step_ok :: "step \<Rightarrow> bool" where
  "step_ok s \<longleftrightarrow>
     (let f = sfields s in
      \<not> (sf_file f \<noteq> [] \<and> sf_uri f \<noteq> [])
      \<and> (sf_task f \<noteq> [] \<longrightarrow> hasExternalConfig s \<or> has_run_path f)
      \<and> (sf_agent f \<noteq> [] \<longrightarrow> hasExternalConfig s \<or> sf_prompt f \<noteq> [] \<or> sf_prompt_file f \<noteq> []))"

definition wired :: "step list \<Rightarrow> bool" where
  "wired plan \<longleftrightarrow>
     (\<forall>k<length plan. set (plan_inputs (plan ! k)) \<subseteq> (\<Union>s\<in>set (take (Suc k) plan). set (plan_outputs s)))"

definition job_pipeline_ok :: "job \<Rightarrow> bool" where
  "job_pipeline_ok job \<longleftrightarrow>
     0 \<le> job_max_in_flight job
     \<and> (\<forall>s\<in>set (job_plan job). step_ok s \<and> (\<forall>t\<in>set (nested_steps s). concurrency_ok (sfields t)))
     \<and> wired (job_plan job)
     \<and> (\<forall>g. job_gate job = Some g \<longrightarrow> gate_timeout g = [] \<or> ParseDuration (gate_timeout g) \<noteq> None)"

definition depends_ok :: "job list \<Rightarrow> bool" where
  "depends_ok jobs \<longleftrightarrow>
     (\<forall>job\<in>set jobs. \<forall>dep\<in>set (job_depends_on job). dep \<in> job_name ` set jobs \<and> dep \<noteq> job_name job)
     \<and> acyclic (edges (depends_adj jobs))"

definition pipeline_ok :: "config \<Rightarrow> bool" where
  "pipeline_ok cfg \<longleftrightarrow>
     0 \<le> cfg_max_in_flight cfg
     \<and> (\<forall>r\<in>set (cfg_resources cfg). res_type r \<in> {''registry-image''} \<union> rt_name ` set (cfg_resource_types cfg))
     \<and> (\<forall>job\<in>set (cfg_jobs cfg). job_pipeline_ok job)
     \<and> depends_ok (cfg_jobs cfg)"

lemma validateSteps_None_iff:
  "validateSteps jobs = None \<longleftrightarrow> (\<forall>job\<in>set jobs. \<forall>s\<in>set (job_plan job). step_ok s)"
proof -
  have one: "validateStep n i s = None \<longleftrightarrow> step_ok s" for n i s
    by (auto simp: validateStep_def step_ok_def Let_def)
  show ?thesis
    using enumerate_all [of 0 _ step_ok] by (simp add: validateSteps_def one split_beta)
qed

lemma validateConcurrency_None_iff:
  "validateConcurrency cfg = None \<longleftrightarrow>
     0 \<le> cfg_max_in_flight cfg
     \<and> (\<forall>job\<in>set (cfg_jobs cfg). 0 \<le> job_max_in_flight job
          \<and> (\<forall>s\<in>set (job_plan job). \<forall>t\<in>set (nested_steps s). concurrency_ok (sfields t)))"
  using enumerate_all [of 0 _ "\<lambda>s. \<forall>t\<in>set (nested_steps s). concurrency_ok (sfields t)"]
  by (auto simp: validateConcurrency_def validateStepConcurrency_iff split_beta)

lemma validateInputOutputWiring_None_iff:
  "validateInputOutputWiring jobs = None \<longleftrightarrow> (\<forall>job\<in>set jobs. wired (job_plan job))"
  by (simp add: validateInputOutputWiring_def wire_plan_None_iff wired_def)

lemma validateGateConfigs_None_iff:
  "validateGateConfigs jobs = None \<longleftrightarrow>
     (\<forall>job\<in>set jobs. \<forall>g. job_gate job = Some g \<longrightarrow> gate_timeout g = [] \<or> ParseDuration (gate_timeout g) \<noteq> None)"
proof -
  have "(case job_gate job of None \<Rightarrow> None
      | Some g \<Rightarrow> if gate_timeout g \<noteq> [] \<and> ParseDuration (gate_timeout g) = None
                  then Some (GateTimeoutInvalid (job_name job) (gate_timeout g)) else None) = None
    \<longleftrightarrow> (\<forall>g. job_gate job = Some g \<longrightarrow> gate_timeout g = [] \<or> ParseDuration (gate_timeout g) \<noteq> None)" for job
    by (cases "job_gate job") auto
  then show ?thesis
    unfolding validateGateConfigs_def first_err_None_iff by blast
qed

lemma config_checks_None_iff:
  "then_check (validateResourceTypes cfg)
     (then_check (validateSteps (cfg_jobs cfg))
     (then_check (validateConcurrency cfg)
     (then_check (validateInputOutputWiring (cfg_jobs cfg))
     (then_check (validateDependsOn (cfg_jobs cfg))
        (validateGateConfigs (cfg_jobs cfg)))))) = None
   \<longleftrightarrow> pipeline_ok cfg"
proof -
  have types: "validateResourceTypes cfg = None \<longleftrightarrow>
      (\<forall>r\<in>set (cfg_resources cfg). res_type r \<in> {''registry-image''} \<union> rt_name ` set (cfg_resource_types cfg))"
    by (auto simp: validateResourceTypes_def Let_def)
  show ?thesis
    unfolding then_check_None_iff types validateSteps_None_iff validateConcurrency_None_iff
      validateInputOutputWiring_None_iff validateDependsOn_iff validateGateConfigs_None_iff
      pipeline_ok_def job_pipeline_ok_def depends_ok_def ball_conj_distrib
    by argo
qed

text \<open>C1. \<open>ValidatePipeline\<close> accepts a document exactly when it renders and decodes to a
  configuration that the struct validator accepts and in which: every resource type is defined; every step
  has the configuration it needs; every bound on concurrency is in range at every depth of \<open>do\<close>,
  \<open>try\<close> and \<open>in_parallel\<close>; every inline input is an output of a step at the same position or earlier; the
  \<open>depends_on\<close> references exist and form an acyclic graph; every gate timeout is a duration.\<close>

theorem ValidatePipeline_accepts_iff:
  "ValidatePipeline parse_tmpl render unmarshal struct_ok content = None \<longleftrightarrow>
     (\<exists>processed cfg. preprocessYAML parse_tmpl render content = Inr processed
        \<and> unmarshal processed = Some cfg \<and> struct_ok cfg \<and> pipeline_ok cfg)"
proof (cases "preprocessYAML parse_tmpl render content")
  case (Inr processed)
  show ?thesis
  proof (cases "unmarshal processed")
    case (Some cfg)
    with Inr show ?thesis
      using config_checks_None_iff [of cfg] by (simp add: ValidatePipeline_def)
  qed (simp add: ValidatePipeline_def Inr)
qed (simp add: ValidatePipeline_def)

section \<open>What the runner's checks accept\<close>

lemma set_add_unseen [simp]: "set (add_unseen deps ps) = set deps \<union> set ps"
  by (induction deps ps rule: add_unseen.induct) auto

definition plan_passed :: "step list \<Rightarrow> string set" where
  "plan_passed plan =
     (\<Union>s\<in>{s\<in>set plan. sf_get (sfields s) \<noteq> []}. set (gc_passed (sf_get_config (sfields s))))"

lemma set_extractJobDependencies [simp]: "set (extractJobDependencies plan) = plan_passed plan"
proof -
  have "set (fold (\<lambda>s deps. if sf_get (sfields s) \<noteq> [] then add_unseen deps (gc_passed (sf_get_config (sfields s)))
                    else deps) plan ds) = set ds \<union> plan_passed plan" for ds
    by (induction plan arbitrary: ds) (auto simp: plan_passed_def)
  from this [of "[]"] show ?thesis by (simp add: extractJobDependencies_def)
qed

lemma set_job_all_deps [simp]: "set (job_all_deps job) = plan_passed (job_plan job) \<union> set (job_passed job)"
  by (simp add: job_all_deps_def)

lemma validateJobNames_Inr_iff:
  "validateJobNames seen jobs = Inr ns \<longleftrightarrow>
     ns = seen @ map job_name jobs \<and> distinct (map job_name jobs) \<and> set seen \<inter> job_name ` set jobs = {}"
  by (induction seen jobs rule: validateJobNames.induct) auto

lemma triggers_passed_loop_None_iff:
  "triggers_passed_loop name jobNames seen deps = None \<longleftrightarrow>
     [] \<notin> set deps \<and> name \<notin> set deps \<and> set deps \<subseteq> set jobNames \<and> distinct deps \<and> set seen \<inter> set deps = {}"
  by (induction name jobNames seen deps rule: triggers_passed_loop.induct) auto

lemma validateJobPlanPassed_None_iff:
  "validateJobPlanPassed job jobNames = None \<longleftrightarrow>
     plan_passed (job_plan job) \<subseteq> set jobNames
     \<and> (\<forall>s\<in>set (job_plan job). sf_get (sfields s) = [] \<longrightarrow> gc_passed (sf_get_config (sfields s)) = [])"
  by (auto simp: validateJobPlanPassed_def plan_passed_def Let_def)

definition config_ok :: "string list \<Rightarrow> config \<Rightarrow> bool" where
  "config_ok native cfg \<longleftrightarrow>
     (\<forall>r\<in>set (cfg_resources cfg).
        res_type r \<in> {''registry-image''} \<union> rt_name ` set (cfg_resource_types cfg) \<union> set native)
     \<and> distinct (map job_name (cfg_jobs cfg))
     \<and> (\<forall>job\<in>set (cfg_jobs cfg).
          (\<forall>s\<in>set (job_plan job). sf_get (sfields s) \<noteq> [] \<longrightarrow> get_ref (sfields s) \<in> res_name ` set (cfg_resources cfg))
        \<and> (\<forall>s\<in>set (job_plan job). sf_get (sfields s) = [] \<longrightarrow> gc_passed (sf_get_config (sfields s)) = [])
        \<and> set (job_all_deps job) \<subseteq> job_name ` set (cfg_jobs cfg)
        \<and> [] \<notin> set (job_passed job) \<and> job_name job \<notin> set (job_passed job) \<and> distinct (job_passed job))
     \<and> (cfg_jobs cfg = [] \<or> (\<exists>job\<in>set (cfg_jobs cfg). is_leaf_job job))
     \<and> acyclic (edges (passed_adj cfg))"

lemma validateNoCycles_None_iff:
  assumes "\<forall>job\<in>set (cfg_jobs cfg). set (job_all_deps job) \<subseteq> job_name ` set (cfg_jobs cfg)"
  shows "validateNoCycles cfg = None \<longleftrightarrow> acyclic (edges (passed_adj cfg))"
proof -
  have "set (passed_adj cfg x) \<subseteq> job_name ` set (cfg_jobs cfg)" for x
    using assms last_wins_cases [of job_name job_all_deps "cfg_jobs cfg" x]
    unfolding passed_adj_def by (metis bot_least list.set(1))
  then show ?thesis
    unfolding validateNoCycles_def passed_adj_def by (rule cycle_error_iff)
qed


text \<open>The outputs of a step are collected before its inputs are checked, so a task may declare as input
  what only itself produces.\<close>

lemma own_output_satisfies_own_input:
  "validateInputOutputWiring [zero_job n [leaf_step (task_fields t [x] [x])]] = None"
  by (cases "t = []")
    (simp_all add: validateInputOutputWiring_None_iff wired_def sample_defs checked_inputs_def
      own_outputs_def step_label_def)

end
