(* ===== verification/Sql.thy ===== *)
theory Sql
  imports Go_Strings
begin

text \<open>
  The parts of SQL that the statements of \<open>storage/sqlite\<close> rely on: the pattern operators \<open>GLOB\<close> and
  \<open>LIKE ... ESCAPE\<close>, \<open>ORDER BY\<close>, \<open>LIMIT\<close>/\<open>OFFSET\<close>, and the escaping function the sources put
  in front of \<open>LIKE\<close>. A table is the list of its rows in the order of their row ids; rows that \<open>ORDER BY\<close>
  does not distinguish stay in that order.
\<close>

section \<open>GLOB\<close>

text \<open>The body of a bracket expression after \<open>[\<close> and an optional \<open>^\<close>: whether the character occurs,
  and the pattern after the closing bracket; \<open>None\<close> when the bracket is not closed.\<close>

fun glob_set :: "char \<Rightarrow> char option \<Rightarrow> bool \<Rightarrow> string \<Rightarrow> (bool \<times> string) option" where
  "glob_set c prior seen [] = None"
| "glob_set c prior seen (x # p) =
     (if x = CHR '']'' then Some (seen, p)
      else if x = CHR ''-'' \<and> prior \<noteq> None \<and> p \<noteq> [] \<and> hd p \<noteq> CHR '']''
      then glob_set c None
             (seen \<or> ((of_char (the prior) :: nat) \<le> of_char c \<and> (of_char c :: nat) \<le> of_char (hd p))) (tl p)
      else glob_set c (Some x) (seen \<or> c = x) p)"

definition glob_bracket :: "char \<Rightarrow> string \<Rightarrow> string option" where
  "glob_bracket c p0 =
     (let invert = (p0 \<noteq> [] \<and> hd p0 = CHR ''^'');
          p1 = (if invert then tl p0 else p0);
          close = (p1 \<noteq> [] \<and> hd p1 = CHR '']'');
          p2 = (if close then tl p1 else p1)
      in case glob_set c None (close \<and> c = CHR '']'') p2 of
           None \<Rightarrow> None
         | Some (seen, rest) \<Rightarrow> if seen \<noteq> invert then Some rest else None)"

lemma glob_set_shorter: "glob_set c prior seen p = Some (b, r) \<Longrightarrow> length r < length p"
proof (induction c prior seen p rule: glob_set.induct)
  case (2 c prior seen x p)
  then show ?case
    by (cases p) (auto split: if_splits simp: less_Suc_eq)
qed simp

lemma glob_bracket_shorter: "glob_bracket c p = Some r \<Longrightarrow> length r < length p"
  by (cases p; cases "tl p")
    (auto simp: glob_bracket_def Let_def split: option.splits if_splits dest!: glob_set_shorter)

function glob :: "string \<Rightarrow> string \<Rightarrow> bool" where
  "glob [] s \<longleftrightarrow> s = []"
| "glob (x # p) s \<longleftrightarrow>
     (if x = CHR ''*'' then glob p s \<or> (case s of [] \<Rightarrow> False | _ # t \<Rightarrow> glob (x # p) t)
      else if s = [] then False
      else if x = CHR ''?'' then glob p (tl s)
      else if x = CHR ''['' then
        (case glob_bracket (hd s) p of None \<Rightarrow> False | Some rest \<Rightarrow> glob rest (tl s))
      else x = hd s \<and> glob p (tl s))"
  by pat_completeness auto
termination
  by (relation "measure (\<lambda>(p, s). length p + length s)")
    (auto dest!: glob_bracket_shorter simp: neq_Nil_conv)

declare glob.simps(2) [simp del]

definition glob_literal :: "string \<Rightarrow> bool" where
  "glob_literal p \<longleftrightarrow> list_all (\<lambda>c. c \<notin> {CHR ''*'', CHR ''?'', CHR ''[''}) p"

lemma glob_star [simp]: "glob ''*'' s"
  by (induction s) (simp_all add: glob.simps(2) [of "CHR ''*''" "[]"])

lemma glob_prefix: "glob_literal p \<Longrightarrow> glob (p @ ''*'') s \<longleftrightarrow> HasPrefix s p"
proof (induction p arbitrary: s)
  case Nil
  then show ?case using glob_star by (simp add: HasPrefix_def)
next
  case (Cons x p)
  then have "glob_literal p" "x \<noteq> CHR ''*''" "x \<noteq> CHR ''?''" "x \<noteq> CHR ''[''"
    by (auto simp: glob_literal_def)
  with Cons.IH [of "tl s"] show ?case
    by (cases s) (auto simp: HasPrefix_def glob.simps(2) [of x "p @ ''*''"])
qed

section \<open>LIKE with an escape character\<close>

text \<open>\<open>x LIKE p ESCAPE '\\'\<close>: \<open>%\<close> and \<open>_\<close> are wildcards unless escaped; letters match in either case.\<close>

definition bslash :: char where "bslash = CHR 0x5C"

function like :: "string \<Rightarrow> string \<Rightarrow> bool" where
  "like [] s \<longleftrightarrow> s = []"
| "like (x # p) s \<longleftrightarrow>
     (if x = bslash then
        (case p of
           [] \<Rightarrow> False
         | y # q \<Rightarrow> (case s of [] \<Rightarrow> False | c # t \<Rightarrow> lower_char y = lower_char c \<and> like q t))
      else if x = CHR ''%'' then like p s \<or> (case s of [] \<Rightarrow> False | _ # t \<Rightarrow> like (x # p) t)
      else (case s of
              [] \<Rightarrow> False
            | c # t \<Rightarrow> (x = CHR ''_'' \<or> lower_char x = lower_char c) \<and> like p t))"
  by pat_completeness auto
termination
  by (relation "measure (\<lambda>(p, s). length p + length s)") (auto simp: neq_Nil_conv)

declare like.simps(2) [simp del]

definition escapeLike_char :: "char \<Rightarrow> string" where
  "escapeLike_char c = (if c \<in> {bslash, CHR ''%'', CHR ''_''} then [bslash, c] else [c])"

text \<open>The three \<open>ReplaceAll\<close> calls, backslashes first, escape every special character once.\<close>

definition replace_char :: "char \<Rightarrow> string \<Rightarrow> string" where
  "replace_char ch s = concat (map (\<lambda>c. if c = ch then [bslash, c] else [c]) s)"

definition escapeLike :: "string \<Rightarrow> string" where
  "escapeLike s = replace_char (CHR ''_'') (replace_char (CHR ''%'') (replace_char bslash s))"

lemma escapeLike_chars: "escapeLike s = concat (map escapeLike_char s)"
  by (induction s) (auto simp: escapeLike_def replace_char_def escapeLike_char_def bslash_def)

lemma like_escaped: "like (concat (map escapeLike_char s)) t \<longleftrightarrow> ToLower s = ToLower t"
proof (induction s arbitrary: t)
  case (Cons c s)
  then show ?case
    by (cases t) (auto simp: escapeLike_char_def bslash_def ToLower_def like.simps(2))
qed (auto simp: ToLower_def)

lemma like_any_prefix:
  "like (CHR ''%'' # p) t \<longleftrightarrow> (\<exists>a b. t = a @ b \<and> like p b)"
proof (induction t)
  case (Cons c t)
  have "like (CHR ''%'' # p) (c # t) \<longleftrightarrow> like p (c # t) \<or> like (CHR ''%'' # p) t"
    by (subst like.simps(2)) (simp add: bslash_def)
  also have "\<dots> \<longleftrightarrow> like p (c # t) \<or> (\<exists>a b. t = a @ b \<and> like p b)"
    using Cons by simp
  also have "\<dots> \<longleftrightarrow> (\<exists>a b. c # t = a @ b \<and> like p b)"
    unfolding Cons_eq_append_conv by blast
  finally show ?case .
qed (simp add: bslash_def like.simps(2))

section \<open>Ordering and paging\<close>

definition order_asc :: "('a \<Rightarrow> int) \<Rightarrow> 'a list \<Rightarrow> 'a list" where
  "order_asc key xs = sort_key key xs"

definition order_desc :: "('a \<Rightarrow> int) \<Rightarrow> 'a list \<Rightarrow> 'a list" where
  "order_desc key xs = sort_key (\<lambda>x. - key x) xs"

lemma order_set [simp]: "set (order_asc key xs) = set xs" "set (order_desc key xs) = set xs"
  by (simp_all add: order_asc_def order_desc_def)

lemma order_length [simp]: "length (order_asc key xs) = length xs" "length (order_desc key xs) = length xs"
  by (simp_all add: order_asc_def order_desc_def)

lemma order_distinct [simp]: "distinct (order_asc key xs) = distinct xs" "distinct (order_desc key xs) = distinct xs"
  by (simp_all add: order_asc_def order_desc_def)

lemma order_desc_head:
  assumes "order_desc key xs = y # ys" and "x \<in> set xs"
  shows "key x \<le> key y"
proof -
  have "sorted (map (\<lambda>x. - key x) (y # ys))"
    using sorted_sort_key [of "\<lambda>x. - key x" xs] assms(1) unfolding order_desc_def by metis
  moreover have "x \<in> set (y # ys)"
    using assms by (metis order_set(2))
  ultimately show ?thesis by auto
qed

lemma order_desc_take:
  assumes "x \<in> set (take n (order_desc key xs))" and "y \<in> set (drop n (order_desc key xs))"
  shows "key y \<le> key x"
proof -
  let ?s = "order_desc key xs"
  have "sorted (map (\<lambda>x. - key x) (take n ?s @ drop n ?s))"
    by (simp add: order_desc_def)
  with assms show ?thesis
    by (fastforce simp: sorted_append simp del: append_take_drop_id)
qed

definition page_rows :: "nat \<Rightarrow> nat \<Rightarrow> 'a list \<Rightarrow> 'a list" where
  "page_rows limit offset xs = take limit (drop offset xs)"

end
