(* ===== verification/Database.thy ===== *)
theory Database
  imports Json Sql
begin

text \<open>
  The SQLite database of \<open>storage/sqlite\<close>: one record per table row as \<open>schema.sql\<close> declares it and
  \<open>storage.go\<close> types it, the tables as lists of rows in row-id order, the deletions with their cascades
  and triggers, and the integrity that the schema's keys and references promise. Times are Unix seconds,
  as the columns store them. Statements execute: an I/O failure of the database is not a value of these functions
  (their callers' models take such failures as an argument). The full-text indexes and \<open>agent_memories\<close> are not
  part of the state.
\<close>

section \<open>Rows\<close>

datatype run_status = RunStatusQueued | RunStatusRunning | RunStatusSuccess | RunStatusFailed | RunStatusSkipped

definition IsTerminal :: "run_status \<Rightarrow> bool" where
  "IsTerminal s \<longleftrightarrow> s = RunStatusSuccess \<or> s = RunStatusFailed \<or> s = RunStatusSkipped"

text \<open>\<open>TriggerTypeSeed\<close> is the literal \<open>seed\<close> of the seed endpoint, which is none of the declared constants.\<close>

datatype trigger_type =
    TriggerTypeManual | TriggerTypeWebhook | TriggerTypeCLI | TriggerTypeResume
  | TriggerTypeSchedule | TriggerTypePassed | TriggerTypeSeed

record trigger_webhook_input =
  wh_provider :: string
  wh_event_type :: string
  wh_method :: string
  wh_url :: string
  wh_headers :: "(string, string) gomap"
  wh_body :: string
  wh_query :: "(string, string) gomap"

record trigger_input =
  ti_args :: "string list"
  ti_webhook :: "trigger_webhook_input option"
  ti_jobs :: "string list"
  ti_upstream_run_ids :: "string list"

datatype gate_status = GateStatusPending | GateStatusApproved | GateStatusRejected | GateStatusTimedOut

datatype schedule_type = ScheduleTypeCron | ScheduleTypeInterval

record task_row =
  t_id :: nat
  t_path :: string
  t_run_id :: "string option"
  t_status :: "string option"
  t_started_at :: "string option"
  t_elapsed :: "string option"
  t_error_message :: "string option"
  t_error_type :: "string option"
  t_payload :: json

record pipeline =
  p_id :: string
  p_name :: string
  p_content :: string
  p_content_type :: string
  p_driver :: string
  p_resume_enabled :: bool
  p_paused :: bool
  p_rbac_expression :: string
  p_concurrency_mode :: string
  p_group_template :: string
  p_cancel_running :: bool
  p_created_at :: int
  p_updated_at :: int

record pipeline_run =
  r_id :: string
  r_pipeline_id :: string
  r_status :: run_status
  r_trigger_type :: trigger_type
  r_triggered_by :: string
  r_trigger_input :: trigger_input
  r_concurrency_group :: string
  r_started_at :: "int option"
  r_completed_at :: "int option"
  r_error_message :: string
  r_created_at :: int

record gate =
  g_id :: string
  g_run_id :: string
  g_pipeline_id :: string
  g_name :: string
  g_status :: gate_status
  g_message :: string
  g_approved_by :: string
  g_created_at :: int
  g_resolved_at :: "int option"

record schedule =
  s_id :: string
  s_pipeline_id :: string
  s_name :: string
  s_type :: schedule_type
  s_expr :: string
  s_job_name :: string
  s_enabled :: bool
  s_last_run_at :: "int option"
  s_next_run_at :: "int option"
  s_created_at :: int
  s_updated_at :: int

record dedup_row =
  d_pipeline_id :: string
  d_key_hash :: string
  d_created_at :: int

record db =
  tasks :: "task_row list"
  next_task_id :: nat
  pipelines :: "pipeline list"
  runs :: "pipeline_run list"
  schedules :: "schedule list"
  gates :: "gate list"
  webhook_dedup :: "dedup_row list"

definition empty_db :: db where
  "empty_db = \<lparr>tasks = [], next_task_id = 1, pipelines = [], runs = [], schedules = [], gates = [],
     webhook_dedup = []\<rparr>"

text \<open>A queued run with zero values elsewhere.\<close>

definition no_input :: trigger_input where
  "no_input = \<lparr>ti_args = [], ti_webhook = None, ti_jobs = [], ti_upstream_run_ids = []\<rparr>"

definition sample_run :: "string \<Rightarrow> string \<Rightarrow> pipeline_run" where
  "sample_run i pid =
     \<lparr>r_id = i, r_pipeline_id = pid, r_status = RunStatusQueued, r_trigger_type = TriggerTypeManual,
      r_triggered_by = [], r_trigger_input = no_input, r_concurrency_group = [], r_started_at = None,
      r_completed_at = None, r_error_message = [], r_created_at = 0\<rparr>"

datatype db_error = ErrNotFound | ErrConstraint

section \<open>Deletion with its cascades\<close>

text \<open>Deleting runs deletes their gates (\<open>ON DELETE CASCADE\<close>) and their tasks (trigger
  \<open>pipeline_runs_tasks_delete\<close>).\<close>

definition delete_runs :: "(pipeline_run \<Rightarrow> bool) \<Rightarrow> db \<Rightarrow> db" where
  "delete_runs P d =
     (let gone = map r_id (filter P (runs d)) in
      d\<lparr>runs := filter (\<lambda>r. \<not> P r) (runs d),
        gates := filter (\<lambda>g. g_run_id g \<notin> set gone) (gates d),
        tasks := filter (\<lambda>t. \<not> (\<exists>i\<in>set gone. t_run_id t = Some i)) (tasks d)\<rparr>)"

definition delete_pipeline_rows :: "string \<Rightarrow> db \<Rightarrow> db" where
  "delete_pipeline_rows pid d =
     (let d1 = delete_runs (\<lambda>r. r_pipeline_id r = pid) d in
      d1\<lparr>pipelines := filter (\<lambda>p. p_id p \<noteq> pid) (pipelines d1),
         schedules := filter (\<lambda>s. s_pipeline_id s \<noteq> pid) (schedules d1),
         gates := filter (\<lambda>g. g_pipeline_id g \<noteq> pid) (gates d1),
         webhook_dedup := filter (\<lambda>e. d_pipeline_id e \<noteq> pid) (webhook_dedup d1)\<rparr>)"

section \<open>Integrity\<close>

definition tasks_ok :: "db \<Rightarrow> bool" where
  "tasks_ok d \<longleftrightarrow>
     distinct (map t_path (tasks d)) \<and> sorted_wrt (<) (map t_id (tasks d))
     \<and> (\<forall>t\<in>set (tasks d). t_id t < next_task_id d)"

definition keys_ok :: "db \<Rightarrow> bool" where
  "keys_ok d \<longleftrightarrow>
     distinct (map p_id (pipelines d)) \<and> distinct (map p_name (pipelines d))
     \<and> distinct (map r_id (runs d)) \<and> distinct (map g_id (gates d))
     \<and> distinct (map s_id (schedules d)) \<and> distinct (map (\<lambda>s. (s_pipeline_id s, s_name s)) (schedules d))
     \<and> distinct (map (\<lambda>e. (d_pipeline_id e, d_key_hash e)) (webhook_dedup d))"

definition refs_ok :: "db \<Rightarrow> bool" where
  "refs_ok d \<longleftrightarrow>
     (\<forall>r\<in>set (runs d). r_pipeline_id r \<in> p_id ` set (pipelines d))
     \<and> (\<forall>s\<in>set (schedules d). s_pipeline_id s \<in> p_id ` set (pipelines d))
     \<and> (\<forall>g\<in>set (gates d). g_pipeline_id g \<in> p_id ` set (pipelines d) \<and> g_run_id g \<in> r_id ` set (runs d))
     \<and> (\<forall>e\<in>set (webhook_dedup d). d_pipeline_id e \<in> p_id ` set (pipelines d))"

definition db_inv :: "db \<Rightarrow> bool" where
  "db_inv d \<longleftrightarrow> tasks_ok d \<and> keys_ok d \<and> refs_ok d"

lemma db_inv_empty [simp]: "db_inv empty_db"
  by (simp add: db_inv_def tasks_ok_def keys_ok_def refs_ok_def empty_db_def)

lemma distinct_map_filter_key [simp]: "distinct (map f xs) \<Longrightarrow> distinct (map f (filter P xs))"
  by (rule distinct_map_filter)

lemma sorted_wrt_map_filter: "sorted_wrt (<) (map f xs) \<Longrightarrow> sorted_wrt (<) (map f (filter P xs))"
  by (induction xs) auto

lemma key_kept: "k \<noteq> i \<Longrightarrow> k \<in> f ` {x \<in> set xs. f x \<noteq> i} \<longleftrightarrow> k \<in> f ` set xs"
  by auto

lemma delete_runs_inv:
  assumes "db_inv d"
  shows "db_inv (delete_runs P d)"
proof -
  have "tasks_ok (delete_runs P d)"
    using assms by (simp add: db_inv_def tasks_ok_def delete_runs_def Let_def sorted_wrt_map_filter)
  moreover have "keys_ok (delete_runs P d)"
    using assms by (simp add: db_inv_def keys_ok_def delete_runs_def Let_def)
  moreover have "refs_ok (delete_runs P d)"
    using assms by (simp add: db_inv_def refs_ok_def delete_runs_def Let_def image_iff) metis
  ultimately show ?thesis by (simp add: db_inv_def)
qed

lemma delete_pipeline_rows_inv:
  assumes "db_inv d"
  shows "db_inv (delete_pipeline_rows pid d)"
proof -
  let ?d1 = "delete_runs (\<lambda>r. r_pipeline_id r = pid) d"
  have inv: "db_inv ?d1" using assms by (rule delete_runs_inv)
  have sub: "r_pipeline_id r \<noteq> pid" if "r \<in> set (runs ?d1)" for r
    using that by (simp add: delete_runs_def Let_def)
  have "tasks_ok (delete_pipeline_rows pid d)"
    using inv by (simp add: db_inv_def tasks_ok_def delete_pipeline_rows_def Let_def)
  moreover have "keys_ok (delete_pipeline_rows pid d)"
    using inv by (simp add: db_inv_def keys_ok_def delete_pipeline_rows_def Let_def)
  moreover have "refs_ok (delete_pipeline_rows pid d)"
    using inv sub by (simp add: db_inv_def refs_ok_def delete_pipeline_rows_def Let_def key_kept)
  ultimately show ?thesis by (simp add: db_inv_def)
qed

end
