(* ===== verification/Store_Tasks.thy ===== *)
theory Store_Tasks
  imports Database
begin

text \<open>
  The key-value side of the storage driver, \<open>storage/sqlite/tasks.go\<close>: \<open>Set\<close> (an upsert that merges the payload
  and the promoted columns), \<open>Get\<close>, \<open>GetAll\<close>, \<open>GetAllPaginated\<close>, \<open>UpdateStatusForPrefix\<close> and
  \<open>GetMostRecentJobStatus\<close>, with the paging of \<open>driver.go\<close>. The interface that the clients rely on is the locale
  \<open>kv_store\<close>, interpreted on \<open>store_Set\<close> and \<open>store_Get\<close>.
\<close>

section \<open>Paths\<close>

definition task_path :: "string \<Rightarrow> string \<Rightarrow> string" where
  "task_path namespace pre = clean_rooted (''/'' @ namespace @ ''/'' @ pre)"

fun run_id_in :: "string list \<Rightarrow> string" where
  "run_id_in (p # q # rest) = (if p = ''pipeline'' then q else run_id_in (q # rest))"
| "run_id_in _ = []"

definition extractRunID :: "string \<Rightarrow> string" where
  "extractRunID path = run_id_in (SplitChar (CHR ''/'') path)"

section \<open>Set and Get\<close>

definition new_task :: "nat \<Rightarrow> string \<Rightarrow> json \<Rightarrow> task_row" where
  "new_task i path payload =
     \<lparr>t_id = i, t_path = path,
      t_run_id = (let r = extractRunID path in if r = [] then None else Some r),
      t_status = json_extract payload ''status'',
      t_started_at = json_extract payload ''started_at'',
      t_elapsed = json_extract payload ''elapsed'',
      t_error_message = json_extract payload ''error_message'',
      t_error_type = json_extract payload ''error_type'',
      t_payload = payload\<rparr>"

definition coalesce :: "'a option \<Rightarrow> 'a option \<Rightarrow> 'a option" where
  "coalesce a b = (case a of None \<Rightarrow> b | Some _ \<Rightarrow> a)"

definition merge_task :: "json \<Rightarrow> task_row \<Rightarrow> task_row" where
  "merge_task payload t =
     t\<lparr>t_status := coalesce (json_extract payload ''status'') (t_status t),
       t_started_at := coalesce (json_extract payload ''started_at'') (t_started_at t),
       t_elapsed := coalesce (json_extract payload ''elapsed'') (t_elapsed t),
       t_error_message := coalesce (json_extract payload ''error_message'') (t_error_message t),
       t_error_type := coalesce (json_extract payload ''error_type'') (t_error_type t),
       t_payload := json_patch (t_payload t) payload\<rparr>"

definition find_task :: "string \<Rightarrow> db \<Rightarrow> task_row option" where
  "find_task path d = find (\<lambda>t. t_path t = path) (tasks d)"

definition store_Set :: "string \<Rightarrow> string \<Rightarrow> json \<Rightarrow> db \<Rightarrow> db" where
  "store_Set namespace pre payload d =
     (let path = task_path namespace pre in
      case find_task path d of
        None \<Rightarrow> d\<lparr>tasks := tasks d @ [new_task (next_task_id d) path payload],
                  next_task_id := next_task_id d + 1\<rparr>
      | Some _ \<Rightarrow> d\<lparr>tasks := map (\<lambda>t. if t_path t = path then merge_task payload t else t) (tasks d)\<rparr>)"

text \<open>Decoding into a \<open>storage.Payload\<close> succeeds on objects (and on \<open>null\<close>, as an empty payload).\<close>

definition store_Get :: "string \<Rightarrow> string \<Rightarrow> db \<Rightarrow> db_error + json" where
  "store_Get namespace pre d =
     (case find_task (task_path namespace pre) d of
        None \<Rightarrow> Inl ErrNotFound
      | Some t \<Rightarrow> Inr (t_payload t))"

section \<open>Listing\<close>

record task_result =
  rs_id :: nat
  rs_path :: string
  rs_payload :: json

definition knownSQLiteColumns :: "string list" where
  "knownSQLiteColumns = [''elapsed'', ''error_message'', ''error_type'', ''started_at'', ''status'']"

definition isKnownColumn :: "string \<Rightarrow> bool" where
  "isKnownColumn field \<longleftrightarrow> field \<in> set knownSQLiteColumns"

definition column_json :: "task_row \<Rightarrow> string \<Rightarrow> json" where
  "column_json t field =
     (let v = (if field = ''status'' then t_status t
               else if field = ''started_at'' then t_started_at t
               else if field = ''elapsed'' then t_elapsed t
               else if field = ''error_message'' then t_error_message t
               else t_error_type t)
      in case v of None \<Rightarrow> JNull | Some s \<Rightarrow> JStr s)"

definition extract_json :: "json \<Rightarrow> string \<Rightarrow> json" where
  "extract_json j field =
     (case j of
        JObj m \<Rightarrow> (case gm_get m field of
                     None \<Rightarrow> JNull
                   | Some (JBool b) \<Rightarrow> JNum (if b then 1 else 0)
                   | Some v \<Rightarrow> v)
      | _ \<Rightarrow> JNull)"

definition select_fields :: "string list \<Rightarrow> task_row \<Rightarrow> task_result" where
  "select_fields flds0 t =
     (let flds = (if flds0 = [] then [''status''] else flds0) in
      \<lparr>rs_id = t_id t, rs_path = t_path t,
       rs_payload =
         (if flds = [''*''] then t_payload t
          else JObj (map (\<lambda>f. (f, if isKnownColumn f then column_json t f else extract_json (t_payload t) f))
                       flds))\<rparr>)"

definition rows_under :: "string \<Rightarrow> string \<Rightarrow> db \<Rightarrow> task_row list" where
  "rows_under namespace pre d =
     filter (\<lambda>t. glob (task_path namespace pre @ ''*'') (t_path t)) (tasks d)"

definition GetAll :: "string \<Rightarrow> string \<Rightarrow> string list \<Rightarrow> db \<Rightarrow> task_result list" where
  "GetAll namespace pre flds d = map (select_fields flds) (rows_under namespace pre d)"

record 'a pagination_result =
  pg_items :: "'a list"
  pg_page :: int
  pg_per_page :: int
  pg_total_items :: int
  pg_total_pages :: int
  pg_has_next :: bool

definition paginate :: "int \<Rightarrow> int \<Rightarrow> 'a list \<Rightarrow> 'a pagination_result" where
  "paginate page0 perPage0 rows =
     (let page = (if page0 < 1 then 1 else page0);
          perPage = (if perPage0 < 1 then 20 else perPage0);
          total = int (length rows);
          totalPages = (total + perPage - 1) div perPage
      in \<lparr>pg_items = page_rows (nat perPage) (nat ((page - 1) * perPage)) rows,
          pg_page = page, pg_per_page = perPage, pg_total_items = total,
          pg_total_pages = totalPages, pg_has_next = page < totalPages\<rparr>)"

definition GetAllPaginated ::
  "string \<Rightarrow> string \<Rightarrow> string list \<Rightarrow> int \<Rightarrow> int \<Rightarrow> db \<Rightarrow> task_result pagination_result" where
  "GetAllPaginated namespace pre flds page perPage d =
     paginate page perPage (map (select_fields flds) (rows_under namespace pre d))"

section \<open>Status updates and queries\<close>

definition set_status :: "string \<Rightarrow> task_row \<Rightarrow> task_row" where
  "set_status s t =
     t\<lparr>t_status := Some s, t_payload := json_patch (t_payload t) (JObj [(''status'', JStr s)])\<rparr>"

definition UpdateStatusForPrefix :: "string \<Rightarrow> string \<Rightarrow> string list \<Rightarrow> string \<Rightarrow> db \<Rightarrow> db" where
  "UpdateStatusForPrefix namespace pre matchStatuses newStatus d =
     (if matchStatuses = [] then d
      else d\<lparr>tasks := map (\<lambda>t. if (\<exists>m\<in>set matchStatuses. t_status t = Some m)
                                  \<and> glob (task_path namespace pre @ ''*'') (t_path t)
                               then set_status newStatus t else t) (tasks d)\<rparr>)"

definition status_counts :: "task_row \<Rightarrow> bool" where
  "status_counts t \<longleftrightarrow>
     (case t_status t of None \<Rightarrow> False | Some s \<Rightarrow> s \<notin> {''skipped'', ''pending''})"

text \<open>\<open>ORDER BY id DESC LIMIT 1\<close> of the rows; no row gives the empty string.\<close>

definition last_status :: "task_row list \<Rightarrow> string" where
  "last_status rows =
     (case rev rows of [] \<Rightarrow> [] | t # _ \<Rightarrow> (case t_status t of None \<Rightarrow> [] | Some s \<Rightarrow> s))"

definition GetMostRecentJobStatus :: "string \<Rightarrow> string \<Rightarrow> string \<Rightarrow> db \<Rightarrow> string" where
  "GetMostRecentJobStatus namespace pipelineID jobName d =
     (let escaped = escapeLike jobName in
      if namespace \<noteq> [] then
        last_status (filter (\<lambda>t. like (''/'' @ namespace @ ''/pipeline/%/jobs/'' @ escaped) (t_path t)
                                 \<and> status_counts t) (tasks d))
      else
        last_status (filter (\<lambda>t. (\<exists>r\<in>set (runs d). t_run_id t = Some (r_id r) \<and> r_pipeline_id r = pipelineID)
                                 \<and> like (''%/jobs/'' @ escaped) (t_path t)
                                 \<and> status_counts t) (tasks d)))"

section \<open>The key-value interface\<close>

text \<open>What a client of the driver relies on: an object written at a key is merged into what the key held, and
  a write touches only keys with the same path.\<close>

locale kv_store =
  fixes inv :: "'s \<Rightarrow> bool"
    and key :: "string \<Rightarrow> 'k"
    and put :: "string \<Rightarrow> json \<Rightarrow> 's \<Rightarrow> 's"
    and get :: "string \<Rightarrow> 's \<Rightarrow> json option"
  assumes inv_put: "inv s \<Longrightarrow> inv (put k v s)"
    and get_put_same: "key k = key k' \<Longrightarrow>
          get k' (put k v s) = Some (case get k s of None \<Rightarrow> v | Some old \<Rightarrow> json_patch old v)"
    and get_put_other: "key k \<noteq> key k' \<Longrightarrow> get k' (put k v s) = get k' s"
    and get_key: "key k = key k' \<Longrightarrow> get k s = get k' s"
begin

lemma get_put:
  "get k' (put k v s) =
     (if key k = key k' then Some (case get k s of None \<Rightarrow> v | Some old \<Rightarrow> json_patch old v) else get k' s)"
  by (simp add: get_put_same get_put_other)

lemma put_fresh: "get k s = None \<Longrightarrow> get k (put k v s) = Some v"
  by (simp add: get_put_same)

lemma put_defined: "get k' s \<noteq> None \<Longrightarrow> get k' (put k v s) \<noteq> None"
  by (simp add: get_put)

fun puts :: "(string \<times> json) list \<Rightarrow> 's \<Rightarrow> 's" where
  "puts [] s = s"
| "puts ((k, v) # kvs) s = puts kvs (put k v s)"

lemma inv_puts: "inv s \<Longrightarrow> inv (puts kvs s)"
  by (induction kvs s rule: puts.induct) (auto intro: inv_put)

lemma puts_frame: "key k \<notin> key ` fst ` set kvs \<Longrightarrow> get k (puts kvs s) = get k s"
  by (induction kvs s rule: puts.induct) (auto simp: get_put)

end

section \<open>Set and Get implement it\<close>

definition store_lookup :: "string \<Rightarrow> string \<Rightarrow> db \<Rightarrow> json option" where
  "store_lookup namespace k d = map_option t_payload (find_task (task_path namespace k) d)"

lemma store_Get_lookup:
  "store_Get namespace k d = (case store_lookup namespace k d of None \<Rightarrow> Inl ErrNotFound | Some v \<Rightarrow> Inr v)"
  by (auto simp: store_Get_def store_lookup_def split: option.splits)

lemma merge_task_simps [simp]:
  "t_id (merge_task v t) = t_id t" "t_path (merge_task v t) = t_path t" "t_run_id (merge_task v t) = t_run_id t"
  "t_payload (merge_task v t) = json_patch (t_payload t) v"
  by (simp_all add: merge_task_def)

lemma new_task_simps [simp]:
  "t_id (new_task i p v) = i" "t_path (new_task i p v) = p" "t_payload (new_task i p v) = v"
  by (simp_all add: new_task_def)

lemma set_status_simps [simp]:
  "t_id (set_status s t) = t_id t" "t_path (set_status s t) = t_path t" "t_run_id (set_status s t) = t_run_id t"
  "t_status (set_status s t) = Some s"
  by (simp_all add: set_status_def)

lemma find_append: "find P (xs @ ys) = (case find P xs of None \<Rightarrow> find P ys | Some x \<Rightarrow> Some x)"
  by (induction xs) auto

lemma find_map_key:
  assumes "\<And>t. key (f t) = key t"
  shows "find (\<lambda>t. key t = k) (map f xs) = map_option f (find (\<lambda>t. key t = k) xs)"
  by (induction xs) (auto simp: assms)

lemma find_task_path: "find_task p d = Some t \<Longrightarrow> t_path t = p"
  by (auto simp: find_task_def find_Some_iff)

lemma find_task_Set:
  "find_task p (store_Set namespace k v d) =
     (if p = task_path namespace k
      then Some (case find_task p d of None \<Rightarrow> new_task (next_task_id d) p v | Some t \<Rightarrow> merge_task v t)
      else find_task p d)"
proof (cases "find_task (task_path namespace k) d")
  case None
  then show ?thesis
    by (auto simp: store_Set_def find_task_def find_append split: option.splits)
next
  case (Some t)
  let ?f = "\<lambda>t. if t_path t = task_path namespace k then merge_task v t else t"
  have "find_task p (store_Set namespace k v d) = map_option ?f (find_task p d)"
    using Some by (simp add: store_Set_def find_task_def find_map_key)
  with Some show ?thesis
    by (cases "find_task p d") (auto dest: find_task_path)
qed

lemma tasks_ok_map:
  assumes "tasks_ok d" and "\<And>t. t_id (f t) = t_id t" and "\<And>t. t_path (f t) = t_path t"
  shows "tasks_ok (d\<lparr>tasks := map f (tasks d)\<rparr>)"
proof -
  have "map t_id (map f (tasks d)) = map t_id (tasks d)" "map t_path (map f (tasks d)) = map t_path (tasks d)"
    by (simp_all add: assms(2,3))
  with assms show ?thesis
    by (simp add: tasks_ok_def del: map_map)
qed

lemma db_inv_tasks:
  assumes "db_inv d" and "tasks_ok (d\<lparr>tasks := ts, next_task_id := n\<rparr>)"
  shows "db_inv (d\<lparr>tasks := ts, next_task_id := n\<rparr>)"
  using assms by (simp add: db_inv_def keys_ok_def refs_ok_def)

lemma store_Set_inv:
  assumes "db_inv d"
  shows "db_inv (store_Set namespace k v d)"
proof (cases "find_task (task_path namespace k) d")
  case None
  then have "task_path namespace k \<notin> t_path ` set (tasks d)"
    by (auto simp: find_task_def find_None_iff)
  with assms None show ?thesis
    by (auto simp: store_Set_def db_inv_def tasks_ok_def sorted_wrt_append keys_ok_def refs_ok_def less_Suc_eq)
next
  case (Some t)
  have "tasks_ok (store_Set namespace k v d)"
    using assms Some tasks_ok_map [of d "\<lambda>t. if t_path t = task_path namespace k then merge_task v t else t"]
    by (simp add: store_Set_def db_inv_def)
  with assms Some show ?thesis
    by (simp add: store_Set_def db_inv_def keys_ok_def refs_ok_def)
qed

interpretation kv: kv_store db_inv "task_path namespace" "store_Set namespace" "store_lookup namespace"
  for namespace
proof unfold_locales
  fix k k' v s
  show "task_path namespace k = task_path namespace k' \<Longrightarrow> store_lookup namespace k' (store_Set namespace k v s) =
      Some (case store_lookup namespace k s of None \<Rightarrow> v | Some old \<Rightarrow> json_patch old v)"
    by (simp add: store_lookup_def find_task_Set split: option.splits)
  show "task_path namespace k \<noteq> task_path namespace k' \<Longrightarrow>
      store_lookup namespace k' (store_Set namespace k v s) = store_lookup namespace k' s"
    by (simp add: store_lookup_def find_task_Set)
  show "task_path namespace k = task_path namespace k' \<Longrightarrow> store_lookup namespace k s = store_lookup namespace k' s"
    by (simp add: store_lookup_def)
qed (rule store_Set_inv)


section \<open>Properties\<close>


lemma page_slices:
  "m \<ge> 1 \<Longrightarrow> concat (map (\<lambda>i. take m (drop (i * m) xs)) [0..<n]) = take (n * m) xs"
proof (induction n)
  case (Suc n)
  have "take (n * m) xs @ take m (drop (n * m) xs) = take (n * m + m) xs"
    by (simp add: take_add)
  with Suc show ?case by (simp add: add.commute)
qed simp

lemma pages_enough:
  assumes "0 < (m::int)"
  shows "int n \<le> ((int n + m - 1) div m) * m" and "0 \<le> (int n + m - 1) div m"
proof -
  have "(int n + m - 1) div m * m = (int n + m - 1) - (int n + m - 1) mod m"
    by (simp add: minus_mod_eq_div_mult)
  moreover have "(int n + m - 1) mod m < m" using assms by simp
  ultimately show "int n \<le> ((int n + m - 1) div m) * m" by linarith
  show "0 \<le> (int n + m - 1) div m" using assms by (simp add: pos_imp_zdiv_nonneg_iff)
qed

text \<open>Paging loses and repeats nothing: the pages \<open>1\<close> to \<open>TotalPages\<close> of a listing, one after the other,
  are the listing, for every page size of at least one.\<close>

theorem pages_partition:
  assumes "1 \<le> perPage"
  shows "concat (map (\<lambda>p. pg_items (GetAllPaginated namespace pre flds p perPage d))
             [1 .. pg_total_pages (GetAllPaginated namespace pre flds 1 perPage d)])
         = GetAll namespace pre flds d"
proof -
  define rows where "rows = GetAll namespace pre flds d"
  let ?m = "nat perPage" and ?t = "(int (length rows) + perPage - 1) div perPage"
  have paged: "GetAllPaginated namespace pre flds p perPage d = paginate p perPage rows" for p
    by (simp add: GetAllPaginated_def GetAll_def rows_def)
  have enough: "length rows \<le> nat ?t * ?m"
  proof -
    have "int (length rows) \<le> int (nat ?t * ?m)"
      using pages_enough [of perPage "length rows"] assms by simp
    then show ?thesis by linarith
  qed
  have ints: "[1..?t] = map (\<lambda>i. int i + 1) [0..<nat ?t]"
    by (rule nth_equalityI) (use pages_enough(2) [of perPage "length rows"] assms in auto)
  have items: "pg_items (paginate (int i + 1) perPage rows) = take ?m (drop (i * ?m) rows)" for i
    using assms by (simp add: paginate_def Let_def page_rows_def nat_mult_distrib)
  have "concat (map (\<lambda>p. pg_items (paginate p perPage rows)) [1..?t])
      = concat (map (\<lambda>i. take ?m (drop (i * ?m) rows)) [0..<nat ?t])"
    by (simp add: ints items o_def)
  also have "\<dots> = rows"
    using page_slices [of ?m rows "nat ?t"] enough assms by simp
  finally show ?thesis
    unfolding paged rows_def [symmetric] using assms by (simp add: paginate_def Let_def)
qed

theorem pages_partition_witness:
  "concat (map (\<lambda>p. pg_items (GetAllPaginated [] ''a'' [] p 2 (store_Set [] ''a/b'' JNull empty_db)))
             [1 .. pg_total_pages (GetAllPaginated [] ''a'' [] 1 2 (store_Set [] ''a/b'' JNull empty_db))])
         = GetAll [] ''a'' [] (store_Set [] ''a/b'' JNull empty_db)"
  using pages_partition [of 2 "[]" "''a''" "[]" "store_Set [] ''a/b'' JNull empty_db"] by simp

text \<open>A listing under a prefix without the characters \<open>*\<close>, \<open>?\<close>, \<open>[\<close> returns, in the order of their ids and
  with their ids and paths, exactly the rows whose path starts with the cleaned prefix. The test is on
  characters, not on path elements.\<close>

theorem GetAll_prefix:
  assumes "db_inv d" and "glob_literal (task_path namespace pre)"
  shows "map (\<lambda>r. (rs_id r, rs_path r)) (GetAll namespace pre flds d) =
           map (\<lambda>t. (t_id t, t_path t)) (filter (\<lambda>t. HasPrefix (t_path t) (task_path namespace pre)) (tasks d))
         \<and> sorted_wrt (<) (map rs_id (GetAll namespace pre flds d))"
proof -
  have rows: "rows_under namespace pre d = filter (\<lambda>t. HasPrefix (t_path t) (task_path namespace pre)) (tasks d)"
    by (simp add: rows_under_def glob_prefix [OF assms(2)])
  have ids: "map rs_id (GetAll namespace pre flds d) = map t_id (rows_under namespace pre d)"
    by (simp add: GetAll_def select_fields_def Let_def)
  have "sorted_wrt (<) (map t_id (rows_under namespace pre d))"
    using assms(1) unfolding rows by (simp add: db_inv_def tasks_ok_def sorted_wrt_map_filter)
  moreover have "map (\<lambda>r. (rs_id r, rs_path r)) (GetAll namespace pre flds d) =
      map (\<lambda>t. (t_id t, t_path t)) (rows_under namespace pre d)"
    by (simp add: GetAll_def select_fields_def Let_def)
  ultimately show ?thesis
    unfolding ids rows by blast
qed

theorem GetAll_prefix_witness:
  "map (\<lambda>r. (rs_id r, rs_path r)) (GetAll [] ''run/1'' [] (store_Set [] ''run/12'' JNull empty_db)) =
     [(1, ''/run/12'')]"
proof -
  have path: "task_path [] ''run/1'' = ''/run/1''" "tasks (store_Set [] ''run/12'' JNull empty_db) =
      [new_task 1 ''/run/12'' JNull]"
    by code_simp+
  have "db_inv (store_Set [] ''run/12'' JNull empty_db)"
    by (simp add: store_Set_inv)
  moreover have "glob_literal (task_path [] ''run/1'')"
    by (simp add: path glob_literal_def)
  ultimately show ?thesis
    using GetAll_prefix [of "store_Set [] ''run/12'' JNull empty_db" "[]" "''run/1''" "[]"]
    by (simp add: path HasPrefix_def)
qed

section \<open>The promoted status column\<close>

text \<open>The column \<open>status\<close> of a row agrees with the member of its payload.\<close>

definition status_mirrored :: "db \<Rightarrow> bool" where
  "status_mirrored d \<longleftrightarrow> (\<forall>t\<in>set (tasks d). t_status t = json_extract (t_payload t) ''status'')"

definition plain_payload :: "json \<Rightarrow> bool" where
  "plain_payload v \<longleftrightarrow>
     (case v of
        JObj m \<Rightarrow> gm_wf m \<and> (case gm_get m ''status'' of None \<Rightarrow> True | Some s \<Rightarrow> json_str s \<noteq> None)
      | _ \<Rightarrow> False)"

lemma json_str_Some [simp]: "json_str j = Some s \<longleftrightarrow> j = JStr s"
  by (cases j) auto

lemma json_extract_patch:
  assumes "plain_payload v"
  shows "json_extract (json_patch old v) ''status'' =
           coalesce (json_extract v ''status'') (case old of JObj _ \<Rightarrow> json_extract old ''status'' | _ \<Rightarrow> None)"
proof -
  obtain m where v: "v = JObj m" and wf: "gm_wf m"
    using assms by (cases v) (auto simp: plain_payload_def)
  consider "gm_get m ''status'' = None" | s where "gm_get m ''status'' = Some (JStr s)"
    using assms v by (auto simp: plain_payload_def split: option.splits)
  then show ?thesis
    by cases (simp_all add: v json_extract_def gm_get_patch_members [OF wf] coalesce_def column_text_def
        split: json.splits)
qed

lemma json_extract_non_obj: "json_extract old f = (case old of JObj _ \<Rightarrow> json_extract old f | _ \<Rightarrow> None)"
  by (cases old) (simp_all add: json_extract_def)

text \<open>Writing payloads whose \<open>status\<close> is a string or absent keeps the promoted column of every row equal to
  the \<open>status\<close> member of its payload, and so does \<open>UpdateStatusForPrefix\<close>: queries on the column and readers
  of the payload see the same status.\<close>

theorem status_column_mirrors_payload:
  assumes "status_mirrored d" and "plain_payload v"
  shows "status_mirrored (UpdateStatusForPrefix namespace pre ms s (store_Set namespace k v d))"
proof -
  have merge: "t_status (merge_task v t) = json_extract (t_payload (merge_task v t)) ''status''"
    if "t_status t = json_extract (t_payload t) ''status''" for t
    using that json_extract_patch [OF assms(2), of "t_payload t"] json_extract_non_obj [of "t_payload t" "''status''"]
    by (simp add: merge_task_def)
  have new: "t_status (new_task i p v) = json_extract (t_payload (new_task i p v)) ''status''" for i p
    by (simp add: new_task_def)
  have "status_mirrored (store_Set namespace k v d)"
    using assms(1) merge new
    by (auto simp: status_mirrored_def store_Set_def Let_def split: option.splits)
  moreover have "t_status (set_status s t) = json_extract (t_payload (set_status s t)) ''status''" for t
    by (simp add: set_status_def json_extract_def column_text_def)
  ultimately show ?thesis
    by (auto simp: status_mirrored_def UpdateStatusForPrefix_def)
qed

theorem status_column_mirrors_payload_witness:
  "status_mirrored (UpdateStatusForPrefix [] ''p'' [''pending''] ''abort''
     (store_Set [] ''p/x'' (JObj [(''status'', JStr ''pending'')]) empty_db))"
proof -
  have "status_mirrored empty_db" "plain_payload (JObj [(''status'', JStr ''pending'')])"
    by (simp_all add: status_mirrored_def empty_db_def plain_payload_def gm_wf_def gm_get_def)
  then show ?thesis by (rule status_column_mirrors_payload)
qed

lemma UpdateStatusForPrefix_inv: "db_inv d \<Longrightarrow> db_inv (UpdateStatusForPrefix namespace pre ms s d)"
  using tasks_ok_map [of d "\<lambda>t. if (\<exists>m\<in>set ms. t_status t = Some m) \<and> glob (task_path namespace pre @ ''*'') (t_path t)
     then set_status s t else t"]
  by (auto simp: UpdateStatusForPrefix_def db_inv_def keys_ok_def refs_ok_def)

section \<open>The most recent status of a job\<close>

lemma last_status_filter:
  "last_status (filter P ts) = s \<Longrightarrow> s \<noteq> [] \<Longrightarrow>
     \<exists>a t b. ts = a @ t # b \<and> P t \<and> t_status t = Some s \<and> (\<forall>u\<in>set b. \<not> P u)"
proof (induction ts rule: rev_induct)
  case (snoc u ts)
  show ?case
  proof (cases "P u")
    case True
    with snoc.prems show ?thesis
      by (intro exI [of _ ts] exI [of _ u] exI [of _ "[]"])
        (auto simp: last_status_def split: option.splits)
  next
    case False
    with snoc obtain a t b where "ts = a @ t # b" "P t" "t_status t = Some s" "\<forall>u\<in>set b. \<not> P u"
      by auto
    with False show ?thesis
      by (intro exI [of _ a] exI [of _ t] exI [of _ "b @ [u]"]) auto
  qed
qed (simp add: last_status_def)

definition job_row_of :: "string \<Rightarrow> string \<Rightarrow> db \<Rightarrow> task_row \<Rightarrow> bool" where
  "job_row_of pipelineID jobName d t \<longleftrightarrow>
     (\<exists>r\<in>set (runs d). t_run_id t = Some (r_id r) \<and> r_pipeline_id r = pipelineID)
     \<and> (\<exists>a b. t_path t = a @ b \<and> ToLower b = ToLower (''/jobs/'' @ jobName)) \<and> status_counts t"

lemma like_literal_prefix:
  assumes "list_all (\<lambda>c. c \<notin> {bslash, CHR ''%'', CHR ''_''}) p"
  shows "like (p @ escapeLike s) t \<longleftrightarrow> ToLower (p @ s) = ToLower t"
proof -
  have "concat (map escapeLike_char p) = p"
    using assms by (induction p) (auto simp: escapeLike_char_def)
  then have "p @ escapeLike s = concat (map escapeLike_char (p @ s))"
    by (simp add: escapeLike_chars)
  then show ?thesis
    using like_escaped [of "p @ s" t] by metis
qed

text \<open>On the server (no namespace), a non-empty answer of \<open>GetMostRecentJobStatus\<close> is the status of the
  latest row, in id order, that belongs to a run of the pipeline, whose path ends in \<open>/jobs/\<close> and the job
  name, and whose status is neither \<open>skipped\<close> nor \<open>pending\<close>. Wildcards in the job name are literal; letter
  case is ignored.\<close>

theorem GetMostRecentJobStatus_latest:
  assumes "GetMostRecentJobStatus [] pipelineID jobName d = s" and "s \<noteq> []"
  shows "\<exists>a t b. tasks d = a @ t # b \<and> job_row_of pipelineID jobName d t \<and> t_status t = Some s
           \<and> (\<forall>u\<in>set b. \<not> job_row_of pipelineID jobName d u)"
proof -
  have lit: "list_all (\<lambda>c. c \<notin> {bslash, CHR ''%'', CHR ''_''}) ''/jobs/''"
    by (simp add: bslash_def)
  have "like (''%/jobs/'' @ escapeLike jobName) p \<longleftrightarrow> (\<exists>a b. p = a @ b \<and> ToLower b = ToLower (''/jobs/'' @ jobName))" for p
    using like_any_prefix [of "''/jobs/'' @ escapeLike jobName" p] like_literal_prefix [OF lit, of jobName]
    by auto metis+
  then have "GetMostRecentJobStatus [] pipelineID jobName d =
      last_status (filter (job_row_of pipelineID jobName d) (tasks d))"
    by (simp add: GetMostRecentJobStatus_def Let_def job_row_of_def [abs_def])
  with assms show ?thesis
    using last_status_filter by metis
qed

text \<open>The row of the job \<open>Build\<close> answers for the job \<open>build\<close>.\<close>

theorem GetMostRecentJobStatus_latest_witness:
  "\<exists>a t b. tasks (store_Set [] ''pipeline/r1/jobs/Build'' (JObj [(''status'', JStr ''failure'')])
               (empty_db\<lparr>runs := [sample_run ''r1'' ''p1'']\<rparr>)) = a @ t # b
      \<and> job_row_of ''p1'' ''build'' (store_Set [] ''pipeline/r1/jobs/Build'' (JObj [(''status'', JStr ''failure'')])
               (empty_db\<lparr>runs := [sample_run ''r1'' ''p1'']\<rparr>)) t
      \<and> t_status t = Some ''failure''
      \<and> (\<forall>u\<in>set b. \<not> job_row_of ''p1'' ''build''
             (store_Set [] ''pipeline/r1/jobs/Build'' (JObj [(''status'', JStr ''failure'')])
               (empty_db\<lparr>runs := [sample_run ''r1'' ''p1'']\<rparr>)) u)"
proof -
  have "GetMostRecentJobStatus [] ''p1'' ''build''
      (store_Set [] ''pipeline/r1/jobs/Build'' (JObj [(''status'', JStr ''failure'')])
         (empty_db\<lparr>runs := [sample_run ''r1'' ''p1'']\<rparr>)) = ''failure''"
    by code_simp
  from GetMostRecentJobStatus_latest [OF this] show ?thesis by simp
qed

text \<open>A pipeline id that no run has gives the empty answer: with the empty id that the runner passes, the
  server-side query never finds a job.\<close>

lemma GetMostRecentJobStatus_no_run:
  "(\<And>r. r \<in> set (runs d) \<Longrightarrow> r_pipeline_id r \<noteq> pipelineID) \<Longrightarrow> GetMostRecentJobStatus [] pipelineID jobName d = []"
  by (simp add: GetMostRecentJobStatus_def Let_def last_status_def)

end
