(* ===== verification/Store_Runs.thy ===== *)
theory Store_Runs
  imports Store_Tasks
begin

text \<open>
  The relational side of the storage driver: \<open>pipelines.go\<close>, \<open>runs.go\<close>, \<open>gates.go\<close>, \<open>schedules.go\<close> and
  \<open>webhook_dedup.go\<close> of \<open>storage/sqlite\<close>. An operation takes the current time (and the identifier that
  \<open>support.UniqueID\<close> or \<open>support.PipelineID\<close> draws) as arguments. Every operation is a step of \<open>db_step\<close>; the
  integrity of \<open>Database\<close> holds in every reachable database.
\<close>

section \<open>Pipelines\<close>

definition find_pipeline :: "string \<Rightarrow> db \<Rightarrow> pipeline option" where
  "find_pipeline i d = find (\<lambda>p. p_id p = i) (pipelines d)"

definition find_pipeline_name :: "string \<Rightarrow> db \<Rightarrow> pipeline option" where
  "find_pipeline_name n d = find (\<lambda>p. p_name p = n) (pipelines d)"

definition zero_pipeline :: "string \<Rightarrow> string \<Rightarrow> string \<Rightarrow> string \<Rightarrow> string \<Rightarrow> int \<Rightarrow> pipeline" where
  "zero_pipeline i name content driver contentType now =
     \<lparr>p_id = i, p_name = name, p_content = content, p_content_type = contentType, p_driver = driver,
      p_resume_enabled = False, p_paused = False, p_rbac_expression = [], p_concurrency_mode = [],
      p_group_template = [], p_cancel_running = False, p_created_at = now, p_updated_at = now\<rparr>"

text \<open>The upsert resolves a conflict on the name; a conflict on the id alone is a constraint failure. The
  returned struct carries only the arguments and the time, whatever the row holds.\<close>

definition SavePipeline ::
  "string \<Rightarrow> int \<Rightarrow> string \<Rightarrow> string \<Rightarrow> string \<Rightarrow> string \<Rightarrow> db \<Rightarrow> (db_error + pipeline) \<times> db" where
  "SavePipeline newID now name content driver contentType d =
     (case find_pipeline_name name d of
        Some old \<Rightarrow>
          (Inr (zero_pipeline (if p_id old \<noteq> [] then p_id old else newID) name content driver contentType now),
           d\<lparr>pipelines := map (\<lambda>p. if p_name p = name
                                   then p\<lparr>p_content := content, p_content_type := contentType,
                                          p_driver := driver, p_updated_at := now\<rparr>
                                   else p) (pipelines d)\<rparr>)
      | None \<Rightarrow>
          if find_pipeline newID d \<noteq> None then (Inl ErrConstraint, d)
          else (Inr (zero_pipeline newID name content driver contentType now),
                d\<lparr>pipelines := pipelines d @ [zero_pipeline newID name content driver contentType now]\<rparr>))"

definition GetPipeline :: "string \<Rightarrow> db \<Rightarrow> db_error + pipeline" where
  "GetPipeline i d = (case find_pipeline i d of None \<Rightarrow> Inl ErrNotFound | Some p \<Rightarrow> Inr p)"

definition GetPipelineByName :: "string \<Rightarrow> db \<Rightarrow> db_error + pipeline" where
  "GetPipelineByName n d =
     (case order_desc p_updated_at (filter (\<lambda>p. p_name p = n) (pipelines d)) of
        [] \<Rightarrow> Inl ErrNotFound | p # _ \<Rightarrow> Inr p)"

definition DeletePipeline :: "string \<Rightarrow> db \<Rightarrow> db_error option \<times> db" where
  "DeletePipeline i d =
     (if find_pipeline i d = None then (Some ErrNotFound, d) else (None, delete_pipeline_rows i d))"

record pipeline_update =
  u_resume_enabled :: "bool option"
  u_paused :: "bool option"
  u_rbac_expression :: "string option"
  u_concurrency_mode :: "string option"
  u_group_template :: "string option"
  u_cancel_running :: "bool option"

definition update_empty :: "pipeline_update \<Rightarrow> bool" where
  "update_empty u \<longleftrightarrow>
     u_resume_enabled u = None \<and> u_paused u = None \<and> u_rbac_expression u = None
     \<and> u_concurrency_mode u = None \<and> u_group_template u = None \<and> u_cancel_running u = None"

definition opt_or :: "'a option \<Rightarrow> 'a \<Rightarrow> 'a" where
  "opt_or o' x = (case o' of None \<Rightarrow> x | Some y \<Rightarrow> y)"

definition apply_update :: "pipeline_update \<Rightarrow> pipeline \<Rightarrow> pipeline" where
  "apply_update u p =
     p\<lparr>p_resume_enabled := opt_or (u_resume_enabled u) (p_resume_enabled p),
       p_paused := opt_or (u_paused u) (p_paused p),
       p_rbac_expression := opt_or (u_rbac_expression u) (p_rbac_expression p),
       p_concurrency_mode := opt_or (u_concurrency_mode u) (p_concurrency_mode p),
       p_group_template := opt_or (u_group_template u) (p_group_template p),
       p_cancel_running := opt_or (u_cancel_running u) (p_cancel_running p)\<rparr>"

definition UpdatePipeline :: "string \<Rightarrow> pipeline_update \<Rightarrow> db \<Rightarrow> db_error option \<times> db" where
  "UpdatePipeline i u d =
     (if update_empty u then (None, d)
      else if find_pipeline i d = None then (Some ErrNotFound, d)
      else (None, d\<lparr>pipelines := map (\<lambda>p. if p_id p = i then apply_update u p else p) (pipelines d)\<rparr>))"

section \<open>Runs\<close>

definition find_run :: "string \<Rightarrow> db \<Rightarrow> pipeline_run option" where
  "find_run i d = find (\<lambda>r. r_id r = i) (runs d)"

definition new_run ::
  "string \<Rightarrow> int \<Rightarrow> string \<Rightarrow> trigger_type \<Rightarrow> string \<Rightarrow> trigger_input \<Rightarrow> string \<Rightarrow> run_status \<Rightarrow> string \<Rightarrow> pipeline_run" where
  "new_run i now pid tt by ti grp st err =
     \<lparr>r_id = i, r_pipeline_id = pid, r_status = st, r_trigger_type = tt, r_triggered_by = by,
      r_trigger_input = ti, r_concurrency_group = grp,
      r_started_at = (if st = RunStatusRunning then Some now else None),
      r_completed_at = (if IsTerminal st then Some now else None),
      r_error_message = (if IsTerminal st then err else []), r_created_at = now\<rparr>"

definition SaveRunWithStatus ::
  "string \<Rightarrow> int \<Rightarrow> string \<Rightarrow> trigger_type \<Rightarrow> string \<Rightarrow> trigger_input \<Rightarrow> string \<Rightarrow> run_status \<Rightarrow> string \<Rightarrow> db
   \<Rightarrow> (db_error + pipeline_run) \<times> db" where
  "SaveRunWithStatus newID now pid tt by ti grp st err d =
     (if find_run newID d \<noteq> None \<or> find_pipeline pid d = None then (Inl ErrConstraint, d)
      else (let r = new_run newID now pid tt by ti grp st err in (Inr r, d\<lparr>runs := runs d @ [r]\<rparr>)))"

definition SaveRun ::
  "string \<Rightarrow> int \<Rightarrow> string \<Rightarrow> trigger_type \<Rightarrow> string \<Rightarrow> trigger_input \<Rightarrow> string \<Rightarrow> db
   \<Rightarrow> (db_error + pipeline_run) \<times> db" where
  "SaveRun newID now pid tt by ti grp d = SaveRunWithStatus newID now pid tt by ti grp RunStatusQueued [] d"

definition GetRun :: "string \<Rightarrow> db \<Rightarrow> db_error + pipeline_run" where
  "GetRun i d = (case find_run i d of None \<Rightarrow> Inl ErrNotFound | Some r \<Rightarrow> Inr r)"

definition GetRunsByStatus :: "run_status \<Rightarrow> int \<Rightarrow> db \<Rightarrow> pipeline_run list" where
  "GetRunsByStatus st limit d =
     (let rows = order_desc r_created_at (filter (\<lambda>r. r_status r = st) (runs d)) in
      if limit > 0 then take (nat limit) rows else rows)"

definition active :: "pipeline_run \<Rightarrow> bool" where
  "active r \<longleftrightarrow> r_status r \<in> {RunStatusQueued, RunStatusRunning}"

definition GetActiveRunsByGroup :: "string \<Rightarrow> db \<Rightarrow> pipeline_run list" where
  "GetActiveRunsByGroup grp d =
     (if grp = [] then []
      else order_asc r_created_at (filter (\<lambda>r. r_concurrency_group r = grp \<and> active r) (runs d)))"

definition GetActiveRunsByPipeline :: "string \<Rightarrow> db \<Rightarrow> pipeline_run list" where
  "GetActiveRunsByPipeline pid d =
     order_asc r_created_at (filter (\<lambda>r. r_pipeline_id r = pid \<and> active r) (runs d))"

definition targets :: "string \<Rightarrow> pipeline_run \<Rightarrow> bool" where
  "targets job r \<longleftrightarrow> job \<in> set (ti_jobs (r_trigger_input r))"

definition first_row :: "'a list \<Rightarrow> 'a option" where
  "first_row rows = (case rows of [] \<Rightarrow> None | r # _ \<Rightarrow> Some r)"

definition GetMostRecentJobRun :: "string \<Rightarrow> string \<Rightarrow> db \<Rightarrow> pipeline_run option" where
  "GetMostRecentJobRun pid job d =
     (if job = [] then None
      else first_row (order_desc r_created_at (filter (\<lambda>r. r_pipeline_id r = pid \<and> targets job r) (runs d))))"

definition GetSuccessfulJobRunSince :: "string \<Rightarrow> string \<Rightarrow> int \<Rightarrow> db \<Rightarrow> pipeline_run option" where
  "GetSuccessfulJobRunSince pid job since d =
     (if job = [] then None
      else first_row (order_desc r_created_at
             (filter (\<lambda>r. r_pipeline_id r = pid \<and> r_status r = RunStatusSuccess \<and> since < r_created_at r
                          \<and> targets job r) (runs d))))"

definition GetRunStats :: "db \<Rightarrow> (run_status \<times> nat) list" where
  "GetRunStats d =
     map (\<lambda>st. (st, length (filter (\<lambda>r. r_status r = st) (runs d)))) (remdups (map r_status (runs d)))"

definition transition_allowed :: "run_status \<Rightarrow> run_status \<Rightarrow> bool" where
  "transition_allowed old new \<longleftrightarrow>
     new \<in> {RunStatusFailed, RunStatusQueued} \<or> old \<in> {RunStatusQueued, RunStatusRunning}"

definition set_run_status :: "int \<Rightarrow> run_status \<Rightarrow> string \<Rightarrow> pipeline_run \<Rightarrow> pipeline_run" where
  "set_run_status now st err r =
     r\<lparr>r_status := st,
       r_started_at := (if st = RunStatusRunning then Some now else r_started_at r),
       r_completed_at := (if IsTerminal st then Some now else r_completed_at r),
       r_error_message := (if IsTerminal st then err else r_error_message r)\<rparr>"

definition UpdateRunStatus :: "int \<Rightarrow> string \<Rightarrow> run_status \<Rightarrow> string \<Rightarrow> db \<Rightarrow> db_error option \<times> db" where
  "UpdateRunStatus now i st err d =
     (if find_run i d = None then (Some ErrNotFound, d)
      else (None, d\<lparr>runs := map (\<lambda>r. if r_id r = i \<and> transition_allowed (r_status r) st
                                   then set_run_status now st err r else r) (runs d)\<rparr>))"

definition prune_by_count :: "string \<Rightarrow> int \<Rightarrow> db \<Rightarrow> db" where
  "prune_by_count pid keepBuilds d =
     (if keepBuilds > 0 then
        (let keep = map r_id (take (nat keepBuilds)
                      (order_desc r_created_at (filter (\<lambda>r. r_pipeline_id r = pid) (runs d))))
         in delete_runs (\<lambda>r. r_pipeline_id r = pid \<and> r_id r \<notin> set keep) d)
      else d)"

definition PruneRunsByPipeline :: "string \<Rightarrow> int \<Rightarrow> int option \<Rightarrow> db \<Rightarrow> db" where
  "PruneRunsByPipeline pid keepBuilds cutoffTime d =
     (let d1 = prune_by_count pid keepBuilds d in
      case cutoffTime of
        None \<Rightarrow> d1
      | Some t \<Rightarrow> delete_runs (\<lambda>r. r_pipeline_id r = pid \<and> r_created_at r < t) d1)"

section \<open>Gates\<close>

definition find_gate :: "string \<Rightarrow> db \<Rightarrow> gate option" where
  "find_gate i d = find (\<lambda>g. g_id g = i) (gates d)"

definition SaveGate :: "int \<Rightarrow> gate \<Rightarrow> db \<Rightarrow> db_error option \<times> db" where
  "SaveGate now g d =
     (if find_gate (g_id g) d \<noteq> None \<or> find_pipeline (g_pipeline_id g) d = None \<or> find_run (g_run_id g) d = None
      then (Some ErrConstraint, d)
      else (None, d\<lparr>gates := gates d @ [g\<lparr>g_created_at := now, g_resolved_at := None\<rparr>]\<rparr>))"

definition GetGate :: "string \<Rightarrow> db \<Rightarrow> db_error + gate" where
  "GetGate i d = (case find_gate i d of None \<Rightarrow> Inl ErrNotFound | Some g \<Rightarrow> Inr g)"

definition ResolveGate :: "int \<Rightarrow> string \<Rightarrow> gate_status \<Rightarrow> string \<Rightarrow> db \<Rightarrow> db_error option \<times> db" where
  "ResolveGate now i st by d =
     (case find_gate i d of
        None \<Rightarrow> (Some ErrNotFound, d)
      | Some g \<Rightarrow>
          if g_status g = GateStatusPending
          then (None, d\<lparr>gates := map (\<lambda>g. if g_id g = i \<and> g_status g = GateStatusPending
                          then g\<lparr>g_status := st, g_approved_by := by, g_resolved_at := Some now\<rparr> else g) (gates d)\<rparr>)
          else (Some ErrNotFound, d))"

definition GetGatesByRunID :: "string \<Rightarrow> db \<Rightarrow> gate list" where
  "GetGatesByRunID i d = order_asc g_created_at (filter (\<lambda>g. g_run_id g = i) (gates d))"

section \<open>Schedules\<close>

definition same_schedule :: "schedule \<Rightarrow> schedule \<Rightarrow> bool" where
  "same_schedule a b \<longleftrightarrow> s_pipeline_id a = s_pipeline_id b \<and> s_name a = s_name b"

definition SaveSchedule :: "int \<Rightarrow> schedule \<Rightarrow> db \<Rightarrow> db_error option \<times> db" where
  "SaveSchedule now s d =
     (if find_pipeline (s_pipeline_id s) d = None then (Some ErrConstraint, d)
      else if \<exists>o'\<in>set (schedules d). same_schedule o' s then
        (None, d\<lparr>schedules := map (\<lambda>o'. if same_schedule o' s
                   then o'\<lparr>s_type := s_type s, s_expr := s_expr s, s_job_name := s_job_name s,
                           s_next_run_at := s_next_run_at s, s_updated_at := now\<rparr>
                   else o') (schedules d)\<rparr>)
      else if \<exists>o'\<in>set (schedules d). s_id o' = s_id s then (Some ErrConstraint, d)
      else (None, d\<lparr>schedules := schedules d
                     @ [s\<lparr>s_last_run_at := None, s_created_at := now, s_updated_at := now\<rparr>]\<rparr>))"

definition GetSchedulesByPipeline :: "string \<Rightarrow> db \<Rightarrow> schedule list" where
  "GetSchedulesByPipeline pid d = sort_key s_name (filter (\<lambda>s. s_pipeline_id s = pid) (schedules d))"

definition PruneSchedulesByPipeline :: "string \<Rightarrow> string list \<Rightarrow> db \<Rightarrow> db" where
  "PruneSchedulesByPipeline pid keepNames d =
     (if keepNames = [] then d\<lparr>schedules := filter (\<lambda>s. s_pipeline_id s \<noteq> pid) (schedules d)\<rparr>
      else d\<lparr>schedules := filter (\<lambda>s. \<not> (s_pipeline_id s = pid \<and> s_name s \<notin> set keepNames)) (schedules d)\<rparr>)"

definition UpdateScheduleEnabled :: "int \<Rightarrow> string \<Rightarrow> bool \<Rightarrow> db \<Rightarrow> db_error option \<times> db" where
  "UpdateScheduleEnabled now i enabled d =
     (if \<exists>s\<in>set (schedules d). s_id s = i
      then (None, d\<lparr>schedules := map (\<lambda>s. if s_id s = i then s\<lparr>s_enabled := enabled, s_updated_at := now\<rparr> else s)
                                   (schedules d)\<rparr>)
      else (Some ErrNotFound, d))"

definition due :: "int \<Rightarrow> schedule \<Rightarrow> bool" where
  "due now s \<longleftrightarrow> s_enabled s \<and> (case s_next_run_at s of None \<Rightarrow> False | Some t \<Rightarrow> t \<le> now)"

definition claim :: "int \<Rightarrow> schedule \<Rightarrow> schedule" where
  "claim now s = s\<lparr>s_last_run_at := Some now, s_next_run_at := None\<rparr>"

definition ClaimDueSchedules :: "int \<Rightarrow> db \<Rightarrow> schedule list \<times> db" where
  "ClaimDueSchedules now d =
     (map (claim now) (filter (due now) (schedules d)),
      d\<lparr>schedules := map (\<lambda>s. if due now s then claim now s else s) (schedules d)\<rparr>)"

definition UpdateScheduleAfterRun :: "int \<Rightarrow> string \<Rightarrow> int \<Rightarrow> int \<Rightarrow> db \<Rightarrow> db" where
  "UpdateScheduleAfterRun now i lastRunAt nextRunAt d =
     d\<lparr>schedules := map (\<lambda>s. if s_id s = i
          then s\<lparr>s_last_run_at := Some lastRunAt, s_next_run_at := Some nextRunAt, s_updated_at := now\<rparr> else s)
          (schedules d)\<rparr>"

section \<open>Webhook deduplication\<close>

definition RecordWebhookDedup :: "int \<Rightarrow> string \<Rightarrow> string \<Rightarrow> db \<Rightarrow> (db_error + bool) \<times> db" where
  "RecordWebhookDedup now pid h d =
     (if \<exists>e\<in>set (webhook_dedup d). d_pipeline_id e = pid \<and> d_key_hash e = h then (Inr True, d)
      else if find_pipeline pid d = None then (Inl ErrConstraint, d)
      else (Inr False, d\<lparr>webhook_dedup := webhook_dedup d
                           @ [\<lparr>d_pipeline_id = pid, d_key_hash = h, d_created_at = now\<rparr>]\<rparr>))"

definition PruneWebhookDedup :: "int \<Rightarrow> db \<Rightarrow> nat \<times> db" where
  "PruneWebhookDedup olderThan d =
     (length (filter (\<lambda>e. d_created_at e < olderThan) (webhook_dedup d)),
      d\<lparr>webhook_dedup := filter (\<lambda>e. \<not> d_created_at e < olderThan) (webhook_dedup d)\<rparr>)"

section \<open>Integrity is kept\<close>

lemma map_key_upd: "(\<And>x. key (f x) = key x) \<Longrightarrow> map key (map f xs) = map key xs"
  by simp

lemma image_key_upd: "(\<And>x. key (f x) = key x) \<Longrightarrow> key ` f ` A = key ` A"
  by (simp add: image_image)

lemma find_None_key: "find (\<lambda>x. key x = k) xs = None \<longleftrightarrow> k \<notin> key ` set xs"
  by (auto simp: find_None_iff)

lemma find_Some_key: "find (\<lambda>x. key x = k) xs \<noteq> None \<longleftrightarrow> k \<in> key ` set xs"
  by (simp add: find_None_key del: not_None_eq)

lemma find_SomeD: "find P xs = Some x \<Longrightarrow> x \<in> set xs \<and> P x"
  by (auto simp: find_Some_iff)

lemmas find_defs = find_pipeline_def find_pipeline_name_def find_run_def find_gate_def
lemmas inv_defs = db_inv_def tasks_ok_def keys_ok_def refs_ok_def

lemma upd_keys [simp]:
  "p_id (apply_update u p) = p_id p" "p_name (apply_update u p) = p_name p"
  "r_id (set_run_status now st err r) = r_id r"
  "r_pipeline_id (set_run_status now st err r) = r_pipeline_id r"
  "r_created_at (set_run_status now st err r) = r_created_at r"
  "r_status (set_run_status now st err r) = st"
  "s_id (claim now s) = s_id s" "s_pipeline_id (claim now s) = s_pipeline_id s" "s_name (claim now s) = s_name s"
  by (simp_all add: apply_update_def set_run_status_def claim_def)

text \<open>Rewriting the rows of one table in place, without touching keys, keeps the integrity.\<close>

lemma pipelines_map_inv:
  assumes "db_inv d" and "\<And>p. p_id (f p) = p_id p" and "\<And>p. p_name (f p) = p_name p"
  shows "db_inv (d\<lparr>pipelines := map f (pipelines d)\<rparr>)"
  using assms by (simp add: inv_defs o_def image_image)

lemma runs_map_inv:
  assumes "db_inv d" and "\<And>r. r_id (f r) = r_id r" and "\<And>r. r_pipeline_id (f r) = r_pipeline_id r"
  shows "db_inv (d\<lparr>runs := map f (runs d)\<rparr>)"
  using assms by (simp add: inv_defs o_def image_image)

lemma gates_map_inv:
  assumes "db_inv d" and "\<And>g. g_id (f g) = g_id g" and "\<And>g. g_pipeline_id (f g) = g_pipeline_id g"
    and "\<And>g. g_run_id (f g) = g_run_id g"
  shows "db_inv (d\<lparr>gates := map f (gates d)\<rparr>)"
  using assms by (simp add: inv_defs o_def)

lemma schedules_map_inv:
  assumes "db_inv d" and "\<And>s. s_id (f s) = s_id s" and "\<And>s. s_pipeline_id (f s) = s_pipeline_id s"
    and "\<And>s. s_name (f s) = s_name s"
  shows "db_inv (d\<lparr>schedules := map f (schedules d)\<rparr>)"
  using assms by (simp add: inv_defs o_def)

lemma schedules_filter_inv: "db_inv d \<Longrightarrow> db_inv (d\<lparr>schedules := filter P (schedules d)\<rparr>)"
  by (simp add: inv_defs)

lemma dedup_filter_inv: "db_inv d \<Longrightarrow> db_inv (d\<lparr>webhook_dedup := filter P (webhook_dedup d)\<rparr>)"
  by (simp add: inv_defs)

lemma SavePipeline_inv:
  assumes "db_inv d"
  shows "db_inv (snd (SavePipeline newID now name content driver ct d))"
proof (cases "find_pipeline_name name d")
  case None
  then have "name \<notin> p_name ` set (pipelines d)"
    by (simp add: find_pipeline_name_def find_None_key)
  moreover have "db_inv d \<Longrightarrow> newID \<notin> p_id ` set (pipelines d) \<Longrightarrow>
      db_inv (d\<lparr>pipelines := pipelines d @ [zero_pipeline newID name content driver ct now]\<rparr>)"
    using calculation by (simp add: inv_defs zero_pipeline_def)
  ultimately show ?thesis
    using assms None find_None_key [of p_id newID "pipelines d"] by (auto simp: SavePipeline_def find_pipeline_def)
next
  case (Some old)
  then show ?thesis
    using assms by (auto simp: SavePipeline_def intro!: pipelines_map_inv)
qed

lemma SaveRunWithStatus_inv:
  assumes "db_inv d"
  shows "db_inv (snd (SaveRunWithStatus newID now pid tt by ti grp st err d))"
proof (cases "find_run newID d \<noteq> None \<or> find_pipeline pid d = None")
  case False
  then have "newID \<notin> r_id ` set (runs d)" "pid \<in> p_id ` set (pipelines d)"
    using find_None_key [of r_id newID "runs d"] find_Some_key [of p_id pid "pipelines d"]
    by (auto simp: find_run_def find_pipeline_def)
  with assms False show ?thesis
    by (simp add: SaveRunWithStatus_def Let_def inv_defs new_run_def)
qed (use assms in \<open>auto simp: SaveRunWithStatus_def\<close>)

lemma SaveGate_inv:
  assumes "db_inv d"
  shows "db_inv (snd (SaveGate now g d))"
proof (cases "find_gate (g_id g) d \<noteq> None \<or> find_pipeline (g_pipeline_id g) d = None \<or> find_run (g_run_id g) d = None")
  case False
  then have "g_id g \<notin> g_id ` set (gates d)" "g_pipeline_id g \<in> p_id ` set (pipelines d)"
      "g_run_id g \<in> r_id ` set (runs d)"
    using find_None_key [of g_id "g_id g" "gates d"] find_Some_key [of p_id "g_pipeline_id g" "pipelines d"]
      find_Some_key [of r_id "g_run_id g" "runs d"]
    by (auto simp: find_defs)
  with assms False show ?thesis
    by (simp add: SaveGate_def inv_defs)
qed (use assms in \<open>auto simp: SaveGate_def\<close>)

lemma SaveSchedule_inv:
  assumes "db_inv d"
  shows "db_inv (snd (SaveSchedule now s d))"
proof -
  consider (known) "\<exists>o'\<in>set (schedules d). same_schedule o' s"
    | (fresh) "\<not> (\<exists>o'\<in>set (schedules d). same_schedule o' s)" "\<not> (\<exists>o'\<in>set (schedules d). s_id o' = s_id s)"
        "find_pipeline (s_pipeline_id s) d \<noteq> None"
    | (rejected) "snd (SaveSchedule now s d) = d"
    by (cases "find_pipeline (s_pipeline_id s) d = None"; cases "\<exists>o'\<in>set (schedules d). same_schedule o' s";
        cases "\<exists>o'\<in>set (schedules d). s_id o' = s_id s") (auto simp: SaveSchedule_def)
  then show ?thesis
  proof cases
    case known
    then show ?thesis
      using assms by (auto simp: SaveSchedule_def intro!: schedules_map_inv)
  next
    case fresh
    then have "(s_pipeline_id s, s_name s) \<notin> (\<lambda>s. (s_pipeline_id s, s_name s)) ` set (schedules d)"
        "s_id s \<notin> s_id ` set (schedules d)" "s_pipeline_id s \<in> p_id ` set (pipelines d)"
      using find_Some_key [of p_id "s_pipeline_id s" "pipelines d"]
      by (auto simp: same_schedule_def find_pipeline_def)
    with assms fresh show ?thesis
      by (simp add: SaveSchedule_def inv_defs)
  qed (use assms in simp)
qed

lemma RecordWebhookDedup_inv:
  assumes "db_inv d"
  shows "db_inv (snd (RecordWebhookDedup now pid h d))"
proof -
  consider (fresh) "\<not> (\<exists>e\<in>set (webhook_dedup d). d_pipeline_id e = pid \<and> d_key_hash e = h)"
        "find_pipeline pid d \<noteq> None"
    | (same) "snd (RecordWebhookDedup now pid h d) = d"
    by (cases "find_pipeline pid d = None";
        cases "\<exists>e\<in>set (webhook_dedup d). d_pipeline_id e = pid \<and> d_key_hash e = h")
      (auto simp: RecordWebhookDedup_def)
  then show ?thesis
  proof cases
    case fresh
    then have "(pid, h) \<notin> (\<lambda>e. (d_pipeline_id e, d_key_hash e)) ` set (webhook_dedup d)"
        "pid \<in> p_id ` set (pipelines d)"
      using find_Some_key [of p_id pid "pipelines d"] by (auto simp: find_pipeline_def)
    with assms fresh show ?thesis
      by (simp add: RecordWebhookDedup_def inv_defs)
  qed (use assms in simp)
qed

lemma PruneRunsByPipeline_inv: "db_inv d \<Longrightarrow> db_inv (PruneRunsByPipeline pid n c d)"
  by (auto simp: PruneRunsByPipeline_def prune_by_count_def Let_def delete_runs_inv split: option.splits)

text \<open>One operation of the driver, with any arguments.\<close>

inductive db_step :: "db \<Rightarrow> db \<Rightarrow> bool" where
  "db_step d (store_Set namespace k v d)"
| "db_step d (UpdateStatusForPrefix namespace pre ms s d)"
| "db_step d (snd (SavePipeline newID now name content driver ct d))"
| "db_step d (snd (DeletePipeline i d))"
| "db_step d (snd (UpdatePipeline i u d))"
| "db_step d (snd (SaveRunWithStatus newID now pid tt by ti grp st err d))"
| "db_step d (snd (UpdateRunStatus now i st err d))"
| "db_step d (PruneRunsByPipeline pid n c d)"
| "db_step d (snd (SaveGate now g d))"
| "db_step d (snd (ResolveGate now i gs by d))"
| "db_step d (snd (SaveSchedule now s d))"
| "db_step d (PruneSchedulesByPipeline pid names d)"
| "db_step d (snd (UpdateScheduleEnabled now i b d))"
| "db_step d (snd (ClaimDueSchedules now d))"
| "db_step d (UpdateScheduleAfterRun now i lr nr d)"
| "db_step d (snd (RecordWebhookDedup now pid h d))"
| "db_step d (snd (PruneWebhookDedup t d))"

lemma db_step_inv: "db_step d d' \<Longrightarrow> db_inv d \<Longrightarrow> db_inv d'"
proof (induction rule: db_step.induct)
  case (4 i d) then show ?case by (simp add: DeletePipeline_def delete_pipeline_rows_inv)
next
  case (5 i u d) then show ?case by (auto simp: UpdatePipeline_def intro!: pipelines_map_inv)
next
  case (7 now i st err d) then show ?case by (auto simp: UpdateRunStatus_def intro!: runs_map_inv)
next
  case (10 now i gs by' d) then show ?case
    by (auto simp: ResolveGate_def intro!: gates_map_inv split: option.splits)
next
  case (12 pid names d) then show ?case by (simp add: PruneSchedulesByPipeline_def schedules_filter_inv)
next
  case (13 now i b d) then show ?case by (auto simp: UpdateScheduleEnabled_def intro!: schedules_map_inv)
next
  case (14 now d) then show ?case by (auto simp: ClaimDueSchedules_def intro!: schedules_map_inv)
next
  case (15 now i lr nr d) then show ?case by (auto simp: UpdateScheduleAfterRun_def intro!: schedules_map_inv)
next
  case (17 t d) then show ?case by (simp add: PruneWebhookDedup_def dedup_filter_inv)
qed (simp_all add: store_Set_inv UpdateStatusForPrefix_inv SavePipeline_inv SaveRunWithStatus_inv
    PruneRunsByPipeline_inv SaveGate_inv SaveSchedule_inv RecordWebhookDedup_inv)

text \<open>C22. Every database that a sequence of driver operations reaches from the empty one has unique keys,
  task ids in insertion order and no dangling reference between pipelines, runs, gates, schedules and
  deduplication records.\<close>

theorem reachable_db_integrity: "db_step\<^sup>*\<^sup>* empty_db d \<Longrightarrow> db_inv d"
  by (induction rule: rtranclp_induct) (auto intro: db_step_inv)

theorem reachable_db_integrity_witness:
  "db_inv (snd (SaveRunWithStatus ''r1'' 7 ''p1'' TriggerTypeManual [] no_input [] RunStatusQueued []
     (snd (SavePipeline ''p1'' 5 ''ci'' ''jobs'' ''docker'' ''yaml'' empty_db))))"
proof -
  have "db_step empty_db (snd (SavePipeline ''p1'' 5 ''ci'' ''jobs'' ''docker'' ''yaml'' empty_db))"
    by (rule db_step.intros)
  moreover have "db_step (snd (SavePipeline ''p1'' 5 ''ci'' ''jobs'' ''docker'' ''yaml'' empty_db))
      (snd (SaveRunWithStatus ''r1'' 7 ''p1'' TriggerTypeManual [] no_input [] RunStatusQueued []
         (snd (SavePipeline ''p1'' 5 ''ci'' ''jobs'' ''docker'' ''yaml'' empty_db))))"
    by (rule db_step.intros)
  ultimately show ?thesis
    by (intro reachable_db_integrity [OF rtranclp.rtrancl_into_rtrancl [OF r_into_rtranclp]])
qed

section \<open>The status machine of a run\<close>

lemma find_run_SomeD: "find_run i d = Some r \<Longrightarrow> r \<in> set (runs d) \<and> r_id r = i"
  by (auto simp: find_run_def dest: find_SomeD)

lemma find_run_iff: "db_inv d \<Longrightarrow> find_run i d = Some r \<longleftrightarrow> r \<in> set (runs d) \<and> r_id r = i"
proof -
  assume "db_inv d"
  then have dist: "distinct (map r_id (runs d))" by (simp add: inv_defs)
  show ?thesis
  proof
    assume "r \<in> set (runs d) \<and> r_id r = i"
    then have "find_run i d \<noteq> None"
      using find_None_key [of r_id i "runs d"] by (auto simp: find_run_def)
    then obtain r' where r': "find_run i d = Some r'" by auto
    with \<open>r \<in> set (runs d) \<and> r_id r = i\<close> dist have "r' = r"
      by (auto dest!: find_run_SomeD simp: distinct_map inj_on_def)
    with r' show "find_run i d = Some r" by simp
  qed (rule find_run_SomeD)
qed

text \<open>\<open>UpdateRunStatus\<close> changes the addressed run alone and only along an allowed transition: any run may
  become \<open>failed\<close> or \<open>queued\<close>, and a queued or running run may become anything. A blocked transition
  leaves the database as it is and reports no error; an unknown run is \<open>ErrNotFound\<close>.\<close>

theorem UpdateRunStatus_machine:
  assumes "db_inv d"
  shows "find_run j (snd (UpdateRunStatus now i st err d)) =
      (case find_run j d of
         None \<Rightarrow> None
       | Some r \<Rightarrow> Some (if i = j \<and> transition_allowed (r_status r) st then set_run_status now st err r else r))
    \<and> (fst (UpdateRunStatus now i st err d) = (if find_run i d = None then Some ErrNotFound else None))
    \<and> (\<forall>r. find_run i d = Some r \<and> IsTerminal (r_status r) \<and> st \<notin> {RunStatusFailed, RunStatusQueued}
           \<longrightarrow> UpdateRunStatus now i st err d = (None, d))"
proof (intro conjI allI impI)
  let ?f = "\<lambda>r. if r_id r = i \<and> transition_allowed (r_status r) st then set_run_status now st err r else r"
  show "find_run j (snd (UpdateRunStatus now i st err d)) =
      (case find_run j d of
         None \<Rightarrow> None
       | Some r \<Rightarrow> Some (if i = j \<and> transition_allowed (r_status r) st then set_run_status now st err r else r))"
  proof (cases "find_run i d")
    case None
    then show ?thesis
      by (auto simp: UpdateRunStatus_def split: option.splits)
  next
    case (Some q)
    have "find_run j (snd (UpdateRunStatus now i st err d)) = map_option ?f (find_run j d)"
      using Some find_map_key [of r_id ?f j "runs d"] by (simp add: UpdateRunStatus_def find_run_def)
    then show ?thesis
      by (auto split: option.splits dest: find_run_SomeD)
  qed
  show "fst (UpdateRunStatus now i st err d) = (if find_run i d = None then Some ErrNotFound else None)"
    by (simp add: UpdateRunStatus_def)
  fix r
  assume r: "find_run i d = Some r \<and> IsTerminal (r_status r) \<and> st \<notin> {RunStatusFailed, RunStatusQueued}"
  have "?f x = x" if "x \<in> set (runs d)" for x
  proof (cases "r_id x = i")
    case True
    with that have "find_run i d = Some x" by (simp add: find_run_iff [OF assms])
    with r have "x = r" by simp
    with r show ?thesis by (auto simp: transition_allowed_def IsTerminal_def)
  qed simp
  then have "map ?f (runs d) = runs d" by (simp add: map_idI)
  with r show "UpdateRunStatus now i st err d = (None, d)"
    by (simp add: UpdateRunStatus_def)
qed

definition done_db :: db where
  "done_db = empty_db\<lparr>pipelines := [zero_pipeline ''p1'' ''ci'' [] [] [] 0],
     runs := [(sample_run ''r1'' ''p1'')\<lparr>r_status := RunStatusSuccess, r_completed_at := Some 3\<rparr>]\<rparr>"

lemma done_db_inv: "db_inv done_db"
  by (simp add: inv_defs done_db_def empty_db_def zero_pipeline_def sample_run_def)

theorem UpdateRunStatus_machine_witness:
  "UpdateRunStatus 9 ''r1'' RunStatusRunning [] done_db = (None, done_db)"
  using UpdateRunStatus_machine [OF done_db_inv, of "''r1''" 9 "''r1''" RunStatusRunning "[]"]
  by (simp add: done_db_def find_run_def sample_run_def IsTerminal_def)

text \<open>Timestamps: a running run has started, a terminal one has completed.\<close>

definition run_times_ok :: "pipeline_run \<Rightarrow> bool" where
  "run_times_ok r \<longleftrightarrow>
     (r_status r = RunStatusRunning \<longrightarrow> r_started_at r \<noteq> None)
     \<and> (IsTerminal (r_status r) \<longrightarrow> r_completed_at r \<noteq> None)"

lemma set_run_status_times: "run_times_ok (set_run_status now st err r)"
  by (simp add: run_times_ok_def set_run_status_def)

lemma delete_runs_subset: "set (runs (delete_runs P d)) \<subseteq> set (runs d)"
  by (auto simp: delete_runs_def Let_def)

lemma PruneRunsByPipeline_subset: "set (runs (PruneRunsByPipeline pid n c d)) \<subseteq> set (runs d)"
  by (auto simp: PruneRunsByPipeline_def prune_by_count_def delete_runs_def Let_def split: option.splits if_splits)

lemma db_step_times: "db_step d d' \<Longrightarrow> \<forall>r\<in>set (runs d). run_times_ok r \<Longrightarrow> \<forall>r\<in>set (runs d'). run_times_ok r"
proof (induction rule: db_step.induct)
  case (3 d newID now name content driver ct)
  then show ?case by (auto simp: SavePipeline_def split: option.splits)
next
  case (4 d i)
  then show ?case
    using delete_runs_subset [of "\<lambda>r. r_pipeline_id r = i" d]
    by (auto simp: DeletePipeline_def delete_pipeline_rows_def Let_def)
next
  case (6 d newID now pid tt by' ti grp st err)
  then show ?case by (auto simp: SaveRunWithStatus_def Let_def new_run_def run_times_ok_def)
next
  case (7 d now i st err)
  then show ?case by (auto simp: UpdateRunStatus_def set_run_status_times)
next
  case (8 d pid n c)
  then show ?case using PruneRunsByPipeline_subset by fastforce
qed (auto simp: store_Set_def UpdateStatusForPrefix_def UpdatePipeline_def SaveGate_def ResolveGate_def SaveSchedule_def
    PruneSchedulesByPipeline_def UpdateScheduleEnabled_def ClaimDueSchedules_def UpdateScheduleAfterRun_def
    RecordWebhookDedup_def PruneWebhookDedup_def Let_def split: option.splits)

text \<open>In every reachable database a running run has a start time and a completed run a completion time.\<close>

theorem reachable_run_times: "db_step\<^sup>*\<^sup>* empty_db d \<Longrightarrow> list_all run_times_ok (runs d)"
  by (induction rule: rtranclp_induct) (simp add: empty_db_def, simp add: list_all_iff db_step_times)

theorem reachable_run_times_witness:
  "list_all run_times_ok (runs (snd (SavePipeline ''p1'' 5 ''ci'' ''jobs'' ''docker'' ''yaml'' empty_db)))"
  by (intro reachable_run_times r_into_rtranclp db_step.intros)

section \<open>Pruning and deletion\<close>

lemma runs_delete_runs [simp]: "runs (delete_runs P d) = filter (\<lambda>r. \<not> P r) (runs d)"
  by (simp add: delete_runs_def Let_def)

lemma length_filter_in: "distinct xs \<Longrightarrow> length (filter (\<lambda>x. x \<in> A) xs) = card (A \<inter> set xs)"
  by (metis Int_commute distinct_card distinct_filter inter_set_filter)

text \<open>Pruning by count keeps, of a pipeline with more than \<open>n\<close> runs, exactly \<open>n\<close> runs, none of them older
  than a deleted one; it deletes the tasks of the deleted runs and leaves the runs of other pipelines alone.\<close>

theorem prune_keeps_most_recent:
  assumes "db_inv d" and "0 < n" and "PruneRunsByPipeline pid n None d = d'"
  shows "length (filter (\<lambda>r. r_pipeline_id r = pid) (runs d')) =
           min (nat n) (length (filter (\<lambda>r. r_pipeline_id r = pid) (runs d)))
    \<and> (\<forall>k\<in>set (runs d'). \<forall>r\<in>set (runs d) - set (runs d').
          r_pipeline_id r = pid \<and> (r_pipeline_id k = pid \<longrightarrow> r_created_at r \<le> r_created_at k))
    \<and> (\<forall>t\<in>set (tasks d'). \<forall>r\<in>set (runs d) - set (runs d'). t_run_id t \<noteq> Some (r_id r))"
proof -
  let ?own = "filter (\<lambda>r. r_pipeline_id r = pid) (runs d)"
  let ?ord = "order_desc r_created_at ?own"
  let ?keep = "take (nat n) ?ord"
  let ?gone = "\<lambda>r. r_pipeline_id r = pid \<and> r_id r \<notin> r_id ` set ?keep"
  have d': "d' = delete_runs ?gone d"
    using assms(2,3) by (simp add: PruneRunsByPipeline_def prune_by_count_def Let_def)
  have ids: "distinct (map r_id (runs d))" using assms(1) by (simp add: inv_defs)
  then have inj: "inj_on r_id (set (runs d))" by (simp add: distinct_map)
  have sub: "set ?keep \<subseteq> set (runs d)"
    using set_take_subset [of "nat n" ?ord] by auto
  have kept: "r_id r \<in> r_id ` set ?keep \<longleftrightarrow> r \<in> set ?keep" if "r \<in> set (runs d)" for r
    using inj_on_image_mem_iff [OF inj that sub] .
  have own': "filter (\<lambda>r. r_pipeline_id r = pid) (runs d') = filter (\<lambda>r. r \<in> set ?keep) ?own"
    using kept by (auto simp: d' intro!: filter_cong)
  have "distinct (runs d)" using ids by (simp add: distinct_map)
  then have "length (filter (\<lambda>r. r \<in> set ?keep) ?own) = card (set ?keep \<inter> set ?own)"
    by (intro length_filter_in) simp
  also have "set ?keep \<inter> set ?own = set ?keep"
    using set_take_subset [of "nat n" ?ord] by auto
  also have "card (set ?keep) = min (nat n) (length ?own)"
    using \<open>distinct (runs d)\<close> by (simp add: distinct_card min.commute)
  finally have len: "length (filter (\<lambda>r. r_pipeline_id r = pid) (runs d')) = min (nat n) (length ?own)"
    unfolding own' .
  have order: "r_pipeline_id r = pid \<and> (r_pipeline_id k = pid \<longrightarrow> r_created_at r \<le> r_created_at k)"
    if "k \<in> set (runs d')" "r \<in> set (runs d) - set (runs d')" for k r
  proof -
    from that have r: "r_pipeline_id r = pid" "r \<notin> set ?keep" "r \<in> set (runs d)"
      using kept by (auto simp: d')
    have "r \<in> set (take (nat n) ?ord @ drop (nat n) ?ord)"
      unfolding append_take_drop_id using r by simp
    with r have "r \<in> set (drop (nat n) ?ord)"
      by (simp del: append_take_drop_id)
    moreover have "k \<in> set ?keep" if "r_pipeline_id k = pid"
      using that \<open>k \<in> set (runs d')\<close> kept by (auto simp: d')
    ultimately show ?thesis
      using r order_desc_take [of k "nat n" r_created_at ?own r] by blast
  qed
  have tasks: "t_run_id t \<noteq> Some (r_id r)" if "t \<in> set (tasks d')" "r \<in> set (runs d) - set (runs d')" for t r
    using that by (auto simp: d' delete_runs_def Let_def)
  show ?thesis using len order tasks by blast
qed

theorem prune_keeps_most_recent_witness:
  "length (filter (\<lambda>r. r_pipeline_id r = ''p1'') (runs (PruneRunsByPipeline ''p1'' 1 None done_db))) = 1"
  using prune_keeps_most_recent [OF done_db_inv _ refl, of 1 "''p1''"] by (simp add: done_db_def sample_run_def)

text \<open>Deleting a pipeline leaves no run, gate, schedule or deduplication record of it, and no task of any of
  its runs; everything of the other pipelines stays.\<close>

theorem DeletePipeline_erases:
  assumes "find_pipeline pid d \<noteq> None" and "DeletePipeline pid d = (e, d')"
  shows "e = None \<and> find_pipeline pid d' = None
    \<and> runs d' = filter (\<lambda>r. r_pipeline_id r \<noteq> pid) (runs d)
    \<and> schedules d' = filter (\<lambda>s. s_pipeline_id s \<noteq> pid) (schedules d)
    \<and> webhook_dedup d' = filter (\<lambda>x. d_pipeline_id x \<noteq> pid) (webhook_dedup d)
    \<and> (\<forall>g\<in>set (gates d'). g_pipeline_id g \<noteq> pid)
    \<and> tasks d' = filter (\<lambda>t. \<not> (\<exists>r\<in>set (runs d). r_pipeline_id r = pid \<and> t_run_id t = Some (r_id r))) (tasks d)"
proof -
  have d': "e = None" "d' = delete_pipeline_rows pid d"
    using assms by (auto simp: DeletePipeline_def)
  have "find_pipeline pid d' = None"
    by (auto simp: d' find_pipeline_def find_None_key delete_pipeline_rows_def Let_def)
  then show ?thesis
    by (auto simp: d' delete_pipeline_rows_def delete_runs_def Let_def intro!: filter_cong)
qed

theorem DeletePipeline_erases_witness: "runs (snd (DeletePipeline ''p1'' done_db)) = []"
  using DeletePipeline_erases [of "''p1''" done_db "fst (DeletePipeline ''p1'' done_db)" "snd (DeletePipeline ''p1'' done_db)"]
  by (simp add: done_db_def find_pipeline_def zero_pipeline_def sample_run_def)

section \<open>Gates, schedules and deduplication\<close>

lemma find_gate_upd:
  assumes "\<And>g. g_id (f g) = g_id g"
  shows "find_gate i (d\<lparr>gates := map f (gates d)\<rparr>) = map_option f (find_gate i d)"
  using find_map_key [of g_id f i "gates d"] assms by (simp add: find_gate_def)

text \<open>An approval gate is decided once: after \<open>ResolveGate\<close> has succeeded with a decision, any later
  \<open>ResolveGate\<close> of the same gate reports \<open>ErrNotFound\<close> and changes nothing.\<close>

theorem gate_resolved_once:
  assumes "ResolveGate now i st by d = (None, d')" and "st \<noteq> GateStatusPending"
  shows "ResolveGate now' i st' by' d' = (Some ErrNotFound, d')
    \<and> (\<exists>g. find_gate i d' = Some g \<and> g_status g = st \<and> g_approved_by g = by \<and> g_resolved_at g = Some now)"
proof -
  obtain g where g: "find_gate i d = Some g" "g_status g = GateStatusPending"
    using assms(1) by (auto simp: ResolveGate_def split: option.splits if_splits)
  let ?f = "\<lambda>g. if g_id g = i \<and> g_status g = GateStatusPending
      then g\<lparr>g_status := st, g_approved_by := by, g_resolved_at := Some now\<rparr> else g"
  have "d' = d\<lparr>gates := map ?f (gates d)\<rparr>"
    using assms(1) g by (simp add: ResolveGate_def)
  then have "find_gate i d' = Some (?f g)"
    using g find_gate_upd [of ?f i d] by simp
  moreover have "g_id g = i" using g by (auto simp: find_gate_def dest: find_SomeD)
  ultimately show ?thesis
    using g assms(2) by (simp add: ResolveGate_def)
qed

definition gated_db :: db where
  "gated_db = done_db\<lparr>gates := [\<lparr>g_id = ''g'', g_run_id = ''r1'', g_pipeline_id = ''p1'', g_name = ''deploy'',
     g_status = GateStatusPending, g_message = [], g_approved_by = [], g_created_at = 1, g_resolved_at = None\<rparr>]\<rparr>"

theorem gate_resolved_once_witness:
  "ResolveGate 9 ''g'' GateStatusRejected ''bob'' (snd (ResolveGate 8 ''g'' GateStatusApproved ''ann'' gated_db)) =
     (Some ErrNotFound, snd (ResolveGate 8 ''g'' GateStatusApproved ''ann'' gated_db))"
proof -
  have "ResolveGate 8 ''g'' GateStatusApproved ''ann'' gated_db =
      (None, snd (ResolveGate 8 ''g'' GateStatusApproved ''ann'' gated_db))"
    by (simp add: ResolveGate_def gated_db_def find_gate_def)
  from gate_resolved_once [OF this, of 9 GateStatusRejected "''bob''"] show ?thesis by simp
qed

text \<open>\<open>ClaimDueSchedules\<close> returns exactly the enabled schedules that are due, and a schedule claimed once is
  claimed by no later call until \<open>UpdateScheduleAfterRun\<close> or \<open>SaveSchedule\<close> gives it a next run: two
  claims never return the same schedule, whatever their clocks.\<close>

theorem schedules_claimed_once:
  assumes "db_inv d" and "ClaimDueSchedules now d = (claimed, d')" and "ClaimDueSchedules now' d' = (again, d'')"
  shows "s_id ` set claimed = s_id ` {s\<in>set (schedules d). due now s} \<and> s_id ` set claimed \<inter> s_id ` set again = {}"
proof -
  have c: "claimed = map (claim now) (filter (due now) (schedules d))"
    and d': "schedules d' = map (\<lambda>s. if due now s then claim now s else s) (schedules d)"
    and a: "again = map (claim now') (filter (due now') (schedules d'))"
    using assms(2,3) by (auto simp: ClaimDueSchedules_def)
  have later: "map g (filter P (map (\<lambda>s. if due now s then claim now s else s) ss)) =
      map g (filter (\<lambda>s. \<not> due now s \<and> P s) ss)" if "\<And>s. \<not> P (claim now s)" for g :: "schedule \<Rightarrow> schedule" and P ss
    using that by (induction ss) auto
  have dist: "distinct (map s_id (schedules d))" using assms(1) by (simp add: inv_defs)
  have "\<not> due now' (claim now s)" for s by (simp add: due_def claim_def)
  then have "again = map (claim now') (filter (\<lambda>s. \<not> due now s \<and> due now' s) (schedules d))"
    unfolding a d' by (rule later)
  then have again: "s_id ` set again \<subseteq> s_id ` {s\<in>set (schedules d). \<not> due now s}"
    by auto
  have claimed: "s_id ` set claimed = s_id ` {s\<in>set (schedules d). due now s}"
    by (simp add: c image_image)
  have "s_id ` {s\<in>set (schedules d). due now s} \<inter> s_id ` {s\<in>set (schedules d). \<not> due now s} = {}"
    using dist by (subst inj_on_image_Int [symmetric, of _ "set (schedules d)"]) (auto simp: distinct_map)
  with again claimed show ?thesis by blast
qed

definition scheduled_db :: db where
  "scheduled_db = done_db\<lparr>schedules := [\<lparr>s_id = ''s'', s_pipeline_id = ''p1'', s_name = ''nightly'',
     s_type = ScheduleTypeInterval, s_expr = ''1h'', s_job_name = [], s_enabled = True, s_last_run_at = None,
     s_next_run_at = Some 5, s_created_at = 0, s_updated_at = 0\<rparr>]\<rparr>"

theorem schedules_claimed_once_witness:
  "s_id ` set (fst (ClaimDueSchedules 6 scheduled_db)) = s_id ` {s\<in>set (schedules scheduled_db). due 6 s}
   \<and> s_id ` set (fst (ClaimDueSchedules 6 scheduled_db))
      \<inter> s_id ` set (fst (ClaimDueSchedules 60 (snd (ClaimDueSchedules 6 scheduled_db)))) = {}"
proof (rule schedules_claimed_once [OF _ surjective_pairing surjective_pairing])
  show "db_inv scheduled_db"
    by (simp add: inv_defs scheduled_db_def done_db_def empty_db_def zero_pipeline_def sample_run_def)
qed

text \<open>A webhook key is new once: recording it for a known pipeline reports \<open>false\<close> the first time and
  \<open>true\<close> on every repetition, until a prune with a later limit forgets it.\<close>

theorem dedup_reports_duplicates:
  assumes "RecordWebhookDedup now pid h d = (Inr False, d')"
  shows "RecordWebhookDedup now' pid h d' = (Inr True, d')
    \<and> fst (RecordWebhookDedup now' pid h (snd (PruneWebhookDedup t d'))) = Inr (\<not> now < t)"
proof -
  have fresh: "\<not> (\<exists>e\<in>set (webhook_dedup d). d_pipeline_id e = pid \<and> d_key_hash e = h)"
    and known: "find_pipeline pid d \<noteq> None"
    and d': "d' = d\<lparr>webhook_dedup := webhook_dedup d @ [\<lparr>d_pipeline_id = pid, d_key_hash = h, d_created_at = now\<rparr>]\<rparr>"
    using assms by (auto simp: RecordWebhookDedup_def split: if_splits)
  then show ?thesis
    by (auto simp: RecordWebhookDedup_def PruneWebhookDedup_def find_pipeline_def)
qed

theorem dedup_reports_duplicates_witness:
  "fst (RecordWebhookDedup 9 ''p1'' ''k'' (snd (RecordWebhookDedup 8 ''p1'' ''k'' done_db))) = Inr True"
proof -
  have "RecordWebhookDedup 8 ''p1'' ''k'' done_db = (Inr False, snd (RecordWebhookDedup 8 ''p1'' ''k'' done_db))"
    by (simp add: RecordWebhookDedup_def done_db_def empty_db_def find_pipeline_def zero_pipeline_def)
  from dedup_reports_duplicates [OF this, of 9 0] show ?thesis by simp
qed

end
