(* ===== verification/Resource_Store.thy ===== *)
theory Resource_Store
  imports Store_Tasks "HOL-Library.Word"
begin

unbundle bit_operations_syntax

text \<open>
  Resource versions, \<open>runtime/backwards/resource_store.go\<close>: the keys under \<open>/rv/<name>\<close>, the 32-bit hash of the
  version's JSON text, saving with deduplication, and the three queries. The store is the database of
  \<open>Store_Tasks\<close>, reached through \<open>store_Set\<close> and \<open>store_Get\<close>; the proofs use it through the interpretation of
  \<open>kv_store\<close> only. The time stamp of a save is an argument. The abstract content of a resource
  (\<open>saved_versions\<close>) is the list of its versions in the order of their indices.
\<close>

section \<open>Keys\<close>

fun hex_of_nat :: "nat \<Rightarrow> string" where
  "hex_of_nat n = (if n < 16 then [hex_digit n] else hex_of_nat (n div 16) @ [hex_digit (n mod 16)])"

declare hex_of_nat.simps [simp del]

definition hash_step :: "32 word \<Rightarrow> char \<Rightarrow> 32 word" where
  "hash_step h ch = (h * 31) XOR of_nat (of_char ch)"

definition hashString :: "string \<Rightarrow> string" where
  "hashString s = hex_of_nat (unat (foldl hash_step 5381 s))"

definition rvMetaKey :: "string \<Rightarrow> string" where
  "rvMetaKey name = ''/rv/'' @ name @ ''/meta''"

definition rvVersionKey :: "string \<Rightarrow> nat \<Rightarrow> string" where
  "rvVersionKey name index = ''/rv/'' @ name @ ''/versions/'' @ zero_pad 10 index"

definition rvDedupKey :: "string \<Rightarrow> string \<Rightarrow> string" where
  "rvDedupKey name versionJSON = ''/rv/'' @ name @ ''/v/'' @ hashString versionJSON"

section \<open>Payloads\<close>

record stored_version =
  sv_version :: "(string, string) gomap"
  sv_job_name :: string
  sv_fetched_at :: string

definition versionToAnyMap :: "(string, string) gomap \<Rightarrow> json" where
  "versionToAnyMap v = JObj (map (\<lambda>(k, s). (k, JStr s)) v)"

fun string_members :: "(string \<times> json) list \<Rightarrow> (string, string) gomap" where
  "string_members [] = []"
| "string_members ((k, v) # m) = (case v of JStr s \<Rightarrow> (k, s) # string_members m | _ \<Rightarrow> string_members m)"

definition payload_members :: "json \<Rightarrow> (string, json) gomap" where
  "payload_members p = (case p of JObj m \<Rightarrow> m | _ \<Rightarrow> [])"

text \<open>A payload of \<open>None\<close> is Go's \<open>nil\<close>.\<close>

definition payloadToStoredVersion :: "json option \<Rightarrow> stored_version option" where
  "payloadToStoredVersion p =
     (case p of
        None \<Rightarrow> None
      | Some j \<Rightarrow>
          (let m = payload_members j in
           Some \<lparr>sv_version = (case gm_get m ''version'' of Some (JObj v) \<Rightarrow> string_members v | _ \<Rightarrow> []),
                 sv_job_name = (case obj_str m ''job_name'' of Some s \<Rightarrow> s | None \<Rightarrow> []),
                 sv_fetched_at = (case obj_str m ''fetched_at'' of Some s \<Rightarrow> s | None \<Rightarrow> [])\<rparr>))"

section \<open>Operations\<close>

text \<open>\<open>store.Get\<close> fails only with \<open>ErrNotFound\<close>, which becomes \<open>nil\<close>.\<close>

definition safeStorageGet :: "string \<Rightarrow> string \<Rightarrow> db \<Rightarrow> json option" where
  "safeStorageGet ns key d = (case store_Get ns key d of Inl _ \<Rightarrow> None | Inr p \<Rightarrow> Some p)"

definition getMetaCount :: "string \<Rightarrow> string \<Rightarrow> db \<Rightarrow> int" where
  "getMetaCount ns name d =
     (case safeStorageGet ns (rvMetaKey name) d of
        None \<Rightarrow> 0
      | Some p \<Rightarrow> (case obj_int (payload_members p) ''count'' of Some c \<Rightarrow> c | None \<Rightarrow> 0))"

text \<open>Indices are the counts met so far, hence non-negative: \<open>nat\<close> below only reads them back.\<close>

definition updateExistingDedupEntry ::
  "string \<Rightarrow> json \<Rightarrow> string \<Rightarrow> string \<Rightarrow> string \<Rightarrow> string \<Rightarrow> db \<Rightarrow> bool \<times> db" where
  "updateExistingDedupEntry ns dedupEntry name versionJSON jobName now d =
     (let m = payload_members dedupEntry in
      if obj_str m ''version_json'' \<noteq> Some versionJSON then (False, d)
      else
        (let index = (case obj_int m ''index'' of Some i \<Rightarrow> i | None \<Rightarrow> 0);
             vk = rvVersionKey name (nat index)
         in case safeStorageGet ns vk d of
              None \<Rightarrow> (True, d)
            | Some p \<Rightarrow>
                (True, store_Set ns vk
                   (JObj (gm_set ''fetched_at'' (JStr now) (gm_set ''job_name'' (JStr jobName) (payload_members p)))) d)))"

definition insert_version ::
  "string \<Rightarrow> string \<Rightarrow> (string, string) gomap \<Rightarrow> string \<Rightarrow> string \<Rightarrow> db \<Rightarrow> db" where
  "insert_version ns name version jobName now d =
     (let count = getMetaCount ns name d;
          d1 = store_Set ns (rvVersionKey name (nat count))
                 (JObj [(''version'', versionToAnyMap version), (''job_name'', JStr jobName),
                        (''fetched_at'', JStr now)]) d;
          d2 = store_Set ns (rvDedupKey name (marshal_strmap version))
                 (JObj [(''index'', JNum count), (''version_json'', JStr (marshal_strmap version))]) d1
      in store_Set ns (rvMetaKey name) (JObj [(''count'', JNum (count + 1))]) d2)"

definition SaveResourceVersion ::
  "string \<Rightarrow> string \<Rightarrow> (string, string) gomap \<Rightarrow> string \<Rightarrow> string \<Rightarrow> db \<Rightarrow> db" where
  "SaveResourceVersion ns name version jobName now d =
     (case safeStorageGet ns (rvDedupKey name (marshal_strmap version)) d of
        None \<Rightarrow> insert_version ns name version jobName now d
      | Some entry \<Rightarrow>
          (case updateExistingDedupEntry ns entry name (marshal_strmap version) jobName now d of
             (True, d') \<Rightarrow> d'
           | (False, d') \<Rightarrow> insert_version ns name version jobName now d'))"

definition version_at :: "string \<Rightarrow> string \<Rightarrow> db \<Rightarrow> nat \<Rightarrow> stored_version option" where
  "version_at ns name d i = payloadToStoredVersion (safeStorageGet ns (rvVersionKey name i) d)"

definition GetLatestResourceVersion :: "string \<Rightarrow> string \<Rightarrow> db \<Rightarrow> stored_version option" where
  "GetLatestResourceVersion ns name d =
     (let count = getMetaCount ns name d in
      if count \<le> 0 then None else version_at ns name d (nat (count - 1)))"

definition ListResourceVersions :: "string \<Rightarrow> string \<Rightarrow> int \<Rightarrow> db \<Rightarrow> stored_version list" where
  "ListResourceVersions ns name limit d =
     (let count = getMetaCount ns name d;
          actualCount = (if limit > 0 \<and> limit < count then limit else count)
      in List.map_filter (version_at ns name d) [0..<nat actualCount])"

definition GetVersionsAfter ::
  "string \<Rightarrow> string \<Rightarrow> (string, string) gomap option \<Rightarrow> db \<Rightarrow> stored_version list" where
  "GetVersionsAfter ns name afterVersion d =
     (case afterVersion of
        None \<Rightarrow> ListResourceVersions ns name 0 d
      | Some v \<Rightarrow>
          (let count = nat (getMetaCount ns name d);
               matches = (\<lambda>i. case version_at ns name d i of
                                None \<Rightarrow> False
                              | Some sv \<Rightarrow> marshal_strmap (sv_version sv) = marshal_strmap v)
           in case find matches [0..<count] of
                None \<Rightarrow> ListResourceVersions ns name 0 d
              | Some i \<Rightarrow> List.map_filter (version_at ns name d) [Suc i..<count]))"

section \<open>The keys of a resource are separate\<close>

definition plain_path :: "string \<Rightarrow> bool" where
  "plain_path s \<longleftrightarrow> list_all plain_part (SplitChar (CHR ''/'') s)"

definition plain_ns :: "string \<Rightarrow> bool" where
  "plain_ns s \<longleftrightarrow> ''..'' \<notin> set (SplitChar (CHR ''/'') s)"

lemma SplitChar_append: "SplitChar sep (a @ sep # b) = SplitChar sep a @ SplitChar sep b"
proof (induction a)
  case (Cons c a)
  then show ?case
    by (cases "SplitChar sep a") auto
qed simp

lemma clean_parts_filter:
  "''..'' \<notin> set ps \<Longrightarrow> clean_parts acc ps = rev acc @ filter (\<lambda>p. p \<noteq> [] \<and> p \<noteq> ''.'') ps"
  by (induction acc ps rule: clean_parts.induct) auto

definition path_parts :: "string \<Rightarrow> string list" where
  "path_parts s = clean_parts [] (SplitChar (CHR ''/'') s)"

lemma clean_rooted_eq_iff: "clean_rooted s = clean_rooted t \<longleftrightarrow> path_parts s = path_parts t"
proof
  assume "clean_rooted s = clean_rooted t"
  then have eq: "(let ps = path_parts s in if ps = [] then [[]] else ps) =
      (let ps = path_parts t in if ps = [] then [[]] else ps)"
    using clean_rooted_parts [of s] clean_rooted_parts [of t] by (simp add: path_parts_def)
  have "plain_part p" if "p \<in> set (path_parts u)" for p u
    using that clean_parts_are_plain [of "SplitChar (CHR ''/'') u" "[]" p] SplitChar_no_sep
    by (fastforce simp: path_parts_def)
  then have "path_parts u \<noteq> [[]]" for u
    by (metis list.set_intros(1) plain_part_def)
  with eq show "path_parts s = path_parts t"
    by (auto simp: Let_def split: if_splits)
qed (simp add: clean_rooted_def path_parts_def)

definition ns_parts :: "string \<Rightarrow> string list" where
  "ns_parts ns = filter (\<lambda>p. p \<noteq> [] \<and> p \<noteq> ''.'') (SplitChar (CHR ''/'') ns)"

lemma rv_path_parts:
  assumes "plain_ns ns" and "plain_path name" and "list_all plain_part tail" and "tail \<noteq> []"
  shows "path_parts (''/'' @ ns @ ''/'' @ ''/rv/'' @ name @ ''/'' @ JoinStr tail ''/'') =
           ns_parts ns @ [''rv''] @ SplitChar (CHR ''/'') name @ tail"
proof -
  have tail: "SplitChar (CHR ''/'') (JoinStr tail ''/'') = tail"
    using assms(3,4) by (intro Split_Join) (auto simp: list_all_iff plain_part_def)
  have "''/'' @ ns @ ''/'' @ ''/rv/'' @ name @ ''/'' @ JoinStr tail ''/''
      = [] @ CHR ''/'' # (ns @ CHR ''/'' # ([] @ CHR ''/'' # (''rv'' @ CHR ''/'' # (name @ CHR ''/'' # JoinStr tail ''/''))))"
    by simp
  then have split: "SplitChar (CHR ''/'') (''/'' @ ns @ ''/'' @ ''/rv/'' @ name @ ''/'' @ JoinStr tail ''/'')
      = [[]] @ SplitChar (CHR ''/'') ns @ [[]] @ [''rv''] @ SplitChar (CHR ''/'') name @ tail"
    by (simp only: SplitChar_append tail) simp
  have "''..'' \<notin> set (SplitChar (CHR ''/'') name)" "''..'' \<notin> set tail"
    "\<forall>p\<in>set (SplitChar (CHR ''/'') name). p \<noteq> [] \<and> p \<noteq> ''.''" "\<forall>p\<in>set tail. p \<noteq> [] \<and> p \<noteq> ''.''"
    using assms(2,3) by (auto simp: plain_path_def list_all_iff plain_part_def)
  with assms(1) show ?thesis
    unfolding path_parts_def split ns_parts_def
    by (simp add: clean_parts_filter plain_ns_def filter_id_conv)
qed

lemma hex_digit_plain: "d < 16 \<Longrightarrow> hex_digit d \<notin> set ''./m''"
proof -
  have "list_all (\<lambda>d. hex_digit d \<notin> set ''./m'') [0..<16]" by code_simp
  then show "d < 16 \<Longrightarrow> hex_digit d \<notin> set ''./m''" by (simp add: list_all_iff)
qed

lemma hex_of_nat_plain: "hex_of_nat n \<noteq> [] \<and> set (hex_of_nat n) \<inter> set ''./m'' = {}"
proof (induction n rule: hex_of_nat.induct)
  case (1 n)
  show ?case
  proof (cases "n < 16")
    case True
    then show ?thesis
      using hex_digit_plain [of n] by (simp add: hex_of_nat.simps [of n])
  next
    case False
    with 1 hex_digit_plain [of "n mod 16"] show ?thesis
      by (simp add: hex_of_nat.simps [of n])
  qed
qed

lemma plain_if: "s \<noteq> [] \<Longrightarrow> set s \<inter> set ''./m'' = {} \<Longrightarrow> plain_part s \<and> s \<noteq> ''meta''"
  by (auto simp: plain_part_def)

lemma hash_plain: "plain_part (hashString s)" "hashString s \<noteq> ''meta''"
  using plain_if hex_of_nat_plain unfolding hashString_def by blast+

lemma pad_plain: "plain_part (zero_pad w n)" "zero_pad w n \<noteq> ''meta''"
proof -
  have "\<not> is_digit (CHR ''.'')" "\<not> is_digit (CHR ''/'')" "\<not> is_digit (CHR ''m'')"
    by (simp_all add: is_digit_def)
  then have "set (zero_pad w n) \<inter> set ''./m'' = {}"
    using zero_pad_all_digits [of _ w n] by auto
  moreover have "zero_pad w n \<noteq> []" by (simp add: zero_pad_def)
  ultimately show "plain_part (zero_pad w n)" "zero_pad w n \<noteq> ''meta''"
    using plain_if by blast+
qed

text \<open>A key of the store, by its resource and its kind.\<close>

datatype rv_key = MetaKey string | VersionKey string nat | DedupKey string string

fun rv_string :: "rv_key \<Rightarrow> string" where
  "rv_string (MetaKey n) = rvMetaKey n"
| "rv_string (VersionKey n i) = rvVersionKey n i"
| "rv_string (DedupKey n j) = rvDedupKey n j"

fun rv_name :: "rv_key \<Rightarrow> string" where
  "rv_name (MetaKey n) = n" | "rv_name (VersionKey n i) = n" | "rv_name (DedupKey n j) = n"

fun rv_tail :: "rv_key \<Rightarrow> string list" where
  "rv_tail (MetaKey n) = [''meta'']"
| "rv_tail (VersionKey n i) = [''versions'', zero_pad 10 i]"
| "rv_tail (DedupKey n j) = [''v'', hashString j]"

lemma rv_tail_plain: "list_all plain_part (rv_tail k)" "rv_tail k \<noteq> []"
  by (cases k; simp add: pad_plain hash_plain; simp add: plain_part_def)+

lemma rv_string_tail: "rv_string k = ''/rv/'' @ rv_name k @ ''/'' @ JoinStr (rv_tail k) ''/''"
  by (cases k) (simp_all add: rvMetaKey_def rvVersionKey_def rvDedupKey_def)

declare rv_string.simps [simp del]

lemma rv_tails_end: "a @ rv_tail k = b @ rv_tail k' \<Longrightarrow> a = b \<and> rv_tail k = rv_tail k'"
  using pad_plain(2) hash_plain(2)
  by (cases k; cases k') (auto simp: append_eq_append_conv2 Cons_eq_append_conv append_eq_Cons_conv)

lemma SplitChar_inj: "SplitChar sep a = SplitChar sep b \<Longrightarrow> a = b"
  by (metis Join_Split)

text \<open>Two keys are stored under one path only if they are keys of one resource with the same last parts.\<close>

lemma rv_path_eq_iff [key_neq]:
  assumes "plain_ns ns" and "plain_path (rv_name k)" and "plain_path (rv_name k')"
  shows "task_path ns (rv_string k) = task_path ns (rv_string k') \<longleftrightarrow> rv_name k = rv_name k' \<and> rv_tail k = rv_tail k'"
proof -
  have "task_path ns (rv_string k) = task_path ns (rv_string k') \<longleftrightarrow>
      SplitChar (CHR ''/'') (rv_name k) @ rv_tail k = SplitChar (CHR ''/'') (rv_name k') @ rv_tail k'"
    using rv_path_parts [OF assms(1,2) rv_tail_plain, of k] rv_path_parts [OF assms(1,3) rv_tail_plain, of k']
    by (simp add: task_path_def clean_rooted_eq_iff rv_string_tail)
  also have "\<dots> \<longleftrightarrow> rv_name k = rv_name k' \<and> rv_tail k = rv_tail k'"
    using rv_tails_end SplitChar_inj by metis
  finally show ?thesis .
qed

section \<open>The abstract content of a resource\<close>

abbreviation rv_lookup :: "string \<Rightarrow> rv_key \<Rightarrow> db \<Rightarrow> json option" where
  "rv_lookup ns k d \<equiv> store_lookup ns (rv_string k) d"

lemma safeStorageGet_lookup: "safeStorageGet ns k d = store_lookup ns k d"
  by (auto simp: safeStorageGet_def store_Get_lookup split: option.splits)

definition holds_version :: "json \<Rightarrow> stored_version \<Rightarrow> bool" where
  "holds_version p sv \<longleftrightarrow>
     (\<exists>m. p = JObj m \<and> gm_wf m \<and> gm_wf (sv_version sv)
        \<and> gm_get m ''version'' = Some (versionToAnyMap (sv_version sv))
        \<and> gm_get m ''job_name'' = Some (JStr (sv_job_name sv))
        \<and> gm_get m ''fetched_at'' = Some (JStr (sv_fetched_at sv)))"

definition dedup_entry_ok :: "json \<Rightarrow> stored_version list \<Rightarrow> bool" where
  "dedup_entry_ok e vs \<longleftrightarrow>
     (\<exists>m i. e = JObj m \<and> gm_get m ''index'' = Some (JNum (int i)) \<and> i < length vs
        \<and> gm_get m ''version_json'' = Some (JStr (marshal_strmap (sv_version (vs ! i)))))"

text \<open>The database \<open>d\<close> represents the list \<open>vs\<close> of versions of the resource \<open>name\<close>.\<close>

definition saved_versions :: "string \<Rightarrow> string \<Rightarrow> db \<Rightarrow> stored_version list \<Rightarrow> bool" where
  "saved_versions ns name d vs \<longleftrightarrow>
     (case rv_lookup ns (MetaKey name) d of
        None \<Rightarrow> vs = []
      | Some p \<Rightarrow> (\<exists>m. p = JObj m \<and> gm_get m ''count'' = Some (JNum (int (length vs)))))
     \<and> (\<forall>i<length vs. \<exists>p. rv_lookup ns (VersionKey name i) d = Some p \<and> holds_version p (vs ! i))
     \<and> (\<forall>i\<ge>length vs. rv_lookup ns (VersionKey name i) d = None)
     \<and> (\<forall>j e. rv_lookup ns (DedupKey name j) d = Some e \<longrightarrow> dedup_entry_ok e vs)"

lemma string_members_version [simp]: "string_members (map (\<lambda>(k, s). (k, JStr s)) v) = v"
  by (induction v) auto

lemma payload_holds: "holds_version p sv \<Longrightarrow> payloadToStoredVersion (Some p) = Some sv"
  by (cases sv) (auto simp: holds_version_def payloadToStoredVersion_def payload_members_def obj_str_def
      versionToAnyMap_def)

lemma saved_count: "saved_versions ns name d vs \<Longrightarrow> getMetaCount ns name d = int (length vs)"
  by (auto simp: saved_versions_def getMetaCount_def safeStorageGet_lookup payload_members_def obj_int_def
      simp flip: rv_string.simps split: option.splits)

lemma saved_version_at:
  assumes "saved_versions ns name d vs" and "i < length vs"
  shows "version_at ns name d i = Some (vs ! i)"
proof -
  obtain p where "rv_lookup ns (VersionKey name i) d = Some p" "holds_version p (vs ! i)"
    using assms by (auto simp: saved_versions_def)
  then show ?thesis by (simp add: version_at_def safeStorageGet_lookup payload_holds flip: rv_string.simps)
qed

lemma map_filter_versions:
  assumes "saved_versions ns name d vs" and "n \<le> length vs"
  shows "List.map_filter (version_at ns name d) [m..<n] = drop m (take n vs)"
proof -
  have "List.map_filter (version_at ns name d) [m..<n] = map (\<lambda>i. vs ! i) [m..<n]"
    using saved_version_at [OF assms(1)] assms(2)
    by (auto simp: List.map_filter_def intro!: map_cong filter_True arg_cong2 [where f = map])
  also have "\<dots> = drop m (take n vs)"
    using assms(2) by (intro nth_equalityI) auto
  finally show ?thesis .
qed

text \<open>The queries answer from the list of saved versions: \<open>ListResourceVersions\<close> gives its first \<open>limit\<close>
  elements (all for a limit of zero or less), \<open>GetLatestResourceVersion\<close> its last one, and \<open>GetVersionsAfter\<close> what
  follows the first occurrence of the given version, or everything when that version was never saved.\<close>

theorem resource_queries:
  assumes "saved_versions ns name d vs" and "gm_wf v"
  shows "ListResourceVersions ns name limit d = (if limit > 0 then take (nat limit) vs else vs)
    \<and> GetLatestResourceVersion ns name d = (if vs = [] then None else Some (last vs))
    \<and> GetVersionsAfter ns name None d = vs
    \<and> GetVersionsAfter ns name (Some v) d =
        (case dropWhile (\<lambda>sv. map_of (sv_version sv) \<noteq> map_of v) vs of [] \<Rightarrow> vs | _ # later \<Rightarrow> later)"
proof -
  note count = saved_count [OF assms(1)]
  have list: "ListResourceVersions ns name limit d = (if limit > 0 then take (nat limit) vs else vs)" for limit
    using map_filter_versions [OF assms(1), of _ 0] by (auto simp: ListResourceVersions_def count Let_def)
  have latest: "GetLatestResourceVersion ns name d = (if vs = [] then None else Some (last vs))"
  proof -
    have "nat (int (length vs) - 1) = length vs - 1" by arith
    then show ?thesis
      using saved_version_at [OF assms(1), of "length vs - 1"]
      by (auto simp: GetLatestResourceVersion_def count Let_def last_conv_nth)
  qed
  let ?q = "\<lambda>sv. map_of (sv_version sv) = map_of v"
  have wf: "gm_wf (sv_version sv)" if "sv \<in> set vs" for sv
    using that assms(1) by (auto simp: saved_versions_def holds_version_def in_set_conv_nth)
  let ?m = "\<lambda>i. case version_at ns name d i of None \<Rightarrow> False
                 | Some sv \<Rightarrow> marshal_strmap (sv_version sv) = marshal_strmap v"
  have m: "?m i \<longleftrightarrow> ?q (vs ! i)" if "i < length vs" for i
    using that saved_version_at [OF assms(1) that] marshal_strmap_inj [OF wf assms(2), of "vs ! i"] by simp
  have after: "GetVersionsAfter ns name (Some v) d =
      (case dropWhile (\<lambda>sv. map_of (sv_version sv) \<noteq> map_of v) vs of [] \<Rightarrow> vs | _ # later \<Rightarrow> later)"
  proof (cases "find ?m [0..<length vs]")
    case None
    then have "\<forall>sv\<in>set vs. \<not> ?q sv"
      using m by (auto simp: find_None_iff in_set_conv_nth)
    then have "dropWhile (\<lambda>sv. \<not> ?q sv) vs = []" by (simp add: dropWhile_eq_Nil_conv)
    with None list show ?thesis
      by (simp add: GetVersionsAfter_def count Let_def del: dropWhile_eq_Nil_conv)
  next
    case (Some i)
    then have i: "i < length vs" "?q (vs ! i)" "\<forall>j<i. \<not> ?q (vs ! j)"
      using m by (auto simp: find_Some_iff)
    have "vs = take i vs @ vs ! i # drop (Suc i) vs" using i(1) by (rule id_take_nth_drop)
    moreover have "\<forall>sv\<in>set (take i vs). \<not> ?q sv" using i by (auto simp: in_set_conv_nth)
    ultimately have "dropWhile (\<lambda>sv. \<not> ?q sv) vs = vs ! i # drop (Suc i) vs"
      using i(2) by (metis (mono_tags, lifting) dropWhile.simps(2) dropWhile_append2)
    with Some show ?thesis
      using map_filter_versions [OF assms(1), of "length vs" "Suc i"]
      by (simp add: GetVersionsAfter_def count Let_def)
  qed
  have "GetVersionsAfter ns name None d = vs"
    by (simp add: GetVersionsAfter_def list)
  with list latest after show ?thesis by blast
qed

section \<open>Saving\<close>

lemma gm_get_Cons: "gm_get ((a, b) # m) k = (if k = a then Some b else gm_get m k)"
  by (simp add: gm_get_def)

lemma update_same: "map_of m k = Some v \<Longrightarrow> AList.update k v m = m"
  by (induction m) (auto split: if_splits)

lemma patch_version_same:
  assumes "gm_wf v"
  shows "json_patch (versionToAnyMap v) (versionToAnyMap v) = versionToAnyMap v"
proof -
  have "patch_members m ps = m" if "\<And>k j. (k, j) \<in> set ps \<Longrightarrow> map_of m k = Some j \<and> (\<exists>s. j = JStr s)" for m ps
    using that
  proof (induction ps)
    case (Cons p ps)
    obtain k j where p: "p = (k, j)" by (cases p)
    with Cons.prems [of k j] obtain s where "j = JStr s" "map_of m k = Some (JStr s)" by auto
    then have "patch_members m (p # ps) = patch_members m ps"
      by (simp add: p gm_set_def update_same)
    also have "patch_members m ps = m"
      by (rule Cons.IH) (rule Cons.prems, simp)
    finally show ?case .
  qed simp
  moreover have "map_of (map (\<lambda>(k, s). (k, JStr s)) v) k = Some j \<and> (\<exists>s. j = JStr s)"
    if "(k, j) \<in> set (map (\<lambda>(k, s). (k, JStr s)) v)" for k j
    using that assms by (auto simp: gm_wf_def o_def split_beta intro!: map_of_is_SomeI)
  ultimately have "patch_members (map (\<lambda>(k, s). (k, JStr s)) v) (map (\<lambda>(k, s). (k, JStr s)) v)
      = map (\<lambda>(k, s). (k, JStr s)) v"
    by blast
  then show ?thesis
    by (simp add: versionToAnyMap_def)
qed

lemma gm_del_wf [simp]: "gm_wf m \<Longrightarrow> gm_wf (gm_del k m)"
  by (simp add: gm_wf_def gm_del_def distinct_delete)

lemma patch_members_wf: "gm_wf m \<Longrightarrow> gm_wf (patch_members m ps)"
proof (induction ps arbitrary: m)
  case (Cons p ps)
  then show ?case by (cases p) simp
qed simp

lemma holds_version_update:
  assumes "holds_version p sv"
  shows "holds_version
     (json_patch p (JObj (gm_set ''fetched_at'' (JStr now) (gm_set ''job_name'' (JStr job) (payload_members p)))))
     (sv\<lparr>sv_job_name := job, sv_fetched_at := now\<rparr>)"
proof -
  obtain m where m: "p = JObj m" "gm_wf m" "gm_wf (sv_version sv)"
    "gm_get m ''version'' = Some (versionToAnyMap (sv_version sv))"
    using assms by (auto simp: holds_version_def)
  let ?m = "gm_set ''fetched_at'' (JStr now) (gm_set ''job_name'' (JStr job) m)"
  have wf: "gm_wf ?m" using m(2) by simp
  have "versionToAnyMap (sv_version sv) \<noteq> JNull" by (simp add: versionToAnyMap_def)
  then show ?thesis
    using m by (simp add: holds_version_def payload_members_def gm_get_patch_members [OF wf] patch_members_wf
        patch_version_same)
qed

text \<open>The version to be saved, and what saving it does to the list when the deduplication entry names it.\<close>

definition known_index :: "string \<Rightarrow> string \<Rightarrow> (string, string) gomap \<Rightarrow> db \<Rightarrow> nat option" where
  "known_index ns name v d =
     (case rv_lookup ns (DedupKey name (marshal_strmap v)) d of
        None \<Rightarrow> None
      | Some e \<Rightarrow>
          if obj_str (payload_members e) ''version_json'' = Some (marshal_strmap v)
          then map_option nat (obj_int (payload_members e) ''index'') else None)"

definition save_spec ::
  "nat option \<Rightarrow> (string, string) gomap \<Rightarrow> string \<Rightarrow> string \<Rightarrow> stored_version list \<Rightarrow> stored_version list" where
  "save_spec known v job now vs =
     (case known of
        None \<Rightarrow> vs @ [\<lparr>sv_version = v, sv_job_name = job, sv_fetched_at = now\<rparr>]
      | Some i \<Rightarrow> vs[i := (vs ! i)\<lparr>sv_job_name := job, sv_fetched_at := now\<rparr>])"

lemma known_index_sound:
  assumes "saved_versions ns name d vs" and "gm_wf v" and "known_index ns name v d = Some i"
  shows "i < length vs \<and> map_of (sv_version (vs ! i)) = map_of v"
proof -
  obtain e where e: "rv_lookup ns (DedupKey name (marshal_strmap v)) d = Some e"
    and vj: "obj_str (payload_members e) ''version_json'' = Some (marshal_strmap v)"
    and ix: "map_option nat (obj_int (payload_members e) ''index'') = Some i"
    using assms(3) by (auto simp: known_index_def split: option.splits if_splits)
  from assms(1) e have "dedup_entry_ok e vs" by (auto simp: saved_versions_def)
  with vj ix have i: "i < length vs" and eq: "marshal_strmap (sv_version (vs ! i)) = marshal_strmap v"
    by (auto simp: dedup_entry_ok_def payload_members_def obj_str_def obj_int_def)
  have "gm_wf (sv_version (vs ! i))"
    using assms(1) i by (auto simp: saved_versions_def holds_version_def)
  with i eq assms(2) show ?thesis by (simp add: marshal_strmap_inj)
qed

lemma rv_get_put:
  assumes "plain_ns ns" and "plain_path (rv_name k)" and "plain_path (rv_name k')"
  shows "rv_lookup ns k' (store_Set ns (rv_string k) v d) =
     (if rv_name k = rv_name k' \<and> rv_tail k = rv_tail k'
      then Some (case rv_lookup ns k d of None \<Rightarrow> v | Some old \<Rightarrow> json_patch old v) else rv_lookup ns k' d)"
  using rv_path_eq_iff [OF assms] by (simp add: kv.get_put)

lemma dedup_entry_ok_mono:
  assumes "dedup_entry_ok e vs" and "length vs \<le> length vs'"
    and "\<And>i. i < length vs \<Longrightarrow> sv_version (vs' ! i) = sv_version (vs ! i)"
  shows "dedup_entry_ok e vs'"
proof -
  obtain m i where mi: "e = JObj m" "gm_get m ''index'' = Some (JNum (int i))" "i < length vs"
    "gm_get m ''version_json'' = Some (JStr (marshal_strmap (sv_version (vs ! i))))"
    using assms(1) unfolding dedup_entry_ok_def by blast
  then have "i < length vs'" "sv_version (vs' ! i) = sv_version (vs ! i)"
    using assms(2,3) by auto
  with mi show ?thesis unfolding dedup_entry_ok_def by metis
qed

lemma insert_version_saved:
  assumes plain: "plain_ns ns" "plain_path name" and vs: "saved_versions ns name d vs" and wf: "gm_wf v"
  shows "saved_versions ns name (insert_version ns name v job now d)
           (vs @ [\<lparr>sv_version = v, sv_job_name = job, sv_fetched_at = now\<rparr>])"
proof -
  let ?sv = "\<lparr>sv_version = v, sv_job_name = job, sv_fetched_at = now\<rparr>"
  let ?vs = "vs @ [?sv]" and ?j = "marshal_strmap v" and ?n = "length vs"
  let ?p = "JObj [(''version'', versionToAnyMap v), (''job_name'', JStr job), (''fetched_at'', JStr now)]"
  let ?e = "JObj [(''index'', JNum (int ?n)), (''version_json'', JStr ?j)]"
  let ?c = "JObj [(''count'', JNum (int ?n + 1))]"
  let ?d1 = "store_Set ns (rv_string (VersionKey name ?n)) ?p d"
  let ?d2 = "store_Set ns (rv_string (DedupKey name ?j)) ?e ?d1"
  let ?d3 = "store_Set ns (rv_string (MetaKey name)) ?c ?d2"
  have d3: "insert_version ns name v job now d = ?d3"
    by (simp add: insert_version_def Let_def saved_count [OF vs] rv_string.simps)
  have get: "rv_lookup ns k' (store_Set ns (rv_string k) w x) =
      (if rv_tail k = rv_tail k' then Some (case rv_lookup ns k x of None \<Rightarrow> w | Some old \<Rightarrow> json_patch old w)
       else rv_lookup ns k' x)" if "rv_name k = name" "rv_name k' = name" for k k' w x
    using rv_get_put [of ns k k' w x] plain that by simp
  have tails: "''v'' \<noteq> ''versions''" by simp
  have meta: "\<exists>m. rv_lookup ns (MetaKey name) ?d3 = Some (JObj m) \<and> gm_get m ''count'' = Some (JNum (int (length ?vs)))"
  proof -
    have "rv_lookup ns (MetaKey name) ?d2 = rv_lookup ns (MetaKey name) d"
      by (simp add: get)
    moreover have "gm_wf [(''count'', JNum (int ?n + 1))]" by (simp add: gm_wf_def)
    moreover have "rv_lookup ns (MetaKey name) ?d3 =
        Some (case rv_lookup ns (MetaKey name) ?d2 of None \<Rightarrow> ?c | Some old \<Rightarrow> json_patch old ?c)"
      using get [of "MetaKey name" "MetaKey name" ?c ?d2] by simp
    ultimately show ?thesis
      using vs by (auto simp: saved_versions_def gm_get_Cons split: option.splits)
  qed
  have ver: "rv_lookup ns (VersionKey name i) ?d3 = (if i = ?n then Some ?p else rv_lookup ns (VersionKey name i) d)" for i
    using vs by (auto simp: get saved_versions_def)
  have new: "holds_version ?p ?sv"
    using wf by (simp add: holds_version_def gm_wf_def gm_get_def)
  have vers: "\<forall>i<length ?vs. \<exists>p. rv_lookup ns (VersionKey name i) ?d3 = Some p \<and> holds_version p (?vs ! i)"
    using vs new by (auto simp: ver saved_versions_def nth_append less_Suc_eq)
  have none: "\<forall>i\<ge>length ?vs. rv_lookup ns (VersionKey name i) ?d3 = None"
    using vs by (auto simp: ver saved_versions_def)
  have dedup: "dedup_entry_ok e ?vs" if e: "rv_lookup ns (DedupKey name j) ?d3 = Some e" for j e
  proof (cases "hashString j = hashString ?j")
    case True
    have "gm_wf [(''index'', JNum (int ?n)), (''version_json'', JStr ?j)]" by (simp add: gm_wf_def)
    moreover have "e = (case rv_lookup ns (DedupKey name ?j) d of None \<Rightarrow> ?e | Some old \<Rightarrow> json_patch old ?e)"
      using e True by (simp add: get split: option.splits)
    ultimately have "\<exists>m. e = JObj m \<and> gm_get m ''index'' = Some (JNum (int ?n)) \<and> gm_get m ''version_json'' = Some (JStr ?j)"
      by (auto simp: gm_get_Cons split: option.splits)
    then show ?thesis by (auto simp: dedup_entry_ok_def intro!: exI [of _ ?n])
  next
    case False
    then have "rv_lookup ns (DedupKey name j) d = Some e"
      using e by (simp add: get)
    then have "dedup_entry_ok e vs" using vs by (auto simp: saved_versions_def)
    then show ?thesis by (rule dedup_entry_ok_mono) (auto simp: nth_append)
  qed
  show ?thesis
    unfolding d3 saved_versions_def using meta vers none dedup by auto
qed

lemma update_version_saved:
  assumes plain: "plain_ns ns" "plain_path name" and vs: "saved_versions ns name d vs" and i: "i < length vs"
    and p: "rv_lookup ns (VersionKey name i) d = Some p"
  shows "saved_versions ns name
           (store_Set ns (rvVersionKey name i)
              (JObj (gm_set ''fetched_at'' (JStr now) (gm_set ''job_name'' (JStr job) (payload_members p)))) d)
           (vs[i := (vs ! i)\<lparr>sv_job_name := job, sv_fetched_at := now\<rparr>])"
proof -
  let ?w = "JObj (gm_set ''fetched_at'' (JStr now) (gm_set ''job_name'' (JStr job) (payload_members p)))"
  let ?vs = "vs[i := (vs ! i)\<lparr>sv_job_name := job, sv_fetched_at := now\<rparr>]"
  let ?d = "store_Set ns (rv_string (VersionKey name i)) ?w d"
  have get: "rv_lookup ns k' ?d = (if rv_tail (VersionKey name i) = rv_tail k' then Some (json_patch p ?w)
      else rv_lookup ns k' d)" if "rv_name k' = name" for k'
    using rv_get_put [of ns "VersionKey name i" k' ?w d] plain that p by simp
  have "holds_version p (vs ! i)"
    using vs i p by (auto simp: saved_versions_def)
  note hold = holds_version_update [OF this, of now job]
  have ver: "rv_lookup ns (VersionKey name k) ?d = (if i = k then Some (json_patch p ?w) else rv_lookup ns (VersionKey name k) d)" for k
    using get [of "VersionKey name k"] by simp
  have other: "rv_lookup ns (MetaKey name) ?d = rv_lookup ns (MetaKey name) d"
    "rv_lookup ns (DedupKey name j) ?d = rv_lookup ns (DedupKey name j) d" for j
    using get [of "MetaKey name"] get [of "DedupKey name j"] by simp_all
  have same: "sv_version (?vs ! k) = sv_version (vs ! k)" if "k < length vs" for k
    using that i by (cases "k = i") auto
  have "\<forall>k<length ?vs. \<exists>q. rv_lookup ns (VersionKey name k) ?d = Some q \<and> holds_version q (?vs ! k)"
    using vs hold i by (auto simp: ver saved_versions_def nth_list_update)
  moreover have "\<forall>k\<ge>length ?vs. rv_lookup ns (VersionKey name k) ?d = None"
    using vs i by (auto simp: ver saved_versions_def)
  moreover have "\<forall>j e. rv_lookup ns (DedupKey name j) ?d = Some e \<longrightarrow> dedup_entry_ok e ?vs"
    using vs same dedup_entry_ok_mono [of _ vs ?vs] by (auto simp: other saved_versions_def)
  moreover have "case rv_lookup ns (MetaKey name) ?d of None \<Rightarrow> ?vs = []
      | Some q \<Rightarrow> \<exists>m. q = JObj m \<and> gm_get m ''count'' = Some (JNum (int (length ?vs)))"
    using vs i unfolding other by (auto simp: saved_versions_def split: option.splits)
  ultimately show ?thesis
    by (simp add: saved_versions_def flip: rv_string.simps)
qed

lemma save_unknown:
  assumes "saved_versions ns name d vs" and "known_index ns name v d = None"
  shows "SaveResourceVersion ns name v job now d = insert_version ns name v job now d"
proof (cases "rv_lookup ns (DedupKey name (marshal_strmap v)) d")
  case (Some e)
  with assms(1) have "dedup_entry_ok e vs" by (auto simp: saved_versions_def)
  then obtain i where "obj_int (payload_members e) ''index'' = Some (int i)"
    by (auto simp: dedup_entry_ok_def payload_members_def obj_int_def)
  with assms(2) Some have "obj_str (payload_members e) ''version_json'' \<noteq> Some (marshal_strmap v)"
    by (auto simp: known_index_def split: if_splits)
  with Some show ?thesis
    by (simp add: SaveResourceVersion_def updateExistingDedupEntry_def safeStorageGet_lookup Let_def rv_string.simps)
qed (simp add: SaveResourceVersion_def safeStorageGet_lookup rv_string.simps)

lemma save_known:
  assumes "saved_versions ns name d vs" and "gm_wf v" and "known_index ns name v d = Some i"
  obtains p where "i < length vs" and "rv_lookup ns (VersionKey name i) d = Some p"
    and "SaveResourceVersion ns name v job now d =
      store_Set ns (rvVersionKey name i)
        (JObj (gm_set ''fetched_at'' (JStr now) (gm_set ''job_name'' (JStr job) (payload_members p)))) d"
proof -
  obtain e k where e: "rv_lookup ns (DedupKey name (marshal_strmap v)) d = Some e"
    and vj: "obj_str (payload_members e) ''version_json'' = Some (marshal_strmap v)"
    and k: "obj_int (payload_members e) ''index'' = Some k" "i = nat k"
    using assms(3) by (auto simp: known_index_def split: option.splits if_splits)
  have i: "i < length vs" using known_index_sound [OF assms] by simp
  then obtain p where p: "rv_lookup ns (VersionKey name i) d = Some p"
    using assms(1) by (auto simp: saved_versions_def)
  show thesis
    using e vj k p
    by (intro that [OF i p])
      (simp add: SaveResourceVersion_def updateExistingDedupEntry_def safeStorageGet_lookup Let_def rv_string.simps)
qed

lemma save_refines:
  assumes "plain_ns ns" and "plain_path name" and "gm_wf v" and "saved_versions ns name d vs"
  shows "saved_versions ns name (SaveResourceVersion ns name v job now d)
           (save_spec (known_index ns name v d) v job now vs)"
proof (cases "known_index ns name v d")
  case None
  then show ?thesis
    using insert_version_saved [OF assms(1,2,4,3)] save_unknown [OF assms(4) None] by (simp add: save_spec_def)
next
  case (Some i)
  from save_known [OF assms(4,3) Some] obtain p where "i < length vs" "rv_lookup ns (VersionKey name i) d = Some p"
    "SaveResourceVersion ns name v job now d =
      store_Set ns (rvVersionKey name i)
        (JObj (gm_set ''fetched_at'' (JStr now) (gm_set ''job_name'' (JStr job) (payload_members p)))) d" by blast
  with Some show ?thesis
    using update_version_saved [OF assms(1,2,4)] by (simp add: save_spec_def)
qed

text \<open>C24. Saving a version refines the abstract save on the list of versions: when the deduplication entry of
  the version's hash names this very version, the entry at its index gets the new job and time and nothing
  else changes; otherwise the version is appended.\<close>

theorem SaveResourceVersion_refines:
  assumes "plain_ns ns" and "plain_path name" and "gm_wf v" and "saved_versions ns name d vs"
  shows "saved_versions ns name (SaveResourceVersion ns name v job now d)
           (save_spec (known_index ns name v d) v job now vs)"
  using assms by (rule save_refines)

lemma save_frame:
  assumes "plain_ns ns" and "plain_path name" and "plain_path (rv_name k)" and "rv_name k \<noteq> name"
  shows "rv_lookup ns k (SaveResourceVersion ns name v job now d) = rv_lookup ns k d"
proof -
  have set: "rv_lookup ns k (store_Set ns (rv_string k') w x) = rv_lookup ns k x" if "rv_name k' = name" for k' w x
    using rv_get_put [of ns k' k w x] assms that by simp
  have ins: "rv_lookup ns k (insert_version ns name v job now x) = rv_lookup ns k x" for x
    using set [of "MetaKey name"] set [of "DedupKey name (marshal_strmap v)"]
      set [of "VersionKey name (nat (getMetaCount ns name x))"]
    by (simp add: insert_version_def Let_def rv_string.simps(1,2,3) [symmetric] del: rv_string.simps)
  have upd: "rv_lookup ns k (snd (updateExistingDedupEntry ns e name j job now x)) = rv_lookup ns k x" for e j x
    using set [of "VersionKey name (nat (case obj_int (payload_members e) ''index'' of Some i \<Rightarrow> i | None \<Rightarrow> 0))"]
    by (simp add: updateExistingDedupEntry_def Let_def rv_string.simps(2) [symmetric] split: option.splits)
  show ?thesis
    unfolding SaveResourceVersion_def using ins upd
    by (auto split: option.splits prod.splits bool.splits) (metis snd_conv)+
qed

text \<open>Saving a version of one resource leaves every version, and every answer of the queries, of all other
  resources as they were.\<close>

theorem SaveResourceVersion_frame:
  assumes "plain_ns ns" and "plain_path name" and "plain_path other" and "other \<noteq> name"
    and "saved_versions ns other d vs"
  shows "saved_versions ns other (SaveResourceVersion ns name v job now d) vs"
proof -
  have "rv_lookup ns k (SaveResourceVersion ns name v job now d) = rv_lookup ns k d" if "rv_name k = other" for k
    using save_frame [OF assms(1,2), of k] assms(3,4) that by simp
  with assms(5) show ?thesis
    by (simp add: saved_versions_def)
qed

lemma saved_empty: "tasks d = [] \<Longrightarrow> saved_versions ns name d []"
  by (simp add: saved_versions_def store_lookup_def find_task_def)

lemma sample_names: "plain_ns []" "plain_path ''git''" "plain_path ''img''"
  by (simp_all add: plain_ns_def plain_path_def plain_part_def)

theorem SaveResourceVersion_frame_witness:
  "saved_versions [] ''img'' (SaveResourceVersion [] ''git'' [(''ref'', ''a'')] ''j'' ''t'' empty_db) []"
  by (rule SaveResourceVersion_frame [OF sample_names]) (simp_all add: saved_empty empty_db_def)

theorem SaveResourceVersion_refines_witness:
  "saved_versions [] ''git'' (SaveResourceVersion [] ''git'' [(''ref'', ''a'')] ''j'' ''t'' empty_db)
     (save_spec (known_index [] ''git'' [(''ref'', ''a'')] empty_db) [(''ref'', ''a'')] ''j'' ''t'' [])"
  by (rule SaveResourceVersion_refines [OF sample_names(1,2)]) (simp_all add: gm_wf_def saved_empty empty_db_def)

lemma known_after_save:
  assumes plain: "plain_ns ns" "plain_path name" and wf: "gm_wf v" and vs: "saved_versions ns name d vs"
  shows "known_index ns name v (SaveResourceVersion ns name v job now d) \<noteq> None"
proof (cases "known_index ns name v d")
  case None
  let ?j = "marshal_strmap v" and ?n = "getMetaCount ns name d"
  let ?e = "JObj [(''index'', JNum ?n), (''version_json'', JStr ?j)]"
  let ?d1 = "store_Set ns (rv_string (VersionKey name (nat ?n)))
     (JObj [(''version'', versionToAnyMap v), (''job_name'', JStr job), (''fetched_at'', JStr now)]) d"
  let ?d2 = "store_Set ns (rv_string (DedupKey name ?j)) ?e ?d1"
  have d': "SaveResourceVersion ns name v job now d =
      store_Set ns (rv_string (MetaKey name)) (JObj [(''count'', JNum (?n + 1))]) ?d2"
    using save_unknown [OF vs None] by (simp add: insert_version_def Let_def rv_string.simps)
  have "rv_lookup ns (DedupKey name ?j) (SaveResourceVersion ns name v job now d) = rv_lookup ns (DedupKey name ?j) ?d2"
    unfolding d' using plain rv_get_put [of ns "MetaKey name" "DedupKey name ?j" _ ?d2] by simp
  also have "\<dots> = Some (case rv_lookup ns (DedupKey name ?j) ?d1 of None \<Rightarrow> ?e | Some old \<Rightarrow> json_patch old ?e)"
    using plain rv_get_put [of ns "DedupKey name ?j" "DedupKey name ?j" ?e ?d1] by simp
  finally show ?thesis
    by (auto simp: known_index_def payload_members_def obj_str_def obj_int_def gm_get_Cons split: option.splits)
next
  case (Some i)
  from save_known [OF vs wf Some] obtain p where d': "SaveResourceVersion ns name v job now d =
      store_Set ns (rv_string (VersionKey name i))
        (JObj (gm_set ''fetched_at'' (JStr now) (gm_set ''job_name'' (JStr job) (payload_members p)))) d"
    unfolding rv_string.simps by blast
  have "rv_lookup ns (DedupKey name j) (SaveResourceVersion ns name v job now d) = rv_lookup ns (DedupKey name j) d" for j
    unfolding d' using plain rv_get_put [of ns "VersionKey name i" "DedupKey name j" _ d] by simp
  with Some show ?thesis by (simp add: known_index_def)
qed

text \<open>Saving is idempotent on the list: a version saved right after itself, by any job at any time, adds no
  entry.\<close>

theorem save_twice_adds_once:
  assumes "plain_ns ns" and "plain_path name" and "gm_wf v" and "saved_versions ns name d vs"
  shows "length (ListResourceVersions ns name 0
             (SaveResourceVersion ns name v job2 now2 (SaveResourceVersion ns name v job now d))) =
         length (ListResourceVersions ns name 0 (SaveResourceVersion ns name v job now d))"
proof -
  let ?d1 = "SaveResourceVersion ns name v job now d"
  obtain vs1 where vs1: "saved_versions ns name ?d1 vs1"
    using save_refines [OF assms] by blast
  obtain i where "known_index ns name v ?d1 = Some i"
    using known_after_save [OF assms] by blast
  then have "saved_versions ns name (SaveResourceVersion ns name v job2 now2 ?d1)
      (vs1[i := (vs1 ! i)\<lparr>sv_job_name := job2, sv_fetched_at := now2\<rparr>])"
    using save_refines [OF assms(1,2,3) vs1, of job2 now2] by (simp add: save_spec_def)
  with vs1 show ?thesis
    using map_filter_versions [of ns name _ _ _ 0] saved_count
    by (simp add: ListResourceVersions_def Let_def)
qed

theorem save_twice_adds_once_witness:
  "length (ListResourceVersions [] ''git'' 0
       (SaveResourceVersion [] ''git'' [(''ref'', ''a'')] ''k'' ''u''
          (SaveResourceVersion [] ''git'' [(''ref'', ''a'')] ''j'' ''t'' empty_db))) =
   length (ListResourceVersions [] ''git'' 0 (SaveResourceVersion [] ''git'' [(''ref'', ''a'')] ''j'' ''t'' empty_db))"
  by (rule save_twice_adds_once [OF sample_names(1,2), of _ _ "[]"]) (simp_all add: gm_wf_def saved_empty empty_db_def)

theorem resource_queries_witness: "ListResourceVersions [] ''git'' 3 empty_db = []"
  using resource_queries [of "[]" "''git''" empty_db "[]" "[]" 3]
  by (simp add: saved_empty empty_db_def)

end
