(* ===== verification/Step_Errors.thy ===== *)
theory Step_Errors
  imports Config
begin

text \<open>
  The errors of the step engine (\<open>runtime/backwards/errors.go\<close>) and the helpers of \<open>runtime/backwards/step.go\<close>: the
  chain that \<open>errors.As\<close> and \<open>errors.Is\<close> walk, the classification into failure kinds, the check of
  expected executions and the zero padding of step prefixes.
\<close>

section \<open>Errors\<close>

text \<open>\<open>Wrapped s e\<close> is \<open>fmt.Errorf("s: %w", e)\<close>, \<open>Plain s\<close> any other error; \<open>ErrAssertionFailed\<close> is the sentinel.\<close>

datatype go_error =
    TaskFailed string int
  | TaskAborted string
  | TaskErrored string "go_error option"
  | ErrAssertionFailed
  | Assertion string
  | Wrapped string go_error
  | Plain string

fun unwrap :: "go_error \<Rightarrow> go_error option" where
  "unwrap (TaskErrored n e) = e"
| "unwrap (Assertion m) = Some ErrAssertionFailed"
| "unwrap (Wrapped s e) = Some e"
| "unwrap _ = None"

text \<open>The chain of an error: itself and what repeated unwrapping yields.\<close>

fun error_chain :: "go_error \<Rightarrow> go_error list" where
  "error_chain (TaskErrored n (Some e)) = TaskErrored n (Some e) # error_chain e"
| "error_chain (Assertion m) = [Assertion m, ErrAssertionFailed]"
| "error_chain (Wrapped s e) = Wrapped s e # error_chain e"
| "error_chain e = [e]"

fun is_aborted :: "go_error \<Rightarrow> bool" where
  "is_aborted (TaskAborted n) = True" | "is_aborted _ = False"

fun is_errored :: "go_error \<Rightarrow> bool" where
  "is_errored (TaskErrored n e) = True" | "is_errored _ = False"

fun is_failed :: "go_error \<Rightarrow> bool" where
  "is_failed (TaskFailed n c) = True" | "is_failed _ = False"

definition isAbortError :: "go_error \<Rightarrow> bool" where
  "isAbortError e \<longleftrightarrow> (\<exists>x\<in>set (error_chain e). is_aborted x)"

definition isErroredError :: "go_error \<Rightarrow> bool" where
  "isErroredError e \<longleftrightarrow> (\<exists>x\<in>set (error_chain e). is_errored x)"

definition isFailedError :: "go_error \<Rightarrow> bool" where
  "isFailedError e \<longleftrightarrow> (\<exists>x\<in>set (error_chain e). is_failed x)"

definition is_assertion_error :: "go_error \<Rightarrow> bool" where
  "is_assertion_error e \<longleftrightarrow> ErrAssertionFailed \<in> set (error_chain e)"

text \<open>The verb \<open>%q\<close> on printable text.\<close>

definition go_quote :: "string \<Rightarrow> string" where
  "go_quote s = CHR 0x22 # concat (map (\<lambda>c. if c \<in> {CHR 0x22, CHR 0x5C} then [CHR 0x5C, c] else [c]) s) @ [CHR 0x22]"

fun error_text :: "go_error \<Rightarrow> string" where
  "error_text (TaskFailed n c) = ''task '' @ go_quote n @ '' failed with exit code '' @ itoa c"
| "error_text (TaskAborted n) = ''task '' @ go_quote n @ '' aborted''"
| "error_text (TaskErrored n None) = ''Task '' @ n @ '' errored''"
| "error_text (TaskErrored n (Some e)) = ''Task '' @ n @ '' errored: '' @ error_text e"
| "error_text ErrAssertionFailed = ''assertion failed''"
| "error_text (Assertion m) = ''assertion failed: '' @ m"
| "error_text (Wrapped s e) = s @ '': '' @ error_text e"
| "error_text (Plain s) = s"

datatype failure_kind = FailureKindNone | FailureKindFailed | FailureKindErrored | FailureKindAborted

definition failureKindFromErr :: "go_error \<Rightarrow> failure_kind" where
  "failureKindFromErr e =
     (if isAbortError e then FailureKindAborted
      else if isErroredError e then FailureKindErrored
      else FailureKindFailed)"

lemma error_chain_unwrap:
  "error_chain e = e # (case unwrap e of None \<Rightarrow> [] | Some e' \<Rightarrow> error_chain e')"
  by (cases e rule: error_chain.cases) simp_all

lemma wrapped_kind [simp]:
  "isAbortError (Wrapped s e) = isAbortError e"
  "isErroredError (Wrapped s e) = isErroredError e"
  "isFailedError (Wrapped s e) = isFailedError e"
  "is_assertion_error (Wrapped s e) = is_assertion_error e"
  by (simp_all add: isAbortError_def isErroredError_def isFailedError_def is_assertion_error_def)

lemma failureKind_wrapped [simp]: "failureKindFromErr (Wrapped s e) = failureKindFromErr e"
  by (simp add: failureKindFromErr_def)

lemma failureKind_not_none [simp]: "failureKindFromErr e \<noteq> FailureKindNone"
  by (simp add: failureKindFromErr_def)

definition statusFromErr :: "go_error option \<Rightarrow> string" where
  "statusFromErr e = (if e \<noteq> None then ''failure'' else ''success'')"

section \<open>Expected executions\<close>

definition formatList :: "string list \<Rightarrow> string" where
  "formatList items = ''['' @ JoinStr items '', '' @ '']''"

definition validateExecution :: "string \<Rightarrow> string list option \<Rightarrow> string list \<Rightarrow> go_error option" where
  "validateExecution label expected got =
     (case expected of
        None \<Rightarrow> None
      | Some ex \<Rightarrow>
          if length ex \<noteq> length got
          then Some (Assertion (label @ '' execution: expected '' @ formatList ex @ '', got '' @ formatList got))
          else (case find (\<lambda>i. ex ! i \<noteq> got ! i) [0..<length ex] of
                  None \<Rightarrow> None
                | Some i \<Rightarrow> Some (Assertion (label @ '' execution['' @ itoa (int i) @ '']: expected ''
                              @ go_quote (ex ! i) @ '', got '' @ go_quote (got ! i)))))"

lemma validateExecution_None_iff [simp]:
  "validateExecution label expected got = None \<longleftrightarrow> expected = None \<or> expected = Some got"
proof (cases expected)
  case (Some ex)
  have same: "find (\<lambda>i. ex ! i \<noteq> got ! i) [0..<length ex] = None \<longleftrightarrow> (\<forall>i<length ex. ex ! i = got ! i)"
    by (auto simp: find_None_iff)
  show ?thesis
  proof (cases "length ex = length got")
    case True
    then have "find (\<lambda>i. ex ! i \<noteq> got ! i) [0..<length ex] = None \<longleftrightarrow> ex = got"
      unfolding same by (auto intro: nth_equalityI)
    with Some True show ?thesis
      by (cases "find (\<lambda>i. ex ! i \<noteq> got ! i) [0..<length ex]") (simp_all add: validateExecution_def)
  next
    case False
    with Some show ?thesis by (auto simp: validateExecution_def)
  qed
qed (simp add: validateExecution_def)

lemma validateExecution_assertion:
  "validateExecution label expected got = Some e \<Longrightarrow> is_assertion_error e"
  by (auto simp: validateExecution_def is_assertion_error_def split: option.splits if_splits)

section \<open>Step prefixes\<close>

definition zeroPadWithLength :: "nat \<Rightarrow> nat \<Rightarrow> string" where
  "zeroPadWithLength num len =
     (if len \<le> 1 then itoa (int num) else zero_pad (length (itoa (int (len - 1)))) num)"

lemma digits10_length_mono: "m \<le> n \<Longrightarrow> length (digits10 m) \<le> length (digits10 n)"
proof (induction n arbitrary: m rule: digits10.induct)
  case (1 n)
  show ?case
  proof (cases "m < 10")
    case True
    then have "length (digits10 m) = 1" by (simp add: digits10.simps [of m])
    then show ?thesis using digits10_nonempty [of n] by (simp add: Suc_le_eq)
  next
    case False
    with 1 have "m div 10 \<le> n div 10" "\<not> n < 10" by (simp_all add: div_le_mono)
    with 1(1) [of "m div 10"] False show ?thesis
      by (simp add: digits10.simps [of n] digits10.simps [of m])
  qed
qed

text \<open>Padded numbers below the length all have the width of the largest one.\<close>

lemma zeroPadWithLength_width:
  assumes "i < len"
  shows "length (zeroPadWithLength i len) = length (digits10 (len - 1))"
proof (cases "len \<le> 1")
  case True
  with assms have "i = 0" "len = 1" by linarith+
  then show ?thesis by (simp add: zeroPadWithLength_def itoa_def)
next
  case False
  have "itoa (int (len - 1)) = digits10 (len - 1)" by (simp only: itoa_def) simp
  moreover have "length (digits10 i) \<le> length (digits10 (len - 1))"
    using assms by (intro digits10_length_mono) simp
  ultimately show ?thesis using False by (simp add: zeroPadWithLength_def zero_pad_def)
qed

lemma zeroPadWithLength_inj: "zeroPadWithLength i len = zeroPadWithLength j len \<longleftrightarrow> i = j"
  by (simp add: zeroPadWithLength_def)

lemma zeroPadWithLength_digits: "c \<in> set (zeroPadWithLength i len) \<Longrightarrow> is_digit c"
  using zero_pad_all_digits digits10_all_digits by (auto simp: zeroPadWithLength_def itoa_def split: if_splits)

text \<open>Digit strings of one width compare as their values.\<close>

lemma val10_bound: "list_all is_digit s \<Longrightarrow> val10 s < 10 ^ length s"
proof (induction s rule: rev_induct)
  case (snoc c s)
  then have "val10 s < 10 ^ length s" "of_char c - 48 < (10 :: nat)"
    by (auto simp: is_digit_def)
  then have "10 * val10 s + (of_char c - 48) < 10 * 10 ^ length s" by linarith
  then show ?case by (simp add: val10_snoc)
qed (simp add: val10_def)

lemma val10_Cons: "val10 (c # s) = (of_char c - 48) * 10 ^ length s + val10 s"
proof (induction s rule: rev_induct)
  case (snoc d s)
  have "val10 (c # s @ [d]) = 10 * val10 (c # s) + (of_char d - 48)"
    using val10_snoc [of "c # s" d] by simp
  with snoc show ?case by (simp add: val10_snoc algebra_simps)
qed (simp add: val10_def)

lemma digits_order:
  assumes "length s = length t" and "list_all is_digit s" and "list_all is_digit t"
  shows "s < t \<longleftrightarrow> val10 s < val10 t"
  using assms
proof (induction s t rule: list_induct2)
  case (Cons c s d t)
  have bound: "val10 s < 10 ^ length t" "val10 t < 10 ^ length t"
    using val10_bound [of s] val10_bound [of t] Cons by simp_all
  have ge: "48 \<le> (of_char c :: nat)" "48 \<le> (of_char d :: nat)"
    using Cons.prems by (auto simp: is_digit_def)
  then have cd: "c < d \<longleftrightarrow> (of_char c :: nat) - 48 < of_char d - 48"
    by (auto simp: less_char_def)
  consider "c < d" | "c = d" | "d < c" by fastforce
  then show ?case
  proof cases
    case 1
    then have "Suc (of_char c - 48) * 10 ^ length t \<le> (of_char d - 48) * 10 ^ length t"
      using cd by (intro mult_right_mono) simp_all
    with 1 bound Cons.hyps show ?thesis by (simp add: val10_Cons less_list_code)
  next
    case 2
    with Cons show ?thesis by (simp add: val10_Cons)
  next
    case 3
    then have "Suc (of_char d - 48) * 10 ^ length t \<le> (of_char c - 48) * 10 ^ length t"
      using ge by (intro mult_right_mono) (auto simp: less_char_def)
    with 3 bound Cons.hyps show ?thesis by (auto simp: val10_Cons)
  qed
qed (simp add: val10_def)

text \<open>The prefixes that number the steps of a block are distinct, and their order as text, in which the
  store lists them, is the order of the steps.\<close>

lemma zeroPadWithLength_order:
  assumes "i < len" and "j < len"
  shows "(zeroPadWithLength i len < zeroPadWithLength j len \<longleftrightarrow> i < j)
    \<and> (zeroPadWithLength i len = zeroPadWithLength j len \<longleftrightarrow> i = j)"
proof -
  have "val10 (zeroPadWithLength k len) = k" for k
    by (simp add: zeroPadWithLength_def itoa_def)
  moreover have "list_all is_digit (zeroPadWithLength k len)" for k
    using zeroPadWithLength_digits by (auto simp: list_all_iff)
  ultimately show ?thesis
    using digits_order [of "zeroPadWithLength i len" "zeroPadWithLength j len"] zeroPadWithLength_width assms
    by (simp add: zeroPadWithLength_inj)
qed

lemma zeroPadWithLength_order_witness: "zeroPadWithLength 2 11 < zeroPadWithLength 10 11"
  using zeroPadWithLength_order [of 2 11 10] by simp

end
