(* ===== verification/Group.thy ===== *)
theory Group
  imports Main "HOL-Library.Multiset"
begin

text \<open>
  The bounded group of goroutines that \<open>in_parallel\<close>, \<open>across\<close> and \<open>parallelism\<close> share: a weighted semaphore, an
  \<open>errgroup\<close> and, for fail-fast groups, a context that the first failing body cancels before it releases its
  slot. \<open>group_step\<close> is the relation of all interleavings at the granularity of whole bodies: launching the next
  body needs a free slot and a live context, a running body finishes at any time, and a dead context ends the
  launching. \<open>group_loop\<close> runs a group under a scheduler \<open>pick\<close> and is one of its executions.
\<close>

record ('s, 'e) group =
  gr_pending :: "nat list"
  gr_running :: "nat list"
  gr_cancelled :: bool
  gr_err :: "'e option"
  gr_log :: "(nat \<times> 'e option) list"
  gr_state :: 's

definition group_init :: "nat \<Rightarrow> 's \<Rightarrow> ('s, 'e) group" where
  "group_init n s =
     \<lparr>gr_pending = [0..<n], gr_running = [], gr_cancelled = False, gr_err = None, gr_log = [], gr_state = s\<rparr>"

definition launch :: "('s, 'e) group \<Rightarrow> ('s, 'e) group" where
  "launch g = g\<lparr>gr_pending := tl (gr_pending g), gr_running := gr_running g @ [hd (gr_pending g)]\<rparr>"

definition finish ::
  "(nat \<Rightarrow> 's \<Rightarrow> 'e option \<times> 's) \<Rightarrow> bool \<Rightarrow> nat \<Rightarrow> ('s, 'e) group \<Rightarrow> ('s, 'e) group" where
  "finish body failFast i g =
     (let (e, s) = body i (gr_state g) in
      g\<lparr>gr_running := remove1 i (gr_running g),
        gr_cancelled := gr_cancelled g \<or> (failFast \<and> e \<noteq> None),
        gr_err := (if gr_err g = None then e else gr_err g),
        gr_log := gr_log g @ [(i, e)],
        gr_state := s\<rparr>)"

definition abandon :: "('s, 'e) group \<Rightarrow> ('s, 'e) group" where
  "abandon g = g\<lparr>gr_pending := []\<rparr>"

inductive group_step ::
  "(nat \<Rightarrow> 's \<Rightarrow> 'e option \<times> 's) \<Rightarrow> ('s \<Rightarrow> bool) \<Rightarrow> nat \<Rightarrow> bool \<Rightarrow> ('s, 'e) group \<Rightarrow> ('s, 'e) group \<Rightarrow> bool"
  for body :: "nat \<Rightarrow> 's \<Rightarrow> 'e option \<times> 's" and ctx_done :: "'s \<Rightarrow> bool" and limit :: nat and failFast :: bool where
  launching: "gr_pending g \<noteq> [] \<Longrightarrow> \<not> gr_cancelled g \<Longrightarrow> \<not> ctx_done (gr_state g)
    \<Longrightarrow> length (gr_running g) < limit \<Longrightarrow> group_step body ctx_done limit failFast g (launch g)"
| abandoning: "gr_pending g \<noteq> [] \<Longrightarrow> gr_cancelled g \<or> ctx_done (gr_state g)
    \<Longrightarrow> group_step body ctx_done limit failFast g (abandon g)"
| finishing: "i \<in> set (gr_running g) \<Longrightarrow> group_step body ctx_done limit failFast g (finish body failFast i g)"

inductive_cases group_stepE: "group_step body ctx_done limit failFast g g'"

text \<open>The scheduler names a position in the list of running bodies that finishes now, or none when the loop may
  proceed; when the loop has to wait, an answer out of range stands for the oldest body. A limit below one, with
  which the first \<open>Acquire\<close> would block for ever, is never computed by the callers and counts as one.\<close>

definition picked :: "nat option \<Rightarrow> nat list \<Rightarrow> nat" where
  "picked p running = (case p of Some j \<Rightarrow> if j < length running then running ! j else hd running | None \<Rightarrow> hd running)"

definition waits :: "nat option \<Rightarrow> nat \<Rightarrow> nat list \<Rightarrow> bool" where
  "waits p limit running \<longleftrightarrow> running \<noteq> [] \<and> (p \<noteq> None \<or> limit \<le> length running)"

lemma picked_in: "running \<noteq> [] \<Longrightarrow> picked p running \<in> set running"
  by (auto simp: picked_def split: option.splits)

definition group_next ::
  "(nat list \<Rightarrow> 's \<Rightarrow> nat option) \<Rightarrow> (nat \<Rightarrow> 's \<Rightarrow> 'e option \<times> 's) \<Rightarrow> ('s \<Rightarrow> bool) \<Rightarrow> nat \<Rightarrow> bool
   \<Rightarrow> ('s, 'e) group \<Rightarrow> ('s, 'e) group option" where
  "group_next pick body ctx_done limit failFast g =
     (let p = pick (gr_running g) (gr_state g) in
      if gr_pending g \<noteq> [] then
        if gr_cancelled g \<or> ctx_done (gr_state g) then Some (abandon g)
        else if waits p limit (gr_running g) then Some (finish body failFast (picked p (gr_running g)) g)
        else Some (launch g)
      else if gr_running g \<noteq> [] then Some (finish body failFast (picked p (gr_running g)) g)
      else None)"

definition group_size :: "('s, 'e) group \<Rightarrow> nat" where
  "group_size g = 2 * length (gr_pending g) + length (gr_running g)"

lemma size_launch: "gr_pending g \<noteq> [] \<Longrightarrow> group_size (launch g) < group_size g"
  by (cases "gr_pending g") (simp_all add: group_size_def launch_def)

lemma size_abandon: "gr_pending g \<noteq> [] \<Longrightarrow> group_size (abandon g) < group_size g"
  by (cases "gr_pending g") (simp_all add: group_size_def abandon_def)

lemma finish_simps [simp]:
  "gr_pending (finish body failFast i g) = gr_pending g"
  "gr_running (finish body failFast i g) = remove1 i (gr_running g)"
  "gr_state (finish body failFast i g) = snd (body i (gr_state g))"
  "gr_log (finish body failFast i g) = gr_log g @ [(i, fst (body i (gr_state g)))]"
  "gr_err (finish body failFast i g) = (if gr_err g = None then fst (body i (gr_state g)) else gr_err g)"
  "gr_cancelled (finish body failFast i g) = (gr_cancelled g \<or> (failFast \<and> fst (body i (gr_state g)) \<noteq> None))"
  by (simp_all add: finish_def split_beta Let_def)

lemma launch_simps [simp]:
  "gr_pending (launch g) = tl (gr_pending g)" "gr_running (launch g) = gr_running g @ [hd (gr_pending g)]"
  "gr_state (launch g) = gr_state g" "gr_log (launch g) = gr_log g" "gr_err (launch g) = gr_err g"
  "gr_cancelled (launch g) = gr_cancelled g"
  by (simp_all add: launch_def)

lemma abandon_simps [simp]:
  "gr_pending (abandon g) = []" "gr_running (abandon g) = gr_running g"
  "gr_state (abandon g) = gr_state g" "gr_log (abandon g) = gr_log g" "gr_err (abandon g) = gr_err g"
  "gr_cancelled (abandon g) = gr_cancelled g"
  by (simp_all add: abandon_def)

lemma group_init_simps [simp]:
  "gr_pending (group_init n s) = [0..<n]" "gr_running (group_init n s) = []" "gr_state (group_init n s) = s"
  "gr_log (group_init n s) = []" "gr_err (group_init n s) = None" "gr_cancelled (group_init n s) = False"
  by (simp_all add: group_init_def)

lemma size_finish: "i \<in> set (gr_running g) \<Longrightarrow> group_size (finish body failFast i g) < group_size g"
  by (auto simp: group_size_def length_remove1 dest: length_pos_if_in_set)

lemma group_next_size:
  "group_next pick body ctx_done limit failFast g = Some g' \<Longrightarrow> group_size g' < group_size g"
  by (auto simp: group_next_def Let_def waits_def size_launch size_abandon size_finish picked_in split: if_splits)

function group_loop ::
  "(nat list \<Rightarrow> 's \<Rightarrow> nat option) \<Rightarrow> (nat \<Rightarrow> 's \<Rightarrow> 'e option \<times> 's) \<Rightarrow> ('s \<Rightarrow> bool) \<Rightarrow> nat \<Rightarrow> bool
   \<Rightarrow> ('s, 'e) group \<Rightarrow> ('s, 'e) group" where
  "group_loop pick body ctx_done limit failFast g =
     (case group_next pick body ctx_done limit failFast g of
        None \<Rightarrow> g
      | Some g' \<Rightarrow> group_loop pick body ctx_done limit failFast g')"
  by pat_completeness auto
termination
  by (relation "measure (\<lambda>(pick, body, ctx_done, limit, failFast, g). group_size g)") (auto simp: group_next_size)

declare group_loop.simps [simp del]

definition run_group ::
  "(nat list \<Rightarrow> 's \<Rightarrow> nat option) \<Rightarrow> nat \<Rightarrow> bool \<Rightarrow> ('s \<Rightarrow> bool) \<Rightarrow> nat \<Rightarrow> (nat \<Rightarrow> 's \<Rightarrow> 'e option \<times> 's) \<Rightarrow> 's
   \<Rightarrow> ('s, 'e) group" where
  "run_group pick limit failFast ctx_done n body s = group_loop pick body ctx_done limit failFast (group_init n s)"

section \<open>The loop is an execution of the relation\<close>

lemma group_next_step:
  assumes "group_next pick body ctx_done limit failFast g = Some g'" and "1 \<le> limit"
  shows "group_step body ctx_done limit failFast g g'"
proof -
  let ?p = "pick (gr_running g) (gr_state g)"
  let ?i = "picked ?p (gr_running g)"
  consider (stop) "gr_pending g \<noteq> []" "gr_cancelled g \<or> ctx_done (gr_state g)" "g' = abandon g"
    | (wait) "gr_running g \<noteq> []" "g' = finish body failFast ?i g"
    | (go) "gr_pending g \<noteq> []" "\<not> gr_cancelled g" "\<not> ctx_done (gr_state g)" "\<not> waits ?p limit (gr_running g)"
        "g' = launch g"
    using assms(1) by (auto simp: group_next_def Let_def waits_def split: if_splits)
  then show ?thesis
  proof cases
    case go
    then have "length (gr_running g) < limit"
      using assms(2) by (cases "gr_running g") (auto simp: waits_def)
    with go show ?thesis by (auto intro: group_step.launching)
  qed (auto intro: group_step.intros picked_in)
qed

lemma group_next_None: "group_next pick body ctx_done limit failFast g = None \<longleftrightarrow> gr_pending g = [] \<and> gr_running g = []"
  by (auto simp: group_next_def Let_def)

lemma group_loop_steps:
  assumes "1 \<le> limit"
  shows "(group_step body ctx_done limit failFast)\<^sup>*\<^sup>* g (group_loop pick body ctx_done limit failFast g)
    \<and> gr_pending (group_loop pick body ctx_done limit failFast g) = []
    \<and> gr_running (group_loop pick body ctx_done limit failFast g) = []"
  using assms
proof (induction pick body ctx_done limit failFast g rule: group_loop.induct)
  case (1 pick body ctx_done limit failFast g)
  show ?case
  proof (cases "group_next pick body ctx_done limit failFast g")
    case None
    then have "group_loop pick body ctx_done limit failFast g = g" by (simp add: group_loop.simps [of _ _ _ _ _ g])
    with None show ?thesis by (simp add: group_next_None)
  next
    case (Some g')
    then have "group_loop pick body ctx_done limit failFast g = group_loop pick body ctx_done limit failFast g'"
      by (simp add: group_loop.simps [of _ _ _ _ _ g])
    with 1 Some group_next_step [OF Some] show ?thesis
      by (auto intro: converse_rtranclp_into_rtranclp)
  qed
qed

section \<open>Invariants of every interleaving\<close>

definition first_error :: "(nat \<times> 'e option) list \<Rightarrow> 'e option" where
  "first_error log = (case find (\<lambda>(i, e). e \<noteq> None) log of None \<Rightarrow> None | Some (i, e) \<Rightarrow> e)"

lemma first_error_snoc: "first_error (log @ [(i, e)]) = (if first_error log = None then e else first_error log)"
  by (induction log) (auto simp: first_error_def split: option.splits if_splits)

lemma first_error_None: "first_error log = None \<longleftrightarrow> (\<forall>x\<in>set log. snd x = None)"
  by (induction log) (auto simp: first_error_def split: option.splits)

definition group_ids :: "('s, 'e) group \<Rightarrow> nat multiset" where
  "group_ids g = mset (gr_pending g) + mset (gr_running g) + mset (map fst (gr_log g))"

definition group_inv :: "nat \<Rightarrow> nat \<Rightarrow> bool \<Rightarrow> ('s, 'e) group \<Rightarrow> bool" where
  "group_inv n limit failFast g \<longleftrightarrow>
     length (gr_running g) \<le> limit
     \<and> group_ids g \<subseteq># mset [0..<n]
     \<and> gr_err g = first_error (gr_log g)
     \<and> (gr_cancelled g \<longleftrightarrow> failFast \<and> gr_err g \<noteq> None)"

lemma group_ids_step:
  assumes "group_step body ctx_done limit failFast g g'"
  shows "group_ids g' \<subseteq># group_ids g
    \<and> (\<not> gr_cancelled g \<and> \<not> ctx_done (gr_state g) \<longrightarrow> group_ids g' = group_ids g)"
  using assms
proof cases
  case launching
  then obtain i rest where "gr_pending g = i # rest" by (cases "gr_pending g") auto
  with launching show ?thesis by (simp add: group_ids_def)
next
  case abandoning
  then show ?thesis by (auto simp: group_ids_def)
next
  case (finishing i)
  then have "mset (gr_running g) = add_mset i (mset (remove1 i (gr_running g)))" by simp
  with finishing show ?thesis by (simp add: group_ids_def)
qed

lemma group_inv_step:
  assumes "group_step body ctx_done limit failFast g g'" and "group_inv n limit failFast g"
  shows "group_inv n limit failFast g'"
proof -
  have ids: "group_ids g' \<subseteq># mset [0..<n]"
    using group_ids_step [OF assms(1)] assms(2) by (auto simp: group_inv_def intro: subset_mset.trans)
  show ?thesis
    using assms(1)
  proof cases
    case (finishing i)
    then show ?thesis
      using ids assms(2) by (auto simp: group_inv_def first_error_snoc length_remove1)
  qed (use ids assms(2) in \<open>auto simp: group_inv_def\<close>)
qed

lemma group_inv_init: "group_inv n limit failFast (group_init n s)"
  by (simp add: group_inv_def group_ids_def first_error_def)

lemma group_inv_reachable:
  assumes "(group_step body ctx_done limit failFast)\<^sup>*\<^sup>* (group_init n s) g"
  shows "group_inv n limit failFast g"
  using assms by induction (auto intro: group_inv_init group_inv_step)

lemma group_cancelled_step:
  assumes "group_step body ctx_done limit failFast g g'" and "gr_cancelled g"
  shows "gr_cancelled g' \<and> set (gr_running g') \<union> fst ` set (gr_log g') = set (gr_running g) \<union> fst ` set (gr_log g)"
  using assms(1)
proof cases
  case (finishing i)
  have "x \<in> set (gr_running g) \<longleftrightarrow> x \<in> insert i (set (remove1 i (gr_running g)))" for x
    using finishing(2) in_set_remove1 [of x i "gr_running g"] by (cases "x = i") simp_all
  then have "insert i (set (remove1 i (gr_running g))) = set (gr_running g)" by blast
  with finishing assms(2) show ?thesis by auto
qed (use assms(2) in auto)

lemma group_cancelled_run:
  assumes "(group_step body ctx_done limit failFast)\<^sup>*\<^sup>* g g'" and "gr_cancelled g"
  shows "gr_cancelled g' \<and> set (gr_running g') \<union> fst ` set (gr_log g') = set (gr_running g) \<union> fst ` set (gr_log g)"
  using assms
proof (induction rule: rtranclp_induct)
  case (step y z)
  then show ?case using group_cancelled_step [OF step.hyps(2)] by blast
qed blast

lemma group_complete_run:
  assumes "(group_step body ctx_done limit False)\<^sup>*\<^sup>* (group_init n s) g" and "\<And>s. \<not> ctx_done s"
  shows "group_ids g = mset [0..<n]"
  using assms(1)
proof (induction rule: rtranclp_induct)
  case (step g g')
  have "group_inv n limit False g" using step.hyps(1) by (rule group_inv_reachable)
  then have "\<not> gr_cancelled g" by (simp add: group_inv_def)
  with step group_ids_step assms(2) show ?case by metis
qed (simp add: group_ids_def)

section \<open>Properties\<close>

text \<open>C16. In every interleaving of a group of \<open>n\<close> bodies at most \<open>limit\<close> bodies run at once, no body is started
  twice, and the error of the group is that of the first failing body in the order in which bodies finish.\<close>

theorem group_bounded:
  assumes "(group_step body ctx_done limit failFast)\<^sup>*\<^sup>* (group_init n s) g"
  shows "length (gr_running g) \<le> limit
    \<and> distinct (gr_running g @ map fst (gr_log g)) \<and> set (gr_running g @ map fst (gr_log g)) \<subseteq> {0..<n}
    \<and> gr_err g = first_error (gr_log g)"
proof -
  have inv: "group_inv n limit failFast g" using assms by (rule group_inv_reachable)
  then have sub: "mset (gr_running g @ map fst (gr_log g)) \<subseteq># mset [0..<n]"
    using subset_mset.trans [OF mset_subset_eq_add_right [of "mset (gr_running g @ map fst (gr_log g))" "mset (gr_pending g)"]]
    by (simp add: group_inv_def group_ids_def add.assoc)
  then have "distinct (gr_running g @ map fst (gr_log g))"
    by (metis distinct_upt mset_subset_eq_exists_conv mset_append distinct_append ex_mset mset_eq_imp_distinct_iff)
  moreover have "set (gr_running g @ map fst (gr_log g)) \<subseteq> {0..<n}"
    using set_mset_mono [OF sub] by auto
  ultimately show ?thesis using inv by (simp add: group_inv_def)
qed

definition fail_at :: "nat \<Rightarrow> nat \<Rightarrow> nat \<Rightarrow> nat option \<times> nat" where
  "fail_at k i s = ((if i = k then Some i else None), s + 1)"

theorem group_bounded_witness:
  "gr_err (run_group (\<lambda>_ _. None) 2 False (\<lambda>_. False) 3 (fail_at 1) 0) =
     first_error (gr_log (run_group (\<lambda>_ _. None) 2 False (\<lambda>_. False) 3 (fail_at 1) 0))"
proof -
  have "(group_step (fail_at 1) (\<lambda>_. False) 2 False)\<^sup>*\<^sup>* (group_init 3 0)
      (run_group (\<lambda>_ _. None) 2 False (\<lambda>_. False) 3 (fail_at 1) 0)"
    unfolding run_group_def by (rule group_loop_steps [THEN conjunct1]) simp
  from group_bounded [OF this] show ?thesis by blast
qed

text \<open>Without fail-fast, and while the context lives, every body runs exactly once under every scheduler; the
  group fails exactly when some body fails.\<close>

theorem group_runs_all:
  assumes "1 \<le> limit" and "\<And>s. \<not> ctx_done s"
  shows "mset (map fst (gr_log (run_group pick limit False ctx_done n body s))) = mset [0..<n]
    \<and> (gr_err (run_group pick limit False ctx_done n body s) = None \<longleftrightarrow>
         (\<forall>x\<in>set (gr_log (run_group pick limit False ctx_done n body s)). snd x = None))"
proof -
  let ?g = "run_group pick limit False ctx_done n body s"
  have steps: "(group_step body ctx_done limit False)\<^sup>*\<^sup>* (group_init n s) ?g"
    and final: "gr_pending ?g = []" "gr_running ?g = []"
    using group_loop_steps [OF assms(1), of body ctx_done False "group_init n s" pick] by (simp_all add: run_group_def)
  have "group_ids ?g = mset [0..<n]"
    using group_complete_run [OF steps assms(2)] .
  moreover have "group_inv n limit False ?g" using steps by (rule group_inv_reachable)
  ultimately show ?thesis
    using final by (simp add: group_ids_def group_inv_def first_error_None)
qed

theorem group_runs_all_witness:
  "mset (map fst (gr_log (run_group (\<lambda>_ _. Some 1) 2 False (\<lambda>_. False) 3 (fail_at 1) 0))) = {#0, 1, 2#}"
  using group_runs_all [of 2 "\<lambda>_. False" "\<lambda>_ _. Some 1" 3 "fail_at 1" 0]
  by (simp add: upt_rec numeral_eq_Suc)

text \<open>Fail-fast: once a body has failed, no interleaving starts another one; what finishes later was already
  running when the failing body finished.\<close>

theorem group_fail_fast:
  assumes "(group_step body ctx_done limit True)\<^sup>*\<^sup>* (group_init n s) g" and "gr_err g \<noteq> None"
    and "(group_step body ctx_done limit True)\<^sup>*\<^sup>* g g'"
  shows "set (gr_running g') \<union> fst ` set (gr_log g') = set (gr_running g) \<union> fst ` set (gr_log g)"
proof -
  have "group_inv n limit True g" using assms(1) by (rule group_inv_reachable)
  with assms(2) have "gr_cancelled g" by (simp add: group_inv_def)
  with assms(3) show ?thesis using group_cancelled_run by blast
qed

definition failed_group :: "(nat, nat) group" where
  "failed_group = finish (fail_at 0) True 0 (launch (group_init 2 0))"

theorem group_fail_fast_witness:
  "set (gr_running (abandon failed_group)) \<union> fst ` set (gr_log (abandon failed_group)) =
     set (gr_running failed_group) \<union> fst ` set (gr_log failed_group)"
proof (rule group_fail_fast)
  let ?step = "group_step (fail_at 0) (\<lambda>_. False) 1 True"
  have "?step (group_init 2 0) (launch (group_init 2 0))" by (rule group_step.launching) simp_all
  moreover have "?step (launch (group_init 2 0)) failed_group"
    unfolding failed_group_def by (rule group_step.finishing) simp
  ultimately show "?step\<^sup>*\<^sup>* (group_init 2 0) failed_group" by auto
  show "gr_err failed_group \<noteq> None" by (simp add: failed_group_def fail_at_def)
  have "?step failed_group (abandon failed_group)"
    by (rule group_step.abandoning) (simp_all add: failed_group_def fail_at_def upt_rec)
  then show "?step\<^sup>*\<^sup>* failed_group (abandon failed_group)" ..
qed

section \<open>Replacing bodies and carrying relations\<close>

lemma finish_cong: "(\<And>s. body i s = body' i s) \<Longrightarrow> finish body failFast i g = finish body' failFast i g"
  by (simp add: finish_def)

lemma group_next_cong:
  assumes "\<And>i s. i \<in> set (gr_pending g) \<union> set (gr_running g) \<Longrightarrow> body i s = body' i s"
  shows "group_next pick body ctx_done limit failFast g = group_next pick body' ctx_done limit failFast g"
proof -
  have "finish body failFast (picked p (gr_running g)) g = finish body' failFast (picked p (gr_running g)) g"
    if "gr_running g \<noteq> []" for p
    using assms picked_in [OF that] by (intro finish_cong) blast
  then show ?thesis
    by (auto simp: group_next_def Let_def waits_def)
qed

lemma group_next_subset:
  "group_next pick body ctx_done limit failFast g = Some g' \<Longrightarrow>
     set (gr_pending g') \<union> set (gr_running g') \<subseteq> set (gr_pending g) \<union> set (gr_running g)"
  by (cases "gr_pending g")
    (auto simp: group_next_def Let_def split: if_splits dest: set_remove1_subset [THEN subsetD])

lemma group_loop_cong:
  assumes "\<And>i s. i \<in> set (gr_pending g) \<union> set (gr_running g) \<Longrightarrow> body i s = body' i s"
  shows "group_loop pick body ctx_done limit failFast g = group_loop pick body' ctx_done limit failFast g"
  using assms
proof (induction pick body ctx_done limit failFast g rule: group_loop.induct)
  case (1 pick body ctx_done limit failFast g)
  have nxt: "group_next pick body ctx_done limit failFast g = group_next pick body' ctx_done limit failFast g"
    using 1(2) by (rule group_next_cong)
  show ?case
  proof (cases "group_next pick body ctx_done limit failFast g")
    case None
    with nxt show ?thesis by (simp add: group_loop.simps [of _ _ _ _ _ g])
  next
    case (Some g')
    have "group_loop pick body ctx_done limit failFast g' = group_loop pick body' ctx_done limit failFast g'"
      using 1(2) group_next_subset [OF Some] by (intro 1(1) [OF Some]) blast
    moreover have "group_next pick body' ctx_done limit failFast g = Some g'"
      using nxt Some by simp
    ultimately show ?thesis using Some by (simp add: group_loop.simps [of _ _ _ _ _ g])
  qed
qed

lemma run_group_cong:
  "(\<And>i s. i < n \<Longrightarrow> body i s = body' i s) \<Longrightarrow>
     run_group pick limit failFast ctx_done n body s = run_group pick limit failFast ctx_done n body' s"
  unfolding run_group_def by (rule group_loop_cong) simp

text \<open>A reflexive and transitive relation that every body keeps relates the states before and after the group.\<close>

lemma group_loop_rel:
  assumes "\<And>s. R s s" and "\<And>a b c. R a b \<Longrightarrow> R b c \<Longrightarrow> R a c" and "\<And>i s. R s (snd (body i s))"
  shows "R (gr_state g) (gr_state (group_loop pick body ctx_done limit failFast g))"
  using assms(3)
proof (induction pick body ctx_done limit failFast g rule: group_loop.induct)
  case (1 pick body ctx_done limit failFast g)
  show ?case
  proof (cases "group_next pick body ctx_done limit failFast g")
    case None
    then show ?thesis using assms(1) by (simp add: group_loop.simps [of _ _ _ _ _ g])
  next
    case (Some g')
    have "R (gr_state g) (gr_state g')"
      using Some 1(2) assms(1) by (auto simp: group_next_def Let_def split: if_splits)
    moreover have "R (gr_state g') (gr_state (group_loop pick body ctx_done limit failFast g'))"
      using Some 1(2) by (rule 1(1))
    ultimately show ?thesis
      using Some assms(2) by (simp add: group_loop.simps [of _ _ _ _ _ g])
  qed
qed

lemma run_group_rel:
  assumes "\<And>s. R s s" and "\<And>a b c. R a b \<Longrightarrow> R b c \<Longrightarrow> R a c" and "\<And>i s. R s (snd (body i s))"
  shows "R s (gr_state (run_group pick limit failFast ctx_done n body s))"
  using group_loop_rel [of R body "group_init n s" pick ctx_done limit failFast, OF assms]
  by (simp add: run_group_def)

end
