(* ===== verification/Step_Engine.thy ===== *)
theory Step_Engine
  imports Step_Errors Group Store_Tasks Samples
begin

text \<open>
  The step engine of \<open>runtime/backwards\<close>: \<open>StepContext\<close> (\<open>step.go\<close>), the composite handlers (\<open>do_handler.go\<close>,
  \<open>try_handler.go\<close>, \<open>in_parallel_handler.go\<close>), matrix expansion (\<open>across_handler.go\<close>), retries
  (\<open>attempts_handler.go\<close>) and \<open>JobRunner.processStep\<close> with its hooks (\<open>job.go\<close>). A handler takes the recursive
  call \<open>sc.ProcessStep\<close> as its argument \<open>rec\<close>; \<open>process_step\<close> ties the knot, with enough fuel for every step.

  The context splits into what a run never changes (\<open>step_env\<close>) and what steps change (\<open>step_ctx\<close>). The handlers of
  the leaf steps (task, get, put, agent, build_image, notify) are the map \<open>env_handlers\<close>, as in \<open>JobRunner.handlers\<close>,
  and what only they touch (driver, volumes, caches) is the component \<open>sc_world\<close>. Failures of \<open>Storage.Set\<close>,
  the end of the context \<open>sc.Ctx\<close> and the scheduling of goroutines are given by the environment. The body
  of a goroutine is one atomic action. Log output is not modelled.
\<close>

section \<open>Context\<close>

record 'w step_ctx =
  sc_executed :: "string list"
  sc_preregistered :: "string list"
  sc_failure_count :: nat
  sc_last_failure :: failure_kind
  sc_store :: db
  sc_sets :: nat
  sc_world :: 'w

type_synonym 'w outcome = "go_error option \<times> 'w step_ctx"
type_synonym 'w runner = "step \<Rightarrow> string \<Rightarrow> 'w step_ctx \<Rightarrow> 'w outcome"

text \<open>\<open>env_set_fails n\<close> is the error of the \<open>n\<close>-th \<open>Set\<close> call of the run, if it fails.\<close>

record 'w step_env =
  env_namespace :: string
  env_run_id :: string
  env_job_name :: string
  env_max_in_flight :: int
  env_job_params :: "(string, string) gomap"
  env_set_fails :: "nat \<Rightarrow> string option"
  env_ctx_done :: "'w step_ctx \<Rightarrow> bool"
  env_pick :: "nat list \<Rightarrow> 'w step_ctx \<Rightarrow> nat option"
  env_handlers :: "string \<Rightarrow> 'w runner option"

definition BaseStorageKey :: "'w step_env \<Rightarrow> string" where
  "BaseStorageKey env = ''/pipeline/'' @ env_run_id env @ ''/jobs/'' @ env_job_name env"

definition appendExecutedTask :: "string \<Rightarrow> 'w step_ctx \<Rightarrow> 'w step_ctx" where
  "appendExecutedTask name sc = sc\<lparr>sc_executed := sc_executed sc @ [name]\<rparr>"

definition record_failure :: "failure_kind \<Rightarrow> 'w step_ctx \<Rightarrow> 'w step_ctx" where
  "record_failure k sc = sc\<lparr>sc_failure_count := sc_failure_count sc + 1, sc_last_failure := k\<rparr>"

definition storage_set :: "'w step_env \<Rightarrow> string \<Rightarrow> json \<Rightarrow> 'w step_ctx \<Rightarrow> 'w outcome" where
  "storage_set env key payload sc =
     (case env_set_fails env (sc_sets sc) of
        Some m \<Rightarrow> (Some (Plain m), sc\<lparr>sc_sets := sc_sets sc + 1\<rparr>)
      | None \<Rightarrow> (None, sc\<lparr>sc_sets := sc_sets sc + 1,
                          sc_store := store_Set (env_namespace env) key payload (sc_store sc)\<rparr>))"

definition status_payload :: "string \<Rightarrow> json" where
  "status_payload s = JObj [(''status'', JStr s)]"

text \<open>The frame of \<open>do\<close>, \<open>in_parallel\<close> and \<open>across\<close>: record \<open>pending\<close>, run, record the outcome.\<close>

definition with_status ::
  "'w step_env \<Rightarrow> string \<Rightarrow> string \<Rightarrow> (go_error option \<Rightarrow> string) \<Rightarrow> ('w step_ctx \<Rightarrow> 'w outcome) \<Rightarrow> 'w step_ctx \<Rightarrow> 'w outcome" where
  "with_status env key label final run sc =
     (case storage_set env key (status_payload ''pending'') sc of
        (Some e, sc1) \<Rightarrow> (Some (Wrapped ''storage set pending'' e), sc1)
      | (None, sc1) \<Rightarrow>
          (case run sc1 of (stepErr, sc2) \<Rightarrow>
             (case storage_set env key (status_payload (final stepErr)) sc2 of
                (Some e, sc3) \<Rightarrow> (Some (Wrapped label e), sc3)
              | (None, sc3) \<Rightarrow> (stepErr, sc3))))"

section \<open>do and try\<close>

fun do_loop :: "'w runner \<Rightarrow> string \<Rightarrow> nat \<Rightarrow> nat \<Rightarrow> step list \<Rightarrow> 'w step_ctx \<Rightarrow> 'w outcome" where
  "do_loop rec pathPrefix n i [] sc = (None, sc)"
| "do_loop rec pathPrefix n i (s # ss) sc =
     (case rec s (pathPrefix @ ''/do/'' @ zeroPadWithLength i n) sc of
        (Some e, sc') \<Rightarrow> (Some e, sc')
      | (None, sc') \<Rightarrow> do_loop rec pathPrefix n (Suc i) ss sc')"

definition DoHandler :: "'w step_env \<Rightarrow> 'w runner \<Rightarrow> 'w runner" where
  "DoHandler env rec step pathPrefix =
     with_status env (BaseStorageKey env @ ''/'' @ pathPrefix @ ''/do'') ''storage set result'' statusFromErr
       (do_loop rec pathPrefix (length (step_do step)) 0 (step_do step))"

fun try_loop :: "'w runner \<Rightarrow> string \<Rightarrow> nat \<Rightarrow> nat \<Rightarrow> nat \<Rightarrow> step list \<Rightarrow> 'w step_ctx \<Rightarrow> 'w step_ctx" where
  "try_loop rec pathPrefix n failureBefore i [] sc = sc"
| "try_loop rec pathPrefix n failureBefore i (s # ss) sc =
     (case rec s (pathPrefix @ ''/try/'' @ zeroPadWithLength i n) sc of
        (Some e, sc') \<Rightarrow>
          if sc_failure_count sc' = failureBefore then record_failure (failureKindFromErr e) sc' else sc'
      | (None, sc') \<Rightarrow>
          if sc_failure_count sc' > failureBefore then sc'
          else try_loop rec pathPrefix n failureBefore (Suc i) ss sc')"

definition TryHandler :: "'w step_env \<Rightarrow> 'w runner \<Rightarrow> 'w runner" where
  "TryHandler env rec step pathPrefix =
     with_status env (BaseStorageKey env @ ''/'' @ pathPrefix @ ''/try'') ''storage set success'' (\<lambda>_. ''success'')
       (\<lambda>sc. (None, try_loop rec pathPrefix (length (step_try step)) (sc_failure_count sc) 0 (step_try step) sc))"

section \<open>in_parallel\<close>

definition resolveLimit :: "'w step_env \<Rightarrow> int \<Rightarrow> nat \<Rightarrow> int" where
  "resolveLimit env stepLimit stepCount =
     (if env_max_in_flight env > 0 then env_max_in_flight env
      else if stepLimit > 0 then stepLimit else int stepCount)"

definition preregister :: "step \<Rightarrow> 'w step_ctx \<Rightarrow> 'w step_ctx" where
  "preregister s sc =
     (if sf_task (sfields s) = [] then sc
      else sc\<lparr>sc_executed := sc_executed sc @ [sf_task (sfields s)],
              sc_preregistered := sf_task (sfields s) # sc_preregistered sc\<rparr>)"

definition parallel_body :: "'w runner \<Rightarrow> string \<Rightarrow> step list \<Rightarrow> nat \<Rightarrow> 'w step_ctx \<Rightarrow> 'w outcome" where
  "parallel_body rec pathPrefix steps i =
     rec (steps ! i) (pathPrefix @ ''/in_parallel/'' @ zeroPadWithLength i (length steps))"

definition run_limited ::
  "'w step_env \<Rightarrow> string \<Rightarrow> int \<Rightarrow> bool \<Rightarrow> nat \<Rightarrow> (nat \<Rightarrow> 'w step_ctx \<Rightarrow> 'w outcome) \<Rightarrow> 'w step_ctx \<Rightarrow> 'w outcome" where
  "run_limited env label limit failFast n body sc =
     (let g = run_group (env_pick env) (nat limit) failFast (env_ctx_done env) n body sc
      in (map_option (Wrapped label) (gr_err g), gr_state g))"

definition InParallelHandler :: "'w step_env \<Rightarrow> 'w runner \<Rightarrow> 'w runner" where
  "InParallelHandler env rec step pathPrefix =
     (let steps = step_in_parallel step;
          limit = resolveLimit env (sf_in_parallel_limit (sfields step)) (length steps);
          failFast = sf_in_parallel_fail_fast (sfields step)
      in with_status env (BaseStorageKey env @ ''/'' @ pathPrefix @ ''/in_parallel'') ''storage set result'' statusFromErr
           (\<lambda>sc. run_limited env ''in parallel'' limit failFast (length steps) (parallel_body rec pathPrefix steps)
                    (if failFast then sc else fold preregister steps sc)))"

section \<open>across\<close>

record combination =
  cb_keys :: "string list"
  cb_values :: "string list"

definition combo_get :: "combination \<Rightarrow> string \<Rightarrow> string" where
  "combo_get c key = (case map_of (zip (cb_keys c) (cb_values c)) key of None \<Rightarrow> [] | Some v \<Rightarrow> v)"

text \<open>The digits of \<open>idx\<close> in the mixed radix of the value lists, the last variable varying fastest; the list is
  given in reverse.\<close>

fun pick_values :: "string list list \<Rightarrow> nat \<Rightarrow> string list" where
  "pick_values [] idx = []"
| "pick_values (vs # rest) idx = pick_values rest (idx div length vs) @ [vs ! (idx mod length vs)]"

definition generateCombinations :: "across_var list \<Rightarrow> combination list" where
  "generateCombinations vars =
     (if vars = [] then [\<lparr>cb_keys = [], cb_values = []\<rparr>]
      else map (\<lambda>i. \<lparr>cb_keys = map av_var vars, cb_values = pick_values (rev (map av_values vars)) i\<rparr>)
             [0..<prod_list (map (\<lambda>v. length (av_values v)) vars)])"

definition cloneEnv :: "(string, string) gomap option \<Rightarrow> (string, string) gomap" where
  "cloneEnv original = (case original of None \<Rightarrow> [] | Some m \<Rightarrow> m)"

definition across_env :: "combination \<Rightarrow> task_config \<Rightarrow> task_config" where
  "across_env combo c =
     c\<lparr>tc_env := Some (fold (\<lambda>(k, v). gm_set k v) (zip (cb_keys combo) (cb_values combo)) (cloneEnv (tc_env c)))\<rparr>"

definition across_fields :: "combination \<Rightarrow> across_var list \<Rightarrow> step_fields \<Rightarrow> step_fields" where
  "across_fields combo vars f =
     f\<lparr>sf_across := [], sf_across_fail_fast := False,
       sf_task := (if sf_task f = [] then []
                   else sf_task f @ ''-'' @ JoinStr (map (\<lambda>av. combo_get combo (av_var av)) vars) ''-''),
       sf_config := map_option (across_env combo) (sf_config f)\<rparr>"

definition expandAcrossStep :: "step \<Rightarrow> combination \<Rightarrow> across_var list \<Rightarrow> step" where
  "expandAcrossStep step combo vars = with_fields (across_fields combo vars) step"

definition resolveAcrossLimit :: "across_var list \<Rightarrow> int" where
  "resolveAcrossLimit vars =
     (let m = fold (\<lambda>v m. if av_max_in_flight v > 0 \<and> (m = 0 \<or> av_max_in_flight v < m) then av_max_in_flight v else m)
                vars 0
      in if m = 0 then 1 else m)"

definition across_prefix :: "string \<Rightarrow> across_var list \<Rightarrow> nat \<Rightarrow> combination \<Rightarrow> string" where
  "across_prefix pathPrefix vars i c =
     pathPrefix @ ''/across/'' @ itoa (int i) @ ''_''
     @ JoinStr (map (\<lambda>av. av_var av @ ''_'' @ combo_get c (av_var av)) vars) ''_''"

definition across_body :: "'w runner \<Rightarrow> string \<Rightarrow> step \<Rightarrow> nat \<Rightarrow> 'w step_ctx \<Rightarrow> 'w outcome" where
  "across_body rec pathPrefix step i =
     (let vars = sf_across (sfields step); c = generateCombinations vars ! i
      in rec (expandAcrossStep step c vars) (across_prefix pathPrefix vars i c))"

definition executeAcross :: "'w step_env \<Rightarrow> 'w runner \<Rightarrow> 'w runner" where
  "executeAcross env rec step pathPrefix =
     (let vars = sf_across (sfields step);
          failFast = sf_across_fail_fast (sfields step);
          limit = (if failFast then 1 else resolveAcrossLimit vars)
      in with_status env (BaseStorageKey env @ ''/'' @ pathPrefix @ ''/across'') ''storage set result'' statusFromErr
           (run_limited env ''across'' limit failFast (length (generateCombinations vars))
              (across_body rec pathPrefix step)))"

section \<open>attempts\<close>

definition strip_hooks :: "step \<Rightarrow> step" where
  "strip_hooks s =
     Step ((sfields s)\<lparr>sf_attempts := 0\<rparr>) (step_tools s) (step_do s) (step_try s) (step_in_parallel s)
       None None None None None"

fun attempts_loop ::
  "'w runner \<Rightarrow> step \<Rightarrow> string \<Rightarrow> int list \<Rightarrow> go_error option \<Rightarrow> 'w step_ctx \<Rightarrow> bool \<times> 'w outcome" where
  "attempts_loop rec stripped pathPrefix [] lastErr sc = (False, lastErr, sc)"
| "attempts_loop rec stripped pathPrefix (attempt # rest) lastErr sc =
     (case rec stripped (pathPrefix @ ''/attempt/'' @ itoa attempt) sc of
        (Some e, sc') \<Rightarrow> attempts_loop rec stripped pathPrefix rest (Some e) sc'
      | (None, sc') \<Rightarrow> (True, lastErr, sc'))"

text \<open>Run a hook and drop its error, which the code only logs.\<close>

definition run_hook :: "'w runner \<Rightarrow> step option \<Rightarrow> string \<Rightarrow> 'w step_ctx \<Rightarrow> 'w step_ctx" where
  "run_hook rec hook pathPrefix sc = (case hook of None \<Rightarrow> sc | Some s \<Rightarrow> snd (rec s pathPrefix sc))"

definition runAttemptFailureHook ::
  "'w runner \<Rightarrow> step \<Rightarrow> string \<Rightarrow> go_error option \<Rightarrow> 'w step_ctx \<Rightarrow> 'w outcome" where
  "runAttemptFailureHook rec step pathPrefix lastErr sc =
     (case lastErr of
        None \<Rightarrow> (None, sc)
      | Some e \<Rightarrow>
          if isAbortError e \<and> step_on_abort step \<noteq> None then
            (None, run_hook rec (step_on_abort step) (pathPrefix @ ''/on_abort'') (record_failure FailureKindAborted sc))
          else if isErroredError e \<and> step_on_error step \<noteq> None then
            (None, run_hook rec (step_on_error step) (pathPrefix @ ''/on_error'') (record_failure FailureKindErrored sc))
          else if isFailedError e \<and> step_on_failure step \<noteq> None then
            (None, run_hook rec (step_on_failure step) (pathPrefix @ ''/on_failure'') (record_failure FailureKindFailed sc))
          else (Some e, sc))"

definition executeWithAttempts :: "'w runner \<Rightarrow> 'w runner" where
  "executeWithAttempts rec step pathPrefix sc =
     (case attempts_loop rec (strip_hooks step) pathPrefix [1..sf_attempts (sfields step)] None sc of
        (succeeded, lastErr, sc1) \<Rightarrow>
          (case (if succeeded then
                   (case step_on_success step of
                      None \<Rightarrow> (lastErr, sc1)
                    | Some h \<Rightarrow> (case rec h (pathPrefix @ ''/on_success'') sc1 of
                                   (None, sc2) \<Rightarrow> (lastErr, sc2) | (Some e, sc2) \<Rightarrow> (Some e, sc2)))
                 else runAttemptFailureHook rec step pathPrefix lastErr sc1) of
             (err, sc3) \<Rightarrow> (err, run_hook rec (step_ensure step) (pathPrefix @ ''/ensure'') sc3)))"

section \<open>Hooks and dispatch\<close>

definition dispatchInnerFailureHook :: "'w runner \<Rightarrow> step \<Rightarrow> string \<Rightarrow> 'w step_ctx \<Rightarrow> 'w step_ctx" where
  "dispatchInnerFailureHook rec step pathPrefix sc =
     (if sc_last_failure sc = FailureKindAborted \<and> step_on_abort step \<noteq> None
        then run_hook rec (step_on_abort step) (pathPrefix @ ''/on_abort'') sc
      else if sc_last_failure sc = FailureKindErrored \<and> step_on_error step \<noteq> None
        then run_hook rec (step_on_error step) (pathPrefix @ ''/on_error'') sc
      else run_hook rec (step_on_failure step) (pathPrefix @ ''/on_failure'') sc)"

text \<open>The Boolean says that a hook consumed the error.\<close>

definition dispatchOuterErrorHook ::
  "'w runner \<Rightarrow> step \<Rightarrow> string \<Rightarrow> go_error option \<Rightarrow> 'w step_ctx \<Rightarrow> bool \<times> 'w step_ctx" where
  "dispatchOuterErrorHook rec step pathPrefix stepErr sc =
     (case stepErr of
        None \<Rightarrow> (False, sc)
      | Some e \<Rightarrow>
          if isAbortError e \<and> step_on_abort step \<noteq> None then
            (True, run_hook rec (step_on_abort step) (pathPrefix @ ''/on_abort'') (record_failure FailureKindAborted sc))
          else if isErroredError e \<and> step_on_error step \<noteq> None then
            (True, run_hook rec (step_on_error step) (pathPrefix @ ''/on_error'') (record_failure FailureKindErrored sc))
          else if isFailedError e \<and> step_on_failure step \<noteq> None then
            (True, run_hook rec (step_on_failure step) (pathPrefix @ ''/on_failure'') (record_failure FailureKindFailed sc))
          else (False, sc))"

definition dispatchStepHook ::
  "'w runner \<Rightarrow> step \<Rightarrow> string \<Rightarrow> go_error option \<Rightarrow> nat \<Rightarrow> 'w step_ctx \<Rightarrow> 'w outcome" where
  "dispatchStepHook rec step pathPrefix stepErr failureBefore sc =
     (let failureInside = (sc_failure_count sc > failureBefore \<and> stepErr = None) in
      if stepErr = None \<and> \<not> failureInside \<and> step_on_success step \<noteq> None
        then rec (the (step_on_success step)) (pathPrefix @ ''/on_success'') sc
      else if failureInside then (None, dispatchInnerFailureHook rec step pathPrefix sc)
      else (case dispatchOuterErrorHook rec step pathPrefix stepErr sc of
              (True, sc') \<Rightarrow> (None, sc')
            | (False, sc') \<Rightarrow> (stepErr, sc')))"

definition mergeJobParams :: "(string, string) gomap \<Rightarrow> (string, string) gomap option \<Rightarrow> (string, string) gomap option" where
  "mergeJobParams jobParams stepEnv =
     (if jobParams = [] then stepEnv
      else if cloneEnv stepEnv = [] then Some jobParams
      else Some (gm_merge jobParams (cloneEnv stepEnv)))"

definition inject_fields :: "(string, string) gomap \<Rightarrow> step_fields \<Rightarrow> step_fields" where
  "inject_fields jobParams f =
     (if jobParams = [] \<or> sf_task f = [] then f
      else f\<lparr>sf_config := map_option (\<lambda>c. c\<lparr>tc_env := mergeJobParams jobParams (tc_env c)\<rparr>) (sf_config f)\<rparr>)"

definition injectJobParams :: "(string, string) gomap \<Rightarrow> step \<Rightarrow> step" where
  "injectJobParams jobParams step = with_fields (inject_fields jobParams) step"

definition identifyStepType :: "step \<Rightarrow> string" where
  "identifyStepType step =
     (let f = sfields step in
      if sf_task f \<noteq> [] then ''task''
      else if sf_agent f \<noteq> [] then ''agent''
      else if sf_get f \<noteq> [] then ''get''
      else if sf_put f \<noteq> [] then ''put''
      else if sf_build_image f \<noteq> None then ''build_image''
      else if sf_notify f \<noteq> None then ''notify''
      else if step_try step \<noteq> [] then ''try''
      else if step_do step \<noteq> [] then ''do''
      else if step_in_parallel step \<noteq> [] then ''in_parallel''
      else [])"

definition handler_for :: "'w step_env \<Rightarrow> 'w runner \<Rightarrow> string \<Rightarrow> 'w runner option" where
  "handler_for env rec stepType =
     (if stepType = ''try'' then Some (TryHandler env rec)
      else if stepType = ''do'' then Some (DoHandler env rec)
      else if stepType = ''in_parallel'' then Some (InParallelHandler env rec)
      else env_handlers env stepType)"

definition run_handler :: "'w runner \<Rightarrow> 'w runner \<Rightarrow> 'w runner" where
  "run_handler rec handler step pathPrefix sc =
     (let (stepErr, sc1) = handler step pathPrefix sc;
          (err, sc2) = dispatchStepHook rec step pathPrefix stepErr (sc_failure_count sc) sc1
      in (err, run_hook rec (step_ensure step) (pathPrefix @ ''/ensure'') sc2))"

definition step_body :: "'w step_env \<Rightarrow> 'w runner \<Rightarrow> 'w runner" where
  "step_body env rec step0 pathPrefix sc =
     (let step = injectJobParams (env_job_params env) step0 in
      if sf_across (sfields step) \<noteq> [] then executeAcross env rec step pathPrefix sc
      else if sf_attempts (sfields step) > 1 then executeWithAttempts rec step pathPrefix sc
      else
        (let stepType = identifyStepType step in
         if stepType = [] then
           (Some (Plain (''unknown step type in job '' @ go_quote (env_job_name env) @ '' at prefix '' @ go_quote pathPrefix)), sc)
         else
           (case handler_for env rec stepType of
              None \<Rightarrow> (Some (Plain (''no handler registered for step type '' @ go_quote stepType)), sc)
            | Some handler \<Rightarrow> run_handler rec handler step pathPrefix sc)))"

section \<open>The recursion of processStep\<close>

fun processStep :: "nat \<Rightarrow> 'w step_env \<Rightarrow> 'w runner" where
  "processStep 0 env step pathPrefix sc = (Some (Plain ''out of fuel''), sc)"
| "processStep (Suc n) env step pathPrefix sc = step_body env (processStep n env) step pathPrefix sc"

text \<open>How deep \<open>processStep\<close> recurses on a step: expanding \<open>across\<close> and stripping \<open>attempts\<close> are one call each.\<close>

definition max_list :: "nat list \<Rightarrow> nat" where
  "max_list xs = foldr max xs 0"

fun step_depth :: "step \<Rightarrow> nat" where
  "step_depth (Step f tools do_steps try_steps par ens ab er su fa) =
     1 + (if sf_across f \<noteq> [] then 1 else 0) + (if sf_attempts f > 1 then 1 else 0)
     + max_list (map step_depth do_steps @ map step_depth try_steps @ map step_depth par
         @ map (\<lambda>h. case h of None \<Rightarrow> 0 | Some s \<Rightarrow> step_depth s) [ens, ab, er, su, fa])"

definition process_step :: "'w step_env \<Rightarrow> 'w runner" where
  "process_step env step = processStep (step_depth step) env step"

section \<open>The fuel is enough\<close>

lemma max_list_ge: "x \<in> set xs \<Longrightarrow> x \<le> max_list xs"
  by (induction xs) (auto simp: max_list_def)

lemma max_list_mono: "(\<And>x. x \<in> set xs \<Longrightarrow> \<exists>y\<in>set ys. x \<le> y) \<Longrightarrow> max_list xs \<le> max_list ys"
proof (induction xs)
  case (Cons x xs)
  then obtain y where "y \<in> set ys" "x \<le> y" by auto
  then have "x \<le> max_list ys" using max_list_ge [of y ys] by simp
  moreover have "max_list xs \<le> max_list ys" using Cons by auto
  ultimately show ?case by (simp add: max_list_def)
qed (simp add: max_list_def)

definition hook_steps :: "step \<Rightarrow> step list" where
  "hook_steps s = concat (map (\<lambda>h. case h of None \<Rightarrow> [] | Some t \<Rightarrow> [t])
     [step_ensure s, step_on_abort s, step_on_error s, step_on_success s, step_on_failure s])"

definition child_steps :: "step \<Rightarrow> step list" where
  "child_steps s = step_do s @ step_try s @ step_in_parallel s @ hook_steps s"

definition children_depth :: "step \<Rightarrow> nat" where
  "children_depth s = max_list (map step_depth (step_do s) @ map step_depth (step_try s)
     @ map step_depth (step_in_parallel s)
     @ map (\<lambda>h. case h of None \<Rightarrow> 0 | Some t \<Rightarrow> step_depth t)
         [step_ensure s, step_on_abort s, step_on_error s, step_on_success s, step_on_failure s])"

lemma step_depth_eq:
  "step_depth s = 1 + (if sf_across (sfields s) \<noteq> [] then 1 else 0) + (if sf_attempts (sfields s) > 1 then 1 else 0)
     + children_depth s"
  by (cases s) (simp add: children_depth_def)

declare step_depth.simps [simp del]

lemma child_depth: "t \<in> set (child_steps s) \<Longrightarrow> step_depth t < step_depth s"
proof -
  assume "t \<in> set (child_steps s)"
  then have "step_depth t \<le> children_depth s"
    unfolding children_depth_def
    by (intro max_list_ge) (auto simp: child_steps_def hook_steps_def split: option.splits)
  then show ?thesis by (simp add: step_depth_eq [of s])
qed

lemma with_fields_simps [simp]:
  "sfields (with_fields g s) = g (sfields s)" "step_do (with_fields g s) = step_do s"
  "step_try (with_fields g s) = step_try s" "step_in_parallel (with_fields g s) = step_in_parallel s"
  "step_ensure (with_fields g s) = step_ensure s" "step_on_abort (with_fields g s) = step_on_abort s"
  "step_on_error (with_fields g s) = step_on_error s" "step_on_success (with_fields g s) = step_on_success s"
  "step_on_failure (with_fields g s) = step_on_failure s"
  by (simp_all add: with_fields_def)

lemma children_with_fields [simp]: "child_steps (with_fields g s) = child_steps s" "children_depth (with_fields g s) = children_depth s"
  by (simp_all add: child_steps_def hook_steps_def children_depth_def)

lemma inject_same [simp]:
  "sf_across (inject_fields ps f) = sf_across f" "sf_attempts (inject_fields ps f) = sf_attempts f"
  by (simp_all add: inject_fields_def)

lemma inject_depth [simp]: "step_depth (injectJobParams ps s) = step_depth s"
  by (simp add: injectJobParams_def step_depth_eq)

lemma inject_children [simp]: "child_steps (injectJobParams ps s) = child_steps s"
  by (simp add: injectJobParams_def)

lemma across_depth: "sf_across (sfields s) \<noteq> [] \<Longrightarrow> step_depth (expandAcrossStep s c vars) < step_depth s"
  by (simp add: expandAcrossStep_def step_depth_eq across_fields_def)

lemma strip_depth:
  assumes "sf_attempts (sfields s) > 1"
  shows "step_depth (strip_hooks s) < step_depth s"
proof -
  have "children_depth (strip_hooks s) \<le> children_depth s"
    unfolding children_depth_def by (rule max_list_mono) (auto simp: strip_hooks_def)
  with assms show ?thesis by (simp add: step_depth_eq strip_hooks_def)
qed

text \<open>Two recursive calls that agree on the steps below a step agree on the step.\<close>

definition agree_below :: "'w runner \<Rightarrow> 'w runner \<Rightarrow> nat \<Rightarrow> bool" where
  "agree_below r r' d \<longleftrightarrow> (\<forall>s p sc. step_depth s < d \<longrightarrow> r s p sc = r' s p sc)"

lemma agree_child: "agree_below r r' (step_depth s) \<Longrightarrow> t \<in> set (child_steps s) \<Longrightarrow> r t p sc = r' t p sc"
  using child_depth by (auto simp: agree_below_def)

lemma with_status_cong:
  assumes "\<And>sc. run sc = run' sc"
  shows "with_status env key label final run sc = with_status env key label final run' sc"
proof -
  have "run = run'" using assms by (rule ext)
  then show ?thesis by simp
qed

lemma do_loop_cong:
  "(\<And>s p sc. s \<in> set ss \<Longrightarrow> r s p sc = r' s p sc) \<Longrightarrow> do_loop r p n i ss sc = do_loop r' p n i ss sc"
  by (induction ss arbitrary: i sc) (auto split: prod.splits option.splits)

lemma try_loop_cong:
  "(\<And>s p sc. s \<in> set ss \<Longrightarrow> r s p sc = r' s p sc) \<Longrightarrow> try_loop r p n b i ss sc = try_loop r' p n b i ss sc"
  by (induction ss arbitrary: i sc) (auto split: prod.splits option.splits)

lemma attempts_loop_cong:
  "(\<And>p sc. r s p sc = r' s p sc) \<Longrightarrow> attempts_loop r s p ks e sc = attempts_loop r' s p ks e sc"
  by (induction ks arbitrary: e sc) (auto split: prod.splits option.splits)

lemma run_hook_cong:
  "(\<And>s p sc. h = Some s \<Longrightarrow> r s p sc = r' s p sc) \<Longrightarrow> run_hook r h p sc = run_hook r' h p sc"
  by (simp add: run_hook_def split: option.split)

lemma hook_child:
  assumes "agree_below r r' (step_depth s)"
  shows "run_hook r (step_ensure s) p sc = run_hook r' (step_ensure s) p sc"
    and "run_hook r (step_on_abort s) p sc = run_hook r' (step_on_abort s) p sc"
    and "run_hook r (step_on_error s) p sc = run_hook r' (step_on_error s) p sc"
    and "run_hook r (step_on_failure s) p sc = run_hook r' (step_on_failure s) p sc"
    and "step_on_success s = Some h \<Longrightarrow> r h p sc = r' h p sc"
  using agree_child [OF assms]
  by (auto intro!: run_hook_cong simp: child_steps_def hook_steps_def split: option.splits)

lemma run_limited_cong:
  "(\<And>i sc. i < n \<Longrightarrow> b i sc = b' i sc) \<Longrightarrow> run_limited env l limit ff n b sc = run_limited env l limit ff n b' sc"
  unfolding run_limited_def using run_group_cong [of n b b'] by metis

lemma handler_for_cong:
  assumes "agree_below r r' (step_depth s)"
  shows "(case handler_for env r t of None \<Rightarrow> x | Some h \<Rightarrow> k (h s)) = (case handler_for env r' t of None \<Rightarrow> x | Some h \<Rightarrow> k (h s))"
proof -
  have "TryHandler env r s = TryHandler env r' s"
    unfolding TryHandler_def using agree_child [OF assms]
    by (intro ext with_status_cong) (auto intro!: try_loop_cong simp: child_steps_def)
  moreover have "DoHandler env r s = DoHandler env r' s"
    unfolding DoHandler_def using agree_child [OF assms]
    by (intro ext with_status_cong) (auto intro!: do_loop_cong simp: child_steps_def)
  moreover have "InParallelHandler env r s = InParallelHandler env r' s"
    unfolding InParallelHandler_def Let_def using agree_child [OF assms]
    by (intro ext with_status_cong) (auto intro!: run_limited_cong simp: child_steps_def parallel_body_def)
  ultimately show ?thesis by (simp add: handler_for_def)
qed

lemma dispatchStepHook_cong:
  assumes "agree_below r r' (step_depth s)"
  shows "dispatchStepHook r s p e b sc = dispatchStepHook r' s p e b sc"
proof -
  have "dispatchInnerFailureHook r s p sc = dispatchInnerFailureHook r' s p sc" for sc
    by (simp only: dispatchInnerFailureHook_def hook_child(1-4) [OF assms])
  moreover have "dispatchOuterErrorHook r s p e sc = dispatchOuterErrorHook r' s p e sc" for sc
    by (simp only: dispatchOuterErrorHook_def hook_child(1-4) [OF assms])
  ultimately show ?thesis
    using hook_child(5) [OF assms] by (auto simp: dispatchStepHook_def Let_def)
qed

lemma runAttemptFailureHook_cong:
  "agree_below r r' (step_depth s) \<Longrightarrow> runAttemptFailureHook r s p e sc = runAttemptFailureHook r' s p e sc"
  by (simp only: runAttemptFailureHook_def hook_child(1-4))

lemma step_body_cong:
  assumes "agree_below r r' (step_depth s)"
  shows "step_body env r s p sc = step_body env r' s p sc"
proof -
  let ?s = "injectJobParams (env_job_params env) s"
  have agree: "agree_below r r' (step_depth ?s)" using assms by simp
  have across: "executeAcross env r ?s p sc = executeAcross env r' ?s p sc" if "sf_across (sfields ?s) \<noteq> []"
    unfolding executeAcross_def Let_def
    using agree across_depth [OF that]
    by (intro with_status_cong run_limited_cong) (simp add: across_body_def agree_below_def Let_def)
  have attempts: "executeWithAttempts r ?s p sc = executeWithAttempts r' ?s p sc" if "sf_attempts (sfields ?s) > 1"
  proof -
    have "attempts_loop r (strip_hooks ?s) p ks e sc = attempts_loop r' (strip_hooks ?s) p ks e sc" for ks e
      using agree strip_depth [OF that] by (intro attempts_loop_cong) (simp add: agree_below_def)
    then show ?thesis
      unfolding executeWithAttempts_def
      using hook_child [OF agree] runAttemptFailureHook_cong [OF agree]
      by (auto split: option.splits prod.splits)
  qed
  have handler: "run_handler r h ?s p sc = run_handler r' h ?s p sc" for h
    unfolding run_handler_def Let_def
    using dispatchStepHook_cong [OF agree] hook_child(1) [OF agree] by (auto split: prod.splits)
  have "(case handler_for env r t of None \<Rightarrow> x | Some h \<Rightarrow> run_handler r h ?s p sc)
      = (case handler_for env r' t of None \<Rightarrow> x | Some h \<Rightarrow> run_handler r' h ?s p sc)" for t x
  proof -
    have "(case handler_for env r t of None \<Rightarrow> x | Some h \<Rightarrow> run_handler r h ?s p sc)
        = (case handler_for env r t of None \<Rightarrow> x | Some h \<Rightarrow> run_handler r' h ?s p sc)"
      by (simp add: handler split: option.split)
    also have "\<dots> = (case handler_for env r' t of None \<Rightarrow> x | Some h \<Rightarrow> run_handler r' h ?s p sc)"
      using handler_for_cong [OF agree, where env = env and t = t and x = x and k =
          "\<lambda>f. (let (stepErr, sc1) = f p sc; (err, sc2) = dispatchStepHook r' ?s p stepErr (sc_failure_count sc) sc1
             in (err, run_hook r' (step_ensure ?s) (p @ ''/ensure'') sc2))"]
      unfolding run_handler_def .
    finally show ?thesis .
  qed
  with across attempts show ?thesis
    by (simp add: step_body_def Let_def)
qed

lemma processStep_fuel: "step_depth s \<le> n \<Longrightarrow> processStep n env s p sc = process_step env s p sc"
proof (induction n arbitrary: s p sc rule: less_induct)
  case (less n)
  show ?case
  proof (cases n)
    case 0
    with less.prems show ?thesis by (simp add: step_depth_eq)
  next
    case (Suc m)
    obtain d where d: "step_depth s = Suc d" by (cases "step_depth s") (simp_all add: step_depth_eq)
    have "agree_below (processStep m env) (processStep d env) (step_depth s)"
      unfolding agree_below_def
    proof (intro allI impI)
      fix t p sc assume t: "step_depth t < step_depth s"
      have "processStep m env t p sc = process_step env t p sc"
        using t less.prems d Suc by (intro less.IH) auto
      moreover have "processStep d env t p sc = process_step env t p sc"
        using t less.prems d Suc by (intro less.IH) auto
      ultimately show "processStep m env t p sc = processStep d env t p sc" by simp
    qed
    then show ?thesis
      by (simp add: Suc process_step_def d step_body_cong)
  qed
qed

lemma process_step_unfold: "process_step env s p sc = step_body env (process_step env) s p sc"
proof -
  obtain d where d: "step_depth s = Suc d" by (cases "step_depth s") (simp_all add: step_depth_eq)
  then have "agree_below (processStep d env) (process_step env) (step_depth s)"
    by (auto simp: agree_below_def processStep_fuel)
  then show ?thesis
    by (simp add: process_step_def d step_body_cong)
qed

text \<open>C14. \<open>processStep\<close> terminates on every step: with fuel of at least the depth of the step the result is the
  one of \<open>process_step\<close>, which satisfies the recursion of the code without any fuel.\<close>

theorem processStep_terminates:
  "process_step env s p sc = step_body env (process_step env) s p sc
   \<and> processStep (step_depth s + extra) env s p sc = process_step env s p sc"
  using process_step_unfold processStep_fuel by (metis le_add1)

end
