(* ===== verification/Step_Laws.thy ===== *)
theory Step_Laws
  imports Step_Engine
begin

text \<open>
  The contract between \<open>processStep\<close> and the leaf handlers: the locale \<open>step_runner\<close> takes a relation on contexts
  that is reflexive and transitive and that the engine's own updates and every leaf handler keep; every handler
  of the engine, hooks, retries and groups included, then keeps it, and so does \<open>process_step\<close>.
  The theory \<open>Task_Handler\<close> interprets it.
\<close>

section \<open>What every step keeps\<close>

locale step_runner =
  fixes R :: "'w step_ctx \<Rightarrow> 'w step_ctx \<Rightarrow> bool" and env :: "'w step_env"
  assumes R_refl: "R sc sc"
    and R_trans: "R a b \<Longrightarrow> R b c \<Longrightarrow> R a c"
    and R_set: "R sc (snd (storage_set env key v sc))"
    and R_failure: "R sc (record_failure k sc)"
    and R_preregister: "R sc (preregister s sc)"
    and R_leaf: "env_handlers env t = Some h \<Longrightarrow> R sc (snd (h s p sc))"
begin

definition keeps :: "'w runner \<Rightarrow> bool" where
  "keeps r \<longleftrightarrow> (\<forall>s p sc. R sc (snd (r s p sc)))"

lemma keepsD: "keeps r \<Longrightarrow> r s p sc = (e, sc') \<Longrightarrow> R sc sc'"
  by (metis keeps_def snd_conv)

lemma set_keeps: "storage_set env key v sc = (e, sc') \<Longrightarrow> R sc sc'"
  using R_set by (metis snd_conv)

lemma hook_keeps: "keeps r \<Longrightarrow> R sc (run_hook r h p sc)"
  by (auto simp: run_hook_def keeps_def R_refl split: option.split)

lemma with_status_keeps:
  assumes "\<And>sc. R sc (snd (run sc))"
  shows "R sc (snd (with_status env key label final run sc))"
  using assms unfolding with_status_def
  by (auto split: prod.split option.split dest!: set_keeps intro: R_trans) (metis R_trans snd_conv)+

lemma do_loop_keeps: "keeps r \<Longrightarrow> R sc (snd (do_loop r p n i ss sc))"
proof (induction ss arbitrary: i sc)
  case (Cons s ss)
  then show ?case by (auto split: prod.split option.split dest: keepsD intro: R_trans)
qed (simp add: R_refl)

lemma try_loop_keeps: "keeps r \<Longrightarrow> R sc (try_loop r p n b i ss sc)"
proof (induction ss arbitrary: i sc)
  case (Cons s ss)
  then show ?case by (auto split: prod.split option.split dest: keepsD intro: R_trans R_failure)
qed (simp add: R_refl)

lemma attempts_loop_keeps: "keeps r \<Longrightarrow> R sc (snd (snd (attempts_loop r s p ks e sc)))"
proof (induction ks arbitrary: e sc)
  case (Cons k ks)
  then show ?case by (auto split: prod.split option.split dest: keepsD intro: R_trans)
qed (simp add: R_refl)

lemma preregister_keeps: "R sc (fold preregister steps sc)"
  by (induction steps arbitrary: sc) (auto intro: R_refl R_trans R_preregister)

lemma run_limited_keeps: "(\<And>i sc. R sc (snd (body i sc))) \<Longrightarrow> R sc (snd (run_limited env l limit ff n body sc))"
  unfolding run_limited_def Let_def using run_group_rel [of R body] R_refl R_trans by simp

lemma attempt_hook_keeps: "keeps r \<Longrightarrow> R sc (snd (runAttemptFailureHook r s p e sc))"
  by (auto simp: runAttemptFailureHook_def R_refl split: option.split intro: R_trans [OF R_failure] hook_keeps)

lemma dispatch_keeps: "keeps r \<Longrightarrow> R sc (snd (dispatchStepHook r s p e b sc))"
proof -
  assume r: "keeps r"
  have outer: "R sc (snd (dispatchOuterErrorHook r s p e sc))"
    using r by (auto simp: dispatchOuterErrorHook_def R_refl split: option.split intro: R_trans [OF R_failure] hook_keeps)
  have inner: "R sc (dispatchInnerFailureHook r s p sc)"
    using r by (auto simp: dispatchInnerFailureHook_def intro: hook_keeps)
  show ?thesis
    using r outer inner
    by (auto simp: dispatchStepHook_def Let_def keeps_def split: prod.split bool.split)
qed

lemma handler_keeps: "keeps r \<Longrightarrow> handler_for env r t = Some h \<Longrightarrow> R sc (snd (h s p sc))"
proof -
  assume r: "keeps r" and h: "handler_for env r t = Some h"
  have "R sc (snd (TryHandler env r s p sc))"
    unfolding TryHandler_def by (rule with_status_keeps) (simp add: r try_loop_keeps)
  moreover have "R sc (snd (DoHandler env r s p sc))"
    unfolding DoHandler_def by (rule with_status_keeps) (simp add: r do_loop_keeps)
  moreover have "R sc (snd (InParallelHandler env r s p sc))"
    unfolding InParallelHandler_def Let_def
  proof (rule with_status_keeps)
    fix sc
    show "R sc (snd (run_limited env ''in parallel'' (resolveLimit env (sf_in_parallel_limit (sfields s)) (length (step_in_parallel s)))
        (sf_in_parallel_fail_fast (sfields s)) (length (step_in_parallel s)) (parallel_body r p (step_in_parallel s))
        (if sf_in_parallel_fail_fast (sfields s) then sc else fold preregister (step_in_parallel s) sc)))"
      using r by (auto intro!: R_trans [OF preregister_keeps run_limited_keeps] run_limited_keeps
          simp: parallel_body_def keeps_def)
  qed
  ultimately show ?thesis
    using h R_leaf by (auto simp: handler_for_def split: if_splits)
qed

lemma across_keeps: "keeps r \<Longrightarrow> R sc (snd (executeAcross env r s p sc))"
  unfolding executeAcross_def Let_def
  by (intro with_status_keeps run_limited_keeps) (simp add: across_body_def keeps_def Let_def)

lemma attempts_keeps: "keeps r \<Longrightarrow> R sc (snd (executeWithAttempts r s p sc))"
proof -
  assume r: "keeps r"
  obtain ok e sc1 where loop: "attempts_loop r (strip_hooks s) p [1..sf_attempts (sfields s)] None sc = (ok, e, sc1)"
    by (cases "attempts_loop r (strip_hooks s) p [1..sf_attempts (sfields s)] None sc")
  define mid where "mid = (if ok then (case step_on_success s of None \<Rightarrow> (e, sc1)
      | Some h \<Rightarrow> (case r h (p @ ''/on_success'') sc1 of (None, sc2) \<Rightarrow> (e, sc2) | (Some e, sc2) \<Rightarrow> (Some e, sc2)))
      else runAttemptFailureHook r s p e sc1)"
  have 1: "R sc sc1"
    using attempts_loop_keeps [OF r, of sc "strip_hooks s" p "[1..sf_attempts (sfields s)]" None] loop by simp
  have 2: "R sc1 (snd mid)"
    unfolding mid_def using r
    by (auto simp: R_refl attempt_hook_keeps split: option.split prod.split dest: keepsD)
  have "executeWithAttempts r s p sc = (fst mid, run_hook r (step_ensure s) (p @ ''/ensure'') (snd mid))"
    by (cases mid) (simp add: executeWithAttempts_def loop flip: mid_def)
  then show ?thesis
    using R_trans [OF R_trans [OF 1 2] hook_keeps [OF r]] by simp
qed

lemma run_handler_keeps:
  assumes r: "keeps r" and h: "R sc (snd (h s p sc))"
  shows "R sc (snd (run_handler r h s p sc))"
proof -
  let ?d = "dispatchStepHook r s p (fst (h s p sc)) (sc_failure_count sc) (snd (h s p sc))"
  have "snd (run_handler r h s p sc) = run_hook r (step_ensure s) (p @ ''/ensure'') (snd ?d)"
    by (simp add: run_handler_def split_beta Let_def)
  then show ?thesis
    using R_trans [OF R_trans [OF h dispatch_keeps [OF r]] hook_keeps [OF r]] by simp
qed

lemma step_body_keeps: "keeps r \<Longrightarrow> R sc (snd (step_body env r s p sc))"
  unfolding step_body_def Let_def
  by (simp add: R_refl run_handler_keeps handler_keeps across_keeps attempts_keeps split: option.split)

lemma processStep_keeps: "keeps (processStep n env)"
proof (induction n)
  case (Suc n)
  then show ?case by (simp add: keeps_def step_body_keeps [unfolded keeps_def])
qed (simp add: keeps_def R_refl)

lemma process_step_keeps: "R sc (snd (process_step env s p sc))"
  using processStep_keeps by (simp add: process_step_def keeps_def)

end

end
