(* ===== verification/Step_Props.thy ===== *)
theory Step_Props
  imports Step_Engine
begin

text \<open>
  What the composite steps of the engine do: matrix expansion is a Cartesian product, the concurrency limits are
  the configured ones, job parameters are defaults, \<open>do\<close> stops at the first error, \<open>try\<close> swallows errors,
  retries return the error of the last failed attempt, hooks consume the errors they match, and the status that the store holds for
  a composite step is its outcome.
\<close>

section \<open>Matrix expansion\<close>

abbreviation radix :: "string list list \<Rightarrow> nat" where
  "radix vss \<equiv> prod_list (map length vss)"

lemma pick_values_snoc:
  "pick_values (xs @ [vs]) idx = (vs ! ((idx div radix xs) mod length vs)) # pick_values xs idx"
proof (induction xs arbitrary: idx)
  case (Cons u xs)
  then show ?case by (simp add: div_mult2_eq)
qed simp

lemma pick_values_period: "pick_values xs (idx + k * radix xs) = pick_values xs idx"
proof (induction xs arbitrary: idx k)
  case (Cons u xs)
  show ?case
  proof (cases "length u = 0")
    case False
    have "idx + k * radix (u # xs) = idx + length u * (k * radix xs)" by (simp add: algebra_simps)
    then have "(idx + k * radix (u # xs)) div length u = idx div length u + k * radix xs"
      and "(idx + k * radix (u # xs)) mod length u = idx mod length u"
      unfolding \<open>idx + k * radix (u # xs) = idx + length u * (k * radix xs)\<close> using False by simp_all
    then show ?thesis using Cons.IH by simp
  qed simp
qed simp

lemma radix_rev: "radix (rev vss) = radix vss"
  by (induction vss) simp_all

lemma upt_blocks: "[0..<n * m] = concat (map (\<lambda>a. map (\<lambda>b. b + a * m) [0..<m]) [0..<n])"
proof (induction n)
  case (Suc n)
  have "[0..<Suc n * m] = [0..<n * m] @ [n * m..<n * m + m]"
    using upt_add_eq_append [of 0 "n * m" m] by (simp add: add.commute)
  moreover have "[n * m..<n * m + m] = map (\<lambda>b. b + n * m) [0..<m]"
    using map_add_upt [of "n * m" m] by (simp add: add.commute)
  ultimately show ?case using Suc by simp
qed simp

lemma pick_values_product:
  "map (pick_values (rev vss)) [0..<radix vss] = product_lists vss"
proof (induction vss)
  case (Cons vs vss)
  let ?m = "radix vss"
  have block: "map (pick_values (rev (vs # vss))) (map (\<lambda>b. b + a * ?m) [0..<?m])
      = map (Cons (vs ! a)) (product_lists vss)" if a: "a < length vs" for a
  proof -
    have "pick_values (rev (vs # vss)) (b + a * ?m) = vs ! a # pick_values (rev vss) b" if "b < ?m" for b
      using that a pick_values_period [of "rev vss" b a] by (simp add: pick_values_snoc radix_rev)
    then have "map (pick_values (rev (vs # vss))) (map (\<lambda>b. b + a * ?m) [0..<?m])
        = map (Cons (vs ! a)) (map (pick_values (rev vss)) [0..<?m])"
      by simp
    then show ?thesis using Cons.IH by simp
  qed
  have "map (pick_values (rev (vs # vss))) [0..<radix (vs # vss)]
      = concat (map (\<lambda>a. map (pick_values (rev (vs # vss))) (map (\<lambda>b. b + a * ?m) [0..<?m])) [0..<length vs])"
    by (simp add: upt_blocks map_concat comp_def)
  also have "\<dots> = concat (map (\<lambda>a. map (Cons (vs ! a)) (product_lists vss)) [0..<length vs])"
    using block by (intro arg_cong [where f = concat] map_cong) auto
  also have "\<dots> = concat (map (\<lambda>v. map (Cons v) (product_lists vss)) vs)"
    by (metis (no_types, lifting) map_nth map_map comp_def map_eq_conv)
  finally show ?case by simp
qed simp

text \<open>The combinations of an \<open>across\<close> matrix are the Cartesian product of the value lists, in order with the
  last variable varying fastest, each once per position; each names all the variables in their order.\<close>

theorem generateCombinations_product:
  "map cb_values (generateCombinations vars) = product_lists (map av_values vars)
   \<and> cb_keys ` set (generateCombinations vars) \<subseteq> {map av_var vars}"
proof (cases "vars = []")
  case False
  have "map cb_values (generateCombinations vars)
      = map (pick_values (rev (map av_values vars))) [0..<radix (map av_values vars)]"
    using False by (simp add: generateCombinations_def comp_def)
  moreover have "cb_keys ` set (generateCombinations vars) \<subseteq> {map av_var vars}"
    using False by (auto simp: generateCombinations_def)
  ultimately show ?thesis by (simp only: pick_values_product simp_thms)
qed (simp add: generateCombinations_def)

section \<open>Limits\<close>

definition positive_limits :: "across_var list \<Rightarrow> int set" where
  "positive_limits vars = {m \<in> av_max_in_flight ` set vars. 0 < m}"

lemma across_limit_fold:
  "fold (\<lambda>v m. if av_max_in_flight v > 0 \<and> (m = 0 \<or> av_max_in_flight v < m) then av_max_in_flight v else m) vars 0
   = (if positive_limits vars = {} then 0 else Min (positive_limits vars))"
proof (induction vars rule: rev_induct)
  case (snoc v vars)
  let ?S = "positive_limits vars"
  have S: "positive_limits (vars @ [v])
      = (if av_max_in_flight v > 0 then insert (av_max_in_flight v) ?S else ?S)"
    by (auto simp: positive_limits_def)
  have fin: "finite ?S" by (simp add: positive_limits_def)
  have pos: "0 < Min ?S" if "?S \<noteq> {}"
    using that fin Min_in [of ?S] by (simp add: positive_limits_def)
  show ?case
  proof (cases "?S = {}")
    case False
    then have "Min (insert (av_max_in_flight v) ?S) = min (av_max_in_flight v) (Min ?S)"
      using fin by (rule Min_insert [rotated])
    with False show ?thesis using snoc S pos by (simp add: min_def)
  qed (use snoc S in auto)
qed (simp add: positive_limits_def)

text \<open>The concurrency of an \<open>across\<close> step is the smallest positive \<open>max_in_flight\<close> of its variables, and one
  (sequential) if no variable sets it.\<close>

theorem resolveAcrossLimit_min:
  "resolveAcrossLimit vars =
     (let S = {m \<in> av_max_in_flight ` set vars. 0 < m} in if S = {} then 1 else Min S)"
proof -
  have "Min (positive_limits vars) \<noteq> 0" if "positive_limits vars \<noteq> {}"
  proof -
    have "finite (positive_limits vars)" by (simp add: positive_limits_def)
    from Min_in [OF this that] show ?thesis by (auto simp: positive_limits_def)
  qed
  then show ?thesis
    by (auto simp: resolveAcrossLimit_def across_limit_fold Let_def simp flip: positive_limits_def)
qed

section \<open>Job parameters\<close>

lemma merge_params_get:
  assumes "gm_wf (cloneEnv e)"
  shows "gm_get (cloneEnv (mergeJobParams ps e)) k =
    (case gm_get (cloneEnv e) k of None \<Rightarrow> gm_get ps k | Some v \<Rightarrow> Some v)"
  using assms by (auto simp: mergeJobParams_def gm_get_merge cloneEnv_def split: option.splits)

lemma gm_merge_wf: "gm_wf m \<Longrightarrow> gm_wf (gm_merge m n)"
  by (induction m n rule: gm_merge.induct) simp_all

lemma merge_params_wf: "gm_wf ps \<Longrightarrow> gm_wf (cloneEnv e) \<Longrightarrow> gm_wf (cloneEnv (mergeJobParams ps e))"
  by (auto simp: mergeJobParams_def cloneEnv_def gm_merge_wf split: option.split)

definition step_env_get :: "step \<Rightarrow> string \<Rightarrow> string option" where
  "step_env_get s k =
     (case sf_config (sfields s) of None \<Rightarrow> None | Some c \<Rightarrow> gm_get (cloneEnv (tc_env c)) k)"

definition step_env_wf :: "step \<Rightarrow> bool" where
  "step_env_wf s \<longleftrightarrow> sf_task (sfields s) \<noteq> [] \<and>
     (case sf_config (sfields s) of None \<Rightarrow> False | Some c \<Rightarrow> gm_wf (cloneEnv (tc_env c)))"

lemma inject_env:
  assumes "step_env_wf s"
  shows "step_env_get (injectJobParams ps s) k =
    (case step_env_get s k of None \<Rightarrow> gm_get ps k | Some v \<Rightarrow> Some v)"
proof -
  obtain c where c: "sf_config (sfields s) = Some c" "gm_wf (cloneEnv (tc_env c))" "sf_task (sfields s) \<noteq> []"
    using assms by (auto simp: step_env_wf_def split: option.splits)
  show ?thesis
  proof (cases "ps = []")
    case False
    then have "step_env_get (injectJobParams ps s) k = gm_get (cloneEnv (mergeJobParams ps (tc_env c))) k"
      using c by (simp add: step_env_get_def injectJobParams_def inject_fields_def)
    then show ?thesis using c merge_params_get by (simp add: step_env_get_def)
  qed (use c in \<open>simp add: step_env_get_def injectJobParams_def inject_fields_def split: option.split\<close>)
qed

lemma inject_env_wf: "step_env_wf s \<Longrightarrow> gm_wf ps \<Longrightarrow> step_env_wf (injectJobParams ps s)"
  by (auto simp: step_env_wf_def injectJobParams_def inject_fields_def merge_params_wf split: option.splits)

lemma gm_get_fold_set:
  "gm_get (fold (\<lambda>(k, v). gm_set k v) kvs m) k =
     (case map_of (rev kvs) k of None \<Rightarrow> gm_get m k | Some v \<Rightarrow> Some v)"
  by (induction kvs arbitrary: m) (auto simp: map_add_Some_iff split: option.splits prod.splits)

lemma gm_wf_fold_set: "gm_wf m \<Longrightarrow> gm_wf (fold (\<lambda>(k, v). gm_set k v) kvs m)"
  by (induction kvs arbitrary: m) (auto split: prod.splits)

lemma expand_env:
  assumes "step_env_wf s"
  shows "step_env_get (expandAcrossStep s c vars) k =
      (case map_of (rev (zip (cb_keys c) (cb_values c))) k of None \<Rightarrow> step_env_get s k | Some v \<Rightarrow> Some v)"
    and "step_env_wf (expandAcrossStep s c vars)"
  using assms
  by (auto simp: step_env_get_def step_env_wf_def expandAcrossStep_def across_fields_def across_env_def
      cloneEnv_def [of "Some _"] gm_get_fold_set gm_wf_fold_set split: option.splits)

text \<open>The environment of a task of an expanded \<open>across\<close> step: the variables of the combination win over the
  environment of the step, which wins over the parameters of the job; the parameters are injected again when the expanded
  step is processed, which changes nothing.\<close>

theorem env_precedence:
  assumes "step_env_wf s" and "gm_wf ps"
  shows "step_env_get (injectJobParams ps (expandAcrossStep (injectJobParams ps s) c vars)) k =
    (case map_of (rev (zip (cb_keys c) (cb_values c))) k of
       Some v \<Rightarrow> Some v
     | None \<Rightarrow> (case step_env_get s k of Some v \<Rightarrow> Some v | None \<Rightarrow> gm_get ps k))"
  using assms
  by (simp add: inject_env expand_env inject_env_wf split: option.split)

definition env_sample :: step where
  "env_sample = leaf_step (zero_fields\<lparr>sf_task := ''t'',
     sf_config := Some (zero_task_config\<lparr>tc_env := Some [(''A'', ''step''), (''B'', ''step'')]\<rparr>)\<rparr>)"

theorem env_precedence_witness:
  "let ps = [(''B'', ''job''), (''C'', ''job'')]; c = \<lparr>cb_keys = [''A''], cb_values = [''across'']\<rparr>;
       s = injectJobParams ps (expandAcrossStep (injectJobParams ps env_sample) c []) in
   map (step_env_get s) [''A'', ''B'', ''C''] = [Some ''across'', Some ''step'', Some ''job'']"
proof -
  have "step_env_wf env_sample" "gm_wf [(''B'', ''job''), (''C'', ''job'')]"
    by (simp_all add: step_env_wf_def env_sample_def sample_defs gm_wf_def cloneEnv_def)
  note env = env_precedence [OF this, where c = "\<lparr>cb_keys = [''A''], cb_values = [''across'']\<rparr>" and vars = "[]"]
  show ?thesis
    by (simp add: Let_def env) (simp add: step_env_get_def env_sample_def sample_defs gm_get_def cloneEnv_def)
qed

section \<open>The status that the store holds\<close>

abbreviation sets_ok :: "'w step_env \<Rightarrow> bool" where
  "sets_ok env \<equiv> \<forall>n. env_set_fails env n = None"

abbreviation put_status :: "'w step_env \<Rightarrow> string \<Rightarrow> string \<Rightarrow> 'w step_ctx \<Rightarrow> 'w step_ctx" where
  "put_status env key st sc \<equiv> snd (storage_set env key (status_payload st) sc)"

definition recorded_status :: "'w step_env \<Rightarrow> string \<Rightarrow> 'w step_ctx \<Rightarrow> string option" where
  "recorded_status env key sc =
     (case find_task (task_path (env_namespace env) key) (sc_store sc) of None \<Rightarrow> None | Some t \<Rightarrow> t_status t)"

lemma set_ok: "sets_ok env \<Longrightarrow> storage_set env key v sc =
    (None, sc\<lparr>sc_sets := sc_sets sc + 1, sc_store := store_Set (env_namespace env) key v (sc_store sc)\<rparr>)"
  by (simp add: storage_set_def)

lemma set_count [simp]:
  "sc_failure_count (snd (storage_set env key v sc)) = sc_failure_count sc"
  "sc_executed (snd (storage_set env key v sc)) = sc_executed sc"
  by (simp_all add: storage_set_def split: option.split)

lemma put_status_recorded: "sets_ok env \<Longrightarrow> recorded_status env key (put_status env key st sc) = Some st"
  by (auto simp: set_ok recorded_status_def find_task_Set status_payload_def new_task_def merge_task_def
      json_extract_def column_text_def coalesce_def gm_get_def split: option.splits)

lemma with_status_ok:
  assumes "sets_ok env"
  shows "with_status env key label final run sc =
    (let (e, sc2) = run (put_status env key ''pending'' sc) in (e, put_status env key (final e) sc2))"
  by (auto simp: with_status_def set_ok [OF assms] split: prod.split)

lemma with_status_recorded:
  assumes "sets_ok env"
  shows "recorded_status env key (snd (with_status env key label final run sc))
    = Some (final (fst (with_status env key label final run sc)))"
  using assms by (simp add: with_status_ok put_status_recorded split_beta Let_def)

text \<open>Unless a write to the store fails, the status that the store holds for a composite step after it has run is its
  outcome: \<open>success\<close> exactly if \<open>do\<close>, \<open>in_parallel\<close> or \<open>across\<close> returned no error; \<open>try\<close> returns none and is a success.\<close>

theorem composite_status_is_outcome:
  assumes "sets_ok env"
  shows "let key = BaseStorageKey env @ ''/'' @ p in
    recorded_status env (key @ ''/do'') (snd (DoHandler env rec s p sc))
      = Some (statusFromErr (fst (DoHandler env rec s p sc)))
    \<and> recorded_status env (key @ ''/in_parallel'') (snd (InParallelHandler env rec s p sc))
      = Some (statusFromErr (fst (InParallelHandler env rec s p sc)))
    \<and> recorded_status env (key @ ''/across'') (snd (executeAcross env rec s p sc))
      = Some (statusFromErr (fst (executeAcross env rec s p sc)))
    \<and> fst (TryHandler env rec s p sc) = None
    \<and> recorded_status env (key @ ''/try'') (snd (TryHandler env rec s p sc)) = Some ''success''"
proof -
  note recorded = with_status_recorded [OF assms]
  have "recorded_status env (BaseStorageKey env @ ''/'' @ p @ ''/do'') (snd (DoHandler env rec s p sc))
      = Some (statusFromErr (fst (DoHandler env rec s p sc)))"
    unfolding DoHandler_def by (rule recorded)
  moreover have "recorded_status env (BaseStorageKey env @ ''/'' @ p @ ''/in_parallel'') (snd (InParallelHandler env rec s p sc))
      = Some (statusFromErr (fst (InParallelHandler env rec s p sc)))"
    unfolding InParallelHandler_def Let_def by (rule recorded)
  moreover have "recorded_status env (BaseStorageKey env @ ''/'' @ p @ ''/across'') (snd (executeAcross env rec s p sc))
      = Some (statusFromErr (fst (executeAcross env rec s p sc)))"
    unfolding executeAcross_def Let_def by (rule recorded)
  moreover have "recorded_status env (BaseStorageKey env @ ''/'' @ p @ ''/try'') (snd (TryHandler env rec s p sc)) = Some ''success''"
    unfolding TryHandler_def by (rule recorded)
  moreover have "fst (TryHandler env rec s p sc) = None"
    by (simp add: TryHandler_def with_status_ok [OF assms])
  ultimately show ?thesis by (simp add: Let_def)
qed

text \<open>A run with an empty store and leaf steps that always fail.\<close>

definition sample_ctx :: "nat step_ctx" where
  "sample_ctx = \<lparr>sc_executed = [], sc_preregistered = [], sc_failure_count = 0, sc_last_failure = FailureKindNone,
     sc_store = empty_db, sc_sets = 0, sc_world = 0\<rparr>"

definition sample_env :: "nat step_env" where
  "sample_env = \<lparr>env_namespace = [], env_run_id = ''r'', env_job_name = ''j'', env_max_in_flight = 0,
     env_job_params = [], env_set_fails = (\<lambda>_. None), env_ctx_done = (\<lambda>_. False), env_pick = (\<lambda>_ _. None),
     env_handlers = (\<lambda>_. Some (\<lambda>s p sc. (Some (TaskFailed (sf_task (sfields s)) 1), sc)))\<rparr>"

theorem composite_status_is_outcome_witness:
  "recorded_status sample_env ''/pipeline/r/jobs/j/0/do''
     (snd (DoHandler sample_env (\<lambda>s p sc. (Some (TaskFailed ''t'' 1), sc)) (do_step [task_step ''t'']) ''0'' sample_ctx))
   = Some ''failure''"
proof -
  have "sets_ok sample_env" by (simp add: sample_env_def)
  from composite_status_is_outcome [OF this, of "''0''" "\<lambda>s p sc. (Some (TaskFailed ''t'' 1), sc)"
      "do_step [task_step ''t'']" sample_ctx]
  show ?thesis
    by (simp add: BaseStorageKey_def statusFromErr_def DoHandler_def with_status_ok sample_env_def do_step_def split_beta)
qed

section \<open>do\<close>

lemma do_loop_error:
  "do_loop rec p n k ss sc = (Some e, sc') \<longleftrightarrow>
     (\<exists>i<length ss. \<exists>sci. do_loop rec p n k (take i ss) sc = (None, sci)
        \<and> rec (ss ! i) (p @ ''/do/'' @ zeroPadWithLength (k + i) n) sci = (Some e, sc'))"
proof (induction ss arbitrary: k sc)
  case (Cons s ss)
  obtain r sc1 where step: "rec s (p @ ''/do/'' @ zeroPadWithLength k n) sc = (r, sc1)"
    by (cases "rec s (p @ ''/do/'' @ zeroPadWithLength k n) sc")
  show ?case
  proof (cases r)
    case None
    then show ?thesis using step Cons.IH [of "Suc k" sc1] by (simp add: Ex_less_Suc2)
  next
    case (Some e')
    then show ?thesis using step by (auto simp: Ex_less_Suc2)
  qed
qed simp

text \<open>\<open>do\<close> runs its steps in order and stops at the first error: it returns \<open>e\<close> exactly if some step returned
  \<open>e\<close> after all steps before it had returned nothing, and then no later step runs and \<open>failure\<close> is recorded.\<close>

theorem do_stops_at_first_error:
  assumes "sets_ok env"
  shows "let key = BaseStorageKey env @ ''/'' @ p @ ''/do'' in
    DoHandler env rec s p sc = (Some e, sc') \<longleftrightarrow>
    (\<exists>i<length (step_do s). \<exists>sci sce.
       do_loop rec p (length (step_do s)) 0 (take i (step_do s)) (put_status env key ''pending'' sc) = (None, sci)
       \<and> rec (step_do s ! i) (p @ ''/do/'' @ zeroPadWithLength i (length (step_do s))) sci = (Some e, sce)
       \<and> sc' = put_status env key ''failure'' sce)"
proof -
  let ?key = "BaseStorageKey env @ ''/'' @ p @ ''/do''"
  let ?loop = "do_loop rec p (length (step_do s)) 0 (step_do s) (put_status env ?key ''pending'' sc)"
  have "DoHandler env rec s p sc = (Some e, sc') \<longleftrightarrow>
      (\<exists>sce. ?loop = (Some e, sce) \<and> sc' = put_status env ?key ''failure'' sce)"
    unfolding DoHandler_def with_status_ok [OF assms]
    by (cases ?loop) (auto simp: statusFromErr_def)
  then show ?thesis by (auto simp: do_loop_error Let_def)
qed

definition failing :: "nat runner" where
  "failing s p sc = (Some (TaskFailed (sf_task (sfields s)) 1), sc)"

theorem do_stops_at_first_error_witness:
  "let key = BaseStorageKey sample_env @ ''/0/do'' in
   DoHandler sample_env failing (do_step [task_step ''a'', task_step ''b'']) ''0'' sample_ctx =
     (Some (TaskFailed ''a'' 1), put_status sample_env key ''failure'' (put_status sample_env key ''pending'' sample_ctx))"
proof -
  have "sets_ok sample_env" by (simp add: sample_env_def)
  from do_stops_at_first_error [OF this, of "''0''" failing "do_step [task_step ''a'', task_step ''b'']" sample_ctx
      "TaskFailed ''a'' 1"]
  show ?thesis
    by (simp add: Let_def do_step_def) (rule exI [of _ 0], simp add: failing_def task_step_def leaf_step_def task_fields_def)
qed

section \<open>try\<close>

lemma try_loop_count:
  assumes "\<And>s p sc. sc_failure_count sc \<le> sc_failure_count (snd (rec s p sc))" and "b \<le> sc_failure_count sc"
  shows "b \<le> sc_failure_count (try_loop rec p n b k ss sc)"
  using assms(2)
proof (induction ss arbitrary: k sc)
  case (Cons s ss)
  then show ?case
    using assms(1) [of sc s "p @ ''/try/'' @ zeroPadWithLength k n"]
    by (auto simp: record_failure_def split: prod.split option.split)
qed simp

lemma try_loop_clean:
  assumes mono: "\<And>s p sc. sc_failure_count sc \<le> sc_failure_count (snd (rec s p sc))"
    and "sc_failure_count sc = b"
  shows "sc_failure_count (try_loop rec p n b k ss sc) = b \<longleftrightarrow>
    (\<forall>i<length ss. \<exists>sci. rec (ss ! i) (p @ ''/try/'' @ zeroPadWithLength (k + i) n)
         (try_loop rec p n b k (take i ss) sc) = (None, sci) \<and> sc_failure_count sci = b)"
  using assms(2)
proof (induction ss arbitrary: k sc)
  case (Cons s ss)
  obtain r sc1 where step: "rec s (p @ ''/try/'' @ zeroPadWithLength k n) sc = (r, sc1)"
    by (cases "rec s (p @ ''/try/'' @ zeroPadWithLength k n) sc")
  have le: "b \<le> sc_failure_count sc1"
    using mono [of sc s "p @ ''/try/'' @ zeroPadWithLength k n"] step Cons.prems by simp
  show ?case
  proof (cases "r = None \<and> sc_failure_count sc1 = b")
    case True
    then show ?thesis using step Cons.IH [of sc1 "Suc k"] by (simp add: All_less_Suc2)
  next
    case False
    then have "sc_failure_count (try_loop rec p n b k (s # ss) sc) \<noteq> b"
      using step le by (auto simp: record_failure_def split: option.split)
    with False show ?thesis using step by (auto simp: All_less_Suc2)
  qed
qed simp

text \<open>A failure inside a \<open>try\<close> block is never lost, though \<open>try\<close> itself returns no error: the failure count of
  the run is what it was before exactly if all steps of the block ran, each returning no error and counting no failure.\<close>

theorem try_counts_failures:
  assumes "sets_ok env" and "\<And>s p sc. sc_failure_count sc \<le> sc_failure_count (snd (rec s p sc))"
  shows "fst (TryHandler env rec s p sc) = None
    \<and> sc_failure_count sc \<le> sc_failure_count (snd (TryHandler env rec s p sc))
    \<and> (sc_failure_count (snd (TryHandler env rec s p sc)) = sc_failure_count sc \<longleftrightarrow>
       (\<forall>i<length (step_try s). \<exists>sci. sc_failure_count sci = sc_failure_count sc
          \<and> rec (step_try s ! i) (p @ ''/try/'' @ zeroPadWithLength i (length (step_try s)))
              (try_loop rec p (length (step_try s)) (sc_failure_count sc) 0 (take i (step_try s))
                 (put_status env (BaseStorageKey env @ ''/'' @ p @ ''/try'') ''pending'' sc)) = (None, sci)))"
proof -
  let ?sc1 = "put_status env (BaseStorageKey env @ ''/'' @ p @ ''/try'') ''pending'' sc"
  have "fst (TryHandler env rec s p sc) = None"
    and count: "sc_failure_count (snd (TryHandler env rec s p sc))
      = sc_failure_count (try_loop rec p (length (step_try s)) (sc_failure_count sc) 0 (step_try s) ?sc1)"
    by (simp_all add: TryHandler_def with_status_ok [OF assms(1)])
  moreover have "sc_failure_count sc \<le> sc_failure_count (try_loop rec p (length (step_try s)) (sc_failure_count sc) 0 (step_try s) ?sc1)"
    using assms(2) by (intro try_loop_count) simp_all
  moreover have "sc_failure_count ?sc1 = sc_failure_count sc" by simp
  note clean = try_loop_clean [OF assms(2) this, where k = 0 and p = p and n = "length (step_try s)" and ss = "step_try s"]
  ultimately show ?thesis using clean by (auto simp: conj_commute)
qed

theorem try_counts_failures_witness:
  "let r = (\<lambda>s p sc. (Some (TaskFailed ''t'' 1), sc)); res = TryHandler sample_env r (try_step [task_step ''t'']) ''0'' sample_ctx in
   fst res = None \<and> sc_failure_count (snd res) \<noteq> 0"
proof -
  have "sets_ok sample_env" by (simp add: sample_env_def)
  from try_counts_failures [OF this, of "\<lambda>s p sc. (Some (TaskFailed ''t'' 1), sc)" "try_step [task_step ''t'']" "''0''" sample_ctx]
  show ?thesis by (simp add: try_step_def Let_def) (auto simp: sample_ctx_def dest: spec [of _ 0])
qed

section \<open>attempts\<close>

lemma attempts_loop_keeps_error: "fst (snd (attempts_loop rec s p ks (Some e) sc)) \<noteq> None"
proof (induction ks arbitrary: e sc)
  case (Cons k ks)
  show ?case by (cases "rec s (p @ ''/attempt/'' @ itoa k) sc") (simp add: Cons del: not_None_eq split: option.split)
qed simp

definition no_outcome_hooks :: "step \<Rightarrow> bool" where
  "no_outcome_hooks s \<longleftrightarrow>
     step_on_success s = None \<and> step_on_abort s = None \<and> step_on_error s = None \<and> step_on_failure s = None"

text \<open>Retries do not rescue a step: without hooks on its outcome, a step with \<open>attempts\<close> ends without error
  exactly if its first attempt does. The error of a failed attempt is still returned after a later attempt has
  succeeded.\<close>

theorem attempts_return_first_error:
  assumes "no_outcome_hooks s" and "1 \<le> sf_attempts (sfields s)"
  shows "fst (executeWithAttempts rec s p sc) = None \<longleftrightarrow> fst (rec (strip_hooks s) (p @ ''/attempt/1'') sc) = None"
proof -
  have ks: "[1..sf_attempts (sfields s)] = 1 # [2..sf_attempts (sfields s)]"
    using assms(2) by (simp add: upto_rec1)
  have one: "itoa 1 = ''1''" by code_simp
  obtain r sc1 where first: "rec (strip_hooks s) (p @ ''/attempt/1'') sc = (r, sc1)"
    by (cases "rec (strip_hooks s) (p @ ''/attempt/1'') sc")
  obtain ok e sc2 where loop: "attempts_loop rec (strip_hooks s) p [1..sf_attempts (sfields s)] None sc = (ok, e, sc2)"
    by (cases "attempts_loop rec (strip_hooks s) p [1..sf_attempts (sfields s)] None sc")
  have result: "fst (executeWithAttempts rec s p sc) = e"
    using loop assms(1)
    by (auto simp: executeWithAttempts_def runAttemptFailureHook_def no_outcome_hooks_def split: option.split)
  show ?thesis
  proof (cases r)
    case None
    then have "e = None" using loop first by (simp add: ks one)
    with result None first show ?thesis by simp
  next
    case (Some e')
    then have "attempts_loop rec (strip_hooks s) p [2..sf_attempts (sfields s)] (Some e') sc1 = (ok, e, sc2)"
      using loop first by (simp add: ks one)
    then have "e \<noteq> None"
      using attempts_loop_keeps_error [of rec "strip_hooks s" p "[2..sf_attempts (sfields s)]" e' sc1] by simp
    with result Some first show ?thesis by simp
  qed
qed

text \<open>A task that fails on its first run and succeeds on the second, retried.\<close>

definition flaky :: "nat runner" where
  "flaky s p sc =
     (if sc_world sc = 0 then Some (TaskFailed (sf_task (sfields s)) 1) else None, sc\<lparr>sc_world := sc_world sc + 1\<rparr>)"

definition retried_step :: step where
  "retried_step = leaf_step ((task_fields ''t'' [] [])\<lparr>sf_attempts := 2\<rparr>)"

theorem attempts_return_first_error_witness:
  "fst (executeWithAttempts flaky retried_step ''0'' sample_ctx) \<noteq> None
   \<and> sc_world (snd (executeWithAttempts flaky retried_step ''0'' sample_ctx)) = 2"
proof -
  have hyps: "no_outcome_hooks retried_step" "1 \<le> sf_attempts (sfields retried_step)"
    by (simp_all add: no_outcome_hooks_def retried_step_def leaf_step_def)
  have "fst (executeWithAttempts flaky retried_step ''0'' sample_ctx) \<noteq> None"
    unfolding attempts_return_first_error [OF hyps] by (simp add: flaky_def sample_ctx_def)
  moreover have "[1..2] = [1, 2 :: int]" by (simp add: upto_rec1)
  ultimately show ?thesis
    by (simp add: executeWithAttempts_def retried_step_def leaf_step_def strip_hooks_def flaky_def sample_ctx_def
        run_hook_def)
qed

section \<open>Hooks\<close>

text \<open>The hook that takes an error.\<close>

definition matching_hook :: "step \<Rightarrow> go_error \<Rightarrow> step option" where
  "matching_hook s e =
     (if isAbortError e \<and> step_on_abort s \<noteq> None then step_on_abort s
      else if isErroredError e \<and> step_on_error s \<noteq> None then step_on_error s
      else if isFailedError e then step_on_failure s
      else None)"

lemma outer_hook_matches: "fst (dispatchOuterErrorHook rec s p (Some e) sc) \<longleftrightarrow> matching_hook s e \<noteq> None"
  by (auto simp: dispatchOuterErrorHook_def matching_hook_def)

text \<open>C15. A step whose handler returns an error passes it on unless it has a hook for that kind of error, whatever the hooks
  themselves return; \<open>ensure\<close> never changes the outcome. A step whose handler returns no error fails only when its
  \<open>on_success\<close> hook does.\<close>

theorem hooks_decide_the_outcome:
  assumes "handler s p sc = (r, sc1)"
  shows "fst (run_handler rec handler s p sc) =
    (case r of
       Some e \<Rightarrow> if matching_hook s e = None then Some e else None
     | None \<Rightarrow> (case step_on_success s of
                  Some h \<Rightarrow> if sc_failure_count sc1 > sc_failure_count sc then None
                            else fst (rec h (p @ ''/on_success'') sc1)
                | None \<Rightarrow> None))"
proof (cases r)
  case (Some e)
  then show ?thesis
    using assms outer_hook_matches [of rec s p e sc1]
    by (auto simp: run_handler_def dispatchStepHook_def split_beta split: bool.split)
next
  case None
  then show ?thesis
    using assms
    by (auto simp: run_handler_def dispatchStepHook_def dispatchOuterErrorHook_def split_beta split: option.split)
qed

theorem hooks_decide_the_outcome_witness:
  "fst (run_handler failing failing
     (Step (task_fields ''t'' [] []) [] [] [] [] None None None None (Some (task_step ''h''))) ''0'' sample_ctx) = None"
proof -
  let ?s = "Step (task_fields ''t'' [] []) [] [] [] [] None None None None (Some (task_step ''h''))"
  have "failing ?s ''0'' sample_ctx = (Some (TaskFailed ''t'' 1), sample_ctx)"
    by (simp add: failing_def task_fields_def)
  from hooks_decide_the_outcome [of failing ?s "''0''" sample_ctx "Some (TaskFailed ''t'' 1)" sample_ctx failing, OF this] show ?thesis
    by (simp add: matching_hook_def isAbortError_def isErroredError_def isFailedError_def)
qed

end
