(* ===== verification/Task_Handler.thy ===== *)
theory Task_Handler
  imports Step_Laws Step_Props
begin

text \<open>
  Task steps, \<open>runtime/backwards/task_handler.go\<close>: loading the task configuration (inline, from a volume, from a URL),
  mounts and cache volumes, secrets in the environment (\<open>runtime/support/secrets.go\<close>), running the
  container and recording its progress, assertions, and \<open>parallelism\<close>. The container driver, the secrets manager,
  HTTP, the YAML decoder and the clock are the fields of \<open>task_driver\<close>. The world of a task
  is what \<open>StepContext\<close> keeps of volumes. Deployments without \<open>CacheS3\<close> are modelled: \<open>runCacheRestoreTask\<close> and
  \<open>runCachePersistTasks\<close> then do nothing. Handlers of the leaf steps other than tasks are parameters of the
  engine (\<open>env_handlers\<close>).
\<close>

section \<open>Driver and world\<close>

record mount =
  mt_name :: string
  mt_path :: string
  mt_size_gb :: int

record orchestra_task =
  ot_id :: string
  ot_command :: "string list"
  ot_env :: "(string, string) gomap option"
  ot_image :: string
  ot_mounts :: "mount list"
  ot_privileged :: bool
  ot_work_dir :: string
  ot_limits :: container_limits

text \<open>What ends the polling of a container: it is done, the context of the step ends (with its deadline or by
  cancellation), or asking for the status fails (with an error that may itself be a deadline error).\<close>

datatype wait_event = Exited int | DeadlineHit | ContextCancelled | StatusFailed string bool

text \<open>A started container: what the ticker saw of the logs at each tick, the whole output, the end.\<close>

record container_run =
  cr_ticks :: "json list list"
  cr_logs :: "json list"
  cr_stdout :: string
  cr_stderr :: string
  cr_end :: wait_event
  cr_elapsed :: string

datatype secret_result = Secret string | SecretNotFound | SecretError string

record task_driver =
  td_run_container :: "nat \<Rightarrow> int \<Rightarrow> orchestra_task \<Rightarrow> string + container_run"
  td_create_volume :: "string \<Rightarrow> int \<Rightarrow> string option"
  td_name :: string
  td_read_volume :: "(string \<Rightarrow> string \<Rightarrow> string + (string \<times> string) list) option"
  td_http :: "string \<Rightarrow> string + string"
  td_yaml :: "string \<Rightarrow> string + task_config"
  td_secrets :: "(string \<Rightarrow> string \<Rightarrow> secret_result) option"
  td_pipeline_id :: string
  td_clock :: "nat \<Rightarrow> string"
  td_elapsed :: "nat \<Rightarrow> string"

record task_world =
  tw_known_volumes :: "(string, string) gomap"
  tw_cache_volumes :: "(string, string) gomap"
  tw_cache_objects :: "(string, string) gomap"
  tw_time :: nat
  tw_containers :: nat

type_synonym task_ctx = "task_world step_ctx"
type_synonym task_env = "task_world step_env"

section \<open>Images, commands and volumes\<close>

definition after_last_slash :: "string \<Rightarrow> string" where
  "after_last_slash s = last (SplitChar (CHR ''/'') s)"

definition source_str :: "task_config \<Rightarrow> string \<Rightarrow> string" where
  "source_str cfg key =
     (case gm_get (ir_source (tc_image_resource cfg)) key of Some (JStr s) \<Rightarrow> s | _ \<Rightarrow> [])"

definition resolveImage :: "task_config \<Rightarrow> string" where
  "resolveImage cfg =
     (if tc_image cfg \<noteq> [] then tc_image cfg
      else
        (let repo = source_str cfg ''repository''; tag = source_str cfg ''tag'' in
         if repo = [] then []
         else if tag \<noteq> [] \<and> \<not> Contains (after_last_slash repo) '':'' then repo @ '':'' @ tag
         else repo))"

definition buildCommand :: "task_config \<Rightarrow> string list" where
  "buildCommand cfg = (case tc_run cfg of None \<Rightarrow> [] | Some r \<Rightarrow> run_path r # run_args r)"

definition resourceVolumeName :: "string \<Rightarrow> string \<Rightarrow> string" where
  "resourceVolumeName runID name = ''vol-'' @ runID @ ''-'' @ name"

fun mount_volumes :: "string \<Rightarrow> (string \<times> int) list \<Rightarrow> task_world \<Rightarrow> mount list \<times> task_world" where
  "mount_volumes runID [] w = ([], w)"
| "mount_volumes runID ((name, sz) # rest) w =
     (let volName = (case gm_get (tw_known_volumes w) name of Some v \<Rightarrow> v | None \<Rightarrow> resourceVolumeName runID name);
          w1 = (case gm_get (tw_known_volumes w) name of
                  Some v \<Rightarrow> w
                | None \<Rightarrow> w\<lparr>tw_known_volumes := gm_set name volName (tw_known_volumes w)\<rparr>);
          (ms, w2) = mount_volumes runID rest w1
      in (\<lparr>mt_name = volName, mt_path = name, mt_size_gb = sz\<rparr> # ms, w2))"

definition resolveInputsOutputs :: "string \<Rightarrow> task_config \<Rightarrow> task_world \<Rightarrow> mount list \<times> task_world" where
  "resolveInputsOutputs runID cfg =
     mount_volumes runID (map (\<lambda>x. (out_name x, out_size_gb x)) (tc_outputs cfg)
                          @ map (\<lambda>x. (in_name x, in_size_gb x)) (tc_inputs cfg))"

definition sanitizeCachePath :: "string \<Rightarrow> string" where
  "sanitizeCachePath path =
     TrimChar (CHR ''-'')
       (map (\<lambda>c. if (CHR ''a'' \<le> c \<and> c \<le> CHR ''z'') \<or> is_digit c then c else CHR ''-'') (ToLower path))"

definition cache_lookup_key :: "string \<Rightarrow> cache \<Rightarrow> string" where
  "cache_lookup_key taskName c =
     (if cache_scope c = ''task'' then taskName @ ''/'' @ cache_path c else cache_path c)"

definition cache_volume_name :: "string \<Rightarrow> cache \<Rightarrow> string" where
  "cache_volume_name taskName c =
     (if cache_scope c = ''task''
      then ''cache-'' @ sanitizeCachePath taskName @ ''-'' @ sanitizeCachePath (cache_path c)
      else ''cache-'' @ sanitizeCachePath (cache_path c))"

text \<open>The volume of a cache that has none yet: its name is bound, and its object kept if the driver can create it.\<close>

definition bind_cache :: "task_driver \<Rightarrow> string \<Rightarrow> cache \<Rightarrow> task_world \<Rightarrow> task_world" where
  "bind_cache d taskName c w =
     (let key = cache_lookup_key taskName c; volName = cache_volume_name taskName c;
          w1 = w\<lparr>tw_cache_volumes := gm_set key volName (tw_cache_volumes w)\<rparr>
      in if td_create_volume d volName (cache_size_gb c) = None
         then w1\<lparr>tw_cache_objects := gm_set key volName (tw_cache_objects w1)\<rparr>
         else w1)"

fun resolveCaches :: "task_driver \<Rightarrow> string \<Rightarrow> cache list \<Rightarrow> task_world \<Rightarrow> mount list \<times> task_world" where
  "resolveCaches d taskName [] w = ([], w)"
| "resolveCaches d taskName (c # cs) w =
     (let (volName, w1) = (case gm_get (tw_cache_volumes w) (cache_lookup_key taskName c) of
                             Some v \<Rightarrow> (v, w)
                           | None \<Rightarrow> (cache_volume_name taskName c, bind_cache d taskName c w));
          (ms, w2) = resolveCaches d taskName cs w1
      in (\<lparr>mt_name = volName, mt_path = cache_path c, mt_size_gb = cache_size_gb c\<rparr> # ms, w2))"

definition resolveMounts ::
  "task_driver \<Rightarrow> string \<Rightarrow> task_config \<Rightarrow> string \<Rightarrow> task_world \<Rightarrow> mount list \<times> task_world" where
  "resolveMounts d runID cfg taskName w =
     (let (cs, w1) = resolveCaches d taskName (tc_caches cfg) w;
          (ios, w2) = resolveInputsOutputs runID cfg w1
      in (cs @ ios, w2))"

section \<open>Secrets\<close>

definition SecretPrefix :: string where "SecretPrefix = ''secret:''"

definition IsSystemKey :: "string \<Rightarrow> bool" where
  "IsSystemKey key \<longleftrightarrow> key \<in> {''driver'', ''driver_config'', ''webhook_secret''}"

definition PipelineScope :: "string \<Rightarrow> string" where
  "PipelineScope pipelineID = ''pipeline/'' @ pipelineID"

definition GlobalScope :: string where "GlobalScope = ''global''"

definition secret_failure :: "string \<Rightarrow> string \<Rightarrow> string \<Rightarrow> go_error" where
  "secret_failure key scope m =
     Wrapped (''could not retrieve secret '' @ go_quote key @ '' from scope '' @ go_quote scope) (Plain m)"

text \<open>The result is the value and whether it was a secret.\<close>

definition ResolveSecretString ::
  "(string \<Rightarrow> string \<Rightarrow> secret_result) option \<Rightarrow> string \<Rightarrow> string \<Rightarrow> go_error + string \<times> bool" where
  "ResolveSecretString mgr pipelineID v =
     (case mgr of
        None \<Rightarrow> Inr (v, False)
      | Some get \<Rightarrow>
          if \<not> HasPrefix v SecretPrefix then Inr (v, False)
          else
            (let key = TrimPrefix v SecretPrefix in
             if IsSystemKey key then Inl (Plain (''secret key '' @ go_quote key @ '' is reserved for system use''))
             else
               (case get (PipelineScope pipelineID) key of
                  Secret val \<Rightarrow> Inr (val, True)
                | SecretError m \<Rightarrow> Inl (secret_failure key (PipelineScope pipelineID) m)
                | SecretNotFound \<Rightarrow>
                    (case get GlobalScope key of
                       Secret val \<Rightarrow> Inr (val, True)
                     | SecretError m \<Rightarrow> Inl (secret_failure key GlobalScope m)
                     | SecretNotFound \<Rightarrow>
                         Inl (Wrapped (''secret '' @ go_quote key @ '' not found in scopes ''
                                @ go_quote (PipelineScope pipelineID) @ '' or '' @ go_quote GlobalScope)
                               (Plain ''secret not found''))))))"

fun resolve_entries ::
  "(string \<Rightarrow> string \<Rightarrow> secret_result) option \<Rightarrow> string \<Rightarrow> string \<Rightarrow> (string, string) gomap
   \<Rightarrow> go_error + (string, string) gomap" where
  "resolve_entries mgr pid taskName [] = Inr []"
| "resolve_entries mgr pid taskName ((k, v) # rest) =
     (case ResolveSecretString mgr pid v of
        Inl e \<Rightarrow> Inl (Wrapped (''task '' @ go_quote taskName @ '' env '' @ go_quote k) e)
      | Inr (val, _) \<Rightarrow> ebind (resolve_entries mgr pid taskName rest) (\<lambda>m. Inr ((k, val) # m)))"

definition resolveEnvSecrets ::
  "task_driver \<Rightarrow> string \<Rightarrow> (string, string) gomap option \<Rightarrow> go_error + (string, string) gomap option" where
  "resolveEnvSecrets d taskName env =
     (if td_secrets d = None \<or> cloneEnv env = [] then Inr env
      else ebind (resolve_entries (td_secrets d) (td_pipeline_id d) taskName (cloneEnv env)) (\<lambda>m. Inr (Some m)))"

section \<open>Loading a task configuration\<close>

definition extractFileFromTar :: "(string \<times> string) list \<Rightarrow> string \<Rightarrow> string + string" where
  "extractFileFromTar entries targetPath =
     (case find (\<lambda>(name, data). name = targetPath \<or> TrimPrefix name ''./'' = targetPath) entries of
        Some (name, data) \<Rightarrow> Inr data
      | None \<Rightarrow> Inl (''file '' @ go_quote targetPath @ '' not found in tar archive''))"

definition prefix_error :: "string \<Rightarrow> string + 'a \<Rightarrow> string + 'a" where
  "prefix_error label r = (case r of Inl m \<Rightarrow> Inl (label @ '': '' @ m) | Inr x \<Rightarrow> Inr x)"

definition loadRawBytesFromVolume :: "task_driver \<Rightarrow> (string, string) gomap \<Rightarrow> string \<Rightarrow> string + string" where
  "loadRawBytesFromVolume d known filePath =
     (case SplitN2 (CHR ''/'') filePath of
        [mountName, relativePath] \<Rightarrow>
          (case gm_get known mountName of
             None \<Rightarrow> Inl (''volume '' @ go_quote mountName @ '' not found in known volumes'')
           | Some volName \<Rightarrow>
               (case td_read_volume d of
                  None \<Rightarrow> Inl (''driver '' @ go_quote (td_name d) @ '' does not support reading files from volumes'')
                | Some accessor \<Rightarrow>
                    ebind (prefix_error (''reading file '' @ go_quote relativePath @ '' from volume '' @ go_quote mountName)
                             (accessor volName relativePath))
                      (\<lambda>entries. prefix_error (''extracting file '' @ go_quote relativePath)
                                  (extractFileFromTar entries relativePath))))
      | _ \<Rightarrow> Inl (''invalid file path '' @ go_quote filePath @ '': expected mount-name/path''))"

definition loadTaskConfigFromVolume :: "task_driver \<Rightarrow> (string, string) gomap \<Rightarrow> string \<Rightarrow> string + task_config" where
  "loadTaskConfigFromVolume d known filePath =
     ebind (loadRawBytesFromVolume d known filePath)
       (\<lambda>content. prefix_error (''parsing task config from '' @ go_quote filePath) (td_yaml d content))"

datatype uri_scheme = schemeFile | schemeHTTP

definition parseURI :: "string \<Rightarrow> string + uri_scheme \<times> string" where
  "parseURI uri =
     (if HasPrefix uri ''file://'' then
        (let path = TrimPrefix uri ''file://'' in
         if Contains path ''..''
         then Inl (''file:// URI must not contain '' @ go_quote ''..'' @ '' path segments: '' @ go_quote uri)
         else Inr (schemeFile, path))
      else if HasPrefix uri ''http://'' \<or> HasPrefix uri ''https://'' then Inr (schemeHTTP, uri)
      else Inl (''unsupported URI scheme in '' @ go_quote uri @ ''; supported: file://, http://, https://''))"

definition log_entry :: "string \<Rightarrow> string \<Rightarrow> json" where
  "log_entry stream content = JObj [(''type'', JStr stream), (''content'', JStr content)]"

text \<open>Reading the clock, and a write to the store whose error is dropped.\<close>

definition tick :: "task_driver \<Rightarrow> task_ctx \<Rightarrow> string \<times> task_ctx" where
  "tick d sc = (td_clock d (tw_time (sc_world sc)), sc\<lparr>sc_world := (sc_world sc)\<lparr>tw_time := tw_time (sc_world sc) + 1\<rparr>\<rparr>)"

definition set_drop :: "'w step_env \<Rightarrow> string \<Rightarrow> json \<Rightarrow> 'w step_ctx \<Rightarrow> 'w step_ctx" where
  "set_drop env key v sc = snd (storage_set env key v sc)"

text \<open>The rows of \<open>trackLoadFile\<close> and \<open>trackLoadURI\<close>: \<open>base\<close> holds what names the source. A failed load gives the
  message for the row and the error that is returned.\<close>

definition track_load ::
  "task_env \<Rightarrow> task_driver \<Rightarrow> string \<Rightarrow> (string \<times> json) list \<Rightarrow> string \<Rightarrow> (task_ctx \<Rightarrow> string \<times> string + task_config)
   \<Rightarrow> task_ctx \<Rightarrow> (string + task_config) \<times> task_ctx" where
  "track_load env d storageKey base success load sc =
     (let (startedAt, sc1) = tick d sc;
          start = (''started_at'', JStr startedAt);
          sc2 = set_drop env storageKey (JObj ((''status'', JStr ''pending'') # base @ [start])) sc1;
          elapsed = (''elapsed'', JStr (td_elapsed d (tw_time (sc_world sc2))))
      in (case load sc2 of
            Inl (errMsg, err) \<Rightarrow>
              (Inl err,
               set_drop env storageKey (JObj ((''status'', JStr ''failure'') # base @
                 [start, elapsed, (''errorMessage'', JStr errMsg), (''logs'', JArr [log_entry ''stderr'' errMsg])])) sc2)
          | Inr cfg \<Rightarrow>
              (Inr cfg,
               set_drop env storageKey (JObj ((''status'', JStr ''success'') # base @
                 [start, elapsed, (''logs'', JArr [log_entry ''stdout'' success])])) sc2)))"

definition same_error :: "string + 'a \<Rightarrow> string \<times> string + 'a" where
  "same_error r = map_sum (\<lambda>m. (m, m)) id r"

definition trackLoadFile ::
  "task_env \<Rightarrow> task_driver \<Rightarrow> string \<Rightarrow> string \<Rightarrow> task_ctx \<Rightarrow> (string + task_config) \<times> task_ctx" where
  "trackLoadFile env d filePath pathPrefix =
     (let mountName = hd (SplitN2 (CHR ''/'') filePath) in
      track_load env d (BaseStorageKey env @ ''/'' @ pathPrefix @ ''/load-file'')
        [(''file'', JStr filePath), (''volume'', JStr mountName)]
        (''loaded '' @ filePath @ '' from volume '' @ mountName)
        (\<lambda>sc. same_error (loadTaskConfigFromVolume d (tw_known_volumes (sc_world sc)) filePath)))"

definition load_http :: "task_driver \<Rightarrow> string \<Rightarrow> string \<times> string + task_config" where
  "load_http d uri =
     ebind (same_error (td_http d uri))
       (\<lambda>data. case td_yaml d data of
                  Inr cfg \<Rightarrow> Inr cfg
                | Inl m \<Rightarrow> Inl (''parsing task config from '' @ uri @ '': '' @ m,
                               ''parsing task config from '' @ go_quote uri @ '': '' @ m))"

definition trackLoadURI ::
  "task_env \<Rightarrow> task_driver \<Rightarrow> string \<Rightarrow> string \<Rightarrow> task_ctx \<Rightarrow> (string + task_config) \<times> task_ctx" where
  "trackLoadURI env d uri pathPrefix sc =
     (case parseURI uri of
        Inl e \<Rightarrow> (Inl e, sc)
      | Inr (schemeFile, path) \<Rightarrow> trackLoadFile env d path pathPrefix sc
      | Inr (schemeHTTP, u) \<Rightarrow>
          track_load env d (BaseStorageKey env @ ''/'' @ pathPrefix @ ''/load-uri'')
            [(''uri'', JStr uri)] (''loaded config from '' @ uri)
            (\<lambda>_. load_http d u) sc)"

definition loadRunTaskConfig ::
  "task_env \<Rightarrow> task_driver \<Rightarrow> step \<Rightarrow> string \<Rightarrow> string \<Rightarrow> (string, string) gomap option \<Rightarrow> task_ctx
   \<Rightarrow> (go_error + task_config option \<times> (string, string) gomap option) \<times> task_ctx" where
  "loadRunTaskConfig env d step pathPrefix taskName vars sc =
     (let f = sfields step;
          (loaded, sc1) =
            (if sf_file f \<noteq> [] then (let (r, s) = trackLoadFile env d (sf_file f) pathPrefix sc in (map_sum id Some r, s))
             else if sf_uri f \<noteq> [] then (let (r, s) = trackLoadURI env d (sf_uri f) pathPrefix sc in (map_sum id Some r, s))
             else (Inr (sf_config f), sc))
      in (case loaded of
            Inl m \<Rightarrow> (Inl (TaskErrored taskName (Some (Plain m))), sc1)
          | Inr cfg \<Rightarrow>
              (Inr (cfg, (case (vars, cfg) of
                            (None, Some c) \<Rightarrow> mergeJobParams (env_job_params env) (tc_env c)
                          | _ \<Rightarrow> vars)), sc1)))"

section \<open>Running a container\<close>

text \<open>\<open>waitForContainer\<close>: the exit code, or the error and whether it is a deadline error.\<close>

definition waitForContainer :: "wait_event \<Rightarrow> string \<times> bool + int" where
  "waitForContainer ev =
     (case ev of
        Exited code \<Rightarrow> Inr code
      | DeadlineHit \<Rightarrow> Inl (''context cancelled: context deadline exceeded'', True)
      | ContextCancelled \<Rightarrow> Inl (''context cancelled: context canceled'', False)
      | StatusFailed m deadline \<Rightarrow> Inl (''container status: '' @ m, deadline))"

definition checkTaskAssertions :: "step \<Rightarrow> string \<Rightarrow> int \<Rightarrow> string \<Rightarrow> string \<Rightarrow> go_error option" where
  "checkTaskAssertions step taskName exitCode stdout stderr =
     (case sf_assert (sfields step) of
        None \<Rightarrow> None
      | Some a \<Rightarrow>
          if sa_code a \<noteq> None \<and> sa_code a \<noteq> Some exitCode then
            Some (Assertion (''task '' @ go_quote taskName @ '': expected exit code '' @ itoa (the (sa_code a))
                    @ '', got '' @ itoa exitCode))
          else if sa_stdout a \<noteq> [] \<and> \<not> Contains stdout (sa_stdout a) then
            Some (Assertion (''task '' @ go_quote taskName @ '': stdout does not contain '' @ go_quote (sa_stdout a)))
          else if sa_stderr a \<noteq> [] \<and> \<not> Contains stderr (sa_stderr a) then
            Some (Assertion (''task '' @ go_quote taskName @ '': stderr does not contain '' @ go_quote (sa_stderr a)))
          else None)"

definition progress_row :: "string \<Rightarrow> string \<Rightarrow> (string \<times> json) list \<Rightarrow> json" where
  "progress_row status startedAt rest = JObj ((''status'', JStr status) # (''started_at'', JStr startedAt) # rest)"

definition orchestra_task_of ::
  "task_env \<Rightarrow> step \<Rightarrow> string \<Rightarrow> task_config \<Rightarrow> (string, string) gomap option \<Rightarrow> mount list \<Rightarrow> orchestra_task" where
  "orchestra_task_of env step taskName cfg vars mounts =
     \<lparr>ot_id = env_job_name env @ ''-'' @ taskName, ot_command = buildCommand cfg, ot_env = vars,
      ot_image = resolveImage cfg, ot_mounts = mounts, ot_privileged = sf_privileged (sfields step),
      ot_work_dir = (case tc_run cfg of None \<Rightarrow> [] | Some r \<Rightarrow> run_dir r), ot_limits = EffectiveLimits cfg\<rparr>"

text \<open>What follows the start of the container: the ticker's snapshots, the end of the container, the final row. A
  snapshot without logs is not written.\<close>

definition stream_ticks :: "task_env \<Rightarrow> string \<Rightarrow> string \<Rightarrow> container_run \<Rightarrow> task_ctx \<Rightarrow> task_ctx" where
  "stream_ticks env storageKey startedAt run sc =
     fold (\<lambda>logs. if logs = [] then id
                  else set_drop env storageKey (progress_row ''running'' startedAt [(''logs'', JArr logs)]))
       (cr_ticks run) sc"

definition finish_task :: "task_env \<Rightarrow> step \<Rightarrow> string \<Rightarrow> string \<Rightarrow> string \<Rightarrow> container_run \<Rightarrow> task_ctx \<Rightarrow> go_error option \<times> task_ctx" where
  "finish_task env step storageKey taskName startedAt run sc =
     (case waitForContainer (cr_end run) of
        Inl (m, deadline) \<Rightarrow>
          if deadline then
            (Some (TaskAborted taskName),
             set_drop env storageKey (progress_row ''abort'' startedAt
               [(''elapsed'', JStr (cr_elapsed run)), (''logs'', JArr (cr_logs run))]) sc)
          else (Some (TaskErrored taskName (Some (Plain m))), sc)
      | Inr exitCode \<Rightarrow>
          (case storage_set env storageKey (progress_row (if exitCode \<noteq> 0 then ''failure'' else ''success'') startedAt
                  [(''code'', JNum exitCode), (''elapsed'', JStr (cr_elapsed run)), (''logs'', JArr (cr_logs run))]) sc of
             (Some e, sc1) \<Rightarrow> (Some (Wrapped ''storage set result'' e), sc1)
           | (None, sc1) \<Rightarrow>
               (case checkTaskAssertions step taskName exitCode (cr_stdout run) (cr_stderr run) of
                  Some e \<Rightarrow> (Some e, sc1)
                | None \<Rightarrow> (if exitCode \<noteq> 0 then Some (TaskFailed taskName exitCode) else None, sc1))))"

definition start_container ::
  "task_env \<Rightarrow> task_driver \<Rightarrow> step \<Rightarrow> string \<Rightarrow> string \<Rightarrow> string \<Rightarrow> orchestra_task \<Rightarrow> task_ctx \<Rightarrow> go_error option \<times> task_ctx" where
  "start_container env d step storageKey taskName startedAt task sc =
     (let n = tw_containers (sc_world sc); sc1 = sc\<lparr>sc_world := (sc_world sc)\<lparr>tw_containers := n + 1\<rparr>\<rparr> in
      case td_run_container d n (sf_timeout (sfields step)) task of
        Inl m \<Rightarrow> (Some (TaskErrored taskName (Some (Plain m))), sc1)
      | Inr run \<Rightarrow> finish_task env step storageKey taskName startedAt run (stream_ticks env storageKey startedAt run sc1))"

text \<open>A nil task configuration is dereferenced: the program panics.\<close>

definition nil_panic :: go_error where
  "nil_panic = Plain ''panic: runtime error: invalid memory address or nil pointer dereference''"

definition task_key :: "task_env \<Rightarrow> string \<Rightarrow> string \<Rightarrow> string" where
  "task_key env pathPrefix taskName = BaseStorageKey env @ ''/'' @ pathPrefix @ ''/tasks/'' @ taskName"

text \<open>The part of \<open>runTask\<close> after the mounts are resolved.\<close>

definition run_loaded ::
  "task_env \<Rightarrow> task_driver \<Rightarrow> step \<Rightarrow> string \<Rightarrow> string \<Rightarrow> task_config option \<Rightarrow> (string, string) gomap option
   \<Rightarrow> mount list \<Rightarrow> task_ctx \<Rightarrow> go_error option \<times> task_ctx" where
  "run_loaded env d step storageKey taskName cfg vars mounts sc =
     (let (startedAt, sc1) = tick d sc in
      case storage_set env storageKey (progress_row ''pending'' startedAt []) sc1 of
        (Some e, sc2) \<Rightarrow> (Some (Wrapped ''storage set pending'' e), sc2)
      | (None, sc2) \<Rightarrow>
          (case resolveEnvSecrets d taskName vars of
             Inl e \<Rightarrow> (Some (TaskErrored taskName (Some e)), sc2)
           | Inr resolved \<Rightarrow>
               (case cfg of
                  None \<Rightarrow> (Some nil_panic, sc2)
                | Some c \<Rightarrow>
                    start_container env d step storageKey taskName startedAt
                      (orchestra_task_of env step taskName c resolved mounts) sc2)))"

definition runTask ::
  "task_env \<Rightarrow> task_driver \<Rightarrow> step \<Rightarrow> string \<Rightarrow> string \<Rightarrow> (string, string) gomap option \<Rightarrow> task_ctx \<Rightarrow> go_error option \<times> task_ctx" where
  "runTask env d step pathPrefix taskName vars0 sc =
     (case loadRunTaskConfig env d step pathPrefix taskName vars0 sc of
        (Inl e, sc1) \<Rightarrow> (Some e, sc1)
      | (Inr (cfg, vars), sc1) \<Rightarrow>
          (let (mounts, w) = (case cfg of None \<Rightarrow> ([], sc_world sc1)
                              | Some c \<Rightarrow> resolveMounts d (env_run_id env) c taskName (sc_world sc1))
           in run_loaded env d step (task_key env pathPrefix taskName) taskName cfg vars mounts (sc1\<lparr>sc_world := w\<rparr>)))"

section \<open>The handler\<close>

definition indexed_name :: "step \<Rightarrow> nat \<Rightarrow> string" where
  "indexed_name step index = sf_task (sfields step) @ ''-'' @ itoa (int index)"

definition indexed_env :: "task_config \<Rightarrow> int \<Rightarrow> nat \<Rightarrow> (string, string) gomap" where
  "indexed_env c n_tasks index =
     gm_set ''CI_TASK_COUNT'' (itoa n_tasks) (gm_set ''CI_TASK_INDEX'' (itoa (int index)) (cloneEnv (tc_env c)))"

definition parallel_task_body :: "task_env \<Rightarrow> task_driver \<Rightarrow> step \<Rightarrow> string \<Rightarrow> nat \<Rightarrow> task_ctx \<Rightarrow> go_error option \<times> task_ctx" where
  "parallel_task_body env d step pathPrefix i sc =
     (case sf_config (sfields step) of
        None \<Rightarrow> (Some nil_panic, sc)
      | Some c \<Rightarrow>
          runTask env d step pathPrefix (indexed_name step (i + 1))
            (Some (indexed_env c (sf_parallelism (sfields step)) (i + 1))) sc)"

definition executeParallel :: "task_env \<Rightarrow> task_driver \<Rightarrow> task_world runner" where
  "executeParallel env d step pathPrefix sc =
     (let n_tasks = nat (sf_parallelism (sfields step)); limit = resolveLimit env 0 n_tasks in
      run_limited env ''task steps'' limit False n_tasks (parallel_task_body env d step pathPrefix)
        (fold (\<lambda>i. appendExecutedTask (indexed_name step i)) [1..<n_tasks + 1] sc))"

definition TaskHandler :: "task_env \<Rightarrow> task_driver \<Rightarrow> task_world runner" where
  "TaskHandler env d step pathPrefix sc =
     (if sf_parallelism (sfields step) > 1 then executeParallel env d step pathPrefix sc
      else
        (let taskName = sf_task (sfields step);
             sc1 = (if taskName \<in> set (sc_preregistered sc) then sc else appendExecutedTask taskName sc)
         in runTask env d step pathPrefix taskName (Option.bind (sf_config (sfields step)) tc_env) sc1))"

definition task_handlers :: "task_env \<Rightarrow> task_driver \<Rightarrow> string \<Rightarrow> task_world runner option" where
  "task_handlers env d t = (if t = ''task'' then Some (TaskHandler env d) else None)"

section \<open>What every step keeps\<close>

definition same_tables :: "db \<Rightarrow> db \<Rightarrow> bool" where
  "same_tables d d' \<longleftrightarrow> pipelines d' = pipelines d \<and> runs d' = runs d \<and> schedules d' = schedules d
     \<and> gates d' = gates d \<and> webhook_dedup d' = webhook_dedup d"

definition keys_kept :: "db \<Rightarrow> db \<Rightarrow> bool" where
  "keys_kept d d' \<longleftrightarrow> (\<forall>ns k. store_lookup ns k d \<noteq> None \<longrightarrow> store_lookup ns k d' \<noteq> None)"

definition ctx_le :: "'w step_ctx \<Rightarrow> 'w step_ctx \<Rightarrow> bool" where
  "ctx_le sc sc' \<longleftrightarrow>
     sc_failure_count sc \<le> sc_failure_count sc' \<and> (\<exists>names. sc_executed sc' = sc_executed sc @ names)
     \<and> (db_inv (sc_store sc) \<longrightarrow> db_inv (sc_store sc'))
     \<and> same_tables (sc_store sc) (sc_store sc') \<and> keys_kept (sc_store sc) (sc_store sc')"

lemma ctx_le_refl: "ctx_le sc sc"
  by (simp add: ctx_le_def same_tables_def keys_kept_def)

lemma ctx_le_trans: "ctx_le a b \<Longrightarrow> ctx_le b c \<Longrightarrow> ctx_le a c"
  by (auto simp: ctx_le_def same_tables_def keys_kept_def)

lemma Set_tables: "same_tables d (store_Set ns k v d)"
  by (simp add: same_tables_def store_Set_def Let_def split: option.split)

lemma Set_keys: "keys_kept d (store_Set ns k v d)"
  unfolding keys_kept_def
proof (intro allI impI)
  fix ns' k' assume "store_lookup ns' k' d \<noteq> None"
  then show "store_lookup ns' k' (store_Set ns k v d) \<noteq> None"
    by (auto simp: store_lookup_def find_task_Set)
qed

lemma ctx_le_set: "ctx_le sc (snd (storage_set env key v sc))"
  using Set_tables Set_keys
  by (auto simp: ctx_le_def storage_set_def store_Set_inv same_tables_def keys_kept_def split: option.split)

lemma ctx_le_failure: "ctx_le sc (record_failure k sc)"
  by (simp add: ctx_le_def record_failure_def same_tables_def keys_kept_def)

lemma ctx_le_append: "ctx_le sc (appendExecutedTask name sc)"
  by (simp add: ctx_le_def appendExecutedTask_def same_tables_def keys_kept_def)

lemma ctx_le_preregister: "ctx_le sc (preregister s sc)"
  by (simp add: ctx_le_def preregister_def same_tables_def keys_kept_def)

text \<open>In a task's world the volumes that a name or a cache is bound to stay.\<close>

definition map_grows :: "(string, string) gomap \<Rightarrow> (string, string) gomap \<Rightarrow> bool" where
  "map_grows m m' \<longleftrightarrow> (\<forall>k v. gm_get m k = Some v \<longrightarrow> gm_get m' k = Some v)"

definition task_le :: "task_ctx \<Rightarrow> task_ctx \<Rightarrow> bool" where
  "task_le sc sc' \<longleftrightarrow> ctx_le sc sc'
     \<and> map_grows (tw_known_volumes (sc_world sc)) (tw_known_volumes (sc_world sc'))
     \<and> map_grows (tw_cache_volumes (sc_world sc)) (tw_cache_volumes (sc_world sc'))"

lemma map_grows_refl [simp]: "map_grows m m"
  by (simp add: map_grows_def)

lemma task_le_refl: "task_le sc sc"
  by (simp add: task_le_def ctx_le_refl)

lemma task_le_trans: "task_le a b \<Longrightarrow> task_le b c \<Longrightarrow> task_le a c"
  using ctx_le_trans by (fastforce simp: task_le_def map_grows_def)

lemma task_le_same_world: "ctx_le sc sc' \<Longrightarrow> sc_world sc' = sc_world sc \<Longrightarrow> task_le sc sc'"
  by (simp add: task_le_def)

lemma task_le_world:
  "map_grows (tw_known_volumes (sc_world sc)) (tw_known_volumes w)
   \<Longrightarrow> map_grows (tw_cache_volumes (sc_world sc)) (tw_cache_volumes w) \<Longrightarrow> task_le sc (sc\<lparr>sc_world := w\<rparr>)"
  by (simp add: task_le_def ctx_le_def same_tables_def keys_kept_def)

lemma task_le_set: "task_le sc (snd (storage_set env key v sc))"
  by (intro task_le_same_world ctx_le_set) (simp add: storage_set_def split: option.split)

lemma task_le_append: "task_le sc (appendExecutedTask name sc)"
  by (intro task_le_same_world ctx_le_append) (simp add: appendExecutedTask_def)

lemma task_le_failure: "task_le sc (record_failure k sc)"
  by (intro task_le_same_world ctx_le_failure) (simp add: record_failure_def)

lemma task_le_preregister: "task_le sc (preregister s sc)"
  by (intro task_le_same_world ctx_le_preregister) (simp add: preregister_def)

section \<open>Tasks keep it\<close>

lemma tick_le: "task_le sc (snd (tick d sc))"
  by (simp add: tick_def task_le_world)

lemma set_drop_le: "task_le sc (set_drop env key v sc)"
  by (simp add: set_drop_def task_le_set)

lemma storage_set_le: "storage_set env key v sc = (e, sc') \<Longrightarrow> task_le sc sc'"
  using task_le_set by (metis snd_conv)

lemma track_load_le: "task_le sc (snd (track_load env d key base success load sc))"
proof -
  obtain st sc1 where t: "tick d sc = (st, sc1)" by (cases "tick d sc")
  then have "task_le sc sc1" using tick_le [of sc d] by simp
  then have "task_le sc (set_drop env key a (set_drop env key b sc1))" for a b
    by (blast intro: task_le_trans set_drop_le)
  then show ?thesis by (simp add: track_load_def t Let_def split: sum.split)
qed

lemma track_file_le: "task_le sc (snd (trackLoadFile env d path p sc))"
  by (simp add: trackLoadFile_def track_load_le Let_def)

lemma track_uri_le: "task_le sc (snd (trackLoadURI env d uri p sc))"
  by (auto simp: trackLoadURI_def track_load_le track_file_le task_le_refl split: sum.split prod.split uri_scheme.split)

lemma load_config_le: "task_le sc (snd (loadRunTaskConfig env d step p name vars sc))"
  using track_file_le [of sc env d "sf_file (sfields step)" p] track_uri_le [of sc env d "sf_uri (sfields step)" p]
  by (auto simp: loadRunTaskConfig_def Let_def task_le_refl split: sum.split prod.split)

lemma stream_ticks_le: "task_le sc (stream_ticks env key st run sc)"
proof -
  have "task_le sc (fold (\<lambda>logs. if logs = [] then id
      else set_drop env key (progress_row ''running'' st [(''logs'', JArr logs)])) ts sc)" for ts
    by (induction ts arbitrary: sc) (auto intro: task_le_refl task_le_trans set_drop_le)
  then show ?thesis by (simp add: stream_ticks_def)
qed

lemma finish_task_le: "task_le sc (snd (finish_task env step key name st run sc))"
  by (auto simp: finish_task_def task_le_refl set_drop_le split: sum.split prod.split option.split
      dest: storage_set_le)

lemma start_container_le: "task_le sc (snd (start_container env d step key name st task sc))"
proof -
  have "task_le sc (sc\<lparr>sc_world := (sc_world sc)\<lparr>tw_containers := n\<rparr>\<rparr>)" for n
    by (simp add: task_le_world)
  then show ?thesis
    by (auto simp: start_container_def Let_def split: sum.split
        intro: task_le_trans [OF _ task_le_trans [OF stream_ticks_le finish_task_le]])
qed

lemma mount_volumes_known:
  "mount_volumes rid xs w = (ms, w') \<Longrightarrow>
     length ms = length xs
     \<and> (\<forall>k v. gm_get (tw_known_volumes w) k = Some v \<longrightarrow> gm_get (tw_known_volumes w') k = Some v)
     \<and> (\<forall>i<length xs. gm_get (tw_known_volumes w') (fst (xs ! i)) = Some (mt_name (ms ! i)) \<and> mt_path (ms ! i) = fst (xs ! i))"
proof (induction rid xs w arbitrary: ms rule: mount_volumes.induct)
  case (2 rid name sz rest w)
  let ?v = "case gm_get (tw_known_volumes w) name of Some v \<Rightarrow> v | None \<Rightarrow> resourceVolumeName rid name"
  let ?w1 = "case gm_get (tw_known_volumes w) name of Some v \<Rightarrow> w
      | None \<Rightarrow> w\<lparr>tw_known_volumes := gm_set name ?v (tw_known_volumes w)\<rparr>"
  obtain ms1 where rest: "mount_volumes rid rest ?w1 = (ms1, w')"
    and ms: "ms = \<lparr>mt_name = ?v, mt_path = name, mt_size_gb = sz\<rparr> # ms1"
    using 2(2) by (auto simp: Let_def split: prod.splits)
  have name: "gm_get (tw_known_volumes ?w1) name = Some ?v" by (simp split: option.split)
  have old: "gm_get (tw_known_volumes ?w1) k = Some v" if "gm_get (tw_known_volumes w) k = Some v" for k v
    using that by (auto split: option.split)
  have IH: "length ms1 = length rest"
    "\<And>k v. gm_get (tw_known_volumes ?w1) k = Some v \<Longrightarrow> gm_get (tw_known_volumes w') k = Some v"
    "\<And>i. i < length rest \<Longrightarrow> gm_get (tw_known_volumes w') (fst (rest ! i)) = Some (mt_name (ms1 ! i)) \<and> mt_path (ms1 ! i) = fst (rest ! i)"
    using 2(1) [OF refl refl rest] by blast+
  show ?case
    unfolding ms using IH name old by (auto simp: nth_Cons split: nat.split)
qed simp

lemma mount_volumes_cache: "tw_cache_volumes (snd (mount_volumes rid xs w)) = tw_cache_volumes w"
  by (induction rid xs w rule: mount_volumes.induct) (auto simp: Let_def split: option.splits prod.splits)

lemma bind_cache_grows:
  "gm_get (tw_cache_volumes w) (cache_lookup_key name c) = None \<Longrightarrow>
     tw_known_volumes (bind_cache d name c w) = tw_known_volumes w
     \<and> map_grows (tw_cache_volumes w) (tw_cache_volumes (bind_cache d name c w))"
  by (auto simp: bind_cache_def Let_def map_grows_def)

lemma map_grows_trans: "map_grows a b \<Longrightarrow> map_grows b c \<Longrightarrow> map_grows a c"
  by (simp add: map_grows_def)

lemma resolveCaches_grows:
  "tw_known_volumes (snd (resolveCaches d name cs w)) = tw_known_volumes w
   \<and> map_grows (tw_cache_volumes w) (tw_cache_volumes (snd (resolveCaches d name cs w)))"
proof (induction cs arbitrary: w)
  case (Cons c cs)
  show ?case
  proof (cases "gm_get (tw_cache_volumes w) (cache_lookup_key name c)")
    case None
    with Cons.IH [of "bind_cache d name c w"] bind_cache_grows [OF None, of d] show ?thesis
      by (simp add: split_beta Let_def) (blast intro: map_grows_trans)
  qed (use Cons.IH in \<open>simp add: split_beta Let_def\<close>)
qed simp

lemma resolveMounts_grows:
  assumes "resolveMounts d rid cfg name w = (ms, w')"
  shows "map_grows (tw_known_volumes w) (tw_known_volumes w') \<and> map_grows (tw_cache_volumes w) (tw_cache_volumes w')"
proof -
  obtain cs w1 where c: "resolveCaches d name (tc_caches cfg) w = (cs, w1)" by (cases "resolveCaches d name (tc_caches cfg) w")
  obtain ios where i: "resolveInputsOutputs rid cfg w1 = (ios, w')"
    using assms c by (cases "resolveInputsOutputs rid cfg w1") (simp add: resolveMounts_def)
  show ?thesis
    using resolveCaches_grows [of d name "tc_caches cfg" w] mount_volumes_known [OF i [unfolded resolveInputsOutputs_def]]
      mount_volumes_cache [of rid "map (\<lambda>x. (out_name x, out_size_gb x)) (tc_outputs cfg)
        @ map (\<lambda>x. (in_name x, in_size_gb x)) (tc_inputs cfg)" w1] c i
    by (simp add: map_grows_def resolveInputsOutputs_def)
qed

lemma run_loaded_le: "task_le sc (snd (run_loaded env d step key name cfg vars mounts sc))"
proof -
  obtain st sc1 where t: "tick d sc = (st, sc1)" by (cases "tick d sc")
  obtain e sc2 where s: "storage_set env key (progress_row ''pending'' st []) sc1 = (e, sc2)"
    by (cases "storage_set env key (progress_row ''pending'' st []) sc1")
  have le: "task_le sc sc2"
    using tick_le [of sc d] storage_set_le [OF s] t by (auto intro: task_le_trans)
  then have "task_le sc (snd (start_container env d step key name st task sc2))" for task
    using start_container_le by (blast intro: task_le_trans)
  with le show ?thesis
    by (simp add: run_loaded_def t s split: sum.split option.split)
qed

lemma runTask_le: "task_le sc (snd (runTask env d step p name vars sc))"
proof -
  obtain r sc1 where load: "loadRunTaskConfig env d step p name vars sc = (r, sc1)"
    by (cases "loadRunTaskConfig env d step p name vars sc")
  then have 1: "task_le sc sc1" using load_config_le [of sc env d step p name vars] by simp
  have "task_le sc (snd (run_loaded env d step key name cfg vs ms (sc1\<lparr>sc_world := w\<rparr>)))"
    if "task_le sc1 (sc1\<lparr>sc_world := w\<rparr>)" for key cfg vs ms w
    using 1 that run_loaded_le by (blast intro: task_le_trans)
  moreover have "task_le sc1 (sc1\<lparr>sc_world := w\<rparr>)" if "resolveMounts d (env_run_id env) c name (sc_world sc1) = (ms, w)" for c ms w
    using resolveMounts_grows [OF that] by (simp add: task_le_world)
  moreover have "task_le sc (snd (run_loaded env d step key name cfg vs ms sc1))" for key cfg vs ms
    using 1 run_loaded_le by (blast intro: task_le_trans)
  ultimately show ?thesis
    using 1 by (auto simp: runTask_def load split: sum.split prod.split option.split)
qed

lemma append_tasks_le: "task_le sc (fold (\<lambda>i. appendExecutedTask (indexed_name step i)) is sc)"
  by (induction "is" arbitrary: sc) (auto intro: task_le_refl task_le_trans task_le_append)

lemma TaskHandler_le: "task_le sc (snd (TaskHandler env d step p sc))"
proof -
  have body: "task_le sc (snd (parallel_task_body env d step p i sc))" for i sc
    by (simp add: parallel_task_body_def task_le_refl runTask_le split: option.split)
  have "task_le s (snd (run_limited env l limit ff n (parallel_task_body env d step p) s))" for l limit ff n s
    unfolding run_limited_def Let_def
    using run_group_rel [of task_le "parallel_task_body env d step p", OF task_le_refl task_le_trans body] by simp
  then have "task_le sc (snd (executeParallel env d step p sc))"
    unfolding executeParallel_def Let_def by (rule task_le_trans [OF append_tasks_le])
  moreover have "task_le sc (snd (runTask env d step p name vars (appendExecutedTask name' sc)))" for name vars name'
    using task_le_trans [OF task_le_append runTask_le] .
  ultimately show ?thesis
    by (simp add: TaskHandler_def Let_def runTask_le)
qed

section \<open>The engine with its task handler\<close>

definition task_engine :: "task_env \<Rightarrow> task_driver \<Rightarrow> task_env" where
  "task_engine env d = env\<lparr>env_handlers := task_handlers env d\<rparr>"

interpretation engine: step_runner task_le "task_engine env d" for env d
proof unfold_locales
  fix t h and s :: step and p and sc :: task_ctx
  assume "env_handlers (task_engine env d) t = Some h"
  then show "task_le sc (snd (h s p sc))"
    by (auto simp: task_engine_def task_handlers_def TaskHandler_le split: if_splits)
qed (auto intro: task_le_refl task_le_set task_le_failure task_le_preregister task_le_trans)

text \<open>Whatever a step does, with its nested steps, hooks, retries and concurrency: the run's failure count never goes
  down, names of executed tasks are only appended, the integrity of the database is kept, no table but the tasks is touched, no
  task record disappears, and a volume once bound to a name or a cache in a job stays bound, so that later tasks find it.\<close>

theorem process_step_monotone: "task_le sc (snd (process_step (task_engine env d) s p sc))"
  by (rule engine.process_step_keeps)

section \<open>The record of a task\<close>

lemma set_row_recorded:
  assumes "sets_ok env"
  shows "recorded_status env key (snd (storage_set env key (JObj ((''status'', JStr st) # rest)) sc)) = Some st"
  by (auto simp: set_ok [OF assms] recorded_status_def find_task_Set new_task_def merge_task_def
      json_extract_def column_text_def coalesce_def gm_get_def split: option.splits)

lemma stream_recorded:
  assumes "sets_ok env" and "recorded_status env key sc = Some st"
  shows "recorded_status env key (stream_ticks env key t run sc)
    = Some (if \<exists>logs\<in>set (cr_ticks run). logs \<noteq> [] then ''running'' else st)"
proof -
  have "recorded_status env key (fold (\<lambda>logs. if logs = [] then id
      else set_drop env key (progress_row ''running'' t [(''logs'', JArr logs)])) ts sc)
      = Some (if \<exists>logs\<in>set ts. logs \<noteq> [] then ''running'' else st)" for ts
    using assms(2)
  proof (induction ts rule: rev_induct)
    case (snoc l ts)
    then show ?case by (auto simp: set_drop_def progress_row_def set_row_recorded [OF assms(1)])
  qed simp
  then show ?thesis by (simp add: stream_ticks_def)
qed

definition task_result_error :: "step \<Rightarrow> string \<Rightarrow> container_run \<Rightarrow> int \<Rightarrow> go_error option" where
  "task_result_error step name run code =
     (case checkTaskAssertions step name code (cr_stdout run) (cr_stderr run) of
        Some a \<Rightarrow> Some a
      | None \<Rightarrow> if code \<noteq> 0 then Some (TaskFailed name code) else None)"

definition task_outcome :: "step \<Rightarrow> string \<Rightarrow> container_run \<Rightarrow> go_error option \<Rightarrow> string option \<Rightarrow> bool" where
  "task_outcome step name run e st \<longleftrightarrow>
     (case waitForContainer (cr_end run) of
        Inr code \<Rightarrow> e = task_result_error step name run code \<and> st = Some (if code = 0 then ''success'' else ''failure'')
      | Inl (m, deadline) \<Rightarrow>
          if deadline then e = Some (TaskAborted name) \<and> st = Some ''abort''
          else e = Some (TaskErrored name (Some (Plain m)))
            \<and> st = Some (if \<exists>logs\<in>set (cr_ticks run). logs \<noteq> [] then ''running'' else ''pending''))"

lemma finish_task_outcome:
  assumes "sets_ok env" and "recorded_status env key sc = Some st"
    and "st = (if \<exists>logs\<in>set (cr_ticks run). logs \<noteq> [] then ''running'' else ''pending'')"
  shows "task_outcome step name run (fst (finish_task env step key name t run sc))
    (recorded_status env key (snd (finish_task env step key name t run sc)))"
proof (cases "waitForContainer (cr_end run)")
  case (Inl a)
  then show ?thesis
    using assms
    by (auto simp: finish_task_def task_outcome_def set_drop_def progress_row_def set_row_recorded split: prod.split)
next
  case (Inr code)
  let ?row = "progress_row (if code \<noteq> 0 then ''failure'' else ''success'') t
      [(''code'', JNum code), (''elapsed'', JStr (cr_elapsed run)), (''logs'', JArr (cr_logs run))]"
  obtain sc1 where set: "storage_set env key ?row sc = (None, sc1)"
    using set_ok [OF assms(1)] by blast
  have "recorded_status env key (snd (storage_set env key ?row sc)) = Some (if code = 0 then ''success'' else ''failure'')"
    unfolding progress_row_def set_row_recorded [OF assms(1)] by simp
  with set have "recorded_status env key sc1 = Some (if code = 0 then ''success'' else ''failure'')" by simp
  with Inr set show ?thesis
    by (simp add: finish_task_def task_outcome_def task_result_error_def split: option.split)
qed


definition sample_run_of :: "wait_event \<Rightarrow> container_run" where
  "sample_run_of ev = \<lparr>cr_ticks = [], cr_logs = [], cr_stdout = [], cr_stderr = [], cr_end = ev, cr_elapsed = ''1s''\<rparr>"

definition sample_driver :: "wait_event \<Rightarrow> task_driver" where
  "sample_driver ev =
     \<lparr>td_run_container = (\<lambda>_ _ _. Inr (sample_run_of ev)), td_create_volume = (\<lambda>_ _. None), td_name = ''native'',
      td_read_volume = None, td_http = (\<lambda>_. Inl ''no network''), td_yaml = (\<lambda>_. Inl ''no decoder''), td_secrets = None,
      td_pipeline_id = ''p'', td_clock = (\<lambda>_. ''t''), td_elapsed = (\<lambda>_. ''1s'')\<rparr>"

definition empty_world :: task_world where
  "empty_world = \<lparr>tw_known_volumes = [], tw_cache_volumes = [], tw_cache_objects = [], tw_time = 0, tw_containers = 0\<rparr>"

definition task_env_sample :: task_env where
  "task_env_sample = \<lparr>env_namespace = [], env_run_id = ''r'', env_job_name = ''j'', env_max_in_flight = 0,
     env_job_params = [], env_set_fails = (\<lambda>_. None), env_ctx_done = (\<lambda>_. False), env_pick = (\<lambda>_ _. None),
     env_handlers = (\<lambda>_. None)\<rparr>"

definition task_ctx_sample :: task_ctx where
  "task_ctx_sample = \<lparr>sc_executed = [], sc_preregistered = [], sc_failure_count = 0, sc_last_failure = FailureKindNone,
     sc_store = empty_db, sc_sets = 0, sc_world = empty_world\<rparr>"


section \<open>Secrets\<close>

text \<open>A value is replaced by a secret exactly if it is \<open>secret:\<close> and a key that is not reserved, and then the
  secret is the one of the pipeline's own scope, or the global one if the pipeline has none.\<close>

theorem resolved_secret_origin:
  "ResolveSecretString (Some get) pid v = Inr (val, True) \<longleftrightarrow>
     (\<exists>key. v = ''secret:'' @ key \<and> \<not> IsSystemKey key
        \<and> (get (''pipeline/'' @ pid) key = Secret val
           \<or> get (''pipeline/'' @ pid) key = SecretNotFound \<and> get ''global'' key = Secret val))"
proof (cases "HasPrefix v SecretPrefix")
  case True
  then obtain key where v: "v = ''secret:'' @ key" by (auto simp: HasPrefix_iff SecretPrefix_def)
  have "TrimPrefix v SecretPrefix = key" by (simp add: v TrimPrefix_def SecretPrefix_def HasPrefix_def)
  with v show ?thesis
    by (auto simp: ResolveSecretString_def HasPrefix_def SecretPrefix_def PipelineScope_def GlobalScope_def Let_def
        split: secret_result.split)
next
  case False
  then show ?thesis by (auto simp: ResolveSecretString_def HasPrefix_iff SecretPrefix_def)
qed

section \<open>Names of cache volumes\<close>

definition safe_char :: "char \<Rightarrow> bool" where
  "safe_char c \<longleftrightarrow> CHR ''a'' \<le> c \<and> c \<le> CHR ''z'' \<or> is_digit c \<or> c = CHR ''-''"

lemma set_TrimChar: "set (TrimChar ch s) \<subseteq> set s"
  by (metis TrimChar_def set_dropWhileD set_rev subsetI)

lemma last_dropWhile: "dropWhile P xs \<noteq> [] \<Longrightarrow> last (dropWhile P xs) = last xs"
  by (metis last_appendR takeWhile_dropWhile_id)

lemma TrimChar_ends:
  assumes "TrimChar ch s \<noteq> []"
  shows "hd (TrimChar ch s) \<noteq> ch \<and> last (TrimChar ch s) \<noteq> ch"
proof -
  let ?d = "dropWhile (\<lambda>c. c = ch) s"
  let ?r = "dropWhile (\<lambda>c. c = ch) (rev ?d)"
  have nonempty: "?r \<noteq> []" using assms unfolding TrimChar_def by (metis rev.simps(1))
  then have "?d \<noteq> []" by (metis dropWhile.simps(1) rev.simps(1))
  note r = nonempty this
  have "last ?r = hd ?d" using last_dropWhile [OF r(1)] r(2) by (simp add: last_rev)
  moreover have "hd ?d \<noteq> ch" using hd_dropWhile [OF r(2)] .
  moreover have "hd ?r \<noteq> ch" using hd_dropWhile [OF r(1)] .
  ultimately show ?thesis using r(1) by (simp add: TrimChar_def hd_rev last_rev)
qed

lemma TrimChar_id: "s = [] \<or> hd s \<noteq> ch \<and> last s \<noteq> ch \<Longrightarrow> TrimChar ch s = s"
proof -
  assume s: "s = [] \<or> hd s \<noteq> ch \<and> last s \<noteq> ch"
  have drop: "dropWhile (\<lambda>c. c = ch) xs = xs" if "xs = [] \<or> hd xs \<noteq> ch" for xs :: string
    using that by (cases xs) auto
  have "dropWhile (\<lambda>c. c = ch) (rev s) = rev s" using s by (intro drop) (auto simp: hd_rev)
  then show ?thesis using drop [of s] s by (auto simp: TrimChar_def)
qed

lemma safe_lower: "safe_char c \<Longrightarrow> lower_char c = c"
  by (auto simp: safe_char_def lower_char_def is_digit_def less_eq_char_def Let_def)

text \<open>The name part of a cache volume has only lower-case letters, digits and inner dashes, so it is a valid volume name and
  object key; a name that is already of this form is kept.\<close>

theorem sanitizeCachePath_safe:
  "list_all safe_char (sanitizeCachePath path)
   \<and> (sanitizeCachePath path \<noteq> [] \<longrightarrow> hd (sanitizeCachePath path) \<noteq> CHR ''-'' \<and> last (sanitizeCachePath path) \<noteq> CHR ''-'')
   \<and> sanitizeCachePath (sanitizeCachePath path) = sanitizeCachePath path"
proof -
  let ?f = "\<lambda>c. if (CHR ''a'' \<le> c \<and> c \<le> CHR ''z'') \<or> is_digit c then c else CHR ''-''"
  let ?s = "sanitizeCachePath path"
  have safe: "list_all safe_char ?s"
    using set_TrimChar [of "CHR ''-''" "map ?f (ToLower path)"]
    by (auto simp: sanitizeCachePath_def safe_char_def list_all_iff)
  have ends: "?s = [] \<or> hd ?s \<noteq> CHR ''-'' \<and> last ?s \<noteq> CHR ''-''"
    using TrimChar_ends by (auto simp: sanitizeCachePath_def)
  have "ToLower ?s = ?s" using safe by (auto simp: ToLower_def list_all_iff safe_lower intro: map_idI)
  moreover have "map ?f ?s = ?s" using safe by (intro map_idI) (auto simp: list_all_iff safe_char_def)
  ultimately have "sanitizeCachePath ?s = TrimChar (CHR ''-'') ?s"
    by (simp only: sanitizeCachePath_def [of ?s])
  with TrimChar_id [OF ends] safe ends show ?thesis by auto
qed

text \<open>The name does not determine the path: these two paths share one volume.\<close>

lemma cache_paths_collide: "sanitizeCachePath ''go/pkg'' = sanitizeCachePath ''go-pkg''"
  by code_simp

end
