(* ===== verification/Job_Run.thy ===== *)
theory Job_Run
  imports Task_Handler Store_Runs Go_Time
begin

text \<open>
  \<open>JobRunner.Run\<close> of \<open>runtime/backwards/job.go\<close>: the webhook filter and deduplication that may skip a job, the approval gate, the
  plan with its remaining steps marked as skipped after an error, the job's hooks, its assertion and the
  status that is recorded. The expression language of filters (\<open>webhooks/filter\<close> on \<open>expr\<close>), SHA-256 and fresh ids are
  parameters; so is what the rest of the system does to the store and to the context between two polls of a
  gate. Instants and durations of this theory are in nanoseconds, those of the store in seconds.
\<close>

section \<open>The job\<close>

text \<open>One round of polling: the time when it starts, what others have done to the store since the round before, and the
  error of the context if it ended while waiting after the round.\<close>

record poll_round =
  pr_now :: int
  pr_others :: "db \<Rightarrow> db"
  pr_ctx_err :: "string option"

record job_runner =
  jr_job :: job
  jr_pipeline_id :: string
  jr_pipeline_max_in_flight :: int
  jr_webhook :: "json option"
  jr_dedup_ttl :: int
  jr_now :: int
  jr_gate_id :: string
  jr_evaluate :: "string \<Rightarrow> json \<Rightarrow> string + bool"
  jr_eval_string :: "string \<Rightarrow> json \<Rightarrow> string + string"
  jr_sha256 :: "string \<Rightarrow> string"
  jr_polls :: "nat \<Rightarrow> poll_round"

definition resolveEffectiveMaxInFlight :: "int \<Rightarrow> int \<Rightarrow> int" where
  "resolveEffectiveMaxInFlight jobLevel pipelineLevel = (if jobLevel > 0 then jobLevel else pipelineLevel)"

definition webhook_trigger :: "job \<Rightarrow> webhook_trigger_config option" where
  "webhook_trigger j = Option.bind (job_triggers j) tr_webhook"

definition extractJobParams :: "job_runner \<Rightarrow> (string, string) gomap" where
  "extractJobParams jr =
     (case webhook_trigger (jr_job jr) of
        None \<Rightarrow> []
      | Some w \<Rightarrow>
          (case jr_webhook jr of
             None \<Rightarrow> []
           | Some data \<Rightarrow>
               List.map_filter (\<lambda>(key, expression).
                 case jr_eval_string jr expression data of Inl _ \<Rightarrow> None | Inr val \<Rightarrow> Some (key, val)) (wt_params w)))"

definition job_env :: "job_runner \<Rightarrow> 'w step_env \<Rightarrow> 'w step_env" where
  "job_env jr env =
     env\<lparr>env_job_name := job_name (jr_job jr),
         env_max_in_flight := resolveEffectiveMaxInFlight (job_max_in_flight (jr_job jr)) (jr_pipeline_max_in_flight jr),
         env_job_params := extractJobParams jr\<rparr>"

definition job_key :: "job_runner \<Rightarrow> 'w step_env \<Rightarrow> string" where
  "job_key jr env = ''/pipeline/'' @ env_run_id env @ ''/jobs/'' @ job_name (jr_job jr)"

section \<open>Filter and deduplication\<close>

definition webhook_filter :: "job \<Rightarrow> string" where
  "webhook_filter j =
     (let f = (case webhook_trigger j of None \<Rightarrow> [] | Some w \<Rightarrow> wt_filter w)
      in if f = [] then job_webhook_trigger j else f)"

definition filter_passes :: "job_runner \<Rightarrow> bool" where
  "filter_passes jr =
     (case jr_webhook jr of
        None \<Rightarrow> True
      | Some data \<Rightarrow> webhook_filter (jr_job jr) = [] \<or> jr_evaluate jr (webhook_filter (jr_job jr)) data = Inr True)"

definition evaluateWebhookFilter :: "job_runner \<Rightarrow> 'w step_env \<Rightarrow> 'w step_ctx \<Rightarrow> bool \<times> 'w step_ctx" where
  "evaluateWebhookFilter jr env sc =
     (if filter_passes jr then (False, sc)
      else (True, set_drop env (job_key jr env) (status_payload ''skipped'') sc))"

definition DedupKeyHash :: "job_runner \<Rightarrow> string \<Rightarrow> json \<Rightarrow> string + string option" where
  "DedupKeyHash jr expression data =
     (if expression = [] then Inr None
      else (case jr_eval_string jr expression data of
              Inl m \<Rightarrow> Inl (''dedup_key evaluation: '' @ m)
            | Inr key \<Rightarrow> Inr (if key = [] then None else Some (take 16 (jr_sha256 jr key)))))"

definition defaultDedupTTL :: int where "defaultDedupTTL = 7 * 24 * 3600 * 10 ^ 9"

definition dedup_hash :: "job_runner \<Rightarrow> string option" where
  "dedup_hash jr =
     (case (webhook_trigger (jr_job jr), jr_webhook jr) of
        (Some w, Some data) \<Rightarrow>
          (if wt_dedup_key w = [] then None
           else (case DedupKeyHash jr (wt_dedup_key w) data of Inl _ \<Rightarrow> None | Inr h \<Rightarrow> h))
      | _ \<Rightarrow> None)"

text \<open>Nanoseconds to the seconds of the store.\<close>

definition to_seconds :: "int \<Rightarrow> int" where
  "to_seconds t = t div 10 ^ 9"

definition on_store :: "(db \<Rightarrow> 'a \<times> db) \<Rightarrow> 'w step_ctx \<Rightarrow> 'a \<times> 'w step_ctx" where
  "on_store f sc = (let (r, d) = f (sc_store sc) in (r, sc\<lparr>sc_store := d\<rparr>))"

definition evaluateWebhookDedup :: "job_runner \<Rightarrow> 'w step_env \<Rightarrow> 'w step_ctx \<Rightarrow> bool \<times> 'w step_ctx" where
  "evaluateWebhookDedup jr env sc =
     (case dedup_hash jr of
        None \<Rightarrow> (False, sc)
      | Some h \<Rightarrow>
          (let ttl = (if jr_dedup_ttl jr = 0 then defaultDedupTTL else jr_dedup_ttl jr);
               cutoff = to_seconds (jr_now jr - ttl);
               (_, sc1) = on_store (PruneWebhookDedup cutoff) sc;
               (r, sc2) = on_store (RecordWebhookDedup (to_seconds (jr_now jr)) (jr_pipeline_id jr) h) sc1
           in if r = Inr True then (True, set_drop env (job_key jr env) (status_payload ''skipped'') sc2)
              else (False, sc2)))"

section \<open>The gate\<close>

definition gate_error :: "job_runner \<Rightarrow> string \<Rightarrow> go_error" where
  "gate_error jr m = Plain (''gate '' @ go_quote (job_name (jr_job jr)) @ '': '' @ m)"

text \<open>Polling may go on for ever: \<open>None\<close> is a poll that never returns.\<close>

partial_function (option) pollGate ::
  "job_runner \<Rightarrow> int option \<Rightarrow> nat \<Rightarrow> 'w step_ctx \<Rightarrow> (go_error option \<times> 'w step_ctx) option" where
  "pollGate jr deadline k sc =
     (let round = jr_polls jr k;
          sc1 = sc\<lparr>sc_store := pr_others round (sc_store sc)\<rparr>
      in if (case deadline of None \<Rightarrow> False | Some t \<Rightarrow> pr_now round > t) then
           Some (Some (gate_error jr ''timed out''),
                 snd (on_store (ResolveGate (to_seconds (pr_now round)) (jr_gate_id jr) GateStatusTimedOut ''timeout'') sc1))
         else
           (case GetGate (jr_gate_id jr) (sc_store sc1) of
              Inl _ \<Rightarrow> Some (Some (gate_error jr ''poll failed''), sc1)
            | Inr g \<Rightarrow>
                (case g_status g of
                   GateStatusApproved \<Rightarrow> Some (None, sc1)
                 | GateStatusRejected \<Rightarrow> Some (Some (gate_error jr (''rejected by '' @ g_approved_by g)), sc1)
                 | GateStatusTimedOut \<Rightarrow> Some (Some (gate_error jr ''timed out''), sc1)
                 | GateStatusPending \<Rightarrow>
                     (case pr_ctx_err round of
                        Some m \<Rightarrow> Some (Some (Wrapped ''wait for gate'' (Plain m)), sc1)
                      | None \<Rightarrow> pollGate jr deadline (k + 1) sc1))))"

definition new_gate :: "job_runner \<Rightarrow> 'w step_env \<Rightarrow> gate_config \<Rightarrow> gate" where
  "new_gate jr env gc =
     \<lparr>g_id = jr_gate_id jr, g_run_id = env_run_id env, g_pipeline_id = jr_pipeline_id jr, g_name = job_name (jr_job jr),
      g_status = GateStatusPending, g_message = gate_message gc, g_approved_by = [], g_created_at = 0, g_resolved_at = None\<rparr>"

definition runGate ::
  "job_runner \<Rightarrow> 'w step_env \<Rightarrow> gate_config \<Rightarrow> 'w step_ctx \<Rightarrow> (go_error option \<times> 'w step_ctx) option" where
  "runGate jr env gc sc =
     (case on_store (SaveGate (to_seconds (jr_now jr)) (new_gate jr env gc)) sc of
        (Some _, sc1) \<Rightarrow> Some (Some (Plain ''save gate''), sc1)
      | (None, sc1) \<Rightarrow>
          (if gate_timeout gc = [] then pollGate jr None 0 sc1
           else (case ParseDuration (gate_timeout gc) of
                   None \<Rightarrow> Some (Some (Plain (''invalid timeout '' @ go_quote (gate_timeout gc))), sc1)
                 | Some dur \<Rightarrow> pollGate jr (Some (jr_now jr + dur)) 0 sc1)))"

section \<open>The plan\<close>

definition buildImageStepName :: "build_image_config option \<Rightarrow> string" where
  "buildImageStepName cfg =
     (case cfg of None \<Rightarrow> ''build_image'' | Some c \<Rightarrow> if bi_name c \<noteq> [] then bi_name c else sanitizeCachePath (bi_tag c))"

definition notifyIdentifier :: "step \<Rightarrow> string" where
  "notifyIdentifier step = (let names = NotifyNames step in if names = [] then ''unknown'' else JoinStr names ''-'')"

definition stepStorageIdentifier :: "step \<Rightarrow> string" where
  "stepStorageIdentifier step =
     (let f = sfields step in
      if sf_task f \<noteq> [] then ''tasks/'' @ sf_task f
      else if sf_agent f \<noteq> [] then ''agent/'' @ sf_agent f
      else if sf_get f \<noteq> [] then ''get/'' @ sf_get f
      else if sf_put f \<noteq> [] then ''put/'' @ sf_put f
      else if sf_build_image f \<noteq> None then ''build_image/'' @ buildImageStepName (sf_build_image f)
      else if sf_notify f \<noteq> None then ''notify/'' @ notifyIdentifier step
      else if step_do step \<noteq> [] then ''do''
      else if step_try step \<noteq> [] then ''try''
      else if step_in_parallel step \<noteq> [] then ''in_parallel''
      else if sf_across f \<noteq> [] then ''across''
      else [])"

definition mark_skipped :: "'w step_env \<Rightarrow> step list \<Rightarrow> nat \<Rightarrow> 'w step_ctx \<Rightarrow> 'w step_ctx" where
  "mark_skipped env plan j sc =
     (let identifier = stepStorageIdentifier (plan ! j) in
      if identifier = [] then sc
      else set_drop env (BaseStorageKey env @ ''/'' @ zeroPadWithLength j (length plan) @ ''/'' @ identifier)
             (status_payload ''skipped'') sc)"

definition markRemainingStepsSkipped :: "'w step_env \<Rightarrow> step list \<Rightarrow> nat \<Rightarrow> 'w step_ctx \<Rightarrow> 'w step_ctx" where
  "markRemainingStepsSkipped env plan from_ix sc = fold (mark_skipped env plan) [from_ix..<length plan] sc"

fun plan_loop :: "'w step_env \<Rightarrow> 'w runner \<Rightarrow> step list \<Rightarrow> nat list \<Rightarrow> 'w step_ctx \<Rightarrow> 'w outcome" where
  "plan_loop env proc plan [] sc = (None, sc)"
| "plan_loop env proc plan (i # is) sc =
     (case proc (plan ! i) (zeroPadWithLength i (length plan)) sc of
        (Some e, sc1) \<Rightarrow> (Some e, markRemainingStepsSkipped env plan (i + 1) sc1)
      | (None, sc1) \<Rightarrow> plan_loop env proc plan is sc1)"

section \<open>Hooks of the job\<close>

definition dispatchJobFailureHook ::
  "job \<Rightarrow> 'w runner \<Rightarrow> failure_kind \<Rightarrow> go_error option \<Rightarrow> 'w step_ctx \<Rightarrow> 'w outcome" where
  "dispatchJobFailureHook j proc effectiveKind planErr sc =
     (if effectiveKind = FailureKindAborted \<and> job_on_abort j \<noteq> None
        then (None, run_hook proc (job_on_abort j) ''job/on_abort'' sc)
      else if effectiveKind = FailureKindErrored \<and> job_on_error j \<noteq> None
        then (None, run_hook proc (job_on_error j) ''job/on_error'' sc)
      else if effectiveKind \<in> {FailureKindFailed, FailureKindNone} \<and> job_on_failure j \<noteq> None
        then (None, run_hook proc (job_on_failure j) ''job/on_failure'' sc)
      else (planErr, sc))"

definition effective_kind :: "go_error option \<Rightarrow> 'w step_ctx \<Rightarrow> failure_kind" where
  "effective_kind planErr sc =
     (case planErr of
        Some e \<Rightarrow> if isAbortError e then FailureKindAborted
                  else if isErroredError e then FailureKindErrored
                  else if isFailedError e then FailureKindFailed
                  else FailureKindNone
      | None \<Rightarrow> if sc_failure_count sc > 0 then sc_last_failure sc else FailureKindNone)"

definition runJobHooks :: "job \<Rightarrow> 'w runner \<Rightarrow> go_error option \<Rightarrow> 'w step_ctx \<Rightarrow> 'w outcome" where
  "runJobHooks j proc planErr sc =
     (if (case planErr of None \<Rightarrow> False | Some e \<Rightarrow> is_assertion_error e) then
        (planErr, run_hook proc (job_ensure j) ''job/ensure'' sc)
      else
        (let (err, sc1) =
               (if planErr \<noteq> None \<or> sc_failure_count sc > 0
                then dispatchJobFailureHook j proc (effective_kind planErr sc) planErr sc
                else (planErr, run_hook proc (job_on_success j) ''job/on_success'' sc))
         in (err, run_hook proc (job_ensure j) ''job/ensure'' sc1)))"

section \<open>Run\<close>

definition validateAssertions :: "job \<Rightarrow> 'w step_ctx \<Rightarrow> go_error option" where
  "validateAssertions j sc =
     (case job_assert j of
        None \<Rightarrow> None
      | Some expected \<Rightarrow> validateExecution (''job '' @ go_quote (job_name j)) expected (sc_executed sc))"

definition failure_payload :: "go_error \<Rightarrow> json" where
  "failure_payload e = JObj [(''status'', JStr ''failure''), (''errorMessage'', JStr (error_text e))]"

text \<open>What follows the hooks: the assertion of the job, then the error that is left, then success.\<close>

definition finish_job :: "job_runner \<Rightarrow> 'w step_env \<Rightarrow> go_error option \<Rightarrow> 'w step_ctx \<Rightarrow> 'w outcome" where
  "finish_job jr env planErr sc =
     (let key = job_key jr env in
      case validateAssertions (jr_job jr) sc of
        Some e \<Rightarrow> (Some e, set_drop env key (failure_payload e) sc)
      | None \<Rightarrow>
          (case planErr of
             Some e \<Rightarrow>
               if is_assertion_error e \<or> job_assert (jr_job jr) = None
               then (Some e, set_drop env key (failure_payload e) sc)
               else (case storage_set env key (JObj [(''status'', JStr ''success''), (''errorMessage'', JStr (error_text e))]) sc of
                       (Some m, sc1) \<Rightarrow> (Some (Wrapped ''storage set success'' m), sc1)
                     | (None, sc1) \<Rightarrow> (None, sc1))
           | None \<Rightarrow>
               (case storage_set env key (status_payload ''success'') sc of
                  (Some m, sc1) \<Rightarrow> (Some (Wrapped ''storage set success'' m), sc1)
                | (None, sc1) \<Rightarrow> (None, sc1))))"

definition run_plan :: "job_runner \<Rightarrow> 'w step_env \<Rightarrow> 'w step_ctx \<Rightarrow> 'w outcome" where
  "run_plan jr env sc =
     (let proc = process_step env; plan = job_plan (jr_job jr);
          (planErr, sc1) = plan_loop env proc plan [0..<length plan] sc;
          (err, sc2) = runJobHooks (jr_job jr) proc planErr sc1
      in finish_job jr env err sc2)"

text \<open>\<open>env0\<close> is the environment of the run; a gate that is polled for ever gives \<open>None\<close>. The context starts afresh but for the
  store and the world.\<close>

definition fresh_ctx :: "'w step_ctx \<Rightarrow> 'w step_ctx" where
  "fresh_ctx sc = sc\<lparr>sc_executed := [], sc_preregistered := [], sc_failure_count := 0, sc_last_failure := FailureKindNone\<rparr>"

definition Run :: "job_runner \<Rightarrow> 'w step_env \<Rightarrow> 'w step_ctx \<Rightarrow> (go_error option \<times> 'w step_ctx) option" where
  "Run jr env0 sc0 =
     (let env = job_env jr env0; key = job_key jr env in
      case storage_set env key (status_payload ''pending'') (fresh_ctx sc0) of
        (Some e, sc1) \<Rightarrow> Some (Some (Wrapped ''storage set pending'' e), sc1)
      | (None, sc1) \<Rightarrow>
          (case evaluateWebhookFilter jr env sc1 of
             (True, sc2) \<Rightarrow> Some (None, sc2)
           | (False, sc2) \<Rightarrow>
               (case evaluateWebhookDedup jr env sc2 of
                  (True, sc3) \<Rightarrow> Some (None, sc3)
                | (False, sc3) \<Rightarrow>
                    (case job_gate (jr_job jr) of
                       None \<Rightarrow> Some (run_plan jr env sc3)
                     | Some gc \<Rightarrow>
                         (case runGate jr env gc sc3 of
                            None \<Rightarrow> None
                          | Some (Some e, sc4) \<Rightarrow>
                              Some (Some (Wrapped ''gate'' e), set_drop env key (status_payload ''failure'') sc4)
                          | Some (None, sc4) \<Rightarrow> Some (run_plan jr env sc4))))))"

section \<open>The status of the job\<close>

lemma job_env_simps [simp]:
  "env_namespace (job_env jr env) = env_namespace env" "env_set_fails (job_env jr env) = env_set_fails env"
  "env_run_id (job_env jr env) = env_run_id env" "env_job_name (job_env jr env) = job_name (jr_job jr)"
  "env_handlers (job_env jr env) = env_handlers env" "env_pick (job_env jr env) = env_pick env"
  "job_key jr (job_env jr env) = job_key jr env"
  by (simp_all add: job_env_def job_key_def)

lemma recorded_job_env [simp]: "recorded_status (job_env jr env) key sc = recorded_status env key sc"
  by (simp add: recorded_status_def)

lemma put_row_recorded:
  "sets_ok env \<Longrightarrow> recorded_status env key (set_drop env key (JObj ((''status'', JStr st) # rest)) sc) = Some st"
  by (simp add: set_drop_def set_row_recorded)

lemma finish_job_status:
  assumes "sets_ok env"
  shows "recorded_status env (job_key jr env) (snd (finish_job jr env planErr sc))
    = Some (if fst (finish_job jr env planErr sc) \<noteq> None then ''failure'' else ''success'')"
proof -
  have ok: "storage_set env (job_key jr env) (JObj ((''status'', JStr ''success'') # rest)) s =
      (None, set_drop env (job_key jr env) (JObj ((''status'', JStr ''success'') # rest)) s)" for rest s
    by (simp add: set_drop_def set_ok [OF assms])
  show ?thesis
    by (simp add: finish_job_def Let_def failure_payload_def status_payload_def ok put_row_recorded [OF assms]
        split: option.split)
qed

lemma run_plan_status:
  assumes "sets_ok env"
  shows "recorded_status env (job_key jr env) (snd (run_plan jr env sc))
    = Some (if fst (run_plan jr env sc) \<noteq> None then ''failure'' else ''success'')"
  unfolding run_plan_def Let_def split_beta by (rule finish_job_status [OF assms])

text \<open>A job is skipped when its webhook filter rejects the trigger, or the trigger is a duplicate.\<close>

definition job_skipped :: "job_runner \<Rightarrow> 'w step_env \<Rightarrow> 'w step_ctx \<Rightarrow> bool" where
  "job_skipped jr env sc \<longleftrightarrow> \<not> filter_passes jr \<or> fst (evaluateWebhookDedup jr env sc)"

text \<open>C13. The status recorded for a job that has returned is its outcome: \<open>failure\<close> exactly if it returned an error, otherwise
  \<open>success\<close>, or \<open>skipped\<close> if its webhook filter rejected the trigger or the trigger was a duplicate.\<close>

theorem job_status_is_outcome:
  assumes "sets_ok env" and "Run jr env sc = Some (e, sc')"
  shows "recorded_status env (job_key jr env) sc' =
    Some (if e \<noteq> None then ''failure''
          else if job_skipped jr (job_env jr env) (put_status (job_env jr env) (job_key jr env) ''pending'' (fresh_ctx sc))
               then ''skipped'' else ''success'')"
proof -
  let ?env = "job_env jr env" let ?key = "job_key jr env"
  have ok: "sets_ok ?env" using assms(1) by simp
  obtain sc1 where pending: "storage_set ?env ?key (status_payload ''pending'') (fresh_ctx sc) = (None, sc1)"
    using set_ok [OF ok] by blast
  have row: "recorded_status env ?key (set_drop ?env ?key (status_payload st) s) = Some st" for st s
    using put_row_recorded [OF ok, of ?key st "[]" s] by (simp add: status_payload_def)
  have plan: "recorded_status env ?key s' = Some (if r \<noteq> None then ''failure'' else ''success'')"
    if "run_plan jr ?env s = (r, s')" for r s s'
    using run_plan_status [OF ok, of jr s] that by simp
  obtain dup sc2 where dedup: "evaluateWebhookDedup jr ?env sc1 = (dup, sc2)"
    by (cases "evaluateWebhookDedup jr ?env sc1")
  show ?thesis
  proof (cases "filter_passes jr")
    case False
    then show ?thesis
      using assms(2) row pending by (auto simp: Run_def Let_def evaluateWebhookFilter_def job_skipped_def)
  next
    case True
    show ?thesis
    proof (cases dup)
      case dup: True
      then have "recorded_status env ?key sc2 = Some ''skipped''"
        using dedup row by (auto simp: evaluateWebhookDedup_def Let_def split: option.splits prod.splits if_splits)
      with dup True show ?thesis
        using assms(2) pending dedup by (auto simp: Run_def Let_def evaluateWebhookFilter_def job_skipped_def)
    next
      case False
      with True show ?thesis
        using assms(2) pending dedup plan row
        by (auto simp: Run_def Let_def evaluateWebhookFilter_def job_skipped_def split: option.splits prod.splits)
    qed
  qed
qed

section \<open>Errors and hooks\<close>

definition job_takes_error :: "job \<Rightarrow> go_error \<Rightarrow> bool" where
  "job_takes_error j e \<longleftrightarrow>
     (if isAbortError e then job_on_abort j \<noteq> None
      else if isErroredError e then job_on_error j \<noteq> None
      else job_on_failure j \<noteq> None)"

lemma job_hooks_error:
  "fst (runJobHooks j proc planErr sc) =
     (case planErr of
        None \<Rightarrow> None
      | Some e \<Rightarrow> if \<not> is_assertion_error e \<and> job_takes_error j e then None else Some e)"
  by (auto simp: runJobHooks_def Let_def dispatchJobFailureHook_def job_takes_error_def effective_kind_def split: option.split)

lemma finish_job_error:
  assumes "sets_ok env"
  shows "fst (finish_job jr env planErr sc) =
    (case validateAssertions (jr_job jr) sc of
       Some e \<Rightarrow> Some e
     | None \<Rightarrow> (case planErr of
                  None \<Rightarrow> None
                | Some e \<Rightarrow> if is_assertion_error e \<or> job_assert (jr_job jr) = None then Some e else None))"
  by (simp add: finish_job_def Let_def set_ok [OF assms] split: option.split)

lemma finish_job_executed [simp]: "sc_executed (snd (finish_job jr env planErr sc)) = sc_executed sc"
  by (simp add: finish_job_def Let_def set_drop_def storage_set_def split: option.split)

lemma validate_assertion: "validateAssertions j sc = Some e \<Longrightarrow> is_assertion_error e"
  by (auto simp: validateAssertions_def split: option.splits dest: validateExecution_assertion)

text \<open>C12. A plan that fails makes the job fail, with two exceptions: a job hook for that kind of failure consumes the
  error, and a job assertion that the executed tasks satisfy clears it. An assertion that fails in a step or in the job is never hidden; a job
  that ends without error has executed exactly the tasks of its assertion.\<close>

theorem job_outcome:
  assumes "sets_ok env"
    and "plan_loop env (process_step env) (job_plan (jr_job jr)) [0..<length (job_plan (jr_job jr))] sc = (planErr, sc1)"
    and "run_plan jr env sc = (r, sc')"
  shows "(case planErr of
      None \<Rightarrow> True
    | Some e \<Rightarrow> (is_assertion_error e \<longrightarrow> (\<exists>e'. r = Some e' \<and> is_assertion_error e'))
        \<and> (r = None \<longrightarrow> job_takes_error (jr_job jr) e \<or> job_assert (jr_job jr) \<noteq> None)
        \<and> (job_assert (jr_job jr) = None \<and> (is_assertion_error e \<or> \<not> job_takes_error (jr_job jr) e) \<longrightarrow> r = Some e))
    \<and> (r = None \<longrightarrow> (case job_assert (jr_job jr) of Some (Some names) \<Rightarrow> sc_executed sc' = names | _ \<Rightarrow> True))"
proof -
  obtain err sc2 where hooks: "runJobHooks (jr_job jr) (process_step env) planErr sc1 = (err, sc2)"
    by (cases "runJobHooks (jr_job jr) (process_step env) planErr sc1")
  have fin: "finish_job jr env err sc2 = (r, sc')"
    using assms(3) by (simp add: run_plan_def Let_def assms(2) hooks)
  have err: "err = (case planErr of None \<Rightarrow> None
      | Some e \<Rightarrow> if \<not> is_assertion_error e \<and> job_takes_error (jr_job jr) e then None else Some e)"
    using job_hooks_error [of "jr_job jr" "process_step env" planErr sc1] hooks by simp
  have r: "r = (case validateAssertions (jr_job jr) sc2 of Some e \<Rightarrow> Some e
      | None \<Rightarrow> (case err of None \<Rightarrow> None
                | Some e \<Rightarrow> if is_assertion_error e \<or> job_assert (jr_job jr) = None then Some e else None))"
    using finish_job_error [OF assms(1), of jr err sc2] fin by simp
  have executed: "sc_executed sc' = sc_executed sc2"
    using finish_job_executed [of jr env err sc2] fin by simp
  have none: "validateAssertions (jr_job jr) sc2 = None" if "job_assert (jr_job jr) = None"
    using that by (simp add: validateAssertions_def)
  have names: "sc_executed sc2 = names" if "validateAssertions (jr_job jr) sc2 = None" "job_assert (jr_job jr) = Some (Some names)" for names
    using that by (simp add: validateAssertions_def)
  have "r = None \<Longrightarrow> validateAssertions (jr_job jr) sc2 = None"
    unfolding r by (simp split: option.splits)
  then have 2: "r = None \<longrightarrow> (case job_assert (jr_job jr) of Some (Some names) \<Rightarrow> sc_executed sc' = names | _ \<Rightarrow> True)"
    using names executed by (auto split: option.split)
  show ?thesis
  proof (cases planErr)
    case (Some e)
    have 1: "is_assertion_error e \<longrightarrow> (\<exists>e'. r = Some e' \<and> is_assertion_error e')"
      unfolding r err Some using validate_assertion [of "jr_job jr" sc2] by (auto split: option.split)
    moreover have "r = None \<longrightarrow> job_takes_error (jr_job jr) e \<or> job_assert (jr_job jr) \<noteq> None"
      unfolding r err Some by (auto split: option.splits)
    moreover have "job_assert (jr_job jr) = None \<and> (is_assertion_error e \<or> \<not> job_takes_error (jr_job jr) e) \<longrightarrow> r = Some e"
      unfolding r err Some using none by auto
    ultimately show ?thesis using 2 Some by simp
  qed (use 2 in simp)
qed

section \<open>Gates\<close>

lemma on_store_simps [simp]:
  "sc_executed (snd (on_store f sc)) = sc_executed sc" "sc_sets (snd (on_store f sc)) = sc_sets sc"
  "sc_store (snd (on_store f sc)) = snd (f (sc_store sc))" "fst (on_store f sc) = fst (f (sc_store sc))"
  by (simp_all add: on_store_def split_beta Let_def)

definition gate_approved :: "job_runner \<Rightarrow> 'w step_ctx \<Rightarrow> bool" where
  "gate_approved jr sc \<longleftrightarrow> (\<exists>g. find_gate (jr_gate_id jr) (sc_store sc) = Some g \<and> g_status g = GateStatusApproved)"

lemma poll_result:
  assumes ret: "pollGate jr deadline k sc = Some y"
  shows "sc_executed (snd y) = sc_executed sc \<and> (fst y = None \<longrightarrow> gate_approved jr (snd y))"
proof (rule pollGate.raw_induct [where P = "\<lambda>jr deadline k sc y.
    sc_executed (snd y) = sc_executed sc \<and> (fst y = None \<longrightarrow> gate_approved jr (snd y))", OF _ ret], goal_cases)
  case (1 poll jr deadline k sc y)
  show ?case
    using 1(2) by (auto simp: Let_def GetGate_def gate_approved_def
        split: if_splits option.splits sum.splits gate_status.splits dest: 1(1))
qed

text \<open>Polling ends once the deadline has passed.\<close>

lemma poll_ends:
  fixes sc :: "'w step_ctx"
  shows "pr_now (jr_polls jr (k + n)) > t \<Longrightarrow> pollGate jr (Some t) k sc \<noteq> None"
proof (induction n arbitrary: k sc)
  case 0
  then show ?case by (subst pollGate.simps) (simp add: Let_def)
next
  case (Suc n)
  then have "pollGate jr (Some t) (k + 1) s \<noteq> None" for s :: "'w step_ctx"
    using Suc.IH [of "Suc k" s] Suc.prems by simp
  then show ?case
    by (subst pollGate.simps) (simp add: Let_def split: sum.split gate_status.split option.split)
qed

lemma run_gate_result:
  assumes "runGate jr env gc sc = Some (e, sc')"
  shows "sc_executed sc' = sc_executed sc \<and> (e = None \<longrightarrow> gate_approved jr sc')"
proof -
  obtain r sc1 where save: "on_store (SaveGate (to_seconds (jr_now jr)) (new_gate jr env gc)) sc = (r, sc1)"
    by (cases "on_store (SaveGate (to_seconds (jr_now jr)) (new_gate jr env gc)) sc")
  have "sc_executed sc1 = sc_executed sc" using on_store_simps(1) save by (metis snd_conv)
  then show ?thesis
    using assms by (auto simp: runGate_def save dest!: poll_result split: option.splits if_splits)
qed


section \<open>The job on the engine\<close>

lemma run_hook_le: "task_le sc (run_hook (process_step (task_engine env d)) h p sc)"
  by (auto simp: run_hook_def task_le_refl engine.process_step_keeps split: option.split)

lemma mark_le: "task_le sc (markRemainingStepsSkipped env plan i sc)"
proof -
  have "task_le sc (fold (mark_skipped env plan) js sc)" for js
    by (induction js arbitrary: sc) (auto simp: mark_skipped_def Let_def intro: task_le_refl task_le_trans set_drop_le)
  then show ?thesis by (simp add: markRemainingStepsSkipped_def)
qed

lemma plan_loop_le: "task_le sc (snd (plan_loop env' (process_step (task_engine env d)) plan is sc))"
proof (induction "is" arbitrary: sc)
  case (Cons i "is")
  obtain r sc1 where s: "process_step (task_engine env d) (plan ! i) (zeroPadWithLength i (length plan)) sc = (r, sc1)"
    by (cases "process_step (task_engine env d) (plan ! i) (zeroPadWithLength i (length plan)) sc")
  then have "task_le sc sc1"
    using engine.process_step_keeps [of sc env d "plan ! i" "zeroPadWithLength i (length plan)"] by simp
  then show ?case
    using Cons.IH [of sc1] s by (auto split: option.split intro: task_le_trans mark_le)
qed (simp add: task_le_refl)

lemma job_hooks_le: "task_le sc (snd (runJobHooks j (process_step (task_engine env d)) planErr sc))"
  by (auto simp: runJobHooks_def dispatchJobFailureHook_def Let_def split: option.split
      intro: run_hook_le task_le_trans [OF run_hook_le run_hook_le])

lemma finish_job_le: "task_le sc (snd (finish_job jr env planErr sc))"
  by (auto simp: finish_job_def Let_def set_drop_le split: option.split prod.split dest: storage_set_le)

lemma run_plan_le: "task_le sc (snd (run_plan jr (task_engine env d) sc))"
proof -
  let ?proc = "process_step (task_engine env d)" let ?plan = "job_plan (jr_job jr)"
  obtain e sc1 where p: "plan_loop (task_engine env d) ?proc ?plan [0..<length ?plan] sc = (e, sc1)"
    by (cases "plan_loop (task_engine env d) ?proc ?plan [0..<length ?plan] sc")
  obtain e2 sc2 where h: "runJobHooks (jr_job jr) ?proc e sc1 = (e2, sc2)"
    by (cases "runJobHooks (jr_job jr) ?proc e sc1")
  have "task_le sc sc1" "task_le sc1 sc2"
    using plan_loop_le [of sc "task_engine env d" env d ?plan "[0..<length ?plan]"] job_hooks_le [of sc1 "jr_job jr" env d e] p h
    by simp_all
  then have "task_le sc (snd (finish_job jr (task_engine env d) e2 sc2))"
    using finish_job_le by (blast intro: task_le_trans)
  then show ?thesis by (simp add: run_plan_def Let_def p h)
qed

lemma job_env_engine: "job_env jr (task_engine (job_env jr env) d) = task_engine (job_env jr env) d"
  by (simp add: job_env_def task_engine_def)

lemma gate_approved_kept: "task_le sc sc' \<Longrightarrow> gate_approved jr sc \<Longrightarrow> gate_approved jr sc'"
  by (simp add: task_le_def ctx_le_def same_tables_def gate_approved_def find_gate_def)

lemma set_drop_executed [simp]: "sc_executed (set_drop env key v sc) = sc_executed sc"
  by (simp add: set_drop_def)

lemma webhook_executed:
  "evaluateWebhookFilter jr env sc = (b, sc1) \<Longrightarrow> sc_executed sc1 = sc_executed sc"
  "evaluateWebhookDedup jr env sc = (b, sc1) \<Longrightarrow> sc_executed sc1 = sc_executed sc"
  by (auto simp: evaluateWebhookFilter_def evaluateWebhookDedup_def Let_def on_store_def split_beta split: if_splits option.splits)

text \<open>C10. No task of a gated job runs before somebody has approved its gate: if the job has executed any task, the store
  holds its gate as approved, whatever others did to the store while the job was waiting.\<close>

theorem gate_guards_job:
  assumes "Run jr (task_engine (job_env jr env) d) sc = Some (e, sc')" and "job_gate (jr_job jr) \<noteq> None"
    and "sc_executed sc' \<noteq> []"
  shows "gate_approved jr sc'"
proof -
  let ?env = "task_engine (job_env jr env) d"
  let ?key = "job_key jr ?env"
  obtain gc where gc: "job_gate (jr_job jr) = Some gc" using assms(2) by auto
  obtain e1 sc1 where 1: "storage_set ?env ?key (status_payload ''pending'') (fresh_ctx sc) = (e1, sc1)"
    by (cases "storage_set ?env ?key (status_payload ''pending'') (fresh_ctx sc)")
  obtain b2 sc2 where 2: "evaluateWebhookFilter jr ?env sc1 = (b2, sc2)" by (cases "evaluateWebhookFilter jr ?env sc1")
  obtain b3 sc3 where 3: "evaluateWebhookDedup jr ?env sc2 = (b3, sc3)" by (cases "evaluateWebhookDedup jr ?env sc2")
  have "sc_executed sc1 = []"
    using 1 set_count(2) [of ?env ?key "status_payload ''pending''" "fresh_ctx sc"] by (simp add: fresh_ctx_def)
  then have none: "sc_executed sc1 = []" "sc_executed sc2 = []" "sc_executed sc3 = []"
    using webhook_executed(1) [OF 2] webhook_executed(2) [OF 3] by simp_all
  have run: "Run jr ?env sc = Some (e, sc')" "job_env jr ?env = ?env"
    using assms(1) job_env_engine by simp_all
  then obtain sc4 where gate: "runGate jr ?env gc sc3 = Some (None, sc4)" and plan: "run_plan jr ?env sc4 = (e, sc')"
    using 1 none assms(3) run_gate_result [of jr ?env gc sc3]
    by (auto simp: Run_def Let_def 2 3 gc split: option.splits bool.splits)
  show ?thesis
    using gate_approved_kept [OF run_plan_le [of sc4 jr "job_env jr env" d]] run_gate_result [OF gate] plan by simp
qed

section \<open>Duplicates\<close>

definition effective_ttl :: "job_runner \<Rightarrow> int" where
  "effective_ttl jr = (if jr_dedup_ttl jr = 0 then defaultDedupTTL else jr_dedup_ttl jr)"

lemma to_seconds_mono: "a \<le> b \<Longrightarrow> to_seconds a \<le> to_seconds b"
  by (simp add: to_seconds_def zdiv_mono1)

text \<open>A webhook is processed once: after a trigger with a deduplication key was let through, another trigger of the same
  pipeline with the same key is skipped as long as no more than the time to live has passed since the first.\<close>

theorem duplicate_webhook_skipped:
  assumes "dedup_hash jr = Some h" and "evaluateWebhookDedup jr env sc = (False, sc1)"
    and "find_pipeline (jr_pipeline_id jr) (sc_store sc) \<noteq> None"
    and "dedup_hash jr2 = Some h" and "jr_pipeline_id jr2 = jr_pipeline_id jr"
    and "jr_now jr2 - effective_ttl jr2 \<le> jr_now jr" and "webhook_dedup (sc_store sc2) = webhook_dedup (sc_store sc1)"
  shows "fst (evaluateWebhookDedup jr2 env2 sc2)"
proof -
  let ?row = "\<lparr>d_pipeline_id = jr_pipeline_id jr, d_key_hash = h, d_created_at = to_seconds (jr_now jr)\<rparr>"
  have "?row \<in> set (webhook_dedup (sc_store sc1))"
    using assms(1-3)
    by (auto simp: evaluateWebhookDedup_def on_store_def PruneWebhookDedup_def RecordWebhookDedup_def find_pipeline_def
        Let_def split: if_splits)
  moreover have "\<not> to_seconds (jr_now jr) < to_seconds (jr_now jr2 - effective_ttl jr2)"
    using to_seconds_mono [OF assms(6)] by simp
  ultimately have "\<exists>e\<in>set (webhook_dedup (sc_store sc2)). \<not> d_created_at e < to_seconds (jr_now jr2 - effective_ttl jr2)
      \<and> d_pipeline_id e = jr_pipeline_id jr2 \<and> d_key_hash e = h"
    using assms(5,7) by force
  then show ?thesis
    using assms(4)
    by (auto simp: evaluateWebhookDedup_def on_store_def PruneWebhookDedup_def RecordWebhookDedup_def effective_ttl_def Let_def)
qed

section \<open>Instances\<close>

definition sample_jr :: "job \<Rightarrow> job_runner" where
  "sample_jr j =
     \<lparr>jr_job = j, jr_pipeline_id = ''p1'', jr_pipeline_max_in_flight = 0, jr_webhook = None, jr_dedup_ttl = 0, jr_now = 0,
      jr_gate_id = ''g'', jr_evaluate = (\<lambda>_ _. Inr True), jr_eval_string = (\<lambda>_ _. Inr ''k''), jr_sha256 = id,
      jr_polls = (\<lambda>n. \<lparr>pr_now = int n * 10 ^ 10,
        pr_others = (\<lambda>d. snd (ResolveGate 5 ''g'' GateStatusApproved ''ann'' d)), pr_ctx_err = None\<rparr>)\<rparr>"

definition run_env :: task_env where
  "run_env = task_env_sample\<lparr>env_run_id := ''r1''\<rparr>"

definition run_ctx :: task_ctx where
  "run_ctx = task_ctx_sample\<lparr>sc_store := done_db\<rparr>"

lemma sets_ok_run_env [simp]: "sets_ok run_env"
  by (simp add: run_env_def task_env_sample_def)

theorem job_status_is_outcome_witness:
  "let jr = sample_jr (zero_job ''j'' []) in
   recorded_status run_env (job_key jr run_env) (snd (the (Run jr run_env run_ctx))) = Some ''success''"
proof -
  let ?jr = "sample_jr (zero_job ''j'' [])"
  have skip: "job_skipped ?jr env sc = False" for env and sc :: task_ctx
    by (simp add: job_skipped_def filter_passes_def evaluateWebhookDedup_def dedup_hash_def sample_jr_def split: option.split)
  have "\<exists>sc'. Run ?jr run_env run_ctx = Some (None, sc')"
    by (simp add: Run_def Let_def set_ok evaluateWebhookFilter_def filter_passes_def evaluateWebhookDedup_def dedup_hash_def
        run_plan_def runJobHooks_def run_hook_def finish_job_def validateAssertions_def fresh_ctx_def run_ctx_def
        task_ctx_sample_def sample_jr_def zero_job_def split: option.split)
  then obtain sc' where "Run ?jr run_env run_ctx = Some (None, sc')" ..
  from job_status_is_outcome [OF sets_ok_run_env this] this skip show ?thesis by (simp add: Let_def)
qed

theorem job_outcome_witness:
  "fst (run_plan (sample_jr (zero_job ''j'' [leaf_step zero_fields])) run_env run_ctx) \<noteq> None"
proof -
  let ?jr = "sample_jr (zero_job ''j'' [leaf_step zero_fields])"
  let ?e = "Plain (''unknown step type in job '' @ go_quote (env_job_name run_env) @ '' at prefix '' @ go_quote (zeroPadWithLength 0 1))"
  have "process_step run_env (leaf_step zero_fields) (zeroPadWithLength 0 1) run_ctx = (Some ?e, run_ctx)"
    by (subst process_step_unfold)
      (simp add: step_body_def injectJobParams_def inject_fields_def identifyStepType_def leaf_step_def zero_fields_def with_fields_def Let_def)
  then have plan: "plan_loop run_env (process_step run_env) (job_plan (jr_job ?jr)) [0..<length (job_plan (jr_job ?jr))] run_ctx
      = (Some ?e, markRemainingStepsSkipped run_env [leaf_step zero_fields] 1 run_ctx)"
    by (simp add: sample_jr_def zero_job_def upt_rec)
  have "job_assert (jr_job ?jr) = None" "\<not> job_takes_error (jr_job ?jr) ?e"
    by (simp_all add: sample_jr_def zero_job_def job_takes_error_def isAbortError_def isErroredError_def)
  with job_outcome [OF sets_ok_run_env plan, of "fst (run_plan ?jr run_env run_ctx)" "snd (run_plan ?jr run_env run_ctx)"]
  show ?thesis by simp
qed

definition gated_job :: job where
  "gated_job = (zero_job ''j'' [task_step ''t''])\<lparr>job_gate := Some \<lparr>gate_message = [], gate_timeout = ''1s''\<rparr>\<rparr>"

lemma ParseDuration_1s: "ParseDuration ''1s'' = Some (10 ^ 9)"
  by (simp add: ParseDuration_def parse_duration_loop.simps [of 0] is_digit_def unit_end_def frac_part_def
      val10_def duration_units_def gm_get_def Let_def)


lemma executes_task:
  assumes "sc_preregistered sc = []"
  shows "sc_executed (snd (process_step (task_engine env d) (task_step ''t'') p sc)) \<noteq> []"
proof -
  let ?eng = "task_engine env d"
  let ?s = "injectJobParams (env_job_params env) (task_step ''t'')"
  have f: "sf_across (sfields ?s) = []" "sf_attempts (sfields ?s) = 0" "sf_task (sfields ?s) = ''t''" "sf_parallelism (sfields ?s) = 0"
    "step_ensure ?s = None" "step_on_success ?s = None" "step_on_abort ?s = None" "step_on_error ?s = None" "step_on_failure ?s = None"
    by (simp_all add: injectJobParams_def inject_fields_def task_step_def leaf_step_def task_fields_def zero_fields_def)
  have "process_step ?eng (task_step ''t'') p sc = run_handler (process_step ?eng) (TaskHandler env d) ?s p sc"
    by (subst process_step_unfold)
      (simp add: step_body_def Let_def f identifyStepType_def handler_for_def task_engine_def task_handlers_def)
  moreover have "snd (run_handler r h ?s p sc) = snd (h ?s p sc)" for r h
    by (auto simp: run_handler_def f run_hook_def dispatchStepHook_def dispatchOuterErrorHook_def dispatchInnerFailureHook_def
        Let_def split_beta split: option.split)
  moreover have "task_le (appendExecutedTask ''t'' sc) (snd (TaskHandler env d ?s p sc))"
    using assms by (simp add: TaskHandler_def f Let_def runTask_le)
  ultimately show ?thesis by (auto simp: task_le_def ctx_le_def appendExecutedTask_def)
qed

lemma task_le_executed: "task_le sc sc' \<Longrightarrow> sc_executed sc \<noteq> [] \<Longrightarrow> sc_executed sc' \<noteq> []"
  by (auto simp: task_le_def ctx_le_def)

lemma gated_plan_executes:
  assumes "sc_preregistered sc = []"
  shows "sc_executed (snd (run_plan (sample_jr gated_job) (task_engine env d) sc)) \<noteq> []"
proof -
  let ?proc = "process_step (task_engine env d)" let ?j = "jr_job (sample_jr gated_job)"
  have plan: "job_plan ?j = [task_step ''t'']" by (simp add: sample_jr_def gated_job_def zero_job_def)
  obtain e sc1 where s: "?proc (task_step ''t'') (zeroPadWithLength 0 1) sc = (e, sc1)"
    by (cases "?proc (task_step ''t'') (zeroPadWithLength 0 1) sc")
  have "sc_executed sc1 \<noteq> []" using executes_task [OF assms, of env d "zeroPadWithLength 0 1"] s by simp
  moreover obtain e2 sc2 where p: "plan_loop (task_engine env d) ?proc (job_plan ?j) [0..<length (job_plan ?j)] sc = (e2, sc2)"
    and "sc2 = sc1 \<or> sc2 = markRemainingStepsSkipped (task_engine env d) [task_step ''t''] 1 sc1"
    using s by (cases e) (auto simp: plan upt_rec)
  ultimately have "sc_executed sc2 \<noteq> []" using task_le_executed [OF mark_le] by blast
  from task_le_executed [OF job_hooks_le this] show ?thesis
    by (simp add: run_plan_def Let_def split_beta p)
qed

lemma gate_opens:
  assumes "same_tables done_db (sc_store sc)" and "sc_preregistered sc = []"
  shows "\<exists>sc4. runGate (sample_jr gated_job) (job_env (sample_jr gated_job) run_env) \<lparr>gate_message = [], gate_timeout = ''1s''\<rparr> sc
      = Some (None, sc4) \<and> sc_preregistered sc4 = []"
proof -
  have tabs: "pipelines (sc_store sc) = pipelines done_db" "runs (sc_store sc) = runs done_db" "gates (sc_store sc) = []"
    using assms(1) by (simp_all add: same_tables_def done_db_def empty_db_def)
  have free: "find_gate ''g'' (sc_store sc) = None" "find_pipeline ''p1'' (sc_store sc) \<noteq> None"
    "find_run ''r1'' (sc_store sc) \<noteq> None"
    by (simp_all add: find_gate_def find_pipeline_def find_run_def tabs done_db_def zero_pipeline_def sample_run_def)
  show ?thesis
    using assms(2) free
    by (simp add: runGate_def on_store_def SaveGate_def new_gate_def sample_jr_def ParseDuration_1s run_env_def task_env_sample_def
        pollGate.simps [of _ _ 0] Let_def ResolveGate_def find_gate_def GetGate_def tabs)
qed

theorem gate_guards_job_witness:
  "case Run (sample_jr gated_job) (task_engine (job_env (sample_jr gated_job) run_env) (sample_driver (Exited 0))) run_ctx of
     None \<Rightarrow> False | Some (e, sc') \<Rightarrow> sc_executed sc' \<noteq> [] \<and> gate_approved (sample_jr gated_job) sc'"
proof -
  let ?jr = "sample_jr gated_job" let ?env = "task_engine (job_env ?jr run_env) (sample_driver (Exited 0))"
  let ?gc = "\<lparr>gate_message = [], gate_timeout = ''1s''\<rparr>"
  have ok: "sets_ok ?env" by (simp add: task_engine_def)
  have gc: "job_gate (jr_job ?jr) = Some ?gc" by (simp add: sample_jr_def gated_job_def)
  have nohook: "filter_passes ?jr" "dedup_hash ?jr = None"
    by (simp_all add: filter_passes_def dedup_hash_def sample_jr_def split: option.split)
  obtain sc1 where sc1: "storage_set ?env (job_key ?jr ?env) (status_payload ''pending'') (fresh_ctx run_ctx) = (None, sc1)"
    and "sc_preregistered sc1 = []" "same_tables done_db (sc_store sc1)"
    using set_ok [OF ok] Set_tables by (auto simp: fresh_ctx_def run_ctx_def)
  then obtain sc4 where "runGate ?jr (job_env ?jr run_env) ?gc sc1 = Some (None, sc4)" and sc4: "sc_preregistered sc4 = []"
    using gate_opens by blast
  moreover have "runGate ?jr ?env ?gc sc1 = runGate ?jr (job_env ?jr run_env) ?gc sc1"
    by (simp add: runGate_def new_gate_def task_engine_def)
  ultimately have "Run ?jr ?env run_ctx = Some (run_plan ?jr ?env sc4)"
    using sc1 nohook gc by (simp add: Run_def Let_def job_env_engine evaluateWebhookFilter_def evaluateWebhookDedup_def)
  then obtain e sc' where run: "Run ?jr ?env run_ctx = Some (e, sc')" and "run_plan ?jr ?env sc4 = (e, sc')"
    by (cases "run_plan ?jr ?env sc4") simp
  then have "sc_executed sc' \<noteq> []" using gated_plan_executes [OF sc4, of "job_env ?jr run_env" "sample_driver (Exited 0)"] by simp
  with gate_guards_job [OF run] gc run show ?thesis by simp
qed

definition hooked_job :: job where
  "hooked_job = (zero_job ''j'' [])\<lparr>job_triggers := Some
     \<lparr>tr_webhook = Some \<lparr>wt_filter = [], wt_dedup_key = ''key'', wt_params = []\<rparr>, tr_schedule = None, tr_passed = []\<rparr>\<rparr>"

theorem duplicate_webhook_skipped_witness:
  "let jr = (sample_jr hooked_job)\<lparr>jr_webhook := Some JNull\<rparr> in
   \<not> fst (evaluateWebhookDedup jr run_env run_ctx)
   \<and> fst (evaluateWebhookDedup (jr\<lparr>jr_now := 60 * 10 ^ 9\<rparr>) run_env (snd (evaluateWebhookDedup jr run_env run_ctx)))"
proof -
  let ?jr = "(sample_jr hooked_job)\<lparr>jr_webhook := Some JNull\<rparr>"
  have h: "dedup_hash ?jr = Some ''k''" "dedup_hash (?jr\<lparr>jr_now := 60 * 10 ^ 9\<rparr>) = Some ''k''"
    by (simp_all add: dedup_hash_def webhook_trigger_def sample_jr_def hooked_job_def DedupKeyHash_def)
  have known: "find_pipeline (jr_pipeline_id ?jr) (sc_store run_ctx) \<noteq> None"
    by (simp add: find_pipeline_def run_ctx_def done_db_def sample_jr_def zero_pipeline_def)
  have first: "evaluateWebhookDedup ?jr run_env run_ctx = (False, snd (evaluateWebhookDedup ?jr run_env run_ctx))"
    using h known
    by (auto simp: evaluateWebhookDedup_def on_store_def PruneWebhookDedup_def RecordWebhookDedup_def find_pipeline_def Let_def
        run_ctx_def done_db_def empty_db_def task_ctx_sample_def)
  moreover have "fst (evaluateWebhookDedup (?jr\<lparr>jr_now := 60 * 10 ^ 9\<rparr>) run_env (snd (evaluateWebhookDedup ?jr run_env run_ctx)))"
    by (rule duplicate_webhook_skipped [OF h(1) first known h(2)])
      (simp_all add: sample_jr_def effective_ttl_def defaultDedupTTL_def)
  ultimately show ?thesis by (metis (no_types, lifting) fst_conv)
qed

end
