(* ===== verification/Runner.thy ===== *)
theory Runner
  imports Job_Run Validate
begin

text \<open>
  \<open>Runner.Run\<close> of \<open>runtime/backwards/runner.go\<close>: the jobs of a pipeline in their order, each followed by the jobs
  that wait for it by a \<open>passed\<close> constraint, the filter by trigger type, targeted runs and the pipeline's assertion.
  Running one job is the argument \<open>exec\<close>, which \<open>Run_pipeline\<close> instantiates with \<open>Job_Run.Run\<close>; \<open>None\<close> is a job
  that never returns. The recursion from a job to its dependents is bounded by fuel, one more than the number of jobs.
\<close>

section \<open>State\<close>

record 'w run_state =
  rs_results :: "(string, bool) gomap"
  rs_executed :: "string list"
  rs_ctx :: "'w step_ctx"

type_synonym 'w run_result = "(go_error option \<times> 'w run_state) option"
type_synonym 'w job_exec = "job \<Rightarrow> 'w step_ctx \<Rightarrow> (go_error option \<times> 'w step_ctx) option"

record pipeline_runner =
  rn_config :: config
  rn_target_jobs :: "string list"
  rn_trigger_type :: "trigger_type option"

definition set_row :: "'w step_env \<Rightarrow> string \<Rightarrow> (string \<times> json) list \<Rightarrow> 'w run_state \<Rightarrow> 'w run_state" where
  "set_row env name row st =
     st\<lparr>rs_ctx := set_drop env (''/pipeline/'' @ env_run_id env @ ''/jobs/'' @ name) (JObj row) (rs_ctx st)\<rparr>"

section \<open>Passed constraints\<close>

definition passed_deps :: "job \<Rightarrow> string list" where
  "passed_deps j =
     concat (map (\<lambda>s. if sf_get (sfields s) \<noteq> [] then gc_passed (sf_get_config (sfields s)) else []) (job_plan j))"

definition isJobPassedSatisfied :: "'w step_env \<Rightarrow> string \<Rightarrow> 'w run_state \<Rightarrow> bool" where
  "isJobPassedSatisfied env dep st =
     (case gm_get (rs_results st) dep of
        Some succeeded \<Rightarrow> succeeded
      | None \<Rightarrow> GetMostRecentJobStatus (env_namespace env) [] dep (sc_store (rs_ctx st)) = ''success'')"

definition canJobRun :: "'w step_env \<Rightarrow> job \<Rightarrow> 'w run_state \<Rightarrow> bool" where
  "canJobRun env j st \<longleftrightarrow> (\<forall>dep\<in>set (passed_deps j). isJobPassedSatisfied env dep st)"

text \<open>A job is listed under a dependency once for every constraint that names it.\<close>

definition buildDependentsIndex :: "config \<Rightarrow> string \<Rightarrow> job list" where
  "buildDependentsIndex cfg dep =
     concat (map (\<lambda>j. map (\<lambda>_. j) (filter (\<lambda>d. d = dep) (passed_deps j))) (cfg_jobs cfg))"

section \<open>Before the run\<close>

definition computeBlockedBy :: "'w step_env \<Rightarrow> job \<Rightarrow> 'w run_state \<Rightarrow> json list" where
  "computeBlockedBy env j st =
     List.map_filter (\<lambda>dep.
       let last = GetMostRecentJobStatus (env_namespace env) [] dep (sc_store (rs_ctx st)) in
       if last = ''success'' then None
       else Some (JObj [(''job'', JStr dep), (''lastStatus'', JStr (if last = [] then ''never-run'' else last))]))
     (passed_deps j)"

definition prewrite_row :: "'w step_env \<Rightarrow> job \<Rightarrow> 'w run_state \<Rightarrow> (string \<times> json) list" where
  "prewrite_row env j st =
     [(''status'', JStr ''pending''), (''dependsOn'', JArr (map JStr (extractJobDependencies (job_plan j))))]
     @ (let blocked = computeBlockedBy env j st in if blocked = [] then [] else [(''blockedBy'', JArr blocked)])"

definition prewriteJobStates :: "'w step_env \<Rightarrow> config \<Rightarrow> 'w run_state \<Rightarrow> 'w run_state" where
  "prewriteJobStates env cfg st = fold (\<lambda>j st. set_row env (job_name j) (prewrite_row env j st) st) (cfg_jobs cfg) st"

definition shouldRunForTrigger :: "pipeline_runner \<Rightarrow> job \<Rightarrow> bool" where
  "shouldRunForTrigger rn j =
     (case job_triggers j of
        None \<Rightarrow> True
      | Some t \<Rightarrow>
          (case rn_trigger_type rn of
             Some TriggerTypeWebhook \<Rightarrow> tr_webhook t \<noteq> None
           | Some TriggerTypeSchedule \<Rightarrow> tr_schedule t \<noteq> None
           | Some TriggerTypePassed \<Rightarrow> tr_passed t \<noteq> []
           | Some TriggerTypeManual \<Rightarrow> False
           | Some TriggerTypeCLI \<Rightarrow> False
           | Some TriggerTypeResume \<Rightarrow> False
           | Some TriggerTypeSeed \<Rightarrow> True
           | None \<Rightarrow> True))"

definition trigger_text :: "trigger_type option \<Rightarrow> string" where
  "trigger_text t =
     (case t of
        None \<Rightarrow> ''unknown''
      | Some TriggerTypeManual \<Rightarrow> ''manual'' | Some TriggerTypeWebhook \<Rightarrow> ''webhook'' | Some TriggerTypeCLI \<Rightarrow> ''cli''
      | Some TriggerTypeResume \<Rightarrow> ''resume'' | Some TriggerTypeSchedule \<Rightarrow> ''schedule'' | Some TriggerTypePassed \<Rightarrow> ''passed''
      | Some TriggerTypeSeed \<Rightarrow> ''seed'')"

definition markSkippedByTrigger :: "'w step_env \<Rightarrow> pipeline_runner \<Rightarrow> job \<Rightarrow> 'w run_state \<Rightarrow> 'w run_state" where
  "markSkippedByTrigger env rn j =
     set_row env (job_name j)
       [(''status'', JStr ''skipped''),
        (''reason'', JStr (''trigger type '' @ trigger_text (rn_trigger_type rn) @ '' not declared on job''))]"

section \<open>Running jobs\<close>

definition done_job :: "job \<Rightarrow> 'w run_state \<Rightarrow> bool" where
  "done_job j st \<longleftrightarrow> gm_get (rs_results st) (job_name j) \<noteq> None"

definition job_failed :: "job \<Rightarrow> go_error \<Rightarrow> go_error" where
  "job_failed j e = Wrapped (''job '' @ go_quote (job_name j)) e"

definition record_result :: "job \<Rightarrow> bool \<Rightarrow> 'w step_ctx \<Rightarrow> 'w run_state \<Rightarrow> 'w run_state" where
  "record_result j ok c st =
     st\<lparr>rs_results := gm_set (job_name j) ok (rs_results st),
        rs_executed := rs_executed st @ (if ok then [job_name j] else []), rs_ctx := c\<rparr>"

function (sequential) runJob :: "nat \<Rightarrow> 'w step_env \<Rightarrow> config \<Rightarrow> 'w job_exec \<Rightarrow> job \<Rightarrow> 'w run_state \<Rightarrow> 'w run_result"
  and runDependents :: "nat \<Rightarrow> 'w step_env \<Rightarrow> config \<Rightarrow> 'w job_exec \<Rightarrow> job list \<Rightarrow> 'w run_state \<Rightarrow> 'w run_result" where
  "runJob 0 env cfg exec j st = Some (Some (Plain ''out of fuel''), st)"
| "runJob (Suc n) env cfg exec j st =
     (if done_job j st then Some (None, st)
      else (case exec j (rs_ctx st) of
              None \<Rightarrow> None
            | Some (Some e, c) \<Rightarrow> Some (Some (job_failed j e), record_result j False c st)
            | Some (None, c) \<Rightarrow>
                runDependents n env cfg exec (buildDependentsIndex cfg (job_name j)) (record_result j True c st)))"
| "runDependents n env cfg exec [] st = Some (None, st)"
| "runDependents n env cfg exec (j # js) st =
     (if canJobRun env j st then
        (case runJob n env cfg exec j st of
           Some (None, st1) \<Rightarrow> runDependents n env cfg exec js st1
         | r \<Rightarrow> r)
      else runDependents n env cfg exec js st)"
  by pat_completeness auto
termination
  by (relation "measures [\<lambda>x. case x of Inl (n, _) \<Rightarrow> n | Inr (n, _) \<Rightarrow> n,
      \<lambda>x. case x of Inl _ \<Rightarrow> 0 | Inr (_, _, _, _, js, _) \<Rightarrow> Suc (length js)]") auto

definition enough_fuel :: "config \<Rightarrow> nat" where
  "enough_fuel cfg = Suc (length (cfg_jobs cfg))"

fun run_all :: "'w step_env \<Rightarrow> pipeline_runner \<Rightarrow> 'w job_exec \<Rightarrow> job list \<Rightarrow> 'w run_state \<Rightarrow> 'w run_result" where
  "run_all env rn exec [] st = Some (None, st)"
| "run_all env rn exec (j # js) st =
     (if \<not> shouldRunForTrigger rn j then run_all env rn exec js (markSkippedByTrigger env rn j st)
      else if canJobRun env j st then
        (case runJob (enough_fuel (rn_config rn)) env (rn_config rn) exec j st of
           Some (None, st1) \<Rightarrow> run_all env rn exec js st1
         | r \<Rightarrow> r)
      else run_all env rn exec js st)"

text \<open>\<open>jobsByName\<close> keeps the last job of a name.\<close>

definition job_by_name :: "config \<Rightarrow> string \<Rightarrow> job option" where
  "job_by_name cfg name = find (\<lambda>j. job_name j = name) (rev (cfg_jobs cfg))"

fun run_targets :: "'w step_env \<Rightarrow> pipeline_runner \<Rightarrow> 'w job_exec \<Rightarrow> string list \<Rightarrow> 'w run_state \<Rightarrow> 'w run_result" where
  "run_targets env rn exec [] st = Some (None, st)"
| "run_targets env rn exec (name # names) st =
     (case job_by_name (rn_config rn) name of
        None \<Rightarrow> Some (Some (Plain (''target job '' @ go_quote name @ '' not found in pipeline'')), st)
      | Some j \<Rightarrow>
          if \<not> canJobRun env j st then
            run_targets env rn exec names
              (set_row env (job_name j)
                 [(''status'', JStr ''skipped''), (''reason'', JStr ''passed constraints not satisfied'')] st)
          else
            (case runJob (enough_fuel (rn_config rn)) env (rn_config rn) exec j st of
               Some (None, st1) \<Rightarrow> run_targets env rn exec names st1
             | r \<Rightarrow> r))"

definition mark_unexecuted :: "'w step_env \<Rightarrow> config \<Rightarrow> 'w run_state \<Rightarrow> 'w run_state" where
  "mark_unexecuted env cfg st =
     fold (\<lambda>j st. if done_job j st then st else set_row env (job_name j) [(''status'', JStr ''skipped'')] st) (cfg_jobs cfg) st"

definition runTargetedJobs :: "'w step_env \<Rightarrow> pipeline_runner \<Rightarrow> 'w job_exec \<Rightarrow> 'w run_state \<Rightarrow> 'w run_result" where
  "runTargetedJobs env rn exec st =
     (case run_targets env rn exec (rn_target_jobs rn) st of
        Some (None, st1) \<Rightarrow> Some (None, mark_unexecuted env (rn_config rn) st1)
      | r \<Rightarrow> r)"

definition run_jobs :: "'w step_env \<Rightarrow> pipeline_runner \<Rightarrow> 'w job_exec \<Rightarrow> 'w run_state \<Rightarrow> 'w run_result" where
  "run_jobs env rn exec st =
     (if rn_target_jobs rn \<noteq> [] then runTargetedJobs env rn exec st
      else run_all env rn exec (cfg_jobs (rn_config rn)) st)"

definition Run_with :: "'w step_env \<Rightarrow> pipeline_runner \<Rightarrow> 'w job_exec \<Rightarrow> 'w step_ctx \<Rightarrow> 'w run_result" where
  "Run_with env rn exec c =
     (let st0 = prewriteJobStates env (rn_config rn) \<lparr>rs_results = [], rs_executed = [], rs_ctx = c\<rparr> in
      case run_jobs env rn exec st0 of
        Some (None, st1) \<Rightarrow>
          Some (validateExecution ''pipeline'' (cfg_assert_execution (rn_config rn)) (rs_executed st1), st1)
      | r \<Rightarrow> r)"

text \<open>The job runner of a job of the pipeline, and the run of a pipeline whose tasks run on the driver \<open>d\<close>. The
  parameters of the job runners, but for the job and the limit of the pipeline, are those of \<open>jr0\<close>.\<close>

definition newJobRunner :: "job_runner \<Rightarrow> config \<Rightarrow> job \<Rightarrow> job_runner" where
  "newJobRunner jr0 cfg j = jr0\<lparr>jr_job := j, jr_pipeline_max_in_flight := cfg_max_in_flight cfg\<rparr>"

definition job_exec_of :: "task_env \<Rightarrow> config \<Rightarrow> job_runner \<Rightarrow> task_driver \<Rightarrow> task_world job_exec" where
  "job_exec_of env cfg jr0 d j c =
     (let jr = newJobRunner jr0 cfg j in Run jr (task_engine (job_env jr env) d) c)"

definition Run_pipeline :: "task_env \<Rightarrow> pipeline_runner \<Rightarrow> job_runner \<Rightarrow> task_driver \<Rightarrow> task_ctx \<Rightarrow> task_world run_result" where
  "Run_pipeline env rn jr0 d = Run_with env rn (job_exec_of env (rn_config rn) jr0 d)"

section \<open>Invariants of a run\<close>

text \<open>What the runner relies on: \<open>I\<close> is kept by rows that it writes and by every job that succeeds and whose constraints held,
  and a job that fails leads from \<open>I\<close> to \<open>J\<close>. Then a run that returns no error ends in \<open>I\<close>, any other in \<open>J\<close>.\<close>

locale run_invariant =
  fixes I J :: "'w run_state \<Rightarrow> bool" and env :: "'w step_env" and cfg :: config and exec :: "'w job_exec"
  assumes I_J: "I st \<Longrightarrow> J st"
    and I_row: "I st \<Longrightarrow> I (set_row env name row st)"
    and I_success: "I st \<Longrightarrow> j \<in> set (cfg_jobs cfg) \<Longrightarrow> \<not> done_job j st \<Longrightarrow> canJobRun env j st
          \<Longrightarrow> exec j (rs_ctx st) = Some (None, c) \<Longrightarrow> I (record_result j True c st)"
    and J_failure: "I st \<Longrightarrow> j \<in> set (cfg_jobs cfg) \<Longrightarrow> \<not> done_job j st
          \<Longrightarrow> exec j (rs_ctx st) = Some (Some e, c) \<Longrightarrow> J (record_result j False c st)"
begin

definition good :: "'w run_result \<Rightarrow> bool" where
  "good r \<longleftrightarrow> (case r of None \<Rightarrow> True | Some (None, st) \<Rightarrow> I st | Some (Some e, st) \<Rightarrow> J st)"

lemma good_simps [simp]: "good None" "good (Some (None, st)) = I st" "good (Some (Some e, st)) = J st"
  by (simp_all add: good_def)

lemma good_bind: "good r \<Longrightarrow> (\<And>st. I st \<Longrightarrow> good (k st)) \<Longrightarrow> 
    good (case r of None \<Rightarrow> None | Some (None, st) \<Rightarrow> k st | Some (Some e, st) \<Rightarrow> Some (Some e, st))"
  by (auto split: option.splits prod.splits)

lemma dependents_in: "j \<in> set (buildDependentsIndex cfg name) \<Longrightarrow> j \<in> set (cfg_jobs cfg)"
  by (auto simp: buildDependentsIndex_def)

lemma dependents_keep:
  assumes "\<And>j st. I st \<Longrightarrow> j \<in> set (cfg_jobs cfg) \<Longrightarrow> canJobRun env j st \<Longrightarrow> good (runJob n env cfg exec j st)"
  shows "I st \<Longrightarrow> set js \<subseteq> set (cfg_jobs cfg) \<Longrightarrow> good (runDependents n env cfg exec js st)"
proof (induction js arbitrary: st)
  case (Cons j js)
  then show ?case
    using assms [OF Cons.prems(1)] by (auto intro: good_bind simp del: good_simps)
qed simp

lemma job_keeps:
  "I st \<Longrightarrow> j \<in> set (cfg_jobs cfg) \<Longrightarrow> canJobRun env j st \<Longrightarrow> good (runJob n env cfg exec j st)"
proof (induction n arbitrary: j st)
  case 0
  then show ?case by (simp add: I_J)
next
  case (Suc n)
  have deps: "good (runDependents n env cfg exec (buildDependentsIndex cfg (job_name j)) (record_result j True c st))"
    if "exec j (rs_ctx st) = Some (None, c)" "\<not> done_job j st" for c
    using Suc that by (intro dependents_keep Suc.IH I_success) (auto simp: dependents_in)
  show ?case
    using Suc.prems deps J_failure [OF Suc.prems(1,2)]
    by (auto split: option.split)
qed

lemma all_keeps:
  "I st \<Longrightarrow> rn_config rn = cfg \<Longrightarrow> set js \<subseteq> set (cfg_jobs cfg) \<Longrightarrow> good (run_all env rn exec js st)"
proof (induction js arbitrary: st)
  case (Cons j js)
  then show ?case
    using job_keeps [of st j "enough_fuel cfg"] I_row
    by (auto intro: good_bind simp: markSkippedByTrigger_def simp del: good_simps)
qed simp

lemma targets_keep:
  "I st \<Longrightarrow> rn_config rn = cfg \<Longrightarrow> good (run_targets env rn exec names st)"
proof (induction names arbitrary: st)
  case (Cons name names)
  have j: "j \<in> set (cfg_jobs cfg)" if "job_by_name cfg name = Some j" for j
    using that by (auto simp: job_by_name_def dest: find_SomeD)
  show ?case
  proof (cases "job_by_name cfg name")
    case None
    then show ?thesis using Cons.prems I_J by simp
  next
    case (Some j')
    then show ?thesis
      using Cons job_keeps [of st j' "enough_fuel cfg"] j [OF Some] I_row
      by (auto intro: good_bind simp del: good_simps)
  qed
qed simp

lemma fold_rows: "I st \<Longrightarrow> (\<And>j st. I st \<Longrightarrow> I (f j st)) \<Longrightarrow> I (fold f js st)"
  by (induction js arbitrary: st) auto

lemma jobs_keep: "I st \<Longrightarrow> rn_config rn = cfg \<Longrightarrow> good (run_jobs env rn exec st)"
proof -
  assume st: "I st" and rn: "rn_config rn = cfg"
  have "good (case run_targets env rn exec (rn_target_jobs rn) st of
      None \<Rightarrow> None | Some (None, st1) \<Rightarrow> Some (None, mark_unexecuted env cfg st1)
    | Some (Some e, st1) \<Rightarrow> Some (Some e, st1))"
    by (rule good_bind [OF targets_keep [OF st rn]]) (simp add: mark_unexecuted_def fold_rows I_row)
  moreover have "good (run_all env rn exec (cfg_jobs cfg) st)"
    using st rn by (rule all_keeps) simp
  ultimately show ?thesis unfolding run_jobs_def runTargetedJobs_def rn by simp
qed

text \<open>The assertion of the pipeline is the only error that leaves a state in \<open>I\<close>.\<close>

lemma Run_keeps:
  assumes "Run_with env rn exec c = Some (e, st)" and "rn_config rn = cfg"
    and "I (prewriteJobStates env cfg \<lparr>rs_results = [], rs_executed = [], rs_ctx = c\<rparr>)"
  shows "J st \<and> (e = None \<longrightarrow> I st \<and> (case cfg_assert_execution cfg of None \<Rightarrow> True | Some names \<Rightarrow> rs_executed st = names))"
proof -
  let ?st0 = "prewriteJobStates env cfg \<lparr>rs_results = [], rs_executed = [], rs_ctx = c\<rparr>"
  have "good (run_jobs env rn exec ?st0)" using assms(3,2) by (rule jobs_keep)
  then show ?thesis
    using assms(1,2) I_J
    by (auto simp: Run_with_def Let_def good_def split: option.splits prod.splits)
qed

end

section \<open>Each job once, in the order of its constraints\<close>

definition run_inv :: "config \<Rightarrow> 'w run_state \<Rightarrow> bool" where
  "run_inv cfg st \<longleftrightarrow>
     distinct (rs_executed st) \<and> (\<forall>n. n \<in> set (rs_executed st) \<longleftrightarrow> gm_get (rs_results st) n = Some True)
     \<and> (\<forall>n. gm_get (rs_results st) n \<noteq> None \<longrightarrow> n \<in> job_name ` set (cfg_jobs cfg))"

definition none_failed :: "'w run_state \<Rightarrow> bool" where
  "none_failed st \<longleftrightarrow> (\<forall>n. gm_get (rs_results st) n \<noteq> Some False)"

lemma set_row_simps [simp]:
  "rs_results (set_row env name row st) = rs_results st" "rs_executed (set_row env name row st) = rs_executed st"
  "done_job j (set_row env name row st) = done_job j st"
  by (simp_all add: set_row_def done_job_def)

lemma record_result_simps [simp]:
  "rs_results (record_result j ok c st) = gm_set (job_name j) ok (rs_results st)"
  "rs_executed (record_result j ok c st) = rs_executed st @ (if ok then [job_name j] else [])"
  "rs_ctx (record_result j ok c st) = c"
  by (simp_all add: record_result_def)

lemma prewrite_simps [simp]:
  "rs_results (prewriteJobStates env cfg st) = rs_results st" "rs_executed (prewriteJobStates env cfg st) = rs_executed st"
proof -
  have "rs_results (fold (\<lambda>j st. set_row env (job_name j) (prewrite_row env j st) st) js st) = rs_results st
      \<and> rs_executed (fold (\<lambda>j st. set_row env (job_name j) (prewrite_row env j st) st) js st) = rs_executed st" for js
    by (induction js arbitrary: st) auto
  then show "rs_results (prewriteJobStates env cfg st) = rs_results st"
    "rs_executed (prewriteJobStates env cfg st) = rs_executed st"
    by (simp_all add: prewriteJobStates_def)
qed

interpretation once: run_invariant "\<lambda>st. run_inv cfg st \<and> none_failed st" "run_inv cfg" env cfg exec for env cfg exec
proof unfold_locales
  fix st :: "'a run_state" and j c and e :: go_error
  assume st: "run_inv cfg st \<and> none_failed st" and j: "j \<in> set (cfg_jobs cfg)" and new: "\<not> done_job j st"
  show "run_inv cfg (record_result j True c st) \<and> none_failed (record_result j True c st)"
    using st j new by (auto simp: run_inv_def none_failed_def done_job_def)
  show "run_inv cfg (record_result j False c st)"
    using st j new by (auto simp: run_inv_def done_job_def)
qed (auto simp: run_inv_def none_failed_def)

text \<open>A run executes every job at most once, and only jobs of the pipeline. A run that ends without error had
  no failing job and executed exactly the jobs that the pipeline asserts, in that order.\<close>

theorem jobs_run_once:
  assumes "Run_with env rn exec c = Some (e, st)"
  shows "distinct (rs_executed st) \<and> set (rs_executed st) \<subseteq> job_name ` set (cfg_jobs (rn_config rn))
    \<and> (e = None \<longrightarrow> none_failed st
         \<and> (case cfg_assert_execution (rn_config rn) of None \<Rightarrow> True | Some names \<Rightarrow> rs_executed st = names))"
proof -
  have "run_inv (rn_config rn) (prewriteJobStates env (rn_config rn) \<lparr>rs_results = [], rs_executed = [], rs_ctx = c\<rparr>)
      \<and> none_failed (prewriteJobStates env (rn_config rn) \<lparr>rs_results = [], rs_executed = [], rs_ctx = c\<rparr>)"
    by (simp add: run_inv_def none_failed_def)
  from once.Run_keeps [OF assms refl this] show ?thesis by (auto simp: run_inv_def)
qed

section \<open>The fuel is enough\<close>

definition done_names :: "'w run_state \<Rightarrow> string set" where
  "done_names st = {n. gm_get (rs_results st) n \<noteq> None}"

lemma done_names_simps [simp]:
  "done_names (set_row env name row st) = done_names st"
  "done_names (record_result j ok c st) = insert (job_name j) (done_names st)"
  "done_job j st \<longleftrightarrow> job_name j \<in> done_names st"
  by (auto simp: done_names_def done_job_def)

interpretation grows: run_invariant "\<lambda>st. done_names st0 \<subseteq> done_names st" "\<lambda>st. done_names st0 \<subseteq> done_names st" env cfg exec
  for st0 :: "'w run_state" and env and cfg and exec :: "'w job_exec"
  by unfold_locales auto

definition unfinished :: "config \<Rightarrow> 'w run_state \<Rightarrow> nat" where
  "unfinished cfg st = card (job_name ` set (cfg_jobs cfg) - done_names st)"

lemma unfinished_mono: "done_names st \<subseteq> done_names st' \<Longrightarrow> unfinished cfg st' \<le> unfinished cfg st"
  unfolding unfinished_def by (intro card_mono) auto

lemma unfinished_record:
  assumes "j \<in> set (cfg_jobs cfg)" and "\<not> done_job j st"
  shows "unfinished cfg (record_result j ok c st) < unfinished cfg st"
  unfolding unfinished_def
proof (rule psubset_card_mono)
  show "job_name ` set (cfg_jobs cfg) - done_names (record_result j ok c st) \<subset> job_name ` set (cfg_jobs cfg) - done_names st"
    using assms by auto
qed simp

lemma unfinished_le: "unfinished cfg st \<le> length (cfg_jobs cfg)"
proof -
  have "unfinished cfg st \<le> card (job_name ` set (cfg_jobs cfg))"
    unfolding unfinished_def by (intro card_mono) auto
  also have "\<dots> \<le> length (cfg_jobs cfg)"
    by (metis card_length image_set length_map)
  finally show ?thesis .
qed

lemma dependents_fuel:
  fixes st :: "'w run_state" and exec :: "'w job_exec"
  assumes "\<And>j (st :: 'w run_state). j \<in> set (cfg_jobs cfg) \<Longrightarrow> unfinished cfg st < n
      \<Longrightarrow> runJob (n + k) env cfg exec j st = runJob n env cfg exec j st"
  shows "set js \<subseteq> set (cfg_jobs cfg) \<Longrightarrow> unfinished cfg st < n
    \<Longrightarrow> runDependents (n + k) env cfg exec js st = runDependents n env cfg exec js st"
proof (induction js arbitrary: st)
  case (Cons j js)
  show ?case
  proof (cases "canJobRun env j st")
    case True
    have same: "runJob (n + k) env cfg exec j st = runJob n env cfg exec j st"
      using assms Cons.prems by simp
    have "unfinished cfg st1 < n" if "runJob n env cfg exec j st = Some (None, st1)" for st1
    proof -
      have "grows.good st (runJob n env cfg exec j st)"
        using True Cons.prems by (intro grows.job_keeps) auto
      then have "done_names st \<subseteq> done_names st1" using that by simp
      then show ?thesis using unfinished_mono [of st st1 cfg] Cons.prems by simp
    qed
    with True same Cons show ?thesis
      by (auto split: option.split prod.split)
  next
    case False
    with Cons show ?thesis by simp
  qed
qed simp

lemma job_fuel:
  fixes st :: "'w run_state" and exec :: "'w job_exec"
  shows "j \<in> set (cfg_jobs cfg) \<Longrightarrow> unfinished cfg st < n \<Longrightarrow> runJob (n + k) env cfg exec j st = runJob n env cfg exec j st"
proof (induction n arbitrary: j st)
  case (Suc n)
  show ?case
  proof (cases "done_job j st")
    case False
    have "runDependents (n + k) env cfg exec (buildDependentsIndex cfg (job_name j)) (record_result j True c st)
        = runDependents n env cfg exec (buildDependentsIndex cfg (job_name j)) (record_result j True c st)" for c
    proof (rule dependents_fuel)
      show "unfinished cfg (record_result j True c st) < n"
        using unfinished_record [OF Suc.prems(1) False, of True c] Suc.prems(2) by simp
    qed (use Suc.IH grows.dependents_in in \<open>auto simp del: done_names_simps\<close>)
    with False show ?thesis by (simp del: done_names_simps split: option.split)
  qed (simp del: done_names_simps)
qed simp

text \<open>C4. The recursion of the runner from a job to the jobs that depend on it ends: with the fuel that the model uses, or
  any more, running a job is the recursion of the code without fuel.\<close>

theorem runJob_terminates:
  fixes st :: "'w run_state" and exec :: "'w job_exec"
  assumes "j \<in> set (cfg_jobs cfg)"
  shows "runJob (enough_fuel cfg + k) env cfg exec j st = runJob (enough_fuel cfg) env cfg exec j st
    \<and> runJob (enough_fuel cfg) env cfg exec j st =
      (if done_job j st then Some (None, st)
       else (case exec j (rs_ctx st) of
               None \<Rightarrow> None
             | Some (Some e, c) \<Rightarrow> Some (Some (job_failed j e), record_result j False c st)
             | Some (None, c) \<Rightarrow> runDependents (enough_fuel cfg) env cfg exec (buildDependentsIndex cfg (job_name j))
                                  (record_result j True c st)))"
proof -
  have le: "unfinished cfg s < enough_fuel cfg" for s :: "'w run_state"
    using unfinished_le [of cfg s] by (simp add: enough_fuel_def)
  have 1: "runJob (enough_fuel cfg + m) env cfg exec j st = runJob (enough_fuel cfg) env cfg exec j st" for m
    using assms le by (rule job_fuel)
  have "runJob (enough_fuel cfg) env cfg exec j st = runJob (Suc (enough_fuel cfg)) env cfg exec j st"
    using 1 [of 1] by simp
  with 1 [of k] show ?thesis by (simp del: done_names_simps)
qed

section \<open>Passed constraints\<close>

text \<open>The store of a server: no namespace, and every run belongs to a pipeline.\<close>

definition server_db :: "db \<Rightarrow> bool" where
  "server_db d \<longleftrightarrow> (\<forall>r\<in>set (runs d). r_pipeline_id r \<noteq> [])"

lemma server_same: "same_tables d d' \<Longrightarrow> server_db d \<Longrightarrow> server_db d'"
  by (simp add: same_tables_def server_db_def)

lemma server_le: "task_le sc sc' \<Longrightarrow> server_db (sc_store sc) \<Longrightarrow> server_db (sc_store sc')"
  by (auto simp: task_le_def ctx_le_def intro: server_same)

lemma server_drop: "server_db (sc_store sc) \<Longrightarrow> server_db (sc_store (set_drop env key v sc))"
  using server_le [OF set_drop_le] by (auto simp: set_drop_def storage_set_def server_db_def store_Set_def Let_def split: option.splits)

lemma poll_server:
  assumes ret: "pollGate jr deadline k sc = Some y" and polls: "\<And>n d. server_db d \<Longrightarrow> server_db (pr_others (jr_polls jr n) d)"
    and "server_db (sc_store sc)"
  shows "server_db (sc_store (snd y))"
proof -
  have "(\<forall>n d. server_db d \<longrightarrow> server_db (pr_others (jr_polls jr n) d)) \<longrightarrow> server_db (sc_store sc) \<longrightarrow> server_db (sc_store (snd y))"
  proof (rule pollGate.raw_induct [where P = "\<lambda>jr deadline k sc y.
      (\<forall>n d. server_db d \<longrightarrow> server_db (pr_others (jr_polls jr n) d)) \<longrightarrow> server_db (sc_store sc) \<longrightarrow> server_db (sc_store (snd y))", OF _ ret], goal_cases)
    case (1 poll jr deadline k sc y)
    have resolve: "server_db d \<Longrightarrow> server_db (snd (ResolveGate now i s b d))" for now i s b d
      by (simp add: ResolveGate_def server_db_def split: option.split)
    show ?case
    proof (intro impI)
      assume polls: "\<forall>n d. server_db d \<longrightarrow> server_db (pr_others (jr_polls jr n) d)" and "server_db (sc_store sc)"
      then have s: "server_db (pr_others (jr_polls jr k) (sc_store sc))" by blast
      show "server_db (sc_store (snd y))"
        using 1(2) s resolve [OF s] 1(1) [of jr deadline "k + 1" "sc\<lparr>sc_store := pr_others (jr_polls jr k) (sc_store sc)\<rparr>" y] polls
        by (auto simp: Let_def split: if_splits option.splits sum.splits gate_status.splits)
    qed
  qed
  with assms show ?thesis by blast
qed

lemma gate_server:
  assumes "runGate jr env gc sc = Some (e, sc')" and "\<And>n d. server_db d \<Longrightarrow> server_db (pr_others (jr_polls jr n) d)"
    and "server_db (sc_store sc)"
  shows "server_db (sc_store sc')"
proof -
  let ?f = "SaveGate (to_seconds (jr_now jr)) (new_gate jr env gc)"
  obtain r sc1 where save: "on_store ?f sc = (r, sc1)" by (cases "on_store ?f sc")
  then have "sc_store sc1 = snd (?f (sc_store sc))" using on_store_simps(3) [of ?f sc] by simp
  then have "server_db (sc_store sc1)" using assms(3) by (simp add: SaveGate_def server_db_def)
  then show ?thesis
    using assms(1) poll_server [OF _ assms(2), where sc = sc1]
    by (force simp: runGate_def save split: option.splits if_splits)
qed

lemma Run_server:
  assumes "Run jr (task_engine (job_env jr env) d) c = Some (e, c')"
    and polls: "\<And>n d. server_db d \<Longrightarrow> server_db (pr_others (jr_polls jr n) d)" and "server_db (sc_store c)"
  shows "server_db (sc_store c')"
proof -
  let ?env = "task_engine (job_env jr env) d"
  let ?key = "job_key jr ?env"
  have run: "Run jr ?env c = Some (e, c')" "job_env jr ?env = ?env" using assms(1) job_env_engine by simp_all
  obtain e1 sc1 where 1: "storage_set ?env ?key (status_payload ''pending'') (fresh_ctx c) = (e1, sc1)"
    by (cases "storage_set ?env ?key (status_payload ''pending'') (fresh_ctx c)")
  obtain b2 sc2 where 2: "evaluateWebhookFilter jr ?env sc1 = (b2, sc2)" by (cases "evaluateWebhookFilter jr ?env sc1")
  obtain b3 sc3 where 3: "evaluateWebhookDedup jr ?env sc2 = (b3, sc3)" by (cases "evaluateWebhookDedup jr ?env sc2")
  have s1: "server_db (sc_store sc1)"
    using server_drop [of "fresh_ctx c" ?env ?key "status_payload ''pending''"] assms(3) 1
    by (simp add: set_drop_def fresh_ctx_def)
  have s2: "server_db (sc_store sc2)" using 2 s1 server_drop by (auto simp: evaluateWebhookFilter_def split: if_splits)
  have s3: "server_db (sc_store sc3)"
  proof -
    have "server_db (snd (RecordWebhookDedup now p h (snd (PruneWebhookDedup t db)))) = server_db db" for now p h t db
      by (simp add: RecordWebhookDedup_def PruneWebhookDedup_def server_db_def)
    then show ?thesis
      using 3 s2 by (auto simp: evaluateWebhookDedup_def on_store_def Let_def split_beta server_drop split: option.splits if_splits)
  qed
  have plan: "server_db (sc_store s')" if "run_plan jr ?env s = (r, s')" "server_db (sc_store s)" for r s s'
    using server_le [OF run_plan_le [of s jr "job_env jr env" d]] that by simp
  have gate: "server_db (sc_store s')" if "runGate jr ?env gc sc3 = Some (r, s')" for gc r s'
    using gate_server [OF that polls s3] .
  show ?thesis
    using run 1 s1 s2 s3 plan gate
    by (auto simp: Run_def Let_def 2 3 server_drop split: option.splits bool.splits prod.splits)
qed

lemma prewrite_server: "server_db (sc_store (rs_ctx st)) \<Longrightarrow> server_db (sc_store (rs_ctx (prewriteJobStates env cfg st)))"
proof -
  have "server_db (sc_store (rs_ctx st)) \<Longrightarrow>
      server_db (sc_store (rs_ctx (fold (\<lambda>j st. set_row env (job_name j) (prewrite_row env j st) st) js st)))" for js
    by (induction js arbitrary: st) (simp_all add: set_row_def server_drop)
  then show "server_db (sc_store (rs_ctx st)) \<Longrightarrow> server_db (sc_store (rs_ctx (prewriteJobStates env cfg st)))"
    by (simp add: prewriteJobStates_def)
qed

definition run_in_order :: "config \<Rightarrow> 'w run_state \<Rightarrow> bool" where
  "run_in_order cfg st \<longleftrightarrow>
     (\<forall>k<length (rs_executed st). \<exists>j\<in>set (cfg_jobs cfg).
        job_name j = rs_executed st ! k \<and> set (passed_deps j) \<subseteq> set (take k (rs_executed st)))"

lemma run_in_order_snoc:
  assumes "run_in_order cfg st" and "j \<in> set (cfg_jobs cfg)" and "set (passed_deps j) \<subseteq> set (rs_executed st)"
  shows "run_in_order cfg (record_result j True c st)"
  using assms by (auto simp: run_in_order_def nth_append less_Suc_eq)

lemma no_prior_run: "server_db d \<Longrightarrow> GetMostRecentJobStatus [] [] dep d = []"
  by (rule GetMostRecentJobStatus_no_run) (simp add: server_db_def)

lemma ordered_invariant:
  assumes "env_namespace env = []" and "\<And>j c e c'. exec j c = Some (e, c') \<Longrightarrow> server_db (sc_store c) \<Longrightarrow> server_db (sc_store c')"
  shows "run_invariant (\<lambda>st. run_inv cfg st \<and> run_in_order cfg st \<and> server_db (sc_store (rs_ctx st))) (run_in_order cfg) env cfg exec"
proof unfold_locales
  fix st :: "'a run_state" and j c and e :: go_error and name row
  assume st: "run_inv cfg st \<and> run_in_order cfg st \<and> server_db (sc_store (rs_ctx st))"
  then show "run_in_order cfg st" by simp
  show "run_inv cfg (set_row env name row st) \<and> run_in_order cfg (set_row env name row st)
      \<and> server_db (sc_store (rs_ctx (set_row env name row st)))"
    using st by (simp add: run_inv_def run_in_order_def) (simp add: set_row_def server_drop)
  assume j: "j \<in> set (cfg_jobs cfg)" and new: "\<not> done_job j st"
  show "run_in_order cfg (record_result j False c st)" using st by (simp add: run_in_order_def)
  assume can: "canJobRun env j st" and ex: "exec j (rs_ctx st) = Some (None, c)"
  have "gm_get (rs_results st) dep = Some True" if "dep \<in> set (passed_deps j)" for dep
  proof -
    have "isJobPassedSatisfied env dep st" using can that by (simp add: canJobRun_def)
    then show ?thesis
      using st no_prior_run assms(1) by (auto simp: isJobPassedSatisfied_def split: option.splits)
  qed
  then have "set (passed_deps j) \<subseteq> set (rs_executed st)" using st by (auto simp: run_inv_def)
  then have "run_in_order cfg (record_result j True c st)" using st j by (intro run_in_order_snoc) simp_all
  moreover have "run_inv cfg (record_result j True c st)"
    using st j new by (auto simp: run_inv_def done_names_def)
  moreover have "server_db (sc_store c)" using assms(2) [OF ex] st by simp
  ultimately show "run_inv cfg (record_result j True c st) \<and> run_in_order cfg (record_result j True c st)
      \<and> server_db (sc_store (rs_ctx (record_result j True c st)))" by simp
qed


section \<open>Instances\<close>

definition get_job :: "string \<Rightarrow> string list \<Rightarrow> job" where
  "get_job name passed = zero_job name [leaf_step (get_fields ''repo'' passed)]"

definition always_ok :: "task_world job_exec" where
  "always_ok j c = Some (None, c)"

definition webhook_only :: "job \<Rightarrow> job" where
  "webhook_only j = j\<lparr>job_triggers := Some \<lparr>tr_webhook = Some \<lparr>wt_filter = [], wt_dedup_key = [], wt_params = []\<rparr>,
     tr_schedule = None, tr_passed = []\<rparr>\<rparr>"

definition sample_runner :: "job list \<Rightarrow> pipeline_runner" where
  "sample_runner jobs = \<lparr>rn_config = zero_config jobs, rn_target_jobs = [], rn_trigger_type = Some TriggerTypeManual\<rparr>"

definition two_jobs :: "job list" where
  "two_jobs = [get_job ''build'' [], webhook_only (get_job ''deploy'' [''build''])]"

lemmas job_samples = two_jobs_def get_job_def webhook_only_def zero_job_def leaf_step_def get_fields_def zero_fields_def
  zero_get_config_def

text \<open>The trigger filter is applied to the jobs of the list only: a job that does not declare the trigger still runs as a
  dependent of one that does, and is then recorded as skipped.\<close>

lemma dependent_ignores_trigger:
  "\<exists>st. Run_with run_env (sample_runner two_jobs) always_ok run_ctx = Some (None, st)
     \<and> rs_executed st = [''build'', ''deploy'']
     \<and> recorded_status run_env ''/pipeline/r1/jobs/deploy'' (rs_ctx st) = Some ''skipped''"
proof -
  let ?cfg = "zero_config two_jobs"
  let ?st0 = "prewriteJobStates run_env ?cfg \<lparr>rs_results = [], rs_executed = [], rs_ctx = run_ctx\<rparr>"
  let ?b = "get_job ''build'' []" let ?d = "webhook_only (get_job ''deploy'' [''build''])"
  have deps: "passed_deps ?b = []" "passed_deps ?d = [''build'']" "job_name ?b = ''build''" "job_name ?d = ''deploy''"
    by (simp_all add: passed_deps_def job_samples)
  have idx: "buildDependentsIndex ?cfg ''build'' = [?d]" "buildDependentsIndex ?cfg ''deploy'' = []"
    by (simp_all add: buildDependentsIndex_def zero_config_def two_jobs_def deps)
  have should: "shouldRunForTrigger (sample_runner two_jobs) ?b" "\<not> shouldRunForTrigger (sample_runner two_jobs) ?d"
    by (simp_all add: shouldRunForTrigger_def sample_runner_def job_samples)
  define st1 where "st1 = record_result ?d True (rs_ctx ?st0) (record_result ?b True (rs_ctx ?st0) ?st0)"
  have fuel: "enough_fuel ?cfg = Suc (Suc (Suc 0))" by (simp add: enough_fuel_def zero_config_def two_jobs_def)
  have run: "runJob (enough_fuel ?cfg) run_env ?cfg always_ok ?b ?st0 = Some (None, st1)"
    by (simp add: fuel idx deps canJobRun_def isJobPassedSatisfied_def done_names_def always_ok_def st1_def)
  have "rn_config (sample_runner two_jobs) = ?cfg" "rn_target_jobs (sample_runner two_jobs) = []"
    by (simp_all add: sample_runner_def)
  then have "run_jobs run_env (sample_runner two_jobs) always_ok ?st0
      = Some (None, markSkippedByTrigger run_env (sample_runner two_jobs) ?d st1)"
    using should run by (simp add: run_jobs_def canJobRun_def deps zero_config_def two_jobs_def)
  moreover have "cfg_assert_execution ?cfg = None" by (simp add: zero_config_def)
  ultimately have result: "Run_with run_env (sample_runner two_jobs) always_ok run_ctx
      = Some (None, markSkippedByTrigger run_env (sample_runner two_jobs) ?d st1)"
    using \<open>rn_config (sample_runner two_jobs) = ?cfg\<close> by (simp add: Run_with_def Let_def)
  have "recorded_status run_env ''/pipeline/r1/jobs/deploy'' (rs_ctx (set_row run_env ''deploy'' ((''status'', JStr s) # row) st)) = Some s"
    for s row st
    using put_row_recorded [OF sets_ok_run_env, of "''/pipeline/r1/jobs/deploy''"]
    by (simp add: set_row_def run_env_def)
  then show ?thesis
    unfolding result by (simp add: markSkippedByTrigger_def deps st1_def)
qed

theorem jobs_run_once_witness:
  "case Run_with run_env (sample_runner two_jobs) always_ok run_ctx of
     None \<Rightarrow> False | Some (e, st) \<Rightarrow> distinct (rs_executed st) \<and> none_failed st \<and> length (rs_executed st) = 2"
proof -
  obtain st where "Run_with run_env (sample_runner two_jobs) always_ok run_ctx = Some (None, st)"
    and "rs_executed st = [''build'', ''deploy'']" using dependent_ignores_trigger by blast
  with jobs_run_once [OF this(1)] show ?thesis by simp
qed

theorem runJob_terminates_witness:
  "let st = \<lparr>rs_results = [], rs_executed = [], rs_ctx = run_ctx\<rparr> in
   runJob 10 run_env (zero_config two_jobs) always_ok (get_job ''build'' []) st
     = runJob 3 run_env (zero_config two_jobs) always_ok (get_job ''build'' []) st"
proof -
  have j: "get_job ''build'' [] \<in> set (cfg_jobs (zero_config two_jobs))" by (simp add: zero_config_def two_jobs_def)
  have "enough_fuel (zero_config two_jobs) = 3" by (simp add: enough_fuel_def zero_config_def two_jobs_def)
  with runJob_terminates [OF j, of 7 run_env always_ok "\<lparr>rs_results = [], rs_executed = [], rs_ctx = run_ctx\<rparr>"]
  show ?thesis by (simp add: Let_def)
qed

lemma empty_job_runs:
  assumes "sets_ok env"
  shows "\<exists>c'. job_exec_of env cfg (sample_jr j0) d (zero_job name []) c = Some (None, c')"
proof -
  let ?jr = "newJobRunner (sample_jr j0) cfg (zero_job name [])"
  have "sets_ok (job_env ?jr (task_engine (job_env ?jr env) d))" using assms by (simp add: task_engine_def)
  then show ?thesis
    by (simp add: job_exec_of_def Let_def Run_def set_ok evaluateWebhookFilter_def filter_passes_def evaluateWebhookDedup_def
        dedup_hash_def run_plan_def runJobHooks_def run_hook_def finish_job_def validateAssertions_def fresh_ctx_def
        newJobRunner_def sample_jr_def zero_job_def split: option.split)
qed


end
