(* ===== verification/Execution.thy ===== *)
theory Execution
  imports Store_Runs Config Step_Errors
begin

text \<open>
  The execution service of the server: \<open>server/execution.go\<close>, \<open>execution_concurrency.go\<close> and
  \<open>features.go\<close>. The state is the database, the counter of runs in flight, the goroutines that execute a run, the registry of
  their cancel functions and the parked response channels of queued webhooks. Every exported operation and every turn of
  the queue processor is a function on this state; \<open>executePipeline\<close> is split where other goroutines can
  come between: \<open>dispatchRun\<close> creates the goroutine, \<open>begin_run\<close> is its part before the pipeline executes and
  \<open>finish_run\<close> (in theory \<open>Run_Lifecycle\<close>) the part after. The decoder of pipelines, the template engine, the generator of run
  ids and the order in which Go ranges over a map are fields of the configuration; the time of an operation is
  an argument, in Unix seconds. Metrics, logs and drivers have no effect on this state.
\<close>

section \<open>Features\<close>

definition AllFeatures :: "string list" where
  "AllFeatures = [''webhooks'', ''secrets'', ''notifications'', ''fetch'', ''resume'']"

definition knownFeatures :: "string list" where
  "knownFeatures = [''schedules'', ''gates''] @ AllFeatures"

definition IsFeatureEnabled :: "string \<Rightarrow> string list \<Rightarrow> bool" where
  "IsFeatureEnabled feature allowed \<longleftrightarrow> (\<exists>f\<in>set allowed. f = feature)"

fun parse_features :: "string list \<Rightarrow> string + string list" where
  "parse_features [] = Inr []"
| "parse_features (part # parts) =
     (let trimmed = TrimSpace part in
      if trimmed = [] then parse_features parts
      else if trimmed \<notin> set knownFeatures
      then Inl (''unknown feature '' @ go_quote trimmed @ ''; known features: '' @ JoinStr knownFeatures '', '')
      else (case parse_features parts of Inl e \<Rightarrow> Inl e | Inr fs \<Rightarrow> Inr (trimmed # fs)))"

definition ParseAllowedFeatures :: "string \<Rightarrow> string + string list" where
  "ParseAllowedFeatures inp =
     (if inp = [] \<or> inp = ''*'' then Inr AllFeatures
      else case parse_features (SplitChar (CHR '','') inp) of
             Inl e \<Rightarrow> Inl e
           | Inr fs \<Rightarrow> Inr (if fs = [] then AllFeatures else fs))"

section \<open>State\<close>

type_synonym webhook_data = trigger_webhook_input

record webhook_exec_data =
  we_data :: "webhook_data option"
  we_channel :: "nat option"

record exec_options =
  eo_webhook :: "webhook_exec_data option"
  eo_args :: "string list"
  eo_jobs :: "string list"
  eo_resume :: bool
  eo_request_id :: string
  eo_auth_provider :: string
  eo_user :: string

definition no_options :: exec_options where
  "no_options = \<lparr>eo_webhook = None, eo_args = [], eo_jobs = [], eo_resume = False, eo_request_id = [],
     eo_auth_provider = [], eo_user = []\<rparr>"

text \<open>The request id and the actor that the context of a call carries.\<close>

record request =
  rq_id :: string
  rq_provider :: string
  rq_user :: string

text \<open>What a template of a concurrency group can refer to, and how rendering it can end.\<close>

record concurrency_webhook_context =
  cw_provider :: string
  cw_event_type :: string
  cw_method :: string
  cw_url :: string
  cw_branch :: string
  cw_ref :: string
  cw_headers :: "(string, string) gomap"
  cw_query :: "(string, string) gomap"

record concurrency_template_context =
  ct_args :: "string list"
  ct_jobs :: "string list"
  ct_webhook :: concurrency_webhook_context

datatype render_result = ParseFailed string | ExecuteFailed string | Rendered string

record service =
  sv_max_in_flight :: int
  sv_max_queue :: int
  sv_default_driver :: string
  sv_features :: "string list"
  sv_namespace :: string
  sv_parse :: "string \<Rightarrow> config option"
  sv_render :: "string \<Rightarrow> concurrency_template_context \<Rightarrow> render_result"
  sv_new_id :: "nat \<Rightarrow> string"
  sv_range :: "job list \<Rightarrow> job list"

text \<open>A goroutine of \<open>executePipeline\<close>: its arguments, whether it has got past the update to \<open>running\<close>, and whether
  its context is cancelled.\<close>

record executor =
  go_id :: nat
  go_run :: pipeline_run
  go_pipeline :: pipeline
  go_opts :: exec_options
  go_executing :: bool
  go_cancelled :: bool

record exec_state =
  ex_db :: db
  ex_in_flight :: int
  ex_live :: "executor list"
  ex_next :: nat
  ex_stop :: "(string, nat) gomap"
  ex_pending :: "(string, nat) gomap"
  ex_ids :: nat

datatype exec_error = ErrQueueFull | ErrRunNotInFlight | ErrDb string db_error

definition default_driver :: "string list \<Rightarrow> string" where
  "default_driver allowed = (case allowed of [] \<Rightarrow> ''docker'' | d # _ \<Rightarrow> if d = ''*'' then ''docker'' else d)"

definition NewExecutionService ::
  "string list \<Rightarrow> int \<Rightarrow> int \<Rightarrow> (string \<Rightarrow> config option)
   \<Rightarrow> (string \<Rightarrow> concurrency_template_context \<Rightarrow> render_result) \<Rightarrow> (nat \<Rightarrow> string) \<Rightarrow> (job list \<Rightarrow> job list)
   \<Rightarrow> string list \<Rightarrow> string \<Rightarrow> db \<Rightarrow> service \<times> exec_state" where
  "NewExecutionService allowedDrivers maxInFlight maxQueueSize parse render newID rng features namespace d =
     (\<lparr>sv_max_in_flight = (if maxInFlight \<le> 0 then 10 else maxInFlight), sv_max_queue = maxQueueSize,
       sv_default_driver = default_driver allowedDrivers, sv_features = features, sv_namespace = namespace,
       sv_parse = parse, sv_render = render, sv_new_id = newID, sv_range = rng\<rparr>,
      \<lparr>ex_db = d, ex_in_flight = 0, ex_live = [], ex_next = 0, ex_stop = [], ex_pending = [], ex_ids = 0\<rparr>)"

text \<open>A write to the runs of the database, its result ignored.\<close>

definition update_run :: "int \<Rightarrow> string \<Rightarrow> run_status \<Rightarrow> string \<Rightarrow> exec_state \<Rightarrow> exec_state" where
  "update_run now i status msg st = st\<lparr>ex_db := snd (UpdateRunStatus now i status msg (ex_db st))\<rparr>"

definition abort_tasks :: "service \<Rightarrow> string \<Rightarrow> exec_state \<Rightarrow> exec_state" where
  "abort_tasks sv i st =
     st\<lparr>ex_db := UpdateStatusForPrefix (sv_namespace sv) (''/pipeline/'' @ i @ ''/'') [''pending'', ''running''] ''aborted''
                   (ex_db st)\<rparr>"

section \<open>Slots and the queue\<close>

definition CanExecute :: "service \<Rightarrow> exec_state \<Rightarrow> bool" where
  "CanExecute sv st \<longleftrightarrow> ex_in_flight st < sv_max_in_flight sv"

definition QueueLength :: "exec_state \<Rightarrow> int" where
  "QueueLength st = int (length (GetRunsByStatus RunStatusQueued 0 (ex_db st)))"

definition CanAccept :: "service \<Rightarrow> exec_state \<Rightarrow> bool" where
  "CanAccept sv st \<longleftrightarrow> CanExecute sv st \<or> (sv_max_queue sv > 0 \<and> QueueLength st < sv_max_queue sv)"

definition dispatchRun :: "pipeline \<Rightarrow> pipeline_run \<Rightarrow> exec_options \<Rightarrow> exec_state \<Rightarrow> exec_state" where
  "dispatchRun p run opts st =
     st\<lparr>ex_in_flight := ex_in_flight st + 1,
        ex_live := ex_live st @ [\<lparr>go_id = ex_next st, go_run = run, go_pipeline = p, go_opts = opts,
                                  go_executing = False, go_cancelled = False\<rparr>],
        ex_next := Suc (ex_next st)\<rparr>"

definition buildQueuedExecOptions :: "pipeline_run \<Rightarrow> exec_state \<Rightarrow> exec_options \<times> exec_state" where
  "buildQueuedExecOptions run st =
     (let inp = r_trigger_input run; channel = gm_get (ex_pending st) (r_id run) in
      (no_options\<lparr>eo_resume := (r_trigger_type run = TriggerTypeResume), eo_args := ti_args inp, eo_jobs := ti_jobs inp,
         eo_webhook := (case channel of
             None \<Rightarrow> None
           | Some ch \<Rightarrow> (case ti_webhook inp of None \<Rightarrow> None | Some w \<Rightarrow> Some \<lparr>we_data = Some w, we_channel = Some ch\<rparr>))\<rparr>,
       st\<lparr>ex_pending := gm_del (r_id run) (ex_pending st)\<rparr>))"

definition dispatchQueuedRun :: "int \<Rightarrow> pipeline_run \<Rightarrow> exec_state \<Rightarrow> exec_state" where
  "dispatchQueuedRun now run st =
     (case GetPipeline (r_pipeline_id run) (ex_db st) of
        Inl _ \<Rightarrow> update_run now (r_id run) RunStatusFailed ''Pipeline not found during queue dispatch'' st
      | Inr p \<Rightarrow> (case buildQueuedExecOptions run st of (opts, st1) \<Rightarrow> dispatchRun p run opts st1))"

definition busyConcurrencyGroups :: "db \<Rightarrow> string list" where
  "busyConcurrencyGroups d =
     filter (\<lambda>g. g \<noteq> []) (map r_concurrency_group (GetRunsByStatus RunStatusRunning 0 d))"

fun dispatchEligible ::
  "service \<Rightarrow> int \<Rightarrow> pipeline_run list \<Rightarrow> string list \<Rightarrow> exec_state \<Rightarrow> nat \<times> exec_state" where
  "dispatchEligible sv now [] busy st = (0, st)"
| "dispatchEligible sv now (r # rs) busy st =
     (let grp = r_concurrency_group r in
      if \<not> CanExecute sv st then (0, st)
      else if grp \<noteq> [] \<and> grp \<in> set busy then dispatchEligible sv now rs busy st
      else (case dispatchEligible sv now rs (if grp \<noteq> [] then grp # busy else busy) (dispatchQueuedRun now r st) of
              (n, st') \<Rightarrow> (Suc n, st')))"

text \<open>One turn of the queue processor; the flag says that it naps before the next one.\<close>

definition processQueueTick :: "service \<Rightarrow> int \<Rightarrow> exec_state \<Rightarrow> bool \<times> exec_state" where
  "processQueueTick sv now st =
     (let queued = GetRunsByStatus RunStatusQueued 0 (ex_db st) in
      if queued = [] then (True, st)
      else (case dispatchEligible sv now queued (busyConcurrencyGroups (ex_db st)) st of
              (n, st') \<Rightarrow> (n = 0, st')))"

text \<open>\<open>processQueue\<close> takes a turn only while a slot is free.\<close>

definition processQueue_turn :: "service \<Rightarrow> int \<Rightarrow> exec_state \<Rightarrow> exec_state" where
  "processQueue_turn sv now st = (if CanExecute sv st then snd (processQueueTick sv now st) else st)"

section \<open>Concurrency rules\<close>

datatype concurrency_action =
    concurrencyProceed | concurrencyQueueBehind | concurrencySkip | concurrencyCancelPeers

record concurrency_decision =
  cd_action :: concurrency_action
  cd_group :: string
  cd_peers :: "pipeline_run list"
  cd_reason :: string

definition header :: "trigger_webhook_input \<Rightarrow> string \<Rightarrow> string" where
  "header w k = (case gm_get (wh_headers w) k of None \<Rightarrow> [] | Some v \<Rightarrow> v)"

definition concurrencyTemplateData :: "trigger_input \<Rightarrow> concurrency_template_context" where
  "concurrencyTemplateData inp =
     \<lparr>ct_args = ti_args inp, ct_jobs = ti_jobs inp,
      ct_webhook = (case ti_webhook inp of
          None \<Rightarrow> \<lparr>cw_provider = [], cw_event_type = [], cw_method = [], cw_url = [], cw_branch = [], cw_ref = [],
                   cw_headers = [], cw_query = []\<rparr>
        | Some w \<Rightarrow> \<lparr>cw_provider = wh_provider w, cw_event_type = wh_event_type w, cw_method = wh_method w,
                     cw_url = wh_url w, cw_branch = header w ''X-Branch'', cw_ref = header w ''X-Ref'',
                     cw_headers = wh_headers w, cw_query = wh_query w\<rparr>)\<rparr>"

definition resolveConcurrencyGroup :: "service \<Rightarrow> pipeline \<Rightarrow> trigger_input \<Rightarrow> string + string" where
  "resolveConcurrencyGroup sv p inp =
     (let mode = p_concurrency_mode p in
      if mode = [] then Inr []
      else if mode = ''serial'' \<or> mode = ''skip-if-running'' then Inr (''pipeline:'' @ p_id p)
      else if mode = ''group'' then
        (if p_group_template p = [] then Inl ''concurrency_mode=group requires concurrency_group_template''
         else case sv_render sv (p_group_template p) (concurrencyTemplateData inp) of
                ParseFailed e \<Rightarrow> Inl (''parse concurrency_group_template: '' @ e)
              | ExecuteFailed e \<Rightarrow> Inl (''execute concurrency_group_template: '' @ e)
              | Rendered g \<Rightarrow> if g = [] then Inl ''concurrency_group_template rendered to an empty string'' else Inr g)
      else Inl (''unknown concurrency_mode '' @ go_quote mode))"

definition decide :: "concurrency_action \<Rightarrow> string \<Rightarrow> pipeline_run list \<Rightarrow> string \<Rightarrow> concurrency_decision" where
  "decide act grp peers reason = \<lparr>cd_action = act, cd_group = grp, cd_peers = peers, cd_reason = reason\<rparr>"

definition resolveConcurrency :: "service \<Rightarrow> pipeline \<Rightarrow> trigger_input \<Rightarrow> db \<Rightarrow> string + concurrency_decision" where
  "resolveConcurrency sv p inp d =
     (let mode = p_concurrency_mode p in
      if mode = [] then Inr (decide concurrencyProceed [] [] [])
      else case resolveConcurrencyGroup sv p inp of
        Inl e \<Rightarrow> Inl (''resolve concurrency group: '' @ e)
      | Inr grp \<Rightarrow>
          (let peers = (if mode = ''group'' then GetActiveRunsByGroup grp d else GetActiveRunsByPipeline (p_id p) d) in
           case peers of
             [] \<Rightarrow> Inr (decide concurrencyProceed grp [] [])
           | peer # _ \<Rightarrow>
               if mode = ''skip-if-running''
               then Inr (decide concurrencySkip grp peers
                           (''skipped: pipeline already running (peer run '' @ r_id peer @ '')''))
               else if mode = ''group'' \<and> p_cancel_running p then Inr (decide concurrencyCancelPeers grp peers [])
               else Inr (decide concurrencyQueueBehind grp peers [])))"

section \<open>Stopping runs\<close>

definition cancel :: "nat \<Rightarrow> exec_state \<Rightarrow> exec_state" where
  "cancel g st =
     st\<lparr>ex_live := map (\<lambda>x. if go_id x = g then x\<lparr>go_cancelled := True\<rparr> else x) (ex_live st)\<rparr>"

definition StopRun :: "service \<Rightarrow> int \<Rightarrow> string \<Rightarrow> exec_state \<Rightarrow> exec_error option \<times> exec_state" where
  "StopRun sv now i st =
     (case gm_get (ex_stop st) i of
        None \<Rightarrow> (Some ErrRunNotInFlight, st)
      | Some g \<Rightarrow> (None, update_run now i RunStatusFailed ''Run stopped by user'' (abort_tasks sv i (cancel g st))))"

definition supersede :: "service \<Rightarrow> int \<Rightarrow> string \<Rightarrow> pipeline_run \<Rightarrow> exec_state \<Rightarrow> exec_state" where
  "supersede sv now newer peer st =
     (let reason = ''superseded by run '' @ newer in
      case r_status peer of
        RunStatusRunning \<Rightarrow> update_run now (r_id peer) RunStatusFailed reason (snd (StopRun sv now (r_id peer) st))
      | RunStatusQueued \<Rightarrow> update_run now (r_id peer) RunStatusSkipped reason st
      | _ \<Rightarrow> st)"

definition supersedePeers :: "service \<Rightarrow> int \<Rightarrow> pipeline_run list \<Rightarrow> string \<Rightarrow> exec_state \<Rightarrow> exec_state" where
  "supersedePeers sv now peers newer = fold (supersede sv now newer) peers"

section \<open>Admission\<close>

record admission_result =
  ad_run :: pipeline_run
  ad_terminal :: bool
  ad_queue_only :: bool

text \<open>A new record of a run, under the next id of the generator.\<close>

definition save_run ::
  "service \<Rightarrow> int \<Rightarrow> string \<Rightarrow> trigger_type \<Rightarrow> string \<Rightarrow> trigger_input \<Rightarrow> string \<Rightarrow> run_status \<Rightarrow> string \<Rightarrow> exec_state
   \<Rightarrow> (db_error + pipeline_run) \<times> exec_state" where
  "save_run sv now pid tt user inp grp status msg st =
     (case SaveRunWithStatus (sv_new_id sv (ex_ids st)) now pid tt user inp grp status msg (ex_db st) of
        (r, d) \<Rightarrow> (r, st\<lparr>ex_db := d, ex_ids := Suc (ex_ids st)\<rparr>))"

definition save_terminal ::
  "string \<Rightarrow> (db_error + pipeline_run) \<times> exec_state \<Rightarrow> (exec_error + admission_result) \<times> exec_state" where
  "save_terminal what rs =
     (case rs of
        (Inl e, st) \<Rightarrow> (Inl (ErrDb what e), st)
      | (Inr run, st) \<Rightarrow> (Inr \<lparr>ad_run = run, ad_terminal = True, ad_queue_only = False\<rparr>, st))"

definition admitRun ::
  "service \<Rightarrow> int \<Rightarrow> pipeline \<Rightarrow> trigger_type \<Rightarrow> string \<Rightarrow> trigger_input \<Rightarrow> exec_state
   \<Rightarrow> (exec_error + admission_result) \<times> exec_state" where
  "admitRun sv now p tt user inp st =
     (case resolveConcurrency sv p inp (ex_db st) of
        Inl e \<Rightarrow> save_terminal ''save failed run'' (save_run sv now (p_id p) tt user inp [] RunStatusFailed e st)
      | Inr dec \<Rightarrow>
          if cd_action dec = concurrencySkip
          then save_terminal ''save skipped run''
                 (save_run sv now (p_id p) tt user inp (cd_group dec) RunStatusSkipped (cd_reason dec) st)
          else (case save_run sv now (p_id p) tt user inp (cd_group dec) RunStatusQueued [] st of
                 (Inl e, st1) \<Rightarrow> (Inl (ErrDb ''save run'' e), st1)
               | (Inr run, st1) \<Rightarrow>
                   (Inr \<lparr>ad_run = run, ad_terminal = False, ad_queue_only = (cd_action dec = concurrencyQueueBehind)\<rparr>,
                    if cd_action dec = concurrencyCancelPeers then supersedePeers sv now (cd_peers dec) (r_id run) st1
                    else st1)))"

definition dispatchOrQueue ::
  "service \<Rightarrow> pipeline \<Rightarrow> pipeline_run \<Rightarrow> exec_options \<Rightarrow> bool \<Rightarrow> exec_state \<Rightarrow> bool \<times> exec_state" where
  "dispatchOrQueue sv p run opts queueOnly st =
     (if \<not> queueOnly \<and> CanExecute sv st then (True, dispatchRun p run opts st) else (False, st))"

section \<open>Triggers\<close>

definition formatTriggeredBy :: "request \<Rightarrow> string" where
  "formatTriggeredBy rq =
     (if rq_provider rq \<noteq> [] \<and> rq_user rq \<noteq> [] then rq_provider rq @ '':'' @ rq_user rq
      else if rq_user rq \<noteq> [] then rq_user rq else [])"

definition formatWebhookTriggeredBy :: "webhook_data option \<Rightarrow> string" where
  "formatWebhookTriggeredBy w =
     (case w of
        None \<Rightarrow> []
      | Some x \<Rightarrow> if wh_event_type x \<noteq> [] then wh_provider x @ '':'' @ wh_event_type x else wh_provider x)"

definition request_options :: "request \<Rightarrow> exec_options" where
  "request_options rq =
     no_options\<lparr>eo_request_id := rq_id rq, eo_auth_provider := rq_provider rq, eo_user := rq_user rq\<rparr>"

text \<open>The common shape of the triggers: refuse when full, admit, and hand an admitted run to \<open>dispatchOrQueue\<close>.\<close>

definition trigger_with ::
  "service \<Rightarrow> int \<Rightarrow> pipeline \<Rightarrow> trigger_type \<Rightarrow> string \<Rightarrow> trigger_input \<Rightarrow> exec_options \<Rightarrow> exec_state
   \<Rightarrow> (exec_error + pipeline_run) \<times> exec_state" where
  "trigger_with sv now p tt user inp opts st =
     (if \<not> CanAccept sv st then (Inl ErrQueueFull, st)
      else case admitRun sv now p tt user inp st of
             (Inl e, st1) \<Rightarrow> (Inl e, st1)
           | (Inr ad, st1) \<Rightarrow>
               (Inr (ad_run ad),
                if ad_terminal ad then st1 else snd (dispatchOrQueue sv p (ad_run ad) opts (ad_queue_only ad) st1)))"

definition TriggerPipelineWithJobs ::
  "service \<Rightarrow> int \<Rightarrow> request \<Rightarrow> pipeline \<Rightarrow> string list \<Rightarrow> string list \<Rightarrow> exec_state
   \<Rightarrow> (exec_error + pipeline_run) \<times> exec_state" where
  "TriggerPipelineWithJobs sv now rq p args jobs =
     trigger_with sv now p TriggerTypeManual (formatTriggeredBy rq)
       \<lparr>ti_args = args, ti_webhook = None, ti_jobs = jobs, ti_upstream_run_ids = []\<rparr>
       ((request_options rq)\<lparr>eo_args := args, eo_jobs := jobs\<rparr>)"

definition TriggerPipeline ::
  "service \<Rightarrow> int \<Rightarrow> request \<Rightarrow> pipeline \<Rightarrow> string list \<Rightarrow> exec_state \<Rightarrow> (exec_error + pipeline_run) \<times> exec_state" where
  "TriggerPipeline sv now rq p args = TriggerPipelineWithJobs sv now rq p args []"

definition TriggerScheduledPipeline ::
  "service \<Rightarrow> int \<Rightarrow> pipeline \<Rightarrow> string \<Rightarrow> string \<Rightarrow> exec_state \<Rightarrow> (exec_error + pipeline_run) \<times> exec_state" where
  "TriggerScheduledPipeline sv now p scheduleName jobName =
     (let jobs = (if jobName \<noteq> [] then [jobName] else []) in
      trigger_with sv now p TriggerTypeSchedule (''schedule:'' @ scheduleName)
        \<lparr>ti_args = [], ti_webhook = None, ti_jobs = jobs, ti_upstream_run_ids = []\<rparr> (no_options\<lparr>eo_jobs := jobs\<rparr>))"

text \<open>A webhook parks its response channel before \<open>dispatchOrQueue\<close> and takes it back when the run was dispatched.\<close>

definition park :: "string \<Rightarrow> nat option \<Rightarrow> exec_state \<Rightarrow> exec_state" where
  "park i ch st = (case ch of None \<Rightarrow> st | Some c \<Rightarrow> st\<lparr>ex_pending := gm_set i c (ex_pending st)\<rparr>)"

definition unpark :: "string \<Rightarrow> nat option \<Rightarrow> exec_state \<Rightarrow> exec_state" where
  "unpark i ch st = (case ch of None \<Rightarrow> st | Some _ \<Rightarrow> st\<lparr>ex_pending := gm_del i (ex_pending st)\<rparr>)"

definition TriggerWebhookPipeline ::
  "service \<Rightarrow> int \<Rightarrow> request \<Rightarrow> pipeline \<Rightarrow> webhook_data option \<Rightarrow> nat option \<Rightarrow> exec_state
   \<Rightarrow> (exec_error + pipeline_run) \<times> exec_state" where
  "TriggerWebhookPipeline sv now rq p w ch st =
     (if \<not> CanAccept sv st then (Inl ErrQueueFull, st)
      else case admitRun sv now p TriggerTypeWebhook (formatWebhookTriggeredBy w)
                  \<lparr>ti_args = [], ti_webhook = w, ti_jobs = [], ti_upstream_run_ids = []\<rparr> st of
             (Inl e, st1) \<Rightarrow> (Inl e, st1)
           | (Inr ad, st1) \<Rightarrow>
               (Inr (ad_run ad),
                if ad_terminal ad then st1
                else case dispatchOrQueue sv p (ad_run ad)
                            ((request_options rq)\<lparr>eo_webhook := Some \<lparr>we_data = w, we_channel = ch\<rparr>\<rparr>)
                            (ad_queue_only ad) (park (r_id (ad_run ad)) ch st1) of
                       (dispatched, st2) \<Rightarrow> if dispatched then unpark (r_id (ad_run ad)) ch st2 else st2))"

text \<open>The callback \<open>triggerPipeline\<close> that a running pipeline can call.\<close>

definition TriggerCallback ::
  "service \<Rightarrow> int \<Rightarrow> string \<Rightarrow> string list \<Rightarrow> string list \<Rightarrow> exec_state \<Rightarrow> (exec_error + string) \<times> exec_state" where
  "TriggerCallback sv now name jobs args st =
     (if \<not> CanAccept sv st then (Inl ErrQueueFull, st)
      else case GetPipelineByName name (ex_db st) of
             Inl e \<Rightarrow> (Inl (ErrDb (''pipeline '' @ go_quote name @ '' not found'') e), st)
           | Inr p \<Rightarrow>
               (case trigger_with sv now p TriggerTypeManual ''triggerPipeline''
                       \<lparr>ti_args = args, ti_webhook = None, ti_jobs = jobs, ti_upstream_run_ids = []\<rparr>
                       (no_options\<lparr>eo_args := args, eo_jobs := jobs\<rparr>) st of
                  (Inl e, st1) \<Rightarrow> (Inl e, st1)
                | (Inr run, st1) \<Rightarrow> (Inr (r_id run), st1)))"

definition ResumePipeline ::
  "service \<Rightarrow> int \<Rightarrow> request \<Rightarrow> pipeline \<Rightarrow> pipeline_run \<Rightarrow> exec_state \<Rightarrow> exec_error option \<times> exec_state" where
  "ResumePipeline sv now rq p run st =
     (if \<not> CanAccept sv st then (Some ErrQueueFull, st)
      else case UpdateRunStatus now (r_id run) RunStatusQueued [] (ex_db st) of
             (Some e, d) \<Rightarrow> (Some (ErrDb ''failed to reset run status'' e), st\<lparr>ex_db := d\<rparr>)
           | (None, d) \<Rightarrow>
               (let st1 = st\<lparr>ex_db := d\<rparr> in
                (None, if CanExecute sv st1 then dispatchRun p run ((request_options rq)\<lparr>eo_resume := True\<rparr>) st1 else st1)))"

section \<open>Recovery after a restart\<close>

definition exec_error_text :: "exec_error \<Rightarrow> string" where
  "exec_error_text e =
     (case e of
        ErrQueueFull \<Rightarrow> ''execution queue is full''
      | ErrRunNotInFlight \<Rightarrow> ''run is not currently in flight''
      | ErrDb what err \<Rightarrow> what @ '': '' @ (case err of ErrNotFound \<Rightarrow> ''not found'' | ErrConstraint \<Rightarrow> ''constraint failed''))"

definition no_request :: request where
  "no_request = \<lparr>rq_id = [], rq_provider = [], rq_user = []\<rparr>"

definition recover_run :: "service \<Rightarrow> int \<Rightarrow> pipeline_run \<Rightarrow> exec_state \<Rightarrow> exec_state" where
  "recover_run sv now run st =
     (case GetPipeline (r_pipeline_id run) (ex_db st) of
        Inl _ \<Rightarrow> update_run now (r_id run) RunStatusFailed ''Server restarted; pipeline not found'' st
      | Inr p \<Rightarrow>
          if IsFeatureEnabled ''resume'' (sv_features sv) \<and> p_resume_enabled p then
            (case ResumePipeline sv now no_request p run st of
               (None, st1) \<Rightarrow> st1
             | (Some e, st1) \<Rightarrow>
                 update_run now (r_id run) RunStatusFailed (''Server restarted; resume failed: '' @ exec_error_text e) st1)
          else abort_tasks sv (r_id run) (update_run now (r_id run) RunStatusFailed ''Server restarted during execution'' st))"

definition RecoverOrphanedRuns :: "service \<Rightarrow> int \<Rightarrow> exec_state \<Rightarrow> exec_state" where
  "RecoverOrphanedRuns sv now st = fold (recover_run sv now) (GetRunsByStatus RunStatusRunning 0 (ex_db st)) st"

section \<open>A turn of the queue processor\<close>

lemma dispatchQueuedRun_live:
  assumes "find_pipeline (r_pipeline_id run) (ex_db st) = Some p"
  shows "\<exists>x. ex_live (dispatchQueuedRun now run st) = ex_live st @ [x] \<and> go_run x = run \<and> go_pipeline x = p"
    and "ex_db (dispatchQueuedRun now run st) = ex_db st"
    and "ex_in_flight (dispatchQueuedRun now run st) = ex_in_flight st + 1"
  using assms by (simp_all add: dispatchQueuedRun_def GetPipeline_def buildQueuedExecOptions_def dispatchRun_def Let_def)

definition claimed :: "executor list \<Rightarrow> string list" where
  "claimed xs = filter (\<lambda>g. g \<noteq> []) (map (\<lambda>x. r_concurrency_group (go_run x)) xs)"

lemma claimed_Cons:
  "claimed (x # xs) = (let g = r_concurrency_group (go_run x) in if g = [] then claimed xs else g # claimed xs)"
  by (simp add: claimed_def Let_def)

definition eligible_turn ::
  "service \<Rightarrow> pipeline_run list \<Rightarrow> string list \<Rightarrow> exec_state \<Rightarrow> exec_state \<Rightarrow> executor list \<Rightarrow> bool" where
  "eligible_turn sv rs busy st st' new \<longleftrightarrow>
     ex_live st' = ex_live st @ new \<and> ex_db st' = ex_db st \<and> ex_in_flight st' = ex_in_flight st + int (length new)
     \<and> (new \<noteq> [] \<longrightarrow> ex_in_flight st' \<le> sv_max_in_flight sv)
     \<and> subseq (map go_run new) rs
     \<and> distinct (claimed new) \<and> set (claimed new) \<inter> set busy = {}
     \<and> (\<forall>r\<in>set rs. r \<in> go_run ` set new \<or> \<not> CanExecute sv st'
          \<or> r_concurrency_group r \<noteq> [] \<and> r_concurrency_group r \<in> set busy \<union> set (claimed new))"

lemma dispatchEligible_turn:
  assumes "\<And>r. r \<in> set rs \<Longrightarrow> find_pipeline (r_pipeline_id r) (ex_db st) \<noteq> None"
  shows "\<exists>new. fst (dispatchEligible sv now rs busy st) = length new
    \<and> eligible_turn sv rs busy st (snd (dispatchEligible sv now rs busy st)) new"
  using assms
proof (induction rs arbitrary: busy st)
  case Nil
  show ?case by (rule exI [of _ "[]"]) (simp add: eligible_turn_def claimed_def)
next
  case (Cons r rs)
  let ?g = "r_concurrency_group r"
  consider (full) "\<not> CanExecute sv st" | (busy) "CanExecute sv st" "?g \<noteq> []" "?g \<in> set busy"
    | (free) "CanExecute sv st" "?g = [] \<or> ?g \<notin> set busy" by blast
  then show ?case
  proof cases
    case full
    then show ?thesis by (intro exI [of _ "[]"]) (simp add: eligible_turn_def claimed_def)
  next
    case busy
    have "\<exists>new. fst (dispatchEligible sv now rs busy st) = length new
        \<and> eligible_turn sv rs busy st (snd (dispatchEligible sv now rs busy st)) new"
      by (rule Cons.IH) (use Cons.prems in simp)
    with busy show ?thesis by (auto simp: Let_def eligible_turn_def)
  next
    case free
    let ?busy = "if ?g \<noteq> [] then ?g # busy else busy" and ?st = "dispatchQueuedRun now r st"
    from Cons.prems obtain p where p: "find_pipeline (r_pipeline_id r) (ex_db st) = Some p" by fastforce
    then obtain x where x: "ex_live ?st = ex_live st @ [x]" "go_run x = r"
      using dispatchQueuedRun_live(1) by blast
    note disp = dispatchQueuedRun_live(2,3) [OF p, of now]
    have "\<exists>new. fst (dispatchEligible sv now rs ?busy ?st) = length new
        \<and> eligible_turn sv rs ?busy ?st (snd (dispatchEligible sv now rs ?busy ?st)) new"
      by (rule Cons.IH) (use Cons.prems disp in simp)
    then obtain new where new: "fst (dispatchEligible sv now rs ?busy ?st) = length new"
      and turn: "eligible_turn sv rs ?busy ?st (snd (dispatchEligible sv now rs ?busy ?st)) new" by blast
    have run: "dispatchEligible sv now (r # rs) busy st
        = (Suc (length new), snd (dispatchEligible sv now rs ?busy ?st))"
      using free new by (auto simp: Let_def split: prod.split)
    have "eligible_turn sv (r # rs) busy st (snd (dispatchEligible sv now rs ?busy ?st)) (x # new)"
      using turn x disp free by (auto simp: eligible_turn_def claimed_Cons Let_def CanExecute_def)
    with run show ?thesis by (intro exI [of _ "x # new"]) simp
  qed
qed

lemma pipeline_of_run:
  assumes "db_inv d" and "r \<in> set (runs d)"
  shows "find_pipeline (r_pipeline_id r) d \<noteq> None"
  using assms find_Some_key [of p_id "r_pipeline_id r" "pipelines d"]
  by (auto simp: find_pipeline_def inv_defs)

lemma set_GetRunsByStatus [simp]: "set (GetRunsByStatus s 0 d) = {r \<in> set (runs d). r_status r = s}"
  by (auto simp: GetRunsByStatus_def)


section \<open>Recovery leaves no run running\<close>

lemma runs_update_run:
  "runs (ex_db (update_run now i s msg st)) =
     map (\<lambda>r. if r_id r = i \<and> transition_allowed (r_status r) s then set_run_status now s msg r else r) (runs (ex_db st))"
proof (cases "find_run i (ex_db st) = None")
  case True
  then have "\<forall>r\<in>set (runs (ex_db st)). r_id r \<noteq> i"
    using find_None_key [of r_id i "runs (ex_db st)"] by (auto simp: find_run_def)
  with True show ?thesis by (auto simp: update_run_def UpdateRunStatus_def intro!: map_idI [symmetric])
qed (simp add: update_run_def UpdateRunStatus_def del: not_None_eq)

lemma update_run_frame [simp]:
  "ex_live (update_run now i s msg st) = ex_live st" "ex_in_flight (update_run now i s msg st) = ex_in_flight st"
  "ex_next (update_run now i s msg st) = ex_next st" "ex_stop (update_run now i s msg st) = ex_stop st"
  "pipelines (ex_db (update_run now i s msg st)) = pipelines (ex_db st)"
  by (simp_all add: update_run_def UpdateRunStatus_def)

lemma abort_tasks_frame [simp]:
  "ex_live (abort_tasks sv i st) = ex_live st" "ex_in_flight (abort_tasks sv i st) = ex_in_flight st"
  "ex_next (abort_tasks sv i st) = ex_next st" "ex_stop (abort_tasks sv i st) = ex_stop st"
  "runs (ex_db (abort_tasks sv i st)) = runs (ex_db st)" "pipelines (ex_db (abort_tasks sv i st)) = pipelines (ex_db st)"
  by (simp_all add: abort_tasks_def UpdateStatusForPrefix_def)

lemma dispatchRun_frame [simp]:
  "ex_db (dispatchRun p run opts st) = ex_db st" "ex_stop (dispatchRun p run opts st) = ex_stop st"
  by (simp_all add: dispatchRun_def)

definition running_ids :: "db \<Rightarrow> string set" where
  "running_ids d = r_id ` {r \<in> set (runs d). r_status r = RunStatusRunning}"

lemma update_run_running:
  assumes "s \<in> {RunStatusFailed, RunStatusQueued}"
  shows "running_ids (ex_db (update_run now i s msg st)) = running_ids (ex_db st) - {i}"
proof -
  let ?f = "\<lambda>r. if r_id r = i \<and> transition_allowed (r_status r) s then set_run_status now s msg r else r"
  have "r_id (?f r) = r_id r" and "r_status (?f r) = RunStatusRunning \<longleftrightarrow> r_status r = RunStatusRunning \<and> r_id r \<noteq> i" for r
    using assms by (auto simp: transition_allowed_def)
  then show ?thesis
    unfolding running_ids_def runs_update_run set_map image_def by fastforce
qed

lemma ResumePipeline_cases:
  obtains (refused) "ResumePipeline sv now rq p run st = (Some ErrQueueFull, st)"
  | (failed) e where "ResumePipeline sv now rq p run st = (Some e, update_run now (r_id run) RunStatusQueued [] st)"
  | (resumed) "fst (ResumePipeline sv now rq p run st) = None"
      "snd (ResumePipeline sv now rq p run st) = update_run now (r_id run) RunStatusQueued [] st
       \<or> CanExecute sv st \<and> snd (ResumePipeline sv now rq p run st)
           = dispatchRun p run ((request_options rq)\<lparr>eo_resume := True\<rparr>) (update_run now (r_id run) RunStatusQueued [] st)"
proof (cases "CanAccept sv st")
  case True
  obtain r d where u: "UpdateRunStatus now (r_id run) RunStatusQueued [] (ex_db st) = (r, d)" by fastforce
  then have st1: "update_run now (r_id run) RunStatusQueued [] st = st\<lparr>ex_db := d\<rparr>" by (simp add: update_run_def)
  have can: "CanExecute sv (st\<lparr>ex_db := d\<rparr>) = CanExecute sv st" by (simp add: CanExecute_def)
  show ?thesis
  proof (cases r)
    case None
    with u True st1 can that(3) show ?thesis by (simp add: ResumePipeline_def Let_def split: if_splits)
  next
    case (Some e)
    with u True st1 that(2) show ?thesis by (simp add: ResumePipeline_def)
  qed
next
  case False
  with that(1) show ?thesis by (simp add: ResumePipeline_def)
qed

lemma recover_run_running:
  "running_ids (ex_db (recover_run sv now run st)) = running_ids (ex_db st) - {r_id run}"
proof -
  have abort: "running_ids (ex_db (abort_tasks sv i st)) = running_ids (ex_db st)" for i st
    by (simp add: running_ids_def)
  show ?thesis
  proof (cases "GetPipeline (r_pipeline_id run) (ex_db st)")
    case (Inr p)
    show ?thesis
    proof (cases "IsFeatureEnabled ''resume'' (sv_features sv) \<and> p_resume_enabled p")
      case True
      show ?thesis
      proof (cases rule: ResumePipeline_cases [of sv now no_request p run st])
        case resumed
        obtain st1 where r: "ResumePipeline sv now no_request p run st = (None, st1)"
          using resumed(1) by (cases "ResumePipeline sv now no_request p run st") auto
        with resumed(2) have "running_ids (ex_db st1) = running_ids (ex_db st) - {r_id run}"
          by (auto simp: update_run_running)
        with Inr True r show ?thesis by (simp add: recover_run_def)
      qed (use Inr True in \<open>simp_all add: recover_run_def update_run_running\<close>)
    qed (use Inr in \<open>auto simp: recover_run_def update_run_running abort\<close>)
  qed (simp add: recover_run_def update_run_running)
qed

lemma fold_recover_running:
  "running_ids (ex_db (fold (recover_run sv now) rs st)) = running_ids (ex_db st) - r_id ` set rs"
  by (induction rs arbitrary: st) (auto simp: recover_run_running)

lemma fold_recover_failed:
  assumes "\<not> IsFeatureEnabled ''resume'' (sv_features sv)"
    and "\<And>r. r \<in> set rs \<Longrightarrow> find_pipeline (r_pipeline_id r) (ex_db st) \<noteq> None"
  shows "runs (ex_db (fold (recover_run sv now) rs st)) =
      map (\<lambda>r. if r_id r \<in> r_id ` set rs
                then set_run_status now RunStatusFailed ''Server restarted during execution'' r else r) (runs (ex_db st))
    \<and> ex_live (fold (recover_run sv now) rs st) = ex_live st"
  using assms(2)
proof (induction rs arbitrary: st)
  case (Cons run rs)
  let ?st = "recover_run sv now run st" and ?m = "''Server restarted during execution''"
  obtain p where p: "find_pipeline (r_pipeline_id run) (ex_db st) = Some p" using Cons.prems [of run] by auto
  have st: "?st = abort_tasks sv (r_id run) (update_run now (r_id run) RunStatusFailed ?m st)"
    using assms(1) p by (simp add: recover_run_def GetPipeline_def)
  have "find_pipeline (r_pipeline_id r) (ex_db ?st) \<noteq> None" if "r \<in> set rs" for r
    using Cons.prems [of r] that by (simp add: st find_pipeline_def)
  note IH = Cons.IH [OF this]
  have twice: "set_run_status now RunStatusFailed ?m (set_run_status now RunStatusFailed ?m r)
      = set_run_status now RunStatusFailed ?m r" for r
    by (simp add: set_run_status_def)
  have "runs (ex_db ?st) = map (\<lambda>r. if r_id r = r_id run then set_run_status now RunStatusFailed ?m r else r) (runs (ex_db st))"
    by (simp add: st runs_update_run transition_allowed_def)
  with IH show ?case by (auto simp: st twice)
qed simp

text \<open>After a restart no run is left running: the sweep turns every orphaned run into a failed one or, with the
  feature enabled for its pipeline, a queued one. Without the feature it fails exactly the orphans, leaves all
  other runs as they are and starts nothing.\<close>

theorem recovery_leaves_none_running:
  assumes "db_inv (ex_db st)"
  shows "let st' = RecoverOrphanedRuns sv now st in
    running_ids (ex_db st') = {}
    \<and> (\<not> IsFeatureEnabled ''resume'' (sv_features sv) \<longrightarrow>
         runs (ex_db st') = map (\<lambda>r. if r_status r = RunStatusRunning
             then set_run_status now RunStatusFailed ''Server restarted during execution'' r else r) (runs (ex_db st))
         \<and> ex_live st' = ex_live st)"
proof -
  let ?rs = "GetRunsByStatus RunStatusRunning 0 (ex_db st)"
  have dist: "distinct (map r_id (runs (ex_db st)))" using assms by (simp add: inv_defs)
  have ids: "r_id r \<in> r_id ` set ?rs \<longleftrightarrow> r_status r = RunStatusRunning" if "r \<in> set (runs (ex_db st))" for r
    using that dist by (auto simp: distinct_map dest: inj_onD)
  have "running_ids (ex_db (RecoverOrphanedRuns sv now st)) = {}"
    by (simp add: RecoverOrphanedRuns_def fold_recover_running) (simp add: running_ids_def)
  moreover have "find_pipeline (r_pipeline_id r) (ex_db st) \<noteq> None" if "r \<in> set ?rs" for r
    using pipeline_of_run [OF assms] that by simp
  then have "\<not> IsFeatureEnabled ''resume'' (sv_features sv) \<longrightarrow>
      runs (ex_db (RecoverOrphanedRuns sv now st)) = map (\<lambda>r. if r_id r \<in> r_id ` set ?rs
             then set_run_status now RunStatusFailed ''Server restarted during execution'' r else r) (runs (ex_db st))
      \<and> ex_live (RecoverOrphanedRuns sv now st) = ex_live st"
    using fold_recover_failed [of sv ?rs st now] unfolding RecoverOrphanedRuns_def by blast
  moreover have "map (\<lambda>r. if r_id r \<in> r_id ` set ?rs
             then set_run_status now RunStatusFailed ''Server restarted during execution'' r else r) (runs (ex_db st))
      = map (\<lambda>r. if r_status r = RunStatusRunning
             then set_run_status now RunStatusFailed ''Server restarted during execution'' r else r) (runs (ex_db st))"
    using ids by (intro map_cong refl if_cong)
  ultimately show ?thesis by (simp add: Let_def)
qed

section \<open>Admission\<close>

lemma set_GetActiveRunsByPipeline: "set (GetActiveRunsByPipeline pid d) = {r \<in> set (runs d). r_pipeline_id r = pid \<and> active r}"
  by (auto simp: GetActiveRunsByPipeline_def)

lemma save_run_cases:
  obtains (failed) e where "save_run sv now pid tt user inp grp status msg st = (Inl e, st\<lparr>ex_ids := Suc (ex_ids st)\<rparr>)"
  | (saved) run where
      "save_run sv now pid tt user inp grp status msg st
         = (Inr run, st\<lparr>ex_db := (ex_db st)\<lparr>runs := runs (ex_db st) @ [run]\<rparr>, ex_ids := Suc (ex_ids st)\<rparr>)"
      "run = new_run (sv_new_id sv (ex_ids st)) now pid tt user inp grp status msg"
      "r_id run \<notin> r_id ` set (runs (ex_db st))"
proof (cases "find_run (sv_new_id sv (ex_ids st)) (ex_db st) \<noteq> None \<or> find_pipeline pid (ex_db st) = None")
  case True
  then have "save_run sv now pid tt user inp grp status msg st = (Inl ErrConstraint, st\<lparr>ex_ids := Suc (ex_ids st)\<rparr>)"
    by (simp add: save_run_def SaveRunWithStatus_def)
  then show ?thesis by (rule that(1))
next
  case False
  let ?run = "new_run (sv_new_id sv (ex_ids st)) now pid tt user inp grp status msg"
  have "sv_new_id sv (ex_ids st) \<notin> r_id ` set (runs (ex_db st))"
    using False find_None_key [of r_id "sv_new_id sv (ex_ids st)" "runs (ex_db st)"] by (auto simp: find_run_def)
  then show ?thesis
    using False by (intro that(2) [of ?run]) (auto simp: save_run_def SaveRunWithStatus_def Let_def new_run_def)
qed

text \<open>Serial pipelines do not overlap at admission: while a pipeline of mode \<open>serial\<close> or \<open>skip-if-running\<close> has a
  queued or running run, a trigger only records a new run, queued behind the others or skipped, and starts nothing.\<close>

theorem serial_trigger_waits:
  assumes "p_concurrency_mode p = ''serial'' \<or> p_concurrency_mode p = ''skip-if-running''"
    and "r \<in> set (runs (ex_db st))" and "r_pipeline_id r = p_id p" and "active r"
    and "TriggerPipelineWithJobs sv now rq p args jobs st = (Inr run, st')"
  shows "ex_live st' = ex_live st \<and> ex_in_flight st' = ex_in_flight st
    \<and> runs (ex_db st') = runs (ex_db st) @ [run]
    \<and> r_status run = (if p_concurrency_mode p = ''serial'' then RunStatusQueued else RunStatusSkipped)
    \<and> r_concurrency_group run = ''pipeline:'' @ p_id p"
proof -
  let ?d = "ex_db st" and ?inp = "\<lparr>ti_args = args, ti_webhook = None, ti_jobs = jobs, ti_upstream_run_ids = []\<rparr>"
  let ?serial = "p_concurrency_mode p = ''serial''"
  obtain peer peers where peers: "GetActiveRunsByPipeline (p_id p) ?d = peer # peers"
    using assms(2-4) set_GetActiveRunsByPipeline [of "p_id p" ?d] by (cases "GetActiveRunsByPipeline (p_id p) ?d") auto
  obtain dec where dec: "resolveConcurrency sv p ?inp ?d = Inr dec" "cd_group dec = ''pipeline:'' @ p_id p"
      "cd_action dec = (if ?serial then concurrencyQueueBehind else concurrencySkip)"
    using assms(1) peers by (auto simp: resolveConcurrency_def resolveConcurrencyGroup_def decide_def Let_def)
  obtain ad where ad: "admitRun sv now p TriggerTypeManual (formatTriggeredBy rq) ?inp st = (Inr ad, st')"
      "run = ad_run ad" "ad_terminal ad \<or> ad_queue_only ad"
  proof -
    obtain res st1 where adm: "admitRun sv now p TriggerTypeManual (formatTriggeredBy rq) ?inp st = (res, st1)" by fastforce
    with assms(5) obtain ad where "res = Inr ad" "run = ad_run ad"
      "st' = (if ad_terminal ad then st1 else snd (dispatchOrQueue sv p (ad_run ad)
                ((request_options rq)\<lparr>eo_args := args, eo_jobs := jobs\<rparr>) (ad_queue_only ad) st1))"
      by (auto simp: TriggerPipelineWithJobs_def trigger_with_def split: if_splits sum.splits)
    moreover have "ad_terminal ad \<or> ad_queue_only ad"
      using adm \<open>res = Inr ad\<close> dec
      by (auto simp: admitRun_def save_terminal_def split: if_splits sum.splits prod.splits)
    ultimately show ?thesis using adm that [of ad] by (auto simp: dispatchOrQueue_def)
  qed
  show ?thesis
    using ad dec by (cases rule: save_run_cases [of sv now "p_id p" TriggerTypeManual "formatTriggeredBy rq" ?inp "cd_group dec"
          "if ?serial then RunStatusQueued else RunStatusSkipped" "if ?serial then [] else cd_reason dec" st])
      (auto simp: admitRun_def save_terminal_def new_run_def split: if_splits)
qed

definition active_ids :: "string \<Rightarrow> db \<Rightarrow> string set" where
  "active_ids grp d = r_id ` {r \<in> set (runs d). r_concurrency_group r = grp \<and> active r}"

lemma set_run_status_group [simp]: "r_concurrency_group (set_run_status now s msg r) = r_concurrency_group r"
  by (simp add: set_run_status_def)

lemma update_run_active:
  assumes "s = RunStatusFailed \<or> s = RunStatusSkipped"
  shows "active_ids grp (ex_db (update_run now i s msg st)) = active_ids grp (ex_db st) - {i}"
proof -
  let ?f = "\<lambda>r. if r_id r = i \<and> transition_allowed (r_status r) s then set_run_status now s msg r else r"
  have "r_id (?f r) = r_id r" and "r_concurrency_group (?f r) = r_concurrency_group r"
    and "active (?f r) \<longleftrightarrow> active r \<and> r_id r \<noteq> i" for r
    using assms by (auto simp: transition_allowed_def active_def)
  then show ?thesis
    unfolding active_ids_def runs_update_run set_map image_def by fastforce
qed

lemma StopRun_active: "active_ids grp (ex_db (snd (StopRun sv now i st))) \<subseteq> active_ids grp (ex_db st)"
  and StopRun_frame [simp]: "ex_in_flight (snd (StopRun sv now i st)) = ex_in_flight st"
proof -
  have "active_ids grp (ex_db (abort_tasks sv i (cancel g st))) = active_ids grp (ex_db st)" for g
    by (simp add: active_ids_def cancel_def)
  then show "active_ids grp (ex_db (snd (StopRun sv now i st))) \<subseteq> active_ids grp (ex_db st)"
    by (auto simp: StopRun_def update_run_active split: option.split)
  show "ex_in_flight (snd (StopRun sv now i st)) = ex_in_flight st"
    by (simp add: StopRun_def cancel_def split: option.split)
qed

lemma supersede_active:
  assumes "active peer"
  shows "active_ids grp (ex_db (supersede sv now newer peer st)) \<subseteq> active_ids grp (ex_db st) - {r_id peer}"
    and "r \<in> set (runs (ex_db st)) \<Longrightarrow> r_id r \<noteq> r_id peer \<Longrightarrow> r \<in> set (runs (ex_db (supersede sv now newer peer st)))"
proof -
  show "active_ids grp (ex_db (supersede sv now newer peer st)) \<subseteq> active_ids grp (ex_db st) - {r_id peer}"
    using assms StopRun_active [of grp sv now "r_id peer" st]
    by (auto simp: supersede_def update_run_active active_def)
  show "r \<in> set (runs (ex_db st)) \<Longrightarrow> r_id r \<noteq> r_id peer \<Longrightarrow> r \<in> set (runs (ex_db (supersede sv now newer peer st)))"
    using assms by (auto simp: supersede_def runs_update_run StopRun_def active_def cancel_def split: option.split)
qed

lemma supersedePeers_active:
  assumes "\<And>x. x \<in> set peers \<Longrightarrow> active x"
  shows "active_ids grp (ex_db (supersedePeers sv now peers newer st)) \<subseteq> active_ids grp (ex_db st) - r_id ` set peers
    \<and> (\<forall>r\<in>set (runs (ex_db st)). r_id r \<notin> r_id ` set peers \<longrightarrow> r \<in> set (runs (ex_db (supersedePeers sv now peers newer st))))"
  using assms
proof (induction peers arbitrary: st)
  case (Cons x peers)
  have "active x" by (simp add: Cons.prems)
  note one = supersede_active [OF this]
  have IH: "active_ids grp (ex_db (supersedePeers sv now peers newer (supersede sv now newer x st)))
      \<subseteq> active_ids grp (ex_db (supersede sv now newer x st)) - r_id ` set peers
    \<and> (\<forall>r\<in>set (runs (ex_db (supersede sv now newer x st))). r_id r \<notin> r_id ` set peers
          \<longrightarrow> r \<in> set (runs (ex_db (supersedePeers sv now peers newer (supersede sv now newer x st)))))"
    by (rule Cons.IH) (simp add: Cons.prems)
  have unf: "supersedePeers sv now (x # peers) newer st = supersedePeers sv now peers newer (supersede sv now newer x st)"
    by (simp add: supersedePeers_def)
  show ?case unfolding unf using IH one(1) [of grp sv now newer st] one(2) [of _ st sv now newer] by auto
qed (simp add: supersedePeers_def)

text \<open>C7. Taking over a group: with \<open>concurrency_cancel_running\<close>, once a trigger has been admitted the new run is the only
  active run of its concurrency group; it is queued in the database under that group, and the others are stopped or
  skipped.\<close>

theorem cancel_mode_takes_over:
  assumes "p_concurrency_mode p = ''group''" and "p_cancel_running p"
    and "admitRun sv now p tt user inp st = (Inr ad, st')" and "\<not> ad_terminal ad"
  shows "resolveConcurrencyGroup sv p inp = Inr (r_concurrency_group (ad_run ad))
    \<and> active_ids (r_concurrency_group (ad_run ad)) (ex_db st') = {r_id (ad_run ad)}
    \<and> ad_run ad \<in> set (runs (ex_db st')) \<and> \<not> ad_queue_only ad"
proof -
  obtain dec where dec: "resolveConcurrency sv p inp (ex_db st) = Inr dec" and act: "cd_action dec \<noteq> concurrencySkip"
    using assms(3,4) by (auto simp: admitRun_def save_terminal_def split: sum.splits if_splits prod.splits)
  define grp where "grp = cd_group dec"
  have grp: "resolveConcurrencyGroup sv p inp = Inr grp" and peers: "cd_peers dec = GetActiveRunsByGroup grp (ex_db st)"
    and action: "cd_action dec = (if cd_peers dec = [] then concurrencyProceed else concurrencyCancelPeers)"
    using dec assms(1,2) by (auto simp: grp_def resolveConcurrency_def decide_def Let_def split: sum.splits list.splits)
  have "grp \<noteq> []" using grp assms(1) by (auto simp: resolveConcurrencyGroup_def Let_def split: if_splits render_result.splits)
  then have all: "set (cd_peers dec) = {r \<in> set (runs (ex_db st)). r_concurrency_group r = grp \<and> active r}"
    by (auto simp: peers GetActiveRunsByGroup_def)
  then have peer_ids: "r_id ` set (cd_peers dec) = active_ids grp (ex_db st)" by (simp add: active_ids_def)
  show ?thesis
  proof (cases rule: save_run_cases [of sv now "p_id p" tt user inp grp RunStatusQueued "[]" st])
    case failed
    with assms(3) dec act show ?thesis by (auto simp: admitRun_def grp_def)
  next
    case (saved run)
    let ?st1 = "st\<lparr>ex_db := (ex_db st)\<lparr>runs := runs (ex_db st) @ [run]\<rparr>, ex_ids := Suc (ex_ids st)\<rparr>"
    have run: "r_concurrency_group run = grp" "active run" by (simp_all add: saved(2) new_run_def active_def)
    have res: "ad_run ad = run" "\<not> ad_queue_only ad"
      "st' = (if cd_peers dec = [] then ?st1 else supersedePeers sv now (cd_peers dec) (r_id run) ?st1)"
      using assms(3) dec act saved(1) action by (auto simp: admitRun_def grp_def split: if_splits)
    have ids1: "active_ids grp (ex_db ?st1) = insert (r_id run) (active_ids grp (ex_db st))"
      using run by (auto simp: active_ids_def)
    have new: "r_id run \<notin> r_id ` set (cd_peers dec)" using saved(3) all by auto
    have sub: "active_ids grp (ex_db st') \<subseteq> {r_id run}" and kept: "run \<in> set (runs (ex_db st'))"
    proof -
      have "active_ids grp (ex_db (supersedePeers sv now (cd_peers dec) (r_id run) ?st1)) \<subseteq> {r_id run}
          \<and> run \<in> set (runs (ex_db (supersedePeers sv now (cd_peers dec) (r_id run) ?st1)))"
        using supersedePeers_active [of "cd_peers dec" grp sv now "r_id run" ?st1] all ids1 peer_ids new by auto
      moreover have "active_ids grp (ex_db ?st1) \<subseteq> {r_id run}" if "cd_peers dec = []" using that ids1 peer_ids by auto
      ultimately show "active_ids grp (ex_db st') \<subseteq> {r_id run}" "run \<in> set (runs (ex_db st'))"
        using res(3) by auto
    qed
    moreover from kept run have "r_id run \<in> active_ids grp (ex_db st')" by (auto simp: active_ids_def)
    ultimately show ?thesis using grp res run by auto
  qed
qed

section \<open>Concrete states\<close>

definition sample_service :: service where
  "sample_service = \<lparr>sv_max_in_flight = 2, sv_max_queue = 10, sv_default_driver = ''docker'', sv_features = [],
     sv_namespace = [], sv_parse = (\<lambda>_. None), sv_render = (\<lambda>t _. Rendered t),
     sv_new_id = (\<lambda>n. replicate (Suc n) (CHR ''r'')), sv_range = (\<lambda>js. js)\<rparr>"

definition service_state :: "db \<Rightarrow> exec_state" where
  "service_state d = \<lparr>ex_db = d, ex_in_flight = 0, ex_live = [], ex_next = 0, ex_stop = [], ex_pending = [], ex_ids = 0\<rparr>"

definition mode_pipeline :: "string \<Rightarrow> pipeline" where
  "mode_pipeline mode = (zero_pipeline ''p1'' ''ci'' [] [] [] 0)
     \<lparr>p_concurrency_mode := mode, p_group_template := ''deploy'', p_cancel_running := True\<rparr>"

definition mode_db :: "string \<Rightarrow> run_status \<Rightarrow> db" where
  "mode_db mode s = empty_db\<lparr>pipelines := [mode_pipeline mode],
     runs := [(sample_run ''q1'' ''p1'')\<lparr>r_status := s, r_concurrency_group := ''deploy''\<rparr>,
              (sample_run ''q2'' ''p1'')\<lparr>r_concurrency_group := ''deploy'', r_created_at := 1\<rparr>]\<rparr>"

lemma mode_db_inv: "db_inv (mode_db mode s)"
  by (simp add: inv_defs mode_db_def empty_db_def mode_pipeline_def zero_pipeline_def sample_run_def)

lemmas sample_defs = sample_service_def service_state_def mode_db_def mode_pipeline_def zero_pipeline_def sample_run_def
  empty_db_def


theorem recovery_leaves_none_running_witness:
  "map r_status (runs (ex_db (RecoverOrphanedRuns sample_service 9 (service_state (mode_db [] RunStatusRunning)))))
     = [RunStatusFailed, RunStatusQueued]"
proof -
  have "db_inv (ex_db (service_state (mode_db [] RunStatusRunning)))" by (simp add: service_state_def mode_db_inv)
  from recovery_leaves_none_running [OF this, of sample_service 9] show ?thesis
    by (simp add: Let_def IsFeatureEnabled_def sample_defs)
qed

lemmas admission_defs = TriggerPipeline_def TriggerPipelineWithJobs_def trigger_with_def admitRun_def save_terminal_def
  resolveConcurrency_def resolveConcurrencyGroup_def decide_def save_run_def SaveRunWithStatus_def new_run_def
  dispatchOrQueue_def dispatchRun_def CanAccept_def CanExecute_def QueueLength_def GetActiveRunsByPipeline_def active_def
  GetRunsByStatus_def find_pipeline_def find_run_def no_request_def request_options_def no_options_def order_asc_def
  order_desc_def Let_def sample_defs

definition admitted :: "string \<Rightarrow> (exec_error + pipeline_run) \<times> exec_state" where
  "admitted mode = TriggerPipelineWithJobs sample_service 7 no_request (mode_pipeline mode) [] []
     (service_state (mode_db mode RunStatusRunning))"

theorem serial_trigger_waits_witness:
  "map r_status (runs (ex_db (snd (admitted ''serial'')))) = [RunStatusRunning, RunStatusQueued, RunStatusQueued]
   \<and> map r_status (runs (ex_db (snd (admitted ''skip-if-running'')))) = [RunStatusRunning, RunStatusQueued, RunStatusSkipped]"
proof -
  let ?r = "(sample_run ''q1'' ''p1'')\<lparr>r_status := RunStatusRunning, r_concurrency_group := ''deploy''\<rparr>"
  have r: "?r \<in> set (runs (ex_db (service_state (mode_db mode RunStatusRunning))))"
      "r_pipeline_id ?r = p_id (mode_pipeline mode)" "active ?r" for mode
    by (simp_all add: service_state_def mode_db_def mode_pipeline_def zero_pipeline_def sample_run_def active_def)
  obtain a b where "admitted ''serial'' = (Inr a, snd (admitted ''serial''))"
      "admitted ''skip-if-running'' = (Inr b, snd (admitted ''skip-if-running''))"
    by (simp add: admitted_def admission_defs)
  note e = this [unfolded admitted_def]
  show ?thesis
    using serial_trigger_waits [OF _ r e(1)] serial_trigger_waits [OF _ r e(2)]
    by (simp add: admitted_def) (simp add: service_state_def mode_db_def mode_pipeline_def sample_run_def)
qed

theorem cancel_mode_takes_over_witness:
  "\<exists>ad st'. admitRun sample_service 7 (mode_pipeline ''group'') TriggerTypeManual [] no_input
        (service_state (mode_db ''group'' RunStatusRunning)) = (Inr ad, st')
     \<and> active_ids ''deploy'' (ex_db st') = {r_id (ad_run ad)}"
proof -
  let ?adm = "admitRun sample_service 7 (mode_pipeline ''group'') TriggerTypeManual [] no_input
        (service_state (mode_db ''group'' RunStatusRunning))"
  have "case fst ?adm of Inl _ \<Rightarrow> False | Inr ad \<Rightarrow> \<not> ad_terminal ad \<and> r_concurrency_group (ad_run ad) = ''deploy''"
    by code_simp
  then obtain ad where ad: "?adm = (Inr ad, snd ?adm)" "\<not> ad_terminal ad" "r_concurrency_group (ad_run ad) = ''deploy''"
    by (cases ?adm; cases "fst ?adm") auto
  have "p_concurrency_mode (mode_pipeline ''group'') = ''group''" "p_cancel_running (mode_pipeline ''group'')"
    by (simp_all add: mode_pipeline_def)
  from cancel_mode_takes_over [OF this ad(1,2)] ad(1,3) show ?thesis by auto
qed

text \<open>A dispatched run stays queued in the database until its goroutine has written \<open>running\<close>. A turn of the processor
  in between dispatches it a second time, and takes no notice of its concurrency group.\<close>

lemma run_dispatched_twice:
  "let one = mode_db [] RunStatusSuccess in
   map (r_id \<circ> go_run) (ex_live (processQueue_turn sample_service 5 (processQueue_turn sample_service 5 (service_state one))))
     = [''q2'', ''q2'']"
  by code_simp

definition serial_state :: exec_state where
  "serial_state = (let trigger = (\<lambda>now st. snd (TriggerPipeline sample_service now no_request (mode_pipeline ''serial'') [] st))
     in trigger 8 (trigger 7 (service_state ((mode_db ''serial'' RunStatusSuccess)\<lparr>runs := []\<rparr>))))"

lemma serial_runs_overlap:
  "map (\<lambda>x. (r_id (go_run x), r_concurrency_group (go_run x))) (ex_live (processQueue_turn sample_service 9 serial_state))
     = [(''r'', ''pipeline:p1''), (''rr'', ''pipeline:p1'')]"
  by (simp add: serial_state_def admission_defs processQueue_turn_def processQueueTick_def busyConcurrencyGroups_def
      dispatchQueuedRun_def GetPipeline_def buildQueuedExecOptions_def)

end
