(* ===== verification/Run_Lifecycle.thy ===== *)
theory Run_Lifecycle
  imports Execution
begin

text \<open>
  The life of a run in the execution service: the goroutine \<open>executePipeline\<close> before (\<open>begin_run\<close>) and after
  (\<open>finish_run\<close>) the pipeline executes, the final status and the retention of \<open>server/execution.go\<close>, and the jobs that
  completed runs trigger by \<open>triggers.passed\<close> (\<open>server/execution_passed.go\<close>). \<open>exec_step\<close> is one operation of the
  service by any caller, or any change of the database by the pipelines that execute meanwhile. A function that can dereference a nil
  pointer returns an option; \<open>None\<close> is the panic.
\<close>

section \<open>Final status\<close>

fun obj_field :: "json \<Rightarrow> string \<Rightarrow> string option" where
  "obj_field (JObj m) k = obj_str m k"
| "obj_field _ k = None"

definition failing_statuses :: "string list" where
  "failing_statuses = [''failure'', ''error'', ''abort'']"

fun status_loop :: "task_result list \<Rightarrow> bool \<Rightarrow> bool \<Rightarrow> run_status \<times> string" where
  "status_loop [] hasStatuses allSkipped =
     (if hasStatuses \<and> allSkipped then RunStatusSkipped else RunStatusSuccess, [])"
| "status_loop (r # rs) hasStatuses allSkipped =
     (case obj_field (rs_payload r) ''status'' of
        None \<Rightarrow> status_loop rs hasStatuses allSkipped
      | Some status \<Rightarrow>
          if status \<in> set failing_statuses
          then (RunStatusFailed, case obj_field (rs_payload r) ''errorMessage'' of None \<Rightarrow> [] | Some m \<Rightarrow> m)
          else status_loop rs True (allSkipped \<and> status = ''skipped''))"

definition jobs_prefix :: "string \<Rightarrow> string" where
  "jobs_prefix i = ''/pipeline/'' @ i @ ''/jobs''"

definition determineRunStatus :: "service \<Rightarrow> string \<Rightarrow> db \<Rightarrow> run_status \<times> string" where
  "determineRunStatus sv i d =
     status_loop (GetAll (sv_namespace sv) (jobs_prefix i) [''status'', ''errorMessage''] d) False True"

section \<open>Retention\<close>

definition lower_limit :: "int \<Rightarrow> int \<Rightarrow> int" where
  "lower_limit n keep = (if n > 0 \<and> (keep = 0 \<or> n < keep) then n else keep)"

definition minRetentionLimits :: "job list \<Rightarrow> int \<times> int" where
  "minRetentionLimits js =
     fold (\<lambda>j (builds, days).
             case job_retention j of
               None \<Rightarrow> (builds, days)
             | Some r \<Rightarrow> (lower_limit (blr_builds r) builds, lower_limit (blr_days r) days))
       js (0, 0)"

definition pruneOldRuns :: "service \<Rightarrow> int \<Rightarrow> pipeline \<Rightarrow> exec_state \<Rightarrow> exec_state" where
  "pruneOldRuns sv now p st =
     (if p_content_type p \<noteq> ''yaml'' then st
      else case sv_parse sv (p_content p) of
             None \<Rightarrow> st
           | Some cfg \<Rightarrow>
               (case minRetentionLimits (cfg_jobs cfg) of
                  (keepBuilds, keepDays) \<Rightarrow>
                    if cfg_jobs cfg = [] \<or> keepBuilds = 0 \<and> keepDays = 0 then st
                    else st\<lparr>ex_db := PruneRunsByPipeline (p_id p) keepBuilds
                           (if keepDays > 0 then Some (now - 86400 * keepDays) else None) (ex_db st)\<rparr>))"

section \<open>Jobs triggered by completed runs\<close>

definition passed_of :: "job \<Rightarrow> string list" where
  "passed_of j = (case job_triggers j of None \<Rightarrow> [] | Some t \<Rightarrow> tr_passed t)"

definition completedJobNames :: "pipeline_run \<Rightarrow> config \<Rightarrow> string list" where
  "completedJobNames run cfg =
     (if ti_jobs (r_trigger_input run) \<noteq> [] then ti_jobs (r_trigger_input run) else map job_name (cfg_jobs cfg))"

definition buildPassedDependents :: "config \<Rightarrow> string \<Rightarrow> job list" where
  "buildPassedDependents cfg upstream =
     concat (map (\<lambda>j. map (\<lambda>_. j) (filter (\<lambda>u. u = upstream) (passed_of j))) (cfg_jobs cfg))"

text \<open>The zero value of \<open>time.Time\<close> as Unix seconds.\<close>

definition zero_time :: int where "zero_time = -62135596800"

definition firePassedDownstream ::
  "service \<Rightarrow> int \<Rightarrow> pipeline \<Rightarrow> job \<Rightarrow> pipeline_run option \<Rightarrow> string list \<Rightarrow> exec_state \<Rightarrow> exec_state option" where
  "firePassedDownstream sv now p downstream completed upstreamRunIDs st =
     (if \<not> CanAccept sv st then Some st
      else case completed of
             None \<Rightarrow> None
           | Some run \<Rightarrow>
               Some (snd (trigger_with sv now p TriggerTypePassed (''passed:'' @ r_id run)
                 \<lparr>ti_args = [], ti_webhook = None, ti_jobs = [job_name downstream], ti_upstream_run_ids = upstreamRunIDs\<rparr>
                 (no_options\<lparr>eo_jobs := [job_name downstream]\<rparr>) st)))"

fun fresh_upstreams :: "string \<Rightarrow> int \<Rightarrow> string list \<Rightarrow> db \<Rightarrow> string list option" where
  "fresh_upstreams pid since [] d = Some []"
| "fresh_upstreams pid since (u # us) d =
     (case GetSuccessfulJobRunSince pid u since d of
        None \<Rightarrow> None
      | Some r \<Rightarrow> map_option (\<lambda>ids. r_id r # ids) (fresh_upstreams pid since us d))"

definition since_time :: "string \<Rightarrow> string \<Rightarrow> db \<Rightarrow> int" where
  "since_time pid job d = (case GetMostRecentJobRun pid job d of None \<Rightarrow> zero_time | Some r \<Rightarrow> r_created_at r)"

definition evaluatePassedDownstream ::
  "service \<Rightarrow> int \<Rightarrow> pipeline \<Rightarrow> job \<Rightarrow> pipeline_run option \<Rightarrow> exec_state \<Rightarrow> exec_state option" where
  "evaluatePassedDownstream sv now p downstream completed st =
     (let d = ex_db st in
      if \<exists>r\<in>set (GetActiveRunsByPipeline (p_id p) d). job_name downstream \<in> set (ti_jobs (r_trigger_input r)) then Some st
      else case fresh_upstreams (p_id p) (since_time (p_id p) (job_name downstream) d) (passed_of downstream) d of
             None \<Rightarrow> Some st
           | Some ids \<Rightarrow> firePassedDownstream sv now p downstream completed ids st)"

fun evaluate_all ::
  "service \<Rightarrow> int \<Rightarrow> pipeline \<Rightarrow> pipeline_run option \<Rightarrow> job list \<Rightarrow> exec_state \<Rightarrow> exec_state option" where
  "evaluate_all sv now p completed [] st = Some st"
| "evaluate_all sv now p completed (j # js) st =
     (case evaluatePassedDownstream sv now p j completed st of
        None \<Rightarrow> None
      | Some st1 \<Rightarrow> evaluate_all sv now p completed js st1)"

text \<open>The candidates by name, in the order in which Go ranges over their map.\<close>

definition candidates :: "service \<Rightarrow> config \<Rightarrow> string list \<Rightarrow> job list" where
  "candidates sv cfg completed =
     sv_range sv (map snd (fold (\<lambda>name m. fold (\<lambda>j. gm_set (job_name j) j) (buildPassedDependents cfg name) m) completed []))"

definition scanPassedDownstreams ::
  "service \<Rightarrow> int \<Rightarrow> pipeline \<Rightarrow> pipeline_run \<Rightarrow> exec_state \<Rightarrow> exec_state option" where
  "scanPassedDownstreams sv now p completed st =
     (if p_paused p then Some st
      else case sv_parse sv (p_content p) of
             None \<Rightarrow> Some st
           | Some cfg \<Rightarrow>
               (let names = completedJobNames completed cfg in
                evaluate_all sv now p (Some completed) (candidates sv cfg names) st))"

definition recover_pipeline :: "service \<Rightarrow> int \<Rightarrow> pipeline \<Rightarrow> exec_state \<Rightarrow> exec_state option" where
  "recover_pipeline sv now p st =
     (if p_paused p then Some st
      else case sv_parse sv (p_content p) of
             None \<Rightarrow> Some st
           | Some cfg \<Rightarrow> evaluate_all sv now p None (filter (\<lambda>j. passed_of j \<noteq> []) (cfg_jobs cfg)) st)"

fun recover_pipelines :: "service \<Rightarrow> int \<Rightarrow> pipeline list \<Rightarrow> exec_state \<Rightarrow> exec_state option" where
  "recover_pipelines sv now [] st = Some st"
| "recover_pipelines sv now (p # ps) st =
     (case recover_pipeline sv now p st of None \<Rightarrow> None | Some st1 \<Rightarrow> recover_pipelines sv now ps st1)"

text \<open>The first page of \<open>SearchPipelines\<close> with an empty query, of at most 1000 pipelines.\<close>

definition recoverPassedTriggers :: "service \<Rightarrow> int \<Rightarrow> exec_state \<Rightarrow> exec_state option" where
  "recoverPassedTriggers sv now st =
     recover_pipelines sv now (pg_items (paginate 1 1000 (order_desc p_created_at (pipelines (ex_db st))))) st"

section \<open>The goroutine of a run\<close>

text \<open>The deferred calls of \<open>executePipeline\<close>.\<close>

definition end_run :: "executor \<Rightarrow> exec_state \<Rightarrow> exec_state" where
  "end_run x st =
     st\<lparr>ex_stop := gm_del (r_id (go_run x)) (ex_stop st), ex_live := filter (\<lambda>y. go_id y \<noteq> go_id x) (ex_live st),
        ex_in_flight := ex_in_flight st - 1\<rparr>"

definition begin_run :: "int \<Rightarrow> executor \<Rightarrow> exec_state \<Rightarrow> exec_state" where
  "begin_run now x st =
     (let i = r_id (go_run x);
          st1 = st\<lparr>ex_stop := gm_set i (go_id x) (ex_stop st),
                   ex_live := map (\<lambda>y. if go_id y = go_id x then y\<lparr>go_executing := True\<rparr> else y) (ex_live st)\<rparr>
      in case UpdateRunStatus now i RunStatusRunning [] (ex_db st) of
           (Some _, d) \<Rightarrow> end_run x (st1\<lparr>ex_db := d\<rparr>)
         | (None, d) \<Rightarrow> st1\<lparr>ex_db := d\<rparr>)"

definition finalizeExecRun ::
  "service \<Rightarrow> int \<Rightarrow> bool \<Rightarrow> pipeline_run \<Rightarrow> pipeline \<Rightarrow> string option \<Rightarrow> exec_state \<Rightarrow> exec_state option" where
  "finalizeExecRun sv now cancelled run p execErr st =
     (if cancelled then Some (update_run now (r_id run) RunStatusFailed ''Run stopped by user'' (abort_tasks sv (r_id run) st))
      else case execErr of
        Some msg \<Rightarrow> Some (update_run now (r_id run) RunStatusFailed msg st)
      | None \<Rightarrow>
          (case determineRunStatus sv (r_id run) (ex_db st) of
             (finalStatus, errMsg) \<Rightarrow>
               (case UpdateRunStatus now (r_id run) finalStatus errMsg (ex_db st) of
                  (Some _, d) \<Rightarrow> Some (st\<lparr>ex_db := d\<rparr>)
                | (None, d) \<Rightarrow>
                    map_option (pruneOldRuns sv now p)
                      (if finalStatus = RunStatusSuccess then scanPassedDownstreams sv now p run (st\<lparr>ex_db := d\<rparr>)
                       else Some (st\<lparr>ex_db := d\<rparr>)))))"

definition finish_run :: "service \<Rightarrow> int \<Rightarrow> string option \<Rightarrow> executor \<Rightarrow> exec_state \<Rightarrow> exec_state option" where
  "finish_run sv now execErr x st =
     map_option (end_run x) (finalizeExecRun sv now (go_cancelled x) (go_run x) (go_pipeline x) execErr st)"

section \<open>What the final status says\<close>

definition row_failed :: "task_row \<Rightarrow> bool" where
  "row_failed t \<longleftrightarrow> t_status t = Some ''failure'' \<or> t_status t = Some ''error'' \<or> t_status t = Some ''abort''"

lemma status_of_selected [simp]:
  "obj_field (rs_payload (select_fields [''status'', ''errorMessage''] t)) ''status'' = t_status t"
  by (simp add: select_fields_def isKnownColumn_def knownSQLiteColumns_def column_json_def obj_str_def gm_get_def
      split: option.split)

lemma status_loop_selected:
  "fst (status_loop (map (select_fields [''status'', ''errorMessage'']) ts) h a) =
     (if \<exists>t\<in>set ts. row_failed t then RunStatusFailed
      else if (h \<or> (\<exists>t\<in>set ts. t_status t \<noteq> None)) \<and> a \<and> (\<forall>t\<in>set ts. t_status t = None \<or> t_status t = Some ''skipped'')
      then RunStatusSkipped else RunStatusSuccess)"
proof (induction ts arbitrary: h a)
  case (Cons t ts)
  show ?case
    by (cases "t_status t") (auto simp: Cons.IH row_failed_def failing_statuses_def)
qed simp

text \<open>The status of a finished run, by the task rows under its \<open>jobs\<close> prefix, those of nested steps included: failed
  exactly if one of them is a failure, an error or an abort; otherwise skipped exactly if there is a status and all are
  \<open>skipped\<close>; otherwise a success.\<close>

theorem run_status_of_rows:
  assumes "glob_literal (task_path (sv_namespace sv) (jobs_prefix i))"
  shows "let rows = filter (\<lambda>t. HasPrefix (t_path t) (task_path (sv_namespace sv) (jobs_prefix i))) (tasks d) in
    fst (determineRunStatus sv i d) =
      (if \<exists>t\<in>set rows. row_failed t then RunStatusFailed
       else if (\<exists>t\<in>set rows. t_status t \<noteq> None) \<and> (\<forall>t\<in>set rows. t_status t = None \<or> t_status t = Some ''skipped'')
       then RunStatusSkipped else RunStatusSuccess)"
proof -
  have "rows_under (sv_namespace sv) (jobs_prefix i) d
      = filter (\<lambda>t. HasPrefix (t_path t) (task_path (sv_namespace sv) (jobs_prefix i))) (tasks d)"
    by (simp add: rows_under_def glob_prefix [OF assms])
  then show ?thesis
    by (simp only: determineRunStatus_def GetAll_def status_loop_selected Let_def simp_thms)
qed

theorem run_status_of_rows_witness:
  "fst (determineRunStatus sample_service ''r1''
     (store_Set [] ''pipeline/r1/jobs/a'' (JObj [(''status'', JStr ''skipped'')]) empty_db)) = RunStatusSkipped"
proof -
  have path: "task_path [] (jobs_prefix ''r1'') = ''/pipeline/r1/jobs''" by code_simp
  have rows: "tasks (store_Set [] ''pipeline/r1/jobs/a'' (JObj [(''status'', JStr ''skipped'')]) empty_db)
      = [new_task 1 ''/pipeline/r1/jobs/a'' (JObj [(''status'', JStr ''skipped'')])]" by code_simp
  have st: "t_status (new_task 1 ''/pipeline/r1/jobs/a'' (JObj [(''status'', JStr ''skipped'')])) = Some ''skipped''"
    "t_path (new_task 1 ''/pipeline/r1/jobs/a'' (JObj [(''status'', JStr ''skipped'')])) = ''/pipeline/r1/jobs/a''"
    by code_simp+
  have "glob_literal (task_path (sv_namespace sample_service) (jobs_prefix ''r1''))"
    by (simp add: sample_service_def path glob_literal_def)
  from run_status_of_rows [OF this, of "store_Set [] ''pipeline/r1/jobs/a'' (JObj [(''status'', JStr ''skipped'')]) empty_db"]
  moreover obtain t where "tasks (store_Set [] ''pipeline/r1/jobs/a'' (JObj [(''status'', JStr ''skipped'')]) empty_db) = [t]"
    "t_status t = Some ''skipped''" "t_path t = ''/pipeline/r1/jobs/a''" using rows st by blast
  ultimately show ?thesis
    by (simp add: row_failed_def sample_service_def path HasPrefix_def Let_def)
qed

lemma Min_insert_min: "finite S \<Longrightarrow> Min (insert a (insert b S)) = Min (insert (min a b) S)" for a b :: int
  by (cases "S = {}") (simp_all add: min.assoc)

definition least_positive :: "int set \<Rightarrow> int" where
  "least_positive A = (let S = {n \<in> A. 0 < n} in if S = {} then 0 else Min S)"

lemma least_positive_drop: "n \<le> 0 \<Longrightarrow> least_positive (insert n A) = least_positive A"
proof -
  assume "n \<le> 0"
  then have "{m \<in> insert n A. 0 < m} = {m \<in> A. 0 < m}" by auto
  then show ?thesis by (simp only: least_positive_def)
qed

lemma least_positive_lower:
  assumes "finite A" and "0 \<le> k"
  shows "least_positive (insert (lower_limit a k) A) = least_positive (insert a (insert k A))"
proof -
  consider "a \<le> 0" | "a > 0" "k = 0" | "a > 0" "k > 0" using assms(2) by linarith
  then show ?thesis
  proof cases
    case 3
    then have pos: "{m \<in> insert a (insert k A). 0 < m} = insert a (insert k {m \<in> A. 0 < m})"
      "{m \<in> insert (min a k) A. 0 < m} = insert (min a k) {m \<in> A. 0 < m}" by auto
    have "lower_limit a k = min a k" using 3 by (simp add: lower_limit_def)
    moreover have "finite {m \<in> A. 0 < m}" using assms(1) by simp
    note Min_insert_min [OF this, of a k]
    ultimately show ?thesis
      by (simp only: least_positive_def pos Let_def insert_not_empty if_False)
  next
    case 2
    then show ?thesis by (simp add: lower_limit_def insert_commute [of a 0] least_positive_drop)
  qed (simp add: lower_limit_def least_positive_drop)
qed

lemma fold_lower_limit:
  "0 \<le> k \<Longrightarrow> fold (\<lambda>x. lower_limit (f x)) xs k = least_positive (insert k (f ` set xs))"
proof (induction xs arbitrary: k)
  case (Cons x xs)
  have "0 \<le> lower_limit (f x) k" using Cons.prems by (simp add: lower_limit_def)
  from Cons.IH [OF this] show ?case
    using least_positive_lower [of "f ` set xs" k "f x"] Cons.prems by (simp add: insert_commute)
next
  case Nil
  then have "{n \<in> {k}. 0 < n} = (if k = 0 then {} else {k})" by auto
  then show ?case by (simp add: least_positive_def Let_def)
qed

text \<open>The retention of a pipeline is the strictest of its jobs: the least positive limit, zero if no job sets one.\<close>

lemma minRetentionLimits_min:
  "minRetentionLimits js =
     (let lim = (\<lambda>get j. case job_retention j of None \<Rightarrow> 0 | Some r \<Rightarrow> get r)
      in (least_positive (lim blr_builds ` set js), least_positive (lim blr_days ` set js)))"
proof -
  let ?lim = "\<lambda>get j. case job_retention j of None \<Rightarrow> 0 | Some r \<Rightarrow> get r"
  have "fold (\<lambda>j (builds, days). case job_retention j of None \<Rightarrow> (builds, days)
      | Some r \<Rightarrow> (lower_limit (blr_builds r) builds, lower_limit (blr_days r) days)) js (a, b)
    = (fold (\<lambda>j. lower_limit (?lim blr_builds j)) js a, fold (\<lambda>j. lower_limit (?lim blr_days j)) js b)" for a b
    by (induction js arbitrary: a b) (auto simp: lower_limit_def split: option.split)
  then show ?thesis
    by (simp add: minRetentionLimits_def fold_lower_limit least_positive_drop Let_def)
qed

section \<open>Steps of the service\<close>

inductive exec_step :: "service \<Rightarrow> exec_state \<Rightarrow> exec_state \<Rightarrow> bool" for sv where
  manual: "exec_step sv st (snd (TriggerPipelineWithJobs sv now rq p args jobs st))"
| webhook: "exec_step sv st (snd (TriggerWebhookPipeline sv now rq p w ch st))"
| scheduled: "exec_step sv st (snd (TriggerScheduledPipeline sv now p name job st))"
| callback: "exec_step sv st (snd (TriggerCallback sv now name jobs args st))"
| resume: "exec_step sv st (snd (ResumePipeline sv now rq p run st))"
| stop: "exec_step sv st (snd (StopRun sv now i st))"
| queue: "exec_step sv st (processQueue_turn sv now st)"
| boot: "exec_step sv st (RecoverOrphanedRuns sv now st)"
| boot_passed: "recoverPassedTriggers sv now st = Some st' \<Longrightarrow> exec_step sv st st'"
| start: "x \<in> set (ex_live st) \<Longrightarrow> \<not> go_executing x \<Longrightarrow> exec_step sv st (begin_run now x st)"
| finished: "x \<in> set (ex_live st) \<Longrightarrow> go_executing x \<Longrightarrow> finish_run sv now err x st = Some st' \<Longrightarrow> exec_step sv st st'"
| pipelines_work: "exec_step sv st (st\<lparr>ex_db := d\<rparr>)"

text \<open>Every call is made of five kinds of change; a goroutine is created only while a slot is free. The goroutines themselves add
  two, their start and their end.\<close>

inductive call_change :: "service \<Rightarrow> exec_state \<Rightarrow> exec_state \<Rightarrow> bool" for sv where
  database: "call_change sv st (st\<lparr>ex_db := d\<rparr>)"
| parked: "call_change sv st (st\<lparr>ex_pending := m\<rparr>)"
| ids: "call_change sv st (st\<lparr>ex_ids := n\<rparr>)"
| cancelled: "call_change sv st (cancel g st)"
| dispatched: "CanExecute sv st \<Longrightarrow> call_change sv st (dispatchRun p run opts st)"

inductive change :: "service \<Rightarrow> exec_state \<Rightarrow> exec_state \<Rightarrow> bool" for sv where
  called: "call_change sv st st' \<Longrightarrow> change sv st st'"
| begun: "x \<in> set (ex_live st) \<Longrightarrow>
    change sv st (st\<lparr>ex_stop := gm_set (r_id (go_run x)) (go_id x) (ex_stop st),
                     ex_live := map (\<lambda>y. if go_id y = go_id x then y\<lparr>go_executing := True\<rparr> else y) (ex_live st)\<rparr>)"
| ended: "x \<in> set (ex_live st) \<Longrightarrow> change sv st (end_run x st)"

abbreviation calls :: "service \<Rightarrow> exec_state \<Rightarrow> exec_state \<Rightarrow> bool" where
  "calls sv \<equiv> (call_change sv)\<^sup>*\<^sup>*"

text \<open>Every goroutine holds one slot, and every run in the registry has its goroutine past the start; ids of goroutines are
  never reused.\<close>

definition slots_ok :: "service \<Rightarrow> exec_state \<Rightarrow> bool" where
  "slots_ok sv st \<longleftrightarrow>
     ex_in_flight st = int (length (ex_live st)) \<and> ex_in_flight st \<le> sv_max_in_flight sv
     \<and> distinct (map go_id (ex_live st)) \<and> (\<forall>x\<in>set (ex_live st). go_id x < ex_next st)
     \<and> (\<forall>i g. gm_get (ex_stop st) i = Some g \<longrightarrow>
          (\<exists>x\<in>set (ex_live st). go_id x = g \<and> r_id (go_run x) = i \<and> go_executing x))"

lemma length_without_key:
  assumes "distinct (map f xs)" and "x \<in> set xs"
  shows "Suc (length (filter (\<lambda>y. f y \<noteq> f x) xs)) = length xs"
  using assms
proof (induction xs)
  case (Cons a xs)
  show ?case
  proof (cases "a = x")
    case True
    with Cons.prems have "f x \<notin> f ` set xs" by simp
    then have "\<forall>y\<in>set xs. f y \<noteq> f x" by (metis imageI)
    then have "filter (\<lambda>y. f y \<noteq> f x) xs = xs" by (rule filter_True)
    with True show ?thesis by simp
  next
    case False
    with Cons.prems have "x \<in> set xs" "f a \<noteq> f x" by auto
    with Cons.IH Cons.prems show ?thesis by simp
  qed
qed simp

lemma slots_registered:
  "slots_ok sv st \<Longrightarrow> gm_get (ex_stop st) i = Some g \<Longrightarrow>
     \<exists>x\<in>set (ex_live st). go_id x = g \<and> r_id (go_run x) = i \<and> go_executing x"
  by (simp add: slots_ok_def)

lemma slots_ok_map:
  assumes "slots_ok sv st" and "\<And>x. go_id (h x) = go_id x" and "\<And>x. go_run (h x) = go_run x"
    and "\<And>x. go_executing x \<Longrightarrow> go_executing (h x)"
  shows "slots_ok sv (st\<lparr>ex_live := map h (ex_live st)\<rparr>)"
proof -
  have "map go_id (map h (ex_live st)) = map go_id (ex_live st)" using assms(2) by simp
  moreover have "\<exists>y\<in>set (map h (ex_live st)). go_id y = g \<and> r_id (go_run y) = i \<and> go_executing y"
    if "gm_get (ex_stop st) i = Some g" for i g
  proof -
    from slots_registered [OF assms(1) that] obtain x
      where "x \<in> set (ex_live st)" "go_id x = g" "r_id (go_run x) = i" "go_executing x" by blast
    with assms(2-4) show ?thesis by (intro bexI [of _ "h x"]) auto
  qed
  ultimately show ?thesis
    using assms(1,2) unfolding slots_ok_def by (auto simp del: map_map)
qed

lemma call_slots:
  assumes "call_change sv st st'" and "slots_ok sv st"
  shows "slots_ok sv st'"
  using assms
proof (cases rule: call_change.cases)
  case (cancelled g)
  with assms(2) show ?thesis by (auto simp: cancel_def intro: slots_ok_map)
next
  case (dispatched p run opts)
  with assms(2) show ?thesis by (fastforce simp: slots_ok_def dispatchRun_def CanExecute_def)
qed (auto simp: slots_ok_def)

lemma change_slots:
  assumes "change sv st st'" and "slots_ok sv st"
  shows "slots_ok sv st'"
  using assms
proof (cases rule: change.cases)
  case called
  then show ?thesis using assms(2) by (rule call_slots)
next
  case (begun x)
  let ?h = "\<lambda>y. if go_id y = go_id x then y\<lparr>go_executing := True\<rparr> else y"
  have "slots_ok sv (st\<lparr>ex_live := map ?h (ex_live st)\<rparr>)" using assms(2) by (rule slots_ok_map) auto
  moreover have "\<exists>y\<in>set (map ?h (ex_live st)). go_id y = go_id x \<and> r_id (go_run y) = r_id (go_run x) \<and> go_executing y"
    using begun(2) by (intro bexI [of _ "?h x"]) auto
  ultimately show ?thesis using begun(1) by (auto simp: slots_ok_def)
next
  case (ended x)
  have "ex_in_flight st - 1 = int (length (filter (\<lambda>y. go_id y \<noteq> go_id x) (ex_live st)))"
    using assms(2) length_without_key [of go_id "ex_live st" x] ended by (simp add: slots_ok_def)
  moreover have "\<exists>y\<in>set (ex_live st'). go_id y = g \<and> r_id (go_run y) = i \<and> go_executing y"
    if "gm_get (ex_stop st') i = Some g" for i g
  proof -
    from that ended(1) have "i \<noteq> r_id (go_run x)" "gm_get (ex_stop st) i = Some g"
      by (auto simp: end_run_def split: if_splits)
    with slots_registered [OF assms(2)] obtain y
      where y: "y \<in> set (ex_live st)" "go_id y = g" "r_id (go_run y) = i" "go_executing y" by blast
    have "go_id y \<noteq> go_id x"
      using assms(2) y ended \<open>i \<noteq> r_id (go_run x)\<close> by (auto simp: slots_ok_def distinct_map dest: inj_onD)
    with y show ?thesis using ended(1) by (intro bexI [of _ y]) (simp_all add: end_run_def)
  qed
  moreover have "ex_in_flight st' = ex_in_flight st - 1" "ex_live st' = filter (\<lambda>y. go_id y \<noteq> go_id x) (ex_live st)"
    "ex_next st' = ex_next st" using ended(1) by (simp_all add: end_run_def)
  ultimately show ?thesis
    using assms(2) unfolding slots_ok_def by (auto simp: distinct_map_filter)
qed

lemma changes_slots: "(change sv)\<^sup>*\<^sup>* st st' \<Longrightarrow> slots_ok sv st \<Longrightarrow> slots_ok sv st'"
  by (induction rule: rtranclp_induct) (auto intro: change_slots)

lemma calls_changes: "calls sv st st' \<Longrightarrow> (change sv)\<^sup>*\<^sup>* st st'"
  by (rule mono_rtranclp [rule_format, of "call_change sv"]) (auto intro: called)

text \<open>A call never removes a goroutine.\<close>

lemma calls_keep:
  "calls sv st st' \<Longrightarrow> x \<in> set (ex_live st) \<Longrightarrow> \<exists>y\<in>set (ex_live st'). go_id y = go_id x \<and> go_run y = go_run x"
proof (induction arbitrary: x rule: rtranclp_induct)
  case (step st1 st2)
  then obtain y where y: "y \<in> set (ex_live st1)" "go_id y = go_id x" "go_run y = go_run x" by blast
  have "\<exists>z\<in>set (ex_live st2). go_id z = go_id y \<and> go_run z = go_run y"
    using step.hyps(2) y(1)
  proof (cases rule: call_change.cases)
    case (cancelled g)
    with y(1) show ?thesis by (intro bexI [of _ "if go_id y = g then y\<lparr>go_cancelled := True\<rparr> else y"]) (auto simp: cancel_def)
  qed (auto simp: dispatchRun_def)
  with y show ?case by simp
qed blast

subsection \<open>Every operation is made of calls\<close>

lemma update_run_calls: "calls sv st (update_run now i s msg st)"
  unfolding update_run_def by (rule r_into_rtranclp, rule database)

lemma abort_tasks_calls: "calls sv st (abort_tasks sv i st)"
  unfolding abort_tasks_def by (rule r_into_rtranclp, rule database)

lemma cancel_calls: "calls sv st (cancel g st)"
  by (rule r_into_rtranclp, rule cancelled)

lemma StopRun_calls: "calls sv st (snd (StopRun sv now i st))"
proof (cases "gm_get (ex_stop st) i")
  case (Some g)
  have "calls sv st (update_run now i RunStatusFailed ''Run stopped by user'' (abort_tasks sv i (cancel g st)))"
    by (rule rtranclp_trans [OF rtranclp_trans [OF cancel_calls abort_tasks_calls] update_run_calls])
  with Some show ?thesis by (simp add: StopRun_def)
qed (simp add: StopRun_def)

lemma supersede_calls: "calls sv st (supersede sv now newer peer st)"
  by (cases "r_status peer")
    (auto simp: supersede_def intro: update_run_calls rtranclp_trans [OF StopRun_calls update_run_calls])

lemma fold_calls: "(\<And>x st. calls sv st (f x st)) \<Longrightarrow> calls sv st (fold f xs st)"
  by (induction xs arbitrary: st) (auto intro: rtranclp_trans)

lemma supersedePeers_calls: "calls sv st (supersedePeers sv now peers newer st)"
  unfolding supersedePeers_def by (rule fold_calls, rule supersede_calls)

lemma save_run_calls: "calls sv st (snd (save_run sv now pid tt user inp grp status msg st))"
proof -
  have "calls sv st ((st\<lparr>ex_db := d\<rparr>)\<lparr>ex_ids := n\<rparr>)" for d n
    by (rule rtranclp_trans [OF r_into_rtranclp [of "call_change sv", OF database] r_into_rtranclp [of "call_change sv", OF ids]])
  then show ?thesis by (simp add: save_run_def split: prod.split)
qed

lemma save_terminal_snd [simp]: "snd (save_terminal what rs) = snd rs"
  by (simp add: save_terminal_def split: prod.split sum.split)

lemma admitRun_calls: "calls sv st (snd (admitRun sv now p tt user inp st))"
proof (cases "resolveConcurrency sv p inp (ex_db st)")
  case (Inl e)
  then show ?thesis by (simp add: admitRun_def save_run_calls)
next
  case (Inr dec)
  show ?thesis
  proof (cases "cd_action dec = concurrencySkip")
    case False
    obtain r st1 where r: "save_run sv now (p_id p) tt user inp (cd_group dec) RunStatusQueued [] st = (r, st1)" by fastforce
    then have one: "calls sv st st1"
      using save_run_calls [of sv st now "p_id p" tt user inp "cd_group dec" RunStatusQueued "[]"] by simp
    then have "calls sv st (supersedePeers sv now (cd_peers dec) newer st1)" for newer
      by (rule rtranclp_trans [OF _ supersedePeers_calls])
    with one Inr False r show ?thesis by (cases r) (auto simp: admitRun_def)
  qed (use Inr in \<open>simp add: admitRun_def save_run_calls\<close>)
qed

lemma dispatchRun_calls: "CanExecute sv st \<Longrightarrow> calls sv st (dispatchRun p run opts st)"
  by (rule r_into_rtranclp, rule dispatched)

lemma dispatchOrQueue_calls: "calls sv st (snd (dispatchOrQueue sv p run opts queueOnly st))"
  by (simp add: dispatchOrQueue_def dispatchRun_calls)

lemma trigger_with_calls: "calls sv st (snd (trigger_with sv now p tt user inp opts st))"
proof -
  obtain r st1 where r: "admitRun sv now p tt user inp st = (r, st1)" by fastforce
  then have one: "calls sv st st1" using admitRun_calls [of sv st now p tt user inp] by simp
  then have "calls sv st (snd (dispatchOrQueue sv p run opts q st1))" for run q
    by (rule rtranclp_trans [OF _ dispatchOrQueue_calls])
  with one r show ?thesis by (cases r) (auto simp: trigger_with_def)
qed

lemma park_calls: "calls sv st (park i ch st)" and unpark_calls: "calls sv st (unpark i ch st)"
  by (auto simp: park_def unpark_def split: option.split intro: r_into_rtranclp parked)

lemma TriggerWebhookPipeline_calls: "calls sv st (snd (TriggerWebhookPipeline sv now rq p w ch st))"
proof -
  let ?inp = "\<lparr>ti_args = [], ti_webhook = w, ti_jobs = [], ti_upstream_run_ids = []\<rparr>"
  let ?opts = "(request_options rq)\<lparr>eo_webhook := Some \<lparr>we_data = w, we_channel = ch\<rparr>\<rparr>"
  obtain r st1 where r: "admitRun sv now p TriggerTypeWebhook (formatWebhookTriggeredBy w) ?inp st = (r, st1)" by fastforce
  then have one: "calls sv st st1" using admitRun_calls [of sv st now p TriggerTypeWebhook "formatWebhookTriggeredBy w" ?inp] by simp
  have two: "calls sv st (snd (dispatchOrQueue sv p run ?opts q (park i ch st1)))" for run q i
    by (rule rtranclp_trans [OF rtranclp_trans [OF one park_calls] dispatchOrQueue_calls])
  then have "calls sv st (unpark i ch (snd (dispatchOrQueue sv p run ?opts q (park i ch st1))))" for run q i
    by (rule rtranclp_trans [OF _ unpark_calls])
  with one two r show ?thesis by (cases r) (auto simp: TriggerWebhookPipeline_def case_prod_beta)
qed

lemma TriggerCallback_calls: "calls sv st (snd (TriggerCallback sv now name jobs args st))"
proof (cases "GetPipelineByName name (ex_db st)")
  case (Inr p)
  let ?t = "trigger_with sv now p TriggerTypeManual ''triggerPipeline''
      \<lparr>ti_args = args, ti_webhook = None, ti_jobs = jobs, ti_upstream_run_ids = []\<rparr> (no_options\<lparr>eo_args := args, eo_jobs := jobs\<rparr>) st"
  have "calls sv st (snd ?t)" by (rule trigger_with_calls)
  with Inr show ?thesis by (cases ?t; cases "fst ?t") (auto simp: TriggerCallback_def)
qed (simp add: TriggerCallback_def)

lemma ResumePipeline_calls: "calls sv st (snd (ResumePipeline sv now rq p run st))"
proof -
  have "CanExecute sv (update_run now (r_id run) RunStatusQueued [] st)" if "CanExecute sv st"
    using that by (simp add: CanExecute_def)
  then show ?thesis
    by (cases rule: ResumePipeline_cases [of sv now rq p run st])
      (auto intro: update_run_calls rtranclp_trans [OF update_run_calls dispatchRun_calls])
qed

lemma recover_run_calls: "calls sv st (recover_run sv now run st)"
proof -
  have resume: "calls sv st st1" "calls sv st (update_run now (r_id run) s m st1)"
    if "ResumePipeline sv now no_request p run st = (r, st1)" for p r st1 s m
  proof -
    from that show one: "calls sv st st1" using ResumePipeline_calls [of sv st now no_request p run] by simp
    show "calls sv st (update_run now (r_id run) s m st1)" by (rule rtranclp_trans [OF one update_run_calls])
  qed
  have "calls sv st (abort_tasks sv (r_id run) (update_run now (r_id run) s m st))" for s m
    by (rule rtranclp_trans [OF update_run_calls abort_tasks_calls])
  with resume show ?thesis
    by (auto simp: recover_run_def split: sum.split prod.split option.split intro: update_run_calls)
qed

lemma dispatchQueuedRun_calls:
  assumes "CanExecute sv st"
  shows "calls sv st (dispatchQueuedRun now run st)"
proof -
  have "CanExecute sv (st\<lparr>ex_pending := m\<rparr>)" for m using assms by (simp add: CanExecute_def)
  then have "calls sv st (dispatchRun p run opts (st\<lparr>ex_pending := m\<rparr>))" for p opts m
    by (rule rtranclp_trans [OF r_into_rtranclp [of "call_change sv", OF parked] dispatchRun_calls])
  then show ?thesis
    by (auto simp: dispatchQueuedRun_def buildQueuedExecOptions_def Let_def split: sum.split intro: update_run_calls)
qed

lemma dispatchEligible_calls: "calls sv st (snd (dispatchEligible sv now rs busy st))"
proof (induction rs arbitrary: busy st)
  case (Cons r rs)
  have "calls sv st (snd (dispatchEligible sv now rs b (dispatchQueuedRun now r st)))" if "CanExecute sv st" for b
    by (rule rtranclp_trans [OF dispatchQueuedRun_calls [OF that] Cons.IH])
  with Cons.IH show ?case by (auto simp: Let_def case_prod_beta)
qed simp

lemma processQueue_turn_calls: "calls sv st (processQueue_turn sv now st)"
  using dispatchEligible_calls by (simp add: processQueue_turn_def processQueueTick_def Let_def case_prod_beta)

lemma evaluate_calls: "evaluatePassedDownstream sv now p j completed st = Some st' \<Longrightarrow> calls sv st st'"
  using trigger_with_calls
  by (auto simp: evaluatePassedDownstream_def firePassedDownstream_def Let_def split: if_splits option.splits)

lemma evaluate_all_calls: "evaluate_all sv now p completed js st = Some st' \<Longrightarrow> calls sv st st'"
proof (induction js arbitrary: st)
  case (Cons j js)
  then obtain st1 where "evaluatePassedDownstream sv now p j completed st = Some st1"
    "evaluate_all sv now p completed js st1 = Some st'" by (auto split: option.splits)
  with Cons.IH show ?case by (blast intro: rtranclp_trans evaluate_calls)
qed simp

lemma recover_pipelines_calls: "recover_pipelines sv now ps st = Some st' \<Longrightarrow> calls sv st st'"
proof (induction ps arbitrary: st)
  case (Cons p ps)
  then obtain st1 where "recover_pipeline sv now p st = Some st1" "recover_pipelines sv now ps st1 = Some st'"
    by (auto split: option.splits)
  moreover from this(1) have "calls sv st st1"
    by (auto simp: recover_pipeline_def split: if_splits option.splits intro: evaluate_all_calls)
  ultimately show ?case using Cons.IH by (blast intro: rtranclp_trans)
qed simp

lemma finalize_calls:
  assumes "finalizeExecRun sv now cancelled run p execErr st = Some st'"
  shows "calls sv st st'"
proof -
  have db: "calls sv st (st\<lparr>ex_db := d\<rparr>)" for st d by (rule r_into_rtranclp, rule database)
  then have prune: "calls sv st (pruneOldRuns sv now p st)" for st
    by (simp add: pruneOldRuns_def split: option.split prod.split)
  have scan: "calls sv st (pruneOldRuns sv now p st1)"
    if "scanPassedDownstreams sv now p run (st\<lparr>ex_db := d\<rparr>) = Some st1" for d st1
  proof -
    from that have "calls sv (st\<lparr>ex_db := d\<rparr>) st1"
      by (auto simp: scanPassedDownstreams_def Let_def split: if_splits option.splits intro: evaluate_all_calls)
    then show ?thesis by (rule rtranclp_trans [OF rtranclp_trans [OF db] prune])
  qed
  have "calls sv st (pruneOldRuns sv now p (st\<lparr>ex_db := d\<rparr>))" for d by (rule rtranclp_trans [OF db prune])
  moreover have "calls sv st (update_run now i s m (abort_tasks sv i st))" for i s m
    by (rule rtranclp_trans [OF abort_tasks_calls update_run_calls])
  ultimately show ?thesis
    using assms db scan
    by (auto simp: finalizeExecRun_def split: if_splits option.splits prod.splits intro: update_run_calls)
qed

lemma end_run_same: "go_id y = go_id x \<Longrightarrow> go_run y = go_run x \<Longrightarrow> end_run y = end_run x"
  by (simp add: end_run_def fun_eq_iff)

lemma exec_step_changes:
  assumes "exec_step sv st st'"
  shows "(change sv)\<^sup>*\<^sup>* st st'"
  using assms
proof (cases rule: exec_step.cases)
  case (start x now)
  let ?st1 = "st\<lparr>ex_stop := gm_set (r_id (go_run x)) (go_id x) (ex_stop st),
      ex_live := map (\<lambda>y. if go_id y = go_id x then y\<lparr>go_executing := True\<rparr> else y) (ex_live st)\<rparr>"
  have one: "(change sv)\<^sup>*\<^sup>* st ?st1" using start(2) by (intro r_into_rtranclp begun)
  have db: "(change sv)\<^sup>*\<^sup>* st (?st1\<lparr>ex_db := d\<rparr>)" for d
    by (rule rtranclp_trans [OF one calls_changes [OF r_into_rtranclp [of "call_change sv", OF database]]])
  let ?x = "x\<lparr>go_executing := True\<rparr>"
  have "change sv (?st1\<lparr>ex_db := d\<rparr>) (end_run ?x (?st1\<lparr>ex_db := d\<rparr>))" for d
    using start(2) by (intro ended) (auto intro: rev_image_eqI)
  then have "change sv (?st1\<lparr>ex_db := d\<rparr>) (end_run x (?st1\<lparr>ex_db := d\<rparr>))" for d
    by (simp add: end_run_same [of ?x x])
  from rtranclp.rtrancl_into_rtrancl [OF db this]
  have "(change sv)\<^sup>*\<^sup>* st (end_run x (?st1\<lparr>ex_db := d\<rparr>))" for d .
  with db start(1) show ?thesis by (auto simp: begin_run_def Let_def split: prod.split option.split)
next
  case (finished x now err)
  then obtain st1 where st1: "finalizeExecRun sv now (go_cancelled x) (go_run x) (go_pipeline x) err st = Some st1"
    "st' = end_run x st1" by (auto simp: finish_run_def)
  then have c: "calls sv st st1" by (simp add: finalize_calls)
  then obtain y where y: "y \<in> set (ex_live st1)" "go_id y = go_id x" "go_run y = go_run x"
    using calls_keep finished(1) by blast
  then have "change sv st1 (end_run x st1)" using ended [of y st1 sv] end_run_same [of y x] by simp
  with calls_changes [OF c] st1(2) show ?thesis by simp
next
  case (boot_passed now)
  then show ?thesis by (auto simp: recoverPassedTriggers_def intro: calls_changes recover_pipelines_calls)
next
  case (boot now)
  have "calls sv st (RecoverOrphanedRuns sv now st)"
    unfolding RecoverOrphanedRuns_def by (rule fold_calls, rule recover_run_calls)
  with boot show ?thesis by (simp add: calls_changes)
next
  case (pipelines_work d)
  then show ?thesis by (auto intro: r_into_rtranclp called database)
qed (auto simp: TriggerPipelineWithJobs_def TriggerScheduledPipeline_def Let_def intro!: calls_changes trigger_with_calls
    TriggerWebhookPipeline_calls TriggerCallback_calls ResumePipeline_calls StopRun_calls processQueue_turn_calls)



section \<open>Jobs triggered by completed runs\<close>

lemma first_row_Some: "first_row xs = Some x \<Longrightarrow> x \<in> set xs"
  by (auto simp: first_row_def split: list.splits)

lemma first_row_None [simp]: "first_row xs = None \<longleftrightarrow> xs = []"
  by (simp add: first_row_def split: list.split)

lemma order_desc_Nil [simp]: "order_desc key xs = [] \<longleftrightarrow> xs = []"
  by (metis order_set(2) set_empty)

definition fresh_run :: "pipeline \<Rightarrow> string \<Rightarrow> int \<Rightarrow> pipeline_run \<Rightarrow> bool" where
  "fresh_run p u since r \<longleftrightarrow>
     r_pipeline_id r = p_id p \<and> r_status r = RunStatusSuccess \<and> since < r_created_at r \<and> targets u r"

text \<open>A run that was not started for named jobs, as by a webhook, satisfies no \<open>triggers.passed\<close>.\<close>

lemma untargeted_run_never_fresh: "ti_jobs (r_trigger_input r) = [] \<Longrightarrow> \<not> fresh_run p u since r"
  by (simp add: fresh_run_def targets_def)

lemma GetSuccessful_Some:
  "GetSuccessfulJobRunSince (p_id p) u since d = Some r \<Longrightarrow> r \<in> set (runs d) \<and> fresh_run p u since r"
  by (auto simp: GetSuccessfulJobRunSince_def fresh_run_def split: if_splits dest!: first_row_Some)

lemma GetSuccessful_None:
  "u \<noteq> [] \<Longrightarrow> GetSuccessfulJobRunSince (p_id p) u since d = None \<longleftrightarrow> (\<forall>r\<in>set (runs d). \<not> fresh_run p u since r)"
  by (auto simp: GetSuccessfulJobRunSince_def fresh_run_def filter_empty_conv)

lemma fresh_upstreams_Some:
  "fresh_upstreams (p_id p) since us d = Some ids \<Longrightarrow>
     list_all2 (\<lambda>u i. \<exists>r\<in>set (runs d). r_id r = i \<and> fresh_run p u since r) us ids"
proof (induction us arbitrary: ids)
  case (Cons u us)
  then show ?case by (auto split: option.splits dest!: GetSuccessful_Some)
qed simp

lemma fresh_upstreams_None:
  "[] \<notin> set us \<Longrightarrow> fresh_upstreams (p_id p) since us d = None \<longleftrightarrow>
     (\<exists>u\<in>set us. \<forall>r\<in>set (runs d). \<not> fresh_run p u since r)"
proof (induction us)
  case (Cons u us)
  then show ?case
    using GetSuccessful_None [of u p since d] by (auto split: option.split dest: GetSuccessful_Some)
qed simp

definition downstream_run :: "pipeline \<Rightarrow> job \<Rightarrow> pipeline_run \<Rightarrow> bool" where
  "downstream_run p j r \<longleftrightarrow> r_pipeline_id r = p_id p \<and> targets (job_name j) r"

lemma since_time_upper:
  assumes "job_name j \<noteq> []" and "r \<in> set (runs d)" and "downstream_run p j r"
  shows "r_created_at r \<le> since_time (p_id p) (job_name j) d"
proof -
  let ?rows = "filter (\<lambda>r. r_pipeline_id r = p_id p \<and> targets (job_name j) r) (runs d)"
  have mem: "r \<in> set ?rows" using assms(2,3) by (simp add: downstream_run_def)
  then obtain y ys where y: "order_desc r_created_at ?rows = y # ys"
    by (metis list.exhaust order_set(2) empty_iff list.set(1))
  then have "r_created_at r \<le> r_created_at y" using mem by (rule order_desc_head)
  with y assms(1) show ?thesis by (simp add: since_time_def GetMostRecentJobRun_def first_row_def)
qed

lemma since_time_cases:
  "since_time (p_id p) (job_name j) d = zero_time \<and> (\<forall>r\<in>set (runs d). \<not> downstream_run p j r)
   \<or> (\<exists>r\<in>set (runs d). downstream_run p j r \<and> since_time (p_id p) (job_name j) d = r_created_at r)"
  if "job_name j \<noteq> []"
  using that
  by (auto simp: since_time_def GetMostRecentJobRun_def downstream_run_def filter_empty_conv split: option.split
      dest!: first_row_Some)

text \<open>A downstream job is ready when no active run of the pipeline targets it and every upstream has a successful run that
  targets it and was created after all runs of the downstream job.\<close>

definition passed_ready :: "pipeline \<Rightarrow> job \<Rightarrow> db \<Rightarrow> bool" where
  "passed_ready p j d \<longleftrightarrow>
     (\<forall>r\<in>set (runs d). \<not> (active r \<and> downstream_run p j r))
     \<and> (\<forall>u\<in>set (passed_of j). \<exists>r\<in>set (runs d). fresh_run p u zero_time r
          \<and> (\<forall>r'\<in>set (runs d). downstream_run p j r' \<longrightarrow> r_created_at r' < r_created_at r))"

lemma fresh_since:
  assumes "job_name j \<noteq> []" and "\<And>r. r \<in> set (runs d) \<Longrightarrow> downstream_run p j r \<Longrightarrow> zero_time \<le> r_created_at r"
    and "r \<in> set (runs d)"
  shows "fresh_run p u (since_time (p_id p) (job_name j) d) r \<longleftrightarrow>
    fresh_run p u zero_time r \<and> (\<forall>r'\<in>set (runs d). downstream_run p j r' \<longrightarrow> r_created_at r' < r_created_at r)"
  using since_time_cases [OF assms(1), of p d] since_time_upper [OF assms(1), of _ d p] assms(2)
  by (fastforce simp: fresh_run_def)

lemma coalesced_iff:
  "(\<exists>r\<in>set (GetActiveRunsByPipeline (p_id p) d). job_name j \<in> set (ti_jobs (r_trigger_input r)))
   \<longleftrightarrow> (\<exists>r\<in>set (runs d). active r \<and> downstream_run p j r)"
  by (auto simp: set_GetActiveRunsByPipeline downstream_run_def targets_def)

text \<open>C8. A completed run triggers a downstream job exactly when the job is ready and the service can accept a run; then the new run
  targets that job alone, is of type \<open>passed\<close>, and names for every upstream a successful run that targeted it. Otherwise nothing
  changes.\<close>

theorem passed_trigger_fires:
  assumes "job_name j \<noteq> []" and "[] \<notin> set (passed_of j)" and "\<And>r. r \<in> set (runs (ex_db st)) \<Longrightarrow> zero_time \<le> r_created_at r"
  shows "if passed_ready p j (ex_db st) \<and> CanAccept sv st
    then \<exists>ids. list_all2 (\<lambda>u i. \<exists>r\<in>set (runs (ex_db st)). r_id r = i \<and> fresh_run p u zero_time r) (passed_of j) ids
      \<and> evaluatePassedDownstream sv now p j (Some run) st =
          Some (snd (trigger_with sv now p TriggerTypePassed (''passed:'' @ r_id run)
            \<lparr>ti_args = [], ti_webhook = None, ti_jobs = [job_name j], ti_upstream_run_ids = ids\<rparr>
            (no_options\<lparr>eo_jobs := [job_name j]\<rparr>) st))
    else evaluatePassedDownstream sv now p j (Some run) st = Some st"
proof -
  let ?d = "ex_db st" and ?since = "since_time (p_id p) (job_name j) (ex_db st)"
  note fresh = fresh_since [OF assms(1), of ?d p, OF assms(3)]
  have ready: "passed_ready p j ?d \<longleftrightarrow>
      \<not> (\<exists>r\<in>set (GetActiveRunsByPipeline (p_id p) ?d). job_name j \<in> set (ti_jobs (r_trigger_input r)))
      \<and> fresh_upstreams (p_id p) ?since (passed_of j) ?d \<noteq> None"
    unfolding coalesced_iff fresh_upstreams_None [OF assms(2)] passed_ready_def using fresh by blast
  have ids: "list_all2 (\<lambda>u i. \<exists>r\<in>set (runs ?d). r_id r = i \<and> fresh_run p u zero_time r) (passed_of j) ids"
    if "fresh_upstreams (p_id p) ?since (passed_of j) ?d = Some ids" for ids
    using fresh_upstreams_Some [OF that] by (rule list_all2_mono) (use fresh in blast)
  show ?thesis
  proof (cases "passed_ready p j ?d \<and> CanAccept sv st")
    case True
    then obtain l where l: "fresh_upstreams (p_id p) ?since (passed_of j) ?d = Some l" using ready by blast
    with True ready ids [OF l] show ?thesis
      by (intro iffD2 [OF if_P] exI [of _ l]) (auto simp: evaluatePassedDownstream_def firePassedDownstream_def Let_def)
  next
    case False
    then have "evaluatePassedDownstream sv now p j (Some run) st = Some st"
      using ready by (auto simp: evaluatePassedDownstream_def firePassedDownstream_def Let_def split: option.split)
    with False show ?thesis by (simp only: if_False)
  qed
qed

lemma resolveConcurrency_peers:
  assumes "resolveConcurrency sv p inp d = Inr dec"
  shows "set (cd_peers dec) \<subseteq> {r \<in> set (runs d). active r}"
proof -
  have "cd_peers dec = [] \<or> cd_peers dec = GetActiveRunsByGroup (cd_group dec) d \<or> cd_peers dec = GetActiveRunsByPipeline (p_id p) d"
    using assms by (auto simp: resolveConcurrency_def decide_def Let_def split: if_splits sum.splits list.splits)
  then show ?thesis by (auto simp: GetActiveRunsByGroup_def set_GetActiveRunsByPipeline split: if_splits)
qed

lemma admitRun_new:
  assumes "admitRun sv now p tt user inp st = (res, st1)"
  shows "(\<exists>e. res = Inl e) \<and> runs (ex_db st1) = runs (ex_db st)
    \<or> (\<exists>ad. res = Inr ad \<and> ad_run ad \<in> set (runs (ex_db st1)) \<and> r_pipeline_id (ad_run ad) = p_id p
         \<and> r_trigger_input (ad_run ad) = inp \<and> r_created_at (ad_run ad) = now
         \<and> (if ad_terminal ad then runs (ex_db st1) = runs (ex_db st) @ [ad_run ad] else active (ad_run ad)))"
proof -
  have new: "r_pipeline_id r = p_id p \<and> r_trigger_input r = inp \<and> r_created_at r = now \<and> r_status r = s"
    if "r = new_run i now (p_id p) tt user inp grp s msg" for r i grp s msg
    using that by (simp add: new_run_def)
  show ?thesis
  proof (cases "resolveConcurrency sv p inp (ex_db st)")
    case (Inl e)
    show ?thesis
    proof (cases rule: save_run_cases [of sv now "p_id p" tt user inp "[]" RunStatusFailed e st])
      case (failed err)
      with assms Inl show ?thesis by (auto simp: admitRun_def save_terminal_def)
    next
      case (saved run)
      have "res = Inr \<lparr>ad_run = run, ad_terminal = True, ad_queue_only = False\<rparr>"
        "runs (ex_db st1) = runs (ex_db st) @ [run]"
        using assms Inl saved(1) by (auto simp: admitRun_def save_terminal_def)
      with new [OF saved(2)] show ?thesis by simp
    qed
  next
    case (Inr dec)
    show ?thesis
    proof (cases "cd_action dec = concurrencySkip")
      case True
      show ?thesis
      proof (cases rule: save_run_cases [of sv now "p_id p" tt user inp "cd_group dec" RunStatusSkipped "cd_reason dec" st])
        case (failed err)
        with assms Inr True show ?thesis by (auto simp: admitRun_def save_terminal_def)
      next
        case (saved run)
        have "res = Inr \<lparr>ad_run = run, ad_terminal = True, ad_queue_only = False\<rparr>"
          "runs (ex_db st1) = runs (ex_db st) @ [run]"
          using assms Inr True saved(1) by (auto simp: admitRun_def save_terminal_def)
        with new [OF saved(2)] show ?thesis by simp
      qed
    next
      case False
      show ?thesis
      proof (cases rule: save_run_cases [of sv now "p_id p" tt user inp "cd_group dec" RunStatusQueued "[]" st])
        case (failed e)
        with assms Inr False show ?thesis by (auto simp: admitRun_def)
      next
        case (saved run)
        let ?st1 = "st\<lparr>ex_db := (ex_db st)\<lparr>runs := runs (ex_db st) @ [run]\<rparr>, ex_ids := Suc (ex_ids st)\<rparr>"
        note peers = resolveConcurrency_peers [OF Inr]
        have "run \<in> set (runs (ex_db (supersedePeers sv now (cd_peers dec) (r_id run) ?st1)))"
        proof -
          have "r_id run \<notin> r_id ` set (cd_peers dec)" using peers saved(3) by blast
          moreover have "run \<in> set (runs (ex_db ?st1))" by simp
          moreover have "active x" if "x \<in> set (cd_peers dec)" for x using peers that by blast
          note supersedePeers_active [OF this, of "cd_peers dec" "[]" sv now "r_id run" ?st1]
          ultimately show ?thesis by blast
        qed
        moreover have "run \<in> set (runs (ex_db ?st1))" by simp
        moreover have "res = Inr \<lparr>ad_run = run, ad_terminal = False, ad_queue_only = (cd_action dec = concurrencyQueueBehind)\<rparr>"
          "st1 = (if cd_action dec = concurrencyCancelPeers then supersedePeers sv now (cd_peers dec) (r_id run) ?st1 else ?st1)"
          using assms Inr False saved(1) by (simp_all add: admitRun_def)
        ultimately show ?thesis using new [OF saved(2)] by (simp add: active_def)
      qed
    qed
  qed
qed

lemma trigger_with_new:
  assumes "runs (ex_db (snd (trigger_with sv now p tt user inp opts st))) \<noteq> runs (ex_db st)"
  shows "\<exists>run. run \<in> set (runs (ex_db (snd (trigger_with sv now p tt user inp opts st))))
    \<and> r_pipeline_id run = p_id p \<and> r_trigger_input run = inp \<and> r_created_at run = now
    \<and> (active run \<or> runs (ex_db (snd (trigger_with sv now p tt user inp opts st))) = runs (ex_db st) @ [run])"
proof -
  obtain res st1 where adm: "admitRun sv now p tt user inp st = (res, st1)" by fastforce
  have "CanAccept sv st" using assms by (auto simp: trigger_with_def split: if_splits)
  moreover have "ex_db (snd (dispatchOrQueue sv p run opts q st1)) = ex_db st1" for run q
    by (simp add: dispatchOrQueue_def)
  ultimately have db: "ex_db (snd (trigger_with sv now p tt user inp opts st)) = ex_db st1"
    using adm by (simp add: trigger_with_def split: sum.split)
  show ?thesis
    using admitRun_new [OF adm] assms unfolding db by metis
qed

text \<open>Triggers by \<open>passed\<close> are not repeated: after an evaluation has recorded a run for the downstream job, evaluating the job
  again changes nothing, whatever the outcome of admission was and whatever completed meanwhile triggered it, as long as the
  database is the one the first evaluation left.\<close>

theorem passed_trigger_once:
  assumes "job_name j \<noteq> []" and "passed_of j \<noteq> []" and "[] \<notin> set (passed_of j)"
    and "evaluatePassedDownstream sv now p j completed st = Some st1"
    and "runs (ex_db st1) \<noteq> runs (ex_db st)" and "\<And>r. r \<in> set (runs (ex_db st)) \<Longrightarrow> r_created_at r \<le> now"
  shows "evaluatePassedDownstream sv later p j other st1 = Some st1"
proof -
  obtain user ids where st1: "st1 = snd (trigger_with sv now p TriggerTypePassed user
      \<lparr>ti_args = [], ti_webhook = None, ti_jobs = [job_name j], ti_upstream_run_ids = ids\<rparr>
      (no_options\<lparr>eo_jobs := [job_name j]\<rparr>) st)"
    using assms(4,5)
    by (auto simp: evaluatePassedDownstream_def firePassedDownstream_def Let_def split: if_splits option.splits)
  obtain run where run: "run \<in> set (runs (ex_db st1))" "r_pipeline_id run = p_id p" "r_created_at run = now"
      "ti_jobs (r_trigger_input run) = [job_name j]" "active run \<or> runs (ex_db st1) = runs (ex_db st) @ [run]"
    using trigger_with_new [OF assms(5) [unfolded st1]] unfolding st1 [symmetric] by fastforce
  then have down: "downstream_run p j run" by (simp add: downstream_run_def targets_def)
  show ?thesis
  proof (cases "active run")
    case True
    with run(1) down have "\<exists>r\<in>set (runs (ex_db st1)). active r \<and> downstream_run p j r" by blast
    then show ?thesis unfolding coalesced_iff [symmetric] by (simp add: evaluatePassedDownstream_def Let_def)
  next
    case False
    then have all: "r_created_at r \<le> now" if "r \<in> set (runs (ex_db st1))" for r
      using that run(3,5) assms(6) by auto
    have "now \<le> since_time (p_id p) (job_name j) (ex_db st1)"
      using since_time_upper [OF assms(1) run(1) down] run(3) by simp
    with all have "\<not> fresh_run p u (since_time (p_id p) (job_name j) (ex_db st1)) r" if "r \<in> set (runs (ex_db st1))" for u r
      using that by (fastforce simp: fresh_run_def)
    then have "fresh_upstreams (p_id p) (since_time (p_id p) (job_name j) (ex_db st1)) (passed_of j) (ex_db st1) = None"
      using assms(2) by (subst fresh_upstreams_None [OF assms(3)]) (auto simp: neq_Nil_conv)
    then show ?thesis by (simp add: evaluatePassedDownstream_def Let_def)
  qed
qed

section \<open>A pipeline with a triggered job\<close>

definition passed_job :: job where
  "passed_job = \<lparr>job_assert = None, job_retention = None, job_name = ''deploy'', job_plan = [], job_depends_on = [],
     job_gate = None, job_max_in_flight = 0, job_public = False, job_ensure = None, job_on_abort = None, job_on_error = None,
     job_on_success = None, job_on_failure = None, job_timeout = 0,
     job_triggers = Some \<lparr>tr_webhook = None, tr_schedule = None, tr_passed = [''build'']\<rparr>, job_webhook_trigger = []\<rparr>"

definition passed_db :: db where
  "passed_db = empty_db\<lparr>pipelines := [mode_pipeline []],
     runs := [(sample_run ''q1'' ''p1'')\<lparr>r_status := RunStatusSuccess, r_created_at := 5,
                r_trigger_input := no_input\<lparr>ti_jobs := [''build'']\<rparr>\<rparr>]\<rparr>"

lemma passed_sample:
  "job_name passed_job = ''deploy''" "passed_of passed_job = [''build'']" "p_id (mode_pipeline []) = ''p1''"
  "runs (ex_db (service_state passed_db)) = [(sample_run ''q1'' ''p1'')\<lparr>r_status := RunStatusSuccess, r_created_at := 5,
                r_trigger_input := no_input\<lparr>ti_jobs := [''build'']\<rparr>\<rparr>]"
  "passed_ready (mode_pipeline []) passed_job (ex_db (service_state passed_db))"
  "CanAccept sample_service (service_state passed_db)"
  by (simp_all add: passed_job_def passed_of_def passed_db_def passed_ready_def fresh_run_def downstream_run_def targets_def
      active_def zero_time_def no_input_def CanAccept_def CanExecute_def sample_defs)

definition passed_state :: exec_state where
  "passed_state = snd (trigger_with sample_service 9 (mode_pipeline []) TriggerTypePassed ''passed:q1''
     \<lparr>ti_args = [], ti_webhook = None, ti_jobs = [''deploy''], ti_upstream_run_ids = [''q1'']\<rparr>
     (no_options\<lparr>eo_jobs := [''deploy'']\<rparr>) (service_state passed_db))"

theorem passed_trigger_fires_witness:
  "evaluatePassedDownstream sample_service 9 (mode_pipeline []) passed_job (Some (sample_run ''q1'' ''p1''))
     (service_state passed_db) = Some passed_state"
proof -
  have "job_name passed_job \<noteq> []" "[] \<notin> set (passed_of passed_job)" by (simp_all add: passed_sample)
  moreover have "zero_time \<le> r_created_at r" if "r \<in> set (runs (ex_db (service_state passed_db)))" for r
    using that by (simp add: passed_sample zero_time_def)
  ultimately show ?thesis
    using passed_trigger_fires [of passed_job "service_state passed_db" "mode_pipeline []" sample_service 9 "sample_run ''q1'' ''p1''"]
    by (auto simp: passed_sample list_all2_Cons1 passed_state_def) (simp_all add: sample_run_def)
qed

theorem passed_trigger_once_witness:
  "evaluatePassedDownstream sample_service 10 (mode_pipeline []) passed_job None passed_state = Some passed_state"
proof -
  have "evaluatePassedDownstream sample_service 9 (mode_pipeline []) passed_job (Some (sample_run ''q1'' ''p1''))
      (service_state passed_db) = Some passed_state"
    by (simp add: evaluatePassedDownstream_def coalesced_iff [where p = "mode_pipeline []", unfolded passed_sample]
        passed_state_def firePassedDownstream_def passed_sample GetActiveRunsByPipeline_def since_time_def
        GetMostRecentJobRun_def GetSuccessfulJobRunSince_def zero_time_def targets_def active_def order_asc_def order_desc_def
        first_row_def sample_run_def no_input_def Let_def)
  moreover have "runs (ex_db passed_state) \<noteq> runs (ex_db (service_state passed_db))"
    by (simp add: passed_state_def passed_db_def admission_defs)
  moreover have "r_created_at r \<le> 9" if "r \<in> set (runs (ex_db (service_state passed_db)))" for r
    using that by (simp add: passed_sample)
  ultimately show ?thesis
    using passed_trigger_once [of passed_job sample_service 9 "mode_pipeline []" "Some (sample_run ''q1'' ''p1'')"
        "service_state passed_db" passed_state 10 None]
    by (simp add: passed_sample)
qed

text \<open>The sweep at boot evaluates ready jobs without a completed run, whose id the new run's record would need.\<close>

lemma boot_sweep_panics:
  "evaluatePassedDownstream sample_service 9 (mode_pipeline []) passed_job None (service_state passed_db) = None"
  by (simp add: evaluatePassedDownstream_def firePassedDownstream_def passed_sample GetActiveRunsByPipeline_def
      since_time_def GetMostRecentJobRun_def GetSuccessfulJobRunSince_def zero_time_def targets_def active_def order_asc_def
      order_desc_def first_row_def sample_run_def no_input_def Let_def)

end
