(* ===== verification/Redaction.thy ===== *)
theory Redaction
  imports Go_Strings
begin

text \<open>
  Redaction of secrets in the output of tasks, \<open>runtime/support/redaction.go\<close>, over \<open>strings.ReplaceAll\<close>. The main
  lemma: an occurrence of a secret that the placeholder can neither contain, nor be part of, nor overlap, is an
  occurrence in the original text, and the replacement of the secret itself leaves none.
\<close>

section \<open>Replacing\<close>

text \<open>\<open>strings.ReplaceAll\<close> with a non-empty pattern: the occurrences from left to right, without overlaps.\<close>

function ReplaceAll :: "string \<Rightarrow> string \<Rightarrow> string \<Rightarrow> string" where
  "ReplaceAll [] old new = []"
| "ReplaceAll (c # s) old new =
     (if old \<noteq> [] \<and> HasPrefix (c # s) old then new @ ReplaceAll (drop (length old) (c # s)) old new
      else c # ReplaceAll s old new)"
  by pat_completeness auto
termination
  by (relation "measure (\<lambda>(s, old, new). length s)") (auto simp: Suc_diff_le less_Suc_eq_le neq_Nil_conv)

definition RedactedPlaceholder :: string where
  "RedactedPlaceholder = ''***REDACTED***''"

text \<open>\<open>sort.Slice\<close> is not stable: the order among secrets of one length is not fixed by the code, here it is that of
  their first occurrence. Nothing below depends on it.\<close>

definition redaction_values :: "string list \<Rightarrow> string list" where
  "redaction_values secretValues =
     sort_key (\<lambda>v. - int (length v)) (rev (remdups (rev (filter (\<lambda>v. v \<noteq> []) secretValues))))"

definition redact_each :: "string list \<Rightarrow> string \<Rightarrow> string" where
  "redact_each values t = fold (\<lambda>secret text. ReplaceAll text secret RedactedPlaceholder) values t"

definition RedactSecrets :: "string \<Rightarrow> string list \<Rightarrow> string" where
  "RedactSecrets t secretValues =
     (if secretValues = [] \<or> t = [] then t
      else (let values = redaction_values secretValues in if values = [] then t else redact_each values t))"

section \<open>What replacing leaves behind\<close>

text \<open>\<open>apart p s\<close>: no occurrence of \<open>s\<close> can touch a copy of \<open>p\<close>, because neither contains the other and no end of
  one is a beginning of the other.\<close>

definition apart :: "string \<Rightarrow> string \<Rightarrow> bool" where
  "apart p s \<longleftrightarrow> s \<noteq> [] \<and> \<not> Contains p s \<and> \<not> Contains s p \<and>
     (\<forall>k \<in> set [1..<length s]. \<not> HasSuffix p (take k s) \<and> \<not> HasPrefix p (drop k s))"

lemma HasSuffix_iff: "HasSuffix s p \<longleftrightarrow> (\<exists>r. s = r @ p)"
  by (auto simp: HasSuffix_def) (metis append_take_drop_id)

text \<open>A pattern inside \<open>a @ b\<close> is inside one of the two or straddles the border.\<close>

lemma Contains_append:
  "Contains (a @ b) s \<longleftrightarrow>
     Contains a s \<or> Contains b s \<or>
     (\<exists>k \<in> set [1..<length s]. HasSuffix a (take k s) \<and> HasPrefix b (drop k s))" (is "_ \<longleftrightarrow> ?rhs")
proof
  assume "Contains (a @ b) s"
  then obtain x y where xy: "a @ b = x @ s @ y" by (auto simp: Contains_iff)
  show ?rhs
  proof (cases "length x + length s \<le> length a")
    case True
    have "x @ s = take (length x + length s) (a @ b)" by (simp add: xy)
    with True have "x @ s = take (length x + length s) a" by simp
    then have "a = x @ s @ drop (length x + length s) a" by (metis append.assoc append_take_drop_id)
    then show ?thesis by (auto simp: Contains_iff)
  next
    case long: False
    show ?thesis
    proof (cases "length a \<le> length x")
      case True
      have "b = drop (length a) (x @ s @ y)" by (simp flip: xy)
      with True show ?thesis by (auto simp: Contains_iff)
    next
      case False
      let ?k = "length a - length x"
      have "a = take (length a) (x @ s @ y)" "b = drop (length a) (x @ s @ y)" by (simp_all flip: xy)
      with False long have "a = x @ take ?k s" "b = drop ?k s @ y" by simp_all
      with False long show ?thesis by (auto simp: HasSuffix_iff HasPrefix_iff intro!: bexI [of _ ?k])
    qed
  qed
next
  have straddle: "Contains (a @ b) s" if ends: "HasSuffix a (take k s)" "HasPrefix b (drop k s)" for k
  proof -
    obtain r q where "a = r @ take k s" "b = drop k s @ q" using ends unfolding HasSuffix_iff HasPrefix_iff by blast
    then have "a @ b = r @ (take k s @ drop k s) @ q" by simp
    then show ?thesis unfolding Contains_iff append_take_drop_id by blast
  qed
  show "?rhs \<Longrightarrow> Contains (a @ b) s"
    using straddle by (auto simp: Contains_iff) (metis append.assoc)+
qed

lemma Contains_around:
  assumes "apart p s" and "Contains (a @ p @ b) s"
  shows "Contains a s \<or> Contains b s"
proof -
  have ends: "\<not> HasSuffix p (take k s)" "\<not> HasPrefix p (drop k s)" if "k \<in> set [1..<length s]" for k
    using assms(1) that unfolding apart_def by blast+
  have "\<not> HasPrefix (p @ b) (drop k s)" if k: "k \<in> set [1..<length s]" for k
  proof
    assume "HasPrefix (p @ b) (drop k s)"
    then obtain r where r: "p @ b = drop k s @ r" by (auto simp: HasPrefix_iff)
    show False
    proof (cases "length (drop k s) \<le> length p")
      case True
      have "take (length (drop k s)) (p @ b) = drop k s" using r by simp
      with True have "HasPrefix p (drop k s)" by (simp add: HasPrefix_def)
      with ends(2) [OF k] show False ..
    next
      case False
      have "take (length p) (drop k s @ r) = p" by (simp flip: r)
      with False have "take (length p) (drop k s) = p" by simp
      then have "s = take k s @ p @ drop (length p) (drop k s)" by (metis append_take_drop_id)
      then have "Contains s p" unfolding Contains_iff by blast
      with assms(1) show False by (simp add: apart_def)
    qed
  qed
  moreover have "Contains (p @ b) s \<longleftrightarrow> Contains b s"
    using assms(1) ends(1) by (auto simp: Contains_append apart_def)
  ultimately show ?thesis
    using assms(2) unfolding Contains_append [of a] by blast
qed

lemma Contains_ReplaceAll:
  "apart p s \<Longrightarrow> Contains (u @ ReplaceAll t v p) s \<Longrightarrow> Contains (u @ t) s"
proof (induction t v p arbitrary: u rule: ReplaceAll.induct)
  case (2 c t v p)
  show ?case
  proof (cases "v \<noteq> [] \<and> HasPrefix (c # t) v")
    case True
    let ?rest = "drop (length v) (c # t)"
    have "Contains (u @ p @ ReplaceAll ?rest v p) s" using 2(4) True by simp
    then have "Contains u s \<or> Contains (ReplaceAll ?rest v p) s"
      by (rule Contains_around [OF 2(3)])
    then have "Contains u s \<or> Contains ?rest s"
      using 2(1) [of "[]"] 2(3) True by auto
    moreover have "c # t = take (length v) (c # t) @ ?rest" by simp
    ultimately show ?thesis by (metis Contains_append)
  next
    case False
    with 2(2) [of "u @ [c]"] 2(3,4) show ?thesis by auto
  qed
qed simp

lemma ReplaceAll_removes:
  assumes "apart p v" and "\<And>i. i < length u \<Longrightarrow> \<not> HasPrefix (drop i (u @ t)) v"
  shows "\<not> Contains (u @ ReplaceAll t v p) v"
  using assms
proof (induction t v p arbitrary: u rule: ReplaceAll.induct)
  case (1 v p)
  show ?case
  proof
    assume "Contains (u @ ReplaceAll [] v p) v"
    then obtain a b where u: "u = a @ v @ b" by (auto simp: Contains_iff)
    moreover have "v \<noteq> []" using 1(1) by (simp add: apart_def)
    ultimately show False using 1(2) [of "length a"] by (simp add: HasPrefix_iff)
  qed
next
  case (2 c t v p)
  show ?case
  proof (cases "v \<noteq> [] \<and> HasPrefix (c # t) v")
    case True
    let ?rest = "drop (length v) (c # t)"
    have "\<not> Contains (ReplaceAll ?rest v p) v"
      using 2(1) [of "[]"] 2(3) True by auto
    moreover have "\<not> Contains u v"
    proof
      assume "Contains u v"
      then obtain a b where "u = a @ v @ b" by (auto simp: Contains_iff)
      with True 2(4) [of "length a"] show False by (simp add: HasPrefix_iff)
    qed
    ultimately show ?thesis
      using Contains_around [OF 2(3)] True by auto
  next
    case False
    have "\<not> HasPrefix (drop i ((u @ [c]) @ t)) v" if "i < length (u @ [c])" for i
      using that False 2(3) 2(4) [of i] by (cases "i = length u") (auto simp: apart_def)
    then have "\<not> Contains ((u @ [c]) @ ReplaceAll t v p) v"
      by (intro 2(2)) (use False 2(3) in auto)
    moreover have "ReplaceAll (c # t) v p = c # ReplaceAll t v p" using False by auto
    ultimately show ?thesis by simp
  qed
qed

section \<open>Secrets do not survive\<close>

lemma redact_each_keeps_out: "apart RedactedPlaceholder s \<Longrightarrow> \<not> Contains t s \<Longrightarrow> \<not> Contains (redact_each vs t) s"
  unfolding redact_each_def
proof (induction vs arbitrary: t)
  case (Cons v vs)
  then show ?case using Contains_ReplaceAll [of RedactedPlaceholder s "[]" t v] by auto
qed simp

lemma redact_each_removes:
  "apart RedactedPlaceholder s \<Longrightarrow> s \<in> set vs \<Longrightarrow> \<not> Contains (redact_each vs t) s"
proof (induction vs arbitrary: t)
  case (Cons v vs)
  have step: "redact_each (v # vs) t = redact_each vs (ReplaceAll t v RedactedPlaceholder)"
    by (simp add: redact_each_def)
  show ?case
  proof (cases "s = v")
    case True
    then have "\<not> Contains (ReplaceAll t v RedactedPlaceholder) s"
      using ReplaceAll_removes [of RedactedPlaceholder v "[]" t] Cons.prems(1) by simp
    with Cons.prems(1) show ?thesis by (simp add: step redact_each_keeps_out)
  next
    case False
    with Cons show ?thesis by (simp add: step)
  qed
qed simp

lemma set_redaction_values [simp]: "set (redaction_values vs) = {v \<in> set vs. v \<noteq> []}"
  by (auto simp: redaction_values_def)

lemma RedactSecrets_each:
  "RedactSecrets t secretValues = redact_each (redaction_values secretValues) t"
proof -
  have "redact_each vs [] = []" for vs by (induction vs) (simp_all add: redact_each_def)
  moreover have "redact_each [] t = t" "redaction_values [] = []" by (simp_all add: redact_each_def redaction_values_def)
  ultimately show ?thesis by (simp add: RedactSecrets_def Let_def)
qed

lemma RedactSecrets_removes:
  assumes "apart RedactedPlaceholder s" and "s \<in> set secretValues"
  shows "\<not> Contains (RedactSecrets t secretValues) s"
proof -
  have "s \<noteq> []" using assms(1) by (simp add: apart_def)
  with assms(2) have "s \<in> set (redaction_values secretValues)" by simp
  then show ?thesis
    unfolding RedactSecrets_each by (rule redact_each_removes [OF assms(1)])
qed

lemma RedactSecrets_keeps_out:
  "apart RedactedPlaceholder s \<Longrightarrow> \<not> Contains t s \<Longrightarrow> \<not> Contains (RedactSecrets t secretValues) s"
  unfolding RedactSecrets_each by (rule redact_each_keeps_out)

lemma RedactSecrets_Nil [simp]: "RedactSecrets t [] = t" "RedactSecrets [] vs = []"
  by (simp_all add: RedactSecrets_def)

text \<open>A secret without the characters of the placeholder is apart from it.\<close>

lemma apart_disjoint:
  assumes "s \<noteq> []" and "set s \<inter> set RedactedPlaceholder = {}"
  shows "apart RedactedPlaceholder s"
proof -
  have common: False if "x \<in> set s" "x \<in> set RedactedPlaceholder" for x
    using assms(2) that by blast
  have "\<not> Contains RedactedPlaceholder s"
    using assms(1) common by (auto simp: Contains_iff) (metis UnCI list.set_intros(1) neq_Nil_conv set_append)
  moreover have "\<not> Contains s RedactedPlaceholder"
    using common [of "CHR ''*''"] by (auto simp: Contains_iff RedactedPlaceholder_def)
  moreover have "\<not> HasSuffix RedactedPlaceholder (take k s)" if "k \<in> set [1..<length s]" for k
    using that common [of "hd s"] assms(1)
    by (auto simp: HasSuffix_iff neq_Nil_conv take_Cons' split: if_splits)
      (metis UnCI list.set_intros(1) set_append)
  moreover have "\<not> HasPrefix RedactedPlaceholder (drop k s)" if "k \<in> set [1..<length s]" for k
  proof
    assume "HasPrefix RedactedPlaceholder (drop k s)"
    then obtain r where "RedactedPlaceholder = drop k s @ r" by (auto simp: HasPrefix_iff)
    moreover have "last s \<in> set (drop k s)" using that by (metis atLeastLessThan_iff last_drop last_in_set length_drop length_greater_0_conv set_upt zero_less_diff)
    ultimately have "last s \<in> set RedactedPlaceholder" by (metis UnI1 set_append)
    then show False using common assms(1) last_in_set by blast
  qed
  ultimately show ?thesis using assms(1) by (simp add: apart_def)
qed

end
