(* ===== verification/Container_Runner.thy ===== *)
theory Container_Runner
  imports Task_Handler Go_Time Redaction
begin

text \<open>
  The runner of single containers, \<open>runtime/runner/pipeline.go\<close>: \<open>PipelineRunner.Run\<close> with its secrets, the task it
  hands to the driver, the streamed log, the ticker's snapshots, the polling loop, redaction and the record it keeps
  for the user interface; volumes and agents. The container driver (\<open>orchestra.Driver\<close>), the secrets manager, SHA-256
  and the clock are the fields of \<open>container_driver\<close>, \<open>container\<close> and \<open>container_runner\<close>. The runner's fields that
  change are the record \<open>runner_state\<close>.
\<close>

section \<open>The driver\<close>

text \<open>An error of a driver call: one that \<open>errors.Is\<close> finds to be \<open>DeadlineExceeded\<close> or \<open>Canceled\<close>, or another.\<close>

datatype call_error = ContextDone | CallFailed string

datatype poll_result = Poll_running | Poll_done int | Poll_error call_error

text \<open>What reaches the callback and the ticker while the container runs, in this order: a non-empty chunk of a stream, or
  a tick.\<close>

datatype stream_event = Chunk string string | Tick

text \<open>A started container: the answer to each poll, the events up to the last poll and those after it until the
  streaming goroutines have ended, the answer to the final \<open>Logs\<close>, and the times that are recorded.\<close>

record container =
  ct_id :: string
  ct_status :: "nat \<Rightarrow> poll_result"
  ct_events :: "stream_event list"
  ct_late :: "stream_event list"
  ct_logs :: "call_error + string \<times> string"
  ct_started_at :: string
  ct_elapsed :: int

record container_limit =
  cl_cpu :: int
  cl_cpu_kind :: string
  cl_memory :: int

record container_task =
  ct_task_id :: string
  ct_command :: "string list"
  ct_env :: "(string, string) gomap option"
  ct_image :: string
  ct_mounts :: "(string \<times> string) list"
  ct_privileged :: bool
  ct_stdin :: "string option"
  ct_user :: string
  ct_work_dir :: string
  ct_limits :: container_limit

record volume_result =
  vr_name :: string
  vr_path :: string

record tar_entry =
  te_name :: string
  te_regular :: bool
  te_data :: "string + string"

datatype get_error = ErrContainerNotFound | GetFailed string

text \<open>\<open>RunContainer\<close> gets the number of containers started before, the deadline of its context and the task.
  \<open>ReadFilesFromVolume\<close> is optional; a tar archive is its entries and how it ends.\<close>

record container_driver =
  dr_name :: string
  dr_run_container :: "nat \<Rightarrow> int option \<Rightarrow> container_task \<Rightarrow> call_error + container"
  dr_get_container :: "string \<Rightarrow> get_error + container"
  dr_create_volume :: "string \<Rightarrow> int \<Rightarrow> string + volume_result"
  dr_cleanup_volume :: "string \<Rightarrow> string option"
  dr_read_files :: "(string \<Rightarrow> string list \<Rightarrow> string + tar_entry list \<times> string option) option"

section \<open>The runner\<close>

record run_input =
  ri_path :: string
  ri_args :: "string list"
  ri_user :: string
  ri_limits :: container_limit
  ri_env :: "(string, string) gomap option"
  ri_image :: string
  ri_mounts :: "(string, volume_result) gomap"
  ri_name :: string
  ri_privileged :: bool
  ri_stdin :: string
  ri_work_dir :: string
  ri_on_output :: "nat option"
  ri_timeout :: string
  ri_storage_key :: string

datatype container_status = RunAbort | RunComplete

record container_result =
  res_code :: int
  res_stderr :: string
  res_stdout :: string
  res_status :: container_status

definition aborted_result :: container_result where
  "aborted_result = \<lparr>res_code = 0, res_stderr = [], res_stdout = [], res_status = RunAbort\<rparr>"

text \<open>What a runner is created and configured with. Output callbacks are numbers; \<open>rn_set_fails i\<close> says whether
  the \<open>i\<close>-th write to the store fails (its context may be done), \<open>rn_sha256\<close> is the hexadecimal digest.\<close>

record container_runner =
  rn_namespace :: string
  rn_store_namespace :: string
  rn_run_id :: string
  rn_secrets :: "(string \<Rightarrow> string \<Rightarrow> secret_result) option"
  rn_pipeline_id :: string
  rn_preseeded :: "(string, volume_result option) gomap"
  rn_output_callback :: "nat option"
  rn_agent :: "(json \<Rightarrow> string + json) option"
  rn_set_fails :: "nat \<Rightarrow> bool"
  rn_sha256 :: "string \<Rightarrow> string"

record runner_state =
  rs_call_index :: nat
  rs_volumes :: "volume_result list"
  rs_secret_values :: "string list"
  rs_store :: db
  rs_sets :: nat
  rs_output :: "(nat \<times> string \<times> string) list"
  rs_started :: "container_task list"
  rs_cleaned :: "string list"

definition DeterministicTaskID :: "(string \<Rightarrow> string) \<Rightarrow> string \<Rightarrow> string \<Rightarrow> string \<Rightarrow> string \<Rightarrow> string" where
  "DeterministicTaskID sha256 namespace runID stepID taskName =
     take 8 (sha256 (namespace @ '':'' @ runID @ '':'' @ stepID @ '':'' @ taskName))"

definition taskStorageKey :: "container_runner \<Rightarrow> string \<Rightarrow> string" where
  "taskStorageKey rn stepID =
     (if rn_run_id rn = [] then [] else ''/pipeline/'' @ rn_run_id rn @ ''/tasks/'' @ stepID)"

text \<open>A write of which the error is only logged.\<close>

definition setTaskStatus :: "container_runner \<Rightarrow> string \<Rightarrow> (string \<times> json) list \<Rightarrow> runner_state \<Rightarrow> runner_state" where
  "setTaskStatus rn key payload st =
     (if key = [] then st
      else if rn_set_fails rn (rs_sets st) then st\<lparr>rs_sets := rs_sets st + 1\<rparr>
      else st\<lparr>rs_sets := rs_sets st + 1, rs_store := store_Set (rn_store_namespace rn) key (JObj payload) (rs_store st)\<rparr>)"

section \<open>The log\<close>

definition AppendLogEntry :: "(string \<times> string) list \<Rightarrow> string \<Rightarrow> string \<Rightarrow> (string \<times> string) list" where
  "AppendLogEntry logs stream data =
     (if data = [] then logs
      else if logs \<noteq> [] \<and> fst (last logs) = stream
           then butlast logs @ [(stream, snd (last logs) @ data)]
           else logs @ [(stream, data)])"

definition joinTaskLogs :: "(string \<times> string) list \<Rightarrow> string \<Rightarrow> string" where
  "joinTaskLogs logs stream = concat (map snd (filter (\<lambda>e. fst e = stream) logs))"

definition buildTaskLogs :: "string \<Rightarrow> string \<Rightarrow> (string \<times> string) list" where
  "buildTaskLogs stdout stderr =
     (if stdout \<noteq> [] then [(''stdout'', stdout)] else []) @ (if stderr \<noteq> [] then [(''stderr'', stderr)] else [])"

definition reconcileTaskLogs :: "(string \<times> string) list \<Rightarrow> string \<Rightarrow> string \<Rightarrow> (string \<times> string) list" where
  "reconcileTaskLogs logs stdout stderr =
     (if logs = [] then buildTaskLogs stdout stderr
      else if length stdout > length (joinTaskLogs logs ''stdout'') \<or> length stderr > length (joinTaskLogs logs ''stderr'')
           then buildTaskLogs stdout stderr
           else logs)"

definition preferCompleteOutput :: "string \<Rightarrow> string \<Rightarrow> string" where
  "preferCompleteOutput streamed final = (if length final > length streamed then final else streamed)"

definition logs_json :: "(string \<times> string) list \<Rightarrow> json" where
  "logs_json logs = JArr (map (\<lambda>(t, c). log_entry t c) logs)"

text \<open>\<open>formatElapsed\<close>, with \<open>Duration.Round\<close> on a duration that is not negative and below its maximum.\<close>

definition formatElapsed :: "int \<Rightarrow> string" where
  "formatElapsed d0 =
     (let sec = 1000000000; r = d0 mod sec;
          d = (if 2 * r < sec then d0 - r else d0 + (sec - r));
          h = d div (3600 * sec); m = (d div (60 * sec)) mod 60; s = (d div sec) mod 60
      in if h > 0 then itoa h @ ''h '' @ itoa m @ ''m '' @ itoa s @ ''s''
         else if m > 0 then itoa m @ ''m '' @ itoa s @ ''s''
         else itoa s @ ''s'')"

section \<open>Secrets\<close>

definition lookup_secret :: "(string \<Rightarrow> string \<Rightarrow> secret_result) \<Rightarrow> string \<Rightarrow> string \<Rightarrow> go_error + string" where
  "lookup_secret get pid key =
     (case get (PipelineScope pid) key of
        Secret val \<Rightarrow> Inr val
      | SecretError m \<Rightarrow> Inl (secret_failure key (PipelineScope pid) m)
      | SecretNotFound \<Rightarrow>
          (case get GlobalScope key of
             Secret val \<Rightarrow> Inr val
           | SecretError m \<Rightarrow> Inl (secret_failure key GlobalScope m)
           | SecretNotFound \<Rightarrow>
               Inl (Wrapped (''secret '' @ go_quote key @ '' not found in scopes ''
                      @ go_quote (PipelineScope pid) @ '' or '' @ go_quote GlobalScope)
                     (Plain ''secret not found''))))"

fun load_each :: "(string \<Rightarrow> string \<Rightarrow> secret_result) \<Rightarrow> string \<Rightarrow> string list \<Rightarrow> (string, string) gomap
    \<Rightarrow> go_error + (string, string) gomap" where
  "load_each get pid [] m = Inr m"
| "load_each get pid (k # ks) m = ebind (lookup_secret get pid k) (\<lambda>val. load_each get pid ks (gm_set k val m))"

definition loadSecrets :: "container_runner \<Rightarrow> string list \<Rightarrow> go_error + (string, string) gomap" where
  "loadSecrets rn requestedKeys =
     (case rn_secrets rn of
        None \<Rightarrow> Inr []
      | Some get \<Rightarrow> if requestedKeys = [] then Inr [] else load_each get (rn_pipeline_id rn) requestedKeys [])"

definition secret_keys :: "(string, string) gomap \<Rightarrow> string list" where
  "secret_keys env = map (\<lambda>(k, v). TrimPrefix v ''secret:'') (filter (\<lambda>(k, v). HasPrefix v ''secret:'') env)"

definition substitute_secret :: "(string, string) gomap \<Rightarrow> string \<times> string \<Rightarrow> string \<times> string" where
  "substitute_secret secretMap kv =
     (if HasPrefix (snd kv) ''secret:'' then
        (case gm_get secretMap (TrimPrefix (snd kv) ''secret:'') of Some val \<Rightarrow> (fst kv, val) | None \<Rightarrow> kv)
      else kv)"

definition used_secrets :: "(string, string) gomap \<Rightarrow> (string, string) gomap \<Rightarrow> string list" where
  "used_secrets secretMap env =
     List.map_filter (\<lambda>(k, v). if HasPrefix v ''secret:'' then gm_get secretMap (TrimPrefix v ''secret:'') else None) env"

definition injectSecrets ::
  "container_runner \<Rightarrow> run_input \<Rightarrow> string \<Rightarrow> runner_state \<Rightarrow> (go_error + run_input) \<times> runner_state" where
  "injectSecrets rn inp storageKey st =
     (case (rn_secrets rn, ri_env inp) of
        (Some _, Some env) \<Rightarrow>
          (if secret_keys env = [] then (Inr inp, st)
           else
             (case loadSecrets rn (secret_keys env) of
                Inl e \<Rightarrow>
                  (Inl (Wrapped (''failed to load secrets for task '' @ go_quote (ri_name inp)) e),
                   setTaskStatus rn storageKey
                     [(''status'', JStr ''error''), (''logs'', logs_json [(''stderr'', error_text e)])] st)
              | Inr secretMap \<Rightarrow>
                  (Inr (inp\<lparr>ri_env := Some (map (substitute_secret secretMap) env)\<rparr>),
                   st\<lparr>rs_secret_values := rs_secret_values st @ used_secrets secretMap env\<rparr>)))
      | _ \<Rightarrow> (Inr inp, st))"

section \<open>Running a container\<close>

record stream_state =
  ss_logs :: "(string \<times> string) list"
  ss_stdout :: string
  ss_stderr :: string

definition call_back :: "nat option \<Rightarrow> string \<Rightarrow> string \<Rightarrow> runner_state \<Rightarrow> runner_state" where
  "call_back cb stream data st =
     (case cb of None \<Rightarrow> st | Some f \<Rightarrow> st\<lparr>rs_output := rs_output st @ [(f, stream, data)]\<rparr>)"

definition running_row :: "string \<Rightarrow> (string \<times> json) list \<Rightarrow> (string \<times> json) list" where
  "running_row startedAt rest = [(''status'', JStr ''running''), (''started_at'', JStr startedAt)] @ rest"

text \<open>A chunk is appended to the builder of its stream and to the log and handed on; a tick writes a snapshot of the log
  unless it is empty.\<close>

fun on_event :: "container_runner \<Rightarrow> nat option \<Rightarrow> string \<Rightarrow> string \<Rightarrow> stream_event \<Rightarrow> stream_state \<times> runner_state
    \<Rightarrow> stream_state \<times> runner_state" where
  "on_event rn cb key startedAt (Chunk stream data) (ss, st) =
     (ss\<lparr>ss_logs := AppendLogEntry (ss_logs ss) stream data,
         ss_stdout := ss_stdout ss @ (if stream = ''stdout'' then data else []),
         ss_stderr := ss_stderr ss @ (if stream = ''stderr'' then data else [])\<rparr>,
      call_back cb stream data st)"
| "on_event rn cb key startedAt Tick (ss, st) =
     (ss, if ss_logs ss = [] then st
          else setTaskStatus rn key (running_row startedAt [(''logs'', logs_json (ss_logs ss))]) st)"

definition stream_events :: "container_runner \<Rightarrow> nat option \<Rightarrow> string \<Rightarrow> string \<Rightarrow> stream_event list \<Rightarrow> stream_state \<times> runner_state
    \<Rightarrow> stream_state \<times> runner_state" where
  "stream_events rn cb key startedAt evs = fold (on_event rn cb key startedAt) evs"

text \<open>\<open>streamCallback\<close>, called by \<open>emitMissingOutput\<close> with what the stream has missed.\<close>

definition missing_output :: "string \<Rightarrow> string \<Rightarrow> string option" where
  "missing_output streamed final =
     (if length final \<le> length streamed then None
      else if HasPrefix final streamed then Some (drop (length streamed) final)
      else Some final)"

definition emitMissingOutput :: "nat option \<Rightarrow> string \<Rightarrow> string \<Rightarrow> string \<Rightarrow> stream_state \<times> runner_state \<Rightarrow> stream_state \<times> runner_state" where
  "emitMissingOutput cb streamed final stream p =
     (case missing_output streamed final of
        None \<Rightarrow> p
      | Some data \<Rightarrow>
          ((fst p)\<lparr>ss_logs := AppendLogEntry (ss_logs (fst p)) stream data\<rparr>, call_back cb stream data (snd p)))"

text \<open>The polling loop has no bound: it may never return, which is \<open>None\<close>.\<close>

partial_function (option) poll_from :: "(nat \<Rightarrow> poll_result) \<Rightarrow> nat \<Rightarrow> (call_error + int) option" where
  "poll_from answer n =
     (case answer n of
        Poll_running \<Rightarrow> poll_from answer (n + 1)
      | Poll_done code \<Rightarrow> Some (Inr code)
      | Poll_error e \<Rightarrow> Some (Inl e))"

definition timed_row :: "string \<Rightarrow> container \<Rightarrow> (string \<times> json) list \<Rightarrow> (string \<times> json) list" where
  "timed_row status ct rest =
     [(''status'', JStr status), (''started_at'', JStr (ct_started_at ct)),
      (''elapsed'', JStr (formatElapsed (ct_elapsed ct)))] @ rest"

definition redact_logs :: "string list \<Rightarrow> (string \<times> string) list \<Rightarrow> (string \<times> string) list" where
  "redact_logs vs logs = map (\<lambda>(t, c). (t, RedactSecrets c vs)) logs"

definition buildFinalResult ::
  "container_runner \<Rightarrow> container \<Rightarrow> int \<Rightarrow> string \<Rightarrow> string \<Rightarrow> string \<Rightarrow> string \<Rightarrow> (string \<times> string) list \<Rightarrow> string
   \<Rightarrow> runner_state \<Rightarrow> container_result \<times> runner_state" where
  "buildFinalResult rn ct code stdout stderr finalStdout finalStderr logs key st =
     (let vs = rs_secret_values st;
          out = RedactSecrets (preferCompleteOutput stdout finalStdout) vs;
          err = RedactSecrets (preferCompleteOutput stderr finalStderr) vs;
          logs' = reconcileTaskLogs (redact_logs vs logs) out err;
          status = (if code \<noteq> 0 then ''failure'' else ''success'')
      in (\<lparr>res_code = code, res_stderr = err, res_stdout = out, res_status = RunComplete\<rparr>,
          setTaskStatus rn key
            [(''status'', JStr status), (''code'', JNum code), (''logs'', logs_json logs'),
             (''started_at'', JStr (ct_started_at ct)), (''elapsed'', JStr (formatElapsed (ct_elapsed ct)))]
            (st\<lparr>rs_secret_values := []\<rparr>)))"

type_synonym run_outcome = "(go_error + container_result) \<times> runner_state"

text \<open>What follows a poll that failed: the row, then the streaming goroutines come to their end. The row
  carries no log.\<close>

definition after_poll_error ::
  "container_runner \<Rightarrow> nat option \<Rightarrow> string \<Rightarrow> container \<Rightarrow> call_error \<Rightarrow> stream_state \<times> runner_state \<Rightarrow> run_outcome" where
  "after_poll_error rn cb key ct e p =
     (let late = (\<lambda>status. snd (stream_events rn cb key (ct_started_at ct) (ct_late ct)
                                 (fst p, setTaskStatus rn key (timed_row status ct []) (snd p))))
      in case e of
           ContextDone \<Rightarrow> (Inr aborted_result, late ''abort'')
         | CallFailed m \<Rightarrow>
             (Inl (Wrapped ''could not get container status'' (Plain m)), late ''error''))"

definition after_exit ::
  "container_runner \<Rightarrow> nat option \<Rightarrow> string \<Rightarrow> container \<Rightarrow> int \<Rightarrow> stream_state \<times> runner_state \<Rightarrow> run_outcome" where
  "after_exit rn cb key ct code p0 =
     (let p = stream_events rn cb key (ct_started_at ct) (ct_late ct) p0; ss = fst p; st = snd p in
      case ct_logs ct of
        Inl ContextDone \<Rightarrow>
          (Inr aborted_result, setTaskStatus rn key (timed_row ''abort'' ct [(''logs'', logs_json (ss_logs ss))]) st)
      | Inl (CallFailed m) \<Rightarrow>
          (Inl (Wrapped ''could not get container logs'' (Plain m)),
           setTaskStatus rn key (timed_row ''error'' ct [(''logs'', logs_json (ss_logs ss))]) st)
      | Inr (finalStdout, finalStderr) \<Rightarrow>
          (let q = emitMissingOutput cb (ss_stderr ss) finalStderr ''stderr''
                     (emitMissingOutput cb (ss_stdout ss) finalStdout ''stdout'' p);
               (res, st') = buildFinalResult rn ct code (ss_stdout ss) (ss_stderr ss) finalStdout finalStderr
                              (ss_logs (fst q)) key (snd q)
           in (Inr res, st')))"

definition waitAndFinalizeRun ::
  "container_runner \<Rightarrow> nat option \<Rightarrow> string \<Rightarrow> container \<Rightarrow> runner_state \<Rightarrow> run_outcome option" where
  "waitAndFinalizeRun rn cb key ct st0 =
     (let p = stream_events rn cb key (ct_started_at ct) (ct_events ct)
                (\<lparr>ss_logs = [], ss_stdout = [], ss_stderr = []\<rparr>, setTaskStatus rn key (running_row (ct_started_at ct) []) st0)
      in case poll_from (ct_status ct) 0 of
           None \<Rightarrow> None
         | Some (Inl e) \<Rightarrow> Some (after_poll_error rn cb key ct e p)
         | Some (Inr code) \<Rightarrow> Some (after_exit rn cb key ct code p))"

definition task_of_input :: "string \<Rightarrow> run_input \<Rightarrow> container_task" where
  "task_of_input taskID inp =
     \<lparr>ct_task_id = ri_name inp @ ''-'' @ taskID, ct_command = ri_path inp # ri_args inp, ct_env = ri_env inp,
      ct_image = ri_image inp, ct_mounts = map (\<lambda>(path, v). (vr_name v, path)) (ri_mounts inp),
      ct_privileged = ri_privileged inp, ct_stdin = (if ri_stdin inp = [] then None else Some (ri_stdin inp)),
      ct_user = ri_user inp, ct_work_dir = ri_work_dir inp, ct_limits = ri_limits inp\<rparr>"

text \<open>\<open>createRunContainer\<close>.\<close>

definition run_container ::
  "container_driver \<Rightarrow> int option \<Rightarrow> container_task \<Rightarrow> runner_state \<Rightarrow> (call_error + container) \<times> runner_state" where
  "run_container d deadline task st =
     (dr_run_container d (length (rs_started st)) deadline task, st\<lparr>rs_started := rs_started st @ [task]\<rparr>)"

definition cleanup_container :: "container \<Rightarrow> runner_state \<Rightarrow> runner_state" where
  "cleanup_container ct st = st\<lparr>rs_cleaned := rs_cleaned st @ [ct_id ct]\<rparr>"

text \<open>A timeout that is not positive sets no deadline.\<close>

definition run_deadline :: "string \<Rightarrow> go_error + int option" where
  "run_deadline timeout =
     (if timeout = [] then Inr None
      else (case ParseDuration timeout of
              None \<Rightarrow> Inl (Wrapped ''could not parse timeout'' (Plain (''time: invalid duration '' @ go_quote timeout)))
            | Some t \<Rightarrow> Inr (if t > 0 then Some t else None)))"

definition start_and_wait ::
  "container_runner \<Rightarrow> container_driver \<Rightarrow> int option \<Rightarrow> string \<Rightarrow> string \<Rightarrow> run_input \<Rightarrow> runner_state \<Rightarrow> run_outcome option" where
  "start_and_wait rn d deadline taskID key inp st0 =
     (let cb = (case ri_on_output inp of None \<Rightarrow> rn_output_callback rn | Some f \<Rightarrow> Some f);
          (started, st) = run_container d deadline (task_of_input taskID inp)
                            (setTaskStatus rn key [(''status'', JStr ''pending'')] st0)
      in case started of
           Inl ContextDone \<Rightarrow> Some (Inr aborted_result, setTaskStatus rn key [(''status'', JStr ''abort'')] st)
         | Inl (CallFailed m) \<Rightarrow>
             Some (Inl (Wrapped ''could not run container'' (Wrapped ''run container'' (Plain m))),
                   setTaskStatus rn key [(''status'', JStr ''error'')] st)
         | Inr ct \<Rightarrow> map_option (\<lambda>(r, st'). (r, cleanup_container ct st')) (waitAndFinalizeRun rn cb key ct st))"

definition step_id :: "run_input \<Rightarrow> runner_state \<Rightarrow> string" where
  "step_id inp st = itoa (int (rs_call_index st)) @ ''-'' @ ri_name inp"

definition effective_key :: "container_runner \<Rightarrow> run_input \<Rightarrow> runner_state \<Rightarrow> string" where
  "effective_key rn inp st =
     (if ri_storage_key inp \<noteq> [] then ri_storage_key inp else taskStorageKey rn (step_id inp st))"

definition task_id_of :: "container_runner \<Rightarrow> run_input \<Rightarrow> runner_state \<Rightarrow> string" where
  "task_id_of rn inp st =
     DeterministicTaskID (rn_sha256 rn) (rn_namespace rn) (rn_run_id rn) (step_id inp st) (ri_name inp)"

definition Run_container ::
  "container_runner \<Rightarrow> container_driver \<Rightarrow> run_input \<Rightarrow> runner_state \<Rightarrow> run_outcome option" where
  "Run_container rn d inp st =
     (case run_deadline (ri_timeout inp) of
        Inl e \<Rightarrow> Some (Inl e, st)
      | Inr deadline \<Rightarrow>
          (case injectSecrets rn inp (effective_key rn inp st) (st\<lparr>rs_call_index := rs_call_index st + 1\<rparr>) of
             (Inl e, st1) \<Rightarrow> Some (Inl e, st1)
           | (Inr inp1, st1) \<Rightarrow>
               start_and_wait rn d deadline (task_id_of rn inp st) (effective_key rn inp st) inp1 st1))"

section \<open>Volumes and agents\<close>

definition CreateVolume :: "container_runner \<Rightarrow> container_driver \<Rightarrow> string \<Rightarrow> int \<Rightarrow> runner_state
    \<Rightarrow> (go_error + volume_result) \<times> runner_state" where
  "CreateVolume rn d name sz st =
     (let track = (\<lambda>v. (Inr v, st\<lparr>rs_volumes := rs_volumes st @ [v]\<rparr>)) in
      case gm_get (rn_preseeded rn) name of
        Some (Some v) \<Rightarrow> track v
      | _ \<Rightarrow> (case dr_create_volume d name sz of
                Inl m \<Rightarrow> (Inl (Wrapped ''could not create volume'' (Plain m)), st)
              | Inr v \<Rightarrow> track v))"

definition CleanupVolumes :: "container_driver \<Rightarrow> runner_state \<Rightarrow> go_error option \<times> runner_state" where
  "CleanupVolumes d st =
     (let errs = List.map_filter (\<lambda>v. dr_cleanup_volume d (vr_name v)) (rs_volumes st) in
      (if errs = [] then None
       else Some (Wrapped (''failed to cleanup '' @ itoa (int (length errs)) @ '' volumes'') (Plain (JoinStr errs [CHR 0x0A]))),
       st\<lparr>rs_volumes := []\<rparr>))"

fun untar :: "tar_entry list \<Rightarrow> string option \<Rightarrow> (string, string) gomap \<Rightarrow> go_error + (string, string) gomap" where
  "untar [] None m = Inr m"
| "untar [] (Some e) m = Inl (Wrapped ''failed to read tar entry'' (Plain e))"
| "untar (t # ts) eof m =
     (if \<not> te_regular t then untar ts eof m
      else (case te_data t of
              Inl e \<Rightarrow> Inl (Wrapped (''failed to read file '' @ go_quote (te_name t) @ '' from tar'') (Plain e))
            | Inr data \<Rightarrow> untar ts eof (gm_set (te_name t) data m)))"

definition ReadFilesFromVolume :: "container_driver \<Rightarrow> string \<Rightarrow> string list \<Rightarrow> go_error + (string, string) gomap" where
  "ReadFilesFromVolume d volumeName filePaths =
     (case dr_read_files d of
        None \<Rightarrow> Inl (Plain (''driver '' @ go_quote (dr_name d) @ '' does not support reading files from volumes''))
      | Some accessor \<Rightarrow>
          (case accessor volumeName filePaths of
             Inl e \<Rightarrow> Inl (Wrapped (''could not read files from volume '' @ go_quote volumeName) (Plain e))
           | Inr (entries, eof) \<Rightarrow> untar entries eof []))"

definition RunAgent :: "container_runner \<Rightarrow> json \<Rightarrow> go_error + json" where
  "RunAgent rn configJSON =
     (case rn_agent rn of
        None \<Rightarrow> Inl (Plain ''agent execution not configured on this runner'')
      | Some f \<Rightarrow> (case f configJSON of Inl m \<Rightarrow> Inl (Plain m) | Inr r \<Rightarrow> Inr r))"

section \<open>The log keeps what was streamed\<close>

lemma joinTaskLogs_append: "joinTaskLogs (xs @ ys) stream = joinTaskLogs xs stream @ joinTaskLogs ys stream"
  by (simp add: joinTaskLogs_def)

lemma joinTaskLogs_simps [simp]:
  "joinTaskLogs [] stream = []"
  "joinTaskLogs ((t, c) # logs) stream = (if t = stream then c @ joinTaskLogs logs stream else joinTaskLogs logs stream)"
  by (simp_all add: joinTaskLogs_def)

lemma joinTaskLogs_AppendLogEntry:
  "joinTaskLogs (AppendLogEntry logs stream data) t = joinTaskLogs logs t @ (if t = stream then data else [])"
proof (cases "logs = []")
  case False
  then have "joinTaskLogs logs t = joinTaskLogs (butlast logs) t @ joinTaskLogs [last logs] t"
    by (metis append_butlast_last_id joinTaskLogs_append)
  then show ?thesis
    by (cases "last logs") (auto simp: AppendLogEntry_def joinTaskLogs_append)
qed (simp add: AppendLogEntry_def)

definition condensed :: "(string \<times> string) list \<Rightarrow> bool" where
  "condensed logs \<longleftrightarrow> distinct_adj (map fst logs) \<and> (\<forall>e \<in> set logs. snd e \<noteq> [])"

lemma condensed_AppendLogEntry: "condensed logs \<Longrightarrow> condensed (AppendLogEntry logs stream data)"
  by (cases logs rule: rev_cases) (auto simp: condensed_def AppendLogEntry_def distinct_adj_append_iff)

fun chunks_of :: "string \<Rightarrow> stream_event list \<Rightarrow> string" where
  "chunks_of stream [] = []"
| "chunks_of stream (Chunk t data # evs) = (if t = stream then data else []) @ chunks_of stream evs"
| "chunks_of stream (Tick # evs) = chunks_of stream evs"

lemma stream_events_simps [simp]:
  "stream_events rn cb key sa [] p = p"
  "stream_events rn cb key sa (e # evs) p = stream_events rn cb key sa evs (on_event rn cb key sa e p)"
  by (simp_all add: stream_events_def)

lemma stream_events_log:
  assumes "stream_events rn cb key sa evs p = p'"
  shows "ss_stdout (fst p') = ss_stdout (fst p) @ chunks_of ''stdout'' evs"
    and "ss_stderr (fst p') = ss_stderr (fst p) @ chunks_of ''stderr'' evs"
    and "joinTaskLogs (ss_logs (fst p')) t = joinTaskLogs (ss_logs (fst p)) t @ chunks_of t evs"
    and "condensed (ss_logs (fst p)) \<Longrightarrow> condensed (ss_logs (fst p'))"
proof -
  have "ss_stdout (fst p') = ss_stdout (fst p) @ chunks_of ''stdout'' evs \<and>
      ss_stderr (fst p') = ss_stderr (fst p) @ chunks_of ''stderr'' evs \<and>
      joinTaskLogs (ss_logs (fst p')) t = joinTaskLogs (ss_logs (fst p)) t @ chunks_of t evs \<and>
      (condensed (ss_logs (fst p)) \<longrightarrow> condensed (ss_logs (fst p')))"
    using assms
  proof (induction evs arbitrary: p)
    case (Cons e evs)
    from Cons.IH [of "on_event rn cb key sa e p"] Cons.prems show ?case
      by (cases p; cases e) (simp_all add: joinTaskLogs_AppendLogEntry condensed_AppendLogEntry)
  qed simp
  then show "ss_stdout (fst p') = ss_stdout (fst p) @ chunks_of ''stdout'' evs"
    "ss_stderr (fst p') = ss_stderr (fst p) @ chunks_of ''stderr'' evs"
    "joinTaskLogs (ss_logs (fst p')) t = joinTaskLogs (ss_logs (fst p)) t @ chunks_of t evs"
    "condensed (ss_logs (fst p)) \<Longrightarrow> condensed (ss_logs (fst p'))" by auto
qed

section \<open>What the steps of a run leave alone\<close>

text \<open>Only secrets, starts and clean-ups matter to the properties; the rest writes rows and calls back.\<close>

definition ledger :: "runner_state \<Rightarrow> string list \<times> container_task list \<times> string list \<times> nat" where
  "ledger st = (rs_secret_values st, rs_started st, rs_cleaned st, rs_call_index st)"

lemma ledger_setTaskStatus [simp]: "ledger (setTaskStatus rn key row st) = ledger st"
  by (simp add: ledger_def setTaskStatus_def)

lemma ledger_call_back [simp]: "ledger (call_back cb stream data st) = ledger st"
  by (simp add: ledger_def call_back_def split: option.splits)

lemma ledger_stream_events [simp]: "ledger (snd (stream_events rn cb key sa evs p)) = ledger (snd p)"
proof (induction evs arbitrary: p)
  case (Cons e evs)
  have "ledger (snd (on_event rn cb key sa e p)) = ledger (snd p)"
    by (cases p; cases e) simp_all
  with Cons show ?case by simp
qed simp

lemma ledger_emitMissingOutput [simp]: "ledger (snd (emitMissingOutput cb s f stream p)) = ledger (snd p)"
  by (simp add: emitMissingOutput_def split: option.splits)

lemma ledger_eqD:
  assumes "ledger st = ledger st'"
  shows "rs_secret_values st = rs_secret_values st'" "rs_started st = rs_started st'"
    "rs_cleaned st = rs_cleaned st'" "rs_call_index st = rs_call_index st'"
  using assms by (simp_all add: ledger_def)

lemmas frames [simp] =
  ledger_setTaskStatus [THEN ledger_eqD(1)] ledger_setTaskStatus [THEN ledger_eqD(2)] ledger_setTaskStatus [THEN ledger_eqD(3)]
  ledger_call_back [THEN ledger_eqD(1)] ledger_call_back [THEN ledger_eqD(2)] ledger_call_back [THEN ledger_eqD(3)]
  ledger_stream_events [THEN ledger_eqD(1)] ledger_stream_events [THEN ledger_eqD(2)] ledger_stream_events [THEN ledger_eqD(3)]
  ledger_emitMissingOutput [THEN ledger_eqD(1)] ledger_emitMissingOutput [THEN ledger_eqD(2)]
  ledger_emitMissingOutput [THEN ledger_eqD(3)]

section \<open>Polling\<close>

lemma poll_from_reaches:
  assumes "poll_from answer n = Some r"
  shows "\<exists>m\<ge>n. answer m \<noteq> Poll_running \<and> r = (case answer m of Poll_done c \<Rightarrow> Inr c | Poll_error e \<Rightarrow> Inl e)"
  using assms
proof (induction rule: poll_from.raw_induct [rotated 1, consumes 1, case_names step])
  case (step poll answer n r)
  show ?case
  proof (cases "answer n")
    case Poll_running
    with step(2) have "poll answer (n + 1) = Some r" by simp
    then obtain m where "m \<ge> n + 1" "answer m \<noteq> Poll_running"
      "r = (case answer m of Poll_done c \<Rightarrow> Inr c | Poll_error e \<Rightarrow> Inl e)"
      using step(1) by blast
    then show ?thesis by (intro exI [of _ m]) simp
  qed (use step(2) in \<open>auto intro!: exI [of _ n]\<close>)
qed

lemma poll_from_reached:
  assumes "answer (n + k) \<noteq> Poll_running"
  shows "\<exists>r. poll_from answer n = Some r"
  using assms
proof (induction k arbitrary: n)
  case 0
  then show ?case by (subst poll_from.simps) (auto split: poll_result.splits)
next
  case (Suc k)
  then have "\<exists>r. poll_from answer (n + 1) = Some r" by simp
  then show ?case by (subst poll_from.simps) (auto split: poll_result.splits)
qed

lemma poll_from_returns: "(\<exists>r. poll_from answer 0 = Some r) \<longleftrightarrow> (\<exists>m. answer m \<noteq> Poll_running)"
  using poll_from_reaches [of answer 0] poll_from_reached [of answer 0] by auto

lemma poll_from_exit:
  assumes "poll_from answer 0 = Some (Inr code)"
  shows "\<exists>m. answer m = Poll_done code"
proof -
  obtain m where "answer m \<noteq> Poll_running" "Inr code = (case answer m of Poll_done c \<Rightarrow> Inr c | Poll_error e \<Rightarrow> Inl e)"
    using poll_from_reaches [OF assms] by blast
  then have "answer m = Poll_done code" by (cases "answer m") simp_all
  then show ?thesis ..
qed

section \<open>The secrets of a run\<close>

lemma load_each_gets:
  assumes "load_each get pid ks m = Inr m'"
  shows "(k \<in> set ks \<longrightarrow> (\<exists>val. lookup_secret get pid k = Inr val \<and> gm_get m' k = Some val)) \<and>
    (k \<notin> set ks \<longrightarrow> gm_get m' k = gm_get m k)"
  using assms
proof (induction ks arbitrary: m)
  case (Cons x ks)
  then obtain val where val: "lookup_secret get pid x = Inr val" and rest: "load_each get pid ks (gm_set x val m) = Inr m'"
    by (auto simp: ebind_def split: sum.splits)
  from Cons.IH [OF rest] val show ?case by auto
qed simp

lemma injectSecrets_holds:
  assumes "injectSecrets rn inp key st = (Inr inp1, st1)"
    and "rn_secrets rn = Some get" and "ri_env inp = Some env" and "(k, v) \<in> set env" and "HasPrefix v ''secret:''"
  shows "\<exists>val. lookup_secret get (rn_pipeline_id rn) (TrimPrefix v ''secret:'') = Inr val \<and> val \<in> set (rs_secret_values st1)"
proof -
  let ?key = "TrimPrefix v ''secret:''"
  have mem: "?key \<in> set (secret_keys env)"
    using assms(4,5) by (force simp: secret_keys_def)
  then have "secret_keys env \<noteq> []" by auto
  with assms(1-3) obtain sm where sm: "load_each get (rn_pipeline_id rn) (secret_keys env) [] = Inr sm"
    and st1: "st1 = st\<lparr>rs_secret_values := rs_secret_values st @ used_secrets sm env\<rparr>"
    by (auto simp: injectSecrets_def loadSecrets_def split: sum.splits)
  from load_each_gets [OF sm, of ?key] mem obtain val
    where "lookup_secret get (rn_pipeline_id rn) ?key = Inr val" and got: "gm_get sm ?key = Some val" by auto
  moreover have "val \<in> set (used_secrets sm env)"
    using assms(4,5) got by (force simp: used_secrets_def List.map_filter_def)
  ultimately show ?thesis using st1 by auto
qed

lemma injectSecrets_ledger:
  "injectSecrets rn inp key st = (r, st1) \<Longrightarrow>
     rs_started st1 = rs_started st \<and> rs_cleaned st1 = rs_cleaned st"
  by (auto simp: injectSecrets_def setTaskStatus_def split: option.splits sum.splits if_splits)

section \<open>Ends of a run\<close>

text \<open>The end of the streams before the final output is asked for.\<close>

definition streamed :: "container_runner \<Rightarrow> nat option \<Rightarrow> string \<Rightarrow> container \<Rightarrow> runner_state \<Rightarrow> stream_state \<times> runner_state" where
  "streamed rn cb key ct st =
     stream_events rn cb key (ct_started_at ct) (ct_late ct)
       (stream_events rn cb key (ct_started_at ct) (ct_events ct)
         (\<lparr>ss_logs = [], ss_stdout = [], ss_stderr = []\<rparr>, setTaskStatus rn key (running_row (ct_started_at ct) []) st))"

lemma ledger_streamed [simp]: "ledger (snd (streamed rn cb key ct st)) = ledger st"
  by (simp add: streamed_def)

lemma buildFinalResult_frame [simp]:
  "rs_started (snd (buildFinalResult rn ct code a b c d logs key st)) = rs_started st"
  "rs_cleaned (snd (buildFinalResult rn ct code a b c d logs key st)) = rs_cleaned st"
  by (simp_all add: buildFinalResult_def Let_def)

lemma after_poll_error_frame [simp]:
  "rs_started (snd (after_poll_error rn cb key ct e p)) = rs_started (snd p)"
  "rs_cleaned (snd (after_poll_error rn cb key ct e p)) = rs_cleaned (snd p)"
  by (simp_all add: after_poll_error_def Let_def split: call_error.splits)

lemma after_exit_frame [simp]:
  "rs_started (snd (after_exit rn cb key ct code p)) = rs_started (snd p)"
  "rs_cleaned (snd (after_exit rn cb key ct code p)) = rs_cleaned (snd p)"
  by (simp_all add: after_exit_def Let_def case_prod_unfold split: sum.splits call_error.splits)

lemma waitAndFinalizeRun_frame:
  assumes "waitAndFinalizeRun rn cb key ct st = Some out"
  shows "rs_started (snd out) = rs_started st \<and> rs_cleaned (snd out) = rs_cleaned st"
  using assms by (auto simp: waitAndFinalizeRun_def Let_def split: option.splits sum.splits)

section \<open>Properties\<close>

lemma start_and_wait_ledger:
  assumes "start_and_wait rn d deadline taskID key inp st = Some (r, st')"
  shows "\<exists>task. rs_started st' = rs_started st @ [task] \<and>
    rs_cleaned st' = rs_cleaned st @
      (case dr_run_container d (length (rs_started st)) deadline task of Inl _ \<Rightarrow> [] | Inr ct \<Rightarrow> [ct_id ct])"
proof -
  define task where "task = task_of_input taskID inp"
  define cb where "cb = (case ri_on_output inp of None \<Rightarrow> rn_output_callback rn | Some f \<Rightarrow> Some f)"
  show ?thesis
  proof (cases "dr_run_container d (length (rs_started st)) deadline task")
    case (Inl e)
    with assms show ?thesis
      by (cases e) (auto simp: start_and_wait_def run_container_def task_def)
  next
    case (Inr ct)
    let ?st1 = "(setTaskStatus rn key [(''status'', JStr ''pending'')] st)
      \<lparr>rs_started := rs_started st @ [task]\<rparr>"
    from assms Inr obtain out where wait: "waitAndFinalizeRun rn cb key ct ?st1 = Some out"
      and st': "st' = cleanup_container ct (snd out)"
      by (auto simp: start_and_wait_def run_container_def task_def cb_def)
    from waitAndFinalizeRun_frame [OF wait] Inr st' show ?thesis
      by (intro exI [of _ task]) (simp add: cleanup_container_def)
  qed
qed

text \<open>C20. A run starts at most one container and cleans up every container it has started, exactly once, however the
  run ends: when the process exits, on a timeout or cancellation, and on every error of the driver. Without a start
  there is an error.\<close>

theorem containers_cleaned_up:
  assumes "Run_container rn d inp st = Some (r, st')"
  shows "(rs_started st' = rs_started st \<and> rs_cleaned st' = rs_cleaned st \<and> (\<exists>e. r = Inl e)) \<or>
    (\<exists>deadline task. rs_started st' = rs_started st @ [task] \<and>
       rs_cleaned st' = rs_cleaned st @
         (case dr_run_container d (length (rs_started st)) deadline task of Inl _ \<Rightarrow> [] | Inr ct \<Rightarrow> [ct_id ct]))"
proof (cases "run_deadline (ri_timeout inp)")
  case (Inr deadline)
  let ?st0 = "st\<lparr>rs_call_index := rs_call_index st + 1\<rparr>"
  obtain q st1 where inj: "injectSecrets rn inp (effective_key rn inp st) ?st0 = (q, st1)" by fastforce
  note kept = injectSecrets_ledger [OF inj]
  show ?thesis
  proof (cases q)
    case (Inl e)
    with assms Inr inj kept show ?thesis by (auto simp: Run_container_def)
  next
    case (Inr inp1)
    with assms \<open>run_deadline (ri_timeout inp) = Inr deadline\<close> inj
    obtain taskID where "start_and_wait rn d deadline taskID (effective_key rn inp st) inp1 st1 = Some (r, st')"
      by (auto simp: Run_container_def)
    from start_and_wait_ledger [OF this] kept show ?thesis by auto
  qed
qed (use assms in \<open>auto simp: Run_container_def\<close>)

text \<open>A run returns if every container it can start is one day no longer running: the polling loop is the only place
  where it can wait for ever.\<close>

theorem Run_container_returns:
  assumes "\<And>n deadline task ct. dr_run_container d n deadline task = Inr ct \<Longrightarrow> \<exists>i. ct_status ct i \<noteq> Poll_running"
  shows "\<exists>out. Run_container rn d inp st = Some out"
proof -
  have wait: "\<exists>out. waitAndFinalizeRun rn cb key ct st0 = Some out" if "\<exists>i. ct_status ct i \<noteq> Poll_running" for cb key ct st0
    using that poll_from_returns [of "ct_status ct"]
    by (fastforce simp: waitAndFinalizeRun_def Let_def split: sum.splits)
  have start: "\<exists>out. start_and_wait rn d deadline taskID key inp1 st1 = Some out" for deadline taskID key inp1 st1
    using wait assms by (fastforce simp: start_and_wait_def run_container_def Let_def split: sum.splits call_error.splits)
  show ?thesis
    using start by (auto simp: Run_container_def split: sum.splits prod.splits)
qed

lemma after_exit_result:
  assumes "ct_logs ct = Inr (so, se)"
  shows "\<exists>st'. after_exit rn cb key ct code p =
    (Inr \<lparr>res_code = code,
       res_stderr = RedactSecrets (preferCompleteOutput (ss_stderr (fst p) @ chunks_of ''stderr'' (ct_late ct)) se) (rs_secret_values (snd p)),
       res_stdout = RedactSecrets (preferCompleteOutput (ss_stdout (fst p) @ chunks_of ''stdout'' (ct_late ct)) so) (rs_secret_values (snd p)),
       res_status = RunComplete\<rparr>, st')"
  using assms stream_events_log(1,2) [OF refl, of rn cb key "ct_started_at ct" "ct_late ct" p]
  by (simp add: after_exit_def Let_def case_prod_unfold buildFinalResult_def)

text \<open>What a run returns: when the process exits and its final output can be read, the result has the exit code and,
  for each stream, the longer of what was streamed (chunks that arrive after the last poll included) and the final
  output, with the secrets of the runner replaced.\<close>

lemma Run_container_result:
  assumes "run_deadline (ri_timeout inp) = Inr deadline"
    and "injectSecrets rn inp (effective_key rn inp st) (st\<lparr>rs_call_index := rs_call_index st + 1\<rparr>) = (Inr inp1, st1)"
    and "dr_run_container d (length (rs_started st)) deadline (task_of_input (task_id_of rn inp st) inp1) = Inr ct"
    and "poll_from (ct_status ct) 0 = Some (Inr code)" and "ct_logs ct = Inr (finalStdout, finalStderr)"
  shows "\<exists>st'. Run_container rn d inp st = Some (Inr \<lparr>res_code = code,
    res_stderr = RedactSecrets (preferCompleteOutput (chunks_of ''stderr'' (ct_events ct @ ct_late ct)) finalStderr) (rs_secret_values st1),
    res_stdout = RedactSecrets (preferCompleteOutput (chunks_of ''stdout'' (ct_events ct @ ct_late ct)) finalStdout) (rs_secret_values st1),
    res_status = RunComplete\<rparr>, st')"
proof -
  have chunks: "chunks_of t (xs @ ys) = chunks_of t xs @ chunks_of t ys" for t xs ys
    by (induction t xs rule: chunks_of.induct) simp_all
  have started: "rs_started st1 = rs_started st" using injectSecrets_ledger [OF assms(2)] by simp
  let ?key = "effective_key rn inp st"
  let ?cb = "case ri_on_output inp1 of None \<Rightarrow> rn_output_callback rn | Some f \<Rightarrow> Some f"
  let ?st2 = "(setTaskStatus rn ?key [(''status'', JStr ''pending'')] st1)
    \<lparr>rs_started := rs_started st1 @ [task_of_input (task_id_of rn inp st) inp1]\<rparr>"
  define p where "p = stream_events rn ?cb ?key (ct_started_at ct) (ct_events ct)
    (\<lparr>ss_logs = [], ss_stdout = [], ss_stderr = []\<rparr>, setTaskStatus rn ?key (running_row (ct_started_at ct) []) ?st2)"
  have p: "ss_stdout (fst p) = chunks_of ''stdout'' (ct_events ct)" "ss_stderr (fst p) = chunks_of ''stderr'' (ct_events ct)"
    "rs_secret_values (snd p) = rs_secret_values st1"
    using stream_events_log(1,2) [OF p_def [symmetric]] by (simp_all add: p_def)
  have "waitAndFinalizeRun rn ?cb ?key ct ?st2 = Some (after_exit rn ?cb ?key ct code p)"
    using assms(4) by (simp add: waitAndFinalizeRun_def p_def)
  with after_exit_result [OF assms(5), of rn ?cb ?key code p] show ?thesis
    using assms(1-3) started by (auto simp: Run_container_def start_and_wait_def run_container_def p chunks)
qed

text \<open>A completed run went through \<open>buildFinalResult\<close> with the secrets it had injected.\<close>

lemma after_exit_complete:
  assumes "after_exit rn cb key ct code p = (Inr res, st')" and "res_status res = RunComplete"
  shows "\<exists>a b c d logs st1. rs_secret_values st1 = rs_secret_values (snd p) \<and>
    buildFinalResult rn ct code a b c d logs key st1 = (res, st')"
proof -
  obtain so se where logs: "ct_logs ct = Inr (so, se)"
    using assms by (cases "ct_logs ct") (auto simp: after_exit_def Let_def aborted_result_def split: call_error.splits)
  define p1 where "p1 = stream_events rn cb key (ct_started_at ct) (ct_late ct) p"
  define q where "q = emitMissingOutput cb (ss_stderr (fst p1)) se ''stderr'' (emitMissingOutput cb (ss_stdout (fst p1)) so ''stdout'' p1)"
  have "buildFinalResult rn ct code (ss_stdout (fst p1)) (ss_stderr (fst p1)) so se (ss_logs (fst q)) key (snd q) = (res, st')"
    using assms(1) logs by (auto simp: after_exit_def Let_def case_prod_unfold p1_def q_def prod_eq_iff)
  moreover have "rs_secret_values (snd q) = rs_secret_values (snd p)" by (simp add: q_def p1_def)
  ultimately show ?thesis by blast
qed

lemma waitAndFinalizeRun_complete:
  assumes "waitAndFinalizeRun rn cb key ct st = Some (Inr res, st')" and "res_status res = RunComplete"
  shows "\<exists>code a b c d logs st1. rs_secret_values st1 = rs_secret_values st \<and>
    buildFinalResult rn ct code a b c d logs key st1 = (res, st')"
proof -
  define p where "p = stream_events rn cb key (ct_started_at ct) (ct_events ct)
    (\<lparr>ss_logs = [], ss_stdout = [], ss_stderr = []\<rparr>, setTaskStatus rn key (running_row (ct_started_at ct) []) st)"
  have "fst (after_poll_error rn cb key ct e p) \<noteq> Inr res" for e
    using assms(2) by (cases e) (auto simp: after_poll_error_def Let_def aborted_result_def)
  with assms(1) obtain code where "after_exit rn cb key ct code p = (Inr res, st')"
    by (auto simp: waitAndFinalizeRun_def p_def [symmetric] prod_eq_iff split: option.splits sum.splits)
  from after_exit_complete [OF this assms(2)] show ?thesis by (fastforce simp: p_def)
qed

lemma Run_container_complete:
  assumes "Run_container rn d inp st = Some (Inr res, st')" and "res_status res = RunComplete"
  shows "\<exists>inp1 st1 ct code a b c e logs st2 st3.
    injectSecrets rn inp (effective_key rn inp st) (st\<lparr>rs_call_index := rs_call_index st + 1\<rparr>) = (Inr inp1, st1) \<and>
    rs_secret_values st2 = rs_secret_values st1 \<and>
    buildFinalResult rn ct code a b c e logs (effective_key rn inp st) st2 = (res, st3) \<and> st' = cleanup_container ct st3"
proof -
  let ?key = "effective_key rn inp st"
  obtain deadline taskID inp1 st1 where inj: "injectSecrets rn inp ?key (st\<lparr>rs_call_index := rs_call_index st + 1\<rparr>) = (Inr inp1, st1)"
    and run: "start_and_wait rn d deadline taskID ?key inp1 st1 = Some (Inr res, st')"
    using assms(1) by (auto simp: Run_container_def split: sum.splits prod.splits)
  define task where "task = task_of_input taskID inp1"
  define cb where "cb = (case ri_on_output inp1 of None \<Rightarrow> rn_output_callback rn | Some f \<Rightarrow> Some f)"
  define st2 where "st2 = (setTaskStatus rn ?key [(''status'', JStr ''pending'')] st1)\<lparr>rs_started := rs_started st1 @ [task]\<rparr>"
  obtain ct where ct: "dr_run_container d (length (rs_started st1)) deadline task = Inr ct"
    using run assms(2) by (cases "dr_run_container d (length (rs_started st1)) deadline task")
      (auto simp: start_and_wait_def run_container_def task_def [symmetric] aborted_result_def split: call_error.splits)
  then obtain st3 where wait: "waitAndFinalizeRun rn cb ?key ct st2 = Some (Inr res, st3)" and st': "st' = cleanup_container ct st3"
    using run by (auto simp: start_and_wait_def run_container_def task_def [symmetric] cb_def [symmetric] st2_def)
  have "rs_secret_values st2 = rs_secret_values st1" by (simp add: st2_def)
  with waitAndFinalizeRun_complete [OF wait assms(2)] inj st' show ?thesis by metis
qed

text \<open>A member of a row that is not an object is read back as it was written.\<close>

lemma stored_member:
  assumes "gm_wf ps" and "gm_get ps k = Some v" and "v \<noteq> JNull" and "\<forall>m. v \<noteq> JObj m"
  shows "\<exists>row. store_Get namespace key (store_Set namespace key (JObj ps) db) = Inr (JObj row) \<and> gm_get row k = Some v"
proof -
  have "json_patch t v = v" for t using assms(3,4) by (cases v) auto
  with assms show ?thesis
    by (auto simp: store_Get_lookup kv.get_put gm_get_patch_members split: option.splits)
qed

lemma reconciled_logs_clean:
  assumes "apart RedactedPlaceholder s" and "s \<in> set vs" and "\<not> Contains out s" and "\<not> Contains err s"
    and "(t, c) \<in> set (reconcileTaskLogs (redact_logs vs logs) out err)"
  shows "\<not> Contains c s"
  using assms RedactSecrets_removes [OF assms(1,2)]
  by (auto simp: reconcileTaskLogs_def buildTaskLogs_def redact_logs_def split: if_splits)

definition silent_store :: "container_runner \<Rightarrow> bool" where
  "silent_store rn \<longleftrightarrow> (\<forall>i. \<not> rn_set_fails rn i)"

lemma buildFinalResult_clean:
  assumes "buildFinalResult rn ct code a b c e logs key st = (res, st')"
    and "apart RedactedPlaceholder s" and "s \<in> set (rs_secret_values st)" and "silent_store rn" and "key \<noteq> []"
  shows "\<not> Contains (res_stdout res) s \<and> \<not> Contains (res_stderr res) s \<and>
    (\<exists>row logs'. store_Get (rn_store_namespace rn) key (rs_store st') = Inr (JObj row) \<and>
       gm_get row ''logs'' = Some (logs_json logs') \<and> (\<forall>(t, c) \<in> set logs'. \<not> Contains c s))"
proof -
  let ?vs = "rs_secret_values st"
  define out where "out = RedactSecrets (preferCompleteOutput a c) ?vs"
  define err where "err = RedactSecrets (preferCompleteOutput b e) ?vs"
  define logs' where "logs' = reconcileTaskLogs (redact_logs ?vs logs) out err"
  have clean: "\<not> Contains out s" "\<not> Contains err s"
    using RedactSecrets_removes [OF assms(2,3)] by (simp_all add: out_def err_def)
  have res: "res_stdout res = out" "res_stderr res = err"
    using assms(1) by (auto simp: buildFinalResult_def Let_def out_def err_def)
  define ps where "ps = [(''status'', JStr (if code \<noteq> 0 then ''failure'' else ''success'')), (''code'', JNum code),
    (''logs'', logs_json logs'), (''started_at'', JStr (ct_started_at ct)), (''elapsed'', JStr (formatElapsed (ct_elapsed ct)))]"
  have "rs_store st' = store_Set (rn_store_namespace rn) key (JObj ps) (rs_store st)"
    using assms(1,4,5)
    by (auto simp: buildFinalResult_def Let_def setTaskStatus_def silent_store_def ps_def logs'_def out_def err_def)
  moreover have "gm_wf ps" "gm_get ps ''logs'' = Some (logs_json logs')"
    by (simp_all add: ps_def gm_wf_def gm_get_def)
  ultimately have "\<exists>row. store_Get (rn_store_namespace rn) key (rs_store st') = Inr (JObj row) \<and>
      gm_get row ''logs'' = Some (logs_json logs')"
    using stored_member [of ps "''logs''" "logs_json logs'"] by (simp add: logs_json_def)
  moreover have "\<forall>(t, c) \<in> set logs'. \<not> Contains c s"
    using reconciled_logs_clean [OF assms(2,3) clean] by (auto simp: logs'_def)
  ultimately show ?thesis using clean res by blast
qed


definition outcome_status :: "go_error + container_result \<Rightarrow> string" where
  "outcome_status r =
     (case r of
        Inl _ \<Rightarrow> ''error''
      | Inr res \<Rightarrow> if res_status res = RunAbort then ''abort'' else if res_code res \<noteq> 0 then ''failure'' else ''success'')"

definition recorded :: "container_runner \<Rightarrow> string \<Rightarrow> runner_state \<Rightarrow> json option" where
  "recorded rn key st =
     (case store_Get (rn_store_namespace rn) key (rs_store st) of Inr (JObj row) \<Rightarrow> gm_get row ''status'' | _ \<Rightarrow> None)"

lemma recorded_setTaskStatus:
  assumes "silent_store rn" and "key \<noteq> []" and "''status'' \<notin> fst ` set rest"
    and "gm_wf ((''status'', JStr status) # rest)"
  shows "recorded rn key (setTaskStatus rn key ((''status'', JStr status) # rest) st) = Some (JStr status)"
proof -
  have "gm_get ((''status'', JStr status) # rest) ''status'' = Some (JStr status)" by (simp add: gm_get_def)
  from stored_member [OF assms(4) this] obtain row
    where "store_Get (rn_store_namespace rn) key
        (store_Set (rn_store_namespace rn) key (JObj ((''status'', JStr status) # rest)) (rs_store st)) = Inr (JObj row)"
      "gm_get row ''status'' = Some (JStr status)" by blast
  with assms(1,2) show ?thesis by (simp add: recorded_def setTaskStatus_def silent_store_def)
qed

lemma recorded_rows:
  assumes "silent_store rn" and "key \<noteq> []"
  shows "recorded rn key (setTaskStatus rn key [(''status'', JStr x)] st) = Some (JStr x)"
    and "recorded rn key (setTaskStatus rn key [(''status'', JStr x), (''logs'', l)] st) = Some (JStr x)"
    and "recorded rn key (setTaskStatus rn key (timed_row x ct []) st) = Some (JStr x)"
    and "recorded rn key (setTaskStatus rn key (timed_row x ct [(''logs'', l)]) st) = Some (JStr x)"
    and "recorded rn key (setTaskStatus rn key
      [(''status'', JStr x), (''code'', c), (''logs'', l), (''started_at'', a), (''elapsed'', e)] st) = Some (JStr x)"
  unfolding timed_row_def append.simps
  by (rule recorded_setTaskStatus [OF assms]; simp add: gm_wf_def)+

lemma recorded_cong: "rs_store st = rs_store st' \<Longrightarrow> recorded rn key st = recorded rn key st'"
  by (simp add: recorded_def)

lemma stream_events_no_tick:
  "Tick \<notin> set evs \<Longrightarrow> rs_store (snd (stream_events rn cb key sa evs p)) = rs_store (snd p)"
proof (induction evs arbitrary: p)
  case (Cons e evs)
  then show ?case
    by (cases p; cases e) (auto simp: call_back_def split: option.splits)
qed simp

lemma recorded_after_poll_error:
  assumes "silent_store rn" and "key \<noteq> []" and "Tick \<notin> set (ct_late ct)"
  shows "recorded rn key (snd (after_poll_error rn cb key ct e p)) =
    Some (JStr (outcome_status (fst (after_poll_error rn cb key ct e p))))"
proof -
  have "recorded rn key (snd (stream_events rn cb key sa (ct_late ct) (ss, setTaskStatus rn key (timed_row x ct []) st))) =
      Some (JStr x)" for sa ss x st
    using recorded_rows(3) [OF assms(1,2), of x ct st] stream_events_no_tick [OF assms(3)]
    by (simp add: recorded_def)
  then show ?thesis
    by (cases e) (auto simp: after_poll_error_def Let_def outcome_status_def aborted_result_def)
qed

lemma recorded_after_exit:
  assumes "silent_store rn" and "key \<noteq> []"
  shows "recorded rn key (snd (after_exit rn cb key ct code p)) =
    Some (JStr (outcome_status (fst (after_exit rn cb key ct code p))))"
  using recorded_rows [OF assms]
  by (cases "ct_logs ct")
    (auto simp: after_exit_def Let_def case_prod_unfold buildFinalResult_def outcome_status_def aborted_result_def
      split: call_error.splits)

lemma recorded_start_and_wait:
  assumes "start_and_wait rn d deadline taskID key inp st = Some (r, st')" and "silent_store rn" and "key \<noteq> []"
    and "\<And>n deadline task ct. dr_run_container d n deadline task = Inr ct \<Longrightarrow> Tick \<notin> set (ct_late ct)"
  shows "recorded rn key st' = Some (JStr (outcome_status r))"
proof (cases "dr_run_container d (length (rs_started st)) deadline (task_of_input taskID inp)")
  case (Inl e)
  with assms(1) recorded_rows(1) [OF assms(2,3)] show ?thesis
    by (cases e) (auto simp: start_and_wait_def run_container_def outcome_status_def aborted_result_def)
next
  case (Inr ct)
  have kept: "recorded rn key (cleanup_container ct st2) = recorded rn key st2" for st2
    by (simp add: cleanup_container_def recorded_def)
  have "recorded rn key (snd out) = Some (JStr (outcome_status (fst out)))"
    if "waitAndFinalizeRun rn cb key ct st1 = Some out" for cb st1 out
    using that
    by (auto simp: waitAndFinalizeRun_def Let_def recorded_after_poll_error [OF assms(2,3) assms(4) [OF Inr]]
        recorded_after_exit [OF assms(2,3)] split: option.splits sum.splits)
  with assms(1) Inr kept show ?thesis
    by (fastforce simp: start_and_wait_def run_container_def Let_def)
qed

text \<open>The row of a task ends with the status that its run returned: \<open>success\<close> and \<open>failure\<close> by the exit code,
  \<open>abort\<close> for a timeout or a cancellation, \<open>error\<close> for every other failure, from the secrets to the final log. The one
  exception is a tick of the progress writer between the row of a failed poll and the end of the streams.\<close>

theorem recorded_status_is_outcome:
  assumes "Run_container rn d inp st = Some (r, st')" and "run_deadline (ri_timeout inp) = Inr deadline"
    and "silent_store rn" and "effective_key rn inp st \<noteq> []"
    and "\<And>n deadline task ct. dr_run_container d n deadline task = Inr ct \<Longrightarrow> Tick \<notin> set (ct_late ct)"
  shows "recorded rn (effective_key rn inp st) st' = Some (JStr (outcome_status r))"
proof -
  let ?key = "effective_key rn inp st"
  obtain q st1 where inj: "injectSecrets rn inp ?key (st\<lparr>rs_call_index := rs_call_index st + 1\<rparr>) = (q, st1)" by fastforce
  show ?thesis
  proof (cases q)
    case (Inl e)
    then have "recorded rn ?key st1 = Some (JStr ''error'')"
      using inj recorded_rows(2) [OF assms(3,4)]
      by (auto simp: injectSecrets_def split: option.splits sum.splits if_splits)
    with assms(1,2) inj Inl show ?thesis by (auto simp: Run_container_def outcome_status_def)
  next
    case (Inr inp1)
    with assms(1,2) inj obtain taskID where "start_and_wait rn d deadline taskID ?key inp1 st1 = Some (r, st')"
      by (auto simp: Run_container_def)
    from recorded_start_and_wait [OF this assms(3-5)] show ?thesis .
  qed
qed

section \<open>Samples\<close>

definition sample_limits :: container_limit where
  "sample_limits = \<lparr>cl_cpu = 0, cl_cpu_kind = [], cl_memory = 0\<rparr>"

definition sample_input :: "string \<Rightarrow> string \<Rightarrow> run_input" where
  "sample_input name v =
     \<lparr>ri_path = ''sh'', ri_args = [], ri_user = [], ri_limits = sample_limits, ri_env = Some [(''T'', v)], ri_image = ''alpine'',
      ri_mounts = [], ri_name = name, ri_privileged = False, ri_stdin = [], ri_work_dir = [], ri_on_output = None,
      ri_timeout = [], ri_storage_key = []\<rparr>"

definition sample_container :: "stream_event list \<Rightarrow> stream_event list \<Rightarrow> poll_result \<Rightarrow> string \<Rightarrow> container" where
  "sample_container evs late ending out =
     \<lparr>ct_id = ''c1'', ct_status = (\<lambda>n. if n = 0 then Poll_running else ending), ct_events = evs, ct_late = late,
      ct_logs = Inr (out, []), ct_started_at = ''t0'', ct_elapsed = 1500000000\<rparr>"

definition sample_container_driver :: "container \<Rightarrow> container_driver" where
  "sample_container_driver ct =
     \<lparr>dr_name = ''sample'', dr_run_container = (\<lambda>_ _ _. Inr ct), dr_get_container = (\<lambda>_. Inl ErrContainerNotFound),
      dr_create_volume = (\<lambda>n _. Inr \<lparr>vr_name = n, vr_path = n\<rparr>), dr_cleanup_volume = (\<lambda>_. None), dr_read_files = None\<rparr>"

definition sample_secrets :: "string \<Rightarrow> string \<Rightarrow> secret_result" where
  "sample_secrets scope key =
     (if key = ''token'' then Secret ''hunter2'' else if key = ''other'' then Secret ''s3cret''
      else if key = ''webhook_secret'' then Secret ''w'' else SecretNotFound)"

definition sample_container_runner :: container_runner where
  "sample_container_runner =
     \<lparr>rn_namespace = ''ci'', rn_store_namespace = ''ns'', rn_run_id = ''r1'', rn_secrets = Some sample_secrets,
      rn_pipeline_id = ''p'', rn_preseeded = [], rn_output_callback = None, rn_agent = None, rn_set_fails = (\<lambda>_. False),
      rn_sha256 = id\<rparr>"

definition fresh_state :: runner_state where
  "fresh_state =
     \<lparr>rs_call_index = 0, rs_volumes = [], rs_secret_values = [], rs_store = empty_db, rs_sets = 0, rs_output = [],
      rs_started = [], rs_cleaned = []\<rparr>"

lemmas sample_run_defs = sample_limits_def sample_input_def sample_container_def sample_container_driver_def
  sample_secrets_def sample_container_runner_def fresh_state_def

lemma hunter2_apart: "apart RedactedPlaceholder ''hunter2''"
  by (rule apart_disjoint) (simp_all add: RedactedPlaceholder_def)

lemma poll_sample: "poll_from (\<lambda>n. if n = 0 then Poll_running else ending) 0 =
    (case ending of Poll_done c \<Rightarrow> Some (Inr c) | Poll_error e \<Rightarrow> Some (Inl e) | Poll_running \<Rightarrow> poll_from (\<lambda>n. if n = 0 then Poll_running else ending) 2)"
  by (subst poll_from.simps, simp, subst poll_from.simps, simp add: numeral_2_eq_2 split: poll_result.splits)

lemma sample_injects:
  "injectSecrets sample_container_runner (sample_input name ''secret:token'') key st =
     (Inr (sample_input name ''hunter2''), st\<lparr>rs_secret_values := rs_secret_values st @ [''hunter2'']\<rparr>)"
  by (simp add: sample_run_defs injectSecrets_def secret_keys_def loadSecrets_def lookup_secret_def ebind_def
      used_secrets_def substitute_secret_def TrimPrefix_def HasPrefix_def gm_get_def gm_set_def List.map_filter_def)

definition chatty :: "stream_event list \<Rightarrow> poll_result \<Rightarrow> container_driver" where
  "chatty late ending =
     sample_container_driver (sample_container [Chunk ''stdout'' ''T=hunter2'', Tick] late ending ''T=hunter2'')"

lemma chatty_container:
  "dr_run_container (chatty late ending) n deadline task =
     Inr (sample_container [Chunk ''stdout'' ''T=hunter2'', Tick] late ending ''T=hunter2'')"
  by (simp add: chatty_def sample_container_driver_def)

lemma redacted_sample: "RedactSecrets ''T=hunter2'' [''hunter2''] = ''T=***REDACTED***''"
  by (simp add: RedactSecrets_each redaction_values_def redact_each_def HasPrefix_def RedactedPlaceholder_def)

lemma sample_runner_simps [simp]:
  "rn_secrets sample_container_runner = Some sample_secrets" "rn_pipeline_id sample_container_runner = ''p''"
  "silent_store sample_container_runner" "rn_store_namespace sample_container_runner = ''ns''"
  "run_deadline (ri_timeout (sample_input name v)) = Inr None" "ri_env (sample_input name v) = Some [(''T'', v)]"
  "effective_key sample_container_runner (sample_input name v) st \<noteq> []"
  "lookup_secret sample_secrets ''p'' ''token'' = Inr ''hunter2''"
  by (simp_all add: sample_run_defs silent_store_def run_deadline_def effective_key_def taskStorageKey_def lookup_secret_def)

lemma sample_completes:
  "\<exists>st'. Run_container sample_container_runner (chatty [] (Poll_done 0)) (sample_input ''build'' ''secret:token'') fresh_state =
     Some (Inr \<lparr>res_code = 0, res_stderr = [], res_stdout = ''T=***REDACTED***'', res_status = RunComplete\<rparr>, st')"
proof -
  let ?st1 = "fresh_state\<lparr>rs_call_index := 1, rs_secret_values := [''hunter2'']\<rparr>"
  have inj: "injectSecrets sample_container_runner (sample_input ''build'' ''secret:token'')
      (effective_key sample_container_runner (sample_input ''build'' ''secret:token'') fresh_state)
      (fresh_state\<lparr>rs_call_index := rs_call_index fresh_state + 1\<rparr>) = (Inr (sample_input ''build'' ''hunter2''), ?st1)"
    by (simp add: sample_injects) (simp add: fresh_state_def)
  have "poll_from (ct_status (sample_container [Chunk ''stdout'' ''T=hunter2'', Tick] [] (Poll_done 0) ''T=hunter2'')) 0 = Some (Inr 0)"
    by (simp add: sample_container_def poll_sample)
  from Run_container_result [OF _ inj chatty_container this, of None "''T=hunter2''" "[]"] show ?thesis
    by (simp add: sample_container_def preferCompleteOutput_def redacted_sample)
qed

theorem containers_cleaned_up_witness:
  "\<exists>r st'. Run_container sample_container_runner (chatty [] (Poll_done 0)) (sample_input ''build'' ''secret:token'') fresh_state =
     Some (r, st') \<and> rs_cleaned st' = [''c1'']"
proof -
  obtain res st' where run: "Run_container sample_container_runner (chatty [] (Poll_done 0))
      (sample_input ''build'' ''secret:token'') fresh_state = Some (Inr res, st')"
    using sample_completes by blast
  from containers_cleaned_up [OF run] have "rs_cleaned st' = [''c1'']"
    by (auto simp: chatty_container sample_container_def fresh_state_def)
  with run show ?thesis by blast
qed

theorem Run_container_returns_witness:
  "\<exists>out. Run_container sample_container_runner (chatty [] (Poll_done 3)) (sample_input ''build'' ''secret:token'') fresh_state = Some out"
  by (rule Run_container_returns)
    (auto simp: chatty_container sample_container_def intro!: exI [of _ "1 :: nat"])


theorem recorded_status_is_outcome_witness:
  "\<exists>r st'. Run_container sample_container_runner (chatty [] (Poll_done 0)) (sample_input ''build'' ''secret:token'') fresh_state =
       Some (r, st') \<and>
     recorded sample_container_runner
       (effective_key sample_container_runner (sample_input ''build'' ''secret:token'') fresh_state) st' = Some (JStr ''success'')"
proof -
  obtain st' where run: "Run_container sample_container_runner (chatty [] (Poll_done 0))
      (sample_input ''build'' ''secret:token'') fresh_state =
      Some (Inr \<lparr>res_code = 0, res_stderr = [], res_stdout = ''T=***REDACTED***'', res_status = RunComplete\<rparr>, st')"
    using sample_completes by blast
  have "Tick \<notin> set (ct_late ct)" if "dr_run_container (chatty [] (Poll_done 0)) n deadline task = Inr ct" for n deadline task ct
    using that by (auto simp: chatty_container sample_container_def)
  from recorded_status_is_outcome [OF run _ _ _ this, of None] run show ?thesis
    by (simp add: outcome_status_def)
qed

section \<open>What goes wrong\<close>

text \<open>A row keeps the members that a later write does not mention.\<close>

lemma kept_member:
  assumes "store_Get namespace key db = Inr (JObj row)" and "gm_wf ps" and "gm_get ps k = None"
  shows "\<exists>row'. store_Get namespace key (store_Set namespace key (JObj ps) db) = Inr (JObj row') \<and> gm_get row' k = gm_get row k"
  using assms by (auto simp: store_Get_lookup kv.get_put gm_get_patch_members split: option.splits)

text \<open>The snapshots of a running task are not redacted, and the row of a task that is stopped by a timeout or a
  cancellation does not replace its log: the secret stays in the store.\<close>

lemma aborted_log_keeps_secret:
  "\<exists>st' row. Run_container sample_container_runner (chatty [] (Poll_error ContextDone)) (sample_input ''build'' ''secret:token'') fresh_state =
       Some (Inr aborted_result, st') \<and>
     store_Get ''ns'' (effective_key sample_container_runner (sample_input ''build'' ''secret:token'') fresh_state) (rs_store st') =
       Inr (JObj row) \<and>
     gm_get row ''logs'' = Some (logs_json [(''stdout'', ''T=hunter2'')])"
proof -
  let ?rn = sample_container_runner let ?inp = "sample_input ''build'' ''secret:token''"
  let ?ct = "sample_container [Chunk ''stdout'' ''T=hunter2'', Tick] [] (Poll_error ContextDone) ''T=hunter2''"
  define key where "key = effective_key ?rn ?inp fresh_state"
  have key: "key \<noteq> []" by (simp add: key_def)
  define inj where "inj = fresh_state\<lparr>rs_call_index := 1, rs_secret_values := [''hunter2'']\<rparr>"
  have injected: "injectSecrets ?rn ?inp key (fresh_state\<lparr>rs_call_index := rs_call_index fresh_state + 1\<rparr>)
      = (Inr (sample_input ''build'' ''hunter2''), inj)"
    by (simp add: sample_injects inj_def) (simp add: fresh_state_def)
  have no_callback: "rn_output_callback ?rn = None" "ri_on_output (sample_input name v) = None" for name v
    by (simp_all add: sample_run_defs)
  have ct: "ct_events ?ct = [Chunk ''stdout'' ''T=hunter2'', Tick]" "ct_late ?ct = []" "ct_started_at ?ct = ''t0''"
    "poll_from (ct_status ?ct) 0 = Some (Inl ContextDone)"
    by (simp_all add: sample_container_def poll_sample)
  have one: "AppendLogEntry [] ''stdout'' ''T=hunter2'' = [(''stdout'', ''T=hunter2'')]" by (simp add: AppendLogEntry_def)
  define st1 where "st1 = setTaskStatus ?rn key (running_row ''t0'' [])
    ((setTaskStatus ?rn key [(''status'', JStr ''pending'')] inj)
       \<lparr>rs_started := rs_started inj @ [task_of_input (task_id_of ?rn ?inp fresh_state) (sample_input ''build'' ''hunter2'')]\<rparr>)"
  define st2 where "st2 = setTaskStatus ?rn key (running_row ''t0'' [(''logs'', logs_json [(''stdout'', ''T=hunter2'')])]) st1"
  define st3 where "st3 = setTaskStatus ?rn key (timed_row ''abort'' ?ct []) st2"
  have "Run_container ?rn (chatty [] (Poll_error ContextDone)) ?inp fresh_state = Some (Inr aborted_result, cleanup_container ?ct st3)"
    using injected
    by (simp add: Run_container_def key_def [symmetric] start_and_wait_def run_container_def chatty_container no_callback
        waitAndFinalizeRun_def ct call_back_def one after_poll_error_def st1_def st2_def st3_def)
  moreover obtain row where "store_Get ''ns'' key (rs_store st2) = Inr (JObj row)"
    "gm_get row ''logs'' = Some (logs_json [(''stdout'', ''T=hunter2'')])"
    using stored_member [of "running_row ''t0'' [(''logs'', logs_json [(''stdout'', ''T=hunter2'')])]" "''logs''" _ "''ns''" key "rs_store st1"]
      key by (auto simp: st2_def setTaskStatus_def sample_container_runner_def running_row_def gm_wf_def gm_get_def logs_json_def)
  then have "\<exists>row. store_Get ''ns'' key (rs_store st3) = Inr (JObj row) \<and>
      gm_get row ''logs'' = Some (logs_json [(''stdout'', ''T=hunter2'')])"
    using kept_member [of "''ns''" key "rs_store st2" row "timed_row ''abort'' ?ct []" "''logs''"] key
    by (simp add: st3_def setTaskStatus_def sample_container_runner_def timed_row_def gm_wf_def gm_get_def)
  ultimately show ?thesis by (auto simp: key_def cleanup_container_def)
qed

text \<open>The secrets are kept per runner, not per task: the first task that completes empties the list, and the output of
  a task that runs beside it is returned as it is.\<close>

lemma second_result_unredacted:
  "res_stdout (fst (buildFinalResult rn ct code stdout stderr so se logs key
     (snd (buildFinalResult rn ct' code' stdout' stderr' so' se' logs' key' st)))) = preferCompleteOutput stdout so"
  by (simp add: buildFinalResult_def Let_def)

text \<open>\<open>loadSecrets\<close> does not refuse the keys that are reserved for the system; \<open>ResolveSecretString\<close> does.\<close>

lemma system_key_resolves:
  "lookup_secret sample_secrets ''p'' ''webhook_secret'' = Inr ''w'' \<and>
   (\<exists>e. ResolveSecretString (Some sample_secrets) ''p'' ''secret:webhook_secret'' = Inl e)"
  by (simp add: lookup_secret_def sample_secrets_def ResolveSecretString_def HasPrefix_def TrimPrefix_def SecretPrefix_def
      IsSystemKey_def)

text \<open>A tick of the progress writer after the row of a failed poll leaves the task as running for good.\<close>

lemma late_tick_overwrites:
  assumes "silent_store rn" and "key \<noteq> []" and "ct_late ct = [Tick]" and "ss_logs ss \<noteq> []"
  shows "fst (after_poll_error rn cb key ct ContextDone (ss, st)) = Inr aborted_result \<and>
    recorded rn key (snd (after_poll_error rn cb key ct ContextDone (ss, st))) = Some (JStr ''running'')"
  using assms recorded_setTaskStatus [OF assms(1,2), of "[(''started_at'', s), (''logs'', l)]" "''running''" for s l]
  by (simp add: after_poll_error_def running_row_def gm_wf_def)

end
