(* ===== verification/Resumable.thy ===== *)
theory Resumable
  imports Container_Runner "HOL-Library.Monad_Syntax"
begin

text \<open>
  Resumable runs, \<open>runtime/runner/state.go\<close> and \<open>runtime/runner/resumable.go\<close>: the persisted state of a run's steps, its
  JSON, loading and saving it over the task store, and the \<open>Run\<close>, \<open>RunAgent\<close> and \<open>CreateVolume\<close> of \<open>ResumableRunner\<close>.
  The Go code keeps pointers to the step records in the map; a step is here changed under its key. Times are the
  strings the clock printed. The inner \<open>PipelineRunner\<close> is the record \<open>runner_state\<close>, whose driver, store and log of
  containers the resumable runner shares.
\<close>

section \<open>State\<close>

abbreviation StepStatusPending :: string where "StepStatusPending \<equiv> ''pending''"
abbreviation StepStatusRunning :: string where "StepStatusRunning \<equiv> ''running''"
abbreviation StepStatusCompleted :: string where "StepStatusCompleted \<equiv> ''completed''"
abbreviation StepStatusFailed :: string where "StepStatusFailed \<equiv> ''failed''"
abbreviation StepStatusAborted :: string where "StepStatusAborted \<equiv> ''aborted''"
abbreviation StepKindRun :: string where "StepKindRun \<equiv> ''run''"
abbreviation StepKindAgent :: string where "StepKindAgent \<equiv> ''agent''"

record step_state =
  stp_id :: string
  stp_name :: string
  stp_kind :: string
  stp_status :: string
  stp_container_id :: string
  stp_task_id :: string
  stp_started_at :: "string option"
  stp_completed_at :: "string option"
  stp_exit_code :: "int option"
  stp_result :: "container_result option"
  stp_agent_result :: "json option"
  stp_error :: string

definition step_IsTerminal :: "step_state \<Rightarrow> bool" where
  "step_IsTerminal s \<longleftrightarrow> stp_status s \<in> {StepStatusCompleted, StepStatusFailed, StepStatusAborted}"

definition IsResumable :: "step_state \<Rightarrow> bool" where
  "IsResumable s \<longleftrightarrow> stp_status s = StepStatusRunning \<and> stp_container_id s \<noteq> []"

definition CanSkip :: "step_state \<Rightarrow> bool" where
  "CanSkip s \<longleftrightarrow> stp_status s = StepStatusCompleted \<and>
     (if stp_kind s = StepKindAgent then stp_agent_result s \<noteq> None else stp_result s \<noteq> None)"

definition ShouldRetry :: "step_state \<Rightarrow> bool" where
  "ShouldRetry s \<longleftrightarrow> stp_status s = StepStatusFailed \<or> stp_status s = StepStatusAborted"

definition MarkForRetry :: "step_state \<Rightarrow> step_state" where
  "MarkForRetry s =
     s\<lparr>stp_status := StepStatusPending, stp_error := [], stp_result := None, stp_agent_result := None,
       stp_exit_code := None, stp_completed_at := None, stp_container_id := []\<rparr>"

record pipeline_state =
  ps_run_id :: string
  ps_steps :: "(string, step_state) gomap"
  ps_step_order :: "string list"
  ps_volumes :: "(string, volume_result) gomap"
  ps_started_at :: "string option"
  ps_completed_at :: "string option"
  ps_resume_enabled :: bool

definition NewPipelineState :: "string \<Rightarrow> string \<Rightarrow> bool \<Rightarrow> pipeline_state" where
  "NewPipelineState now runID resumeEnabled =
     \<lparr>ps_run_id = runID, ps_steps = [], ps_step_order = [], ps_volumes = [], ps_started_at = Some now,
      ps_completed_at = None, ps_resume_enabled = resumeEnabled\<rparr>"

definition GetStep :: "string \<Rightarrow> pipeline_state \<Rightarrow> step_state option" where
  "GetStep stepID p = gm_get (ps_steps p) stepID"

definition SetStep :: "step_state \<Rightarrow> pipeline_state \<Rightarrow> pipeline_state" where
  "SetStep s p =
     p\<lparr>ps_step_order := (if gm_get (ps_steps p) (stp_id s) = None then ps_step_order p @ [stp_id s] else ps_step_order p),
       ps_steps := gm_set (stp_id s) s (ps_steps p)\<rparr>"

text \<open>An assignment through a step pointer.\<close>

definition edit_step :: "string \<Rightarrow> (step_state \<Rightarrow> step_state) \<Rightarrow> pipeline_state \<Rightarrow> pipeline_state" where
  "edit_step stepID f p =
     (case gm_get (ps_steps p) stepID of None \<Rightarrow> p | Some s \<Rightarrow> p\<lparr>ps_steps := gm_set stepID (f s) (ps_steps p)\<rparr>)"

definition LastStep :: "pipeline_state \<Rightarrow> step_state option" where
  "LastStep p = (if ps_step_order p = [] then None else GetStep (last (ps_step_order p)) p)"

text \<open>A step of the order that the map does not hold would be dereferenced as nil: the outer \<open>None\<close> is that panic.\<close>

fun InProgress_in :: "pipeline_state \<Rightarrow> string list \<Rightarrow> step_state list option" where
  "InProgress_in p [] = Some []"
| "InProgress_in p (stepID # ids) =
     (case GetStep stepID p of
        None \<Rightarrow> None
      | Some s \<Rightarrow> map_option (\<lambda>rest. if stp_status s = StepStatusRunning then s # rest else rest) (InProgress_in p ids))"

definition InProgressSteps :: "pipeline_state \<Rightarrow> step_state list option" where
  "InProgressSteps p = InProgress_in p (ps_step_order p)"

section \<open>JSON\<close>

text \<open>\<open>json.Marshal\<close> on the structs: the fields in order, those marked \<open>omitempty\<close> left out when empty.\<close>

definition omit_empty :: "string \<Rightarrow> string \<Rightarrow> (string \<times> json) list" where
  "omit_empty k v = (if v = [] then [] else [(k, JStr v)])"

definition omit_nil :: "string \<Rightarrow> ('a \<Rightarrow> json) \<Rightarrow> 'a option \<Rightarrow> (string \<times> json) list" where
  "omit_nil k f v = (case v of None \<Rightarrow> [] | Some x \<Rightarrow> [(k, f x)])"

definition status_text :: "container_status \<Rightarrow> string" where
  "status_text s = (case s of RunAbort \<Rightarrow> ''abort'' | RunComplete \<Rightarrow> ''complete'')"

definition result_json :: "container_result \<Rightarrow> json" where
  "result_json r =
     JObj [(''code'', JNum (res_code r)), (''stderr'', JStr (res_stderr r)), (''stdout'', JStr (res_stdout r)),
           (''status'', JStr (status_text (res_status r)))]"

definition step_fields_json :: "step_state \<Rightarrow> (string \<times> json) list" where
  "step_fields_json s =
     [(''step_id'', JStr (stp_id s)), (''name'', JStr (stp_name s)), (''kind'', JStr (stp_kind s)), (''status'', JStr (stp_status s))] @
     omit_empty ''container_id'' (stp_container_id s) @ omit_empty ''task_id'' (stp_task_id s) @
     omit_nil ''started_at'' JStr (stp_started_at s) @ omit_nil ''completed_at'' JStr (stp_completed_at s) @
     omit_nil ''exit_code'' JNum (stp_exit_code s) @ omit_nil ''result'' result_json (stp_result s) @
     omit_nil ''agent_result'' id (stp_agent_result s) @ omit_empty ''error'' (stp_error s)"

definition volume_json :: "volume_result \<Rightarrow> json" where
  "volume_json v = JObj [(''name'', JStr (vr_name v)), (''path'', JStr (vr_path v))]"

definition state_fields_json :: "pipeline_state \<Rightarrow> (string \<times> json) list" where
  "state_fields_json p =
     [(''run_id'', JStr (ps_run_id p)),
      (''steps'', JObj (map (\<lambda>(k, s). (k, JObj (step_fields_json s))) (ps_steps p))),
      (''step_order'', JArr (map JStr (ps_step_order p)))] @
     (if ps_volumes p = [] then [] else [(''volumes'', JObj (map (\<lambda>(k, v). (k, volume_json v)) (ps_volumes p)))]) @
     omit_nil ''started_at'' JStr (ps_started_at p) @ omit_nil ''completed_at'' JStr (ps_completed_at p) @
     [(''resume_enabled'', JBool (ps_resume_enabled p))]"

text \<open>\<open>json.Unmarshal\<close>: a missing or null member leaves the zero value, a member of another type is an error (\<open>None\<close>).
  \<open>RunStatus\<close> is a string; only the two that are written are read, and null steps, which are never written, are errors.\<close>

definition dec_str :: "(string, json) gomap \<Rightarrow> string \<Rightarrow> string option" where
  "dec_str m k = (case gm_get m k of None \<Rightarrow> Some [] | Some JNull \<Rightarrow> Some [] | Some (JStr s) \<Rightarrow> Some s | _ \<Rightarrow> None)"

definition dec_bool :: "(string, json) gomap \<Rightarrow> string \<Rightarrow> bool option" where
  "dec_bool m k = (case gm_get m k of None \<Rightarrow> Some False | Some JNull \<Rightarrow> Some False | Some (JBool b) \<Rightarrow> Some b | _ \<Rightarrow> None)"

definition dec_int :: "(string, json) gomap \<Rightarrow> string \<Rightarrow> int option" where
  "dec_int m k = (case gm_get m k of None \<Rightarrow> Some 0 | Some JNull \<Rightarrow> Some 0 | Some (JNum i) \<Rightarrow> Some i | _ \<Rightarrow> None)"

definition dec_ptr :: "(json \<Rightarrow> 'a option) \<Rightarrow> (string, json) gomap \<Rightarrow> string \<Rightarrow> 'a option option" where
  "dec_ptr f m k = (case gm_get m k of None \<Rightarrow> Some None | Some j \<Rightarrow> if j = JNull then Some None else map_option Some (f j))"

definition dec_status :: "string \<Rightarrow> container_status option" where
  "dec_status s = (if s = ''abort'' then Some RunAbort else if s = ''complete'' then Some RunComplete else None)"

definition dec_result :: "json \<Rightarrow> container_result option" where
  "dec_result j = do {
     m \<leftarrow> json_obj j; code \<leftarrow> dec_int m ''code''; err \<leftarrow> dec_str m ''stderr''; out \<leftarrow> dec_str m ''stdout'';
     s \<leftarrow> dec_str m ''status''; st \<leftarrow> dec_status s;
     Some \<lparr>res_code = code, res_stderr = err, res_stdout = out, res_status = st\<rparr> }"

definition dec_step :: "json \<Rightarrow> step_state option" where
  "dec_step j = do {
     m \<leftarrow> json_obj j; i \<leftarrow> dec_str m ''step_id''; n \<leftarrow> dec_str m ''name''; kind \<leftarrow> dec_str m ''kind'';
     status \<leftarrow> dec_str m ''status''; cid \<leftarrow> dec_str m ''container_id''; tid \<leftarrow> dec_str m ''task_id'';
     sa \<leftarrow> dec_ptr json_str m ''started_at''; ca \<leftarrow> dec_ptr json_str m ''completed_at''; ec \<leftarrow> dec_ptr json_int m ''exit_code'';
     r \<leftarrow> dec_ptr dec_result m ''result''; e \<leftarrow> dec_str m ''error'';
     Some \<lparr>stp_id = i, stp_name = n, stp_kind = kind, stp_status = status, stp_container_id = cid, stp_task_id = tid,
       stp_started_at = sa, stp_completed_at = ca, stp_exit_code = ec, stp_result = r,
       stp_agent_result = gm_get m ''agent_result'', stp_error = e\<rparr> }"

definition dec_volume :: "json \<Rightarrow> volume_result option" where
  "dec_volume j = do {
     m \<leftarrow> json_obj j; n \<leftarrow> dec_str m ''name''; p \<leftarrow> dec_str m ''path''; Some \<lparr>vr_name = n, vr_path = p\<rparr> }"

fun dec_list :: "(json \<Rightarrow> 'a option) \<Rightarrow> json list \<Rightarrow> 'a list option" where
  "dec_list f [] = Some []"
| "dec_list f (j # js) = do { x \<leftarrow> f j; xs \<leftarrow> dec_list f js; Some (x # xs) }"

fun dec_members :: "(json \<Rightarrow> 'a option) \<Rightarrow> (string \<times> json) list \<Rightarrow> (string, 'a) gomap option" where
  "dec_members f [] = Some []"
| "dec_members f ((k, j) # m) = do { x \<leftarrow> f j; xs \<leftarrow> dec_members f m; Some ((k, x) # xs) }"

definition dec_map :: "(json \<Rightarrow> 'a option) \<Rightarrow> (string, json) gomap \<Rightarrow> string \<Rightarrow> (string, 'a) gomap option" where
  "dec_map f m k = (case gm_get m k of None \<Rightarrow> Some [] | Some JNull \<Rightarrow> Some [] | Some (JObj n) \<Rightarrow> dec_members f n | _ \<Rightarrow> None)"

definition dec_strs :: "(string, json) gomap \<Rightarrow> string \<Rightarrow> string list option" where
  "dec_strs m k = (case gm_get m k of None \<Rightarrow> Some [] | Some JNull \<Rightarrow> Some [] | Some (JArr js) \<Rightarrow> dec_list json_str js | _ \<Rightarrow> None)"

definition dec_state :: "json \<Rightarrow> pipeline_state option" where
  "dec_state j = do {
     m \<leftarrow> json_obj j; r \<leftarrow> dec_str m ''run_id''; steps \<leftarrow> dec_map dec_step m ''steps''; ord \<leftarrow> dec_strs m ''step_order'';
     vols \<leftarrow> dec_map dec_volume m ''volumes''; sa \<leftarrow> dec_ptr json_str m ''started_at'';
     ca \<leftarrow> dec_ptr json_str m ''completed_at''; b \<leftarrow> dec_bool m ''resume_enabled'';
     Some \<lparr>ps_run_id = r, ps_steps = steps, ps_step_order = ord, ps_volumes = vols, ps_started_at = sa,
       ps_completed_at = ca, ps_resume_enabled = b\<rparr> }"

section \<open>The runner\<close>

text \<open>The clock is read as a function of the number of writes so far.\<close>

record resumable_env =
  re_runner :: container_runner
  re_clock :: "nat \<Rightarrow> string"
  re_unique_id :: string

record resumable_runner =
  rz_state :: pipeline_state
  rz_call_index :: nat
  rz_runner :: runner_state

definition now_of :: "resumable_env \<Rightarrow> resumable_runner \<Rightarrow> string" where
  "now_of re z = re_clock re (rs_sets (rz_runner z))"

definition stateStoragePrefix :: string where
  "stateStoragePrefix = ''_resume/state''"

definition state_key :: "string \<Rightarrow> string" where
  "state_key runID = stateStoragePrefix @ ''/'' @ runID"

text \<open>Every caller only logs the error of \<open>saveState\<close>.\<close>

definition saveState :: "resumable_env \<Rightarrow> resumable_runner \<Rightarrow> resumable_runner" where
  "saveState re z =
     z\<lparr>rz_runner := setTaskStatus (re_runner re) (state_key (ps_run_id (rz_state z))) (state_fields_json (rz_state z)) (rz_runner z)\<rparr>"

text \<open>\<open>loadState\<close>; not finding a state is \<open>Inr None\<close>.\<close>

definition loadState :: "resumable_env \<Rightarrow> string \<Rightarrow> runner_state \<Rightarrow> go_error + pipeline_state option" where
  "loadState re runID st =
     (case store_Get (rn_store_namespace (re_runner re)) (state_key runID) (rs_store st) of
        Inl ErrNotFound \<Rightarrow> Inr None
      | Inl _ \<Rightarrow> Inl (Wrapped ''storage get'' (Plain ''database error''))
      | Inr payload \<Rightarrow>
          (case dec_state payload of
             None \<Rightarrow> Inl (Plain ''could not unmarshal state'')
           | Some p \<Rightarrow> Inr (Some p)))"

definition NewResumableRunner :: "resumable_env \<Rightarrow> string \<Rightarrow> bool \<Rightarrow> runner_state \<Rightarrow> go_error + resumable_runner" where
  "NewResumableRunner re optRunID resume st =
     (let runID = (if optRunID = [] then re_unique_id re else optRunID);
          make = (\<lambda>p. \<lparr>rz_state = p, rz_call_index = 0, rz_runner = st\<rparr>);
          fresh = make (NewPipelineState (re_clock re (rs_sets st)) runID resume)
      in if \<not> resume then Inr fresh
         else (case loadState re runID st of
                 Inl e \<Rightarrow> Inl (Wrapped ''could not load pipeline state'' e)
               | Inr None \<Rightarrow> Inr fresh
               | Inr (Some p) \<Rightarrow> Inr (make p)))"

definition sanitizeName :: "string \<Rightarrow> string" where
  "sanitizeName name = take 32 (map (\<lambda>c. if c = CHR '' '' \<or> c = CHR ''_'' then CHR ''-'' else c) (ToLower name))"

definition findOrGenerateStepID :: "string \<Rightarrow> resumable_runner \<Rightarrow> string \<times> resumable_runner" where
  "findOrGenerateStepID name z =
     (itoa (int (rz_call_index z)) @ ''-'' @ sanitizeName name, z\<lparr>rz_call_index := rz_call_index z + 1\<rparr>)"

definition on_step :: "string \<Rightarrow> (step_state \<Rightarrow> step_state) \<Rightarrow> resumable_runner \<Rightarrow> resumable_runner" where
  "on_step stepID f z = z\<lparr>rz_state := edit_step stepID f (rz_state z)\<rparr>"

definition on_runner :: "(runner_state \<Rightarrow> runner_state) \<Rightarrow> resumable_runner \<Rightarrow> resumable_runner" where
  "on_runner f z = z\<lparr>rz_runner := f (rz_runner z)\<rparr>"

definition fail_step :: "string \<Rightarrow> step_state \<Rightarrow> step_state" where
  "fail_step m s = s\<lparr>stp_status := StepStatusFailed, stp_error := m\<rparr>"

definition abort_step :: "step_state \<Rightarrow> step_state" where
  "abort_step s = s\<lparr>stp_status := StepStatusAborted\<rparr>"

definition complete_step :: "string \<Rightarrow> container_result \<Rightarrow> int option \<Rightarrow> step_state \<Rightarrow> step_state" where
  "complete_step now res code s =
     s\<lparr>stp_completed_at := Some now, stp_status := StepStatusCompleted, stp_result := Some res,
       stp_exit_code := (case code of None \<Rightarrow> stp_exit_code s | Some c \<Rightarrow> Some c)\<rparr>"

section \<open>Running a step\<close>

text \<open>\<open>startStepContainer\<close> passes neither the working directory nor the kind of CPU, and the environment as it is.\<close>

definition step_task :: "string \<Rightarrow> run_input \<Rightarrow> container_task" where
  "step_task taskID inp =
     (task_of_input taskID inp)
       \<lparr>ct_work_dir := [], ct_limits := (ri_limits inp)\<lparr>cl_cpu_kind := []\<rparr>\<rparr>"

type_synonym step_outcome = "(go_error + container_result) \<times> resumable_runner"

definition handleStepContainerError :: "resumable_env \<Rightarrow> string \<Rightarrow> call_error \<Rightarrow> resumable_runner \<Rightarrow> step_outcome" where
  "handleStepContainerError re stepID e z =
     (case e of
        ContextDone \<Rightarrow> (Inr aborted_result, saveState re (on_step stepID abort_step z))
      | CallFailed m \<Rightarrow>
          (Inl (Wrapped ''could not run container'' (Wrapped ''run container'' (Plain m))),
           saveState re (on_step stepID (fail_step (''run container: '' @ m)) z)))"

definition abort_and_clean :: "resumable_env \<Rightarrow> string \<Rightarrow> container \<Rightarrow> resumable_runner \<Rightarrow> step_outcome" where
  "abort_and_clean re stepID ct z =
     (Inr aborted_result, on_runner (cleanup_container ct) (saveState re (on_step stepID abort_step z)))"

definition container_result_of :: "int \<Rightarrow> string \<Rightarrow> string \<Rightarrow> container_result" where
  "container_result_of code out err = \<lparr>res_code = code, res_stderr = err, res_stdout = out, res_status = RunComplete\<rparr>"

definition waitAndCollectStepResult :: "resumable_env \<Rightarrow> string \<Rightarrow> container \<Rightarrow> resumable_runner \<Rightarrow> step_outcome option" where
  "waitAndCollectStepResult re stepID ct z =
     (case poll_from (ct_status ct) 0 of
        None \<Rightarrow> None
      | Some (Inl ContextDone) \<Rightarrow> Some (abort_and_clean re stepID ct z)
      | Some (Inl (CallFailed m)) \<Rightarrow>
          Some (Inl (Wrapped ''could not get container status'' (Wrapped ''container status'' (Plain m))),
                saveState re (on_step stepID (fail_step (''container status: '' @ m)) z))
      | Some (Inr code) \<Rightarrow>
          Some (case ct_logs ct of
                  Inl ContextDone \<Rightarrow> abort_and_clean re stepID ct z
                | Inl (CallFailed m) \<Rightarrow>
                    (Inl (Wrapped ''could not get container logs'' (Plain m)), saveState re (on_step stepID (fail_step m) z))
                | Inr (out, err) \<Rightarrow>
                    (let res = container_result_of code out err in
                     (Inr res, on_step stepID (complete_step (now_of re z) res (if code \<noteq> 0 then Some code else None)) z))))"

text \<open>A result without an error, aborted or not, is saved and its container cleaned up (a second time if it was
  aborted).\<close>

definition finish_step :: "resumable_env \<Rightarrow> container \<Rightarrow> step_outcome \<Rightarrow> step_outcome" where
  "finish_step re ct r =
     (case r of
        (Inl e, z) \<Rightarrow> (Inl e, z)
      | (Inr res, z) \<Rightarrow> (Inr res, on_runner (cleanup_container ct) (saveState re z)))"

definition new_step :: "string \<Rightarrow> string \<Rightarrow> string \<Rightarrow> string \<Rightarrow> string \<Rightarrow> step_state" where
  "new_step stepID name kind taskID now =
     \<lparr>stp_id = stepID, stp_name = name, stp_kind = kind, stp_status = StepStatusRunning, stp_container_id = [],
      stp_task_id = taskID, stp_started_at = Some now, stp_completed_at = None, stp_exit_code = None, stp_result = None,
      stp_agent_result = None, stp_error = []\<rparr>"

definition begin_step :: "resumable_env \<Rightarrow> step_state \<Rightarrow> resumable_runner \<Rightarrow> resumable_runner" where
  "begin_step re s z = saveState re (z\<lparr>rz_state := SetStep s (rz_state z)\<rparr>)"

definition runStep :: "resumable_env \<Rightarrow> container_driver \<Rightarrow> string \<Rightarrow> run_input \<Rightarrow> resumable_runner \<Rightarrow> step_outcome option" where
  "runStep re d stepID inp z =
     (case run_deadline (ri_timeout inp) of
        Inl e \<Rightarrow> Some (Inl e, z)
      | Inr deadline \<Rightarrow>
          (let rn = re_runner re;
               taskID = DeterministicTaskID (rn_sha256 rn) (rn_namespace rn) (ps_run_id (rz_state z)) stepID (ri_name inp);
               z1 = begin_step re (new_step stepID (ri_name inp) StepKindRun taskID (now_of re z)) z;
               (started, st) = run_container d deadline (step_task taskID inp) (rz_runner z1);
               z2 = z1\<lparr>rz_runner := st\<rparr>
           in case started of
                Inl e \<Rightarrow> Some (handleStepContainerError re stepID e z2)
              | Inr ct \<Rightarrow>
                  map_option (finish_step re ct)
                    (waitAndCollectStepResult re stepID ct
                      (saveState re (on_step stepID (\<lambda>s. s\<lparr>stp_container_id := ct_id ct\<rparr>) z2)))))"

definition reattachToContainer :: "resumable_env \<Rightarrow> container_driver \<Rightarrow> step_state \<Rightarrow> resumable_runner \<Rightarrow> step_outcome option" where
  "reattachToContainer re d s z =
     (case dr_get_container d (stp_container_id s) of
        Inl ErrContainerNotFound \<Rightarrow> Some (Inl (Wrapped ''container no longer exists'' (Plain ''container not found'')), z)
      | Inl (GetFailed m) \<Rightarrow> Some (Inl (Wrapped ''could not get container'' (Plain m)), z)
      | Inr ct \<Rightarrow>
          (case poll_from (ct_status ct) 0 of
             None \<Rightarrow> None
           | Some (Inl ContextDone) \<Rightarrow> Some (Inr aborted_result, z)
           | Some (Inl (CallFailed m)) \<Rightarrow> Some (Inl (Wrapped ''could not get container status'' (Plain m)), z)
           | Some (Inr code) \<Rightarrow>
               Some (case ct_logs ct of
                       Inl ContextDone \<Rightarrow> (Inr aborted_result, z)
                     | Inl (CallFailed m) \<Rightarrow> (Inl (Wrapped ''could not get container logs'' (Plain m)), z)
                     | Inr (out, err) \<Rightarrow>
                         (let res = container_result_of code out err in
                          (Inr res, on_runner (cleanup_container ct)
                             (saveState re (on_step (stp_id s) (complete_step (now_of re z) res (Some code)) z)))))))"

definition retry_step :: "resumable_env \<Rightarrow> string \<Rightarrow> resumable_runner \<Rightarrow> resumable_runner" where
  "retry_step re stepID z = saveState re (on_step stepID MarkForRetry z)"

text \<open>\<open>Run\<close>. The cached result of a skipped step is a pointer, nil if the step at this position was an agent. A step that
  was marked for retry is pending and has no container, so it is not reattached.\<close>

type_synonym run_answer = "(go_error + container_result option) \<times> resumable_runner"

definition answer :: "step_outcome \<Rightarrow> run_answer" where
  "answer r = (case r of (Inl e, z) \<Rightarrow> (Inl e, z) | (Inr res, z) \<Rightarrow> (Inr (Some res), z))"

definition Run_resumable :: "resumable_env \<Rightarrow> container_driver \<Rightarrow> run_input \<Rightarrow> resumable_runner \<Rightarrow> run_answer option" where
  "Run_resumable re d inp z0 =
     (let (stepID, z) = findOrGenerateStepID (ri_name inp) z0;
          run_fresh = (\<lambda>z. map_option answer (runStep re d stepID inp z))
      in case GetStep stepID (rz_state z) of
           None \<Rightarrow> run_fresh z
         | Some s \<Rightarrow>
             if CanSkip s then Some (Inr (stp_result s), z)
             else
               (let z1 = (if ShouldRetry s then retry_step re stepID z else z);
                    s1 = (if ShouldRetry s then MarkForRetry s else s)
                in if IsResumable s1 then
                     (case reattachToContainer re d s1 z1 of
                        None \<Rightarrow> None
                      | Some (Inr res, z2) \<Rightarrow> Some (Inr (Some res), z2)
                      | Some (Inl e, z2) \<Rightarrow> run_fresh z2)
                   else run_fresh z1))"

section \<open>Agents, volumes, cancellation\<close>

definition agent_name :: "json \<Rightarrow> string option" where
  "agent_name config =
     (case config of
        JNull \<Rightarrow> Some ''agent''
      | JObj m \<Rightarrow> map_option (\<lambda>n. if n = [] then ''agent'' else n) (dec_str m ''name'')
      | _ \<Rightarrow> None)"

definition run_agent :: "resumable_env \<Rightarrow> json \<Rightarrow> string \<Rightarrow> string \<Rightarrow> resumable_runner \<Rightarrow> (go_error + json option) \<times> resumable_runner" where
  "run_agent re config stepID name z =
     (let z1 = begin_step re (new_step stepID name StepKindAgent [] (now_of re z)) z in
      case RunAgent (re_runner re) config of
        Inl e \<Rightarrow> (Inl e, saveState re (on_step stepID (fail_step (error_text e)) z1))
      | Inr res \<Rightarrow>
          (Inr (Some res),
           saveState re (on_step stepID
             (\<lambda>s. s\<lparr>stp_completed_at := Some (now_of re z1), stp_status := StepStatusCompleted, stp_agent_result := Some res\<rparr>) z1)))"

definition RunAgent_resumable :: "resumable_env \<Rightarrow> json \<Rightarrow> resumable_runner \<Rightarrow> (go_error + json option) \<times> resumable_runner" where
  "RunAgent_resumable re config z0 =
     (case agent_name config of
        None \<Rightarrow> (Inl (Plain ''could not parse agent config name''), z0)
      | Some name \<Rightarrow>
          (let (stepID, z) = findOrGenerateStepID name z0; known = GetStep stepID (rz_state z) in
           case known of
             Some s \<Rightarrow>
               if CanSkip s then (Inr (stp_agent_result s), z)
               else run_agent re config stepID name
                      (if ShouldRetry s \<or> stp_status s = StepStatusRunning then retry_step re stepID z else z)
           | None \<Rightarrow> run_agent re config stepID name z))"

definition CreateVolume_resumable ::
  "resumable_env \<Rightarrow> container_driver \<Rightarrow> string \<Rightarrow> int \<Rightarrow> resumable_runner \<Rightarrow> (go_error + volume_result) \<times> resumable_runner" where
  "CreateVolume_resumable re d name sz z =
     (case CreateVolume (re_runner re) d name sz (rz_runner z) of
        (Inl e, st) \<Rightarrow> (Inl e, z\<lparr>rz_runner := st\<rparr>)
      | (Inr v, st) \<Rightarrow>
          (Inr v, saveState re (z\<lparr>rz_runner := st,
             rz_state := (rz_state z)\<lparr>ps_volumes := gm_set name v (ps_volumes (rz_state z))\<rparr>\<rparr>)))"

definition cancelled :: "step_state \<Rightarrow> step_state" where
  "cancelled s = s\<lparr>stp_status := StepStatusAborted, stp_error := ''context cancelled''\<rparr>"

text \<open>\<open>None\<close> is the panic of \<open>InProgressSteps\<close>.\<close>

definition MarkInProgressAsAborted :: "resumable_env \<Rightarrow> resumable_runner \<Rightarrow> resumable_runner option" where
  "MarkInProgressAsAborted re z =
     map_option (\<lambda>running. saveState re
         (fold (\<lambda>s. on_step (stp_id s) cancelled) running z))
       (InProgressSteps (rz_state z))"

section \<open>Decoding inverts encoding\<close>

lemma gm_get_append: "gm_get (xs @ ys) k = (case gm_get xs k of None \<Rightarrow> gm_get ys k | Some v \<Rightarrow> Some v)"
  by (simp add: gm_get_def map_add_def split: option.splits)

lemma gm_get_pair: "gm_get ((a, v) # m) k = (if a = k then Some v else gm_get m k)"
  by (simp add: gm_get_def)

lemma gm_get_omit [simp]:
  "gm_get (omit_empty k v) k' = (if k = k' \<and> v \<noteq> [] then Some (JStr v) else None)"
  "gm_get (omit_nil k f w) k' = (if k = k' then map_option f w else None)"
  by (simp_all add: omit_empty_def omit_nil_def gm_get_def split: option.splits)

lemma gm_wf_append: "gm_wf (xs @ ys) \<longleftrightarrow> gm_wf xs \<and> gm_wf ys \<and> (\<forall>k \<in> fst ` set xs. k \<notin> fst ` set ys)"
  by (auto simp: gm_wf_def)

lemma gm_wf_Cons: "gm_wf ((k, v) # m) \<longleftrightarrow> gm_wf m \<and> k \<notin> fst ` set m"
  by (auto simp: gm_wf_def)

lemma gm_wf_omit [simp]: "gm_wf (omit_empty k v)" "gm_wf (omit_nil k f w)"
  by (simp_all add: omit_empty_def omit_nil_def gm_wf_def split: option.splits)

lemma keys_omit [simp]:
  "k' \<in> fst ` set (omit_empty k v) \<longleftrightarrow> k' = k \<and> v \<noteq> []" "k' \<in> fst ` set (omit_nil k f w) \<longleftrightarrow> k' = k \<and> w \<noteq> None"
  by (auto simp: omit_empty_def omit_nil_def split: option.splits)

lemma step_fields_wf [simp]: "gm_wf (step_fields_json s)"
  by (simp add: step_fields_json_def gm_wf_append gm_wf_Cons image_Un del: set_map)

lemma state_fields_wf [simp]: "gm_wf (state_fields_json p)"
  by (simp add: state_fields_json_def gm_wf_append gm_wf_Cons image_Un)

text \<open>What each decoder reads from members of the form the encoder writes.\<close>

lemma dec_str_omit: "gm_get m k = (if v = [] then None else Some (JStr v)) \<Longrightarrow> dec_str m k = Some v"
  by (simp add: dec_str_def)

lemma dec_str_JStr: "gm_get m k = Some (JStr v) \<Longrightarrow> dec_str m k = Some v"
  by (simp add: dec_str_def)

lemma dec_ptr_omit:
  assumes "gm_get m k = map_option g w" and "\<And>x. f (g x) = Some x" and "\<And>x. g x \<noteq> JNull"
  shows "dec_ptr f m k = Some w"
  using assms by (cases w) (simp_all add: dec_ptr_def)

lemma dec_status_text [simp]: "dec_status (status_text s) = Some s"
  by (cases s) (simp_all add: dec_status_def status_text_def)

lemma dec_result_json [simp]: "dec_result (result_json r) = Some r"
  by (simp add: dec_result_def result_json_def dec_int_def dec_str_def gm_get_pair)

lemma step_members [simp]:
  "gm_get (step_fields_json s) ''step_id'' = Some (JStr (stp_id s))"
  "gm_get (step_fields_json s) ''name'' = Some (JStr (stp_name s))"
  "gm_get (step_fields_json s) ''kind'' = Some (JStr (stp_kind s))"
  "gm_get (step_fields_json s) ''status'' = Some (JStr (stp_status s))"
  "gm_get (step_fields_json s) ''container_id'' = (if stp_container_id s = [] then None else Some (JStr (stp_container_id s)))"
  "gm_get (step_fields_json s) ''task_id'' = (if stp_task_id s = [] then None else Some (JStr (stp_task_id s)))"
  "gm_get (step_fields_json s) ''started_at'' = map_option JStr (stp_started_at s)"
  "gm_get (step_fields_json s) ''completed_at'' = map_option JStr (stp_completed_at s)"
  "gm_get (step_fields_json s) ''exit_code'' = map_option JNum (stp_exit_code s)"
  "gm_get (step_fields_json s) ''result'' = map_option result_json (stp_result s)"
  "gm_get (step_fields_json s) ''agent_result'' = stp_agent_result s"
  "gm_get (step_fields_json s) ''error'' = (if stp_error s = [] then None else Some (JStr (stp_error s)))"
  by (simp_all add: step_fields_json_def gm_get_append gm_get_pair split: option.splits)

lemma state_members [simp]:
  "gm_get (state_fields_json p) ''run_id'' = Some (JStr (ps_run_id p))"
  "gm_get (state_fields_json p) ''steps'' = Some (JObj (map (\<lambda>(k, s). (k, JObj (step_fields_json s))) (ps_steps p)))"
  "gm_get (state_fields_json p) ''step_order'' = Some (JArr (map JStr (ps_step_order p)))"
  "gm_get (state_fields_json p) ''volumes'' =
     (if ps_volumes p = [] then None else Some (JObj (map (\<lambda>(k, v). (k, volume_json v)) (ps_volumes p))))"
  "gm_get (state_fields_json p) ''started_at'' = map_option JStr (ps_started_at p)"
  "gm_get (state_fields_json p) ''completed_at'' = map_option JStr (ps_completed_at p)"
  "gm_get (state_fields_json p) ''resume_enabled'' = Some (JBool (ps_resume_enabled p))"
  by (simp_all add: state_fields_json_def gm_get_append gm_get_pair gm_get_Nil split: option.splits)

lemma result_json_not_null [simp]: "result_json r \<noteq> JNull"
  by (simp add: result_json_def)

lemmas dec_members_simps =
  dec_str_omit dec_str_JStr dec_ptr_omit [where g = JStr] dec_ptr_omit [where g = JNum]
  dec_ptr_omit [where g = result_json]

lemma dec_step_json [simp]: "dec_step (JObj (step_fields_json s)) = Some s"
  by (simp add: dec_step_def dec_members_simps)

lemma dec_volume_json [simp]: "dec_volume (volume_json v) = Some v"
  by (simp add: dec_volume_def volume_json_def dec_str_def gm_get_pair)

lemma dec_list_strs [simp]: "dec_list json_str (map JStr xs) = Some xs"
  by (induction xs) simp_all

lemma dec_members_map: "(\<And>x. f (g x) = Some x) \<Longrightarrow> dec_members f (map (\<lambda>(k, x). (k, g x)) m) = Some m"
  by (induction m) auto

text \<open>What \<open>json.Unmarshal\<close> reads from the JSON of a run's state is that state, with every step, volume, time,
  exit code, result and error.\<close>

lemma dec_state_fields: "dec_state (JObj (state_fields_json p)) = Some p"
  by (simp add: dec_state_def dec_members_simps dec_map_def dec_strs_def dec_bool_def dec_members_map)

section \<open>Saving over an older state\<close>

text \<open>\<open>Set\<close> merges: a member that the new JSON leaves out keeps its old value. Step by step this is \<open>merge_step\<close>.\<close>

definition patch_agent :: "json option \<Rightarrow> json option \<Rightarrow> json option" where
  "patch_agent old new =
     (case new of
        None \<Rightarrow> old
      | Some j \<Rightarrow> if j = JNull then None else Some (json_patch (case old of None \<Rightarrow> JNull | Some t \<Rightarrow> t) j))"

definition keep_str :: "string \<Rightarrow> string \<Rightarrow> string" where
  "keep_str old new = (if new = [] then old else new)"

definition merge_step :: "step_state \<Rightarrow> step_state \<Rightarrow> step_state" where
  "merge_step old new =
     new\<lparr>stp_container_id := keep_str (stp_container_id old) (stp_container_id new),
       stp_task_id := keep_str (stp_task_id old) (stp_task_id new),
       stp_started_at := coalesce (stp_started_at new) (stp_started_at old),
       stp_completed_at := coalesce (stp_completed_at new) (stp_completed_at old),
       stp_exit_code := coalesce (stp_exit_code new) (stp_exit_code old),
       stp_result := coalesce (stp_result new) (stp_result old),
       stp_agent_result := patch_agent (stp_agent_result old) (stp_agent_result new),
       stp_error := keep_str (stp_error old) (stp_error new)\<rparr>"

definition blank_step :: step_state where
  "blank_step =
     \<lparr>stp_id = [], stp_name = [], stp_kind = [], stp_status = [], stp_container_id = [], stp_task_id = [],
      stp_started_at = None, stp_completed_at = None, stp_exit_code = None, stp_result = None, stp_agent_result = None,
      stp_error = []\<rparr>"

text \<open>\<open>q\<close> is what is read after \<open>b\<close> was saved over \<open>a\<close>.\<close>

definition merged :: "pipeline_state \<Rightarrow> pipeline_state \<Rightarrow> pipeline_state \<Rightarrow> bool" where
  "merged a b q \<longleftrightarrow>
     ps_run_id q = ps_run_id b \<and> ps_step_order q = ps_step_order b \<and> ps_resume_enabled q = ps_resume_enabled b \<and>
     ps_started_at q = coalesce (ps_started_at b) (ps_started_at a) \<and>
     ps_completed_at q = coalesce (ps_completed_at b) (ps_completed_at a) \<and>
     (\<forall>k. GetStep k q = (case GetStep k b of
        None \<Rightarrow> GetStep k a
      | Some s \<Rightarrow> Some (merge_step (case GetStep k a of None \<Rightarrow> blank_step | Some t \<Rightarrow> t) s))) \<and>
     (\<forall>k. gm_get (ps_volumes q) k = coalesce (gm_get (ps_volumes b) k) (gm_get (ps_volumes a) k))"

definition old_member :: "(string, json) gomap \<Rightarrow> string \<Rightarrow> json" where
  "old_member m k = (case gm_get m k of None \<Rightarrow> JNull | Some t \<Rightarrow> t)"

lemma gm_get_patch:
  "gm_wf ps \<Longrightarrow> gm_get (patch_members m ps) k =
     (case gm_get ps k of None \<Rightarrow> gm_get m k | Some v \<Rightarrow> if v = JNull then None else Some (json_patch (old_member m k) v))"
  by (simp add: gm_get_patch_members old_member_def split: option.split)

lemma patch_str:
  assumes "gm_wf ps"
  shows "gm_get ps k = Some (JStr v) \<Longrightarrow> dec_str (patch_members m ps) k = Some v"
    and "gm_get ps k = (if v = [] then None else Some (JStr v)) \<Longrightarrow> dec_str m k = Some old \<Longrightarrow>
      dec_str (patch_members m ps) k = Some (keep_str old v)"
  using assms by (simp_all add: dec_str_def gm_get_patch keep_str_def)

lemma patch_ptr:
  assumes "gm_wf ps" and "gm_get ps k = map_option g w" and "dec_ptr f m k = Some old"
    and "\<And>t x. f (json_patch t (g x)) = Some x \<and> g x \<noteq> JNull \<and> json_patch t (g x) \<noteq> JNull"
  shows "dec_ptr f (patch_members m ps) k = Some (coalesce w old)"
  using assms by (cases w) (auto simp: dec_ptr_def gm_get_patch coalesce_def)

lemma patched_result: "dec_result (json_patch t (result_json r)) = Some r \<and> json_patch t (result_json r) \<noteq> JNull"
proof -
  let ?ps = "[(''code'', JNum (res_code r)), (''stderr'', JStr (res_stderr r)), (''stdout'', JStr (res_stdout r)),
           (''status'', JStr (status_text (res_status r)))]"
  have wf: "gm_wf ?ps" by (simp add: gm_wf_def)
  have "json_patch t (result_json r) = JObj (patch_members (case t of JObj m \<Rightarrow> m | _ \<Rightarrow> []) ?ps)"
    by (simp add: result_json_def del: patch_members.simps)
  then show ?thesis
    by (simp del: patch_members.simps add: dec_result_def dec_int_def dec_str_def gm_get_patch [OF wf] gm_get_pair)
qed

lemma dec_step_patch:
  assumes "dec_step (JObj m) = Some old"
  shows "dec_step (JObj (patch_members m (step_fields_json s))) = Some (merge_step old s)"
proof -
  from assms have old: "dec_str m ''container_id'' = Some (stp_container_id old)" "dec_str m ''task_id'' = Some (stp_task_id old)"
    "dec_ptr json_str m ''started_at'' = Some (stp_started_at old)" "dec_ptr json_str m ''completed_at'' = Some (stp_completed_at old)"
    "dec_ptr json_int m ''exit_code'' = Some (stp_exit_code old)" "dec_ptr dec_result m ''result'' = Some (stp_result old)"
    "dec_str m ''error'' = Some (stp_error old)" "gm_get m ''agent_result'' = stp_agent_result old"
    by (auto simp: dec_step_def bind_eq_Some_conv)
  let ?M = "patch_members m (step_fields_json s)"
  have "dec_str ?M ''step_id'' = Some (stp_id s)" "dec_str ?M ''name'' = Some (stp_name s)"
    "dec_str ?M ''kind'' = Some (stp_kind s)" "dec_str ?M ''status'' = Some (stp_status s)"
    by (simp_all add: patch_str)
  moreover have "dec_str ?M ''container_id'' = Some (keep_str (stp_container_id old) (stp_container_id s))"
    "dec_str ?M ''task_id'' = Some (keep_str (stp_task_id old) (stp_task_id s))"
    "dec_str ?M ''error'' = Some (keep_str (stp_error old) (stp_error s))"
    using old by (auto intro: patch_str(2))
  moreover have "dec_ptr json_str ?M ''started_at'' = Some (coalesce (stp_started_at s) (stp_started_at old))"
    "dec_ptr json_str ?M ''completed_at'' = Some (coalesce (stp_completed_at s) (stp_completed_at old))"
    "dec_ptr json_int ?M ''exit_code'' = Some (coalesce (stp_exit_code s) (stp_exit_code old))"
    using old by (auto intro!: patch_ptr [where g = JStr] patch_ptr [where g = JNum])
  moreover have "dec_ptr dec_result ?M ''result'' = Some (coalesce (stp_result s) (stp_result old))"
    using old patched_result by (auto intro!: patch_ptr [where g = result_json])
  moreover have "gm_get ?M ''agent_result'' = patch_agent (stp_agent_result old) (stp_agent_result s)"
    using old by (simp add: gm_get_patch patch_agent_def old_member_def split: option.splits)
  ultimately show ?thesis
    by (simp add: dec_step_def merge_step_def)
qed

lemma dec_step_blank: "dec_step (JObj []) = Some blank_step"
  by (simp add: dec_step_def dec_str_def dec_ptr_def blank_step_def)

lemma gm_get_map [simp]: "gm_get (map (\<lambda>(k, x). (k, g x)) m) k = map_option g (gm_get m k)"
  by (simp add: gm_get_def map_of_map)

lemma gm_wf_map [simp]: "gm_wf (map (\<lambda>(k, x). (k, g x)) m) = gm_wf m"
  by (simp add: gm_wf_def o_def case_prod_unfold)

lemma gm_wf_patch: "gm_wf m \<Longrightarrow> gm_wf (patch_members m ps)"
proof (induction ps arbitrary: m)
  case (Cons p ps)
  then show ?case by (cases p) (auto simp: gm_wf_def gm_del_def distinct_delete gm_set_def distinct_update)
qed simp

lemma gm_wf_in: "gm_wf m \<Longrightarrow> (k, j) \<in> set m \<Longrightarrow> gm_get m k = Some j"
  by (simp add: gm_wf_def gm_get_def)

lemma dec_members_get: "dec_members f m = Some xs \<Longrightarrow> gm_get xs k = Option.bind (gm_get m k) f"
  by (induction f m arbitrary: xs rule: dec_members.induct) (auto simp: bind_eq_Some_conv gm_get_pair)

lemma dec_members_in: "dec_members f m = Some xs \<Longrightarrow> (k, j) \<in> set m \<Longrightarrow> \<exists>x. f j = Some x"
  by (induction f m arbitrary: xs rule: dec_members.induct) (auto simp: bind_eq_Some_conv)

lemma dec_members_all: "(\<And>k j. (k, j) \<in> set m \<Longrightarrow> \<exists>x. f j = Some x) \<Longrightarrow> \<exists>xs. dec_members f m = Some xs"
proof (induction m)
  case (Cons p m)
  obtain k j where p: "p = (k, j)" by (cases p)
  have "\<exists>xs. dec_members f m = Some xs" by (rule Cons.IH) (meson Cons.prems list.set_intros(2))
  moreover obtain x where "f j = Some x" using Cons.prems [of k j] p by auto
  ultimately show ?case by (auto simp: p)
qed simp

lemma dec_members_patch:
  assumes "gm_wf xs" and "gm_wf m" and "dec_members f m = Some as"
    and patch: "\<And>t x a. f t = Some a \<Longrightarrow> f (json_patch t (enc x)) = Some (mrg a x)"
    and fresh: "\<And>x. f (json_patch JNull (enc x)) = Some (mrg a0 x)"
    and enc: "\<And>x. enc x \<noteq> JNull"
  shows "\<exists>qs. dec_members f (patch_members m (map (\<lambda>(k, x). (k, enc x)) xs)) = Some qs \<and>
    (\<forall>k. gm_get qs k = (case gm_get xs k of None \<Rightarrow> gm_get as k
       | Some x \<Rightarrow> Some (mrg (case gm_get as k of None \<Rightarrow> a0 | Some a \<Rightarrow> a) x)))"
proof -
  let ?M = "patch_members m (map (\<lambda>(k, x). (k, enc x)) xs)"
  have wf: "gm_wf (map (\<lambda>(k, x). (k, enc x)) xs)" using assms(1) by simp
  have as: "gm_get as k = Option.bind (gm_get m k) f" for k by (rule dec_members_get [OF assms(3)])
  have read: "Option.bind (gm_get ?M k) f = (case gm_get xs k of None \<Rightarrow> gm_get as k
       | Some x \<Rightarrow> Some (mrg (case gm_get as k of None \<Rightarrow> a0 | Some a \<Rightarrow> a) x))" for k
  proof (cases "gm_get m k")
    case None
    then show ?thesis using fresh enc by (simp add: gm_get_patch [OF wf] as old_member_def split: option.split)
  next
    case (Some j)
    then obtain a where "f j = Some a"
      using dec_members_in [OF assms(3), of k j] by (auto simp: gm_get_def dest: map_of_SomeD)
    with Some patch enc show ?thesis by (simp add: gm_get_patch [OF wf] as old_member_def split: option.split)
  qed
  have "\<exists>x. f j = Some x" if "(k, j) \<in> set ?M" for k j
  proof -
    have get: "gm_get ?M k = Some j" using gm_wf_in [OF gm_wf_patch [OF assms(2)] that] .
    show ?thesis
    proof (cases "gm_get xs k")
      case None
      with get have "gm_get m k = Some j" by (simp add: gm_get_patch [OF wf])
      then show ?thesis using dec_members_in [OF assms(3), of k j] by (auto simp: gm_get_def dest: map_of_SomeD)
    next
      case (Some x)
      with read [of k] get show ?thesis by simp
    qed
  qed
  then obtain qs where "dec_members f ?M = Some qs" using dec_members_all by meson
  with dec_members_get [OF this] read show ?thesis by auto
qed

lemma coalesce_case: "coalesce x y = (case x of None \<Rightarrow> y | Some v \<Rightarrow> Some v)"
  by (simp add: coalesce_def split: option.split)

definition obj_wf :: "(string, json) gomap \<Rightarrow> string \<Rightarrow> bool" where
  "obj_wf m k \<longleftrightarrow> (case gm_get m k of Some (JObj n) \<Rightarrow> gm_wf n | _ \<Rightarrow> True)"

lemma dec_map_patch:
  assumes "gm_wf ps" and "gm_get ps k = Some (JObj (map (\<lambda>(k, x). (k, enc x)) xs))" and "gm_wf xs"
    and "dec_map f m k = Some as" and "obj_wf m k"
    and "\<And>t x a. f t = Some a \<Longrightarrow> f (json_patch t (enc x)) = Some (mrg a x)"
    and "\<And>x. f (json_patch JNull (enc x)) = Some (mrg a0 x)" and "\<And>x. enc x \<noteq> JNull"
  shows "obj_wf (patch_members m ps) k \<and> (\<exists>qs. dec_map f (patch_members m ps) k = Some qs \<and>
    (\<forall>i. gm_get qs i = (case gm_get xs i of None \<Rightarrow> gm_get as i
       | Some x \<Rightarrow> Some (mrg (case gm_get as i of None \<Rightarrow> a0 | Some a \<Rightarrow> a) x))))"
proof -
  define n where "n = (case old_member m k of JObj n \<Rightarrow> n | _ \<Rightarrow> [])"
  have n: "gm_wf n" "dec_members f n = Some as"
    using assms(4,5) by (auto simp: n_def old_member_def dec_map_def obj_wf_def split: option.splits json.splits)
  have "gm_get (patch_members m ps) k = Some (JObj (patch_members n (map (\<lambda>(k, x). (k, enc x)) xs)))"
    using assms(2) by (simp add: gm_get_patch [OF assms(1)] n_def)
  then show ?thesis
    using dec_members_patch [where enc = enc and mrg = mrg and ?a0.0 = a0, OF assms(3) n assms(6-8)] gm_wf_patch [OF n(1)] by (simp add: obj_wf_def dec_map_def)
qed

section \<open>What is stored\<close>

definition maps_wf :: "pipeline_state \<Rightarrow> bool" where
  "maps_wf p \<longleftrightarrow> gm_wf (ps_steps p) \<and> gm_wf (ps_volumes p)"

definition holds_state :: "resumable_env \<Rightarrow> string \<Rightarrow> runner_state \<Rightarrow> pipeline_state \<Rightarrow> bool" where
  "holds_state re runID st p \<longleftrightarrow>
     (\<exists>m. store_Get (rn_store_namespace (re_runner re)) (state_key runID) (rs_store st) = Inr (JObj m) \<and>
        dec_state (JObj m) = Some p \<and> obj_wf m ''steps'' \<and> obj_wf m ''volumes'')"

lemma loadState_holds: "holds_state re runID st p \<Longrightarrow> loadState re runID st = Inr (Some p)"
  by (auto simp: holds_state_def loadState_def)

lemma dec_step_over:
  "dec_step t = Some a \<Longrightarrow> dec_step (json_patch t (JObj (step_fields_json s))) = Some (merge_step a s)"
  "dec_step (json_patch JNull (JObj (step_fields_json s))) = Some (merge_step blank_step s)"
proof -
  assume "dec_step t = Some a"
  moreover from this obtain m where "t = JObj m" by (cases t) (simp_all add: dec_step_def)
  ultimately show "dec_step (json_patch t (JObj (step_fields_json s))) = Some (merge_step a s)"
    using dec_step_patch by simp
qed (use dec_step_patch [OF dec_step_blank] in simp)

lemma volume_json_not_null [simp]: "volume_json v \<noteq> JNull"
  by (simp add: volume_json_def)

lemma dec_volume_over: "dec_volume (json_patch t (volume_json v)) = Some v"
proof -
  have wf: "gm_wf [(''name'', JStr (vr_name v)), (''path'', JStr (vr_path v))]" by (simp add: gm_wf_def)
  show ?thesis
    by (simp add: volume_json_def dec_volume_def dec_str_def gm_get_patch [OF wf] gm_get_pair del: patch_members.simps)
qed

lemma dec_state_patch:
  assumes "dec_state (JObj m) = Some a" and "obj_wf m ''steps''" and "obj_wf m ''volumes''" and "maps_wf b"
  shows "\<exists>q. dec_state (JObj (patch_members m (state_fields_json b))) = Some q \<and> merged a b q \<and>
    obj_wf (patch_members m (state_fields_json b)) ''steps'' \<and> obj_wf (patch_members m (state_fields_json b)) ''volumes''"
proof -
  let ?M = "patch_members m (state_fields_json b)"
  from assms(1) have a: "dec_map dec_step m ''steps'' = Some (ps_steps a)" "dec_map dec_volume m ''volumes'' = Some (ps_volumes a)"
    "dec_ptr json_str m ''started_at'' = Some (ps_started_at a)" "dec_ptr json_str m ''completed_at'' = Some (ps_completed_at a)"
    by (auto simp: dec_state_def bind_eq_Some_conv)
  obtain steps where steps: "dec_map dec_step ?M ''steps'' = Some steps"
    "\<And>k. gm_get steps k = (case gm_get (ps_steps b) k of None \<Rightarrow> gm_get (ps_steps a) k
       | Some s \<Rightarrow> Some (merge_step (case gm_get (ps_steps a) k of None \<Rightarrow> blank_step | Some t \<Rightarrow> t) s))"
    and wf_steps: "obj_wf ?M ''steps''"
  proof -
    note patched = dec_map_patch [where enc = "\<lambda>s. JObj (step_fields_json s)" and mrg = merge_step and ?a0.0 = blank_step and f = dec_step,
        OF state_fields_wf state_members(2) _ a(1) assms(2)]
    have "obj_wf ?M ''steps'' \<and> (\<exists>qs. dec_map dec_step ?M ''steps'' = Some qs \<and>
      (\<forall>k. gm_get qs k = (case gm_get (ps_steps b) k of None \<Rightarrow> gm_get (ps_steps a) k
        | Some s \<Rightarrow> Some (merge_step (case gm_get (ps_steps a) k of None \<Rightarrow> blank_step | Some t \<Rightarrow> t) s))))"
      by (rule patched) (use assms(4) in \<open>simp_all add: maps_wf_def dec_step_over del: json_patch.simps\<close>)
    then show ?thesis by (auto intro: that)
  qed
  obtain vols where vols: "dec_map dec_volume ?M ''volumes'' = Some vols"
    "\<And>k. gm_get vols k = coalesce (gm_get (ps_volumes b) k) (gm_get (ps_volumes a) k)"
    and wf_vols: "obj_wf ?M ''volumes''"
  proof (cases "ps_volumes b = []")
    case True
    then have "gm_get ?M ''volumes'' = gm_get m ''volumes''" by (simp add: gm_get_patch)
    with a(2) assms(3) True show ?thesis by (intro that) (simp_all add: dec_map_def obj_wf_def coalesce_def)
  next
    case False
    then have "gm_get (state_fields_json b) ''volumes'' = Some (JObj (map (\<lambda>(k, v). (k, volume_json v)) (ps_volumes b)))" by simp
    note patched = dec_map_patch [where enc = volume_json and mrg = "\<lambda>_ v. v" and f = dec_volume, OF state_fields_wf this _ a(2) assms(3)]
    have "obj_wf ?M ''volumes'' \<and> (\<exists>qs. dec_map dec_volume ?M ''volumes'' = Some qs \<and>
      (\<forall>k. gm_get qs k = (case gm_get (ps_volumes b) k of None \<Rightarrow> gm_get (ps_volumes a) k | Some x \<Rightarrow> Some x)))"
      by (rule patched) (use assms(4) in \<open>simp_all add: maps_wf_def dec_volume_over\<close>)
    then obtain qs where "obj_wf ?M ''volumes''" "dec_map dec_volume ?M ''volumes'' = Some qs"
      "\<And>k. gm_get qs k = coalesce (gm_get (ps_volumes b) k) (gm_get (ps_volumes a) k)"
      by (auto simp: coalesce_case)
    then show ?thesis by (intro that)
  qed
  have "dec_str ?M ''run_id'' = Some (ps_run_id b)" by (rule patch_str(1)) simp_all
  moreover have "dec_strs ?M ''step_order'' = Some (ps_step_order b)" "dec_bool ?M ''resume_enabled'' = Some (ps_resume_enabled b)"
    by (simp_all add: dec_strs_def dec_bool_def gm_get_patch)
  moreover have "dec_ptr json_str ?M ''started_at'' = Some (coalesce (ps_started_at b) (ps_started_at a))"
    "dec_ptr json_str ?M ''completed_at'' = Some (coalesce (ps_completed_at b) (ps_completed_at a))"
    using a by (auto intro!: patch_ptr [where g = JStr])
  ultimately show ?thesis
    using steps vols wf_steps wf_vols by (simp add: dec_state_def merged_def GetStep_def cong: option.case_cong)
qed

section \<open>The step invariant\<close>

text \<open>The order lists every step once, and a step is kept under its own id.\<close>

definition steps_ok :: "pipeline_state \<Rightarrow> bool" where
  "steps_ok p \<longleftrightarrow> maps_wf p \<and> distinct (ps_step_order p) \<and> (\<forall>k. k \<in> set (ps_step_order p) \<longleftrightarrow> GetStep k p \<noteq> None) \<and>
     (\<forall>k s. GetStep k p = Some s \<longrightarrow> stp_id s = k)"

lemma GetStep_SetStep [simp]: "GetStep k (SetStep s p) = (if k = stp_id s then Some s else GetStep k p)"
  by (simp add: GetStep_def SetStep_def)

lemma GetStep_edit_step [simp]:
  "GetStep k (edit_step i f p) = (if k = i then map_option f (GetStep i p) else GetStep k p)"
  by (simp add: GetStep_def edit_step_def split: option.splits)

lemma SetStep_ok: "steps_ok p \<Longrightarrow> steps_ok (SetStep s p)"
  by (auto simp: steps_ok_def maps_wf_def SetStep_def GetStep_def)

lemma edit_step_ok: "steps_ok p \<Longrightarrow> (\<And>s. stp_id (f s) = stp_id s) \<Longrightarrow> steps_ok (edit_step i f p)"
  by (auto simp: steps_ok_def maps_wf_def edit_step_def GetStep_def split: option.splits)

lemma keeps_id [simp]:
  "stp_id (MarkForRetry s) = stp_id s" "stp_id (fail_step m s) = stp_id s" "stp_id (abort_step s) = stp_id s"
  "stp_id (complete_step now res code s) = stp_id s" "stp_id (new_step i n kind t now) = i"
  by (simp_all add: MarkForRetry_def fail_step_def abort_step_def complete_step_def new_step_def)

lemma rz_simps [simp]:
  "rz_state (saveState re z) = rz_state z" "rz_call_index (saveState re z) = rz_call_index z"
  "rz_state (on_runner g z) = rz_state z" "rz_call_index (on_runner g z) = rz_call_index z"
  "rz_state (on_step i f z) = edit_step i f (rz_state z)" "rz_call_index (on_step i f z) = rz_call_index z"
  "rz_runner (on_step i f z) = rz_runner z" "rz_runner (on_runner g z) = g (rz_runner z)"
  "rz_state (begin_step re s z) = SetStep s (rz_state z)" "rz_call_index (begin_step re s z) = rz_call_index z"
  "rz_state (retry_step re i z) = edit_step i MarkForRetry (rz_state z)" "rz_call_index (retry_step re i z) = rz_call_index z"
  by (simp_all add: saveState_def on_runner_def on_step_def begin_step_def retry_step_def)

abbreviation rz_ok :: "resumable_runner \<Rightarrow> bool" where
  "rz_ok z \<equiv> steps_ok (rz_state z)"

lemma waitAndCollect_ok:
  assumes "waitAndCollectStepResult re i ct z = Some out" and "rz_ok z"
  shows "rz_ok (snd out)"
  using assms
  by (auto simp: waitAndCollectStepResult_def abort_and_clean_def Let_def edit_step_ok
      split: option.splits sum.splits call_error.splits)

lemma runStep_ok:
  assumes "runStep re d i inp z = Some out" and "rz_ok z"
  shows "rz_ok (snd out)"
proof (cases "run_deadline (ri_timeout inp)")
  case (Inr deadline)
  let ?rn = "re_runner re"
  define task where "task = DeterministicTaskID (rn_sha256 ?rn) (rn_namespace ?rn) (ps_run_id (rz_state z)) i (ri_name inp)"
  define z1 where "z1 = begin_step re (new_step i (ri_name inp) StepKindRun task (now_of re z)) z"
  obtain r st where start: "run_container d deadline (step_task task inp) (rz_runner z1) = (r, st)" by fastforce
  have z1: "steps_ok (rz_state z1)" using assms(2) by (simp add: z1_def SetStep_ok)
  have finish: "rz_ok (snd (finish_step re ct x)) \<longleftrightarrow> rz_ok (snd x)" for ct x
    by (cases x; cases "fst x") (auto simp: finish_step_def)
  show ?thesis
  proof (cases r)
    case (Inl e)
    with assms(1) Inr start z1 show ?thesis
      by (cases e) (auto simp: runStep_def Let_def task_def [symmetric] z1_def [symmetric] handleStepContainerError_def edit_step_ok)
  next
    case (Inr ct)
    let ?z3 = "saveState re (on_step i (\<lambda>s. s\<lparr>stp_container_id := ct_id ct\<rparr>) (z1\<lparr>rz_runner := st\<rparr>))"
    obtain x where x: "waitAndCollectStepResult re i ct ?z3 = Some x" and out: "out = finish_step re ct x"
      using assms(1) Inr start \<open>run_deadline (ri_timeout inp) = _\<close>
      by (auto simp: runStep_def Let_def task_def [symmetric] z1_def [symmetric])
    have "rz_ok ?z3" using z1 by (simp add: edit_step_ok)
    with waitAndCollect_ok [OF x] out finish show ?thesis by simp
  qed
qed (use assms in \<open>auto simp: runStep_def\<close>)

lemma reattach_ok:
  assumes "reattachToContainer re d s z = Some out" and "rz_ok z"
  shows "rz_ok (snd out)"
  using assms
  by (auto simp: reattachToContainer_def Let_def edit_step_ok split: option.splits sum.splits call_error.splits get_error.splits)

lemma findOrGenerateStepID_simps [simp]:
  "fst (findOrGenerateStepID n z) = itoa (int (rz_call_index z)) @ ''-'' @ sanitizeName n"
  "rz_state (snd (findOrGenerateStepID n z)) = rz_state z" "rz_runner (snd (findOrGenerateStepID n z)) = rz_runner z"
  "rz_call_index (snd (findOrGenerateStepID n z)) = rz_call_index z + 1"
  by (simp_all add: findOrGenerateStepID_def)

lemma snd_answer [simp]: "snd (answer x) = snd x"
  by (cases x; cases "fst x") (auto simp: answer_def)

lemma Run_resumable_ok:
  assumes "Run_resumable re d inp z = Some out" and "rz_ok z"
  shows "rz_ok (snd out)"
proof -
  obtain i z1 where f: "findOrGenerateStepID (ri_name inp) z = (i, z1)" by fastforce
  have z1: "rz_ok z1" using assms(2) findOrGenerateStepID_simps(2) [of "ri_name inp" z] f by simp
  have retried: "rz_ok (retry_step re i z1)" using z1 by (simp add: edit_step_ok)
  have fresh: "rz_ok (snd (answer x))" if "runStep re d i inp z2 = Some x" "rz_ok z2" for z2 x
    using runStep_ok [OF that] by simp
  show ?thesis
    using assms(1) f z1 retried fresh reattach_ok
    by (auto simp: Run_resumable_def Let_def split: option.splits sum.splits if_splits)
qed

lemma RunAgent_ok:
  assumes "rz_ok z"
  shows "rz_ok (snd (RunAgent_resumable re config z))"
proof -
  have agent: "rz_ok (snd (run_agent re config i n z2))" if "rz_ok z2" for i n z2
    using that by (simp add: run_agent_def Let_def SetStep_ok edit_step_ok split: sum.split)
  show ?thesis
  proof (cases "agent_name config")
    case (Some name)
    obtain i z1 where f: "findOrGenerateStepID name z = (i, z1)" by fastforce
    then have "rz_ok z1" using assms findOrGenerateStepID_simps(2) [of name z] by simp
    then show ?thesis
      using Some f agent by (auto simp: RunAgent_resumable_def edit_step_ok split: option.split)
  qed (use assms in \<open>simp add: RunAgent_resumable_def\<close>)
qed

lemma CreateVolume_ok: "rz_ok z \<Longrightarrow> rz_ok (snd (CreateVolume_resumable re d n sz z))"
  by (auto simp: CreateVolume_resumable_def steps_ok_def maps_wf_def GetStep_def split: prod.split sum.split)

lemma InProgress_in_all:
  assumes "\<forall>k \<in> set ids. GetStep k p \<noteq> None"
  shows "InProgress_in p ids = Some (filter (\<lambda>s. stp_status s = StepStatusRunning) (map (\<lambda>k. the (GetStep k p)) ids))"
  using assms by (induction ids) auto

lemma InProgressSteps_ok:
  "steps_ok p \<Longrightarrow> InProgressSteps p =
     Some (filter (\<lambda>s. stp_status s = StepStatusRunning) (map (\<lambda>k. the (GetStep k p)) (ps_step_order p)))"
  by (simp add: InProgressSteps_def InProgress_in_all steps_ok_def)

lemma cancelled_simps [simp]:
  "stp_id (cancelled s) = stp_id s" "cancelled (cancelled s) = cancelled s" "stp_status (cancelled s) = StepStatusAborted"
  by (simp_all add: cancelled_def)

lemma cancel_all:
  assumes "rz_ok z"
  shows "rz_ok (fold (\<lambda>s. on_step (stp_id s) cancelled) ss z) \<and>
    (\<forall>k. GetStep k (rz_state (fold (\<lambda>s. on_step (stp_id s) cancelled) ss z)) =
       (if k \<in> stp_id ` set ss then map_option cancelled (GetStep k (rz_state z)) else GetStep k (rz_state z)))"
  using assms
proof (induction ss arbitrary: z)
  case (Cons s ss)
  have "rz_ok (on_step (stp_id s) cancelled z)" using Cons.prems by (simp add: edit_step_ok)
  with Cons.IH show ?case by (auto simp: option.map_comp o_def)
qed simp

text \<open>C19. The steps of a run stay in order: every operation keeps the order free of repetitions, with exactly the
  recorded steps, each under its own id. So \<open>InProgressSteps\<close> finds every step it looks up, and after a cancellation
  no step is left running.\<close>

theorem steps_stay_in_order:
  assumes "rz_ok z"
  shows "(Run_resumable re d inp z = Some (r, z') \<longrightarrow> rz_ok z') \<and>
    rz_ok (snd (RunAgent_resumable re config z)) \<and> rz_ok (snd (CreateVolume_resumable re d n sz z)) \<and>
    (\<exists>z'. MarkInProgressAsAborted re z = Some z' \<and> rz_ok z' \<and>
       (\<forall>k s. GetStep k (rz_state z') = Some s \<longrightarrow> stp_status s \<noteq> StepStatusRunning))"
proof -
  let ?running = "filter (\<lambda>s. stp_status s = StepStatusRunning) (map (\<lambda>k. the (GetStep k (rz_state z))) (ps_step_order (rz_state z)))"
  have mark: "MarkInProgressAsAborted re z = Some (saveState re (fold (\<lambda>s. on_step (stp_id s) cancelled) ?running z))"
    by (simp add: MarkInProgressAsAborted_def InProgressSteps_ok [OF assms])
  define z1 where "z1 = fold (\<lambda>s. on_step (stp_id s) cancelled) ?running z"
  have z1: "rz_ok z1" and steps: "\<And>k. GetStep k (rz_state z1) =
      (if k \<in> stp_id ` set ?running then map_option cancelled (GetStep k (rz_state z)) else GetStep k (rz_state z))"
    using cancel_all [OF assms, of ?running] unfolding z1_def by blast+
  have "stp_status s \<noteq> StepStatusRunning" if get: "GetStep k (rz_state z1) = Some s" for k s
  proof (cases "k \<in> stp_id ` set ?running")
    case True
    with get steps [of k] show ?thesis by auto
  next
    case False
    with get steps [of k] have s: "GetStep k (rz_state z) = Some s" by simp
    moreover from this assms have "k \<in> set (ps_step_order (rz_state z))" "stp_id s = k" by (auto simp: steps_ok_def)
    ultimately show ?thesis using False by force
  qed
  then have "\<exists>z'. MarkInProgressAsAborted re z = Some z' \<and> rz_ok z' \<and>
       (\<forall>k s. GetStep k (rz_state z') = Some s \<longrightarrow> stp_status s \<noteq> StepStatusRunning)"
    using mark z1 unfolding z1_def [symmetric] by (intro exI [of _ "saveState re z1"]) simp
  moreover have "Run_resumable re d inp z = Some (r, z') \<longrightarrow> rz_ok z'"
    using Run_resumable_ok [of re d inp z "(r, z')"] assms by simp
  ultimately show ?thesis
    using RunAgent_ok [OF assms] CreateVolume_ok [OF assms] by blast
qed

section \<open>Saving and loading\<close>

text \<open>What a resumed session loads is the state that was saved, merged step by step with the state that was stored
  before: an empty field of the saved state does not erase the stored one. On a store without a state for the run, it is
  the saved state itself.\<close>

lemma save_state:
  assumes "\<not> rn_set_fails (re_runner re) (rs_sets (rz_runner z))" and "rz_ok z"
    and "case old of
       None \<Rightarrow> store_Get (rn_store_namespace (re_runner re)) (state_key (ps_run_id (rz_state z))) (rs_store (rz_runner z)) = Inl ErrNotFound
     | Some a \<Rightarrow> holds_state re (ps_run_id (rz_state z)) (rz_runner z) a"
  shows "\<exists>q. loadState re (ps_run_id (rz_state z)) (rz_runner (saveState re z)) = Inr (Some q) \<and>
    holds_state re (ps_run_id (rz_state z)) (rz_runner (saveState re z)) q \<and>
    (case old of None \<Rightarrow> q = rz_state z | Some a \<Rightarrow> merged a (rz_state z) q)"
proof -
  let ?id = "ps_run_id (rz_state z)" let ?ns = "rn_store_namespace (re_runner re)" let ?fields = "state_fields_json (rz_state z)"
  let ?st = "rz_runner (saveState re z)"
  have "state_key ?id \<noteq> []" by (simp add: state_key_def stateStoragePrefix_def)
  then have st: "rs_store ?st = store_Set ?ns (state_key ?id) (JObj ?fields) (rs_store (rz_runner z))"
    using assms(1) by (simp add: saveState_def setTaskStatus_def)
  have wf: "maps_wf (rz_state z)" using assms(2) by (simp add: steps_ok_def)
  show ?thesis
  proof (cases old)
    case None
    with assms(3) have "store_Get ?ns (state_key ?id) (rs_store ?st) = Inr (JObj ?fields)"
      by (simp add: st store_Get_lookup kv.get_put split: option.splits)
    with wf have "holds_state re ?id ?st (rz_state z)"
      by (auto simp: holds_state_def dec_state_fields obj_wf_def maps_wf_def)
    with None loadState_holds [OF this] show ?thesis by simp
  next
    case (Some a)
    with assms(3) obtain m where m: "store_Get ?ns (state_key ?id) (rs_store (rz_runner z)) = Inr (JObj m)"
      "dec_state (JObj m) = Some a" "obj_wf m ''steps''" "obj_wf m ''volumes''" by (auto simp: holds_state_def)
    then have "store_Get ?ns (state_key ?id) (rs_store ?st) = Inr (JObj (patch_members m ?fields))"
      by (simp add: st store_Get_lookup kv.get_put split: option.splits)
    with dec_state_patch [OF m(2-4) wf] obtain q where "holds_state re ?id ?st q" "merged a (rz_state z) q"
      by (auto simp: holds_state_def)
    with Some loadState_holds show ?thesis by auto
  qed
qed

section \<open>Memory and store agree\<close>

definition same_state :: "pipeline_state \<Rightarrow> pipeline_state \<Rightarrow> bool" where
  "same_state p q \<longleftrightarrow>
     ps_run_id p = ps_run_id q \<and> ps_step_order p = ps_step_order q \<and> ps_resume_enabled p = ps_resume_enabled q \<and>
     ps_started_at p = ps_started_at q \<and> ps_completed_at p = ps_completed_at q \<and>
     (\<forall>k. GetStep k p = GetStep k q) \<and> (\<forall>k. gm_get (ps_volumes p) k = gm_get (ps_volumes q) k)"

text \<open>\<open>grows p q\<close>: saving \<open>q\<close> over \<open>p\<close> erases nothing, so it stores \<open>q\<close>.\<close>

definition grows :: "pipeline_state \<Rightarrow> pipeline_state \<Rightarrow> bool" where
  "grows p q \<longleftrightarrow>
     ps_run_id q = ps_run_id p \<and>
     coalesce (ps_started_at q) (ps_started_at p) = ps_started_at q \<and>
     coalesce (ps_completed_at q) (ps_completed_at p) = ps_completed_at q \<and>
     (\<forall>k. case GetStep k q of None \<Rightarrow> GetStep k p = None
        | Some s \<Rightarrow> merge_step (case GetStep k p of None \<Rightarrow> blank_step | Some t \<Rightarrow> t) s = s) \<and>
     (\<forall>k. coalesce (gm_get (ps_volumes q) k) (gm_get (ps_volumes p) k) = gm_get (ps_volumes q) k)"

lemma merged_grows:
  assumes "merged a b q" and "same_state a p" and "grows p b"
  shows "same_state q b"
proof -
  have "GetStep k q = GetStep k b" for k
  proof -
    have q: "GetStep k q = (case GetStep k b of None \<Rightarrow> GetStep k a
        | Some s \<Rightarrow> Some (merge_step (case GetStep k a of None \<Rightarrow> blank_step | Some t \<Rightarrow> t) s))"
      using assms(1) by (simp add: merged_def)
    have a: "GetStep k a = GetStep k p" using assms(2) by (simp add: same_state_def)
    have "case GetStep k b of None \<Rightarrow> GetStep k p = None
        | Some s \<Rightarrow> merge_step (case GetStep k p of None \<Rightarrow> blank_step | Some t \<Rightarrow> t) s = s"
      using assms(3) by (simp add: grows_def)
    then show ?thesis unfolding q a by (cases "GetStep k b") simp_all
  qed
  with assms show ?thesis by (simp add: merged_def same_state_def grows_def)
qed

definition backs :: "resumable_env \<Rightarrow> runner_state \<Rightarrow> pipeline_state \<Rightarrow> bool" where
  "backs re st p \<longleftrightarrow> (\<exists>q. holds_state re (ps_run_id p) st q \<and> same_state q p)"

definition unsaved :: "resumable_env \<Rightarrow> runner_state \<Rightarrow> string \<Rightarrow> bool" where
  "unsaved re st runID \<longleftrightarrow> store_Get (rn_store_namespace (re_runner re)) (state_key runID) (rs_store st) = Inl ErrNotFound"

lemma same_state_refl [simp]: "same_state p p"
  by (simp add: same_state_def)

lemma holds_state_cong: "rs_store st = rs_store st' \<Longrightarrow> holds_state re i st q = holds_state re i st' q"
  by (simp add: holds_state_def)

lemma backs_cong: "rs_store st = rs_store st' \<Longrightarrow> backs re st p = backs re st' p"
  by (simp add: backs_def holds_state_def)

lemma unsaved_cong: "rs_store st = rs_store st' \<Longrightarrow> unsaved re st i = unsaved re st' i"
  by (simp add: unsaved_def)

lemma save_backs:
  assumes "silent_store (re_runner re)" and "rz_ok z"
    and "unsaved re (rz_runner z) (ps_run_id (rz_state z)) \<or> (\<exists>p. backs re (rz_runner z) p \<and> grows p (rz_state z))"
  shows "backs re (rz_runner (saveState re z)) (rz_state z)"
proof -
  have ok: "\<not> rn_set_fails (re_runner re) (rs_sets (rz_runner z))" using assms(1) by (simp add: silent_store_def)
  from assms(3) show ?thesis
  proof
    assume "unsaved re (rz_runner z) (ps_run_id (rz_state z))"
    with save_state [OF ok assms(2), of None] show ?thesis by (auto simp: backs_def unsaved_def)
  next
    assume "\<exists>p. backs re (rz_runner z) p \<and> grows p (rz_state z)"
    then obtain p a where "grows p (rz_state z)" "same_state a p" "holds_state re (ps_run_id p) (rz_runner z) a"
      by (auto simp: backs_def)
    moreover from this have "holds_state re (ps_run_id (rz_state z)) (rz_runner z) a" by (simp add: grows_def)
    ultimately show ?thesis
      using save_state [OF ok assms(2), of "Some a"] merged_grows by (fastforce simp: backs_def)
  qed
qed

text \<open>In a session without agents, the edits of a run only add.\<close>

definition no_agents :: "pipeline_state \<Rightarrow> bool" where
  "no_agents p \<longleftrightarrow> (\<forall>k s. GetStep k p = Some s \<longrightarrow> stp_agent_result s = None)"

lemma merge_step_refl: "stp_agent_result s = None \<Longrightarrow> merge_step s s = s"
  by (simp add: merge_step_def keep_str_def coalesce_def patch_agent_def split: option.split)

lemma merge_blank: "stp_agent_result s = None \<Longrightarrow> merge_step blank_step s = s"
  by (simp add: merge_step_def keep_str_def coalesce_def patch_agent_def blank_step_def split: option.split)

lemma coalesce_refl [simp]: "coalesce x x = x"
  by (simp add: coalesce_def split: option.split)

lemma grows_edit:
  assumes "no_agents p" and "GetStep i p = Some s" and "merge_step s (f s) = f s"
  shows "grows p (edit_step i f p)"
proof -
  have "ps_run_id (edit_step i f p) = ps_run_id p" "ps_started_at (edit_step i f p) = ps_started_at p"
    "ps_completed_at (edit_step i f p) = ps_completed_at p" "ps_volumes (edit_step i f p) = ps_volumes p"
    by (simp_all add: edit_step_def split: option.split)
  with assms show ?thesis
    by (auto simp: grows_def no_agents_def merge_step_refl split: option.split)
qed

lemma grows_SetStep:
  assumes "no_agents p" and "GetStep (stp_id s) p = None" and "stp_agent_result s = None"
  shows "grows p (SetStep s p)"
proof -
  have "ps_run_id (SetStep s p) = ps_run_id p" "ps_started_at (SetStep s p) = ps_started_at p"
    "ps_completed_at (SetStep s p) = ps_completed_at p" "ps_volumes (SetStep s p) = ps_volumes p"
    by (simp_all add: SetStep_def)
  with assms show ?thesis
    by (auto simp: grows_def no_agents_def merge_step_refl merge_blank split: option.split)
qed

section \<open>A step that completes\<close>

lemma runStep_complete:
  assumes "runStep re d i inp z = Some (Inr res, z')" and "res_status res = RunComplete"
  shows "\<exists>taskID now now' c ct z1 z2.
    z1 = begin_step re (new_step i (ri_name inp) StepKindRun taskID now) z \<and>
    rz_state z2 = rz_state z1 \<and> rz_call_index z2 = rz_call_index z1 \<and> rs_store (rz_runner z2) = rs_store (rz_runner z1) \<and>
    z' = on_runner (cleanup_container ct) (saveState re (on_step i (complete_step now' res c)
           (saveState re (on_step i (\<lambda>s. s\<lparr>stp_container_id := ct_id ct\<rparr>) z2))))"
proof -
  let ?rn = "re_runner re"
  define task where "task = DeterministicTaskID (rn_sha256 ?rn) (rn_namespace ?rn) (ps_run_id (rz_state z)) i (ri_name inp)"
  define z1 where "z1 = begin_step re (new_step i (ri_name inp) StepKindRun task (now_of re z)) z"
  obtain deadline where dl: "run_deadline (ri_timeout inp) = Inr deadline"
    using assms(1) by (auto simp: runStep_def split: sum.splits)
  obtain r st where start: "run_container d deadline (step_task task inp) (rz_runner z1) = (r, st)" by fastforce
  then have store: "rs_store st = rs_store (rz_runner z1)" by (auto simp: run_container_def)
  obtain ct where r: "r = Inr ct"
    using assms dl start
    by (cases r) (auto simp: runStep_def Let_def task_def [symmetric] z1_def [symmetric] handleStepContainerError_def
        aborted_result_def split: call_error.splits)
  define z3 where "z3 = saveState re (on_step i (\<lambda>s. s\<lparr>stp_container_id := ct_id ct\<rparr>) (z1\<lparr>rz_runner := st\<rparr>))"
  obtain x where x: "waitAndCollectStepResult re i ct z3 = Some x" and out: "finish_step re ct x = (Inr res, z')"
    using assms(1) dl start r
    by (auto simp: runStep_def Let_def task_def [symmetric] z1_def [symmetric] z3_def [symmetric])
  from out obtain z4 where x4: "x = (Inr res, z4)" and z': "z' = on_runner (cleanup_container ct) (saveState re z4)"
    by (cases x; cases "fst x") (auto simp: finish_step_def)
  obtain now' c where "z4 = on_step i (complete_step now' res c) z3"
    using x assms(2) unfolding x4
    by (auto simp: waitAndCollectStepResult_def abort_and_clean_def aborted_result_def Let_def
        split: option.splits sum.splits call_error.splits)
  with z' z1_def z3_def store show ?thesis
    by (intro exI [of _ task] exI [of _ "now_of re z"] exI [of _ now'] exI [of _ c] exI [of _ ct] exI [of _ z1]
        exI [of _ "z1\<lparr>rz_runner := st\<rparr>"]) simp
qed

definition tidy :: "resumable_env \<Rightarrow> resumable_runner \<Rightarrow> bool" where
  "tidy re z \<longleftrightarrow> rz_ok z \<and> no_agents (rz_state z) \<and> backs re (rz_runner z) (rz_state z)"

lemma save_edit_tidy:
  assumes "silent_store (re_runner re)" and "tidy re z" and "rs_store (rz_runner z') = rs_store (rz_runner z)"
    and "rz_state z' = rz_state z" and "GetStep i (rz_state z) = Some s"
    and "merge_step s (f s) = f s" and "\<And>s. stp_id (f s) = stp_id s" and "\<And>s. stp_agent_result (f s) = stp_agent_result s"
  shows "tidy re (saveState re (on_step i f z'))"
proof -
  have ok: "rz_ok (on_step i f z')" using assms by (simp add: tidy_def edit_step_ok)
  have "grows (rz_state z) (rz_state (on_step i f z'))"
    using assms by (simp add: tidy_def grows_edit)
  moreover have "backs re (rz_runner (on_step i f z')) (rz_state z)"
    using assms(2) backs_cong [OF assms(3)] by (simp add: tidy_def)
  ultimately have "backs re (rz_runner (saveState re (on_step i f z'))) (rz_state (on_step i f z'))"
    using save_backs [OF assms(1) ok] by blast
  moreover have "no_agents (edit_step i f (rz_state z))"
    using assms by (auto simp: tidy_def no_agents_def)
  ultimately show ?thesis using ok assms(4) by (simp add: tidy_def)
qed

lemma fresh_step_completes:
  assumes "runStep re d i inp z = Some (Inr res, z')" and "res_status res = RunComplete" and "silent_store (re_runner re)"
    and "rz_ok z" and "no_agents (rz_state z)" and "GetStep i (rz_state z) = None"
    and "unsaved re (rz_runner z) (ps_run_id (rz_state z)) \<or> backs re (rz_runner z) (rz_state z)"
  shows "tidy re z' \<and> rz_call_index z' = rz_call_index z \<and> ps_run_id (rz_state z') = ps_run_id (rz_state z) \<and>
    (\<exists>s. GetStep i (rz_state z') = Some s \<and> CanSkip s \<and> stp_result s = Some res) \<and>
    (\<forall>k. k \<noteq> i \<longrightarrow> GetStep k (rz_state z') = GetStep k (rz_state z))"
proof -
  obtain taskID now now' c ct z1 z2 where z1: "z1 = begin_step re (new_step i (ri_name inp) StepKindRun taskID now) z"
    and z2: "rz_state z2 = rz_state z1" "rz_call_index z2 = rz_call_index z1" "rs_store (rz_runner z2) = rs_store (rz_runner z1)"
    and z': "z' = on_runner (cleanup_container ct) (saveState re (on_step i (complete_step now' res c)
           (saveState re (on_step i (\<lambda>s. s\<lparr>stp_container_id := ct_id ct\<rparr>) z2))))"
    using runStep_complete [OF assms(1,2)] by blast
  let ?new = "new_step i (ri_name inp) StepKindRun taskID now"
  let ?cid = "\<lambda>s. s\<lparr>stp_container_id := ct_id ct\<rparr>" let ?done = "complete_step now' res c"
  have new: "stp_id ?new = i" "stp_agent_result ?new = None" by (simp_all add: new_step_def)
  let ?z0 = "z\<lparr>rz_state := SetStep ?new (rz_state z)\<rparr>"
  have "grows (rz_state z) (SetStep ?new (rz_state z))"
    using assms(5,6) new by (intro grows_SetStep) simp_all
  moreover have "rz_ok ?z0" using assms(4) by (simp add: SetStep_ok)
  moreover have "ps_run_id (SetStep ?new (rz_state z)) = ps_run_id (rz_state z)" by (simp add: SetStep_def)
  ultimately have "backs re (rz_runner (saveState re ?z0)) (SetStep ?new (rz_state z))"
    using save_backs [OF assms(3), of ?z0] assms(7) by auto
  then have tidy1: "tidy re z1"
    using \<open>rz_ok ?z0\<close> assms(5) new by (auto simp: z1 begin_step_def tidy_def no_agents_def)
  have step1: "GetStep i (rz_state z1) = Some ?new" using new by (simp add: z1)
  let ?z3 = "saveState re (on_step i ?cid z2)"
  have tidy3: "tidy re ?z3"
    by (rule save_edit_tidy [OF assms(3) tidy1 z2(3,1) step1])
      (simp_all add: merge_step_def new_step_def keep_str_def coalesce_def patch_agent_def)
  have step3: "GetStep i (rz_state ?z3) = Some (?cid ?new)" using step1 z2(1) by simp
  have "tidy re (saveState re (on_step i ?done ?z3))"
    by (rule save_edit_tidy [OF assms(3) tidy3 refl refl step3])
      (auto simp: merge_step_def new_step_def keep_str_def coalesce_def patch_agent_def complete_step_def split: option.split)
  then have "tidy re z'"
    using backs_cong [of "cleanup_container ct st" st for st] by (simp add: z' tidy_def cleanup_container_def)
  moreover have "GetStep i (rz_state z') = Some (?done (?cid ?new))" using step1 z2(1) by (simp add: z')
  moreover have "CanSkip (?done (?cid ?new))" "stp_result (?done (?cid ?new)) = Some res"
    by (simp_all add: CanSkip_def complete_step_def new_step_def)
  moreover have "\<forall>k. k \<noteq> i \<longrightarrow> GetStep k (rz_state z') = GetStep k (rz_state z)"
    using z2(1) new by (simp add: z' z1)
  moreover have "ps_run_id (rz_state z') = ps_run_id (rz_state z)"
    using z2(1) by (simp add: z' z1 edit_step_def SetStep_def split: option.split)
  moreover have "rz_call_index z' = rz_call_index z" using z2(2) by (simp add: z' z1)
  ultimately show ?thesis by blast
qed

section \<open>Sessions\<close>

fun run_each :: "resumable_env \<Rightarrow> container_driver \<Rightarrow> run_input list \<Rightarrow> resumable_runner
    \<Rightarrow> ((go_error + container_result option) list \<times> resumable_runner) option" where
  "run_each re d [] z = Some ([], z)"
| "run_each re d (inp # inps) z =
     (case Run_resumable re d inp z of
        None \<Rightarrow> None
      | Some (a, z1) \<Rightarrow> map_option (\<lambda>(as, z2). (a # as, z2)) (run_each re d inps z1))"

definition completed_answer :: "go_error + container_result option \<Rightarrow> bool" where
  "completed_answer a \<longleftrightarrow> (case a of Inr (Some res) \<Rightarrow> res_status res = RunComplete | _ \<Rightarrow> False)"

definition id_at :: "nat \<Rightarrow> run_input \<Rightarrow> string" where
  "id_at n inp = itoa (int n) @ ''-'' @ sanitizeName (ri_name inp)"

lemma id_at_inj: "id_at m inp = id_at n inp' \<Longrightarrow> m = n"
proof -
  assume eq: "id_at m inp = id_at n inp'"
  have num: "takeWhile is_digit (digits10 k @ ''-'' @ r) = digits10 k" for k r
    by (simp add: takeWhile_append2 digits10_all_digits)
  have "takeWhile is_digit (id_at m inp) = digits10 m" "takeWhile is_digit (id_at n inp') = digits10 n"
    using num by (simp_all add: id_at_def itoa_def)
  with eq show "m = n" by (metis digits10_inj)
qed

text \<open>At a position without a recorded step the run starts one; at a completed step it answers from the record.\<close>

lemma Run_fresh:
  assumes "GetStep (id_at (rz_call_index z) inp) (rz_state z) = None"
  shows "Run_resumable re d inp z =
    map_option answer (runStep re d (id_at (rz_call_index z) inp) inp (z\<lparr>rz_call_index := rz_call_index z + 1\<rparr>))"
  using assms by (simp add: Run_resumable_def findOrGenerateStepID_def id_at_def Let_def)

lemma Run_skips:
  assumes "GetStep (id_at (rz_call_index z) inp) (rz_state z) = Some s" and "CanSkip s"
  shows "Run_resumable re d inp z = Some (Inr (stp_result s), z\<lparr>rz_call_index := rz_call_index z + 1\<rparr>)"
  using assms by (simp add: Run_resumable_def findOrGenerateStepID_def id_at_def Let_def)

lemma session_records:
  assumes "run_each re d inps z = Some (as, z')" and "\<forall>a \<in> set as. completed_answer a" and "silent_store (re_runner re)"
    and "rz_ok z" and "no_agents (rz_state z)"
    and "unsaved re (rz_runner z) (ps_run_id (rz_state z)) \<or> backs re (rz_runner z) (rz_state z)"
    and "\<And>j inp. j \<ge> rz_call_index z \<Longrightarrow> GetStep (id_at j inp) (rz_state z) = None"
  shows "length as = length inps \<and> (inps \<noteq> [] \<longrightarrow> tidy re z') \<and> ps_run_id (rz_state z') = ps_run_id (rz_state z) \<and>
    (\<forall>k < length inps. \<exists>s. GetStep (id_at (rz_call_index z + k) (inps ! k)) (rz_state z') = Some s \<and> CanSkip s \<and>
       as ! k = Inr (stp_result s)) \<and>
    (\<forall>k. (\<forall>j \<ge> rz_call_index z. \<forall>inp. k \<noteq> id_at j inp) \<longrightarrow> GetStep k (rz_state z') = GetStep k (rz_state z))"
  using assms
proof (induction inps arbitrary: z as)
  case (Cons inp inps)
  let ?n = "rz_call_index z" let ?i = "id_at ?n inp" let ?z0 = "z\<lparr>rz_call_index := ?n + 1\<rparr>"
  have none: "GetStep ?i (rz_state z) = None" using Cons.prems(7) by simp
  from Cons.prems(1) obtain a z1 as' where run: "Run_resumable re d inp z = Some (a, z1)"
    and rest: "run_each re d inps z1 = Some (as', z')" and as: "as = a # as'"
    by (auto split: option.splits)
  from Cons.prems(2) as obtain res where a: "a = Inr (Some res)" "res_status res = RunComplete"
    by (auto simp: completed_answer_def split: sum.splits option.splits)
  from run Run_fresh [OF none] obtain x where "runStep re d ?i inp ?z0 = Some x" "answer x = (a, z1)" by auto
  with a have step: "runStep re d ?i inp ?z0 = Some (Inr res, z1)"
    by (cases x; cases "fst x") (auto simp: answer_def)
  note stepped = fresh_step_completes [OF step a(2) Cons.prems(3)]
  have stepped: "tidy re z1" "rz_call_index z1 = ?n + 1" "ps_run_id (rz_state z1) = ps_run_id (rz_state z)"
    "\<exists>s. GetStep ?i (rz_state z1) = Some s \<and> CanSkip s \<and> stp_result s = Some res"
    "\<And>k. k \<noteq> ?i \<Longrightarrow> GetStep k (rz_state z1) = GetStep k (rz_state z)"
    using stepped Cons.prems(4-6) none by simp_all
  have later: "GetStep (id_at j inp') (rz_state z1) = None" if "j \<ge> rz_call_index z1" for j inp'
    using that stepped(2,5) Cons.prems(7) id_at_inj by (metis Suc_eq_plus1 Suc_leD not_less_eq_eq order_refl)
  have IH: "length as' = length inps \<and> (inps \<noteq> [] \<longrightarrow> tidy re z') \<and> ps_run_id (rz_state z') = ps_run_id (rz_state z1) \<and>
    (\<forall>k < length inps. \<exists>s. GetStep (id_at (rz_call_index z1 + k) (inps ! k)) (rz_state z') = Some s \<and> CanSkip s \<and>
       as' ! k = Inr (stp_result s)) \<and>
    (\<forall>k. (\<forall>j \<ge> rz_call_index z1. \<forall>inp. k \<noteq> id_at j inp) \<longrightarrow> GetStep k (rz_state z') = GetStep k (rz_state z1))"
    by (rule Cons.IH [OF rest]) (use Cons.prems(2,3) as stepped(1) later in \<open>auto simp: tidy_def\<close>)
  have kept: "GetStep ?i (rz_state z') = GetStep ?i (rz_state z1)"
    using IH stepped(2) id_at_inj by (metis Suc_eq_plus1 not_less_eq_eq order_refl)
  have "\<exists>s. GetStep (id_at (?n + k) ((inp # inps) ! k)) (rz_state z') = Some s \<and> CanSkip s \<and> as ! k = Inr (stp_result s)"
    if "k < length (inp # inps)" for k
    using that IH stepped(2,4) kept as a by (cases k) auto
  moreover have "GetStep k (rz_state z') = GetStep k (rz_state z)" if "\<forall>j \<ge> ?n. \<forall>inp. k \<noteq> id_at j inp" for k
    using that IH stepped(2,5) by (metis Suc_eq_plus1 Suc_leD order_refl)
  moreover have "tidy re z'" using IH rest stepped(1) by (cases inps) auto
  ultimately show ?case using IH stepped(3) as by auto
qed simp

lemma session_skips:
  assumes "\<And>k. k < length inps \<Longrightarrow> \<exists>s. GetStep (id_at (rz_call_index z + k) (inps ! k)) (rz_state z) = Some s \<and> CanSkip s \<and>
      as ! k = Inr (stp_result s)"
    and "length as = length inps"
  shows "run_each re d inps z = Some (as, z\<lparr>rz_call_index := rz_call_index z + length inps\<rparr>)"
  using assms
proof (induction inps arbitrary: z as)
  case (Cons inp inps)
  from Cons.prems(2) obtain a as' where as: "as = a # as'" "length as' = length inps" by (cases as) auto
  obtain s where "GetStep (id_at (rz_call_index z) inp) (rz_state z) = Some s" "CanSkip s" "a = Inr (stp_result s)"
    using Cons.prems(1) [of 0] as by auto
  then have run: "Run_resumable re d inp z = Some (a, z\<lparr>rz_call_index := rz_call_index z + 1\<rparr>)"
    by (simp add: Run_skips)
  have "run_each re d inps (z\<lparr>rz_call_index := rz_call_index z + 1\<rparr>) =
      Some (as', z\<lparr>rz_call_index := rz_call_index z + 1\<rparr>\<lparr>rz_call_index := rz_call_index z + 1 + length inps\<rparr>)"
    using Cons.IH [of "z\<lparr>rz_call_index := rz_call_index z + 1\<rparr>" as'] Cons.prems(1) [of "Suc _"] as by simp
  with run as show ?case by simp
qed simp

text \<open>C18. A completed run is not repeated. If a first session of a run, on a store without a state for it, executes a
  sequence of steps to completion, then a session resumed from what that session has stored answers the same calls with
  the same results, output and exit codes included, whatever driver it has: it starts no container, cleans none up and
  writes nothing.\<close>

theorem completed_run_replays:
  assumes "NewResumableRunner re runID True st = Inr z" and "loadState re runID st = Inr None" and "runID \<noteq> []"
    and "silent_store (re_runner re)" and "run_each re d inps z = Some (as, z')" and "\<forall>a \<in> set as. completed_answer a"
  shows "\<exists>z1 z2. NewResumableRunner re runID True (rz_runner z') = Inr z1 \<and>
    run_each re d' inps z1 = Some (as, z2) \<and> rz_runner z2 = rz_runner z'"
proof (cases "inps = []")
  case True
  with assms show ?thesis by (auto simp: NewResumableRunner_def)
next
  case False
  have z: "rz_state z = NewPipelineState (re_clock re (rs_sets st)) runID True" "rz_call_index z = 0" "rz_runner z = st"
    using assms(1-3) by (auto simp: NewResumableRunner_def)
  have new: "GetStep k (rz_state z) = None" for k by (simp add: z NewPipelineState_def GetStep_def)
  have ok: "rz_ok z" "no_agents (rz_state z)"
    using new by (simp_all add: steps_ok_def no_agents_def maps_wf_def z NewPipelineState_def)
  have id: "ps_run_id (rz_state z) = runID" by (simp add: z NewPipelineState_def)
  have "unsaved re (rz_runner z) runID"
    using assms(2) by (auto simp: loadState_def unsaved_def z split: sum.splits db_error.splits option.splits)
  with session_records [OF assms(5,6,4) ok] new id False
  have len: "length as = length inps" and tidy: "tidy re z'" and id': "ps_run_id (rz_state z') = runID"
    and steps: "\<And>k. k < length inps \<Longrightarrow> \<exists>s. GetStep (id_at k (inps ! k)) (rz_state z') = Some s \<and> CanSkip s \<and> as ! k = Inr (stp_result s)"
    by (auto simp: z(2))
  obtain q where "holds_state re runID (rz_runner z') q" and q: "same_state q (rz_state z')"
    using tidy id' by (auto simp: tidy_def backs_def)
  then have load: "loadState re runID (rz_runner z') = Inr (Some q)" using loadState_holds by blast
  let ?z1 = "\<lparr>rz_state = q, rz_call_index = 0, rz_runner = rz_runner z'\<rparr>"
  have "run_each re d' inps ?z1 = Some (as, ?z1\<lparr>rz_call_index := rz_call_index ?z1 + length inps\<rparr>)"
    using steps q len by (intro session_skips) (auto simp: same_state_def)
  moreover have "NewResumableRunner re runID True (rz_runner z') = Inr ?z1"
    using load assms(3) by (simp add: NewResumableRunner_def)
  ultimately show ?thesis by (intro exI conjI) (assumption, assumption, simp)
qed

text \<open>An instance: one step, run to completion by one driver and answered from the record with another.\<close>

definition sample_resumable :: resumable_env where
  "sample_resumable = \<lparr>re_runner = sample_container_runner, re_clock = (\<lambda>_. ''t''), re_unique_id = ''u''\<rparr>"

lemma runStep_exits:
  assumes "run_deadline (ri_timeout inp) = Inr deadline" and "\<And>n t. dr_run_container d n deadline t = Inr ct"
    and "poll_from (ct_status ct) 0 = Some (Inr code)" and "ct_logs ct = Inr (out, err)"
  shows "\<exists>z'. runStep re d i inp z = Some (Inr (container_result_of code out err), z')"
  using assms by (simp add: runStep_def Let_def run_container_def waitAndCollectStepResult_def finish_step_def)

definition sample_session :: resumable_runner where
  "sample_session = \<lparr>rz_state = NewPipelineState ''t'' ''r1'' True, rz_call_index = 0, rz_runner = fresh_state\<rparr>"

lemma sample_first_call:
  "\<exists>z'. Run_resumable sample_resumable (chatty [] (Poll_done code)) (sample_input ''build'' ''v'') sample_session =
     Some (Inr (Some (container_result_of code ''T=hunter2'' [])), z')"
proof -
  let ?inp = "sample_input ''build'' ''v''" let ?i = "id_at (rz_call_index sample_session) ?inp"
  let ?ct = "sample_container [Chunk ''stdout'' ''T=hunter2'', Tick] [] (Poll_done code) ''T=hunter2''"
  have "GetStep ?i (rz_state sample_session) = None"
    by (simp add: sample_session_def GetStep_def NewPipelineState_def)
  note fresh = Run_fresh [OF this, of sample_resumable "chatty [] (Poll_done code)"]
  have "poll_from (ct_status ?ct) 0 = Some (Inr code)" "ct_logs ?ct = Inr (''T=hunter2'', [])"
    by (simp_all add: sample_container_def poll_sample)
  from runStep_exits [OF sample_runner_simps(5) chatty_container this] obtain z'
    where "runStep sample_resumable (chatty [] (Poll_done code)) ?i ?inp (sample_session\<lparr>rz_call_index := rz_call_index sample_session + 1\<rparr>) =
      Some (Inr (container_result_of code ''T=hunter2'' []), z')" by blast
  with fresh show ?thesis by (simp add: answer_def)
qed

theorem completed_run_replays_witness:
  "\<exists>z z' z1 z2. NewResumableRunner sample_resumable ''r1'' True fresh_state = Inr z \<and>
     run_each sample_resumable (chatty [] (Poll_done 3)) [sample_input ''build'' ''v''] z =
       Some ([Inr (Some (container_result_of 3 ''T=hunter2'' []))], z') \<and>
     NewResumableRunner sample_resumable ''r1'' True (rz_runner z') = Inr z1 \<and>
     run_each sample_resumable (chatty [] (Poll_error ContextDone)) [sample_input ''build'' ''v''] z1 =
       Some ([Inr (Some (container_result_of 3 ''T=hunter2'' []))], z2)"
proof -
  let ?re = sample_resumable let ?as = "[Inr (Some (container_result_of 3 ''T=hunter2'' []))]"
  have none: "loadState ?re ''r1'' fresh_state = Inr None"
    by (simp add: loadState_def store_Get_def find_task_def fresh_state_def empty_db_def)
  then have z: "NewResumableRunner ?re ''r1'' True fresh_state = Inr sample_session"
    by (simp add: NewResumableRunner_def sample_session_def sample_resumable_def)
  from sample_first_call [of 3] obtain z'
    where run: "run_each ?re (chatty [] (Poll_done 3)) [sample_input ''build'' ''v''] sample_session = Some (?as, z')"
    by auto
  have ok: "\<forall>a \<in> set ?as. completed_answer a" "silent_store (re_runner ?re)"
    by (simp_all add: completed_answer_def container_result_of_def sample_resumable_def)
  from completed_run_replays [OF z none _ ok(2) run ok(1), of "chatty [] (Poll_error ContextDone)"] z run show ?thesis
    by blast
qed

text \<open>A call starts at most one container, and none if its step is recorded as completed.\<close>

theorem call_starts_one_container:
  assumes "Run_resumable re d inp z = Some (a, z')"
  shows "\<exists>new. rs_started (rz_runner z') = rs_started (rz_runner z) @ new \<and> length new \<le> 1 \<and>
    (\<forall>s. GetStep (id_at (rz_call_index z) inp) (rz_state z) = Some s \<and> CanSkip s \<longrightarrow> new = [])"
proof -
  let ?i = "id_at (rz_call_index z) inp" let ?z0 = "z\<lparr>rz_call_index := rz_call_index z + 1\<rparr>"
  have save: "rs_started (rz_runner (saveState re z)) = rs_started (rz_runner z)" for z
    by (simp add: saveState_def)
  have clean: "rs_started (cleanup_container ct st) = rs_started st" for ct st by (simp add: cleanup_container_def)
  note keeps = save clean
  have wait: "rs_started (rz_runner (snd x)) = rs_started (rz_runner z2)"
    if "waitAndCollectStepResult re i ct z2 = Some x" for i ct z2 x
    using that by (auto simp: waitAndCollectStepResult_def abort_and_clean_def keeps Let_def
        split: option.splits sum.splits call_error.splits)
  have step: "\<exists>new. rs_started (rz_runner (snd x)) = rs_started (rz_runner z2) @ new \<and> length new \<le> 1"
    if "runStep re d i inp z2 = Some x" for i z2 x
  proof -
    have finish: "rs_started (rz_runner (snd (finish_step re ct y))) = rs_started (rz_runner (snd y))" for ct y
      by (cases y; cases "fst y") (auto simp: finish_step_def keeps)
    show ?thesis
      using that wait
      by (auto simp: runStep_def Let_def run_container_def handleStepContainerError_def begin_step_def keeps finish
          split: sum.splits call_error.splits)
  qed
  have reattach: "rs_started (rz_runner (snd x)) = rs_started (rz_runner z2)"
    if "reattachToContainer re d s z2 = Some x" for s z2 x
    using that by (auto simp: reattachToContainer_def keeps Let_def
        split: option.splits sum.splits call_error.splits get_error.splits)
  show ?thesis
  proof (cases "GetStep ?i (rz_state z)")
    case None
    with assms Run_fresh [OF None] obtain x where x: "runStep re d ?i inp ?z0 = Some x" "answer x = (a, z')" by auto
    from x(2) have "z' = snd x" by (metis snd_answer snd_conv)
    with step [OF x(1)] None show ?thesis by simp
  next
    case (Some s)
    show ?thesis
    proof (cases "CanSkip s")
      case True
      with assms Run_skips [OF Some] show ?thesis by (intro exI [of _ "[]"]) auto
    next
      case False
      define z1 where "z1 = (if ShouldRetry s then retry_step re ?i ?z0 else ?z0)"
      have z1: "rs_started (rz_runner z1) = rs_started (rz_runner z)" by (simp add: z1_def retry_step_def keeps)
      have last: "\<exists>new. rs_started (rz_runner z') = rs_started (rz_runner z) @ new \<and> length new \<le> 1"
        if "map_option answer (runStep re d ?i inp z2) = Some (a, z')" "rs_started (rz_runner z2) = rs_started (rz_runner z)" for z2
      proof -
        from that(1) obtain x where x: "runStep re d ?i inp z2 = Some x" "answer x = (a, z')" by auto
        from x(2) have "z' = snd x" by (metis snd_answer snd_conv)
        with step [OF x(1)] that(2) show ?thesis by simp
      qed
      define s1 where "s1 = (if ShouldRetry s then MarkForRetry s else s)"
      have run: "Run_resumable re d inp z =
          (if IsResumable s1 then
             (case reattachToContainer re d s1 z1 of
                None \<Rightarrow> None
              | Some (Inr res, z2) \<Rightarrow> Some (Inr (Some res), z2)
              | Some (Inl e, z2) \<Rightarrow> map_option answer (runStep re d ?i inp z2))
           else map_option answer (runStep re d ?i inp z1))"
      proof -
        have "findOrGenerateStepID (ri_name inp) z = (?i, ?z0)" by (simp add: findOrGenerateStepID_def id_at_def)
        with Some False show ?thesis by (simp add: Run_resumable_def Let_def z1_def s1_def)
      qed
      have "\<exists>new. rs_started (rz_runner z') = rs_started (rz_runner z) @ new \<and> length new \<le> 1"
      proof (cases "IsResumable s1")
        case True
        with assms run obtain x where x: "reattachToContainer re d s1 z1 = Some x" by (auto split: option.splits)
        show ?thesis
        proof (cases "fst x")
          case (Inl e)
          with assms run True x have "map_option answer (runStep re d ?i inp (snd x)) = Some (a, z')" by (cases x) simp
          then show ?thesis using last [of "snd x"] reattach [OF x] z1 by simp
        next
          case (Inr res)
          with assms run True x have "z' = snd x" by (cases x) simp
          then show ?thesis using reattach [OF x] z1 by simp
        qed
      next
        case False
        with assms run last [of z1] z1 show ?thesis by simp
      qed
      with Some False show ?thesis by auto
    qed
  qed
qed

theorem call_starts_one_container_witness:
  "\<exists>a z'. Run_resumable sample_resumable (chatty [] (Poll_done 0)) (sample_input ''build'' ''v'') sample_session = Some (a, z') \<and>
     length (rs_started (rz_runner z')) \<le> 1"
proof -
  obtain a z' where run: "Run_resumable sample_resumable (chatty [] (Poll_done 0)) (sample_input ''build'' ''v'') sample_session = Some (a, z')"
    using sample_first_call by blast
  from call_starts_one_container [OF run] have "length (rs_started (rz_runner z')) \<le> 1"
    by (auto simp: sample_session_def fresh_state_def)
  with run show ?thesis by blast
qed

theorem steps_stay_in_order_witness:
  "\<exists>z'. MarkInProgressAsAborted sample_resumable
       \<lparr>rz_state = SetStep (new_step ''0-a'' ''a'' StepKindRun ''x'' ''t'') (NewPipelineState ''t'' ''r1'' True),
        rz_call_index = 1, rz_runner = fresh_state\<rparr> = Some z' \<and>
     (\<forall>k s. GetStep k (rz_state z') = Some s \<longrightarrow> stp_status s \<noteq> StepStatusRunning)"
proof -
  have "steps_ok (NewPipelineState ''t'' ''r1'' True)"
    by (simp add: steps_ok_def maps_wf_def NewPipelineState_def GetStep_def)
  then have "rz_ok \<lparr>rz_state = SetStep (new_step ''0-a'' ''a'' StepKindRun ''x'' ''t'') (NewPipelineState ''t'' ''r1'' True),
        rz_call_index = 1, rz_runner = fresh_state\<rparr>" by (simp add: SetStep_ok)
  note ordered = steps_stay_in_order [OF this, THEN conjunct2, THEN conjunct2, THEN conjunct2]
  from ordered [of sample_resumable] show ?thesis by (elim exE conjE) (intro exI conjI; assumption)
qed

section \<open>What the merge and the missing parts do\<close>

text \<open>A retried step loses its container in memory only: the two writes that follow leave the old container id in the
  store. After a crash before the new container is recorded, the resumed session takes the step for one that runs in
  the container of the failed attempt, and reattaches to it.\<close>

lemma retry_keeps_old_container:
  assumes "silent_store (re_runner re)" and "rz_ok z" and "backs re (rz_runner z) (rz_state z)"
    and "GetStep i (rz_state z) = Some s" and "stp_container_id s \<noteq> []"
  shows "\<exists>q s'. loadState re (ps_run_id (rz_state z))
        (rz_runner (begin_step re (new_step i n StepKindRun t now) (retry_step re i z))) = Inr (Some q) \<and>
      GetStep i q = Some s' \<and> IsResumable s' \<and> stp_container_id s' = stp_container_id s"
proof -
  have ok: "\<not> rn_set_fails (re_runner re) k" for k using assms(1) by (simp add: silent_store_def)
  obtain a where a: "holds_state re (ps_run_id (rz_state z)) (rz_runner z) a" "same_state a (rz_state z)"
    using assms(3) by (auto simp: backs_def)
  let ?z1 = "on_step i MarkForRetry z"
  have id1: "ps_run_id (rz_state ?z1) = ps_run_id (rz_state z)" by (simp add: edit_step_def split: option.split)
  have ok1: "rz_ok ?z1" using assms(2) by (simp add: edit_step_ok)
  from save_state [OF ok ok1, of "Some a"] a(1) id1 obtain q1
    where q1: "holds_state re (ps_run_id (rz_state z)) (rz_runner (saveState re ?z1)) q1" "merged a (rz_state ?z1) q1"
    by (auto simp: holds_state_cong [of "rz_runner ?z1" "rz_runner z"])
  have "GetStep i a = Some s" using a(2) assms(4) by (simp add: same_state_def)
  then have cid1: "\<exists>s1. GetStep i q1 = Some s1 \<and> stp_container_id s1 = stp_container_id s"
    using q1(2) assms(4) by (simp add: merged_def merge_step_def MarkForRetry_def keep_str_def)
  let ?new = "new_step i n StepKindRun t now" let ?z2 = "(saveState re ?z1)\<lparr>rz_state := SetStep ?new (rz_state ?z1)\<rparr>"
  have id2: "ps_run_id (rz_state ?z2) = ps_run_id (rz_state z)" using id1 by (simp add: SetStep_def)
  have ok2: "rz_ok ?z2" using ok1 by (simp add: SetStep_ok)
  from save_state [OF ok ok2, of "Some q1"] q1(1) id2 obtain q
    where q: "loadState re (ps_run_id (rz_state z)) (rz_runner (saveState re ?z2)) = Inr (Some q)" "merged q1 (rz_state ?z2) q"
    by auto
  from q(2) cid1 have "\<exists>s'. GetStep i q = Some s' \<and> IsResumable s' \<and> stp_container_id s' = stp_container_id s"
    using assms(5) by (auto simp: merged_def merge_step_def new_step_def keep_str_def IsResumable_def)
  with q(1) show ?thesis by (simp add: begin_step_def retry_step_def)
qed

text \<open>The environment of a step goes to the container as it is: \<open>secret:\<close> references are not resolved, although the
  runner has a secrets manager.\<close>

lemma resumable_env_unresolved: "ct_env (step_task taskID inp) = ri_env inp"
  by (simp add: step_task_def task_of_input_def)

text \<open>A step whose container can no longer be asked for its status fails without a clean-up of the container.\<close>

lemma failed_poll_leaks_container:
  assumes "poll_from (ct_status ct) 0 = Some (Inl (CallFailed m))"
  shows "\<exists>r z'. map_option (finish_step re ct) (waitAndCollectStepResult re i ct z) = Some (r, z') \<and>
    rs_cleaned (rz_runner z') = rs_cleaned (rz_runner z)"
  using assms by (simp add: waitAndCollectStepResult_def finish_step_def saveState_def)

text \<open>A saved state that its context no longer allows to write is lost: with the context cancelled,
  \<open>MarkInProgressAsAborted\<close> changes the memory only.\<close>

lemma abort_not_persisted:
  assumes "\<And>k. rn_set_fails (re_runner re) k" and "MarkInProgressAsAborted re z = Some z'"
  shows "rs_store (rz_runner z') = rs_store (rz_runner z)"
proof -
  have kept: "rz_runner (fold (\<lambda>s. on_step (stp_id s) cancelled) ss z) = rz_runner z" for ss :: "step_state list" and z
    by (induction ss arbitrary: z) simp_all
  have lost: "rs_store (rz_runner (saveState re z1)) = rs_store (rz_runner z1)" for z1
    using assms(1) by (simp add: saveState_def setTaskStatus_def)
  from assms(2) obtain ss :: "step_state list" where "z' = saveState re (fold (\<lambda>s. on_step (stp_id s) cancelled) ss z)"
    by (auto simp: MarkInProgressAsAborted_def)
  then show ?thesis by (simp add: lost kept)
qed

end
