(* ===== verification/Get_Put.thy ===== *)
theory Get_Put
  imports Task_Handler Resource_Store
begin

text \<open>
  Get and put steps, \<open>runtime/backwards/get_handler.go\<close>, \<open>put_handler.go\<close> and \<open>resource_helpers.go\<close>: choosing the
  version to fetch, checking, fetching and pushing with a native resource or a resource container, and recording the
  version. The container driver, the native resources, \<open>json.Unmarshal\<close> (with the text of its errors) and the clock are the fields of
  \<open>resource_env\<close>; calls to the outside are numbered by \<open>tw_containers\<close>. The volume that a native resource works on and
  its files belong to the driver. A source that is absent is the empty object. The writes of \<open>SaveResourceVersion\<close>
  succeed; a \<open>nil\<close> version is saved as the empty one.
\<close>

section \<open>Resources and the outside\<close>

type_synonym version = "(string, string) gomap option"

record resource_container =
  rk_id :: string
  rk_command :: "string list"
  rk_image :: string
  rk_mounts :: "(string \<times> string) list"
  rk_stdin :: json

text \<open>A started container: how polling it ends, and what \<open>Logs\<close> writes into the two buffers (an error of \<open>Logs\<close> is
  only logged).\<close>

record resource_run =
  rr_end :: wait_event
  rr_stdout :: string
  rr_stderr :: string

record native_resource =
  nr_check :: "nat \<Rightarrow> (string, json) gomap \<Rightarrow> version \<Rightarrow> string + version list"
  nr_in :: "nat \<Rightarrow> (string, json) gomap \<Rightarrow> version \<Rightarrow> version \<Rightarrow> string option"
  nr_out :: "nat \<Rightarrow> bool \<Rightarrow> (string, json) gomap \<Rightarrow> version \<Rightarrow> string + version"

record resource_env =
  gp_resources :: "resource list"
  gp_types :: "resource_type list"
  gp_pipeline_id :: string
  gp_native :: "string \<Rightarrow> native_resource option"
  gp_run_container :: "nat \<Rightarrow> resource_container \<Rightarrow> string + resource_run"
  gp_create_volume :: "nat \<Rightarrow> string \<Rightarrow> string option"
  gp_unmarshal :: "string \<Rightarrow> json option"
  gp_parse_error :: "string \<Rightarrow> string"
  gp_clock :: "nat \<Rightarrow> string"

definition findResource :: "resource list \<Rightarrow> string \<Rightarrow> go_error + resource" where
  "findResource rs name =
     (case find (\<lambda>r. res_name r = name) rs of
        Some r \<Rightarrow> Inr r
      | None \<Rightarrow> Inl (Plain (''resource '' @ go_quote name @ '' not found'')))"

definition findResourceType :: "resource_type list \<Rightarrow> string \<Rightarrow> go_error + resource_type" where
  "findResourceType rts name =
     (case find (\<lambda>r. rt_name r = name) rts of
        Some r \<Rightarrow> Inr r
      | None \<Rightarrow> Inl (Plain (''resource type '' @ go_quote name @ '' not found'')))"

definition getScopedResourceName :: "string \<Rightarrow> string \<Rightarrow> string" where
  "getScopedResourceName pipelineID resourceName =
     (if pipelineID = [] then ''default'' else pipelineID) @ ''/'' @ resourceName"

definition strmap_json :: "version \<Rightarrow> json" where
  "strmap_json v = (case v of None \<Rightarrow> JNull | Some m \<Rightarrow> versionToAnyMap m)"

text \<open>The native implementation of the resource's type, or the type that names its image.\<close>

definition resource_impl :: "resource_env \<Rightarrow> resource \<Rightarrow> go_error + native_resource + resource_type" where
  "resource_impl re r =
     (case gp_native re (res_type r) of
        Some nr \<Rightarrow> Inr (Inl nr)
      | None \<Rightarrow> map_sum id Inr (findResourceType (gp_types re) (res_type r)))"

definition type_image :: "resource_type \<Rightarrow> string" where
  "type_image rt = (case obj_str (rt_source rt) ''repository'' of Some s \<Rightarrow> s | None \<Rightarrow> [])"

definition next_call :: "task_ctx \<Rightarrow> nat \<times> task_ctx" where
  "next_call sc = (tw_containers (sc_world sc), sc\<lparr>sc_world := (sc_world sc)\<lparr>tw_containers := tw_containers (sc_world sc) + 1\<rparr>\<rparr>)"

definition know_volume :: "string \<Rightarrow> string \<Rightarrow> task_ctx \<Rightarrow> task_ctx" where
  "know_volume name vol sc = sc\<lparr>sc_world := (sc_world sc)\<lparr>tw_known_volumes := gm_set name vol (tw_known_volumes (sc_world sc))\<rparr>\<rparr>"

type_synonym 'a attempt = "(go_error + 'a) \<times> task_ctx"

section \<open>Resource containers\<close>

definition runResourceContainer ::
  "task_env \<Rightarrow> resource_env \<Rightarrow> string \<Rightarrow> string \<Rightarrow> string list \<Rightarrow> (string \<times> string) list \<Rightarrow> json \<Rightarrow> task_ctx \<Rightarrow> string attempt" where
  "runResourceContainer env re taskName img command mounts stdin sc =
     (let (n, sc1) = next_call sc;
          task = \<lparr>rk_id = env_job_name env @ ''-'' @ taskName, rk_command = command, rk_image = img,
                  rk_mounts = mounts, rk_stdin = stdin\<rparr>
      in (case gp_run_container re n task of
            Inl m \<Rightarrow> (Inl (Wrapped (''run container '' @ go_quote taskName) (Plain m)), sc1)
          | Inr run \<Rightarrow>
              (case waitForContainer (rr_end run) of
                 Inl (m, _) \<Rightarrow> (Inl (Wrapped (''wait for container '' @ go_quote taskName) (Plain m)), sc1)
               | Inr code \<Rightarrow>
                   if code \<noteq> 0 then
                     (Inl (Plain (''container '' @ go_quote taskName @ '' exited with code '' @ itoa code @ '': '' @ rr_stderr run)), sc1)
                   else (Inr (rr_stdout run), sc1))))"

text \<open>\<open>json.Unmarshal\<close> into \<open>map[string]string\<close>, \<open>[]map[string]string\<close> and the result of \<open>out\<close>. A \<open>null\<close> member is the empty
  string, a repeated member the last one; a map that is decoded into keeps its entries; the names of struct fields are
  matched without regard to case.\<close>

fun decode_strings :: "(string \<times> json) list \<Rightarrow> (string, string) gomap \<Rightarrow> (string, string) gomap option" where
  "decode_strings [] acc = Some acc"
| "decode_strings ((k, JStr s) # m) acc = decode_strings m (gm_set k s acc)"
| "decode_strings ((k, JNull) # m) acc = decode_strings m (gm_set k [] acc)"
| "decode_strings (_ # m) acc = None"

definition decode_version :: "version \<Rightarrow> json \<Rightarrow> version option" where
  "decode_version old j =
     (case j of
        JNull \<Rightarrow> Some None
      | JObj m \<Rightarrow> map_option Some (decode_strings m (case old of None \<Rightarrow> [] | Some x \<Rightarrow> x))
      | _ \<Rightarrow> None)"

definition decode_versions :: "json \<Rightarrow> version list option" where
  "decode_versions j =
     (case j of
        JNull \<Rightarrow> Some []
      | JArr xs \<Rightarrow> those (map (decode_version None) xs)
      | _ \<Rightarrow> None)"

definition decode_pushed :: "json \<Rightarrow> version option" where
  "decode_pushed j =
     (case j of
        JNull \<Rightarrow> Some None
      | JObj m \<Rightarrow> foldl (\<lambda>acc (k, v). if ToLower k = ''version'' then Option.bind acc (\<lambda>old. decode_version old v) else acc)
                   (Some None) m
      | _ \<Rightarrow> None)"

section \<open>Checking for versions\<close>

definition checkNative :: "resource_env \<Rightarrow> resource \<Rightarrow> native_resource \<Rightarrow> version \<Rightarrow> task_ctx \<Rightarrow> version list attempt" where
  "checkNative re r nr lastKnown sc =
     (let (n, sc1) = next_call sc in
      case nr_check nr n (res_source r) lastKnown of
        Inl m \<Rightarrow> (Inl (Wrapped (''native check '' @ go_quote (res_name r)) (Plain m)), sc1)
      | Inr versions \<Rightarrow> (Inr versions, appendExecutedTask (''check-'' @ res_name r) sc1))"

definition checkContainer ::
  "task_env \<Rightarrow> resource_env \<Rightarrow> resource \<Rightarrow> resource_type \<Rightarrow> version \<Rightarrow> string \<Rightarrow> task_ctx \<Rightarrow> version list attempt" where
  "checkContainer env re r rt lastKnown pathPrefix sc =
     (let stdin = (''source'', JObj (res_source r)) # (case lastKnown of None \<Rightarrow> [] | Some v \<Rightarrow> [(''version'', versionToAnyMap v)]) in
      case runResourceContainer env re (''check-'' @ res_name r @ ''-'' @ pathPrefix) (type_image rt) [''/opt/resource/check''] []
             (JObj stdin) sc of
        (Inl e, sc1) \<Rightarrow> (Inl (Wrapped (''container check '' @ go_quote (res_name r)) e), sc1)
      | (Inr out, sc1) \<Rightarrow>
          ((case Option.bind (gp_unmarshal re out) decode_versions of
              None \<Rightarrow> Inl (Wrapped (''parse check output for '' @ go_quote (res_name r)) (Plain (gp_parse_error re out)))
            | Some versions \<Rightarrow> Inr versions), appendExecutedTask (''check-'' @ res_name r) sc1))"

definition checkVersions ::
  "task_env \<Rightarrow> resource_env \<Rightarrow> resource \<Rightarrow> native_resource + resource_type \<Rightarrow> version \<Rightarrow> string \<Rightarrow> task_ctx \<Rightarrow> version list attempt" where
  "checkVersions env re r impl lastKnown pathPrefix sc =
     (case impl of
        Inl nr \<Rightarrow> checkNative re r nr lastKnown sc
      | Inr rt \<Rightarrow> checkContainer env re r rt lastKnown pathPrefix sc)"

section \<open>The version to fetch\<close>

text \<open>\<open>json.Marshal\<close> of a version.\<close>

definition version_key :: "version \<Rightarrow> string" where
  "version_key v = (case v of None \<Rightarrow> ''null'' | Some m \<Rightarrow> marshal_strmap m)"

definition resolveEveryVersion :: "string \<Rightarrow> string \<Rightarrow> version list \<Rightarrow> db \<Rightarrow> version" where
  "resolveEveryVersion ns scopedName versions d =
     (let processed = map (\<lambda>sv. marshal_strmap (sv_version sv)) (ListResourceVersions ns scopedName 0 d) in
      case find (\<lambda>v. version_key v \<notin> set processed) versions of
        Some v \<Rightarrow> v
      | None \<Rightarrow> last versions)"

definition resolveVersionToFetch ::
  "task_env \<Rightarrow> resource_env \<Rightarrow> step \<Rightarrow> resource \<Rightarrow> native_resource + resource_type \<Rightarrow> string \<Rightarrow> task_ctx \<Rightarrow> version attempt" where
  "resolveVersionToFetch env re step r impl pathPrefix sc =
     (let mode = GetVersionMode (sf_get_config (sfields step));
          scopedName = getScopedResourceName (gp_pipeline_id re) (sf_get (sfields step));
          ns = env_namespace env
      in if mode = ''pinned'' then
           (case GetPinnedVersion (sf_get_config (sfields step)) of
              None \<Rightarrow> (Inl (Plain (''pinned version is nil for resource '' @ go_quote (res_name r))), sc)
            | Some pinned \<Rightarrow> (Inr (Some pinned), sc))
         else
           (let lastKnown = (if mode = ''every'' then map_option sv_version (GetLatestResourceVersion ns scopedName (sc_store sc))
                             else None)
            in case checkVersions env re r impl lastKnown pathPrefix sc of
                 (Inl e, sc1) \<Rightarrow> (Inl e, sc1)
               | (Inr versions, sc1) \<Rightarrow>
                   if versions = [] then (Inl (Plain (''no versions found for resource '' @ go_quote (res_name r))), sc1)
                   else if mode = ''every'' then (Inr (resolveEveryVersion ns scopedName versions (sc_store sc1)), sc1)
                   else (Inr (last versions), sc1)))"

section \<open>Fetching\<close>

definition fetchNativeResource ::
  "task_env \<Rightarrow> resource_env \<Rightarrow> resource \<Rightarrow> native_resource \<Rightarrow> version \<Rightarrow> version \<Rightarrow> task_ctx \<Rightarrow> go_error option \<times> task_ctx" where
  "fetchNativeResource env re r nr version params sc =
     (let volName = resourceVolumeName (env_run_id env) (res_name r); (n, sc1) = next_call sc in
      case gp_create_volume re n volName of
        Some m \<Rightarrow> (Some (Wrapped (''create volume for '' @ go_quote (res_name r)) (Plain m)), sc1)
      | None \<Rightarrow>
          (let (n2, sc2) = next_call (know_volume (res_name r) volName sc1) in
           case nr_in nr n2 (res_source r) version params of
             Some m \<Rightarrow> (Some (Wrapped (''native fetch '' @ go_quote (res_name r)) (Plain m)), sc2)
           | None \<Rightarrow> (None, appendExecutedTask (''get-'' @ res_name r) sc2)))"

definition fetchContainerResource ::
  "task_env \<Rightarrow> resource_env \<Rightarrow> resource \<Rightarrow> resource_type \<Rightarrow> version \<Rightarrow> string \<Rightarrow> string \<Rightarrow> task_ctx \<Rightarrow> go_error option \<times> task_ctx" where
  "fetchContainerResource env re r rt version name pathPrefix sc =
     (let volName = resourceVolumeName (env_run_id env) name in
      case runResourceContainer env re (''get-'' @ name @ ''-'' @ pathPrefix) (type_image rt) [''/opt/resource/in'', ''./'' @ name]
             [(volName, name)] (JObj [(''source'', JObj (res_source r)), (''version'', strmap_json version)])
             (know_volume name volName sc) of
        (Inl e, sc1) \<Rightarrow> (Some (Wrapped (''container fetch '' @ go_quote name) e), sc1)
      | (Inr out, sc1) \<Rightarrow> (None, appendExecutedTask (''get-'' @ name) sc1))"

definition fetch_resource ::
  "task_env \<Rightarrow> resource_env \<Rightarrow> resource \<Rightarrow> native_resource + resource_type \<Rightarrow> version \<Rightarrow> version \<Rightarrow> string \<Rightarrow> string \<Rightarrow> task_ctx
   \<Rightarrow> go_error option \<times> task_ctx" where
  "fetch_resource env re r impl version params name pathPrefix sc =
     (case impl of
        Inl nr \<Rightarrow> fetchNativeResource env re r nr version params sc
      | Inr rt \<Rightarrow> fetchContainerResource env re r rt version name pathPrefix sc)"

section \<open>The record of the step\<close>

definition resource_row :: "string \<Rightarrow> string \<Rightarrow> (string \<times> json) list \<Rightarrow> json" where
  "resource_row status name rest = JObj ((''status'', JStr status) # (''resource'', JStr name) # rest)"

definition resource_error ::
  "task_env \<Rightarrow> string \<Rightarrow> string \<Rightarrow> string \<Rightarrow> go_error \<Rightarrow> task_ctx \<Rightarrow> go_error option \<times> task_ctx" where
  "resource_error env key name label e sc =
     (Some (Wrapped label e), set_drop env key (resource_row ''error'' name [(''error'', JStr (error_text e))]) sc)"

definition version_map :: "version \<Rightarrow> (string, string) gomap" where
  "version_map v = (case v of None \<Rightarrow> [] | Some m \<Rightarrow> m)"

definition save_version :: "task_env \<Rightarrow> resource_env \<Rightarrow> string \<Rightarrow> version \<Rightarrow> task_ctx \<Rightarrow> task_ctx" where
  "save_version env re name version sc =
     (let (n, sc1) = next_call sc in
      sc1\<lparr>sc_store := SaveResourceVersion (env_namespace env) (getScopedResourceName (gp_pipeline_id re) name)
                        (version_map version) (env_job_name env) (gp_clock re n) (sc_store sc1)\<rparr>)"

definition resource_done ::
  "task_env \<Rightarrow> resource_env \<Rightarrow> string \<Rightarrow> string \<Rightarrow> version \<Rightarrow> task_ctx \<Rightarrow> go_error option \<times> task_ctx" where
  "resource_done env re key name version sc =
     (case storage_set env key (resource_row ''success'' name [(''version'', versionToAnyMap (version_map version))])
             (save_version env re name version sc) of
        (Some e, sc1) \<Rightarrow> (Some (Wrapped ''storage set success'' e), sc1)
      | (None, sc1) \<Rightarrow> (None, sc1))"

text \<open>What both handlers begin with: the pending row, the resource and its implementation.\<close>

definition with_resource ::
  "task_env \<Rightarrow> resource_env \<Rightarrow> string \<Rightarrow> string \<Rightarrow> string \<Rightarrow> (resource \<Rightarrow> native_resource + resource_type \<Rightarrow> task_ctx \<Rightarrow> go_error option \<times> task_ctx)
   \<Rightarrow> task_ctx \<Rightarrow> go_error option \<times> task_ctx" where
  "with_resource env re key name label body sc =
     (case storage_set env key (resource_row ''pending'' name []) sc of
        (Some e, sc1) \<Rightarrow> (Some (Wrapped ''storage set pending'' e), sc1)
      | (None, sc1) \<Rightarrow>
          (case findResource (gp_resources re) name of
             Inl e \<Rightarrow> (Some (Wrapped label e), sc1)
           | Inr r \<Rightarrow>
               (case resource_impl re r of
                  Inl e \<Rightarrow> (Some (Wrapped label e), sc1)
                | Inr impl \<Rightarrow> body r impl sc1)))"

section \<open>The handlers\<close>

definition get_key :: "task_env \<Rightarrow> string \<Rightarrow> string \<Rightarrow> string" where
  "get_key env pathPrefix name = BaseStorageKey env @ ''/'' @ pathPrefix @ ''/get/'' @ name"

definition get_body ::
  "task_env \<Rightarrow> resource_env \<Rightarrow> step \<Rightarrow> string \<Rightarrow> resource \<Rightarrow> native_resource + resource_type \<Rightarrow> task_ctx \<Rightarrow> go_error option \<times> task_ctx" where
  "get_body env re step pathPrefix r impl sc =
     (let name = sf_get (sfields step); key = get_key env pathPrefix name in
      case resolveVersionToFetch env re step r impl pathPrefix sc of
        (Inl e, sc1) \<Rightarrow> (Some (Wrapped ''get step resolve version'' e), sc1)
      | (Inr version, sc1) \<Rightarrow>
          (case fetch_resource env re r impl version (sf_params (sfields step)) name pathPrefix sc1 of
             (Some e, sc2) \<Rightarrow> resource_error env key name ''get step fetch'' e sc2
           | (None, sc2) \<Rightarrow> resource_done env re key name version sc2))"

definition GetHandler :: "task_env \<Rightarrow> resource_env \<Rightarrow> task_world runner" where
  "GetHandler env re step pathPrefix =
     with_resource env re (get_key env pathPrefix (sf_get (sfields step))) (sf_get (sfields step)) ''get step''
       (get_body env re step pathPrefix)"

definition pushNative ::
  "resource_env \<Rightarrow> resource \<Rightarrow> native_resource \<Rightarrow> version \<Rightarrow> task_ctx \<Rightarrow> version attempt" where
  "pushNative re r nr params sc =
     (let (hasVolume, sc1) =
            (case gm_get (tw_known_volumes (sc_world sc)) (res_name r) of
               None \<Rightarrow> (False, sc)
             | Some volName \<Rightarrow> (let (n, s) = next_call sc in (gp_create_volume re n volName = None, s)));
          (n2, sc2) = next_call sc1
      in (case nr_out nr n2 hasVolume (res_source r) params of
            Inl m \<Rightarrow> (Inl (Wrapped (''native push '' @ go_quote (res_name r)) (Plain m)), sc2)
          | Inr version \<Rightarrow> (Inr version, appendExecutedTask (''put-'' @ res_name r) sc2)))"

definition pushContainer ::
  "task_env \<Rightarrow> resource_env \<Rightarrow> resource \<Rightarrow> resource_type \<Rightarrow> version \<Rightarrow> string \<Rightarrow> string \<Rightarrow> task_ctx \<Rightarrow> version attempt" where
  "pushContainer env re r rt params name pathPrefix sc =
     (let volName = resourceVolumeName (env_run_id env) name;
          stdin = (''source'', JObj (res_source r)) # (case params of None \<Rightarrow> [] | Some m \<Rightarrow> [(''params'', versionToAnyMap m)])
      in (case runResourceContainer env re (''put-'' @ name @ ''-'' @ pathPrefix) (type_image rt)
                 [''/opt/resource/out'', ''./'' @ name] [(volName, name)] (JObj stdin) (know_volume name volName sc) of
            (Inl e, sc1) \<Rightarrow> (Inl (Wrapped (''container push '' @ go_quote name) e), sc1)
          | (Inr out, sc1) \<Rightarrow>
              ((case Option.bind (gp_unmarshal re out) decode_pushed of
                  None \<Rightarrow> Inl (Wrapped (''parse push output for '' @ go_quote name) (Plain (gp_parse_error re out)))
                | Some version \<Rightarrow> Inr version), appendExecutedTask (''put-'' @ name) sc1)))"

definition push_resource ::
  "task_env \<Rightarrow> resource_env \<Rightarrow> resource \<Rightarrow> native_resource + resource_type \<Rightarrow> version \<Rightarrow> string \<Rightarrow> string \<Rightarrow> task_ctx \<Rightarrow> version attempt" where
  "push_resource env re r impl params name pathPrefix sc =
     (case impl of
        Inl nr \<Rightarrow> pushNative re r nr params sc
      | Inr rt \<Rightarrow> pushContainer env re r rt params name pathPrefix sc)"

definition put_key :: "task_env \<Rightarrow> string \<Rightarrow> string \<Rightarrow> string" where
  "put_key env pathPrefix name = BaseStorageKey env @ ''/'' @ pathPrefix @ ''/put/'' @ name"

definition no_get :: "step \<Rightarrow> bool" where
  "no_get step \<longleftrightarrow> (case sf_put_config (sfields step) of None \<Rightarrow> False | Some p \<Rightarrow> pc_no_get p)"

definition put_body ::
  "task_env \<Rightarrow> resource_env \<Rightarrow> step \<Rightarrow> string \<Rightarrow> resource \<Rightarrow> native_resource + resource_type \<Rightarrow> task_ctx \<Rightarrow> go_error option \<times> task_ctx" where
  "put_body env re step pathPrefix r impl sc =
     (let name = sf_put (sfields step); key = put_key env pathPrefix name in
      case push_resource env re r impl (sf_params (sfields step)) name pathPrefix sc of
        (Inl e, sc1) \<Rightarrow> resource_error env key name ''put step push'' e sc1
      | (Inr version, sc1) \<Rightarrow>
          if no_get step then resource_done env re key name version sc1
          else
            (case fetch_resource env re r impl version None name pathPrefix sc1 of
               (Some e, sc2) \<Rightarrow> resource_error env key name ''put step implicit get'' e sc2
             | (None, sc2) \<Rightarrow> resource_done env re key name version sc2))"

definition PutHandler :: "task_env \<Rightarrow> resource_env \<Rightarrow> task_world runner" where
  "PutHandler env re step pathPrefix =
     with_resource env re (put_key env pathPrefix (sf_put (sfields step))) (sf_put (sfields step)) ''put step''
       (put_body env re step pathPrefix)"


section \<open>Rows and versions are stored apart\<close>

definition row_key_ok :: "string \<Rightarrow> bool" where
  "row_key_ok key \<longleftrightarrow> HasPrefix key ''/pipeline/'' \<and> ''..'' \<notin> set (SplitChar (CHR ''/'') key)"

lemma row_path_parts:
  assumes "plain_ns ns" and "row_key_ok key"
  shows "\<exists>rest. path_parts (''/'' @ ns @ ''/'' @ key) = ns_parts ns @ ''pipeline'' # rest"
proof -
  obtain tail where key: "key = ''/pipeline/'' @ tail"
    using assms(2) by (auto simp: row_key_ok_def HasPrefix_iff)
  have "''/'' @ ns @ ''/'' @ key = [] @ CHR ''/'' # (ns @ CHR ''/'' # ([] @ CHR ''/'' # (''pipeline'' @ CHR ''/'' # tail)))"
    by (simp add: key)
  then have split: "SplitChar (CHR ''/'') (''/'' @ ns @ ''/'' @ key) =
      [[]] @ SplitChar (CHR ''/'') ns @ [[]] @ [''pipeline''] @ SplitChar (CHR ''/'') tail"
    by (simp only: SplitChar_append) simp
  have "key = [] @ CHR ''/'' # (''pipeline'' @ CHR ''/'' # tail)" by (simp add: key)
  then have "SplitChar (CHR ''/'') key = [[]] @ [''pipeline''] @ SplitChar (CHR ''/'') tail"
    by (simp only: SplitChar_append) simp
  with assms(2) have "''..'' \<notin> set (SplitChar (CHR ''/'') tail)" by (simp add: row_key_ok_def)
  with assms(1) show ?thesis
    unfolding path_parts_def split ns_parts_def by (simp add: clean_parts_filter plain_ns_def)
qed

lemma row_path_neq:
  assumes "plain_ns ns" and "row_key_ok key" and "plain_path (rv_name k)"
  shows "task_path ns key \<noteq> task_path ns (rv_string k)"
proof -
  have "path_parts (''/'' @ ns @ ''/'' @ rv_string k) = ns_parts ns @ ''rv'' # (SplitChar (CHR ''/'') (rv_name k) @ rv_tail k)"
    using rv_path_parts [OF assms(1,3) rv_tail_plain, of k] by (simp add: rv_string_tail)
  with row_path_parts [OF assms(1,2)] show ?thesis
    by (auto simp: task_path_def clean_rooted_eq_iff)
qed

lemma row_keeps_versions:
  assumes "plain_ns ns" and "row_key_ok key" and "plain_path name"
  shows "saved_versions ns name (store_Set ns key v d) vs = saved_versions ns name d vs"
proof -
  have "rv_lookup ns k (store_Set ns key v d) = rv_lookup ns k d" if "rv_name k = name" for k
    using row_path_neq [OF assms(1,2), of k] assms(3) that by (simp add: store_lookup_def find_task_Set)
  then show ?thesis by (simp add: saved_versions_def)
qed

section \<open>What the calls to the outside keep\<close>

named_theorems resource_calls \<open>the store is left alone by checks, fetches and pushes\<close>

lemma world_calls [resource_calls]:
  "sc_store (snd (next_call sc)) = sc_store sc" "sc_store (know_volume a b sc) = sc_store sc"
  "sc_store (appendExecutedTask t sc) = sc_store sc"
  by (simp_all add: next_call_def know_volume_def appendExecutedTask_def)

lemma container_call [resource_calls]:
  "sc_store (snd (runResourceContainer env re t i c m s sc)) = sc_store sc"
  by (auto simp: runResourceContainer_def Let_def next_call_def split: sum.split prod.split)

lemma container_callD: "runResourceContainer env re t i c m s sc = (x, sc1) \<Longrightarrow> sc_store sc1 = sc_store sc"
  using container_call [of env re t i c m s sc] by simp

lemma check_call [resource_calls]: "sc_store (snd (checkVersions env re r impl v p sc)) = sc_store sc"
  by (auto simp: checkVersions_def checkNative_def checkContainer_def Let_def next_call_def appendExecutedTask_def
      dest!: container_callD split: sum.split prod.split)

lemma fetch_call [resource_calls]: "sc_store (snd (fetch_resource env re r impl v ps n p sc)) = sc_store sc"
  by (auto simp: fetch_resource_def fetchNativeResource_def fetchContainerResource_def Let_def next_call_def
      know_volume_def appendExecutedTask_def dest!: container_callD split: sum.split prod.split option.split)

lemma push_call [resource_calls]: "sc_store (snd (push_resource env re r impl ps n p sc)) = sc_store sc"
  by (auto simp: push_resource_def pushNative_def pushContainer_def Let_def next_call_def
      know_volume_def appendExecutedTask_def dest!: container_callD split: sum.split prod.split option.split)

lemma check_callD: "checkVersions env re r impl v p sc = (x, sc1) \<Longrightarrow> sc_store sc1 = sc_store sc"
  using check_call [of env re r impl v p sc] by simp

lemma fetch_callD: "fetch_resource env re r impl v ps n p sc = (x, sc1) \<Longrightarrow> sc_store sc1 = sc_store sc"
  using fetch_call [of env re r impl v ps n p sc] by simp

lemma push_callD: "push_resource env re r impl ps n p sc = (x, sc1) \<Longrightarrow> sc_store sc1 = sc_store sc"
  using push_call [of env re r impl ps n p sc] by simp

lemma resolve_callD: "resolveVersionToFetch env re step r impl p sc = (x, sc1) \<Longrightarrow> sc_store sc1 = sc_store sc"
  by (auto simp: resolveVersionToFetch_def Let_def dest!: check_callD split: option.splits prod.splits sum.splits if_splits)

section \<open>The record of a get or put\<close>

lemma recorded_store: "sc_store sc = sc_store sc' \<Longrightarrow> recorded_status env key sc = recorded_status env key sc'"
  by (simp add: recorded_status_def)

lemma row_recorded:
  assumes "sets_ok env"
  shows "recorded_status env key (snd (storage_set env key (resource_row st name rest) sc)) = Some st"
  unfolding resource_row_def using set_row_recorded [OF assms] .

lemma resource_error_row:
  "sets_ok env \<Longrightarrow> recorded_status env key (snd (resource_error env key name label e sc)) = Some ''error''"
  by (simp add: resource_error_def set_drop_def row_recorded)

lemma resource_done_row:
  assumes "sets_ok env"
  shows "fst (resource_done env re key name v sc) = None \<and>
    recorded_status env key (snd (resource_done env re key name v sc)) = Some ''success''"
  using row_recorded [OF assms, of key "''success''" name "[(''version'', versionToAnyMap (version_map v))]" "save_version env re name v sc"]
  by (simp add: resource_done_def set_ok [OF assms])

lemma with_resource_row:
  assumes "sets_ok env" and "with_resource env re key name label body sc = (err, sc')"
  shows "(\<exists>e. err = Some (Wrapped label e) \<and> recorded_status env key sc' = Some ''pending'') \<or>
    (\<exists>r impl sc1. findResource (gp_resources re) name = Inr r \<and> resource_impl re r = Inr impl \<and>
       recorded_status env key sc1 = Some ''pending'' \<and>
       sc_store sc1 = store_Set (env_namespace env) key (resource_row ''pending'' name []) (sc_store sc) \<and>
       body r impl sc1 = (err, sc'))"
  using assms row_recorded [OF assms(1), of key "''pending''" name "[]" sc]
  by (auto simp: with_resource_def set_ok split: sum.splits)

definition resource_status :: "go_error option \<Rightarrow> string" where
  "resource_status err =
     (case err of
        None \<Rightarrow> ''success''
      | Some (Wrapped label e) \<Rightarrow>
          if label \<in> {''get step fetch'', ''put step push'', ''put step implicit get''} then ''error'' else ''pending''
      | Some e \<Rightarrow> ''pending'')"

lemma resource_status_simps [simp]:
  "resource_status None = ''success''" "resource_status (Some (Wrapped ''get step fetch'' e)) = ''error''"
  "resource_status (Some (Wrapped ''put step push'' e)) = ''error''"
  "resource_status (Some (Wrapped ''put step implicit get'' e)) = ''error''"
  "resource_status (Some (Wrapped ''get step resolve version'' e)) = ''pending''"
  "resource_status (Some (Wrapped ''get step'' e)) = ''pending''" "resource_status (Some (Wrapped ''put step'' e)) = ''pending''"
  by (simp_all add: resource_status_def)

text \<open>The two ends of a step agree with its row.\<close>

lemma resource_ends:
  assumes "sets_ok env"
  shows "resource_done env re key name v sc = (err, sc') \<Longrightarrow> recorded_status env key sc' = Some (resource_status err)"
    and "resource_error env key name label e sc = (err, sc') \<Longrightarrow>
      label \<in> {''get step fetch'', ''put step push'', ''put step implicit get''} \<Longrightarrow>
      recorded_status env key sc' = Some (resource_status err)"
proof -
  assume "resource_done env re key name v sc = (err, sc')"
  with resource_done_row [OF assms, of re key name v sc] show "recorded_status env key sc' = Some (resource_status err)"
    by simp
next
  assume "resource_error env key name label e sc = (err, sc')"
    and "label \<in> {''get step fetch'', ''put step push'', ''put step implicit get''}"
  with resource_error_row [OF assms, of key name label e sc] show "recorded_status env key sc' = Some (resource_status err)"
    by (auto simp: resource_error_def resource_status_def)
qed

lemma get_body_row:
  assumes "sets_ok env" and "recorded_status env (get_key env p (sf_get (sfields step))) sc = Some ''pending''"
    and "get_body env re step p r impl sc = (err, sc')"
  shows "recorded_status env (get_key env p (sf_get (sfields step))) sc' = Some (resource_status err)"
proof -
  obtain x sc1 where x: "resolveVersionToFetch env re step r impl p sc = (x, sc1)" by fastforce
  have "recorded_status env (get_key env p (sf_get (sfields step))) sc1 = Some ''pending''"
    using assms(2) recorded_store [OF resolve_callD [OF x]] by simp
  with x assms(3) resource_ends [OF assms(1)] show ?thesis
    by (auto simp: get_body_def Let_def split: prod.splits sum.splits option.splits)
qed

lemma put_body_row:
  assumes "sets_ok env" and "put_body env re step p r impl sc = (err, sc')"
  shows "recorded_status env (put_key env p (sf_put (sfields step))) sc' = Some (resource_status err)"
  using assms(2) resource_ends [OF assms(1)]
  by (auto simp: put_body_def Let_def split: prod.splits sum.splits option.splits if_splits)

text \<open>The row of a \<open>get\<close> or \<open>put\<close> that has returned tells its outcome: \<open>success\<close> exactly if there was no error, and
  \<open>error\<close> if fetching or pushing failed. A resource or type that is missing, and a \<open>get\<close> for which no version could be
  found, leave the row \<open>pending\<close> for good.\<close>

theorem resource_row_is_outcome:
  assumes "sets_ok env"
  shows "recorded_status env (get_key env p (sf_get (sfields step))) (snd (GetHandler env re step p sc)) =
      Some (resource_status (fst (GetHandler env re step p sc))) \<and>
    recorded_status env (put_key env p (sf_put (sfields step))) (snd (PutHandler env re step p sc)) =
      Some (resource_status (fst (PutHandler env re step p sc)))"
proof
  let ?key = "get_key env p (sf_get (sfields step))"
  obtain err sc' where h: "GetHandler env re step p sc = (err, sc')" by fastforce
  then have "recorded_status env ?key sc' = Some (resource_status err)"
    using with_resource_row [OF assms h [unfolded GetHandler_def]] get_body_row [OF assms] by auto
  with h show "recorded_status env ?key (snd (GetHandler env re step p sc)) = Some (resource_status (fst (GetHandler env re step p sc)))"
    by simp
next
  let ?key = "put_key env p (sf_put (sfields step))"
  obtain err sc' where h: "PutHandler env re step p sc = (err, sc')" by fastforce
  then have "recorded_status env ?key sc' = Some (resource_status err)"
    using with_resource_row [OF assms h [unfolded PutHandler_def]] put_body_row [OF assms] by auto
  with h show "recorded_status env ?key (snd (PutHandler env re step p sc)) = Some (resource_status (fst (PutHandler env re step p sc)))"
    by simp
qed

section \<open>Every version in turn\<close>

definition processed_keys :: "stored_version list \<Rightarrow> string set" where
  "processed_keys vs = (\<lambda>sv. marshal_strmap (sv_version sv)) ` set vs"

definition unprocessed :: "stored_version list \<Rightarrow> version list \<Rightarrow> version list" where
  "unprocessed vs versions = filter (\<lambda>v. version_key v \<notin> processed_keys vs) versions"

lemma every_picks_next:
  assumes "saved_versions ns name d vs" and "unprocessed vs versions \<noteq> []"
  shows "resolveEveryVersion ns name versions d = hd (unprocessed vs versions)"
proof -
  have stored: "ListResourceVersions ns name 0 d = vs"
    using map_filter_versions [OF assms(1), of "length vs" 0] saved_count [OF assms(1)]
    by (simp add: ListResourceVersions_def Let_def)
  obtain v where "find (\<lambda>v. version_key v \<notin> processed_keys vs) versions = Some v"
    using assms(2) by (cases "find (\<lambda>v. version_key v \<notin> processed_keys vs) versions")
      (auto simp: find_None_iff unprocessed_def filter_empty_conv)
  moreover have "find P xs = Some v \<Longrightarrow> hd (filter P xs) = v" for P xs and v :: version
    by (induction xs) (auto split: if_splits)
  ultimately show ?thesis
    by (simp add: resolveEveryVersion_def stored unprocessed_def processed_keys_def)
qed

text \<open>A successful get has saved the version it resolved, between the writes of its row.\<close>

lemma get_saves:
  assumes "sets_ok env" and "GetHandler env re step p sc = (None, sc')"
  shows "\<exists>r impl v sc1 sc2 now row. findResource (gp_resources re) (sf_get (sfields step)) = Inr r \<and>
    resource_impl re r = Inr impl \<and> resolveVersionToFetch env re step r impl p sc1 = (Inr v, sc2) \<and>
    sc_store sc1 = store_Set (env_namespace env) (get_key env p (sf_get (sfields step)))
      (resource_row ''pending'' (sf_get (sfields step)) []) (sc_store sc) \<and>
    sc_store sc' = store_Set (env_namespace env) (get_key env p (sf_get (sfields step))) row
      (SaveResourceVersion (env_namespace env) (getScopedResourceName (gp_pipeline_id re) (sf_get (sfields step)))
         (version_map v) (env_job_name env) now (sc_store sc1))"
proof -
  obtain r impl sc1 where r: "findResource (gp_resources re) (sf_get (sfields step)) = Inr r" "resource_impl re r = Inr impl"
    and sc1: "sc_store sc1 = store_Set (env_namespace env) (get_key env p (sf_get (sfields step)))
      (resource_row ''pending'' (sf_get (sfields step)) []) (sc_store sc)"
    and body: "get_body env re step p r impl sc1 = (None, sc')"
    using with_resource_row [OF assms(1) assms(2) [unfolded GetHandler_def]] by blast
  from body obtain v sc2 sc3 where v: "resolveVersionToFetch env re step r impl p sc1 = (Inr v, sc2)"
    and f: "fetch_resource env re r impl v (sf_params (sfields step)) (sf_get (sfields step)) p sc2 = (None, sc3)"
    and d: "resource_done env re (get_key env p (sf_get (sfields step))) (sf_get (sfields step)) v sc3 = (None, sc')"
    by (auto simp: get_body_def Let_def resource_error_def split: prod.splits sum.splits option.splits)
  have "sc_store sc3 = sc_store sc1" using resolve_callD [OF v] fetch_callD [OF f] by simp
  with d have "\<exists>now row. sc_store sc' = store_Set (env_namespace env) (get_key env p (sf_get (sfields step))) row
      (SaveResourceVersion (env_namespace env) (getScopedResourceName (gp_pipeline_id re) (sf_get (sfields step)))
         (version_map v) (env_job_name env) now (sc_store sc1))"
    by (auto simp: resource_done_def set_ok [OF assms(1)] save_version_def next_call_def Let_def) (intro exI, rule refl)
  with r v sc1 show ?thesis by blast
qed


text \<open>The sequence of a get in one run after another: the steps share the store, everything else may differ.\<close>

type_synonym get_run = "task_env \<times> resource_env \<times> string \<times> task_ctx"

fun get_in_runs :: "step \<Rightarrow> get_run list \<Rightarrow> db \<Rightarrow> db option" where
  "get_in_runs step [] d = Some d"
| "get_in_runs step ((env, re, p, sc) # rest) d =
     (case GetHandler env re step p (sc\<lparr>sc_store := d\<rparr>) of
        (None, sc') \<Rightarrow> get_in_runs step rest (sc_store sc')
      | (Some _, _) \<Rightarrow> None)"

text \<open>A run of the sequence: the resource is the named one, rows do not leave the \<open>/pipeline\<close> tree, and the check
  answers \<open>versions\<close>.\<close>

definition checks_give :: "string \<Rightarrow> string \<Rightarrow> step \<Rightarrow> version list \<Rightarrow> get_run \<Rightarrow> bool" where
  "checks_give ns name step versions = (\<lambda>(env, re, p, sc).
     sets_ok env \<and> env_namespace env = ns \<and> getScopedResourceName (gp_pipeline_id re) (sf_get (sfields step)) = name \<and>
     row_key_ok (get_key env p (sf_get (sfields step))) \<and>
     (\<forall>r impl known sc1. findResource (gp_resources re) (sf_get (sfields step)) = Inr r \<and> resource_impl re r = Inr impl \<longrightarrow>
        fst (checkVersions env re r impl known p sc1) = Inr versions))"

lemma one_get:
  assumes "plain_ns ns" and "plain_path name" and "saved_versions ns name d vs"
    and "checks_give ns name step versions (env, re, p, sc)" and "GetVersionMode (sf_get_config (sfields step)) = ''every''"
    and "list_all (\<lambda>v. v \<noteq> None \<and> gm_wf (version_map v)) versions" and "unprocessed vs versions \<noteq> []"
    and "GetHandler env re step p (sc\<lparr>sc_store := d\<rparr>) = (None, sc')"
  shows "\<exists>sv. sv_version sv = version_map (hd (unprocessed vs versions)) \<and> saved_versions ns name (sc_store sc') (vs @ [sv])"
proof -
  let ?key = "get_key env p (sf_get (sfields step))" let ?v = "hd (unprocessed vs versions)"
  have env: "sets_ok env" "env_namespace env = ns" "getScopedResourceName (gp_pipeline_id re) (sf_get (sfields step)) = name"
    and key: "row_key_ok ?key"
    and check: "\<And>r impl known sc1. findResource (gp_resources re) (sf_get (sfields step)) = Inr r \<Longrightarrow> resource_impl re r = Inr impl \<Longrightarrow>
        fst (checkVersions env re r impl known p sc1) = Inr versions"
    using assms(4) by (auto simp: checks_give_def)
  obtain r impl v sc1 sc2 now row
    where r: "findResource (gp_resources re) (sf_get (sfields step)) = Inr r" "resource_impl re r = Inr impl"
      and res: "resolveVersionToFetch env re step r impl p sc1 = (Inr v, sc2)"
      and sc1: "sc_store sc1 = store_Set ns ?key (resource_row ''pending'' (sf_get (sfields step)) []) d"
      and sc': "sc_store sc' = store_Set ns ?key row
        (SaveResourceVersion ns name (version_map v) (env_job_name env) now (sc_store sc1))"
    using get_saves [OF env(1) assms(8)] by (auto simp: env(2,3))
  have saved1: "saved_versions ns name (sc_store sc1) vs"
    using assms(3) by (simp add: sc1 row_keeps_versions [OF assms(1) key assms(2)])
  have "versions \<noteq> []" using assms(7) by (auto simp: unprocessed_def)
  moreover obtain known sc3 where "checkVersions env re r impl known p sc1 = (Inr versions, sc3)"
    and "known = map_option sv_version (GetLatestResourceVersion ns name (sc_store sc1))"
    using check [OF r, of "map_option sv_version (GetLatestResourceVersion ns name (sc_store sc1))" sc1]
    by (metis prod.collapse)
  ultimately have v: "v = ?v"
    using res assms(5) every_picks_next [OF saved1 assms(7)] check_callD
    by (fastforce simp: resolveVersionToFetch_def Let_def env(2,3))
  have "?v \<in> set (unprocessed vs versions)" using assms(7) by simp
  then have mem: "?v \<in> set versions" and new: "version_key ?v \<notin> processed_keys vs" by (auto simp: unprocessed_def)
  then obtain m where m: "?v = Some m" "gm_wf m" using assms(6) by (auto simp: list_all_iff version_map_def split: option.splits)
  have unknown: "known_index ns name m (sc_store sc1) = None"
  proof (rule ccontr)
    assume "known_index ns name m (sc_store sc1) \<noteq> None"
    then obtain i where i: "i < length vs" "map_of (sv_version (vs ! i)) = map_of m"
      using known_index_sound [OF saved1 m(2)] by auto
    have "gm_wf (sv_version (vs ! i))" using saved1 i(1) by (auto simp: saved_versions_def holds_version_def)
    then have "marshal_strmap (sv_version (vs ! i)) = marshal_strmap m" using marshal_strmap_inj m(2) i(2) by blast
    with i(1) new m(1) show False by (auto simp: processed_keys_def version_key_def) (metis image_eqI nth_mem)
  qed
  have "saved_versions ns name (SaveResourceVersion ns name m (env_job_name env) now (sc_store sc1))
      (vs @ [\<lparr>sv_version = m, sv_job_name = env_job_name env, sv_fetched_at = now\<rparr>])"
    using save_refines [OF assms(1,2) m(2) saved1, of "env_job_name env" now] by (simp add: unknown save_spec_def)
  then show ?thesis
    using v m by (intro exI [of _ "\<lparr>sv_version = m, sv_job_name = env_job_name env, sv_fetched_at = now\<rparr>"])
      (simp add: sc' version_map_def row_keeps_versions [OF assms(1) key assms(2)])
qed

lemma unprocessed_snoc:
  assumes "distinct (map version_key versions)" and "unprocessed vs versions \<noteq> []"
    and "sv_version sv = version_map (hd (unprocessed vs versions))" and "\<forall>v \<in> set versions. v \<noteq> None"
  shows "unprocessed (vs @ [sv]) versions = tl (unprocessed vs versions)"
proof -
  obtain v rest where u: "unprocessed vs versions = v # rest" using assms(2) by (cases "unprocessed vs versions") auto
  have sub: "distinct (map version_key (v # rest))"
    using distinct_map_filter [OF assms(1)] by (simp add: unprocessed_def flip: u)
  have "v \<in> set versions" using u by (metis list.set_intros(1) filter_is_subset subsetD unprocessed_def)
  with assms(3,4) u have key: "marshal_strmap (sv_version sv) = version_key v"
    by (auto simp: version_key_def version_map_def)
  have "unprocessed (vs @ [sv]) versions = filter (\<lambda>w. version_key w \<noteq> version_key v) (unprocessed vs versions)"
    by (auto simp: unprocessed_def processed_keys_def key intro: filter_cong)
  also have "\<dots> = rest" using sub by (auto simp: u filter_id_conv) (metis image_eqI)
  finally show ?thesis by (simp add: u)
qed



text \<open>An instance: a native resource with two versions, got twice.\<close>

definition sample_native :: native_resource where
  "sample_native = \<lparr>nr_check = (\<lambda>_ _ _. Inr [Some [(''ref'', ''a'')], Some [(''ref'', ''b'')]]),
     nr_in = (\<lambda>_ _ _ _. None), nr_out = (\<lambda>_ _ _ _. Inr None)\<rparr>"

definition sample_resources :: resource_env where
  "sample_resources = \<lparr>gp_resources = [\<lparr>res_name = ''git'', res_icon = [], res_source = [], res_type = ''mock''\<rparr>], gp_types = [],
     gp_pipeline_id = ''p1'', gp_native = (\<lambda>_. Some sample_native), gp_run_container = (\<lambda>_ _. Inl ''none''),
     gp_create_volume = (\<lambda>_ _. None), gp_unmarshal = (\<lambda>_. None), gp_parse_error = id, gp_clock = (\<lambda>_. ''t'')\<rparr>"

definition every_step :: step where
  "every_step = leaf_step (zero_fields\<lparr>sf_get := ''git'', sf_get_config := zero_get_config\<lparr>gc_version := Some (JStr ''every'')\<rparr>\<rparr>)"

lemma every_fields: "sf_get (sfields every_step) = ''git''"
    "GetVersionMode (sf_get_config (sfields every_step)) = ''every''"
  by (simp_all add: every_step_def leaf_step_def GetVersionMode_def)

lemma sample_check:
  "checkVersions env sample_resources r (Inl sample_native) known p sc =
     (Inr [Some [(''ref'', ''a'')], Some [(''ref'', ''b'')]], appendExecutedTask (''check-'' @ res_name r) (snd (next_call sc)))"
  by (simp add: checkVersions_def checkNative_def sample_native_def next_call_def)

lemma sample_impl: "resource_impl sample_resources r = Inr (Inl sample_native)"
  by (simp add: resource_impl_def sample_resources_def)

lemma sample_get_succeeds:
  assumes "sets_ok env"
  shows "\<exists>sc'. GetHandler env sample_resources every_step p sc = (None, sc')"
proof -
  have res: "findResource (gp_resources sample_resources) ''git'' =
      Inr \<lparr>res_name = ''git'', res_icon = [], res_source = [], res_type = ''mock''\<rparr>"
    by (simp add: findResource_def sample_resources_def)
  have fetch: "\<exists>s. fetch_resource env sample_resources r (Inl sample_native) v ps n q s0 = (None, s)" for r v ps n q s0
    by (simp add: fetch_resource_def fetchNativeResource_def sample_resources_def sample_native_def next_call_def Let_def)
  have ends: "\<exists>s. resource_done env re k n v s0 = (None, s)" for re k n v s0
    by (simp add: resource_done_def set_ok [OF assms])
  have "\<exists>s. get_body env sample_resources every_step p r (Inl sample_native) s0 = (None, s)" for r s0
  proof -
    obtain v s1 where "resolveVersionToFetch env sample_resources every_step r (Inl sample_native) p s0 = (Inr v, s1)"
      by (simp add: resolveVersionToFetch_def every_fields sample_check)
    moreover obtain s2 where
      "fetch_resource env sample_resources r (Inl sample_native) v (sf_params (sfields every_step)) ''git'' p s1 = (None, s2)"
      using fetch by blast
    ultimately show ?thesis using ends by (simp add: get_body_def every_fields Let_def)
  qed
  then show ?thesis
    by (simp add: GetHandler_def with_resource_def set_ok [OF assms] every_fields res sample_impl)
qed

definition run_named :: "string \<Rightarrow> get_run" where
  "run_named run = (task_env_sample\<lparr>env_run_id := run\<rparr>, sample_resources, ''0'', task_ctx_sample)"

lemma sample_checks_give:
  assumes "run \<in> {''r1'', ''r2''}"
  shows "checks_give [] ''p1/git'' every_step [Some [(''ref'', ''a'')], Some [(''ref'', ''b'')]] (run_named run)"
  using assms
  by (auto simp: checks_give_def run_named_def task_env_sample_def getScopedResourceName_def every_fields row_key_ok_def
      get_key_def BaseStorageKey_def HasPrefix_iff sample_impl sample_check) (simp_all add: sample_resources_def)


theorem resource_row_is_outcome_witness:
  "recorded_status task_env_sample (get_key task_env_sample ''0'' ''git'')
     (snd (GetHandler task_env_sample sample_resources every_step ''0'' task_ctx_sample)) = Some ''success''"
proof -
  have ok: "sets_ok task_env_sample" by (simp add: task_env_sample_def)
  with resource_row_is_outcome [OF ok, of "''0''" every_step sample_resources task_ctx_sample]
    sample_get_succeeds [OF ok, of "''0''" task_ctx_sample]
  show ?thesis by (auto simp: every_fields)
qed

end
