(* ===== verification/Image_Build.thy ===== *)
theory Image_Build
  imports Resumable
begin

text \<open>
  Image builds, \<open>runtime/runner/image_build.go\<close>: checking a build request, turning it into the \<open>RunInput\<close> of a BuildKit
  container with the shell script that drives the build, and reading the result. The runner it is handed is a
  parameter, as the interface \<open>Runner\<close> is in the code; \<open>json.Unmarshal\<close> on the metadata is one too. The script is
  read by a POSIX shell: the property on quoting states what it needs of the shell's word recognition.
\<close>

section \<open>Paths\<close>

text \<open>\<open>path.Clean\<close>, \<open>path.Dir\<close>, \<open>path.Base\<close> and \<open>path.Join\<close>.\<close>

fun clean_relative :: "string list \<Rightarrow> string list \<Rightarrow> string list" where
  "clean_relative acc [] = rev acc"
| "clean_relative acc (p # ps) =
     (if p = [] \<or> p = ''.'' then clean_relative acc ps
      else if p = ''..'' \<and> acc \<noteq> [] \<and> hd acc \<noteq> ''..'' then clean_relative (tl acc) ps
      else clean_relative (p # acc) ps)"

definition path_Clean :: "string \<Rightarrow> string" where
  "path_Clean p =
     (if HasPrefix p ''/'' then clean_rooted p
      else (let parts = clean_relative [] (SplitChar (CHR ''/'') p) in if parts = [] then ''.'' else JoinStr parts ''/''))"

definition after_slash :: "string \<Rightarrow> string" where
  "after_slash p = rev (takeWhile (\<lambda>c. c \<noteq> CHR ''/'') (rev p))"

definition path_Dir :: "string \<Rightarrow> string" where
  "path_Dir p = path_Clean (take (length p - length (after_slash p)) p)"

definition path_Base :: "string \<Rightarrow> string" where
  "path_Base p =
     (if p = [] then ''.''
      else (let b = after_slash (rev (dropWhile (\<lambda>c. c = CHR ''/'') (rev p))) in if b = [] then ''/'' else b))"

definition path_Join :: "string \<Rightarrow> string \<Rightarrow> string" where
  "path_Join a b =
     (if a = [] \<and> b = [] then [] else path_Clean (JoinStr (filter (\<lambda>e. e \<noteq> []) [a, b]) ''/''))"

section \<open>Requests\<close>

record registry_auth =
  ra_registry :: string
  ra_username :: string
  ra_password :: string
  ra_insecure :: bool

record build_image_input =
  bi_name :: string
  bi_context :: string
  bi_dockerfile :: string
  bi_tag :: string
  bi_push :: bool
  bi_build_args :: "(string, string) gomap"
  bi_target :: string
  bi_platforms :: "string list"
  bi_image :: string
  bi_inputs :: "(string, volume_result) gomap"
  bi_caches :: "(string, volume_result) gomap"
  bi_env :: "(string, string) gomap"
  bi_registry_auth :: "registry_auth option"
  bi_timeout :: string
  bi_limits :: container_limit
  bi_on_output :: "nat option"
  bi_storage_key :: string

record build_image_result =
  br_ref :: string
  br_digest :: string
  br_run_result :: container_result

definition BuildKitDefaultImage :: string where
  "BuildKitDefaultImage = ''moby/buildkit:latest''"

definition newline :: string where
  "newline = [CHR 0x0A]"

definition validateBuildImageInput :: "build_image_input \<Rightarrow> go_error option" where
  "validateBuildImageInput inp =
     (if bi_tag inp = [] then Some (Plain ''build image: tag is required'')
      else if bi_context inp = [] then Some (Plain ''build image: context is required'')
      else if \<exists>c \<in> set (bi_tag inp). c \<in> {CHR '' '', CHR 0x0A, CHR 0x0D, CHR 0x09}
           then Some (Plain (''build image: tag '' @ go_quote (bi_tag inp) @ '' contains whitespace''))
      else None)"

definition registryFromTag :: "string \<Rightarrow> string" where
  "registryFromTag tag =
     (if CHR ''/'' \<notin> set tag then ''docker.io''
      else (let first = takeWhile (\<lambda>c. c \<noteq> CHR ''/'') tag in
            if CHR ''.'' \<in> set first \<or> CHR '':'' \<in> set first \<or> first = ''localhost'' then first else ''docker.io''))"

definition buildImageEnv :: "build_image_input \<Rightarrow> (string, string) gomap" where
  "buildImageEnv inp =
     (case bi_registry_auth inp of
        None \<Rightarrow> bi_env inp
      | Some auth \<Rightarrow>
          (let env = (if ra_username auth \<noteq> [] then gm_set ''POCKETCI_BUILDKIT_USERNAME'' (ra_username auth) (bi_env inp) else bi_env inp)
           in if ra_password auth \<noteq> [] then gm_set ''POCKETCI_BUILDKIT_PASSWORD'' (ra_password auth) env else env))"

definition buildImageMounts :: "build_image_input \<Rightarrow> (string, volume_result) gomap" where
  "buildImageMounts inp = gm_merge (bi_inputs inp) (bi_caches inp)"

section \<open>The script\<close>

definition shellQuote :: "string \<Rightarrow> string" where
  "shellQuote s = CHR 0x27 # ReplaceAll s [CHR 0x27] [CHR 0x27, CHR 0x5C, CHR 0x27, CHR 0x27] @ [CHR 0x27]"

text \<open>An argument of the build command: a literal text and, appended to it, a quoted value.\<close>

type_synonym build_arg = "string \<times> string option"

definition arg_text :: "build_arg \<Rightarrow> string" where
  "arg_text a = fst a @ (case snd a of None \<Rightarrow> [] | Some v \<Rightarrow> shellQuote v)"

definition output_spec :: "build_image_input \<Rightarrow> string" where
  "output_spec inp =
     ''type=image,name='' @ bi_tag inp @ '',push='' @ (if bi_push inp then ''true'' else ''false'') @
     (case bi_registry_auth inp of None \<Rightarrow> [] | Some auth \<Rightarrow> if ra_insecure auth then '',registry.insecure=true'' else [])"

definition build_args :: "build_image_input \<Rightarrow> string \<Rightarrow> string \<Rightarrow> string \<Rightarrow> build_arg list" where
  "build_args inp contextPath dfDir dfName =
     [(''buildctl-daemonless.sh'', None), (''build'', None), (''--frontend'', None), (''dockerfile.v0'', None),
      (''--local'', None), (''context='', Some contextPath), (''--local'', None), (''dockerfile='', Some dfDir),
      (''--opt'', None), (''filename='', Some dfName), (''--output'', None), ([], Some (output_spec inp))] @
     (if bi_target inp \<noteq> [] then [(''--opt'', None), (''target='', Some (bi_target inp))] else []) @
     concat (map (\<lambda>plat. [(''--opt'', None), (''platform='', Some plat)]) (bi_platforms inp)) @
     concat (map (\<lambda>k. [(''--opt'', None), ([], Some (''build-arg:'' @ k @ ''='' @ (case gm_get (bi_build_args inp) k of Some v \<Rightarrow> v | None \<Rightarrow> [])))])
       (sort (map fst (bi_build_args inp)))) @
     [(''--metadata-file'', None), (''/tmp/pocketci-buildkit-meta.json'', None)]"

definition build_command :: "build_arg list \<Rightarrow> string" where
  "build_command args = JoinStr (map arg_text args) '' ''"

definition dq :: string where "dq = [CHR 0x22]"
definition sq :: string where "sq = [CHR 0x27]"
definition bsl :: string where "bsl = [CHR 0x5C]"

definition debug_lines :: string where
  "debug_lines =
     ''echo '' @ dq @ ''[debug] /var/lib/buildkit contents:'' @ dq @ ''; ls -la /var/lib/buildkit/ 2>/dev/null | head -20 || echo ''
       @ dq @ ''[debug] dir missing'' @ dq @ newline @
     ''echo '' @ dq @ ''[debug] /var/lib/buildkit total size: $(du -sh /var/lib/buildkit 2>/dev/null || echo unknown)'' @ dq @ newline"

definition has_credentials :: "build_image_input \<Rightarrow> string \<Rightarrow> bool" where
  "has_credentials inp registry \<longleftrightarrow> registry \<noteq> [] \<and>
     (case bi_registry_auth inp of None \<Rightarrow> False | Some auth \<Rightarrow> ra_username auth \<noteq> [] \<or> ra_password auth \<noteq> [])"

text \<open>The argument of the \<open>printf\<close> that writes \<open>config.json\<close>: the registry stands between single quotes.\<close>

definition auth_format :: "string \<Rightarrow> string" where
  "auth_format registry =
     sq @ ''{'' @ dq @ ''auths'' @ dq @ '':{'' @ go_quote registry @ '':{'' @ dq @ ''auth'' @ dq @ '':'' @ dq @ ''%s'' @ dq @ ''}}}''
     @ bsl @ ''n'' @ sq"

definition login_lines :: "string \<Rightarrow> string" where
  "login_lines registry =
     ''mkdir -p /root/.docker'' @ newline @
     ''auth=$(printf '' @ sq @ ''%s:%s'' @ sq @ '' '' @ dq @ ''${POCKETCI_BUILDKIT_USERNAME:-}'' @ dq @ '' '' @ dq @
       ''${POCKETCI_BUILDKIT_PASSWORD:-}'' @ dq @ '' | base64 | tr -d '' @ sq @ bsl @ ''n'' @ sq @ '')'' @ newline @
     ''printf '' @ auth_format registry @ '' '' @ dq @ ''$auth'' @ dq @ '' > /root/.docker/config.json'' @ newline"

definition metadata_lines :: string where
  "metadata_lines =
     ''if [ -f /tmp/pocketci-buildkit-meta.json ]; then'' @ newline @
     ''  echo POCKETCI_IMAGE_METADATA_BEGIN'' @ newline @
     ''  cat /tmp/pocketci-buildkit-meta.json'' @ newline @
     ''  echo'' @ newline @
     ''  echo POCKETCI_IMAGE_METADATA_END'' @ newline @
     ''fi'' @ newline"

definition buildImageScript :: "build_image_input \<Rightarrow> string \<Rightarrow> string \<Rightarrow> string \<Rightarrow> string \<Rightarrow> string" where
  "buildImageScript inp contextPath dfDir dfName registry =
     ''set -eu'' @ newline @ debug_lines @ (if has_credentials inp registry then login_lines registry else []) @
     build_command (build_args inp contextPath dfDir dfName) @ newline @ metadata_lines"

definition context_path :: "build_image_input \<Rightarrow> string" where
  "context_path inp =
     (if HasPrefix (bi_context inp) ''/'' \<or> HasPrefix (bi_context inp) ''./'' then bi_context inp else ''./'' @ bi_context inp)"

definition dockerfile_of :: "build_image_input \<Rightarrow> string" where
  "dockerfile_of inp = (if bi_dockerfile inp = [] then ''Dockerfile'' else bi_dockerfile inp)"

definition registry_of :: "build_image_input \<Rightarrow> string" where
  "registry_of inp =
     (let r = (case bi_registry_auth inp of None \<Rightarrow> [] | Some auth \<Rightarrow> ra_registry auth) in
      if r = [] then registryFromTag (bi_tag inp) else r)"

definition build_script_of :: "build_image_input \<Rightarrow> string" where
  "build_script_of inp =
     buildImageScript inp (context_path inp) (path_Join (context_path inp) (path_Dir (dockerfile_of inp)))
       (path_Base (dockerfile_of inp)) (registry_of inp)"

definition buildImageRunInput :: "build_image_input \<Rightarrow> run_input" where
  "buildImageRunInput inp =
     \<lparr>ri_path = ''sh'', ri_args = [''-c'', build_script_of inp], ri_user = [], ri_limits = bi_limits inp,
      ri_env = Some (buildImageEnv inp), ri_image = (if bi_image inp = [] then BuildKitDefaultImage else bi_image inp),
      ri_mounts = buildImageMounts inp, ri_name = bi_name inp, ri_privileged = True, ri_stdin = [], ri_work_dir = [],
      ri_on_output = bi_on_output inp, ri_timeout = bi_timeout inp, ri_storage_key = bi_storage_key inp\<rparr>"

section \<open>The result\<close>

text \<open>The lazy match of \<open>POCKETCI_IMAGE_METADATA_BEGIN\s*(\{.*?\})\s*POCKETCI_IMAGE_METADATA_END\<close>: at the first start that
  matches, the shortest text from the brace to a closing brace before the end marker.\<close>

definition re_space :: "char \<Rightarrow> bool" where
  "re_space c \<longleftrightarrow> c \<in> {CHR 0x09, CHR 0x0A, CHR 0x0C, CHR 0x0D, CHR '' ''}"

definition meta_begin :: string where "meta_begin = ''POCKETCI_IMAGE_METADATA_BEGIN''"
definition meta_end :: string where "meta_end = ''POCKETCI_IMAGE_METADATA_END''"

fun until_end :: "string \<Rightarrow> string \<Rightarrow> string option" where
  "until_end acc [] = None"
| "until_end acc (c # r) =
     (if c = CHR 0x7D \<and> HasPrefix (dropWhile re_space r) meta_end then Some (rev (c # acc)) else until_end (c # acc) r)"

fun find_metadata :: "string \<Rightarrow> string option" where
  "find_metadata [] = None"
| "find_metadata (c # s) =
     (let here = (if HasPrefix (c # s) meta_begin
                  then (case dropWhile re_space (drop (length meta_begin) (c # s)) of
                          [] \<Rightarrow> None
                        | b # r \<Rightarrow> if b = CHR 0x7B then until_end [b] r else None)
                  else None)
      in case here of Some g \<Rightarrow> Some g | None \<Rightarrow> find_metadata s)"

definition extractBuildImageDigest :: "(string \<Rightarrow> json option) \<Rightarrow> string \<Rightarrow> string" where
  "extractBuildImageDigest unmarshal stdout =
     (case Option.bind (find_metadata stdout) unmarshal of
        Some (JObj m) \<Rightarrow> (case obj_str m ''containerimage.digest'' of Some digest \<Rightarrow> digest | None \<Rightarrow> [])
      | _ \<Rightarrow> [])"

text \<open>\<open>BuildImage\<close> returns a result beside an error when the build exits with a code other than 0.\<close>

definition BuildImage ::
  "(run_input \<Rightarrow> 's \<Rightarrow> ((go_error + container_result) \<times> 's) option) \<Rightarrow> (string \<Rightarrow> json option) \<Rightarrow> build_image_input \<Rightarrow> 's
   \<Rightarrow> (build_image_result option \<times> go_error option \<times> 's) option" where
  "BuildImage run unmarshal inp st =
     (case validateBuildImageInput inp of
        Some e \<Rightarrow> Some (None, Some e, st)
      | None \<Rightarrow>
          (case run (buildImageRunInput inp) st of
             None \<Rightarrow> None
           | Some (Inl e, st') \<Rightarrow> Some (None, Some (Wrapped (''build image '' @ go_quote (bi_tag inp)) e), st')
           | Some (Inr res, st') \<Rightarrow>
               (let result = \<lparr>br_ref = bi_tag inp, br_digest = [], br_run_result = res\<rparr> in
                if res_status res = RunAbort then Some (Some result, None, st')
                else if res_code res \<noteq> 0 then
                  Some (Some result,
                        Some (Plain (''build image '' @ go_quote (bi_tag inp) @ '' failed with exit code '' @ itoa (res_code res))), st')
                else Some (Some (result\<lparr>br_digest := extractBuildImageDigest unmarshal (res_stdout res)\<rparr>), None, st'))))"


section \<open>The build command is read back\<close>

text \<open>What the script relies on of the shell: the quoting rules of POSIX (2.2). \<open>word\<close> takes the word at the beginning of
  its input, with the quotes removed, and what follows; \<open>None\<close> is an unfinished quotation. A word ends before a blank or
  newline; a backslash protects the next character; single quotes protect everything up to the next one.\<close>

definition shell_plain :: "char \<Rightarrow> bool" where
  "shell_plain c \<longleftrightarrow> is_digit c \<or> (CHR ''a'' \<le> c \<and> c \<le> CHR ''z'') \<or> c \<in> set ''-._/=:''"

definition posix_word :: "(string \<Rightarrow> (string \<times> string) option) \<Rightarrow> bool" where
  "posix_word word \<longleftrightarrow>
     word [] = Some ([], []) \<and> (\<forall>c r. c \<in> {CHR '' '', CHR 0x0A} \<longrightarrow> word (c # r) = Some ([], c # r)) \<and>
     (\<forall>c r. shell_plain c \<longrightarrow> word (c # r) = map_option (apfst ((#) c)) (word r)) \<and>
     (\<forall>c r. c \<noteq> CHR 0x0A \<longrightarrow> word (CHR 0x5C # c # r) = map_option (apfst ((#) c)) (word r)) \<and>
     (\<forall>s r. CHR 0x27 \<notin> set s \<longrightarrow> word (CHR 0x27 # s @ CHR 0x27 # r) = map_option (apfst ((@) s)) (word r))"

lemma posix_end: "posix_word word \<Longrightarrow> r = [] \<or> hd r \<in> {CHR '' '', CHR 0x0A} \<Longrightarrow> word r = Some ([], r)"
proof (cases r)
  case Nil
  then show "posix_word word \<Longrightarrow> word r = Some ([], r)" unfolding posix_word_def by (elim conjE) simp
next
  case (Cons c t)
  then show "posix_word word \<Longrightarrow> r = [] \<or> hd r \<in> {CHR '' '', CHR 0x0A} \<Longrightarrow> word r = Some ([], r)"
    unfolding posix_word_def Cons list.sel by (elim conjE) (drule spec [of _ c], drule spec [of _ t], erule mp, simp)
qed

lemma posix_plain: "posix_word word \<Longrightarrow> shell_plain c \<Longrightarrow> word (c # r) = map_option (apfst ((#) c)) (word r)"
  unfolding posix_word_def by (elim conjE) (drule spec, drule spec, erule mp, assumption)

lemma posix_escape:
  "posix_word word \<Longrightarrow> c \<noteq> CHR 0x0A \<Longrightarrow> word (CHR 0x5C # c # r) = map_option (apfst ((#) c)) (word r)"
  by (simp add: posix_word_def)

lemma posix_quote:
  "posix_word word \<Longrightarrow> CHR 0x27 \<notin> set s \<Longrightarrow> word (CHR 0x27 # s @ CHR 0x27 # r) = map_option (apfst ((@) s)) (word r)"
  by (simp add: posix_word_def)

lemma ReplaceAll_char: "ReplaceAll s [q] new = concat (map (\<lambda>c. if c = q then new else [c]) s)"
  by (induction s) (auto simp: HasPrefix_iff)

lemma quoted_from:
  assumes "posix_word word" and "CHR 0x27 \<notin> set p"
  shows "word (CHR 0x27 # p @ ReplaceAll s [CHR 0x27] [CHR 0x27, CHR 0x5C, CHR 0x27, CHR 0x27] @ CHR 0x27 # r) =
    map_option (apfst ((@) (p @ s))) (word r)"
  using assms(2)
proof (induction s arbitrary: p)
  case Nil
  then show ?case using posix_quote [OF assms(1)] by simp
next
  case (Cons c s)
  let ?esc = "\<lambda>s. ReplaceAll s [CHR 0x27] [CHR 0x27, CHR 0x5C, CHR 0x27, CHR 0x27]"
  show ?case
  proof (cases "c = CHR 0x27")
    case True
    have "word (CHR 0x27 # p @ ?esc (c # s) @ CHR 0x27 # r) =
        map_option (apfst ((@) p)) (word (CHR 0x5C # CHR 0x27 # CHR 0x27 # [] @ ?esc s @ CHR 0x27 # r))"
      using posix_quote [OF assms(1) Cons.prems] True by (simp add: ReplaceAll_char)
    also have "word (CHR 0x5C # CHR 0x27 # CHR 0x27 # [] @ ?esc s @ CHR 0x27 # r) =
        map_option (apfst ((#) (CHR 0x27))) (word (CHR 0x27 # [] @ ?esc s @ CHR 0x27 # r))"
      by (rule posix_escape [OF assms(1)]) simp
    also have "word (CHR 0x27 # [] @ ?esc s @ CHR 0x27 # r) = map_option (apfst ((@) ([] @ s))) (word r)"
      by (rule Cons.IH) simp
    finally show ?thesis using True by (cases "word r") (auto simp: apfst_def map_prod_def split: prod.split)
  next
    case False
    with Cons.IH [of "p @ [c]"] Cons.prems show ?thesis by (simp add: ReplaceAll_char)
  qed
qed

lemma word_shellQuote: "posix_word word \<Longrightarrow> word (shellQuote s @ r) = map_option (apfst ((@) s)) (word r)"
  using quoted_from [of word "[]" s r] by (simp add: shellQuote_def)

lemma word_plain:
  "posix_word word \<Longrightarrow> list_all shell_plain l \<Longrightarrow> word (l @ r) = map_option (apfst ((@) l)) (word r)"
proof (induction l)
  case Nil
  show ?case by (cases "word r") (auto simp: apfst_def map_prod_def)
next
  case (Cons c l)
  then show ?case using posix_plain [of word c "l @ r"] by (cases "word r") auto
qed

definition arg_value :: "build_arg \<Rightarrow> string" where
  "arg_value a = fst a @ (case snd a of None \<Rightarrow> [] | Some v \<Rightarrow> v)"

lemma word_arg:
  assumes "posix_word word" and "list_all shell_plain (fst a)" and "r = [] \<or> hd r \<in> {CHR '' '', CHR 0x0A}"
  shows "word (arg_text a @ r) = Some (arg_value a, r)"
proof -
  have ends: "word r = Some ([], r)" using posix_end [OF assms(1,3)] .
  then show ?thesis
    using word_plain [OF assms(1,2)] word_shellQuote [OF assms(1)]
    by (cases a; cases "snd a") (auto simp: arg_text_def arg_value_def)
qed

text \<open>The words of a command line, up to its newline.\<close>

fun shell_words :: "(string \<Rightarrow> (string \<times> string) option) \<Rightarrow> nat \<Rightarrow> string \<Rightarrow> string list option" where
  "shell_words word 0 s = None"
| "shell_words word (Suc n) s =
     (let t = dropWhile (\<lambda>c. c = CHR '' '') s in
      if t = [] \<or> hd t = CHR 0x0A then Some []
      else (case word t of None \<Rightarrow> None | Some (w, r) \<Rightarrow> map_option ((#) w) (shell_words word n r)))"

definition arg_ok :: "build_arg \<Rightarrow> bool" where
  "arg_ok a \<longleftrightarrow> list_all shell_plain (fst a) \<and> (fst a \<noteq> [] \<or> snd a \<noteq> None)"

lemma arg_begins: "arg_ok a \<Longrightarrow> \<exists>c t. arg_text a = c # t \<and> c \<noteq> CHR '' '' \<and> c \<noteq> CHR 0x0A"
  by (cases "fst a") (auto simp: arg_ok_def arg_text_def shell_plain_def is_digit_def shellQuote_def split: option.split)

lemma command_words:
  assumes "posix_word word" and "list_all arg_ok args" and "length args < n"
  shows "shell_words word n (build_command args @ CHR 0x0A # rest) = Some (map arg_value args)"
  using assms(2,3)
proof (induction args arbitrary: n)
  case Nil
  then show ?case by (cases n) (simp_all add: build_command_def)
next
  case (Cons a args)
  obtain m where n: "n = Suc m" using Cons.prems by (cases n) simp_all
  let ?r = "(if args = [] then CHR 0x0A # rest else CHR '' '' # build_command args @ CHR 0x0A # rest)"
  have line: "build_command (a # args) @ CHR 0x0A # rest = arg_text a @ ?r"
    by (cases args) (simp_all add: build_command_def)
  obtain c t where first: "arg_text a = c # t" "c \<noteq> CHR '' ''" "c \<noteq> CHR 0x0A"
    using arg_begins [of a] Cons.prems(1) by auto
  have "word (arg_text a @ ?r) = Some (arg_value a, ?r)"
    using Cons.prems(1) by (intro word_arg [OF assms(1)]) (auto simp: arg_ok_def)
  then have "shell_words word n (arg_text a @ ?r) = map_option ((#) (arg_value a)) (shell_words word m ?r)"
    using first by (simp add: n)
  moreover have "shell_words word m ?r = Some (map arg_value args)"
  proof (cases "args = []")
    case True
    with Cons.prems(2) show ?thesis by (cases m) (simp_all add: n)
  next
    case False
    have "shell_words word m ?r = shell_words word m (build_command args @ CHR 0x0A # rest)"
      using False by (cases m) simp_all
    with Cons show ?thesis by (simp add: n)
  qed
  ultimately show ?case by (simp only: line) simp
qed

lemma build_args_ok: "list_all arg_ok (build_args inp contextPath dfDir dfName)"
proof -
  have "list_all arg_ok (concat (map f xs))" if "\<And>x. list_all arg_ok (f x)" for f and xs :: "string list"
    using that by (induction xs) auto
  then show ?thesis
    by (auto simp: build_args_def arg_ok_def shell_plain_def is_digit_def)
qed

text \<open>C26. The shell reads the build command back as the intended words: whatever characters the tag, the context, the
  Dockerfile, the target, the platforms and the build arguments contain, each of them ends up inside its one word and
  nothing of it is interpreted.\<close>

theorem build_command_is_read_back:
  assumes "posix_word word"
  shows "\<exists>n. shell_words word n (build_command (build_args inp contextPath dfDir dfName) @ newline @ rest) =
    Some (map arg_value (build_args inp contextPath dfDir dfName))"
  using command_words [OF assms build_args_ok lessI, of inp contextPath dfDir dfName rest]
  by (intro exI) (simp add: newline_def del: shell_words.simps)

text \<open>A word recogniser with these rules.\<close>

fun sh_lex :: "bool \<Rightarrow> string \<Rightarrow> (string \<times> string) option" where
  "sh_lex quoted [] = (if quoted then None else Some ([], []))"
| "sh_lex quoted (c # r) =
     (if quoted then (if c = CHR 0x27 then sh_lex False r else map_option (apfst ((#) c)) (sh_lex True r))
      else if c \<in> {CHR '' '', CHR 0x0A} then Some ([], c # r)
      else if c = CHR 0x27 then sh_lex True r
      else if c = CHR 0x5C then (case r of [] \<Rightarrow> None | d # r' \<Rightarrow> map_option (apfst ((#) d)) (sh_lex False r'))
      else map_option (apfst ((#) c)) (sh_lex False r))"

lemma sh_lex_quoted:
  "CHR 0x27 \<notin> set s \<Longrightarrow> sh_lex True (s @ CHR 0x27 # r) = map_option (apfst ((@) s)) (sh_lex False r)"
proof (induction s)
  case Nil
  show ?case by (cases "sh_lex False r") (auto simp: apfst_def map_prod_def)
next
  case (Cons c s)
  then show ?case by (cases "sh_lex False r") auto
qed

lemma sh_lex_posix: "posix_word (sh_lex False)"
proof -
  have "sh_lex False r = Some ([], r)" if "r = [] \<or> hd r \<in> {CHR '' '', CHR 0x0A}" for r
    using that by (cases r) auto
  then show ?thesis
    by (auto simp: posix_word_def sh_lex_quoted shell_plain_def is_digit_def)
qed

definition sample_build :: build_image_input where
  "sample_build = \<lparr>bi_name = ''b'', bi_context = ''src'', bi_dockerfile = [], bi_tag = ''it's/app; reboot'', bi_push = False,
     bi_build_args = [(''MSG'', ''don't $PANIC'')], bi_target = [], bi_platforms = [], bi_image = [], bi_inputs = [], bi_caches = [],
     bi_env = [], bi_registry_auth = None, bi_timeout = [], bi_limits = \<lparr>cl_cpu = 0, cl_cpu_kind = [], cl_memory = 0\<rparr>,
     bi_on_output = None, bi_storage_key = []\<rparr>"

theorem build_command_is_read_back_witness:
  "\<exists>n words. shell_words (sh_lex False) n (build_command (build_args sample_build ''./src'' ''src'' ''Dockerfile'') @ newline @ []) = Some words \<and>
     ''build-arg:MSG=don't $PANIC'' \<in> set words"
proof -
  have "''build-arg:MSG=don't $PANIC'' \<in> set (map arg_value (build_args sample_build ''./src'' ''src'' ''Dockerfile''))"
    by (simp add: build_args_def sample_build_def arg_value_def gm_get_def)
  with build_command_is_read_back [OF sh_lex_posix, of sample_build "''./src''" "''src''" "''Dockerfile''" "[]"]
  show ?thesis by blast
qed

text \<open>The registry of the login line is not protected in this way: a quote in it ends the quotation, and the shell
  interprets the rest.\<close>

lemma registry_breaks_out:
  assumes "posix_word word"
  shows "word (auth_format (''a'' @ sq @ '' reboot '' @ sq) @ rest) = Some (''{'' @ dq @ ''auths'' @ dq @ '':{'' @ dq @ ''a'',
    '' reboot '' @ sq @ dq @ '':{'' @ dq @ ''auth'' @ dq @ '':'' @ dq @ ''%s'' @ dq @ ''}}}'' @ bsl @ ''n'' @ sq @ rest)"
proof -
  let ?s = "''{'' @ dq @ ''auths'' @ dq @ '':{'' @ dq @ ''a''"
  let ?r = "'' reboot '' @ sq @ dq @ '':{'' @ dq @ ''auth'' @ dq @ '':'' @ dq @ ''%s'' @ dq @ ''}}}'' @ bsl @ ''n'' @ sq @ rest"
  have "auth_format (''a'' @ sq @ '' reboot '' @ sq) @ rest = CHR 0x27 # ?s @ CHR 0x27 # ?r"
    by (simp add: auth_format_def sq_def dq_def bsl_def go_quote_def)
  moreover have "word (CHR 0x27 # ?s @ CHR 0x27 # ?r) = map_option (apfst ((@) ?s)) (word ?r)"
    by (rule posix_quote [OF assms]) (simp add: dq_def)
  moreover have "word ?r = Some ([], ?r)" by (rule posix_end [OF assms]) simp
  ultimately show ?thesis by (simp only:) simp
qed

section \<open>The outcome of a build\<close>

text \<open>A build is a success or an abort exactly if there is no error; a result is returned whenever the container ran to
  its end, and a digest only of a build that exited with 0.\<close>

lemma BuildImage_outcome:
  assumes "BuildImage run unmarshal inp st = Some (result, err, st')"
  shows "(err = None \<longleftrightarrow> validateBuildImageInput inp = None \<and>
      (\<exists>res. run (buildImageRunInput inp) st = Some (Inr res, st') \<and> (res_status res = RunAbort \<or> res_code res = 0))) \<and>
    (result \<noteq> None \<longleftrightarrow> validateBuildImageInput inp = None \<and> (\<exists>res. run (buildImageRunInput inp) st = Some (Inr res, st'))) \<and>
    (\<forall>b. result = Some b \<and> br_digest b \<noteq> [] \<longrightarrow> res_status (br_run_result b) = RunComplete \<and> res_code (br_run_result b) = 0)"
  using assms
  by (auto simp: BuildImage_def Let_def split: option.splits sum.splits prod.splits if_splits)
    (metis container_status.exhaust)+

end
