(* ===== verification/Cache_Tasks.thy ===== *)
theory Cache_Tasks
  imports Image_Build
begin

text \<open>
  Caches in S3, \<open>runtime/runner/cache_op.go\<close> and \<open>runtime/backwards/cache_tasks.go\<close>: the container that restores or
  persists a cache volume with its shell script, and when a job runs it. The runner is a parameter of the operations;
  the lemmas at the end take the container runner for it.
\<close>

section \<open>Cache operations\<close>

datatype cache_direction = CacheRestoreDirection | CachePersistDirection

definition direction_text :: "cache_direction \<Rightarrow> string" where
  "direction_text dir = (case dir of CacheRestoreDirection \<Rightarrow> ''restore'' | CachePersistDirection \<Rightarrow> ''persist'')"

text \<open>The direction of an input is one of the two, or another text that the validation refuses.\<close>

record cache_op_input =
  co_name :: string
  co_volume :: volume_result
  co_mount_name :: string
  co_direction :: "cache_direction + string"
  co_endpoint :: string
  co_bucket :: string
  co_key :: string
  co_access_key_id :: string
  co_secret_access_key :: string
  co_region :: string
  co_image :: string
  co_env :: "(string, string) gomap"
  co_limits :: container_limit
  co_timeout :: string
  co_on_output :: "nat option"
  co_storage_key :: string

definition CacheOpDefaultImage :: string where
  "CacheOpDefaultImage = ''peakcom/s5cmd:v2.3.0''"

definition co_direction_text :: "cache_op_input \<Rightarrow> string" where
  "co_direction_text inp = (case co_direction inp of Inl dir \<Rightarrow> direction_text dir | Inr t \<Rightarrow> t)"

definition validateCacheOpInput :: "cache_op_input \<Rightarrow> go_error option" where
  "validateCacheOpInput inp =
     (if co_name inp = [] then Some (Plain ''cache op: name is required'')
      else if vr_name (co_volume inp) = [] then Some (Plain ''cache op: volume is required'')
      else if co_bucket inp = [] then Some (Plain ''cache op: bucket is required'')
      else if co_key inp = [] then Some (Plain ''cache op: key is required'')
      else case co_direction inp of
             Inl _ \<Rightarrow> None
           | Inr t \<Rightarrow> Some (Plain (''cache op: direction must be '' @ go_quote ''restore'' @ '' or '' @ go_quote ''persist''
                         @ '', got '' @ go_quote t)))"

definition cacheOpEnv :: "cache_op_input \<Rightarrow> (string, string) gomap" where
  "cacheOpEnv inp =
     (let e1 = (if co_access_key_id inp \<noteq> [] then gm_set ''AWS_ACCESS_KEY_ID'' (co_access_key_id inp) (co_env inp) else co_env inp);
          e2 = (if co_secret_access_key inp \<noteq> [] then gm_set ''AWS_SECRET_ACCESS_KEY'' (co_secret_access_key inp) e1 else e1);
          region = (if co_region inp = [] then ''us-east-1'' else co_region inp)
      in gm_set ''AWS_REGION'' region (gm_set ''AWS_DEFAULT_REGION'' region e2))"

section \<open>The script\<close>

definition echo_line :: "string \<Rightarrow> string" where
  "echo_line t = ''echo '' @ sq @ t @ sq"

definition setup_lines :: "string list" where
  "setup_lines =
     [''set -eu'', ''set -o pipefail'',
      ''if ! command -v s5cmd >/dev/null 2>&1 && [ -x /s5cmd ]; then'', ''  ln -sf /s5cmd /usr/local/bin/s5cmd'', ''fi'',
      ''if ! command -v zstd >/dev/null 2>&1; then'', ''  '' @ echo_line ''[cache] installing zstd via apk'',
      ''  apk add --no-cache zstd 1>/dev/null'', ''fi'']"

definition persist_lines :: "string \<Rightarrow> string \<Rightarrow> string \<Rightarrow> string \<Rightarrow> string list" where
  "persist_lines mountName mountPath endpointFlag s3Url =
     [''mkdir -p '' @ shellQuote mountPath,
      echo_line (''[cache] persisting '' @ mountName @ '' to '' @ s3Url),
      ''tar cf - -C '' @ shellQuote mountPath @ '' . | zstd -T0 | s5cmd '' @ endpointFlag @ ''pipe --concurrency 10 '' @ shellQuote s3Url,
      echo_line ''[cache] persist complete'']"

definition restore_lines :: "string \<Rightarrow> string \<Rightarrow> string \<Rightarrow> string \<Rightarrow> string list" where
  "restore_lines mountName mountPath endpointFlag s3Url =
     [''mkdir -p '' @ shellQuote mountPath,
      echo_line (''[cache] restoring '' @ mountName @ '' from '' @ s3Url),
      ''if ! s5cmd '' @ endpointFlag @ ''cp '' @ shellQuote s3Url @ '' ./cache.tar.zst 2>/tmp/cache-stderr; then'',
      ''  rm -f ./cache.tar.zst'',
      ''  if grep -q -E '' @ sq @ ''Not Found|NoSuchKey|404|object not found'' @ sq @ '' /tmp/cache-stderr 2>/dev/null; then'',
      ''    '' @ echo_line ''[cache] miss (no prior data)'', ''    exit 1'', ''  fi'',
      ''  '' @ echo_line ''[cache] restore download failed:'' @ '' 1>&2'', ''  cat /tmp/cache-stderr 1>&2'', ''  exit 2'', ''fi'',
      ''if ! zstd -dc ./cache.tar.zst | tar xf - -C '' @ shellQuote mountPath @ '' 2>/tmp/cache-extract-err; then'',
      ''  rm -rf '' @ shellQuote mountPath @ ''/* '' @ shellQuote mountPath @ ''/.[!.]* 2>/dev/null || true'',
      ''  rm -f ./cache.tar.zst'',
      ''  '' @ echo_line ''[cache] restore extract failed (likely corrupted archive); volume cleared'' @ '' 1>&2'',
      ''  cat /tmp/cache-extract-err 1>&2 || true'', ''  exit 2'', ''fi'',
      ''rm -f ./cache.tar.zst'', echo_line ''[cache] restore complete'']"

definition cacheOpScript :: "cache_op_input \<Rightarrow> string \<Rightarrow> string" where
  "cacheOpScript inp mountName =
     (let mountPath = ''./'' @ mountName;
          endpointFlag = (if co_endpoint inp \<noteq> [] then ''--endpoint-url '' @ shellQuote (co_endpoint inp) @ '' '' else []);
          s3Url = ''s3://'' @ co_bucket inp @ ''/'' @ co_key inp;
          direction_lines = (case co_direction inp of
             Inl CachePersistDirection \<Rightarrow> persist_lines mountName mountPath endpointFlag s3Url
           | Inl CacheRestoreDirection \<Rightarrow> restore_lines mountName mountPath endpointFlag s3Url
           | Inr _ \<Rightarrow> [])
      in concat (map (\<lambda>l. l @ newline) (setup_lines @ direction_lines)))"

definition cache_mount_name :: "cache_op_input \<Rightarrow> string" where
  "cache_mount_name inp = (if co_mount_name inp = [] then vr_name (co_volume inp) else co_mount_name inp)"

definition cacheOpRunInput :: "cache_op_input \<Rightarrow> run_input" where
  "cacheOpRunInput inp =
     \<lparr>ri_path = ''sh'', ri_args = [''-c'', cacheOpScript inp (cache_mount_name inp)], ri_user = [], ri_limits = co_limits inp,
      ri_env = Some (cacheOpEnv inp), ri_image = (if co_image inp = [] then CacheOpDefaultImage else co_image inp),
      ri_mounts = [(cache_mount_name inp, co_volume inp)], ri_name = co_name inp, ri_privileged = False, ri_stdin = [],
      ri_work_dir = [], ri_on_output = co_on_output inp, ri_timeout = co_timeout inp, ri_storage_key = co_storage_key inp\<rparr>"

section \<open>Running them\<close>

type_synonym 's any_runner = "run_input \<Rightarrow> 's \<Rightarrow> ((go_error + container_result) \<times> 's) option"

definition runCacheOp ::
  "'s any_runner \<Rightarrow> cache_op_input \<Rightarrow> 's \<Rightarrow> (container_result option \<times> go_error option \<times> 's) option" where
  "runCacheOp run inp st =
     (case validateCacheOpInput inp of
        Some e \<Rightarrow> Some (None, Some e, st)
      | None \<Rightarrow>
          (case run (cacheOpRunInput inp) st of
             None \<Rightarrow> None
           | Some (Inl e, st') \<Rightarrow>
               Some (None, Some (Wrapped (''cache '' @ co_direction_text inp @ '' '' @ go_quote (co_name inp)) e), st')
           | Some (Inr res, st') \<Rightarrow>
               Some (Some res,
                 (if res_status res = RunAbort \<or> res_code res = 0 then None
                  else Some (Plain (''cache '' @ co_direction_text inp @ '' '' @ go_quote (co_name inp)
                               @ '' failed with exit code '' @ itoa (res_code res)))), st')))"

definition CacheRestore where
  "CacheRestore run inp = runCacheOp run (inp\<lparr>co_direction := Inl CacheRestoreDirection\<rparr>)"

definition CachePersist where
  "CachePersist run inp = runCacheOp run (inp\<lparr>co_direction := Inl CachePersistDirection\<rparr>)"

record cache_s3 =
  s3_endpoint :: string
  s3_region :: string
  s3_bucket :: string
  s3_prefix :: string
  s3_access_key_id :: string
  s3_secret_access_key :: string

definition cacheS3Key :: "cache_s3 \<Rightarrow> string \<Rightarrow> string \<Rightarrow> string \<Rightarrow> string" where
  "cacheS3Key cfg pipelineID jobName volumeName =
     JoinStr ((if s3_prefix cfg \<noteq> [] then [TrimChar (CHR ''/'') (s3_prefix cfg)] else []) @
       [sanitizeCachePath pipelineID, sanitizeCachePath jobName, volumeName @ ''.tar.zst'']) ''/''"

definition cacheOpDefaultMemory :: int where "cacheOpDefaultMemory = 1024 * 1024 * 1024"
definition cacheOpDefaultCPU :: int where "cacheOpDefaultCPU = 4"

text \<open>What the step context knows of caches: the configuration, the names that keys are built from, the output callback.\<close>

record cache_ctx =
  cc_s3 :: "cache_s3 option"
  cc_run_id :: string
  cc_pipeline_id :: string
  cc_job_name :: string
  cc_output :: "nat option"

definition cacheOpInputBase :: "cache_s3 \<Rightarrow> cache_ctx \<Rightarrow> string \<Rightarrow> cache_op_input" where
  "cacheOpInputBase cfg cc volName =
     \<lparr>co_name = volName, co_volume = \<lparr>vr_name = volName, vr_path = []\<rparr>, co_mount_name = [], co_direction = Inr [],
      co_endpoint = s3_endpoint cfg, co_bucket = s3_bucket cfg,
      co_key = cacheS3Key cfg (cc_pipeline_id cc) (cc_job_name cc) volName, co_access_key_id = s3_access_key_id cfg,
      co_secret_access_key = s3_secret_access_key cfg, co_region = s3_region cfg, co_image = [], co_env = [],
      co_limits = \<lparr>cl_cpu = cacheOpDefaultCPU, cl_cpu_kind = ''shared'', cl_memory = cacheOpDefaultMemory\<rparr>,
      co_timeout = [], co_on_output = cc_output cc, co_storage_key = []\<rparr>"

definition cache_base_key :: "cache_ctx \<Rightarrow> string" where
  "cache_base_key cc = ''/pipeline/'' @ cc_run_id cc @ ''/jobs/'' @ cc_job_name cc"

definition restore_input :: "cache_s3 \<Rightarrow> cache_ctx \<Rightarrow> string \<Rightarrow> string \<Rightarrow> cache_op_input" where
  "restore_input cfg cc volName stepPathPrefix =
     (cacheOpInputBase cfg cc volName)
       \<lparr>co_direction := Inl CacheRestoreDirection,
        co_storage_key := cache_base_key cc @ ''/'' @ stepPathPrefix @ ''/cache/restore/'' @ volName\<rparr>"

text \<open>The state is the volumes restored before and that of the runner; an error is only logged.\<close>

definition runCacheRestoreTask ::
  "'s any_runner \<Rightarrow> cache_ctx \<Rightarrow> string \<Rightarrow> string \<Rightarrow> string list \<times> 's \<Rightarrow> (string list \<times> 's) option" where
  "runCacheRestoreTask run cc volName stepPathPrefix = (\<lambda>(restored, st).
     (case cc_s3 cc of
        None \<Rightarrow> Some (restored, st)
      | Some cfg \<Rightarrow>
          if volName \<in> set restored then Some (restored, st)
          else map_option (\<lambda>(_, _, st'). (volName # restored, st')) (CacheRestore run (restore_input cfg cc volName stepPathPrefix) st)))"

definition persist_input :: "cache_s3 \<Rightarrow> cache_ctx \<Rightarrow> string \<Rightarrow> cache_op_input" where
  "persist_input cfg cc volName =
     (cacheOpInputBase cfg cc volName)
       \<lparr>co_direction := Inl CachePersistDirection, co_storage_key := cache_base_key cc @ ''/cache/persist/'' @ volName\<rparr>"

fun persist_each :: "'s any_runner \<Rightarrow> cache_s3 \<Rightarrow> cache_ctx \<Rightarrow> string list \<Rightarrow> 's \<Rightarrow> 's option" where
  "persist_each run cfg cc [] st = Some st"
| "persist_each run cfg cc (v # vs) st =
     (case CachePersist run (persist_input cfg cc v) st of
        None \<Rightarrow> None
      | Some (_, _, st') \<Rightarrow> persist_each run cfg cc vs st')"

definition runCachePersistTasks :: "'s any_runner \<Rightarrow> cache_ctx \<Rightarrow> string list \<Rightarrow> 's \<Rightarrow> 's option" where
  "runCachePersistTasks run cc volumes st =
     (case cc_s3 cc of None \<Rightarrow> Some st | Some cfg \<Rightarrow> persist_each run cfg cc volumes st)"

section \<open>What an operation leaves\<close>

lemma cacheOpInput_valid:
  assumes "s3_bucket cfg \<noteq> []" and "volName \<noteq> []"
  shows "validateCacheOpInput (restore_input cfg cc volName p) = None" "validateCacheOpInput (persist_input cfg cc volName) = None"
  using assms
  by (simp_all add: validateCacheOpInput_def restore_input_def persist_input_def cacheOpInputBase_def cacheS3Key_def)

text \<open>A container that exits with another code than 0 leaves a row with status \<open>failure\<close> at the key of its input.\<close>

lemma failed_run_row:
  assumes "Run_container rn d inp st = Some (Inr res, st')" and "res_status res = RunComplete" and "res_code res \<noteq> 0"
    and "silent_store rn" and "effective_key rn inp st \<noteq> []"
  shows "\<exists>t. find_task (task_path (rn_store_namespace rn) (effective_key rn inp st)) (rs_store st') = Some t \<and>
    t_status t = Some ''failure''"
proof -
  obtain ct code a b c e logs st2 st3
    where built: "buildFinalResult rn ct code a b c e logs (effective_key rn inp st) st2 = (res, st3)"
      and st': "st' = cleanup_container ct st3"
    using Run_container_complete [OF assms(1,2)] by blast
  then obtain rest where "st3 = setTaskStatus rn (effective_key rn inp st) ((''status'', JStr ''failure'') # rest) (st2\<lparr>rs_secret_values := []\<rparr>)"
    using assms(3) by (auto simp: buildFinalResult_def Let_def)
  then show ?thesis
    using assms(4,5) st'
    by (auto simp: setTaskStatus_def silent_store_def cleanup_container_def find_task_Set new_task_def merge_task_def
        json_extract_def column_text_def coalesce_def gm_get_def split: option.splits)
qed

text \<open>Names that differ in punctuation only share one object: the caches of two jobs overwrite each other.\<close>

lemma cache_keys_collide: "cacheS3Key cfg pid ''build.linux'' vol = cacheS3Key cfg pid ''build-linux'' vol"
proof -
  have "sanitizeCachePath ''build.linux'' = sanitizeCachePath ''build-linux''" by code_simp
  then show ?thesis by (simp add: cacheS3Key_def)
qed

end
