(* ===== verification/Auth_Tokens.thy ===== *)
theory Auth_Tokens
  imports Container_Runner
begin

text \<open>
  Who may do what on the server, \<open>server/auth\<close> (\<open>auth.go\<close>, \<open>token.go\<close>, \<open>mcp.go\<close>, \<open>rbac.go\<close>, \<open>middleware.go\<close>, \<open>context.go\<close>,
  \<open>share_token.go\<close>), \<open>server/share_secrets.go\<close>, \<open>server/api_share_controller.go\<close> and the pipeline check of
  \<open>server/api_pipelines_controller.go\<close>: bearer tokens and their audiences, the two middlewares, access expressions
  and share links. The JWT library, HMAC, the expression language and the session cookie store are parameters; time
  is in seconds.
\<close>

section \<open>Users\<close>

record user =
  u_email :: string
  u_name :: string
  u_nick_name :: string
  u_avatar_url :: string
  u_provider :: string
  u_user_id :: string
  u_organizations :: "string list"
  u_groups :: "string list"
  u_raw_data :: "(string, json) gomap"
  u_scopes :: "string list"

record auth_config =
  ac_github :: "string \<times> string"
  ac_gitlab :: "string \<times> string"
  ac_microsoft :: "string \<times> string"
  ac_session_secret :: string
  ac_callback_url :: string
  ac_server_rbac :: string

definition both_set :: "string \<times> string \<Rightarrow> bool" where
  "both_set p \<longleftrightarrow> fst p \<noteq> [] \<and> snd p \<noteq> []"

definition HasOAuthProviders :: "auth_config \<Rightarrow> bool" where
  "HasOAuthProviders c \<longleftrightarrow> both_set (ac_github c) \<or> both_set (ac_gitlab c) \<or> both_set (ac_microsoft c)"

definition EnabledProviders :: "auth_config \<Rightarrow> string list" where
  "EnabledProviders c =
     (if both_set (ac_github c) then [''github''] else []) @ (if both_set (ac_gitlab c) then [''gitlab''] else []) @
     (if both_set (ac_microsoft c) then [''microsoftonline''] else [])"

section \<open>Tokens\<close>

definition AudienceAPI :: string where "AudienceAPI = ''api''"
definition AudienceMCP :: string where "AudienceMCP = ''mcp''"

record token_claims =
  tc_subject :: string
  tc_issued_at :: int
  tc_expires_at :: int
  tc_issuer :: string
  tc_audience :: "string list"
  tc_email :: string
  tc_name :: string
  tc_nick_name :: string
  tc_provider :: string
  tc_scopes :: "string list"

datatype jwt_error = ErrTokenExpired | ErrTokenOther

text \<open>The library: \<open>SignedString\<close> with HS256 by secret, and \<open>ParseWithClaims\<close> restricted to HS256 by secret, clock and text.\<close>

record jwt_lib =
  jl_sign :: "string \<Rightarrow> token_claims \<Rightarrow> string + string"
  jl_parse :: "string \<Rightarrow> int \<Rightarrow> string \<Rightarrow> jwt_error + token_claims"

definition GenerateToken :: "jwt_lib \<Rightarrow> int \<Rightarrow> user \<Rightarrow> string \<Rightarrow> int \<Rightarrow> string list \<Rightarrow> string \<Rightarrow> go_error + string" where
  "GenerateToken jl now u secret ttl scopes audience =
     (let claims = \<lparr>tc_subject = u_user_id u, tc_issued_at = now, tc_expires_at = now + ttl, tc_issuer = ''pocketci'',
                    tc_audience = (if audience \<noteq> [] then [audience] else []), tc_email = u_email u, tc_name = u_name u,
                    tc_nick_name = u_nick_name u, tc_provider = u_provider u, tc_scopes = scopes\<rparr>
      in (case jl_sign jl secret claims of
            Inl m \<Rightarrow> Inl (Wrapped ''could not sign token'' (Plain m))
          | Inr signed \<Rightarrow> Inr signed))"

definition validateTokenClaims ::
  "jwt_lib \<Rightarrow> int \<Rightarrow> string \<Rightarrow> string \<Rightarrow> string \<Rightarrow> bool \<Rightarrow> go_error + token_claims" where
  "validateTokenClaims jl now tokenString secret expectedAudience allowMissingAudience =
     (case jl_parse jl secret now tokenString of
        Inl ErrTokenExpired \<Rightarrow> Inl (Plain ''token expired'')
      | Inl ErrTokenOther \<Rightarrow> Inl (Plain ''invalid token'')
      | Inr claims \<Rightarrow>
          if expectedAudience = [] then Inr claims
          else if tc_audience claims = [] then
            (if allowMissingAudience then Inr claims else Inl (Plain ''invalid token: missing audience''))
          else if expectedAudience \<notin> set (tc_audience claims) then Inl (Plain ''invalid token: wrong audience'')
          else Inr claims)"

definition user_of_claims :: "token_claims \<Rightarrow> user" where
  "user_of_claims c =
     \<lparr>u_email = tc_email c, u_name = tc_name c, u_nick_name = tc_nick_name c, u_avatar_url = [], u_provider = tc_provider c,
      u_user_id = tc_subject c, u_organizations = [], u_groups = [], u_raw_data = [], u_scopes = tc_scopes c\<rparr>"

definition ValidateToken :: "jwt_lib \<Rightarrow> int \<Rightarrow> string \<Rightarrow> string \<Rightarrow> string \<Rightarrow> bool \<Rightarrow> go_error + user" where
  "ValidateToken jl now tokenString secret expectedAudience allowMissingAudience =
     map_sum id user_of_claims (validateTokenClaims jl now tokenString secret expectedAudience allowMissingAudience)"

definition TokenValidator :: "jwt_lib \<Rightarrow> int \<Rightarrow> string \<Rightarrow> string \<Rightarrow> go_error + user" where
  "TokenValidator jl now secret tok = ValidateToken jl now tok secret AudienceAPI True"

record token_info =
  ti_scopes :: "string list"
  ti_expiration :: int
  ti_user_id :: string

definition MCPTokenVerifier :: "jwt_lib \<Rightarrow> int \<Rightarrow> string \<Rightarrow> string \<Rightarrow> token_info option" where
  "MCPTokenVerifier jl now secret tok =
     (case validateTokenClaims jl now tok secret AudienceMCP False of
        Inl _ \<Rightarrow> None
      | Inr c \<Rightarrow> Some \<lparr>ti_scopes = tc_scopes c, ti_expiration = tc_expires_at c, ti_user_id = tc_subject c\<rparr>)"

section \<open>Access expressions\<close>

text \<open>\<open>expr.Compile\<close> and \<open>expr.Run\<close>: a program, or an error; the value of a program for a user, or an error.\<close>

type_synonym 'p expr_lib = "(string \<Rightarrow> string + 'p) \<times> ('p \<Rightarrow> user \<Rightarrow> string + bool)"

definition EvaluateAccess :: "'p expr_lib \<Rightarrow> string \<Rightarrow> user \<Rightarrow> go_error + bool" where
  "EvaluateAccess ex expression u =
     (if expression = [] then Inr True
      else case fst ex expression of
             Inl m \<Rightarrow> Inl (Wrapped ''rbac compile error'' (Plain m))
           | Inr program \<Rightarrow>
               (case snd ex program u of Inl m \<Rightarrow> Inl (Wrapped ''rbac eval error'' (Plain m)) | Inr b \<Rightarrow> Inr b))"

definition ValidateExpression :: "'p expr_lib \<Rightarrow> string \<Rightarrow> go_error option" where
  "ValidateExpression ex expression =
     (if expression = [] then None
      else case fst ex expression of Inl m \<Rightarrow> Some (Wrapped ''invalid rbac expression'' (Plain m)) | Inr _ \<Rightarrow> None)"

section \<open>Middlewares\<close>

text \<open>What a request carries: the two headers and the path that are read, and the user of its session cookie, if the
  cookie can be read. The context of a request holds the user, and the actor for the log.\<close>

record request =
  rq_authorization :: string
  rq_accept :: string
  rq_path :: string
  rq_session_user :: "user option"

record request_actor =
  ra_provider :: string
  ra_user :: string

record request_ctx =
  cx_user :: "user option"
  cx_actor :: "request_actor option"

datatype auth_response =
    Next request_ctx
  | Unauthorized string
  | Forbidden string
  | RedirectLogin

definition isAPIRequest :: "request \<Rightarrow> bool" where
  "isAPIRequest rq \<longleftrightarrow> Contains (rq_accept rq) ''application/json'' \<or> HasPrefix (rq_path rq) ''/api/''"

definition actorFromOAuthUser :: "user \<Rightarrow> request_actor option" where
  "actorFromOAuthUser u =
     (let identifier = (if u_email u \<noteq> [] then u_email u else if u_user_id u \<noteq> [] then u_user_id u else u_name u) in
      if identifier = [] then None
      else Some \<lparr>ra_provider = (if u_provider u = [] then ''oauth'' else u_provider u), ra_user = identifier\<rparr>)"

definition with_user :: "user \<Rightarrow> request_ctx \<Rightarrow> request_ctx" where
  "with_user u cx =
     \<lparr>cx_user = Some u, cx_actor = (case actorFromOAuthUser u of None \<Rightarrow> cx_actor cx | Some a \<Rightarrow> Some a)\<rparr>"

definition RequireAuth :: "auth_config \<Rightarrow> (string \<Rightarrow> go_error + user) \<Rightarrow> request \<Rightarrow> request_ctx \<Rightarrow> auth_response" where
  "RequireAuth cfg tokenValidator rq cx =
     (if \<not> HasOAuthProviders cfg then Next cx
      else if HasPrefix (rq_authorization rq) ''Bearer '' then
        (case tokenValidator (TrimPrefix (rq_authorization rq) ''Bearer '') of
           Inl _ \<Rightarrow> Unauthorized ''invalid or expired token''
         | Inr u \<Rightarrow> Next (with_user u cx))
      else
        (case rq_session_user rq of
           Some u \<Rightarrow> Next (with_user u cx)
         | None \<Rightarrow> if isAPIRequest rq then Unauthorized ''authentication required'' else RedirectLogin))"

definition RequireRBAC :: "'p expr_lib \<Rightarrow> string \<Rightarrow> request_ctx \<Rightarrow> auth_response" where
  "RequireRBAC ex expression cx =
     (if expression = [] then Next cx
      else
        (case cx_user cx of
           None \<Rightarrow> Unauthorized ''authentication required''
         | Some u \<Rightarrow>
             (case EvaluateAccess ex expression u of
                Inl _ \<Rightarrow> Forbidden ''access denied''
              | Inr allowed \<Rightarrow> if allowed then Next cx else Forbidden ''access denied'')))"

text \<open>The groups \<open>web\<close> and \<open>/api\<close> with OAuth: authentication, then the access expression of the server.\<close>

definition protected_group ::
  "jwt_lib \<Rightarrow> 'p expr_lib \<Rightarrow> auth_config \<Rightarrow> int \<Rightarrow> request \<Rightarrow> auth_response" where
  "protected_group jl ex cfg now rq =
     (case RequireAuth cfg (TokenValidator jl now (ac_session_secret cfg)) rq \<lparr>cx_user = None, cx_actor = None\<rparr> of
        Next cx \<Rightarrow> RequireRBAC ex (ac_server_rbac cfg) cx
      | denied \<Rightarrow> denied)"

definition checkPipelineRBAC :: "'p expr_lib \<Rightarrow> string \<Rightarrow> request_ctx \<Rightarrow> string option" where
  "checkPipelineRBAC ex expression cx =
     (if expression = [] then None
      else
        (case cx_user cx of
           None \<Rightarrow> Some ''pipeline requires OAuth authentication for RBAC evaluation''
         | Some u \<Rightarrow>
             (case EvaluateAccess ex expression u of
                Inr True \<Rightarrow> None
              | _ \<Rightarrow> Some ''access denied to this pipeline'')))"

section \<open>Share links\<close>

definition hex_encode :: "string \<Rightarrow> string" where
  "hex_encode s = concat (map (\<lambda>c. [hex_digit (of_char c div 16), hex_digit (of_char c mod 16)]) s)"

definition hex_nibble :: "char \<Rightarrow> nat option" where
  "hex_nibble c =
     (if is_digit c then Some (of_char c - 48)
      else if CHR ''a'' \<le> c \<and> c \<le> CHR ''f'' then Some (of_char c - 87)
      else if CHR ''A'' \<le> c \<and> c \<le> CHR ''F'' then Some (of_char c - 55)
      else None)"

fun hex_decode :: "string \<Rightarrow> string option" where
  "hex_decode [] = Some []"
| "hex_decode (a # b # s) =
     (case (hex_nibble a, hex_nibble b, hex_decode s) of
        (Some h, Some l, Some r) \<Rightarrow> Some (char_of (16 * h + l) # r)
      | _ \<Rightarrow> None)"
| "hex_decode [a] = None"

text \<open>What stands before and after the last separator.\<close>

definition cut_last :: "char \<Rightarrow> string \<Rightarrow> (string \<times> string) option" where
  "cut_last c s =
     (if c \<in> set s
      then Some (rev (tl (dropWhile (\<lambda>x. x \<noteq> c) (rev s))), rev (takeWhile (\<lambda>x. x \<noteq> c) (rev s)))
      else None)"

definition share_message :: "string \<Rightarrow> string \<Rightarrow> string" where
  "share_message runID expires = ''share:'' @ runID @ '':'' @ expires"

definition GenerateShareTokenWithTTL :: "(string \<Rightarrow> string \<Rightarrow> string) \<Rightarrow> int \<Rightarrow> string \<Rightarrow> string \<Rightarrow> int \<Rightarrow> go_error + string" where
  "GenerateShareTokenWithTTL hmac now runID secret ttl =
     (if runID = [] then Inl (Plain ''runID must not be empty'')
      else (let expires = itoa (now + ttl) in
            Inr (runID @ ''.'' @ expires @ ''.'' @ hex_encode (hmac secret (share_message runID expires)))))"

definition defaultShareTokenTTL :: int where
  "defaultShareTokenTTL = 30 * 24 * 3600"

definition GenerateShareToken :: "(string \<Rightarrow> string \<Rightarrow> string) \<Rightarrow> int \<Rightarrow> string \<Rightarrow> string \<Rightarrow> go_error + string" where
  "GenerateShareToken hmac now runID secret = GenerateShareTokenWithTTL hmac now runID secret defaultShareTokenTTL"

definition ValidateShareToken :: "(string \<Rightarrow> string \<Rightarrow> string) \<Rightarrow> int \<Rightarrow> string \<Rightarrow> string \<Rightarrow> go_error + string" where
  "ValidateShareToken hmac now tok secret =
     (case cut_last (CHR ''.'') tok of
        None \<Rightarrow> Inl (Plain ''malformed share token'')
      | Some (rest, sigHex) \<Rightarrow>
          (case cut_last (CHR ''.'') rest of
             None \<Rightarrow> Inl (Plain ''malformed share token'')
           | Some (runID, expires) \<Rightarrow>
               if runID = [] \<or> expires = [] \<or> sigHex = [] then Inl (Plain ''malformed share token'')
               else
                 (case parse_int64 expires of
                    None \<Rightarrow> Inl (Plain ''malformed share token expiry'')
                  | Some expiresAt \<Rightarrow>
                      if now > expiresAt then Inl (Plain ''share token expired'')
                      else
                        (case hex_decode sigHex of
                           None \<Rightarrow> Inl (Plain ''malformed share token signature'')
                         | Some expected \<Rightarrow>
                             if hmac secret (share_message runID expires) = expected then Inr runID
                             else Inl (Plain ''invalid share token'')))))"


section \<open>The signing secret\<close>

text \<open>The secrets manager: reading, listing a scope, and writing, each with its error. What a call writes is returned.\<close>

record secret_manager =
  sm_get :: "string \<Rightarrow> string \<Rightarrow> secret_result"
  sm_list :: "string \<Rightarrow> string + string list"
  sm_set :: "string \<Rightarrow> string \<Rightarrow> string \<Rightarrow> string option"

definition shareSigningKeyName :: string where
  "shareSigningKeyName = ''share_link_signing_key''"

text \<open>\<open>random\<close> is what \<open>rand.Read\<close> gives, \<open>fallback\<close> the secret of a process without a manager. The result comes with the new
  fallback and the secret that was stored.\<close>

definition resolveShareSigningSecret ::
  "secret_manager option \<Rightarrow> string + string \<Rightarrow> string \<Rightarrow> (go_error + string) \<times> string \<times> (string \<times> string \<times> string) option" where
  "resolveShareSigningSecret mgr random fallback =
     (case mgr of
        None \<Rightarrow>
          if fallback \<noteq> [] then (Inr fallback, fallback, None)
          else (case random of
                  Inl m \<Rightarrow> (Inl (Wrapped ''could not generate share signing secret'' (Plain m)), fallback, None)
                | Inr b \<Rightarrow> (Inr (hex_encode b), hex_encode b, None))
      | Some m \<Rightarrow>
          (case sm_get m GlobalScope shareSigningKeyName of
             Secret existing \<Rightarrow> (Inr existing, fallback, None)
           | SecretError e \<Rightarrow> (Inl (Wrapped ''could not read share signing key'' (Plain e)), fallback, None)
           | SecretNotFound \<Rightarrow>
               (case random of
                  Inl e \<Rightarrow> (Inl (Wrapped ''could not generate share signing key'' (Plain e)), fallback, None)
                | Inr b \<Rightarrow>
                    (case sm_set m GlobalScope shareSigningKeyName (hex_encode b) of
                       Some e \<Rightarrow> (Inl (Wrapped ''could not persist share signing key'' (Plain e)), fallback, None)
                     | None \<Rightarrow> (Inr (hex_encode b), fallback, Some (GlobalScope, shareSigningKeyName, hex_encode b))))))"

definition share_controller_secret :: "secret_manager option \<Rightarrow> string + string \<Rightarrow> string \<Rightarrow> string" where
  "share_controller_secret mgr random fallback =
     (case fst (resolveShareSigningSecret mgr random fallback) of Inl _ \<Rightarrow> [] | Inr s \<Rightarrow> s)"

definition scope_secrets :: "secret_manager \<Rightarrow> string \<Rightarrow> string list" where
  "scope_secrets m scope =
     (case sm_list m scope of
        Inl _ \<Rightarrow> []
      | Inr keys \<Rightarrow>
          List.map_filter (\<lambda>key. case sm_get m scope key of Secret v \<Rightarrow> Some v | _ \<Rightarrow> None) (filter (\<lambda>k. \<not> IsSystemKey k) keys))"

definition collectSecretValues :: "secret_manager option \<Rightarrow> string \<Rightarrow> string list" where
  "collectSecretValues mgr pipelineID =
     (case mgr of
        None \<Rightarrow> []
      | Some m \<Rightarrow> scope_secrets m GlobalScope @ scope_secrets m (PipelineScope pipelineID))"

text \<open>\<open>POST /api/runs/:run_id/share\<close>: the path of the link, or the HTTP status of the error.\<close>

definition CreateShare :: "(string \<Rightarrow> string \<Rightarrow> string) \<Rightarrow> int \<Rightarrow> string \<Rightarrow> string \<Rightarrow> db \<Rightarrow> nat + string" where
  "CreateShare hmac now signingSecret runID d =
     (case find (\<lambda>r. r_id r = runID) (runs d) of
        None \<Rightarrow> Inl 404
      | Some _ \<Rightarrow>
          (case GenerateShareToken hmac now runID signingSecret of
             Inl _ \<Rightarrow> Inl 500
           | Inr tok \<Rightarrow> Inr (''/share/'' @ tok @ ''/tasks'')))"

text \<open>The first step of \<open>GET /share/:token/tasks\<close>, and the text of a terminal on that page.\<close>

definition share_validateToken :: "(string \<Rightarrow> string \<Rightarrow> string) \<Rightarrow> int \<Rightarrow> string \<Rightarrow> string \<Rightarrow> nat + string" where
  "share_validateToken hmac now signingSecret tok =
     (case ValidateShareToken hmac now tok signingSecret of Inl _ \<Rightarrow> Inl 404 | Inr runID \<Rightarrow> Inr runID)"

definition share_redact :: "secret_manager option \<Rightarrow> string \<Rightarrow> string \<Rightarrow> string" where
  "share_redact mgr pipelineID html = RedactSecrets html (collectSecretValues mgr pipelineID)"

section \<open>Tokens and audiences\<close>

text \<open>What the code relies on of the JWT library: a text that it has signed with a secret is read back with that secret as
  the same claims until they expire, and refused as expired from then on.\<close>

definition jwt_faithful :: "jwt_lib \<Rightarrow> string \<Rightarrow> bool" where
  "jwt_faithful jl secret \<longleftrightarrow>
     (\<forall>c tok now. jl_sign jl secret c = Inr tok \<longrightarrow>
        jl_parse jl secret now tok = (if now < tc_expires_at c then Inr c else Inl ErrTokenExpired))"


definition sample_claims :: token_claims where
  "sample_claims = \<lparr>tc_subject = ''u1'', tc_issued_at = 0, tc_expires_at = 10, tc_issuer = ''pocketci'', tc_audience = [''mcp''],
     tc_email = ''a@b'', tc_name = ''A'', tc_nick_name = ''a'', tc_provider = ''github'', tc_scopes = [''ci:read'']\<rparr>"

definition sample_jwt :: jwt_lib where
  "sample_jwt = \<lparr>jl_sign = (\<lambda>s c. if c = sample_claims then Inr ''t'' else Inl ''unsupported''),
     jl_parse = (\<lambda>s now t. if t \<noteq> ''t'' then Inl ErrTokenOther else if now < 10 then Inr sample_claims else Inl ErrTokenExpired)\<rparr>"

definition sample_user :: user where
  "sample_user = \<lparr>u_email = ''a@b'', u_name = ''A'', u_nick_name = ''a'', u_avatar_url = [], u_provider = ''github'', u_user_id = ''u1'',
     u_organizations = [''acme''], u_groups = [], u_raw_data = [], u_scopes = []\<rparr>"


text \<open>The documented expressions over \<open>Organizations\<close> and \<open>Groups\<close> see an empty list for every user who comes with a token.\<close>

lemma token_users_have_no_organizations:
  "TokenValidator jl now secret tok = Inr u \<Longrightarrow> u_organizations u = [] \<and> u_groups u = []"
  by (cases "validateTokenClaims jl now tok secret AudienceAPI True")
    (auto simp: TokenValidator_def ValidateToken_def user_of_claims_def)

section \<open>Who gets through\<close>

text \<open>With OAuth, a protected route is reached exactly by a user who comes with a valid API token or, without a
  bearer header, with a session, and whom the access expression of the server admits; the handler sees this user. An
  expression that does not compile or fails denies.\<close>

theorem protected_group_admits:
  assumes "HasOAuthProviders cfg"
  shows "((\<exists>cx. protected_group jl ex cfg now rq = Next cx \<and> cx_user cx = Some u) \<longleftrightarrow>
    (if HasPrefix (rq_authorization rq) ''Bearer ''
     then TokenValidator jl now (ac_session_secret cfg) (TrimPrefix (rq_authorization rq) ''Bearer '') = Inr u
     else rq_session_user rq = Some u) \<and>
    (ac_server_rbac cfg = [] \<or> EvaluateAccess ex (ac_server_rbac cfg) u = Inr True)) \<and>
    (\<forall>cx. protected_group jl ex cfg now rq = Next cx \<longrightarrow> cx_user cx \<noteq> None)"
proof -
  have rbac: "RequireRBAC ex expr (with_user v cx) = Next cx' \<longleftrightarrow>
      cx' = with_user v cx \<and> (expr = [] \<or> EvaluateAccess ex expr v = Inr True)" for expr v cx cx'
    by (auto simp: RequireRBAC_def with_user_def split: sum.splits)
  have "(\<exists>cx. protected_group jl ex cfg now rq = Next cx \<and> cx_user cx = Some u) \<longleftrightarrow>
    (if HasPrefix (rq_authorization rq) ''Bearer ''
     then TokenValidator jl now (ac_session_secret cfg) (TrimPrefix (rq_authorization rq) ''Bearer '') = Inr u
     else rq_session_user rq = Some u) \<and>
    (ac_server_rbac cfg = [] \<or> EvaluateAccess ex (ac_server_rbac cfg) u = Inr True)"
    using assms rbac
    by (auto simp: protected_group_def RequireAuth_def split: sum.splits option.splits) (simp_all add: with_user_def)
  moreover have "cx_user cx \<noteq> None" if "protected_group jl ex cfg now rq = Next cx" for cx
    using that assms rbac
    by (auto simp: protected_group_def RequireAuth_def with_user_def split: sum.splits option.splits if_splits)
  ultimately show ?thesis by blast
qed

section \<open>Share links\<close>

lemma of_char_hex_digit: "d < 16 \<Longrightarrow> of_char (hex_digit d) = (if d < 10 then 48 + d else 87 + d)"
  by (simp add: hex_digit_def)

lemma hex_digit_below:
  assumes "d < 16"
  shows "hex_nibble (hex_digit d) = Some d" and "hex_digit d \<noteq> CHR ''.''"
proof -
  note code = of_char_hex_digit [OF assms]
  show "hex_nibble (hex_digit d) = Some d"
    using assms by (simp add: hex_nibble_def is_digit_def less_eq_char_def code)
  have "of_char (CHR ''.'') = (46 :: nat)" by simp
  with code show "hex_digit d \<noteq> CHR ''.''" by (cases "hex_digit d = CHR ''.''") (simp_all split: if_splits)
qed

lemma byte_nibbles: "of_char c div 16 < (16 :: nat)" "of_char c mod 16 < (16 :: nat)"
  "char_of (16 * (of_char c div 16) + of_char c mod 16 :: nat) = c"
proof -
  have "of_char c < (256 :: nat)" by (rule nat_of_char_less_256)
  then show "of_char c div 16 < (16 :: nat)" by linarith
  show "of_char c mod 16 < (16 :: nat)" by simp
  have "16 * (of_char c div 16) + of_char c mod 16 = (of_char c :: nat)" by (rule mult_div_mod_eq)
  then show "char_of (16 * (of_char c div 16) + of_char c mod 16 :: nat) = c" by (simp only: char_of_char)
qed

lemma hex_encode_Cons: "hex_encode (c # s) = hex_digit (of_char c div 16) # hex_digit (of_char c mod 16) # hex_encode s"
  by (simp add: hex_encode_def)

lemma hex_decode_encode: "hex_decode (hex_encode s) = Some s"
proof (induction s)
  case (Cons c s)
  then show ?case
    by (simp only: hex_encode_Cons hex_decode.simps hex_digit_below byte_nibbles option.case prod.case)
qed (simp add: hex_encode_def)

lemma hex_encode_plain: "CHR ''.'' \<notin> set (hex_encode s)"
proof (induction s)
  case (Cons c s)
  then show ?case
    using hex_digit_below(2) [OF byte_nibbles(1), of c] hex_digit_below(2) [OF byte_nibbles(2), of c]
    by (simp only: hex_encode_Cons) (simp add: not_sym)
qed (simp add: hex_encode_def)

lemma cut_last_eq: "c \<notin> set b \<Longrightarrow> cut_last c (a @ c # b) = Some (a, b)"
proof -
  assume b: "c \<notin> set b"
  have "rev (a @ c # b) = rev b @ c # rev a" by simp
  moreover have "takeWhile (\<lambda>x. x \<noteq> c) (rev b @ c # rev a) = rev b" "dropWhile (\<lambda>x. x \<noteq> c) (rev b @ c # rev a) = c # rev a"
    using b by (simp_all add: takeWhile_append2 dropWhile_append2 takeWhile_tail) (auto simp: takeWhile_append dropWhile_append)
  ultimately show ?thesis by (simp add: cut_last_def)
qed


lemma cut_last_Some: "cut_last c s = Some (a, b) \<longleftrightarrow> s = a @ c # b \<and> c \<notin> set b"
proof
  assume cut: "cut_last c s = Some (a, b)"
  then have "c \<in> set s" by (simp add: cut_last_def split: if_splits)
  then obtain a' b' where s: "s = a' @ c # b'" "c \<notin> set b'" using split_list_last by metis
  with cut cut_last_eq show "s = a @ c # b \<and> c \<notin> set b" by auto
qed (auto simp: cut_last_eq)

lemma itoa_plain: "CHR ''.'' \<notin> set (itoa n)"
proof -
  have "\<not> is_digit (CHR ''.'')" by (simp add: is_digit_def)
  then show ?thesis using digits10_all_digits by (auto simp: itoa_def)
qed

lemma itoa_nonempty: "itoa n \<noteq> []"
  using digits10_nonempty by (auto simp: itoa_def)

text \<open>Which share links are accepted: those that name a run and a time that has not passed and carry, in hexadecimal,
  the signature of exactly this run and time.\<close>

theorem share_token_accepted_iff:
  "ValidateShareToken hmac now tok secret = Inr runID \<longleftrightarrow>
     (\<exists>expires sigHex expiresAt. tok = runID @ ''.'' @ expires @ ''.'' @ sigHex \<and> CHR ''.'' \<notin> set expires \<and>
        CHR ''.'' \<notin> set sigHex \<and> runID \<noteq> [] \<and> sigHex \<noteq> [] \<and> parse_int64 expires = Some expiresAt \<and> now \<le> expiresAt \<and>
        hex_decode sigHex = Some (hmac secret (share_message runID expires)))"
proof
  assume "ValidateShareToken hmac now tok secret = Inr runID"
  then show "\<exists>expires sigHex expiresAt. tok = runID @ ''.'' @ expires @ ''.'' @ sigHex \<and> CHR ''.'' \<notin> set expires \<and>
        CHR ''.'' \<notin> set sigHex \<and> runID \<noteq> [] \<and> sigHex \<noteq> [] \<and> parse_int64 expires = Some expiresAt \<and> now \<le> expiresAt \<and>
        hex_decode sigHex = Some (hmac secret (share_message runID expires))"
    by (auto simp: ValidateShareToken_def cut_last_Some not_less split: option.splits prod.splits if_splits) blast?
next
  assume "\<exists>expires sigHex expiresAt. tok = runID @ ''.'' @ expires @ ''.'' @ sigHex \<and> CHR ''.'' \<notin> set expires \<and>
        CHR ''.'' \<notin> set sigHex \<and> runID \<noteq> [] \<and> sigHex \<noteq> [] \<and> parse_int64 expires = Some expiresAt \<and> now \<le> expiresAt \<and>
        hex_decode sigHex = Some (hmac secret (share_message runID expires))"
  then obtain expires sigHex expiresAt where tok: "tok = runID @ ''.'' @ expires @ ''.'' @ sigHex"
    and plain: "CHR ''.'' \<notin> set expires" "CHR ''.'' \<notin> set sigHex" and parts: "runID \<noteq> []" "sigHex \<noteq> []"
    and valid: "parse_int64 expires = Some expiresAt" "now \<le> expiresAt" "hex_decode sigHex = Some (hmac secret (share_message runID expires))"
    by blast
  have "cut_last (CHR ''.'') tok = Some (runID @ ''.'' @ expires, sigHex)" "cut_last (CHR ''.'') (runID @ ''.'' @ expires) = Some (runID, expires)"
    using plain by (simp_all add: tok cut_last_Some)
  moreover have "expires \<noteq> []" using valid(1) by (auto simp: parse_int64_def)
  ultimately show "ValidateShareToken hmac now tok secret = Inr runID"
    using parts valid by (simp add: ValidateShareToken_def)
qed

text \<open>A share link opens its run, and only until it expires.\<close>

theorem share_link_roundtrip:
  assumes "runID \<noteq> []" and "in_int64 (t0 + ttl)" and "hmac secret (share_message runID (itoa (t0 + ttl))) \<noteq> []"
  shows "\<exists>tok. GenerateShareTokenWithTTL hmac t0 runID secret ttl = Inr tok \<and>
    ValidateShareToken hmac now tok secret = (if now \<le> t0 + ttl then Inr runID else Inl (Plain ''share token expired''))"
proof -
  let ?expires = "itoa (t0 + ttl)" let ?sig = "hex_encode (hmac secret (share_message runID ?expires))"
  have "cut_last (CHR ''.'') (runID @ ''.'' @ ?expires @ ''.'' @ ?sig) = Some (runID @ ''.'' @ ?expires, ?sig)"
    "cut_last (CHR ''.'') (runID @ ''.'' @ ?expires) = Some (runID, ?expires)"
    using itoa_plain hex_encode_plain by (simp_all add: cut_last_Some)
  moreover have "?sig \<noteq> []" using assms(3) by (cases "hmac secret (share_message runID ?expires)") (simp_all add: hex_encode_def)
  ultimately show ?thesis
    using assms(1,2) itoa_nonempty
    by (simp add: GenerateShareTokenWithTTL_def ValidateShareToken_def parse_int64_itoa hex_decode_encode Let_def)
qed

theorem share_link_roundtrip_witness:
  "\<exists>tok. GenerateShareTokenWithTTL (\<lambda>k m. k @ m) 100 ''r1'' ''key'' 50 = Inr tok \<and>
     ValidateShareToken (\<lambda>k m. k @ m) 120 tok ''key'' = Inr ''r1''"
  using share_link_roundtrip [of "''r1''" 100 50 "\<lambda>k m. k @ m" "''key''" 120] by (simp add: in_int64_def int64_min_def int64_max_def share_message_def)

theorem protected_group_admits_witness:
  "\<exists>cx. protected_group sample_jwt (\<lambda>_. Inl ''no compiler'' :: string + unit, \<lambda>_ _. Inr True)
      \<lparr>ac_github = (''id'', ''secret''), ac_gitlab = ([], []), ac_microsoft = ([], []), ac_session_secret = ''k'', ac_callback_url = [],
       ac_server_rbac = []\<rparr> 5
      \<lparr>rq_authorization = [], rq_accept = [], rq_path = ''/pipelines/'', rq_session_user = Some sample_user\<rparr> = Next cx \<and>
     cx_user cx = Some sample_user"
  by (subst protected_group_admits [THEN conjunct1]) (simp_all add: HasOAuthProviders_def both_set_def HasPrefix_def)

text \<open>When the signing key cannot be read or stored at start-up, links are signed with the empty key: whoever knows the run
  can compute one that the server accepts.\<close>

lemma share_secret_may_be_empty:
  assumes "sm_get m GlobalScope shareSigningKeyName = SecretError e"
  shows "share_controller_secret (Some m) random fallback = []"
  using assms by (simp add: share_controller_secret_def resolveShareSigningSecret_def)

text \<open>The key that signs the links is an ordinary global secret: the environment of any task can name it.\<close>

lemma signing_key_readable_by_tasks:
  assumes "get (PipelineScope pid) shareSigningKeyName = SecretNotFound" and "get GlobalScope shareSigningKeyName = Secret key"
  shows "ResolveSecretString (Some get) pid (''secret:'' @ shareSigningKeyName) = Inr (key, True)"
proof -
  have "\<not> IsSystemKey shareSigningKeyName" by (simp add: IsSystemKey_def shareSigningKeyName_def)
  moreover have "HasPrefix (''secret:'' @ shareSigningKeyName) SecretPrefix"
    "TrimPrefix (''secret:'' @ shareSigningKeyName) SecretPrefix = shareSigningKeyName"
    by (simp_all add: SecretPrefix_def HasPrefix_def TrimPrefix_def)
  ultimately show ?thesis using assms by (simp add: ResolveSecretString_def)
qed

text \<open>Sharing asks only whether the run exists: a user whom the pipeline's expression denies gets a link to its page.\<close>

lemma share_ignores_pipeline_access:
  assumes "runs d = [r]" and "r_id r \<noteq> []"
  shows "\<exists>path. CreateShare hmac now secret (r_id r) d = Inr path"
  using assms by (simp add: CreateShare_def GenerateShareToken_def GenerateShareTokenWithTTL_def Let_def)

end
