(* ===== verification/Webhooks.thy ===== *)
theory Webhooks
  imports Execution Auth_Tokens
begin

text \<open>
  Webhooks, \<open>webhooks\<close> (\<open>webhooks.go\<close>, \<open>verify.go\<close>, \<open>event.go\<close> and the ten providers) and \<open>server/api_webhooks_controller.go\<close>:
  which provider takes a request, when it believes the sender, and when the server starts a run. HMAC and the syntax of
  JSON are parameters; \<open>unmarshal\<close> gives the members of an object in the order of the text.
\<close>

section \<open>Requests\<close>

text \<open>Headers and query as \<open>net/http\<close> and \<open>net/url\<close> parse them: the keys of the headers are canonical. A body that cannot be
  read is \<open>None\<close>.\<close>

record http_request =
  hr_method :: string
  hr_url :: string
  hr_headers :: "(string, string list) gomap"
  hr_query :: "(string, string list) gomap"
  hr_body :: "string option"

definition upper_char :: "char \<Rightarrow> char" where
  "upper_char c = (let n = of_char c :: nat in if 97 \<le> n \<and> n \<le> 122 then char_of (n - 32) else c)"

definition token_char :: "char \<Rightarrow> bool" where
  "token_char c \<longleftrightarrow> is_digit c \<or> (97 \<le> (of_char (lower_char c) :: nat) \<and> (of_char (lower_char c) :: nat) \<le> 122) \<or>
     c \<in> {CHR ''!'', CHR ''#'', CHR ''$'', CHR ''%'', CHR ''&'', CHR 0x27, CHR ''*'', CHR ''+'', CHR ''-'', CHR ''.'', CHR ''^'', CHR ''_'',
       CHR 0x60, CHR ''|'', CHR ''~''}"

fun canonical_from :: "bool \<Rightarrow> string \<Rightarrow> string" where
  "canonical_from up [] = []"
| "canonical_from up (c # s) = (if up then upper_char c else lower_char c) # canonical_from (c = CHR ''-'') s"

definition CanonicalHeaderKey :: "string \<Rightarrow> string" where
  "CanonicalHeaderKey k = (if list_all token_char k then canonical_from True k else k)"

definition first_value :: "(string, string list) gomap \<Rightarrow> string \<Rightarrow> string" where
  "first_value m k = (case gm_get m k of Some (v # _) \<Rightarrow> v | _ \<Rightarrow> [])"

definition Header_Get :: "http_request \<Rightarrow> string \<Rightarrow> string" where
  "Header_Get r k = first_value (hr_headers r) (CanonicalHeaderKey k)"

definition Query_Get :: "http_request \<Rightarrow> string \<Rightarrow> string" where
  "Query_Get r k = first_value (hr_query r) k"

section \<open>Events\<close>

record webhook_event =
  ev_provider :: string
  ev_event_type :: string
  ev_method :: string
  ev_url :: string
  ev_headers :: "(string, string) gomap"
  ev_body :: string
  ev_query :: "(string, string) gomap"

definition first_values :: "(string, string list) gomap \<Rightarrow> (string, string) gomap" where
  "first_values m = List.map_filter (\<lambda>(k, vs). case vs of [] \<Rightarrow> None | v # _ \<Rightarrow> Some (k, v)) m"

definition NewEvent :: "string \<Rightarrow> string \<Rightarrow> http_request \<Rightarrow> string \<Rightarrow> webhook_event" where
  "NewEvent pname eventType r body =
     \<lparr>ev_provider = pname, ev_event_type = eventType, ev_method = hr_method r, ev_url = hr_url r,
      ev_headers = first_values (hr_headers r), ev_body = body, ev_query = first_values (hr_query r)\<rparr>"

definition ErrUnauthorized :: go_error where
  "ErrUnauthorized = Plain ''webhook signature validation failed''"

definition ErrNoMatch :: go_error where
  "ErrNoMatch = Plain ''no webhook provider matched the request''"

text \<open>The interface \<open>Provider\<close>.\<close>

record webhook_provider =
  pv_name :: string
  pv_match :: "http_request \<Rightarrow> bool"
  pv_parse :: "http_request \<Rightarrow> string \<Rightarrow> string \<Rightarrow> go_error + webhook_event"

fun Detect :: "webhook_provider list \<Rightarrow> http_request \<Rightarrow> string \<Rightarrow> string \<Rightarrow> go_error + webhook_event" where
  "Detect [] r body secret = Inl ErrNoMatch"
| "Detect (p # ps) r body secret =
     (if pv_match p r then
        (case pv_parse p r body secret of Inl e \<Rightarrow> Inl (Wrapped ''parse'' e) | Inr ev \<Rightarrow> Inr ev)
      else Detect ps r body secret)"

section \<open>Signatures\<close>

type_synonym hmac_fun = "string \<Rightarrow> string \<Rightarrow> string"

definition HexHMACSHA256 :: "hmac_fun \<Rightarrow> string \<Rightarrow> string \<Rightarrow> string" where
  "HexHMACSHA256 hmac payload secret = hex_encode (hmac secret payload)"

definition VerifyHexHMACSHA256 :: "hmac_fun \<Rightarrow> string \<Rightarrow> string \<Rightarrow> string \<Rightarrow> bool" where
  "VerifyHexHMACSHA256 hmac payload secret signature \<longleftrightarrow> signature = HexHMACSHA256 hmac payload secret"

definition VerifyHexHMACSHA256Prefixed :: "hmac_fun \<Rightarrow> string \<Rightarrow> string \<Rightarrow> string \<Rightarrow> string \<Rightarrow> bool" where
  "VerifyHexHMACSHA256Prefixed hmac payload secret sigHeader pre \<longleftrightarrow>
     HasPrefix sigHeader pre \<and> VerifyHexHMACSHA256 hmac payload secret (TrimPrefix sigHeader pre)"

section \<open>Event types from the body\<close>

text \<open>\<open>json.Unmarshal\<close> of an object into a struct with one string field of this name: keys match without regard to case, later
  ones replace earlier ones, \<open>null\<close> leaves the field alone and any other value is an error.\<close>

fun str_member :: "string \<Rightarrow> (string \<times> json) list \<Rightarrow> string \<Rightarrow> string option" where
  "str_member name [] acc = Some acc"
| "str_member name ((k, v) # ms) acc =
     (if ToLower k = name then
        (case v of JStr s \<Rightarrow> str_member name ms s | JNull \<Rightarrow> str_member name ms acc | _ \<Rightarrow> None)
      else str_member name ms acc)"

definition object_members :: "json option \<Rightarrow> (string \<times> json) list option" where
  "object_members v = (case v of Some (JObj ms) \<Rightarrow> Some ms | Some JNull \<Rightarrow> Some [] | _ \<Rightarrow> None)"

type_synonym unmarshal_fun = "string \<Rightarrow> json option"

definition body_type :: "unmarshal_fun \<Rightarrow> string \<Rightarrow> string" where
  "body_type unmarshal body =
     (case Option.bind (object_members (unmarshal body)) (\<lambda>ms. str_member ''type'' ms []) of None \<Rightarrow> [] | Some t \<Rightarrow> t)"

text \<open>The first of two string fields that is not empty.\<close>

definition extract_first :: "string \<Rightarrow> string \<Rightarrow> unmarshal_fun \<Rightarrow> string \<Rightarrow> string" where
  "extract_first f g unmarshal body =
     (case object_members (unmarshal body) of
        None \<Rightarrow> []
      | Some ms \<Rightarrow>
          (case (str_member f ms [], str_member g ms []) of
             (Some a, Some b) \<Rightarrow> if a \<noteq> [] then a else b
           | _ \<Rightarrow> []))"

text \<open>Honeybadger decodes into a \<open>map[string]any\<close>: keys are exact and the last member of a key counts.\<close>

definition any_string :: "string \<Rightarrow> (string \<times> json) list \<Rightarrow> string option" where
  "any_string name ms =
     (case find (\<lambda>(k, v). k = name) (rev ms) of Some (_, JStr s) \<Rightarrow> Some s | _ \<Rightarrow> None)"

definition honeybadger_type :: "unmarshal_fun \<Rightarrow> string \<Rightarrow> string" where
  "honeybadger_type unmarshal body =
     (case object_members (unmarshal body) of
        None \<Rightarrow> []
      | Some ms \<Rightarrow>
          (case any_string ''type'' ms of
             Some v \<Rightarrow> v
           | None \<Rightarrow> (case any_string ''event'' ms of Some v \<Rightarrow> v | None \<Rightarrow> [])))"

fun message_events :: "json list \<Rightarrow> string list option" where
  "message_events [] = Some []"
| "message_events (m # ms) =
     (case (Option.bind (object_members (Some m)) (\<lambda>fs. str_member ''event'' fs []), message_events ms) of
        (Some e, Some es) \<Rightarrow> Some (e # es)
      | _ \<Rightarrow> None)"

fun messages_member :: "(string \<times> json) list \<Rightarrow> string list \<Rightarrow> string list option" where
  "messages_member [] acc = Some acc"
| "messages_member ((k, v) # ms) acc =
     (if ToLower k = ''messages'' then
        (case v of
           JArr xs \<Rightarrow> (case message_events xs of None \<Rightarrow> None | Some es \<Rightarrow> messages_member ms es)
         | JNull \<Rightarrow> messages_member ms []
         | _ \<Rightarrow> None)
      else messages_member ms acc)"

definition pagerduty_type :: "unmarshal_fun \<Rightarrow> string \<Rightarrow> string" where
  "pagerduty_type unmarshal body =
     (case object_members (unmarshal body) of
        None \<Rightarrow> []
      | Some ms \<Rightarrow>
          (case (messages_member ms [], str_member ''event'' ms [], str_member ''type'' ms []) of
             (Some messages, Some event, Some typ) \<Rightarrow>
               if messages \<noteq> [] \<and> hd messages \<noteq> [] then hd messages else if event \<noteq> [] then event else typ
           | _ \<Rightarrow> []))"

section \<open>Providers\<close>

text \<open>A provider that skips the check when no secret is set.\<close>

definition checked :: "string \<Rightarrow> bool \<Rightarrow> webhook_event \<Rightarrow> go_error + webhook_event" where
  "checked secret valid event = (if secret \<noteq> [] \<and> \<not> valid then Inl ErrUnauthorized else Inr event)"

definition github :: "hmac_fun \<Rightarrow> webhook_provider" where
  "github hmac =
     \<lparr>pv_name = ''github'', pv_match = (\<lambda>r. Header_Get r ''X-GitHub-Event'' \<noteq> []),
      pv_parse = (\<lambda>r body secret.
        checked secret
          (let sigHeader = Header_Get r ''X-Hub-Signature-256''
           in sigHeader \<noteq> [] \<and> VerifyHexHMACSHA256Prefixed hmac body secret sigHeader ''sha256='')
          (NewEvent ''github'' (Header_Get r ''X-GitHub-Event'') r body))\<rparr>"

definition gitlab_signature :: "hmac_fun \<Rightarrow> string \<Rightarrow> string \<Rightarrow> string \<Rightarrow> bool" where
  "gitlab_signature hmac body secret sigHeader \<longleftrightarrow>
     (if HasPrefix sigHeader ''sha256='' then VerifyHexHMACSHA256Prefixed hmac body secret sigHeader ''sha256=''
      else sigHeader = secret)"

definition gitlab :: "hmac_fun \<Rightarrow> webhook_provider" where
  "gitlab hmac =
     \<lparr>pv_name = ''gitlab'', pv_match = (\<lambda>r. Header_Get r ''X-Gitlab-Event'' \<noteq> []),
      pv_parse = (\<lambda>r body secret.
        checked secret
          (let sigHeader = Header_Get r ''X-Gitlab-Token'' in sigHeader \<noteq> [] \<and> gitlab_signature hmac body secret sigHeader)
          (NewEvent ''gitlab'' (Header_Get r ''X-Gitlab-Event'') r body))\<rparr>"

definition bitbucket :: "hmac_fun \<Rightarrow> webhook_provider" where
  "bitbucket hmac =
     \<lparr>pv_name = ''bitbucket'', pv_match = (\<lambda>r. Header_Get r ''X-Event-Key'' \<noteq> []),
      pv_parse = (\<lambda>r body secret.
        checked secret
          (let sigHeader = Header_Get r ''X-Hub-Signature''
           in sigHeader \<noteq> [] \<and> VerifyHexHMACSHA256Prefixed hmac body secret sigHeader ''sha256='')
          (NewEvent ''bitbucket'' (Header_Get r ''X-Event-Key'') r body))\<rparr>"

definition honeybadger :: "unmarshal_fun \<Rightarrow> webhook_provider" where
  "honeybadger unmarshal =
     \<lparr>pv_name = ''honeybadger'', pv_match = (\<lambda>r. Header_Get r ''Honeybadger-Token'' \<noteq> []),
      pv_parse = (\<lambda>r body secret.
        if secret = [] then Inl ErrUnauthorized
        else
          (let tok = Header_Get r ''Honeybadger-Token'' in
           if tok = [] then Inl ErrUnauthorized
           else if tok \<noteq> secret then Inl ErrUnauthorized
           else Inr (NewEvent ''honeybadger'' (honeybadger_type unmarshal body) r body)))\<rparr>"

definition slack :: "hmac_fun \<Rightarrow> unmarshal_fun \<Rightarrow> webhook_provider" where
  "slack hmac unmarshal =
     \<lparr>pv_name = ''slack'', pv_match = (\<lambda>r. Header_Get r ''X-Slack-Signature'' \<noteq> []),
      pv_parse = (\<lambda>r body secret.
        checked secret
          (let timestamp = Header_Get r ''X-Slack-Request-Timestamp''; sigHeader = Header_Get r ''X-Slack-Signature''
           in timestamp \<noteq> [] \<and> sigHeader \<noteq> [] \<and>
              VerifyHexHMACSHA256Prefixed hmac (''v0:'' @ timestamp @ '':'' @ body) secret sigHeader ''v0='')
          (NewEvent ''slack'' (body_type unmarshal body) r body))\<rparr>"

definition stripe_part :: "string \<Rightarrow> string \<times> string list \<Rightarrow> string \<times> string list" where
  "stripe_part part acc =
     (if HasPrefix part ''t='' then (TrimPrefix part ''t='', snd acc)
      else if HasPrefix part ''v1='' then (fst acc, snd acc @ [TrimPrefix part ''v1=''])
      else acc)"

definition stripe_signature :: "hmac_fun \<Rightarrow> string \<Rightarrow> string \<Rightarrow> string \<Rightarrow> bool" where
  "stripe_signature hmac body secret sigHeader \<longleftrightarrow>
     (case fold stripe_part (SplitChar (CHR '','') sigHeader) ([], []) of
        (timestamp, signatures) \<Rightarrow>
          timestamp \<noteq> [] \<and> signatures \<noteq> [] \<and>
          list_ex (VerifyHexHMACSHA256 hmac (timestamp @ ''.'' @ body) secret) signatures)"

definition stripe :: "hmac_fun \<Rightarrow> unmarshal_fun \<Rightarrow> webhook_provider" where
  "stripe hmac unmarshal =
     \<lparr>pv_name = ''stripe'', pv_match = (\<lambda>r. Header_Get r ''Stripe-Signature'' \<noteq> []),
      pv_parse = (\<lambda>r body secret.
        checked secret
          (let sigHeader = Header_Get r ''Stripe-Signature'' in sigHeader \<noteq> [] \<and> stripe_signature hmac body secret sigHeader)
          (NewEvent ''stripe'' (body_type unmarshal body) r body))\<rparr>"

definition pagerduty_signature :: "hmac_fun \<Rightarrow> string \<Rightarrow> string \<Rightarrow> string \<Rightarrow> bool" where
  "pagerduty_signature hmac body secret sigHeader \<longleftrightarrow>
     list_ex (\<lambda>part. HasPrefix (TrimSpace part) ''v1='' \<and>
         VerifyHexHMACSHA256 hmac body secret (TrimPrefix (TrimSpace part) ''v1=''))
       (SplitChar (CHR '','') sigHeader)"

definition pagerduty :: "hmac_fun \<Rightarrow> unmarshal_fun \<Rightarrow> webhook_provider" where
  "pagerduty hmac unmarshal =
     \<lparr>pv_name = ''pagerduty'', pv_match = (\<lambda>r. Header_Get r ''X-PagerDuty-Signature'' \<noteq> []),
      pv_parse = (\<lambda>r body secret.
        checked secret
          (let sigHeader = Header_Get r ''X-PagerDuty-Signature''
           in sigHeader \<noteq> [] \<and> pagerduty_signature hmac body secret sigHeader)
          (NewEvent ''pagerduty'' (pagerduty_type unmarshal body) r body))\<rparr>"

definition linear :: "hmac_fun \<Rightarrow> unmarshal_fun \<Rightarrow> webhook_provider" where
  "linear hmac unmarshal =
     \<lparr>pv_name = ''linear'', pv_match = (\<lambda>r. Header_Get r ''Linear-Signature'' \<noteq> []),
      pv_parse = (\<lambda>r body secret.
        checked secret
          (let sigHeader = Header_Get r ''Linear-Signature''
           in sigHeader \<noteq> [] \<and> VerifyHexHMACSHA256 hmac body secret sigHeader)
          (NewEvent ''linear'' (extract_first ''type'' ''action'' unmarshal body) r body))\<rparr>"

definition sentry :: "hmac_fun \<Rightarrow> unmarshal_fun \<Rightarrow> webhook_provider" where
  "sentry hmac unmarshal =
     \<lparr>pv_name = ''sentry'', pv_match = (\<lambda>r. Header_Get r ''Sentry-Hook-Signature'' \<noteq> []),
      pv_parse = (\<lambda>r body secret.
        checked secret
          (let sigHeader = Header_Get r ''Sentry-Hook-Signature''
           in sigHeader \<noteq> [] \<and> VerifyHexHMACSHA256 hmac body secret sigHeader)
          (NewEvent ''sentry''
             (let eventType = Header_Get r ''Sentry-Hook-Resource''
              in if eventType = [] then extract_first ''action'' ''type'' unmarshal body else eventType) r body))\<rparr>"

definition generic :: "hmac_fun \<Rightarrow> webhook_provider" where
  "generic hmac =
     \<lparr>pv_name = ''generic'', pv_match = (\<lambda>_. True),
      pv_parse = (\<lambda>r body secret.
        checked secret
          (let fromHeader = Header_Get r ''X-Webhook-Signature'';
               signature = (if fromHeader = [] then Query_Get r ''signature'' else fromHeader)
           in signature \<noteq> [] \<and> VerifyHexHMACSHA256 hmac body secret signature)
          (NewEvent ''generic'' [] r body))\<rparr>"

text \<open>The order of \<open>commands/server.go\<close>.\<close>

definition WebhookProviders :: "hmac_fun \<Rightarrow> unmarshal_fun \<Rightarrow> webhook_provider list" where
  "WebhookProviders hmac unmarshal =
     [github hmac, gitlab hmac, bitbucket hmac, honeybadger unmarshal, slack hmac unmarshal, stripe hmac unmarshal,
      pagerduty hmac unmarshal, linear hmac unmarshal, sentry hmac unmarshal, generic hmac]"

section \<open>What an accepted event proves\<close>

text \<open>A value that the request carries is the secret itself or contains the signature of the body, alone or with the
  timestamp that Slack or Stripe put before it.\<close>

definition signed_payload :: "string \<Rightarrow> string \<Rightarrow> bool" where
  "signed_payload body m \<longleftrightarrow> m = body \<or> (\<exists>t. m = ''v0:'' @ t @ '':'' @ body) \<or> (\<exists>t. m = t @ ''.'' @ body)"

definition carried :: "http_request \<Rightarrow> string \<Rightarrow> bool" where
  "carried r v \<longleftrightarrow> (\<exists>k. v = Header_Get r k) \<or> v = Query_Get r ''signature''"

definition proves_secret :: "hmac_fun \<Rightarrow> http_request \<Rightarrow> string \<Rightarrow> string \<Rightarrow> bool" where
  "proves_secret hmac r body secret \<longleftrightarrow>
     (\<exists>v. carried r v \<and> (v = secret \<or> (\<exists>m. signed_payload body m \<and> Contains v (HexHMACSHA256 hmac m secret))))"

lemma carried_header [simp, intro]: "carried r (Header_Get r k)"
  by (auto simp: carried_def)

lemma proves_secretI:
  "carried r v \<Longrightarrow> signed_payload body m \<Longrightarrow> Contains v (HexHMACSHA256 hmac m secret) \<Longrightarrow> proves_secret hmac r body secret"
  by (auto simp: proves_secret_def)

lemma Contains_self [simp]: "Contains v v"
  unfolding Contains_iff by (metis append.left_neutral append.right_neutral)

lemma Contains_trans: "Contains a b \<Longrightarrow> Contains b c \<Longrightarrow> Contains a c"
  unfolding Contains_iff by (metis append.assoc)

lemma Contains_TrimPrefix [simp]: "Contains v (TrimPrefix v p)"
  unfolding Contains_iff TrimPrefix_def HasPrefix_def by (metis append.left_neutral append.right_neutral append_take_drop_id)

lemma Contains_TrimSpace [simp]: "Contains v (TrimSpace v)"
proof -
  have drop: "Contains w (dropWhile P w)" for P and w :: string
    unfolding Contains_iff by (metis append.right_neutral takeWhile_dropWhile_id)
  have rev: "Contains (rev w) (rev x)" if x: "Contains w x" for w x :: string
  proof -
    obtain a b where "w = a @ x @ b" using x by (auto simp: Contains_iff)
    then have "rev w = rev b @ rev x @ rev a" by simp
    then show ?thesis unfolding Contains_iff by blast
  qed
  have "Contains (dropWhile is_space v) (TrimSpace v)"
    unfolding TrimSpace_def using rev [OF drop [of "rev (dropWhile is_space v)" is_space]] by simp
  with drop show ?thesis by (rule Contains_trans)
qed

lemma Contains_SplitChar: "p \<in> set (SplitChar c s) \<Longrightarrow> Contains s p"
proof (induction s arbitrary: p)
  case (Cons x s)
  have later: "Contains (x # s) q" if "q \<in> set (SplitChar c s)" for q
    using Cons.IH [OF that] by simp
  obtain q qs where split: "SplitChar c s = q # qs" using SplitChar_nonempty by (cases "SplitChar c s") auto
  have "\<exists>b. s = q @ b"
    using split by (metis JoinStr.simps(2) JoinStr_Cons Join_Split append.right_neutral neq_Nil_conv)
  then have first: "Contains (x # s) (x # q)"
    unfolding Contains_iff by (metis append_Cons append_Nil)
  have "Contains (x # s) []" by (auto simp: HasPrefix_def)
  with Cons.prems split first later show ?case by (auto split: if_splits)
qed simp

lemma stripe_parts_contained:
  assumes "\<forall>p\<in>set parts. Contains v p" and "\<forall>p\<in>set (snd acc). Contains v p"
  shows "\<forall>p\<in>set (snd (fold stripe_part parts acc)). Contains v p"
  using assms
proof (induction parts arbitrary: acc)
  case (Cons part parts)
  have "\<forall>p\<in>set (snd (stripe_part part acc)). Contains v p"
    using Cons.prems Contains_trans [OF _ Contains_TrimPrefix, of v part] by (auto simp: stripe_part_def)
  with Cons.IH [of "stripe_part part acc"] Cons.prems(1) show ?case by simp
qed simp

text \<open>What a provider promises: an event only for a request that proves the secret, if there is one, made of
  this request; its only error is that of the signature.\<close>

locale authenticated_provider =
  fixes hmac :: hmac_fun and pv :: webhook_provider
  assumes parse_proves: "pv_parse pv r body secret = Inr ev \<Longrightarrow> secret \<noteq> [] \<Longrightarrow> proves_secret hmac r body secret"
    and parse_event: "pv_parse pv r body secret = Inr ev \<Longrightarrow> \<exists>t. ev = NewEvent (pv_name pv) t r body"
    and parse_refuses: "pv_parse pv r body secret = Inl e \<Longrightarrow> e = ErrUnauthorized"
begin

lemma parse_unproved: "secret \<noteq> [] \<Longrightarrow> \<not> proves_secret hmac r body secret \<Longrightarrow> pv_parse pv r body secret = Inl ErrUnauthorized"
  using parse_proves parse_refuses by (metis sumE)

end

lemma Detect_authenticated:
  assumes "\<forall>p\<in>set ps. authenticated_provider hmac p" and "Detect ps r body secret = Inr ev"
  shows "(secret \<noteq> [] \<longrightarrow> proves_secret hmac r body secret) \<and> (\<exists>p\<in>set ps. \<exists>t. pv_match p r \<and> ev = NewEvent (pv_name p) t r body)"
  using assms
proof (induction ps)
  case (Cons p ps)
  have "authenticated_provider hmac p" using Cons.prems(1) by simp
  note parsed = authenticated_provider.parse_proves [OF this] authenticated_provider.parse_event [OF this]
  show ?case using Cons parsed by (auto split: if_splits sum.splits)
qed simp

text \<open>A prefixed signature.\<close>

lemma prefixed_proves:
  "VerifyHexHMACSHA256Prefixed hmac m secret v p \<Longrightarrow> carried r v \<Longrightarrow> signed_payload body m \<Longrightarrow> proves_secret hmac r body secret"
  using Contains_TrimPrefix [of v p] by (auto simp: VerifyHexHMACSHA256Prefixed_def VerifyHexHMACSHA256_def intro: proves_secretI)

lemma plain_proves:
  "VerifyHexHMACSHA256 hmac m secret v \<Longrightarrow> carried r v \<Longrightarrow> signed_payload body m \<Longrightarrow> proves_secret hmac r body secret"
  by (auto simp: VerifyHexHMACSHA256_def intro: proves_secretI)

lemma signed_payloads [simp]: "signed_payload body body" "signed_payload body (''v0:'' @ t @ '':'' @ body)" "signed_payload body (t @ ''.'' @ body)"
  by (auto simp: signed_payload_def)

lemma stripe_proves:
  assumes "stripe_signature hmac body secret v" and "carried r v"
  shows "proves_secret hmac r body secret"
proof -
  obtain t sigs where parts: "fold stripe_part (SplitChar (CHR '','') v) ([], []) = (t, sigs)" by fastforce
  with assms(1) have "HexHMACSHA256 hmac (t @ ''.'' @ body) secret \<in> set sigs"
    by (auto simp: stripe_signature_def VerifyHexHMACSHA256_def list_ex_iff)
  then have "Contains v (HexHMACSHA256 hmac (t @ ''.'' @ body) secret)"
    using stripe_parts_contained [of "SplitChar (CHR '','') v" v "([], [])"] Contains_SplitChar parts by simp
  with assms(2) show ?thesis by (rule proves_secretI [OF _ signed_payloads(3)])
qed

lemma pagerduty_proves:
  assumes "pagerduty_signature hmac body secret v" and "carried r v"
  shows "proves_secret hmac r body secret"
proof -
  obtain part where "part \<in> set (SplitChar (CHR '','') v)" "TrimPrefix (TrimSpace part) ''v1='' = HexHMACSHA256 hmac body secret"
    using assms(1) by (auto simp: pagerduty_signature_def VerifyHexHMACSHA256_def list_ex_iff)
  then have "Contains v (HexHMACSHA256 hmac body secret)"
    using Contains_SplitChar Contains_TrimSpace Contains_TrimPrefix Contains_trans by metis
  with assms(2) show ?thesis by (rule proves_secretI [OF _ signed_payloads(1)])
qed

lemma checked_cases:
  "checked secret valid event = Inr ev \<longleftrightarrow> (secret = [] \<or> valid) \<and> ev = event"
  "checked secret valid event = Inl e \<longleftrightarrow> secret \<noteq> [] \<and> \<not> valid \<and> e = ErrUnauthorized"
  by (auto simp: checked_def)

lemmas provider_simps = checked_cases Let_def NewEvent_def

interpretation github_provider: authenticated_provider hmac "github hmac" for hmac
  by unfold_locales (auto simp: github_def provider_simps intro: prefixed_proves)

interpretation gitlab_provider: authenticated_provider hmac "gitlab hmac" for hmac
  by unfold_locales
    (auto simp: gitlab_def gitlab_signature_def provider_simps proves_secret_def [of _ _ _ "Header_Get _ _"] split: if_splits
      intro: prefixed_proves)

interpretation bitbucket_provider: authenticated_provider hmac "bitbucket hmac" for hmac
  by unfold_locales (auto simp: bitbucket_def provider_simps intro: prefixed_proves)

interpretation honeybadger_provider: authenticated_provider hmac "honeybadger unmarshal" for hmac unmarshal
  by unfold_locales (auto simp: honeybadger_def Let_def NewEvent_def proves_secret_def split: if_splits)

interpretation slack_provider: authenticated_provider hmac "slack hmac unmarshal" for hmac unmarshal
  by unfold_locales (auto simp: slack_def provider_simps simp del: append.simps intro: prefixed_proves [OF _ _ signed_payloads(2)])

interpretation stripe_provider: authenticated_provider hmac "stripe hmac unmarshal" for hmac unmarshal
  by unfold_locales (auto simp: stripe_def provider_simps intro: stripe_proves)

interpretation pagerduty_provider: authenticated_provider hmac "pagerduty hmac unmarshal" for hmac unmarshal
  by unfold_locales (auto simp: pagerduty_def provider_simps intro: pagerduty_proves)

interpretation linear_provider: authenticated_provider hmac "linear hmac unmarshal" for hmac unmarshal
  by unfold_locales (auto simp: linear_def provider_simps intro: plain_proves)

interpretation sentry_provider: authenticated_provider hmac "sentry hmac unmarshal" for hmac unmarshal
  by unfold_locales (auto simp: sentry_def provider_simps intro: plain_proves)

lemma carried_query [simp, intro]: "carried r (Query_Get r ''signature'')"
  by (simp add: carried_def)

interpretation generic_provider: authenticated_provider hmac "generic hmac" for hmac
  by unfold_locales (auto simp: generic_def provider_simps split: if_splits intro: plain_proves)

lemmas all_providers = github_provider.authenticated_provider_axioms gitlab_provider.authenticated_provider_axioms
  bitbucket_provider.authenticated_provider_axioms honeybadger_provider.authenticated_provider_axioms
  slack_provider.authenticated_provider_axioms stripe_provider.authenticated_provider_axioms
  pagerduty_provider.authenticated_provider_axioms linear_provider.authenticated_provider_axioms
  sentry_provider.authenticated_provider_axioms generic_provider.authenticated_provider_axioms

lemma WebhookProviders_authenticated: "\<forall>p\<in>set (WebhookProviders hmac unmarshal). authenticated_provider hmac p"
  by (simp add: WebhookProviders_def all_providers)

section \<open>The endpoint\<close>

record webhook_controller =
  wc_features :: "string list"
  wc_service :: service
  wc_secrets :: "(string \<Rightarrow> string \<Rightarrow> secret_result) option"
  wc_providers :: "webhook_provider list"

record http_response =
  hs_status :: int
  hs_body :: string
  hs_headers :: "(string, string) gomap"

text \<open>A status with the text of the error, or what the pipeline responded, or the run that goes on after the timeout.\<close>

datatype webhook_reply =
    Refused nat string
  | Responded http_response
  | Accepted string string run_status

definition internal_error :: webhook_reply where
  "internal_error = Refused 500 ''internal server error''"

definition resolveWebhookSecret :: "webhook_controller \<Rightarrow> pipeline \<Rightarrow> webhook_reply + string" where
  "resolveWebhookSecret wc p =
     (case wc_secrets wc of
        None \<Rightarrow> Inr []
      | Some get \<Rightarrow>
          (case get (PipelineScope (p_id p)) ''webhook_secret'' of
             Secret s \<Rightarrow> Inr s
           | SecretNotFound \<Rightarrow> Inr []
           | SecretError e \<Rightarrow> Inl internal_error))"

definition detectWebhookEvent :: "webhook_controller \<Rightarrow> http_request \<Rightarrow> string \<Rightarrow> webhook_reply + webhook_event" where
  "detectWebhookEvent wc r secret =
     (case hr_body r of
        None \<Rightarrow> Inl (Refused 400 ''failed to read request body'')
      | Some body \<Rightarrow>
          (case Detect (wc_providers wc) r body secret of
             Inr ev \<Rightarrow> Inr ev
           | Inl e \<Rightarrow>
               if ErrUnauthorized \<in> set (error_chain e) then Inl (Refused 401 ''webhook signature validation failed'')
               else Inl (Refused 400 (''no webhook provider matched the request: '' @ error_text e))))"

definition webhook_data_of :: "webhook_event \<Rightarrow> trigger_webhook_input" where
  "webhook_data_of ev =
     \<lparr>wh_provider = ev_provider ev, wh_event_type = ev_event_type ev, wh_method = ev_method ev, wh_url = ev_url ev,
      wh_headers = ev_headers ev, wh_body = ev_body ev, wh_query = ev_query ev\<rparr>"

text \<open>\<open>answer\<close> is what the pipeline sends to the channel of the request before the timeout, if it does.\<close>

definition triggerWebhookPipelineResponse :: "pipeline \<Rightarrow> pipeline_run \<Rightarrow> http_response option \<Rightarrow> webhook_reply" where
  "triggerWebhookPipelineResponse p run answer =
     (case answer of Some resp \<Rightarrow> Responded resp | None \<Rightarrow> Accepted (r_id run) (p_id p) (r_status run))"

definition webhook_Trigger ::
  "webhook_controller \<Rightarrow> int \<Rightarrow> Execution.request \<Rightarrow> nat \<Rightarrow> http_response option \<Rightarrow> string \<Rightarrow> http_request \<Rightarrow> exec_state
   \<Rightarrow> webhook_reply \<times> exec_state" where
  "webhook_Trigger wc now actor channel answer i r st =
     (if \<not> IsFeatureEnabled ''webhooks'' (wc_features wc) then (Refused 403 ''webhooks feature is not enabled'', st)
      else
        (case GetPipeline i (ex_db st) of
           Inl e \<Rightarrow> (if e = ErrNotFound then Refused 404 ''pipeline not found'' else internal_error, st)
         | Inr p \<Rightarrow>
             if p_paused p then (Refused 409 ''pipeline is paused'', st)
             else
               (case resolveWebhookSecret wc p of
                  Inl reply \<Rightarrow> (reply, st)
                | Inr secret \<Rightarrow>
                    (case detectWebhookEvent wc r secret of
                       Inl reply \<Rightarrow> (reply, st)
                     | Inr ev \<Rightarrow>
                         (case TriggerWebhookPipeline (wc_service wc) now actor p (Some (webhook_data_of ev)) (Some channel) st of
                            (Inl e, st1) \<Rightarrow>
                              (if e = ErrQueueFull then Refused 429 ''execution queue is full'' else internal_error, st1)
                          | (Inr run, st1) \<Rightarrow> (triggerWebhookPipelineResponse p run answer, st1))))))"

text \<open>C30. An event starts a run only if its sender proves the secret of the pipeline: a request that changes the state of the
  service names a pipeline that exists and is not paused, its secret could be read, and if the pipeline has one, the request carries
  the secret or a signature of its body, whatever provider it pretends to come from. The run is triggered with this very
  request.\<close>

theorem webhook_run_needs_signature:
  assumes "webhook_Trigger wc now actor channel answer i r st = (reply, st')" and "st' \<noteq> st"
    and "wc_providers wc = WebhookProviders hmac unmarshal" and "wc_secrets wc = Some get"
  shows "\<exists>p body n t. find_pipeline i (ex_db st) = Some p \<and> \<not> p_paused p \<and> IsFeatureEnabled ''webhooks'' (wc_features wc) \<and>
    hr_body r = Some body \<and> (\<forall>e. get (PipelineScope i) ''webhook_secret'' \<noteq> SecretError e) \<and>
    (\<forall>s. get (PipelineScope i) ''webhook_secret'' = Secret s \<and> s \<noteq> [] \<longrightarrow> proves_secret hmac r body s) \<and>
    st' = snd (TriggerWebhookPipeline (wc_service wc) now actor p (Some (webhook_data_of (NewEvent n t r body))) (Some channel) st)"
proof -
  obtain p where p: "find_pipeline i (ex_db st) = Some p" "\<not> p_paused p" "IsFeatureEnabled ''webhooks'' (wc_features wc)"
    using assms(1,2) by (auto simp: webhook_Trigger_def GetPipeline_def split: if_splits option.splits)
  obtain secret ev where secret: "resolveWebhookSecret wc p = Inr secret" and ev: "detectWebhookEvent wc r secret = Inr ev"
    and st': "st' = snd (TriggerWebhookPipeline (wc_service wc) now actor p (Some (webhook_data_of ev)) (Some channel) st)"
    using assms(1,2) p by (auto simp: webhook_Trigger_def GetPipeline_def split: sum.splits prod.splits)
  obtain body where body: "hr_body r = Some body" "Detect (wc_providers wc) r body secret = Inr ev"
    using ev by (auto simp: detectWebhookEvent_def split: option.splits sum.splits if_splits)
  with Detect_authenticated [OF WebhookProviders_authenticated, of hmac unmarshal r body secret ev] assms(3)
  obtain n t where "secret \<noteq> [] \<longrightarrow> proves_secret hmac r body secret" "ev = NewEvent n t r body" by auto
  moreover have "p_id p = i" using p(1) by (auto simp: find_pipeline_def dest: find_SomeD)
  ultimately show ?thesis
    using p body(1) st' secret assms(4) by (auto simp: resolveWebhookSecret_def split: secret_result.splits)
qed

text \<open>A delivery that GitHub has signed is believed.\<close>

lemma github_delivery:
  assumes "Header_Get r ''X-GitHub-Event'' = e" and "e \<noteq> []"
    and "Header_Get r ''X-Hub-Signature-256'' = ''sha256='' @ HexHMACSHA256 hmac body secret"
  shows "Detect (WebhookProviders hmac unmarshal) r body secret = Inr (NewEvent ''github'' e r body)"
  using assms by (simp add: WebhookProviders_def github_def checked_def VerifyHexHMACSHA256Prefixed_def VerifyHexHMACSHA256_def
      HasPrefix_def TrimPrefix_def)

definition sample_delivery :: http_request where
  "sample_delivery = \<lparr>hr_method = ''POST'', hr_url = ''/api/webhooks/p1'',
     hr_headers = [(''X-Github-Event'', [''push'']), (''X-Hub-Signature-256'', [''sha256=6b7b7d''])], hr_query = [], hr_body = Some ''{}''\<rparr>"

definition sample_webhooks :: webhook_controller where
  "sample_webhooks = \<lparr>wc_features = AllFeatures, wc_service = sample_service,
     wc_secrets = Some (\<lambda>scope k. if k = ''webhook_secret'' then Secret ''k'' else SecretNotFound),
     wc_providers = WebhookProviders (\<lambda>s m. s @ m) (\<lambda>_. None)\<rparr>"

definition idle_service :: exec_state where
  "idle_service = service_state (empty_db\<lparr>pipelines := [mode_pipeline []]\<rparr>)"

definition sample_event :: webhook_event where
  "sample_event = NewEvent ''github'' ''push'' sample_delivery ''{}''"

lemma sample_detected: "detectWebhookEvent sample_webhooks sample_delivery ''k'' = Inr sample_event"
proof -
  have "Header_Get sample_delivery ''X-GitHub-Event'' = ''push''" by code_simp
  moreover have "Header_Get sample_delivery ''X-Hub-Signature-256'' = ''sha256='' @ HexHMACSHA256 (\<lambda>s m. s @ m) ''{}'' ''k''"
    by code_simp
  ultimately show ?thesis
    using github_delivery by (simp add: detectWebhookEvent_def sample_delivery_def sample_webhooks_def sample_event_def)
qed

lemma sample_triggered:
  "ex_ids (snd (TriggerWebhookPipeline sample_service 5 no_request (mode_pipeline []) (Some (webhook_data_of sample_event)) (Some 7)
     idle_service)) = 1"
  by (simp add: idle_service_def TriggerWebhookPipeline_def park_def unpark_def admission_defs)

lemma sample_delivery_runs:
  "snd (webhook_Trigger sample_webhooks 5 no_request 7 None ''p1'' sample_delivery idle_service) \<noteq> idle_service"
proof -
  obtain outcome st1 where run: "TriggerWebhookPipeline sample_service 5 no_request (mode_pipeline []) (Some (webhook_data_of sample_event)) (Some 7)
      idle_service = (outcome, st1)" by fastforce
  have "GetPipeline ''p1'' (ex_db idle_service) = Inr (mode_pipeline [])" "\<not> p_paused (mode_pipeline [])"
    "IsFeatureEnabled ''webhooks'' (wc_features sample_webhooks)" "wc_service sample_webhooks = sample_service"
    "resolveWebhookSecret sample_webhooks (mode_pipeline []) = Inr ''k''"
    by (simp_all add: idle_service_def service_state_def empty_db_def find_pipeline_def mode_pipeline_def zero_pipeline_def sample_webhooks_def
        IsFeatureEnabled_def AllFeatures_def resolveWebhookSecret_def GetPipeline_def)
  then have "snd (webhook_Trigger sample_webhooks 5 no_request 7 None ''p1'' sample_delivery idle_service) = st1"
    by (simp add: webhook_Trigger_def sample_detected run split: sum.split)
  moreover have "ex_ids st1 = 1" using sample_triggered by (simp add: run)
  moreover have "ex_ids idle_service = 0" by (simp add: idle_service_def service_state_def)
  ultimately show ?thesis by auto
qed

theorem webhook_run_needs_signature_witness:
  "proves_secret (\<lambda>s m. s @ m) sample_delivery ''{}'' ''k''"
proof -
  let ?out = "webhook_Trigger sample_webhooks 5 no_request 7 None ''p1'' sample_delivery idle_service"
  note sample_delivery_runs
  moreover have "wc_providers sample_webhooks = WebhookProviders (\<lambda>s m. s @ m) (\<lambda>_. None)"
    "wc_secrets sample_webhooks = Some (\<lambda>scope k. if k = ''webhook_secret'' then Secret ''k'' else SecretNotFound)"
    by (simp_all add: sample_webhooks_def)
  ultimately show ?thesis
    using webhook_run_needs_signature [of sample_webhooks 5 no_request 7 None "''p1''" sample_delivery idle_service "fst ?out" "snd ?out"]
    by (fastforce simp: sample_delivery_def)
qed

end
