(* ===== verification/Schedules.thy ===== *)
theory Schedules
  imports Run_Lifecycle Job_Run
begin

text \<open>
  Scheduled runs: \<open>scheduler/scheduler.go\<close>, \<open>backwards/schedules.go\<close>, \<open>syncSchedules\<close> of \<open>server/api_pipelines_upsert.go\<close>,
  the trigger function of \<open>server/router.go\<close> and \<open>server/api_schedules_controller.go\<close>, over the table of \<open>Store_Runs\<close>. Times of the
  scheduler are in nanoseconds since the epoch, those of the table in seconds. The cron parser is a parameter: an
  expression is an error or the function \<open>Next\<close>, which gives the zero time if there is no next time.
\<close>

section \<open>The next run\<close>

type_synonym cron_parser = "string \<Rightarrow> string + (int \<Rightarrow> int)"

definition zero_time :: int where
  "zero_time = - 62135596800 * 10 ^ 9"

definition ComputeNextRun :: "cron_parser \<Rightarrow> schedule_type \<Rightarrow> string \<Rightarrow> int \<Rightarrow> go_error + int" where
  "ComputeNextRun cron typ expr from_time =
     (case typ of
        ScheduleTypeCron \<Rightarrow>
          (case cron expr of
             Inl m \<Rightarrow> Inl (Wrapped (''invalid cron expression '' @ go_quote expr) (Plain m))
           | Inr next_time \<Rightarrow> Inr (next_time from_time))
      | ScheduleTypeInterval \<Rightarrow>
          (case ParseDuration expr of
             None \<Rightarrow> Inl (Wrapped (''invalid interval '' @ go_quote expr) (Plain (''time: invalid duration '' @ go_quote expr)))
           | Some duration \<Rightarrow> Inr (from_time + duration)))"

section \<open>The scheduler\<close>

text \<open>\<open>live k\<close> says whether the context of the scheduler is still live at the \<open>k\<close>-th call of a tick that takes it; \<open>Stop\<close> cancels it,
  and the store and the trigger then fail. What a trigger does is a parameter of the scheduler.\<close>

type_synonym trigger_fun = "schedule \<Rightarrow> exec_state \<Rightarrow> bool \<times> exec_state"

definition on_db :: "(db \<Rightarrow> db) \<Rightarrow> exec_state \<Rightarrow> exec_state" where
  "on_db f st = st\<lparr>ex_db := f (ex_db st)\<rparr>"

definition processSchedule ::
  "cron_parser \<Rightarrow> trigger_fun \<Rightarrow> int \<Rightarrow> (nat \<Rightarrow> bool) \<Rightarrow> nat \<Rightarrow> schedule \<Rightarrow> exec_state \<Rightarrow> exec_state" where
  "processSchedule cron trigger now live k s st =
     (let st1 = (if live k then snd (trigger s st) else st) in
      case ComputeNextRun cron (s_type s) (s_expr s) now of
        Inl _ \<Rightarrow> st1
      | Inr nextRunAt \<Rightarrow>
          if live (k + 1) then on_db (UpdateScheduleAfterRun (to_seconds now) (s_id s) (to_seconds now) (to_seconds nextRunAt)) st1
          else st1)"

fun process_all ::
  "cron_parser \<Rightarrow> trigger_fun \<Rightarrow> int \<Rightarrow> (nat \<Rightarrow> bool) \<Rightarrow> nat \<Rightarrow> schedule list \<Rightarrow> exec_state \<Rightarrow> exec_state" where
  "process_all cron trigger now live k [] st = st"
| "process_all cron trigger now live k (s # ss) st =
     process_all cron trigger now live (k + 2) ss (processSchedule cron trigger now live k s st)"

definition tick :: "cron_parser \<Rightarrow> trigger_fun \<Rightarrow> int \<Rightarrow> (nat \<Rightarrow> bool) \<Rightarrow> exec_state \<Rightarrow> exec_state" where
  "tick cron trigger now live st =
     (if \<not> live 0 then st
      else
        (case ClaimDueSchedules (to_seconds now) (ex_db st) of
           (dues, d) \<Rightarrow> process_all cron trigger now live 1 dues (st\<lparr>ex_db := d\<rparr>)))"

text \<open>The trigger function that the server gives to the scheduler; \<open>now\<close> is the clock of the service.\<close>

definition scheduled_trigger :: "service \<Rightarrow> int \<Rightarrow> trigger_fun" where
  "scheduled_trigger sv now s st =
     (case GetPipeline (s_pipeline_id s) (ex_db st) of
        Inl _ \<Rightarrow> (False, st)
      | Inr p \<Rightarrow>
          if p_paused p then (True, st)
          else
            (case TriggerScheduledPipeline sv now p (s_name s) (s_job_name s) st of
               (Inl _, st1) \<Rightarrow> (False, st1)
             | (Inr _, st1) \<Rightarrow> (True, st1)))"

definition startSchedulerIfEnabled :: "string list \<Rightarrow> bool" where
  "startSchedulerIfEnabled allowedFeatures = IsFeatureEnabled ''schedules'' allowedFeatures"

section \<open>Schedules of a pipeline\<close>

record job_schedule =
  js_job_name :: string
  js_type :: schedule_type
  js_expr :: string

fun extract_schedules :: "cron_parser \<Rightarrow> job list \<Rightarrow> go_error + job_schedule list" where
  "extract_schedules cron [] = Inr []"
| "extract_schedules cron (j # js) =
     (case Option.bind (job_triggers j) tr_schedule of
        None \<Rightarrow> extract_schedules cron js
      | Some sched \<Rightarrow>
          (case (if st_cron sched \<noteq> [] then Some (ScheduleTypeCron, st_cron sched)
                 else if st_every sched \<noteq> [] then Some (ScheduleTypeInterval, st_every sched)
                 else None) of
             None \<Rightarrow> Inl (Plain (''job '' @ go_quote (job_name j) @ '': schedule trigger must specify either cron or every''))
           | Some (typ, expr) \<Rightarrow>
               (case ComputeNextRun cron typ expr 0 of
                  Inl e \<Rightarrow> Inl (Wrapped (''job '' @ go_quote (job_name j)) e)
                | Inr _ \<Rightarrow>
                    (case extract_schedules cron js of
                       Inl e \<Rightarrow> Inl e
                     | Inr rest \<Rightarrow> Inr (\<lparr>js_job_name = job_name j, js_type = typ, js_expr = expr\<rparr> # rest)))))"

definition ExtractSchedules :: "(string \<Rightarrow> config option) \<Rightarrow> cron_parser \<Rightarrow> string \<Rightarrow> go_error + job_schedule list" where
  "ExtractSchedules parse cron content =
     (case parse content of
        None \<Rightarrow> Inl (Plain ''failed to parse pipeline config'')
      | Some c \<Rightarrow> extract_schedules cron (cfg_jobs c))"

definition schedule_row :: "string \<Rightarrow> string \<Rightarrow> job_schedule \<Rightarrow> int \<Rightarrow> schedule" where
  "schedule_row newID pid js nextRunAt =
     \<lparr>s_id = newID, s_pipeline_id = pid, s_name = js_job_name js, s_type = js_type js, s_expr = js_expr js,
      s_job_name = js_job_name js, s_enabled = True, s_last_run_at = None, s_next_run_at = Some (to_seconds nextRunAt),
      s_created_at = 0, s_updated_at = 0\<rparr>"

text \<open>\<open>ids n\<close> is the \<open>n\<close>-th result of \<open>UniqueID\<close> from here.\<close>

fun save_schedules ::
  "cron_parser \<Rightarrow> int \<Rightarrow> (nat \<Rightarrow> string) \<Rightarrow> string \<Rightarrow> job_schedule list \<Rightarrow> db \<Rightarrow> go_error option \<times> db" where
  "save_schedules cron now ids pid [] d = (None, d)"
| "save_schedules cron now ids pid (js # rest) d =
     (case ComputeNextRun cron (js_type js) (js_expr js) now of
        Inl e \<Rightarrow> (Some (Wrapped (''compute next run for job '' @ go_quote (js_job_name js)) e), d)
      | Inr nextRunAt \<Rightarrow>
          (case SaveSchedule (to_seconds now) (schedule_row (ids 0) pid js nextRunAt) d of
             (Some e, d1) \<Rightarrow> (Some (Wrapped (''save schedule for job '' @ go_quote (js_job_name js)) (Plain ''constraint'')), d1)
           | (None, d1) \<Rightarrow> save_schedules cron now (ids \<circ> Suc) pid rest d1))"

definition syncSchedules ::
  "(string \<Rightarrow> config option) \<Rightarrow> cron_parser \<Rightarrow> int \<Rightarrow> (nat \<Rightarrow> string) \<Rightarrow> pipeline \<Rightarrow> db \<Rightarrow> go_error option \<times> db" where
  "syncSchedules parse cron now ids p d =
     (if p_content_type p \<noteq> ''yaml'' then (None, d)
      else
        (case ExtractSchedules parse cron (p_content p) of
           Inl e \<Rightarrow> (Some (Wrapped ''extract schedules'' e), d)
         | Inr extracted \<Rightarrow>
             (case save_schedules cron now ids (p_id p) extracted d of
                (Some e, d1) \<Rightarrow> (Some e, d1)
              | (None, d1) \<Rightarrow> (None, PruneSchedulesByPipeline (p_id p) (map js_job_name extracted) d1))))"

text \<open>\<open>PUT /api/schedules/:id/enabled\<close>; a body that cannot be decoded is \<open>None\<close>.\<close>

definition UpdateEnabled :: "int \<Rightarrow> string \<Rightarrow> bool option \<Rightarrow> db \<Rightarrow> nat \<times> db" where
  "UpdateEnabled now i body d =
     (case body of
        None \<Rightarrow> (400, d)
      | Some enabled \<Rightarrow>
          (case UpdateScheduleEnabled now i enabled d of
             (Some e, d1) \<Rightarrow> (if e = ErrNotFound then 404 else 500, d1)
           | (None, d1) \<Rightarrow> (200, d1)))"

section \<open>Triggers do not see the table\<close>

definition with_schedules :: "schedule list \<Rightarrow> exec_state \<Rightarrow> exec_state" where
  "with_schedules x st = st\<lparr>ex_db := (ex_db st)\<lparr>schedules := x\<rparr>\<rparr>"

lemma with_schedules_simps [simp]:
  "schedules (ex_db (with_schedules x st)) = x" "with_schedules (schedules (ex_db st)) st = st"
  "with_schedules x (with_schedules y st) = with_schedules x st" "runs (ex_db (with_schedules x st)) = runs (ex_db st)"
  "ex_stop (with_schedules x st) = ex_stop st" "ex_ids (with_schedules x st) = ex_ids st"
  "find_pipeline i (ex_db (with_schedules x st)) = find_pipeline i (ex_db st)"
  by (simp_all add: with_schedules_def find_pipeline_def)

text \<open>What the scheduler needs of its trigger function: it neither reads nor writes the table of schedules.\<close>

locale schedule_trigger =
  fixes trigger :: trigger_fun
  assumes frame: "trigger s (with_schedules x st) = map_prod id (with_schedules x) (trigger s st)"

lemma update_run_schedules : "update_run now i s msg (with_schedules x st) = with_schedules x (update_run now i s msg st)"
  by (simp add: update_run_def UpdateRunStatus_def with_schedules_def find_run_def split: option.split)

lemma abort_tasks_schedules: "abort_tasks sv i (with_schedules x st) = with_schedules x (abort_tasks sv i st)"
  by (auto simp: abort_tasks_def UpdateStatusForPrefix_def with_schedules_def intro!: exec_state.equality db.equality)

lemma cancel_schedules: "cancel g (with_schedules x st) = with_schedules x (cancel g st)"
  by (simp add: cancel_def with_schedules_def)

lemma StopRun_schedules: "StopRun sv now i (with_schedules x st) = map_prod id (with_schedules x) (StopRun sv now i st)"
  by (simp add: StopRun_def update_run_schedules abort_tasks_schedules cancel_schedules split: option.split)

lemma supersede_frame: "supersede sv now newer peer (with_schedules x st) = with_schedules x (supersede sv now newer peer st)"
  by (simp add: supersede_def Let_def update_run_schedules StopRun_schedules split: run_status.split)

lemma supersedePeers_frame: "supersedePeers sv now peers newer (with_schedules x st) = with_schedules x (supersedePeers sv now peers newer st)"
  unfolding supersedePeers_def by (induction peers arbitrary: st) (simp_all add: supersede_frame)

lemma save_run_frame:
  "save_run sv now pid tt user inp grp status msg (with_schedules x st) =
     map_prod id (with_schedules x) (save_run sv now pid tt user inp grp status msg st)"
  by (simp add: save_run_def SaveRunWithStatus_def with_schedules_def find_run_def find_pipeline_def Let_def split: prod.split)

lemma resolveConcurrency_frame: "resolveConcurrency sv p inp (ex_db (with_schedules x st)) = resolveConcurrency sv p inp (ex_db st)"
proof -
  have "GetActiveRunsByGroup grp (ex_db (with_schedules x st)) = GetActiveRunsByGroup grp (ex_db st)" for grp
    by (simp add: GetActiveRunsByGroup_def)
  moreover have "GetActiveRunsByPipeline pid (ex_db (with_schedules x st)) = GetActiveRunsByPipeline pid (ex_db st)" for pid
    by (simp add: GetActiveRunsByPipeline_def)
  ultimately show ?thesis by (simp only: resolveConcurrency_def)
qed

lemma save_terminal_frame: "save_terminal what (map_prod id (with_schedules x) r) = map_prod id (with_schedules x) (save_terminal what r)"
  by (auto simp: save_terminal_def split: sum.split prod.split)

lemma admitRun_frame:
  "admitRun sv now p tt user inp (with_schedules x st) = map_prod id (with_schedules x) (admitRun sv now p tt user inp st)"
  by (auto simp: admitRun_def resolveConcurrency_frame save_run_frame save_terminal_frame supersedePeers_frame split: sum.split prod.split)

lemma can_frame: "CanAccept sv (with_schedules x st) = CanAccept sv st" "CanExecute sv (with_schedules x st) = CanExecute sv st"
  by (simp_all add: CanAccept_def CanExecute_def QueueLength_def GetRunsByStatus_def with_schedules_def)

lemma dispatchOrQueue_frame:
  "dispatchOrQueue sv p run opts q (with_schedules x st) = map_prod id (with_schedules x) (dispatchOrQueue sv p run opts q st)"
  by (simp add: dispatchOrQueue_def can_frame) (simp add: dispatchRun_def with_schedules_def)

lemma trigger_with_frame:
  "trigger_with sv now p tt user inp opts (with_schedules x st) = map_prod id (with_schedules x) (trigger_with sv now p tt user inp opts st)"
  by (auto simp: trigger_with_def can_frame admitRun_frame dispatchOrQueue_frame split: sum.split prod.split)

interpretation server_trigger: schedule_trigger "scheduled_trigger sv now" for sv now
  by unfold_locales
    (auto simp: scheduled_trigger_def GetPipeline_def TriggerScheduledPipeline_def trigger_with_frame Let_def split: sum.split prod.split option.split)

section \<open>A tick\<close>

definition rescheduled :: "cron_parser \<Rightarrow> int \<Rightarrow> schedule \<Rightarrow> schedule \<Rightarrow> schedule" where
  "rescheduled cron now s row =
     (case ComputeNextRun cron (s_type s) (s_expr s) now of
        Inl _ \<Rightarrow> row
      | Inr t \<Rightarrow> row\<lparr>s_last_run_at := Some (to_seconds now), s_next_run_at := Some (to_seconds t), s_updated_at := to_seconds now\<rparr>)"

lemma s_id_rescheduled [simp]: "s_id (rescheduled cron now s row) = s_id row"
  by (simp add: rescheduled_def split: sum.split)

fun reschedule_all :: "cron_parser \<Rightarrow> int \<Rightarrow> schedule list \<Rightarrow> schedule \<Rightarrow> schedule" where
  "reschedule_all cron now [] row = row"
| "reschedule_all cron now (s # ss) row =
     reschedule_all cron now ss (if s_id row = s_id s then rescheduled cron now s row else row)"

lemma reschedule_all_distinct:
  assumes "distinct (map s_id ss)"
  shows "reschedule_all cron now ss row =
    (case find (\<lambda>s. s_id s = s_id row) ss of None \<Rightarrow> row | Some s \<Rightarrow> rescheduled cron now s row)"
  using assms
proof (induction ss arbitrary: row)
  case (Cons s ss)
  have "find (\<lambda>s'. s_id s' = s_id s) ss = None" using Cons.prems by (auto simp: find_None_iff) (metis image_eqI)
  with Cons show ?case by auto
qed simp

context schedule_trigger begin

lemma trigger_snd: "snd (trigger s (with_schedules x st)) = with_schedules x (snd (trigger s st))"
  by (simp add: frame)

lemma keeps_schedules [simp]: "schedules (ex_db (snd (trigger s st))) = schedules (ex_db st)"
  by (metis trigger_snd with_schedules_simps(1,2))

lemma processSchedule_live:
  "processSchedule cron trigger now (\<lambda>_. True) k s st =
     with_schedules (map (\<lambda>row. if s_id row = s_id s then rescheduled cron now s row else row) (schedules (ex_db st)))
       (snd (trigger s st))"
proof (cases "ComputeNextRun cron (s_type s) (s_expr s) now")
  case (Inl e)
  have "with_schedules (schedules (ex_db st)) (snd (trigger s st)) = snd (trigger s st)"
    by (metis keeps_schedules with_schedules_simps(2))
  moreover have "map (\<lambda>row. if s_id row = s_id s then rescheduled cron now s row else row) rows = rows" for rows
    by (rule map_idI) (simp add: rescheduled_def Inl)
  ultimately show ?thesis using Inl by (simp add: processSchedule_def Let_def)
next
  case (Inr t)
  then have "rescheduled cron now s = (\<lambda>row. row\<lparr>s_last_run_at := Some (to_seconds now), s_next_run_at := Some (to_seconds t),
      s_updated_at := to_seconds now\<rparr>)" by (simp add: rescheduled_def fun_eq_iff)
  with Inr show ?thesis
    by (simp add: processSchedule_def Let_def on_db_def UpdateScheduleAfterRun_def) (simp add: with_schedules_def)
qed

lemma process_all_live:
  "process_all cron trigger now (\<lambda>_. True) k ss st =
     with_schedules (map (reschedule_all cron now ss) (schedules (ex_db st))) (fold (\<lambda>s st. snd (trigger s st)) ss st)"
proof (induction ss arbitrary: k st)
  case Nil
  have "map (reschedule_all cron now []) rows = rows" for rows by (rule map_idI) simp
  then show ?case by simp
next
  case (Cons s ss)
  have frames: "fold (\<lambda>s st. snd (trigger s st)) ss (with_schedules x st) = with_schedules x (fold (\<lambda>s st. snd (trigger s st)) ss st)" for x st
    by (induction ss arbitrary: st) (simp_all add: trigger_snd)
  show ?case by (simp add: Cons.IH processSchedule_live frames comp_def)
qed

end

context schedule_trigger begin

lemma tick_live:
  assumes "distinct (map s_id (schedules (ex_db st)))"
  shows "tick cron trigger now (\<lambda>_. True) st =
    with_schedules
      (map (\<lambda>s. if due (to_seconds now) s then rescheduled cron now s (claim (to_seconds now) s) else s) (schedules (ex_db st)))
      (fold (\<lambda>s st. snd (trigger s st)) (map (claim (to_seconds now)) (filter (due (to_seconds now)) (schedules (ex_db st)))) st)"
proof -
  let ?t = "to_seconds now" and ?rows = "schedules (ex_db st)"
  let ?dues = "map (claim ?t) (filter (due ?t) ?rows)" and ?marked = "map (\<lambda>s. if due ?t s then claim ?t s else s) ?rows"
  have ids: "s_id (claim ?t s) = s_id s" "s_type (claim ?t s) = s_type s" "s_expr (claim ?t s) = s_expr s" for s
    by (simp_all add: claim_def)
  have dist: "distinct (map s_id ?dues)"
    using assms by (auto simp: ids comp_def distinct_map intro: inj_on_subset)
  have "reschedule_all cron now ?dues (if due ?t s then claim ?t s else s) =
      (if due ?t s then rescheduled cron now s (claim ?t s) else s)" if s: "s \<in> set ?rows" for s
  proof -
    have uniq: "s' = s" if "s' \<in> set ?rows" "s_id s' = s_id s" for s'
      using assms s that by (auto simp: distinct_map dest: inj_onD)
    have "find (\<lambda>x. s_id x = s_id s) ?dues = (if due ?t s then Some (claim ?t s) else None)"
    proof (cases "find (\<lambda>x. s_id x = s_id s) ?dues")
      case None
      then have "\<not> due ?t s" using s by (auto simp: find_None_iff ids)
      with None show ?thesis by simp
    next
      case (Some x)
      then obtain y where "y \<in> set ?rows" "due ?t y" "x = claim ?t y" "s_id y = s_id s" by (auto dest!: find_SomeD simp: ids)
      with uniq have "x = claim ?t s" "due ?t s" by blast+
      with Some show ?thesis by simp
    qed
    then show ?thesis by (simp add: reschedule_all_distinct [OF dist] ids rescheduled_def)
  qed
  then have "map (reschedule_all cron now ?dues) ?marked =
      map (\<lambda>s. if due ?t s then rescheduled cron now s (claim ?t s) else s) ?rows" by simp
  moreover have "fold (\<lambda>s st. snd (trigger s st)) ss (with_schedules x st) = with_schedules x (fold (\<lambda>s st. snd (trigger s st)) ss st)" for ss x st
    by (induction ss arbitrary: st) (simp_all add: trigger_snd)
  moreover have "st\<lparr>ex_db := (ex_db st)\<lparr>schedules := ?marked\<rparr>\<rparr> = with_schedules ?marked st" by (simp add: with_schedules_def)
  ultimately show ?thesis by (simp del: map_map add: tick_def ClaimDueSchedules_def process_all_live)
qed

end


text \<open>A full queue loses scheduled runs: when the service cannot accept a run, a tick starts nothing, and still every due schedule
  moves on to its next time, as if it had run.\<close>

theorem full_queue_skips_schedules:
  assumes "db_inv (ex_db st)" and "\<not> CanAccept sv st"
  shows "tick cron (scheduled_trigger sv clock) now (\<lambda>_. True) st =
    with_schedules
      (map (\<lambda>s. if due (to_seconds now) s then rescheduled cron now s (claim (to_seconds now) s) else s) (schedules (ex_db st))) st"
proof -
  have "snd (scheduled_trigger sv clock s st) = st" for s
    using assms(2) by (simp add: scheduled_trigger_def TriggerScheduledPipeline_def trigger_with_def Let_def split: sum.split)
  then have "fold (\<lambda>s st. snd (scheduled_trigger sv clock s st)) ss st = st" for ss by (induction ss) simp_all
  moreover have "distinct (map s_id (schedules (ex_db st)))" using assms(1) by (simp add: inv_defs)
  ultimately show ?thesis by (simp add: server_trigger.tick_live)
qed

text \<open>A schedule that is claimed while the server stops never fires again: its row has no next time.\<close>

lemma stopped_tick_loses_schedules:
  "tick cron trigger now (\<lambda>k. k = 0) st =
     with_schedules (map (\<lambda>s. if due (to_seconds now) s then claim (to_seconds now) s else s) (schedules (ex_db st))) st"
  "\<not> due later (claim t s)"
proof -
  have "process_all cron trigger now (\<lambda>k. k = 0) (Suc k) ss st = st" for k ss st
    by (induction ss arbitrary: k st) (simp_all add: processSchedule_def Let_def split: sum.split)
  then show "tick cron trigger now (\<lambda>k. k = 0) st =
      with_schedules (map (\<lambda>s. if due (to_seconds now) s then claim (to_seconds now) s else s) (schedules (ex_db st))) st"
    by (simp add: tick_def ClaimDueSchedules_def with_schedules_def)
  show "\<not> due later (claim t s)" by (simp add: due_def claim_def)
qed

text \<open>An interval that is not positive, or a cron expression without a next time, is accepted and fires at every tick.\<close>

lemma eager_schedule_always_due:
  assumes "s_enabled s" and "ComputeNextRun cron (s_type s) (s_expr s) now = Inr t" and "t \<le> now" and "now \<le> later"
  shows "due (to_seconds later) (rescheduled cron now s (claim (to_seconds now) s))"
proof -
  have "to_seconds t \<le> to_seconds later" using assms(3,4) by (simp add: to_seconds_def zdiv_mono1)
  with assms(1,2) show ?thesis by (simp add: due_def rescheduled_def claim_def)
qed

lemma negative_interval_accepted: "ComputeNextRun cron ScheduleTypeInterval ''-5m'' now = Inr (now - 300 * 10 ^ 9)"
proof -
  have "ParseDuration ''-5m'' = Some (- 300 * 10 ^ 9)"
    by (simp add: ParseDuration_def parse_duration_loop.simps [of 0] is_digit_def unit_end_def frac_part_def
        val10_def duration_units_def gm_get_def Let_def)
  then show ?thesis by (simp add: ComputeNextRun_def)
qed

lemma unsatisfiable_cron_is_past: "to_seconds zero_time < 0"
  by (simp add: to_seconds_def zero_time_def)

text \<open>The documented way to enable the scheduler is refused: the wildcard is not a feature.\<close>

lemma wildcard_list_refused: "\<exists>e. ParseAllowedFeatures ''*,schedules'' = Inl e"
proof -
  have "TrimSpace ''*'' = ''*''" by (simp add: TrimSpace_def is_space_def)
  moreover have "''*'' \<notin> set knownFeatures" by (simp add: knownFeatures_def AllFeatures_def)
  ultimately show ?thesis by (simp add: ParseAllowedFeatures_def Let_def)
qed

section \<open>Declared schedules\<close>

definition schedule_of :: "string \<Rightarrow> string \<Rightarrow> db \<Rightarrow> schedule option" where
  "schedule_of pid n d = find (\<lambda>s. s_pipeline_id s = pid \<and> s_name s = n) (schedules d)"

definition foreign :: "string \<Rightarrow> db \<Rightarrow> schedule list" where
  "foreign pid d = filter (\<lambda>s. s_pipeline_id s \<noteq> pid) (schedules d)"

definition declared :: "job_schedule \<Rightarrow> int \<Rightarrow> schedule option \<Rightarrow> schedule \<Rightarrow> bool" where
  "declared js t old s \<longleftrightarrow>
     s_type s = js_type js \<and> s_expr s = js_expr js \<and> s_job_name s = js_job_name js \<and> s_next_run_at s = Some (to_seconds t) \<and>
     (case old of
        None \<Rightarrow> s_enabled s \<and> s_last_run_at s = None
      | Some prev \<Rightarrow> s_id s = s_id prev \<and> s_enabled s = s_enabled prev \<and> s_last_run_at s = s_last_run_at prev)"

lemma find_map: "find P (map f xs) = map_option f (find (P \<circ> f) xs)"
  by (induction xs) simp_all

definition overwritten :: "int \<Rightarrow> schedule \<Rightarrow> schedule \<Rightarrow> schedule" where
  "overwritten now s r =
     (if same_schedule r s then r\<lparr>s_type := s_type s, s_expr := s_expr s, s_job_name := s_job_name s,
        s_next_run_at := s_next_run_at s, s_updated_at := now\<rparr> else r)"

lemma overwritten_key [simp]:
  "s_pipeline_id (overwritten now s r) = s_pipeline_id r" "s_name (overwritten now s r) = s_name r"
  by (simp_all add: overwritten_def)

lemma SaveSchedule_cases:
  assumes "SaveSchedule now s d = (None, d1)"
  obtains (known) r where "schedule_of (s_pipeline_id s) (s_name s) d = Some r" "schedules d1 = map (overwritten now s) (schedules d)"
  | (fresh) "schedule_of (s_pipeline_id s) (s_name s) d = None"
      "schedules d1 = schedules d @ [s\<lparr>s_last_run_at := None, s_created_at := now, s_updated_at := now\<rparr>]"
proof (cases "\<exists>o'\<in>set (schedules d). same_schedule o' s")
  case True
  then obtain r where "schedule_of (s_pipeline_id s) (s_name s) d = Some r"
    unfolding schedule_of_def same_schedule_def by (metis (mono_tags, lifting) find_None_iff not_Some_eq)
  moreover have "schedules d1 = map (overwritten now s) (schedules d)"
    using assms True by (auto simp: SaveSchedule_def overwritten_def [abs_def] split: if_splits)
  ultimately show ?thesis by (rule known)
next
  case False
  then have "schedule_of (s_pipeline_id s) (s_name s) d = None"
    unfolding schedule_of_def same_schedule_def by (simp add: find_None_iff)
  moreover have "schedules d1 = schedules d @ [s\<lparr>s_last_run_at := None, s_created_at := now, s_updated_at := now\<rparr>]"
    using assms False by (auto simp: SaveSchedule_def split: if_splits)
  ultimately show ?thesis by (rule fresh)
qed

lemma find_snoc: "find P (xs @ [x]) = (case find P xs of None \<Rightarrow> if P x then Some x else None | Some y \<Rightarrow> Some y)"
  by (induction xs) simp_all

lemma schedule_of_key: "schedule_of pid n d = Some r \<Longrightarrow> s_pipeline_id r = pid \<and> s_name r = n"
  by (auto simp: schedule_of_def dest: find_SomeD)

lemma SaveSchedule_schedule_of:
  assumes "SaveSchedule now s d = (None, d1)" and "s_pipeline_id s = pid"
  shows "schedule_of pid n d1 =
    (case schedule_of pid n d of
       Some r \<Rightarrow> Some (overwritten now s r)
     | None \<Rightarrow> if n = s_name s then Some (s\<lparr>s_last_run_at := None, s_created_at := now, s_updated_at := now\<rparr>) else None)"
  using assms(1)
proof (cases rule: SaveSchedule_cases)
  case (known r)
  then show ?thesis using assms(2) by (auto simp: schedule_of_def find_map comp_def split: option.split)
next
  case fresh
  have "schedule_of pid n d1 = (case schedule_of pid n d of
      None \<Rightarrow> if n = s_name s then Some (s\<lparr>s_last_run_at := None, s_created_at := now, s_updated_at := now\<rparr>) else None
    | Some r \<Rightarrow> Some r)"
    using fresh assms(2) by (simp add: schedule_of_def find_snoc)
  moreover have "overwritten now s r = r" if "schedule_of pid n d = Some r" for r
    using that fresh(1) assms(2) schedule_of_key [OF that] by (auto simp: overwritten_def same_schedule_def)
  ultimately show ?thesis by (auto split: option.splits)
qed

lemma SaveSchedule_foreign:
  assumes "SaveSchedule now s d = (None, d1)" and "s_pipeline_id s = pid"
  shows "foreign pid d1 = foreign pid d"
  using assms(1)
proof (cases rule: SaveSchedule_cases)
  case (known r)
  have "overwritten now s x = x" if "s_pipeline_id x \<noteq> pid" for x
    using that assms(2) by (simp add: overwritten_def same_schedule_def)
  then have "map (overwritten now s) (filter (\<lambda>x. s_pipeline_id x \<noteq> pid) rows) = filter (\<lambda>x. s_pipeline_id x \<noteq> pid) rows" for rows
    by (intro map_idI) simp
  then show ?thesis using known(2) by (simp add: foreign_def filter_map comp_def)
qed (use assms(2) in \<open>simp add: foreign_def\<close>)

lemma SaveSchedule_declares:
  assumes "SaveSchedule now (schedule_row i pid js t) d = (None, d1)"
  shows "n \<noteq> js_job_name js \<Longrightarrow> schedule_of pid n d1 = schedule_of pid n d"
    and "\<exists>s. schedule_of pid (js_job_name js) d1 = Some s \<and> declared js t (schedule_of pid (js_job_name js) d) s"
    and "foreign pid d1 = foreign pid d"
proof -
  have row: "s_pipeline_id (schedule_row i pid js t) = pid" "s_name (schedule_row i pid js t) = js_job_name js"
    by (simp_all add: schedule_row_def)
  show "schedule_of pid n d1 = schedule_of pid n d" if "n \<noteq> js_job_name js"
  proof -
    have "overwritten now (schedule_row i pid js t) r = r" if "schedule_of pid n d = Some r" for r
      using \<open>n \<noteq> js_job_name js\<close> schedule_of_key [OF that] row by (simp add: overwritten_def same_schedule_def)
    then show ?thesis using that by (auto simp: SaveSchedule_schedule_of [OF assms row(1)] row(2) split: option.split)
  qed
  show "\<exists>s. schedule_of pid (js_job_name js) d1 = Some s \<and> declared js t (schedule_of pid (js_job_name js) d) s"
    using schedule_of_key [of pid "js_job_name js" d] row
    by (auto simp: SaveSchedule_schedule_of [OF assms row(1)] row(2) declared_def overwritten_def same_schedule_def split: option.split)
      (simp_all add: schedule_row_def)
  show "foreign pid d1 = foreign pid d" by (rule SaveSchedule_foreign [OF assms row(1)])
qed

lemma save_schedules_declare:
  assumes "save_schedules cron now ids pid ss d = (None, d1)" and "distinct (map js_job_name ss)"
  shows "(\<forall>n. n \<notin> js_job_name ` set ss \<longrightarrow> schedule_of pid n d1 = schedule_of pid n d) \<and>
    (\<forall>js\<in>set ss. \<exists>s t. schedule_of pid (js_job_name js) d1 = Some s \<and> ComputeNextRun cron (js_type js) (js_expr js) now = Inr t \<and>
       declared js t (schedule_of pid (js_job_name js) d) s) \<and>
    foreign pid d1 = foreign pid d"
  using assms
proof (induction ss arbitrary: ids d)
  case (Cons js ss)
  obtain t d0 where t: "ComputeNextRun cron (js_type js) (js_expr js) now = Inr t"
    and saved: "SaveSchedule (to_seconds now) (schedule_row (ids 0) pid js t) d = (None, d0)"
    and rest: "save_schedules cron now (ids \<circ> Suc) pid ss d0 = (None, d1)"
    using Cons.prems(1) by (auto split: sum.splits prod.splits option.splits)
  note IH = Cons.IH [OF rest] and first = SaveSchedule_declares [OF saved]
  have new: "js_job_name js \<notin> js_job_name ` set ss" and "distinct (map js_job_name ss)" using Cons.prems(2) by auto
  then have IH: "\<forall>n. n \<notin> js_job_name ` set ss \<longrightarrow> schedule_of pid n d1 = schedule_of pid n d0"
    "\<forall>js\<in>set ss. \<exists>s t. schedule_of pid (js_job_name js) d1 = Some s \<and> ComputeNextRun cron (js_type js) (js_expr js) now = Inr t \<and>
       declared js t (schedule_of pid (js_job_name js) d0) s" "foreign pid d1 = foreign pid d0"
    using IH by blast+
  have "schedule_of pid (js_job_name js) d1 = schedule_of pid (js_job_name js) d0" using IH(1) new by blast
  moreover have "schedule_of pid (js_job_name x) d0 = schedule_of pid (js_job_name x) d" if "x \<in> set ss" for x
    using that new first(1) by (metis image_eqI)
  ultimately show ?case using IH first t by auto
qed simp

lemma schedule_of_Prune:
  "schedule_of pid n (PruneSchedulesByPipeline pid keep d) = (if n \<in> set keep then schedule_of pid n d else None)"
  "foreign pid (PruneSchedulesByPipeline pid keep d) = foreign pid d"
proof -
  have kept: "find P (filter Q xs) = find P xs" if "\<forall>x\<in>set xs. P x \<longrightarrow> Q x" for P Q and xs :: "schedule list"
    using that by (induction xs) auto
  have gone: "find P (filter Q xs) = None" if "\<forall>x\<in>set xs. P x \<longrightarrow> \<not> Q x" for P Q and xs :: "schedule list"
    using that by (induction xs) auto
  show "schedule_of pid n (PruneSchedulesByPipeline pid keep d) = (if n \<in> set keep then schedule_of pid n d else None)"
    by (auto simp: schedule_of_def PruneSchedulesByPipeline_def intro!: kept gone)
  show "foreign pid (PruneSchedulesByPipeline pid keep d) = foreign pid d"
    by (auto simp: foreign_def PruneSchedulesByPipeline_def intro!: filter_cong)
qed


text \<open>A pipeline that becomes a script keeps the schedules of its YAML.\<close>

lemma script_keeps_schedules: "p_content_type p \<noteq> ''yaml'' \<Longrightarrow> syncSchedules parse cron now ids p d = (None, d)"
  by (simp add: syncSchedules_def)

section \<open>Concrete schedules\<close>

definition no_cron :: cron_parser where
  "no_cron = (\<lambda>_. Inl ''unsupported'')"

lemma ParseDuration_1h: "ParseDuration ''1h'' = Some (3600 * 10 ^ 9)"
  by (simp add: ParseDuration_def parse_duration_loop.simps [of 0] is_digit_def unit_end_def frac_part_def
      val10_def duration_units_def gm_get_def Let_def)


theorem full_queue_skips_schedules_witness:
  "tick no_cron (scheduled_trigger (sample_service\<lparr>sv_max_in_flight := 0, sv_max_queue := 0\<rparr>) 6) (6 * 10 ^ 9) (\<lambda>_. True)
       (service_state scheduled_db) =
     with_schedules (map (\<lambda>s. s\<lparr>s_last_run_at := Some 6, s_next_run_at := Some 3606, s_updated_at := 6\<rparr>) (schedules scheduled_db))
       (service_state scheduled_db)"
proof -
  let ?sv = "sample_service\<lparr>sv_max_in_flight := 0, sv_max_queue := 0\<rparr>" and ?st = "service_state scheduled_db"
  have "db_inv (ex_db ?st)" by (simp add: service_state_def scheduled_db_def inv_defs done_db_def empty_db_def zero_pipeline_def sample_run_def)
  moreover have "\<not> CanAccept ?sv ?st" by (simp add: CanAccept_def CanExecute_def sample_service_def service_state_def)
  ultimately show ?thesis
    by (simp add: full_queue_skips_schedules)
      (simp add: service_state_def scheduled_db_def due_def to_seconds_def rescheduled_def claim_def ComputeNextRun_def ParseDuration_1h)
qed

definition nightly :: config where
  "nightly = zero_config [(zero_job ''nightly'' [])\<lparr>job_triggers := Some \<lparr>tr_webhook = None,
     tr_schedule = Some \<lparr>st_cron = [], st_every = ''1h''\<rparr>, tr_passed = []\<rparr>\<rparr>]"

definition nightly_pipeline :: pipeline where
  "nightly_pipeline = zero_pipeline ''p1'' ''ci'' ''doc'' [] ''yaml'' 0"


end
