(* ===== verification/Pipeline_Api.thy ===== *)
theory Pipeline_Api
  imports Auth_Tokens Run_Lifecycle Schedules
begin

text \<open>
  The JSON API over pipelines, runs and gates: \<open>server/api_pipelines_*.go\<close>, \<open>api_runs_controller.go\<close> and
  \<open>api_gates_controller.go\<close>, as functions from the state of the service and of the secret store to an HTTP status and the next state.
  \<open>Auth_Tokens\<close> has the context of a request and the check of a pipeline's access expression. Errors of the database other than a
  missing row or a violated constraint, and the HTMX forms of the responses, are left out.
\<close>

section \<open>State\<close>

type_synonym secret_store = "(string \<times> string, string) gomap"

text \<open>Which writes and listings of the secrets manager fail, with the text of the error.\<close>

record secret_backend =
  sb_set_fails :: "string \<Rightarrow> string \<Rightarrow> string option"
  sb_delete_fails :: "string \<Rightarrow> string \<Rightarrow> string option"
  sb_list_fails :: "string \<Rightarrow> string option"
  sb_delete_scope_fails :: "string \<Rightarrow> bool"

record 'p api_env =
  ae_service :: service
  ae_features :: "string list"
  ae_drivers :: "string list"
  ae_secrets :: "secret_backend option"
  ae_expr :: "'p expr_lib"
  ae_template_error :: "string \<Rightarrow> string option"
  ae_cron :: cron_parser
  ae_now :: int
  ae_nanos :: int
  ae_request_id :: string
  ae_pipeline_id :: string
  ae_schedule_ids :: "nat \<Rightarrow> string"

record api_state =
  as_exec :: exec_state
  as_secrets :: secret_store

definition set_secret :: "secret_backend \<Rightarrow> string \<Rightarrow> string \<Rightarrow> string \<Rightarrow> secret_store \<Rightarrow> string option \<times> secret_store" where
  "set_secret sb scope k v ss = (case sb_set_fails sb scope k of Some e \<Rightarrow> (Some e, ss) | None \<Rightarrow> (None, gm_set (scope, k) v ss))"

text \<open>A missing secret is not an error for the caller.\<close>

definition delete_secret :: "secret_backend \<Rightarrow> string \<Rightarrow> string \<Rightarrow> secret_store \<Rightarrow> string option \<times> secret_store" where
  "delete_secret sb scope k ss = (case sb_delete_fails sb scope k of Some e \<Rightarrow> (Some e, ss) | None \<Rightarrow> (None, gm_del (scope, k) ss))"

definition secret_keys_of :: "string \<Rightarrow> secret_store \<Rightarrow> string list" where
  "secret_keys_of scope ss = map (\<lambda>((s, k), v). k) (filter (\<lambda>((s, k), v). s = scope) ss)"

definition delete_scope :: "string \<Rightarrow> secret_store \<Rightarrow> secret_store" where
  "delete_scope scope ss = filter (\<lambda>((s, k), v). s \<noteq> scope) ss"

definition api_db :: "api_state \<Rightarrow> db" where
  "api_db st = ex_db (as_exec st)"

definition put_db :: "db \<Rightarrow> api_state \<Rightarrow> api_state" where
  "put_db d st = st\<lparr>as_exec := (as_exec st)\<lparr>ex_db := d\<rparr>\<rparr>"

section \<open>Setting a pipeline\<close>

record pipeline_request =
  pq_content :: string
  pq_content_type :: string
  pq_driver :: string
  pq_driver_config :: string
  pq_webhook_secret :: "string option"
  pq_secrets :: "(string, string) gomap"
  pq_resume_enabled :: "bool option"
  pq_rbac_expression :: "string option"
  pq_concurrency_mode :: "string option"
  pq_group_template :: "string option"
  pq_cancel_running :: "bool option"

definition IsDriverAllowed :: "string \<Rightarrow> string list \<Rightarrow> string option" where
  "IsDriverAllowed driver allowedList =
     (if driver = [] then Some ''driver name is required''
      else if ''*'' \<in> set allowedList \<or> driver \<in> set allowedList then None
      else Some (''driver '' @ go_quote driver @ '' is not allowed on this server. Allowed drivers: '' @ JoinStr allowedList '', ''))"

definition set_and_nonempty :: "string option \<Rightarrow> bool" where
  "set_and_nonempty v \<longleftrightarrow> v \<noteq> None \<and> v \<noteq> Some []"

definition validateSecrets :: "'p api_env \<Rightarrow> string \<Rightarrow> pipeline_request \<Rightarrow> api_state \<Rightarrow> string option" where
  "validateSecrets ae name req st =
     (if pq_secrets req = [] then None
      else if \<not> IsFeatureEnabled ''secrets'' (ae_features ae) then Some ''secrets feature is not enabled''
      else
        (case ae_secrets ae of
           None \<Rightarrow> Some ''secrets backend is not configured on the server''
         | Some sb \<Rightarrow>
             (case find (\<lambda>(k, v). IsSystemKey k) (pq_secrets req) of
                Some (k, v) \<Rightarrow> Some (''secret key '' @ go_quote k @ '' is reserved for system use'')
              | None \<Rightarrow>
                  (case GetPipelineByName name (api_db st) of
                     Inl e \<Rightarrow> None
                   | Inr p \<Rightarrow>
                       (case sb_list_fails sb (PipelineScope (p_id p)) of
                          Some e \<Rightarrow> Some (''failed to list existing secrets: '' @ e)
                        | None \<Rightarrow>
                            (case find (\<lambda>k. \<not> IsSystemKey k \<and> \<not> gm_has (pq_secrets req) k)
                                    (secret_keys_of (PipelineScope (p_id p)) (as_secrets st)) of
                               None \<Rightarrow> None
                             | Some k \<Rightarrow> Some (''missing existing secret key '' @ go_quote k
                                 @ '': all existing secrets must be included on update'')))))))"

definition validateConcurrencyRequest :: "(string \<Rightarrow> string option) \<Rightarrow> pipeline_request \<Rightarrow> string option" where
  "validateConcurrencyRequest template_error req =
     (case pq_concurrency_mode req of
        None \<Rightarrow> None
      | Some mode \<Rightarrow>
          if mode \<in> {[], ''serial'', ''skip-if-running''} then
            (if set_and_nonempty (pq_group_template req)
             then Some (''concurrency_group_template is only valid when concurrency_mode is '' @ go_quote ''group'')
             else if pq_cancel_running req = Some True
             then Some (''concurrency_cancel_running is only valid when concurrency_mode is '' @ go_quote ''group'')
             else None)
          else if mode = ''group'' then
            (case pq_group_template req of
               None \<Rightarrow> Some (''concurrency_mode='' @ go_quote ''group'' @ '' requires a non-empty concurrency_group_template'')
             | Some tmpl \<Rightarrow>
                 if tmpl = [] then Some (''concurrency_mode='' @ go_quote ''group'' @ '' requires a non-empty concurrency_group_template'')
                 else (case template_error tmpl of None \<Rightarrow> None | Some e \<Rightarrow> Some (''concurrency_group_template: '' @ e)))
          else Some (''unknown concurrency_mode '' @ go_quote mode))"

text \<open>The request with its driver filled in, or the text of the error, always with status 400.\<close>

definition validateUpsertRequest :: "'p api_env \<Rightarrow> string \<Rightarrow> pipeline_request \<Rightarrow> api_state \<Rightarrow> string + pipeline_request" where
  "validateUpsertRequest ae name req0 st =
     (if name = [] then Inl ''name is required''
      else if pq_content req0 = [] then Inl ''content is required''
      else
        (let req = (if pq_driver req0 = [] then req0\<lparr>pq_driver := sv_default_driver (ae_service ae)\<rparr> else req0) in
         case IsDriverAllowed (pq_driver req) (ae_drivers ae) of
           Some e \<Rightarrow> Inl (''driver not allowed: '' @ e)
         | None \<Rightarrow>
             if set_and_nonempty (pq_webhook_secret req) \<and> \<not> IsFeatureEnabled ''webhooks'' (ae_features ae)
             then Inl ''webhooks feature is not enabled''
             else if set_and_nonempty (pq_webhook_secret req) \<and> ae_secrets ae = None
             then Inl ''secrets backend is not configured on the server''
             else
               (case validateSecrets ae name req st of
                  Some e \<Rightarrow> Inl e
                | None \<Rightarrow>
                    (case validateConcurrencyRequest (ae_template_error ae) req of
                       Some e \<Rightarrow> Inl e
                     | None \<Rightarrow>
                         if \<not> IsFeatureEnabled ''secrets'' (ae_features ae) then Inl ''secrets feature is not enabled''
                         else if ae_secrets ae = None then Inl ''secrets backend is not configured on the server''
                         else Inr req))))"

fun set_secrets :: "secret_backend \<Rightarrow> string \<Rightarrow> (string \<times> string) list \<Rightarrow> secret_store \<Rightarrow> string option \<times> secret_store" where
  "set_secrets sb scope [] ss = (None, ss)"
| "set_secrets sb scope ((k, v) # kvs) ss =
     (case set_secret sb scope k v ss of
        (Some e, ss1) \<Rightarrow> (Some (''failed to store secret '' @ go_quote k @ '': '' @ e), ss1)
      | (None, ss1) \<Rightarrow> set_secrets sb scope kvs ss1)"

definition store_webhook_secret :: "secret_backend \<Rightarrow> string \<Rightarrow> string option \<Rightarrow> secret_store \<Rightarrow> string option \<times> secret_store" where
  "store_webhook_secret sb scope ws ss =
     (case ws of
        None \<Rightarrow> (None, ss)
      | Some s \<Rightarrow>
          if s = [] then map_prod (map_option (\<lambda>e. ''failed to delete webhook secret: '' @ e)) id (delete_secret sb scope ''webhook_secret'' ss)
          else map_prod (map_option (\<lambda>e. ''failed to store webhook secret: '' @ e)) id (set_secret sb scope ''webhook_secret'' s ss))"

definition persistSecrets :: "secret_backend \<Rightarrow> pipeline \<Rightarrow> pipeline_request \<Rightarrow> secret_store \<Rightarrow> string option \<times> secret_store" where
  "persistSecrets sb p req ss =
     (let scope = PipelineScope (p_id p) in
      case set_secret sb scope ''driver'' (pq_driver req) ss of
        (Some e, ss1) \<Rightarrow> (Some (''failed to store driver: '' @ e), ss1)
      | (None, ss1) \<Rightarrow>
          (case (if pq_driver_config req = [] then (None, ss1) else set_secret sb scope ''driver_config'' (pq_driver_config req) ss1) of
             (Some e, ss2) \<Rightarrow> (Some (''failed to store driver config: '' @ e), ss2)
           | (None, ss2) \<Rightarrow>
               (case store_webhook_secret sb scope (pq_webhook_secret req) ss2 of
                  (Some e, ss3) \<Rightarrow> (Some e, ss3)
                | (None, ss3) \<Rightarrow> set_secrets sb scope (sort_key fst (pq_secrets req)) ss3)))"

definition no_update :: pipeline_update where
  "no_update = \<lparr>u_resume_enabled = None, u_paused = None, u_rbac_expression = None, u_concurrency_mode = None, u_group_template = None,
     u_cancel_running = None\<rparr>"

definition applyConcurrencyUpdate :: "pipeline \<Rightarrow> pipeline_request \<Rightarrow> db \<Rightarrow> db_error option \<times> db" where
  "applyConcurrencyUpdate p req d =
     (if pq_concurrency_mode req = None \<and> pq_group_template req = None \<and> pq_cancel_running req = None then (None, d)
      else UpdatePipeline (p_id p)
             (no_update\<lparr>u_concurrency_mode := pq_concurrency_mode req, u_group_template := pq_group_template req,
                u_cancel_running := pq_cancel_running req\<rparr>) d)"

text \<open>The status of the error, if there is one.\<close>

definition update_or_500 :: "db_error option \<times> db \<Rightarrow> nat option \<times> db" where
  "update_or_500 r = (case r of (None, d) \<Rightarrow> (None, d) | (Some _, d) \<Rightarrow> (Some 500, d))"

definition upsert_rbac :: "'p api_env \<Rightarrow> request_ctx \<Rightarrow> pipeline \<Rightarrow> pipeline_request \<Rightarrow> db \<Rightarrow> nat option \<times> db" where
  "upsert_rbac ae cx p req d =
     (case pq_rbac_expression req of
        None \<Rightarrow> (None, d)
      | Some expression \<Rightarrow>
          if expression \<noteq> [] \<and> cx_user cx = None then (Some 400, d)
          else if expression \<noteq> [] \<and> ValidateExpression (ae_expr ae) expression \<noteq> None then (Some 400, d)
          else update_or_500 (UpdatePipeline (p_id p) (no_update\<lparr>u_rbac_expression := Some expression\<rparr>) d))"

definition upsertPostSave :: "'p api_env \<Rightarrow> request_ctx \<Rightarrow> pipeline \<Rightarrow> pipeline_request \<Rightarrow> db \<Rightarrow> nat option \<times> db" where
  "upsertPostSave ae cx p req d =
     (if pq_resume_enabled req = Some True \<and> \<not> IsFeatureEnabled ''resume'' (ae_features ae) then (Some 400, d)
      else
        (case (case pq_resume_enabled req of
                 None \<Rightarrow> (None, d)
               | Some b \<Rightarrow> update_or_500 (UpdatePipeline (p_id p) (no_update\<lparr>u_resume_enabled := Some b\<rparr>) d)) of
           (Some e, d1) \<Rightarrow> (Some e, d1)
         | (None, d1) \<Rightarrow>
             (case upsert_rbac ae cx p req d1 of
                (Some e, d2) \<Rightarrow> (Some e, d2)
              | (None, d2) \<Rightarrow> update_or_500 (applyConcurrencyUpdate p req d2))))"

definition access_denied :: "'p api_env \<Rightarrow> request_ctx \<Rightarrow> pipeline \<Rightarrow> bool" where
  "access_denied ae cx p \<longleftrightarrow> checkPipelineRBAC (ae_expr ae) (p_rbac_expression p) cx \<noteq> None"

text \<open>\<open>PUT /api/pipelines/:name\<close>; a body that cannot be bound is \<open>None\<close>. The manager is there once the request is valid.\<close>

definition Upsert :: "'p api_env \<Rightarrow> request_ctx \<Rightarrow> string \<Rightarrow> pipeline_request option \<Rightarrow> api_state \<Rightarrow> nat \<times> api_state" where
  "Upsert ae cx name body st =
     (case body of
        None \<Rightarrow> (400, st)
      | Some req0 \<Rightarrow>
          (case validateUpsertRequest ae name req0 st of
             Inl _ \<Rightarrow> (400, st)
           | Inr req \<Rightarrow>
               if (case GetPipelineByName name (api_db st) of Inl _ \<Rightarrow> False | Inr old \<Rightarrow> access_denied ae cx old) then (403, st)
               else
                 (case SavePipeline (ae_pipeline_id ae) (ae_now ae) name (pq_content req) (pq_driver req) (pq_content_type req) (api_db st) of
                    (Inl _, d) \<Rightarrow> (500, put_db d st)
                  | (Inr p, d) \<Rightarrow>
                      (case ae_secrets ae of
                         None \<Rightarrow> (500, put_db d st)
                       | Some sb \<Rightarrow>
                           (case persistSecrets sb p req (as_secrets st) of
                              (Some _, ss) \<Rightarrow> (500, (put_db d st)\<lparr>as_secrets := ss\<rparr>)
                            | (None, ss) \<Rightarrow>
                                (case upsertPostSave ae cx p req d of
                                   (Some status, d1) \<Rightarrow> (status, (put_db d1 st)\<lparr>as_secrets := ss\<rparr>)
                                 | (None, d1) \<Rightarrow>
                                     (200, (put_db (snd (syncSchedules (sv_parse (ae_service ae)) (ae_cron ae) (ae_nanos ae)
                                               (ae_schedule_ids ae) p d1)) st)\<lparr>as_secrets := ss\<rparr>)))))))"

section \<open>Pipelines\<close>

definition formatActor :: "request_ctx \<Rightarrow> string" where
  "formatActor cx =
     (case cx_actor cx of
        None \<Rightarrow> ''unknown''
      | Some a \<Rightarrow> if ra_provider a \<noteq> [] then ra_provider a @ '':'' @ ra_user a else ra_user a)"

text \<open>What the service reads of the context of a request.\<close>

definition service_request :: "'p api_env \<Rightarrow> request_ctx \<Rightarrow> Execution.request" where
  "service_request ae cx =
     (case cx_actor cx of
        None \<Rightarrow> \<lparr>rq_id = ae_request_id ae, rq_provider = [], rq_user = []\<rparr>
      | Some a \<Rightarrow> \<lparr>rq_id = ae_request_id ae, rq_provider = ra_provider a, rq_user = ra_user a\<rparr>)"

definition lookup_status :: "db_error \<Rightarrow> nat" where
  "lookup_status e = (if e = ErrNotFound then 404 else 500)"

definition Show :: "'p api_env \<Rightarrow> request_ctx \<Rightarrow> string \<Rightarrow> api_state \<Rightarrow> nat + pipeline" where
  "Show ae cx i st =
     (case GetPipeline i (api_db st) of
        Inl e \<Rightarrow> Inl (lookup_status e)
      | Inr p \<Rightarrow> if access_denied ae cx p then Inl 403 else Inr p)"

definition Destroy :: "'p api_env \<Rightarrow> request_ctx \<Rightarrow> string \<Rightarrow> api_state \<Rightarrow> nat \<times> api_state" where
  "Destroy ae cx i st =
     (case GetPipeline i (api_db st) of
        Inl e \<Rightarrow> (lookup_status e, st)
      | Inr p \<Rightarrow>
          if access_denied ae cx p then (403, st)
          else
            (case DeletePipeline i (api_db st) of
               (Some e, d) \<Rightarrow> (500, put_db d st)
             | (None, d) \<Rightarrow>
                 (204, (case ae_secrets ae of
                          None \<Rightarrow> put_db d st
                        | Some sb \<Rightarrow>
                            if sb_delete_scope_fails sb (PipelineScope i) then put_db d st
                            else (put_db d st)\<lparr>as_secrets := delete_scope (PipelineScope i) (as_secrets st)\<rparr>))))"

definition ListSchedules :: "string \<Rightarrow> api_state \<Rightarrow> nat + schedule list" where
  "ListSchedules i st =
     (case GetPipeline i (api_db st) of
        Inl e \<Rightarrow> Inl (lookup_status e)
      | Inr _ \<Rightarrow> Inr (GetSchedulesByPipeline i (api_db st)))"

definition setPaused :: "'p api_env \<Rightarrow> request_ctx \<Rightarrow> string \<Rightarrow> bool \<Rightarrow> api_state \<Rightarrow> nat \<times> api_state" where
  "setPaused ae cx i paused st =
     (case GetPipeline i (api_db st) of
        Inl e \<Rightarrow> (lookup_status e, st)
      | Inr p \<Rightarrow>
          if access_denied ae cx p then (403, st)
          else
            (case UpdatePipeline i (no_update\<lparr>u_paused := Some paused\<rparr>) (api_db st) of
               (Some e, d) \<Rightarrow> (500, put_db d st)
             | (None, d) \<Rightarrow> (200, put_db d st)))"

text \<open>The three writes of \<open>SeedJobPassed\<close>: a queued run, the record of the job, the status of the run.\<close>

definition seed_run :: "'p api_env \<Rightarrow> request_ctx \<Rightarrow> pipeline \<Rightarrow> exec_state \<Rightarrow> (db_error + pipeline_run) \<times> exec_state" where
  "seed_run ae cx p =
     save_run (ae_service ae) (ae_now ae) (p_id p) TriggerTypeSeed (formatActor cx)
       \<lparr>ti_args = [], ti_webhook = None, ti_jobs = [], ti_upstream_run_ids = []\<rparr> [] RunStatusQueued []"

definition seed_record :: "'p api_env \<Rightarrow> string \<Rightarrow> string \<Rightarrow> db \<Rightarrow> db" where
  "seed_record ae runID jobName =
     store_Set (sv_namespace (ae_service ae)) (''/pipeline/'' @ runID @ ''/jobs/'' @ jobName)
       (JObj [(''seeded'', JBool True), (''status'', JStr ''success'')])"

definition SeedJobPassed :: "'p api_env \<Rightarrow> request_ctx \<Rightarrow> string \<Rightarrow> string \<Rightarrow> api_state \<Rightarrow> nat \<times> api_state" where
  "SeedJobPassed ae cx i jobName st =
     (case GetPipeline i (api_db st) of
        Inl e \<Rightarrow> (lookup_status e, st)
      | Inr p \<Rightarrow>
          if access_denied ae cx p then (403, st)
          else
            (case seed_run ae cx p (as_exec st) of
               (Inl e, x) \<Rightarrow> (500, st\<lparr>as_exec := x\<rparr>)
             | (Inr run, x) \<Rightarrow>
                 (200, st\<lparr>as_exec := x\<lparr>ex_db :=
                    snd (UpdateRunStatus (ae_now ae) (r_id run) RunStatusSuccess [] (seed_record ae (r_id run) jobName (ex_db x)))\<rparr>\<rparr>)))"

record trigger_request =
  tq_mode :: string
  tq_args :: "string list"
  tq_jobs :: "string list"
  tq_webhook :: "(string \<times> (string, string) gomap \<times> string) option"

text \<open>The simulated webhook: body, headers and method.\<close>

definition simulated_webhook :: "trigger_request \<Rightarrow> trigger_webhook_input" where
  "simulated_webhook req =
     \<lparr>wh_provider = ''manual'', wh_event_type = [],
      wh_method = (case tq_webhook req of Some (_, _, m) \<Rightarrow> if m \<noteq> [] then m else ''POST'' | None \<Rightarrow> ''POST''), wh_url = [],
      wh_headers = (case tq_webhook req of Some (_, hs, _) \<Rightarrow> hs | None \<Rightarrow> []),
      wh_body = (case tq_webhook req of Some (b, _, _) \<Rightarrow> b | None \<Rightarrow> []), wh_query = []\<rparr>"

definition trigger_status :: "(exec_error + pipeline_run) \<times> exec_state \<Rightarrow> nat \<times> exec_state" where
  "trigger_status r = (case r of (Inl e, x) \<Rightarrow> (if e = ErrQueueFull then 429 else 500, x) | (Inr _, x) \<Rightarrow> (202, x))"

definition triggerByMode ::
  "'p api_env \<Rightarrow> request_ctx \<Rightarrow> pipeline \<Rightarrow> trigger_request \<Rightarrow> nat \<Rightarrow> exec_state \<Rightarrow> nat \<times> exec_state" where
  "triggerByMode ae cx p req channel x =
     (if tq_mode req = ''args'' then
        trigger_status (TriggerPipelineWithJobs (ae_service ae) (ae_now ae) (service_request ae cx) p (tq_args req) (tq_jobs req) x)
      else if tq_mode req = ''webhook'' then
        (if \<not> IsFeatureEnabled ''webhooks'' (ae_features ae) then (403, x)
         else trigger_status (TriggerWebhookPipeline (ae_service ae) (ae_now ae) (service_request ae cx) p
                                (Some (simulated_webhook req)) (Some channel) x))
      else trigger_status (TriggerPipelineWithJobs (ae_service ae) (ae_now ae) (service_request ae cx) p [] (tq_jobs req) x))"

text \<open>The request is what could be decoded of the body.\<close>

definition Trigger ::
  "'p api_env \<Rightarrow> request_ctx \<Rightarrow> string \<Rightarrow> trigger_request \<Rightarrow> nat \<Rightarrow> api_state \<Rightarrow> nat \<times> api_state" where
  "Trigger ae cx i req channel st =
     (case GetPipeline i (api_db st) of
        Inl e \<Rightarrow> (lookup_status e, st)
      | Inr p \<Rightarrow>
          if access_denied ae cx p then (403, st)
          else if p_paused p then (409, st)
          else (case triggerByMode ae cx p req channel (as_exec st) of (status, x) \<Rightarrow> (status, st\<lparr>as_exec := x\<rparr>)))"

section \<open>Runs\<close>

definition checkRunRBAC :: "'p api_env \<Rightarrow> request_ctx \<Rightarrow> string \<Rightarrow> api_state \<Rightarrow> nat option" where
  "checkRunRBAC ae cx pid st =
     (case GetPipeline pid (api_db st) of
        Inl e \<Rightarrow> Some (lookup_status e)
      | Inr p \<Rightarrow> if access_denied ae cx p then Some 403 else None)"

definition Status :: "'p api_env \<Rightarrow> request_ctx \<Rightarrow> string \<Rightarrow> api_state \<Rightarrow> nat + pipeline_run" where
  "Status ae cx runID st =
     (case GetRun runID (api_db st) of
        Inl e \<Rightarrow> Inl (lookup_status e)
      | Inr run \<Rightarrow> (case checkRunRBAC ae cx (r_pipeline_id run) st of Some s \<Rightarrow> Inl s | None \<Rightarrow> Inr run))"

definition run_prefix :: "string \<Rightarrow> string" where
  "run_prefix runID = ''/pipeline/'' @ runID @ ''/''"

definition tasksByPath :: "string \<Rightarrow> string \<Rightarrow> string \<Rightarrow> db \<Rightarrow> nat + (string \<times> json) list" where
  "tasksByPath ns pre taskPath d =
     (let lookupPath = (if HasPrefix taskPath ''/'' then taskPath else pre @ taskPath) in
      if \<not> HasPrefix lookupPath pre then Inl 400
      else (case store_Get ns lookupPath d of
              Inl e \<Rightarrow> Inl (lookup_status e)
            | Inr payload \<Rightarrow> Inr [(lookupPath, payload)]))"

text \<open>\<open>GET /api/runs/:run_id/tasks?path=...\<close>.\<close>

definition Tasks_by_path :: "'p api_env \<Rightarrow> request_ctx \<Rightarrow> string \<Rightarrow> string \<Rightarrow> api_state \<Rightarrow> nat + (string \<times> json) list" where
  "Tasks_by_path ae cx runID taskPath st =
     (case Status ae cx runID st of
        Inl s \<Rightarrow> Inl s
      | Inr run \<Rightarrow> tasksByPath (sv_namespace (ae_service ae)) (run_prefix runID) taskPath (api_db st))"

definition stopOrphanedRun :: "'p api_env \<Rightarrow> string \<Rightarrow> db \<Rightarrow> nat \<times> db" where
  "stopOrphanedRun ae runID d =
     (case UpdateRunStatus (ae_now ae) runID RunStatusFailed ''Run stopped by user''
             (UpdateStatusForPrefix (sv_namespace (ae_service ae)) (run_prefix runID) [''pending'', ''running''] ''aborted'' d) of
        (Some _, d1) \<Rightarrow> (500, d1)
      | (None, d1) \<Rightarrow> (200, d1))"

definition Stop :: "'p api_env \<Rightarrow> request_ctx \<Rightarrow> string \<Rightarrow> api_state \<Rightarrow> nat \<times> api_state" where
  "Stop ae cx runID st =
     (case Status ae cx runID st of
        Inl s \<Rightarrow> (s, st)
      | Inr run \<Rightarrow>
          if r_status run \<noteq> RunStatusRunning \<and> r_status run \<noteq> RunStatusQueued then (409, st)
          else
            (case StopRun (ae_service ae) (ae_now ae) runID (as_exec st) of
               (None, x) \<Rightarrow> (200, st\<lparr>as_exec := x\<rparr>)
             | (Some e, x) \<Rightarrow>
                 if e = ErrRunNotInFlight
                 then (case stopOrphanedRun ae runID (ex_db x) of (s, d) \<Rightarrow> (s, st\<lparr>as_exec := x\<lparr>ex_db := d\<rparr>\<rparr>))
                 else (500, st\<lparr>as_exec := x\<rparr>)))"

definition resumeValidate :: "'p api_env \<Rightarrow> request_ctx \<Rightarrow> string \<Rightarrow> api_state \<Rightarrow> nat + pipeline_run \<times> pipeline" where
  "resumeValidate ae cx runID st =
     (case GetRun runID (api_db st) of
        Inl e \<Rightarrow> Inl (lookup_status e)
      | Inr run \<Rightarrow>
          if r_status run \<noteq> RunStatusFailed then Inl 409
          else
            (case GetPipeline (r_pipeline_id run) (api_db st) of
               Inl _ \<Rightarrow> Inl 500
             | Inr p \<Rightarrow> if access_denied ae cx p then Inl 403 else Inr (run, p)))"

definition Resume :: "'p api_env \<Rightarrow> request_ctx \<Rightarrow> string \<Rightarrow> api_state \<Rightarrow> nat \<times> api_state" where
  "Resume ae cx runID st =
     (if \<not> IsFeatureEnabled ''resume'' (ae_features ae) then (403, st)
      else
        (case resumeValidate ae cx runID st of
           Inl s \<Rightarrow> (s, st)
         | Inr (run, p) \<Rightarrow>
             (case ResumePipeline (ae_service ae) (ae_now ae) (service_request ae cx) p run (as_exec st) of
                (Some e, x) \<Rightarrow> (if e = ErrQueueFull then 429 else 500, st\<lparr>as_exec := x\<rparr>)
              | (None, x) \<Rightarrow> (200, st\<lparr>as_exec := x\<rparr>))))"

section \<open>Gates\<close>

definition ListByRun :: "'p api_env \<Rightarrow> request_ctx \<Rightarrow> string \<Rightarrow> api_state \<Rightarrow> nat + gate list" where
  "ListByRun ae cx runID st =
     (if \<not> IsFeatureEnabled ''gates'' (ae_features ae) then Inl 403
      else
        (case GetRun runID (api_db st) of
           Inl e \<Rightarrow> Inl (lookup_status e)
         | Inr run \<Rightarrow>
             (case checkRunRBAC ae cx (r_pipeline_id run) st of
                Some s \<Rightarrow> Inl s
              | None \<Rightarrow> Inr (GetGatesByRunID runID (api_db st)))))"

definition resolveGateNotFound :: "string \<Rightarrow> db \<Rightarrow> nat" where
  "resolveGateNotFound gateID d = (case GetGate gateID d of Inl _ \<Rightarrow> 404 | Inr _ \<Rightarrow> 409)"

definition resolveGate :: "'p api_env \<Rightarrow> request_ctx \<Rightarrow> string \<Rightarrow> gate_status \<Rightarrow> api_state \<Rightarrow> nat \<times> api_state" where
  "resolveGate ae cx gateID status st =
     (if \<not> IsFeatureEnabled ''gates'' (ae_features ae) then (403, st)
      else
        (case GetGate gateID (api_db st) of
           Inl e \<Rightarrow> (if e = ErrNotFound then resolveGateNotFound gateID (api_db st) else 500, st)
         | Inr g \<Rightarrow>
             (case checkRunRBAC ae cx (g_pipeline_id g) st of
                Some s \<Rightarrow> (s, st)
              | None \<Rightarrow>
                  (case ResolveGate (ae_now ae) gateID status (formatActor cx) (api_db st) of
                     (Some e, d) \<Rightarrow> (if e = ErrNotFound then resolveGateNotFound gateID d else 500, put_db d st)
                   | (None, d) \<Rightarrow> (200, put_db d st)))))"

section \<open>Calls\<close>

text \<open>The calls of the API that change the state of a pipeline or of its runs.\<close>

datatype api_call =
    Call_upsert string "pipeline_request option"
  | Call_destroy string
  | Call_trigger string trigger_request nat
  | Call_pause string
  | Call_unpause string
  | Call_seed string string
  | Call_stop string
  | Call_resume string
  | Call_approve string
  | Call_reject string

fun api_step :: "'p api_env \<Rightarrow> request_ctx \<Rightarrow> api_call \<Rightarrow> api_state \<Rightarrow> nat \<times> api_state" where
  "api_step ae cx (Call_upsert name body) st = Upsert ae cx name body st"
| "api_step ae cx (Call_destroy i) st = Destroy ae cx i st"
| "api_step ae cx (Call_trigger i req channel) st = Trigger ae cx i req channel st"
| "api_step ae cx (Call_pause i) st = setPaused ae cx i True st"
| "api_step ae cx (Call_unpause i) st = setPaused ae cx i False st"
| "api_step ae cx (Call_seed i job) st = SeedJobPassed ae cx i job st"
| "api_step ae cx (Call_stop i) st = Stop ae cx i st"
| "api_step ae cx (Call_resume i) st = Resume ae cx i st"
| "api_step ae cx (Call_approve i) st = resolveGate ae cx i GateStatusApproved st"
| "api_step ae cx (Call_reject i) st = resolveGate ae cx i GateStatusRejected st"

text \<open>The pipeline that a call is about.\<close>

definition run_pipeline :: "string \<Rightarrow> db \<Rightarrow> pipeline option" where
  "run_pipeline i d = Option.bind (find_run i d) (\<lambda>r. find_pipeline (r_pipeline_id r) d)"

definition gate_pipeline :: "string \<Rightarrow> db \<Rightarrow> pipeline option" where
  "gate_pipeline i d = Option.bind (find_gate i d) (\<lambda>g. find_pipeline (g_pipeline_id g) d)"

fun call_pipeline :: "api_call \<Rightarrow> db \<Rightarrow> pipeline option" where
  "call_pipeline (Call_upsert name _) d = (case GetPipelineByName name d of Inl _ \<Rightarrow> None | Inr p \<Rightarrow> Some p)"
| "call_pipeline (Call_destroy i) d = find_pipeline i d"
| "call_pipeline (Call_trigger i _ _) d = find_pipeline i d"
| "call_pipeline (Call_pause i) d = find_pipeline i d"
| "call_pipeline (Call_unpause i) d = find_pipeline i d"
| "call_pipeline (Call_seed i _) d = find_pipeline i d"
| "call_pipeline (Call_stop i) d = run_pipeline i d"
| "call_pipeline (Call_resume i) d = run_pipeline i d"
| "call_pipeline (Call_approve i) d = gate_pipeline i d"
| "call_pipeline (Call_reject i) d = gate_pipeline i d"


section \<open>What an accepted request leaves\<close>

text \<open>The row of a pipeline after the updates of one request.\<close>

definition requested :: "pipeline_request \<Rightarrow> pipeline \<Rightarrow> pipeline" where
  "requested req p =
     p\<lparr>p_resume_enabled := opt_or (pq_resume_enabled req) (p_resume_enabled p),
       p_rbac_expression := opt_or (pq_rbac_expression req) (p_rbac_expression p),
       p_concurrency_mode := opt_or (pq_concurrency_mode req) (p_concurrency_mode p),
       p_group_template := opt_or (pq_group_template req) (p_group_template p),
       p_cancel_running := opt_or (pq_cancel_running req) (p_cancel_running p)\<rparr>"

lemma opt_or_None [simp]: "opt_or None x = x"
  by (simp add: opt_or_def)

lemma UpdatePipeline_row:
  assumes "UpdatePipeline i u d = (None, d1)" and "find_pipeline i d = Some p"
  shows "find_pipeline i d1 = Some (apply_update u p)"
proof (cases "update_empty u")
  case True
  then have "apply_update u p = p" by (simp add: update_empty_def apply_update_def)
  with True assms show ?thesis by (simp add: UpdatePipeline_def)
next
  case False
  have key: "p_id (apply_update u x) = p_id x" for x by (simp add: apply_update_def)
  have "find (\<lambda>x. p_id x = i) (map (\<lambda>x. if p_id x = i then apply_update u x else x) ps) =
      map_option (apply_update u) (find (\<lambda>x. p_id x = i) ps)" for ps
    by (induction ps) (auto simp: key)
  with False assms show ?thesis by (auto simp: UpdatePipeline_def find_pipeline_def)
qed

lemma upsertPostSave_row:
  assumes "upsertPostSave ae cx p req d = (None, d1)" and "find_pipeline (p_id p) d = Some row"
  shows "find_pipeline (p_id p) d1 = Some (requested req row)"
proof -
  let ?i = "p_id p"
  define row1 where "row1 = row\<lparr>p_resume_enabled := opt_or (pq_resume_enabled req) (p_resume_enabled row)\<rparr>"
  define row2 where "row2 = row1\<lparr>p_rbac_expression := opt_or (pq_rbac_expression req) (p_rbac_expression row1)\<rparr>"
  obtain d2 where d2: "find_pipeline ?i d2 = Some row1" and rest:
    "(case upsert_rbac ae cx p req d2 of (Some e, d3) \<Rightarrow> (Some e, d3) | (None, d3) \<Rightarrow> update_or_500 (applyConcurrencyUpdate p req d3)) = (None, d1)"
  proof (cases "pq_resume_enabled req")
    case None
    then have "row1 = row" by (simp add: row1_def)
    with None assms that [of d] show ?thesis by (auto simp: upsertPostSave_def split: if_splits)
  next
    case (Some b)
    then obtain d2 where up: "UpdatePipeline ?i (no_update\<lparr>u_resume_enabled := Some b\<rparr>) d = (None, d2)"
      and rest: "(case upsert_rbac ae cx p req d2 of (Some e, d3) \<Rightarrow> (Some e, d3)
        | (None, d3) \<Rightarrow> update_or_500 (applyConcurrencyUpdate p req d3)) = (None, d1)"
      using assms(1) by (auto simp: upsertPostSave_def update_or_500_def split: if_splits prod.splits option.splits)
    have "apply_update (no_update\<lparr>u_resume_enabled := Some b\<rparr>) row = row1"
      using Some by (simp add: apply_update_def no_update_def row1_def opt_or_def)
    with UpdatePipeline_row [OF up assms(2)] rest show ?thesis by (intro that [of d2]) simp_all
  qed
  obtain d3 where d3: "find_pipeline ?i d3 = Some row2" and conc: "update_or_500 (applyConcurrencyUpdate p req d3) = (None, d1)"
  proof (cases "pq_rbac_expression req")
    case None
    then have "row2 = row1" by (simp add: row2_def)
    with None rest d2 that [of d2] show ?thesis by (auto simp: upsert_rbac_def)
  next
    case (Some ex)
    then obtain d3 where up: "UpdatePipeline ?i (no_update\<lparr>u_rbac_expression := Some ex\<rparr>) d2 = (None, d3)"
      and conc: "update_or_500 (applyConcurrencyUpdate p req d3) = (None, d1)"
      using rest by (auto simp: upsert_rbac_def update_or_500_def split: if_splits prod.splits option.splits)
    have "apply_update (no_update\<lparr>u_rbac_expression := Some ex\<rparr>) row1 = row2"
      using Some by (simp add: apply_update_def no_update_def row2_def opt_or_def)
    with UpdatePipeline_row [OF up d2] conc show ?thesis by (intro that [of d3]) simp_all
  qed
  show ?thesis
  proof (cases "pq_concurrency_mode req = None \<and> pq_group_template req = None \<and> pq_cancel_running req = None")
    case True
    then have "requested req row = row2" by (simp add: requested_def row2_def row1_def)
    with True conc d3 show ?thesis by (simp add: applyConcurrencyUpdate_def update_or_500_def)
  next
    case False
    let ?u = "no_update\<lparr>u_concurrency_mode := pq_concurrency_mode req, u_group_template := pq_group_template req,
      u_cancel_running := pq_cancel_running req\<rparr>"
    have "UpdatePipeline ?i ?u d3 = (None, d1)"
      using False conc by (auto simp: applyConcurrencyUpdate_def update_or_500_def split: prod.splits option.splits)
    from UpdatePipeline_row [OF this d3] show ?thesis
      by (simp add: apply_update_def no_update_def requested_def row2_def row1_def)
  qed
qed

lemma find_distinct_key: "distinct (map f xs) \<Longrightarrow> x \<in> set xs \<Longrightarrow> find (\<lambda>y. f y = f x) xs = Some x"
  by (induction xs) (auto simp: image_iff)

lemma SavePipeline_row:
  assumes "SavePipeline newID now name content driver ct d = (Inr p, d1)" and "db_inv d" and "[] \<notin> p_id ` set (pipelines d)"
  shows "\<exists>row. find_pipeline (p_id p) d1 = Some row \<and> p_id row = p_id p \<and> p_name row = name \<and> p_content row = content \<and>
    p_content_type row = ct \<and> p_driver row = driver \<and>
    p_rbac_expression row = (case find_pipeline_name name d of None \<Rightarrow> [] | Some old \<Rightarrow> p_rbac_expression old)"
proof (cases "find_pipeline_name name d")
  case None
  then have "find_pipeline newID d = None" "p = zero_pipeline newID name content driver ct now"
    "d1 = d\<lparr>pipelines := pipelines d @ [zero_pipeline newID name content driver ct now]\<rparr>"
    using assms(1) by (auto simp: SavePipeline_def split: if_splits)
  then show ?thesis using None by (simp add: find_pipeline_def find_snoc zero_pipeline_def)
next
  case (Some old)
  let ?upd = "\<lambda>q. if p_name q = name then q\<lparr>p_content := content, p_content_type := ct, p_driver := driver, p_updated_at := now\<rparr> else q"
  have old: "old \<in> set (pipelines d)" "p_name old = name"
    using Some by (auto simp: find_pipeline_name_def dest: find_SomeD)
  have id: "p_id old \<noteq> []" using old(1) assms(3) by (metis image_eqI)
  have p: "p_id p = p_id old" and d1: "d1 = d\<lparr>pipelines := map ?upd (pipelines d)\<rparr>"
    using Some assms(1) id by (auto simp: SavePipeline_def zero_pipeline_def)
  have "distinct (map p_id (pipelines d))" using assms(2) by (simp add: inv_defs)
  from find_distinct_key [OF this old(1)] have "find_pipeline (p_id p) d1 = Some (?upd old)"
    by (simp add: find_pipeline_def d1 p find_map comp_def if_distrib cong: if_cong)
  then show ?thesis using old(2) Some p by simp
qed

lemma set_secrets_keeps:
  assumes "set_secrets sb scope kvs ss = (None, ss1)" and "\<And>k v. (k, v) \<in> set kvs \<Longrightarrow> key \<noteq> (scope, k)"
  shows "gm_get ss1 key = gm_get ss key"
  using assms
proof (induction sb scope kvs ss rule: set_secrets.induct)
  case (2 sb scope k v kvs ss)
  obtain ss0 where ss0: "set_secret sb scope k v ss = (None, ss0)" and rest: "set_secrets sb scope kvs ss0 = (None, ss1)"
    using 2(2) by (auto split: prod.splits option.splits)
  have "gm_get ss1 key = gm_get ss0 key" by (rule 2(1) [OF ss0 [symmetric] refl rest]) (use 2(3) in auto)
  also have "\<dots> = gm_get ss key" using ss0 2(3) [of k v] by (auto simp: set_secret_def split: option.splits)
  finally show ?case .
qed simp

lemma persistSecrets_stored:
  assumes "persistSecrets sb p req ss = (None, ss1)" and "\<forall>(k, v)\<in>set (pq_secrets req). \<not> IsSystemKey k"
  shows "gm_get ss1 (PipelineScope (p_id p), ''driver'') = Some (pq_driver req)"
    and "pq_webhook_secret req = Some w \<Longrightarrow> gm_get ss1 (PipelineScope (p_id p), ''webhook_secret'') = (if w = [] then None else Some w)"
    and "scope \<noteq> PipelineScope (p_id p) \<Longrightarrow> gm_get ss1 (scope, k) = gm_get ss (scope, k)"
proof -
  let ?scope = "PipelineScope (p_id p)"
  obtain a b where a: "a = gm_set (?scope, ''driver'') (pq_driver req) ss"
    and b: "b = a \<or> b = gm_set (?scope, ''driver_config'') (pq_driver_config req) a"
    and w: "\<exists>c. store_webhook_secret sb ?scope (pq_webhook_secret req) b = (None, c) \<and>
      set_secrets sb ?scope (sort_key fst (pq_secrets req)) c = (None, ss1)"
    using assms(1) by (auto simp: persistSecrets_def set_secret_def Let_def split: prod.splits option.splits if_splits)
  from w obtain c where c: "store_webhook_secret sb ?scope (pq_webhook_secret req) b = (None, c)"
    and rest: "set_secrets sb ?scope (sort_key fst (pq_secrets req)) c = (None, ss1)" by blast
  have kept: "gm_get ss1 key = gm_get c key" if "\<And>k. \<not> IsSystemKey k \<Longrightarrow> key \<noteq> (?scope, k)" for key
    by (rule set_secrets_keeps [OF rest]) (use assms(2) that in auto)
  have c': "c = (case pq_webhook_secret req of None \<Rightarrow> b | Some s \<Rightarrow> if s = [] then gm_del (?scope, ''webhook_secret'') b
      else gm_set (?scope, ''webhook_secret'') s b)"
    using c by (auto simp: store_webhook_secret_def set_secret_def delete_secret_def split: option.splits if_splits)
  have sys: "IsSystemKey ''driver''" "IsSystemKey ''webhook_secret''" by (simp_all add: IsSystemKey_def)
  have "gm_get ss1 (?scope, ''driver'') = gm_get c (?scope, ''driver'')" by (rule kept) (use sys in auto)
  then show "gm_get ss1 (?scope, ''driver'') = Some (pq_driver req)"
    using a b c' by (auto split: option.splits if_splits)
  have "gm_get ss1 (?scope, ''webhook_secret'') = gm_get c (?scope, ''webhook_secret'')" by (rule kept) (use sys in auto)
  then show "gm_get ss1 (?scope, ''webhook_secret'') = (if w = [] then None else Some w)" if "pq_webhook_secret req = Some w"
    using that c' by auto
  show "gm_get ss1 (scope, k) = gm_get ss (scope, k)" if "scope \<noteq> ?scope"
    using kept [of "(scope, k)"] that a b c' by (auto split: option.splits if_splits)
qed

lemma SaveSchedule_pipelines: "SaveSchedule t s d = (e, d1) \<Longrightarrow> pipelines d1 = pipelines d"
  by (auto simp: SaveSchedule_def split: if_splits)

lemma save_schedules_pipelines: "save_schedules cron now ids pid ss d = (e, d1) \<Longrightarrow> pipelines d1 = pipelines d"
proof (induction ss arbitrary: ids d)
  case (Cons js rest)
  then show ?case by (auto split: sum.splits prod.splits option.splits dest!: SaveSchedule_pipelines)
qed simp

lemma syncSchedules_pipelines [simp]: "pipelines (snd (syncSchedules parse cron now ids p d)) = pipelines d"
  by (auto simp: syncSchedules_def PruneSchedulesByPipeline_def split: sum.split prod.split option.split dest: save_schedules_pipelines)

lemma upsertPostSave_status: "upsertPostSave ae cx p req d = (Some s, d1) \<Longrightarrow> s \<in> {400, 500}"
  by (auto simp: upsertPostSave_def upsert_rbac_def update_or_500_def split: if_splits prod.splits option.splits)

lemma validated_request:
  assumes "validateUpsertRequest ae name req0 st = Inr req"
  shows "req = (if pq_driver req0 = [] then req0\<lparr>pq_driver := sv_default_driver (ae_service ae)\<rparr> else req0)"
    and "\<forall>(k, v)\<in>set (pq_secrets req). \<not> IsSystemKey k"
proof -
  show req: "req = (if pq_driver req0 = [] then req0\<lparr>pq_driver := sv_default_driver (ae_service ae)\<rparr> else req0)"
    using assms by (auto simp: validateUpsertRequest_def Let_def split: if_splits option.splits)
  have "validateSecrets ae name req st = None"
    using assms by (auto simp: validateUpsertRequest_def Let_def split: if_splits option.splits)
  then have "find (\<lambda>(k, v). IsSystemKey k) (pq_secrets req) = None"
    by (auto simp: validateSecrets_def split: if_splits option.splits prod.splits)
  then show "\<forall>(k, v)\<in>set (pq_secrets req). \<not> IsSystemKey k"
    unfolding find_None_iff by auto
qed


section \<open>Gaps\<close>

text \<open>A request that is answered with 400 may have replaced the pipeline already: here basic authentication asks for an access expression,
  and the new pipeline is there, without it.\<close>

definition open_env :: "unit api_env" where
  "open_env = \<lparr>ae_service = sample_service, ae_features = AllFeatures, ae_drivers = [''*''],
     ae_secrets = Some \<lparr>sb_set_fails = (\<lambda>_ _. None), sb_delete_fails = (\<lambda>_ _. None), sb_list_fails = (\<lambda>_. None), sb_delete_scope_fails = (\<lambda>_. False)\<rparr>,
     ae_expr = (\<lambda>_. Inl ''no compiler'', \<lambda>_ _. Inr True), ae_template_error = (\<lambda>_. None), ae_cron = no_cron, ae_now = 5,
     ae_nanos = 5 * 10 ^ 9, ae_request_id = [], ae_pipeline_id = ''p9'', ae_schedule_ids = (\<lambda>_. ''s9'')\<rparr>"

definition plain_request :: pipeline_request where
  "plain_request = \<lparr>pq_content = ''doc'', pq_content_type = ''yaml'', pq_driver = [], pq_driver_config = [], pq_webhook_secret = Some ''w'',
     pq_secrets = [(''token'', ''t'')], pq_resume_enabled = None, pq_rbac_expression = None, pq_concurrency_mode = None, pq_group_template = None,
     pq_cancel_running = None\<rparr>"

definition basic_ctx :: request_ctx where
  "basic_ctx = \<lparr>cx_user = None, cx_actor = Some \<lparr>ra_provider = ''basic'', ra_user = ''admin''\<rparr>\<rparr>"

definition empty_api :: api_state where
  "empty_api = \<lparr>as_exec = service_state empty_db, as_secrets = []\<rparr>"

lemma plain_request_accepted: "fst (Upsert open_env basic_ctx ''ci'' (Some plain_request) empty_api) = 200"
  by code_simp

lemma rejected_request_saves_pipeline:
  "let (status, st) = Upsert open_env basic_ctx ''ci'' (Some (plain_request\<lparr>pq_rbac_expression := Some ''Email == x''\<rparr>)) empty_api
   in status = 400 \<and> map p_rbac_expression (pipelines (api_db st)) = [[]]"
  by code_simp


text \<open>Two runs, of an open pipeline and of one that admits nobody here.\<close>

definition guarded_api :: api_state where
  "guarded_api = \<lparr>as_exec = service_state (store_Set [] ''/pipeline/r2/jobs/b'' (JObj [(''status'', JStr ''success'')])
       (empty_db\<lparr>pipelines := [zero_pipeline ''p1'' ''open'' [] [] [] 0, (zero_pipeline ''p2'' ''guarded'' [] [] [] 0)\<lparr>p_rbac_expression := ''x''\<rparr>],
          runs := [sample_run ''r1'' ''p1'', sample_run ''r2'' ''p2'']\<rparr>)), as_secrets = []\<rparr>"


text \<open>The check that a task belongs to the run looks at the text of the path, and the store cleans the path afterwards: a user who may
  see one run reads the records of every other.\<close>

lemma task_lookup_escapes_run:
  "Tasks_by_path open_env basic_ctx ''r2'' ''jobs/b'' guarded_api = Inl 403"
  "Tasks_by_path open_env basic_ctx ''r1'' ''../r2/jobs/b'' guarded_api =
     Inr [(''/pipeline/r1/../r2/jobs/b'', JObj [(''status'', JStr ''success'')])]"
  by code_simp+

text \<open>The run that a seed creates is queued until its last write: a turn of the queue in between executes the
  pipeline.\<close>

definition seeding :: exec_state where
  "seeding = snd (seed_run open_env basic_ctx (mode_pipeline []) (service_state (empty_db\<lparr>pipelines := [mode_pipeline []]\<rparr>)))"

lemma seeded_run_is_dispatched:
  "map r_status (runs (ex_db seeding)) = [RunStatusQueued]"
  "map (\<lambda>x. r_trigger_type (go_run x)) (ex_live (processQueue_turn sample_service 6 seeding)) = [TriggerTypeSeed]"
  by code_simp+

end
