(* ===== verification/OAuth_Flow.thy ===== *)
theory OAuth_Flow
  imports Auth_Tokens
begin

text \<open>
  Logging in, \<open>server/auth/handlers.go\<close> and \<open>oauth_server.go\<close>: the callback of a login at a provider, the device flow of
  the command line, and the authorization server for MCP clients (authorization code with PKCE, dynamic registration of
  clients). The provider and its library, \<open>crypto/rand\<close>, SHA-256 with base64url and the JWT library are parameters. A
  session is the signed cookie that a request carries; reading or saving it may fail. Times are in seconds.
\<close>

section \<open>State\<close>

definition MCPScope :: string where
  "MCPScope = ''ci:read''"

definition generateRandomCode :: "string + string \<Rightarrow> go_error + string" where
  "generateRandomCode random =
     (case random of Inl m \<Rightarrow> Inl (Wrapped ''rand read'' (Plain m)) | Inr b \<Rightarrow> Inr (hex_encode b))"

record auth_code =
  cd_user_id :: string
  cd_user :: user
  cd_code_challenge :: string
  cd_redirect_uri :: string
  cd_scopes :: "string list"
  cd_expires_at :: int

record registered_client =
  rc_client_id :: string
  rc_client_name :: string
  rc_redirect_uris :: "string list"
  rc_grant_types :: "string list"
  rc_response_types :: "string list"
  rc_auth_method :: string
  rc_issued_at :: int

record oauth_server =
  os_codes :: "(string, auth_code) gomap"
  os_clients :: "(string, registered_client) gomap"

record cli_login_state =
  cl_user :: "user option"
  cl_expires_at :: int
  cl_approved :: bool

record auth_handler =
  ah_cli_codes :: "(string, cli_login_state) gomap"
  ah_oauth :: oauth_server

text \<open>The values of the session cookie.\<close>

record session =
  ss_user :: "user option"
  ss_redirect_uri :: "string option"
  ss_state :: "string option"
  ss_code_challenge :: "string option"
  ss_client_id :: "string option"

definition no_session :: session where
  "no_session = \<lparr>ss_user = None, ss_redirect_uri = None, ss_state = None, ss_code_challenge = None, ss_client_id = None\<rparr>"

text \<open>What a handler reads of a request: the method, the query and the form as \<open>Get\<close> and \<open>FormValue\<close> give them (the empty string
  for a missing value), and the session; \<open>None\<close> is a form or a cookie that cannot be read. \<open>wr_save_fails\<close> tells whether
  \<open>session.Save\<close> fails.\<close>

record web_request =
  wr_method :: string
  wr_query :: "string \<Rightarrow> string"
  wr_form :: "(string \<Rightarrow> string) option"
  wr_session :: "session option"
  wr_save_fails :: bool

datatype approve_page =
    Approved_page
  | Confirm_page string string
  | Login_page string "string list"

datatype web_answer =
    Error_json nat string string
  | Error_text nat string
  | Redirect string
  | Token_json string int string
  | Client_json registered_client
  | Login_json string string
  | Approve_page approve_page
  | Pending_json
  | Approved_json string

definition single_quoted :: "string \<Rightarrow> string" where
  "single_quoted t = CHR 0x27 # t @ [CHR 0x27]"

definition GetUserFromSession :: "web_request \<Rightarrow> user option" where
  "GetUserFromSession r = Option.bind (wr_session r) ss_user"

section \<open>The authorization server\<close>

definition hasRedirectURI :: "registered_client \<Rightarrow> string \<Rightarrow> bool" where
  "hasRedirectURI c uri \<longleftrightarrow> uri \<in> set (rc_redirect_uris c)"

definition issueCodeAndRedirect ::
  "string + string \<Rightarrow> int \<Rightarrow> user \<Rightarrow> string \<Rightarrow> string \<Rightarrow> string \<Rightarrow> oauth_server \<Rightarrow> web_answer \<times> oauth_server" where
  "issueCodeAndRedirect random now u redirectURI state codeChallenge s =
     (case generateRandomCode random of
        Inl _ \<Rightarrow> (Error_json 500 ''server_error'' ''could not generate code'', s)
      | Inr code \<Rightarrow>
          (Redirect (redirectURI @ ''?code='' @ code @ (if state \<noteq> [] then ''&state='' @ state else [])),
           s\<lparr>os_codes := gm_set code \<lparr>cd_user_id = u_user_id u, cd_user = u, cd_code_challenge = codeChallenge,
                cd_redirect_uri = redirectURI, cd_scopes = [MCPScope], cd_expires_at = now + 600\<rparr> (os_codes s)\<rparr>))"

text \<open>The answer, the cookie that is set, and the server.\<close>

definition HandleAuthorize ::
  "string + string \<Rightarrow> int \<Rightarrow> web_request \<Rightarrow> oauth_server \<Rightarrow> web_answer \<times> session option \<times> oauth_server" where
  "HandleAuthorize random now r s =
     (let q = wr_query r; refuse = (\<lambda>status e d. (Error_json status e d, None, s)) in
      if wr_method r \<noteq> ''GET'' then (Error_text 405 ''method not allowed'', None, s)
      else if q ''response_type'' \<noteq> ''code'' then refuse 400 ''unsupported_response_type'' (''response_type must be '' @ single_quoted ''code'')
      else if q ''client_id'' = [] then refuse 400 ''invalid_request'' ''client_id is required''
      else if q ''redirect_uri'' = [] then refuse 400 ''invalid_request'' ''redirect_uri is required''
      else
        (case gm_get (os_clients s) (q ''client_id'') of
           None \<Rightarrow> refuse 401 ''invalid_client'' ''client_id is not registered''
         | Some client \<Rightarrow>
             if \<not> hasRedirectURI client (q ''redirect_uri'')
             then refuse 400 ''invalid_request'' ''redirect_uri is not registered for this client''
             else if q ''code_challenge'' = [] \<or> q ''code_challenge_method'' \<noteq> ''S256''
             then refuse 400 ''invalid_request'' ''code_challenge with method S256 is required''
             else
               (case GetUserFromSession r of
                  Some u \<Rightarrow>
                    (case issueCodeAndRedirect random now u (q ''redirect_uri'') (q ''state'') (q ''code_challenge'') s of
                       (answer, s') \<Rightarrow> (answer, None, s'))
                | None \<Rightarrow>
                    (case wr_session r of
                       None \<Rightarrow> refuse 500 ''server_error'' ''session error''
                     | Some sess \<Rightarrow>
                         if wr_save_fails r then refuse 500 ''server_error'' ''session error''
                         else (Redirect ''/auth/login?oauth=1'',
                               Some (sess\<lparr>ss_redirect_uri := Some (q ''redirect_uri''), ss_state := Some (q ''state''),
                                 ss_code_challenge := Some (q ''code_challenge''), ss_client_id := Some (q ''client_id'')\<rparr>), s)))))"

definition clear_pending :: "session \<Rightarrow> session" where
  "clear_pending sess = sess\<lparr>ss_redirect_uri := None, ss_state := None, ss_code_challenge := None, ss_client_id := None\<rparr>"

definition text_of :: "string option \<Rightarrow> string" where
  "text_of v = (case v of None \<Rightarrow> [] | Some t \<Rightarrow> t)"

text \<open>The answer is \<open>None\<close> if there was no pending flow; an error of the second save is ignored.\<close>

definition CompleteAuthorize ::
  "string + string \<Rightarrow> int \<Rightarrow> session option \<Rightarrow> bool \<Rightarrow> user \<Rightarrow> oauth_server \<Rightarrow> web_answer option \<times> session option \<times> oauth_server" where
  "CompleteAuthorize random now sess_opt save_fails u s =
     (case sess_opt of
        None \<Rightarrow> (None, None, s)
      | Some sess \<Rightarrow>
          if text_of (ss_redirect_uri sess) = [] then (None, None, s)
          else
            (let cookie = (if save_fails then None else Some (clear_pending sess)) in
             if text_of (ss_code_challenge sess) = [] then (None, cookie, s)
             else
               (case issueCodeAndRedirect random now u (text_of (ss_redirect_uri sess)) (text_of (ss_state sess))
                       (text_of (ss_code_challenge sess)) s of
                  (answer, s') \<Rightarrow> (Some answer, cookie, s'))))"

text \<open>\<open>pkce\<close> is the base64url text of the SHA-256 hash.\<close>

definition HandleToken ::
  "jwt_lib \<Rightarrow> (string \<Rightarrow> string) \<Rightarrow> string \<Rightarrow> int \<Rightarrow> web_request \<Rightarrow> oauth_server \<Rightarrow> web_answer \<times> oauth_server" where
  "HandleToken jl pkce secret now r s =
     (if wr_method r \<noteq> ''POST'' then (Error_text 405 ''method not allowed'', s)
      else
        (case wr_form r of
           None \<Rightarrow> (Error_json 400 ''invalid_request'' ''could not parse form'', s)
         | Some form \<Rightarrow>
             if form ''grant_type'' \<noteq> ''authorization_code''
             then (Error_json 400 ''unsupported_grant_type'' (''grant_type must be '' @ single_quoted ''authorization_code''), s)
             else if form ''code'' = [] \<or> form ''code_verifier'' = []
             then (Error_json 400 ''invalid_request'' ''code and code_verifier are required'', s)
             else
               (case gm_get (os_codes s) (form ''code'') of
                  None \<Rightarrow> (Error_json 400 ''invalid_grant'' ''unknown or already consumed authorization code'', s)
                | Some ac \<Rightarrow>
                    (let s' = s\<lparr>os_codes := gm_del (form ''code'') (os_codes s)\<rparr> in
                     if now > cd_expires_at ac then (Error_json 400 ''invalid_grant'' ''authorization code expired'', s')
                     else if form ''redirect_uri'' \<noteq> cd_redirect_uri ac
                     then (Error_json 400 ''invalid_grant'' ''redirect_uri mismatch'', s')
                     else if pkce (form ''code_verifier'') \<noteq> cd_code_challenge ac
                     then (Error_json 400 ''invalid_grant'' ''code_verifier does not match code_challenge'', s')
                     else
                       (case GenerateToken jl now (cd_user ac) secret (30 * 24 * 3600) [MCPScope] AudienceMCP of
                          Inl _ \<Rightarrow> (Error_json 500 ''server_error'' ''could not generate token'', s')
                        | Inr tok \<Rightarrow> (Token_json tok (30 * 24 * 3600) MCPScope, s'))))))"

definition OAuth_cleanupExpiredCodes :: "int \<Rightarrow> oauth_server \<Rightarrow> oauth_server" where
  "OAuth_cleanupExpiredCodes now s = s\<lparr>os_codes := filter (\<lambda>(c, ac). \<not> now > cd_expires_at ac) (os_codes s)\<rparr>"

record client_request =
  cq_redirect_uris :: "string list"
  cq_client_name :: string
  cq_grant_types :: "string list"
  cq_response_types :: "string list"
  cq_auth_method :: string

definition HandleRegister ::
  "string + string \<Rightarrow> int \<Rightarrow> string \<Rightarrow> client_request option \<Rightarrow> oauth_server \<Rightarrow> web_answer \<times> oauth_server" where
  "HandleRegister random now meth body s =
     (if meth \<noteq> ''POST'' then (Error_text 405 ''method not allowed'', s)
      else
        (case body of
           None \<Rightarrow> (Error_json 400 ''invalid_request'' ''could not parse request body'', s)
         | Some req \<Rightarrow>
             if cq_redirect_uris req = [] then (Error_json 400 ''invalid_client_metadata'' ''redirect_uris is required'', s)
             else
               (case generateRandomCode random of
                  Inl _ \<Rightarrow> (Error_json 500 ''server_error'' ''could not generate client_id'', s)
                | Inr clientID \<Rightarrow>
                    (let client = \<lparr>rc_client_id = clientID, rc_client_name = cq_client_name req,
                         rc_redirect_uris = cq_redirect_uris req,
                         rc_grant_types = (if cq_grant_types req = [] then [''authorization_code''] else cq_grant_types req),
                         rc_response_types = (if cq_response_types req = [] then [''code''] else cq_response_types req),
                         rc_auth_method = (if cq_auth_method req = [] then ''none'' else cq_auth_method req), rc_issued_at = now\<rparr>
                     in (Client_json client, s\<lparr>os_clients := gm_set clientID client (os_clients s)\<rparr>)))))"

section \<open>Logging in at a provider\<close>

record goth_user =
  gu_email :: string
  gu_name :: string
  gu_nick_name :: string
  gu_avatar_url :: string
  gu_provider :: string
  gu_user_id :: string
  gu_raw_data :: "(string, json) gomap"
  gu_access_token :: string

text \<open>The provider: \<open>CompleteUserAuth\<close>, the answer of GitHub's list of organizations (status and body), and its decoder.\<close>

record login_env =
  le_complete :: "string \<Rightarrow> string + goth_user"
  le_orgs_http :: "string \<Rightarrow> string + nat \<times> string"
  le_orgs_decode :: "string \<Rightarrow> string + string list"

definition fromGothUser :: "goth_user \<Rightarrow> user" where
  "fromGothUser gu =
     \<lparr>u_email = gu_email gu, u_name = gu_name gu, u_nick_name = gu_nick_name gu, u_avatar_url = gu_avatar_url gu,
      u_provider = gu_provider gu, u_user_id = gu_user_id gu, u_organizations = [], u_groups = [], u_raw_data = gu_raw_data gu,
      u_scopes = []\<rparr>"

definition fetchGitHubOrgs :: "login_env \<Rightarrow> string \<Rightarrow> go_error + string list" where
  "fetchGitHubOrgs le accessToken =
     (case le_orgs_http le accessToken of
        Inl m \<Rightarrow> Inl (Wrapped ''could not fetch orgs'' (Plain m))
      | Inr (status, body) \<Rightarrow>
          if status \<noteq> 200 then Inl (Plain (''github orgs API returned status '' @ itoa (int status)))
          else (case le_orgs_decode le body of
                  Inl m \<Rightarrow> Inl (Wrapped ''could not decode orgs'' (Plain m))
                | Inr orgs \<Rightarrow> Inr orgs))"

text \<open>The user that is logged in.\<close>

definition login_user :: "login_env \<Rightarrow> string \<Rightarrow> goth_user \<Rightarrow> user" where
  "login_user le provider gu =
     (if provider = ''github'' \<and> gu_access_token gu \<noteq> []
      then (case fetchGitHubOrgs le (gu_access_token gu) of
              Inl _ \<Rightarrow> fromGothUser gu
            | Inr orgs \<Rightarrow> (fromGothUser gu)\<lparr>u_organizations := orgs\<rparr>)
      else fromGothUser gu)"

definition SaveUserToSession :: "web_request \<Rightarrow> user \<Rightarrow> session option" where
  "SaveUserToSession r u =
     (case wr_session r of
        None \<Rightarrow> None
      | Some sess \<Rightarrow> if wr_save_fails r then None else Some (sess\<lparr>ss_user := Some u\<rparr>))"

definition approve_code :: "string \<Rightarrow> user \<Rightarrow> cli_login_state \<Rightarrow> auth_handler \<Rightarrow> auth_handler" where
  "approve_code code u state h =
     h\<lparr>ah_cli_codes := gm_set code (state\<lparr>cl_user := Some u, cl_approved := True\<rparr>) (ah_cli_codes h)\<rparr>"

text \<open>\<open>None\<close> is a code that is not known.\<close>

definition handleCLICallback :: "int \<Rightarrow> string \<Rightarrow> user \<Rightarrow> auth_handler \<Rightarrow> (web_answer \<times> auth_handler) option" where
  "handleCLICallback now cliCode u h =
     (case gm_get (ah_cli_codes h) cliCode of
        None \<Rightarrow> None
      | Some state \<Rightarrow>
          Some (Approve_page Approved_page, if now < cl_expires_at state then approve_code cliCode u state h else h))"

definition Callback ::
  "login_env \<Rightarrow> string + string \<Rightarrow> int \<Rightarrow> string \<Rightarrow> web_request \<Rightarrow> auth_handler \<Rightarrow> web_answer \<times> session option \<times> auth_handler" where
  "Callback le random now provider r h =
     (case le_complete le provider of
        Inl _ \<Rightarrow> (Redirect ''/auth/login?error=auth_failed'', None, h)
      | Inr gu \<Rightarrow>
          (let u = login_user le provider gu in
           case SaveUserToSession r u of
             None \<Rightarrow> (Redirect ''/auth/login?error=session_failed'', None, h)
           | Some sess \<Rightarrow>
               (case (if wr_query r ''cli_code'' = [] then None else handleCLICallback now (wr_query r ''cli_code'') u h) of
                  Some (answer, h') \<Rightarrow> (answer, Some sess, h')
                | None \<Rightarrow>
                    (case CompleteAuthorize random now (Some sess) (wr_save_fails r) u (ah_oauth h) of
                       (answer, cookie, s) \<Rightarrow>
                         (case answer of None \<Rightarrow> Redirect ''/'' | Some a \<Rightarrow> a,
                          case cookie of None \<Rightarrow> Some sess | Some c \<Rightarrow> Some c, h\<lparr>ah_oauth := s\<rparr>)))))"

section \<open>The device flow of the command line\<close>

definition CLIBegin :: "string \<Rightarrow> string + string \<Rightarrow> int \<Rightarrow> auth_handler \<Rightarrow> web_answer \<times> auth_handler" where
  "CLIBegin callbackURL random now h =
     (case generateRandomCode random of
        Inl _ \<Rightarrow> (Error_json 500 ''could not generate login code'' [], h)
      | Inr code \<Rightarrow>
          (Login_json code (callbackURL @ ''/auth/cli/approve?code='' @ code),
           h\<lparr>ah_cli_codes := gm_set code \<lparr>cl_user = None, cl_expires_at = now + 600, cl_approved = False\<rparr> (ah_cli_codes h)\<rparr>))"

definition CLIApprove :: "auth_config \<Rightarrow> int \<Rightarrow> web_request \<Rightarrow> auth_handler \<Rightarrow> web_answer" where
  "CLIApprove cfg now r h =
     (let code = wr_query r ''code'' in
      case gm_get (ah_cli_codes h) code of
        None \<Rightarrow> Error_text 400 ''Invalid or expired login code''
      | Some state \<Rightarrow>
          if now > cl_expires_at state then Error_text 400 ''Invalid or expired login code''
          else (case GetUserFromSession r of
                  Some u \<Rightarrow> Approve_page (Confirm_page code (u_email u))
                | None \<Rightarrow> Approve_page (Login_page code (EnabledProviders cfg))))"

definition CLIApproveConfirm :: "int \<Rightarrow> string \<Rightarrow> web_request \<Rightarrow> auth_handler \<Rightarrow> web_answer \<times> auth_handler" where
  "CLIApproveConfirm now code r h =
     (case GetUserFromSession r of
        None \<Rightarrow> (Error_text 401 ''Authentication required'', h)
      | Some u \<Rightarrow>
          (case gm_get (ah_cli_codes h) code of
             None \<Rightarrow> (Error_text 400 ''Invalid or expired login code'', h)
           | Some state \<Rightarrow>
               if now > cl_expires_at state then (Error_text 400 ''Invalid or expired login code'', h)
               else (Approve_page Approved_page, approve_code code u state h)))"

definition CLIPoll :: "jwt_lib \<Rightarrow> string \<Rightarrow> int \<Rightarrow> string \<Rightarrow> auth_handler \<Rightarrow> web_answer \<times> auth_handler" where
  "CLIPoll jl secret now code h =
     (let without = h\<lparr>ah_cli_codes := gm_del code (ah_cli_codes h)\<rparr> in
      case gm_get (ah_cli_codes h) code of
        None \<Rightarrow> (Error_json 404 ''unknown code'' [], h)
      | Some state \<Rightarrow>
          if now > cl_expires_at state then (Error_json 410 ''code expired'' [], without)
          else if \<not> cl_approved state then (Pending_json, h)
          else
            (case cl_user state of
               None \<Rightarrow> (Pending_json, h)
             | Some u \<Rightarrow>
                 (case GenerateToken jl now u secret (30 * 24 * 3600) [] AudienceAPI of
                    Inl _ \<Rightarrow> (Error_json 500 ''could not generate token'' [], h)
                  | Inr tok \<Rightarrow> (Approved_json tok, without))))"

definition cli_cleanupExpiredCodes :: "int \<Rightarrow> auth_handler \<Rightarrow> auth_handler" where
  "cli_cleanupExpiredCodes now h = h\<lparr>ah_cli_codes := filter (\<lambda>(c, state). \<not> now > cl_expires_at state) (ah_cli_codes h)\<rparr>"

definition CurrentUser :: "web_request \<Rightarrow> nat + user" where
  "CurrentUser r = (case GetUserFromSession r of None \<Rightarrow> Inl 401 | Some u \<Rightarrow> Inr u)"

section \<open>Runs of the protocol\<close>

text \<open>A run of the server with its log, the newest event first. A request carries no cookie, an unreadable one, or any cookie the server has
  ever signed: cookies cannot be forged, but they may be stolen and replayed. A random code is one that has not been drawn
  before.\<close>

datatype flow_event =
    Ev_login user
  | Ev_issued string user string string int
  | Ev_token string user string string int
  | Ev_cli_begun string int
  | Ev_cli_approved string user int
  | Ev_cli_token string user string int

record flow_env =
  fe_jwt :: jwt_lib
  fe_pkce :: "string \<Rightarrow> string"
  fe_secret :: string
  fe_login :: login_env
  fe_callback_url :: string

record flow =
  fl_handler :: auth_handler
  fl_cookies :: "session list"
  fl_used :: "string list"
  fl_log :: "flow_event list"

definition option_list :: "'a option \<Rightarrow> 'a list" where
  "option_list v = (case v of None \<Rightarrow> [] | Some x \<Rightarrow> [x])"

definition fresh_random :: "string + string \<Rightarrow> flow \<Rightarrow> bool" where
  "fresh_random random w \<longleftrightarrow> (case random of Inl _ \<Rightarrow> True | Inr b \<Rightarrow> hex_encode b \<notin> set (fl_used w))"

definition drawn :: "string + string \<Rightarrow> string list" where
  "drawn random = (case random of Inl _ \<Rightarrow> [] | Inr b \<Rightarrow> [hex_encode b])"

definition presents :: "flow \<Rightarrow> web_request \<Rightarrow> bool" where
  "presents w r \<longleftrightarrow> wr_session r \<in> insert None (insert (Some no_session) (Some ` set (fl_cookies w)))"

definition set_server :: "oauth_server \<Rightarrow> flow \<Rightarrow> flow" where
  "set_server s w = w\<lparr>fl_handler := (fl_handler w)\<lparr>ah_oauth := s\<rparr>\<rparr>"

text \<open>What a step adds to the log: the code that was drawn, if the server now has it; the token for a code; the approval of a code.\<close>

definition issued_event :: "string + string \<Rightarrow> int \<Rightarrow> oauth_server \<Rightarrow> flow_event list" where
  "issued_event random now s =
     (case drawn random of
        c # _ \<Rightarrow> (case gm_get (os_codes s) c of
                    Some ac \<Rightarrow> [Ev_issued c (cd_user ac) (cd_redirect_uri ac) (cd_code_challenge ac) now]
                  | None \<Rightarrow> [])
      | [] \<Rightarrow> [])"

definition token_event :: "(string \<Rightarrow> string) option \<Rightarrow> int \<Rightarrow> web_answer \<Rightarrow> oauth_server \<Rightarrow> flow_event list" where
  "token_event form now answer s =
     (case (form, answer) of
        (Some f, Token_json tok _ _) \<Rightarrow>
          (case gm_get (os_codes s) (f ''code'') of
             Some ac \<Rightarrow> [Ev_token (f ''code'') (cd_user ac) (f ''code_verifier'') tok now]
           | None \<Rightarrow> [])
      | _ \<Rightarrow> [])"

definition login_event :: "session option \<Rightarrow> flow_event list" where
  "login_event cookie = (case Option.bind cookie ss_user of None \<Rightarrow> [] | Some u \<Rightarrow> [Ev_login u])"

definition approved_event :: "int \<Rightarrow> string \<Rightarrow> auth_handler \<Rightarrow> auth_handler \<Rightarrow> flow_event list" where
  "approved_event now code h h' =
     (if h' = h then []
      else (case Option.bind (gm_get (ah_cli_codes h') code) cl_user of Some u \<Rightarrow> [Ev_cli_approved code u now] | None \<Rightarrow> []))"

definition poll_event :: "int \<Rightarrow> string \<Rightarrow> web_answer \<Rightarrow> auth_handler \<Rightarrow> flow_event list" where
  "poll_event now code answer h =
     (case (answer, Option.bind (gm_get (ah_cli_codes h) code) cl_user) of
        (Approved_json tok, Some u) \<Rightarrow> [Ev_cli_token code u tok now]
      | _ \<Rightarrow> [])"

inductive flow_step :: "flow_env \<Rightarrow> flow \<Rightarrow> flow \<Rightarrow> bool" for fe :: flow_env where
  flow_register: "fresh_random random w \<Longrightarrow> HandleRegister random now m body (ah_oauth (fl_handler w)) = (a, s) \<Longrightarrow>
     flow_step fe w ((set_server s w)\<lparr>fl_used := drawn random @ fl_used w\<rparr>)"
| flow_authorize: "fresh_random random w \<Longrightarrow> presents w r \<Longrightarrow> HandleAuthorize random now r (ah_oauth (fl_handler w)) = (a, cookie, s) \<Longrightarrow>
     flow_step fe w ((set_server s w)\<lparr>fl_used := drawn random @ fl_used w, fl_cookies := option_list cookie @ fl_cookies w,
        fl_log := issued_event random now s @ fl_log w\<rparr>)"
| flow_token: "HandleToken (fe_jwt fe) (fe_pkce fe) (fe_secret fe) now r (ah_oauth (fl_handler w)) = (a, s) \<Longrightarrow>
     flow_step fe w ((set_server s w)\<lparr>fl_log := token_event (wr_form r) now a (ah_oauth (fl_handler w)) @ fl_log w\<rparr>)"
| flow_cleanup: "flow_step fe w (set_server (OAuth_cleanupExpiredCodes now (ah_oauth (fl_handler w))) w)"
| flow_callback: "fresh_random random w \<Longrightarrow> presents w r \<Longrightarrow> Callback (fe_login fe) random now provider r (fl_handler w) = (a, cookie, h) \<Longrightarrow>
     flow_step fe w (w\<lparr>fl_handler := h, fl_used := drawn random @ fl_used w, fl_cookies := option_list cookie @ fl_cookies w,
        fl_log := approved_event now (wr_query r ''cli_code'') (fl_handler w) (h\<lparr>ah_oauth := ah_oauth (fl_handler w)\<rparr>)
          @ issued_event random now (ah_oauth h) @ login_event cookie @ fl_log w\<rparr>)"
| flow_cli_begin: "fresh_random random w \<Longrightarrow> CLIBegin (fe_callback_url fe) random now (fl_handler w) = (a, h) \<Longrightarrow>
     flow_step fe w (w\<lparr>fl_handler := h, fl_used := drawn random @ fl_used w,
        fl_log := map (\<lambda>c. Ev_cli_begun c now) (drawn random) @ fl_log w\<rparr>)"
| flow_cli_confirm: "presents w r \<Longrightarrow> CLIApproveConfirm now code r (fl_handler w) = (a, h) \<Longrightarrow>
     flow_step fe w (w\<lparr>fl_handler := h, fl_log := approved_event now code (fl_handler w) h @ fl_log w\<rparr>)"
| flow_cli_poll: "CLIPoll (fe_jwt fe) (fe_secret fe) now code (fl_handler w) = (a, h) \<Longrightarrow>
     flow_step fe w (w\<lparr>fl_handler := h, fl_log := poll_event now code a (fl_handler w) @ fl_log w\<rparr>)"
| flow_cli_cleanup: "flow_step fe w (w\<lparr>fl_handler := cli_cleanupExpiredCodes now (fl_handler w)\<rparr>)"

definition no_flow :: flow where
  "no_flow = \<lparr>fl_handler = \<lparr>ah_cli_codes = [], ah_oauth = \<lparr>os_codes = [], os_clients = []\<rparr>\<rparr>, fl_cookies = [], fl_used = [], fl_log = []\<rparr>"

definition flow_reachable :: "flow_env \<Rightarrow> flow \<Rightarrow> bool" where
  "flow_reachable fe w \<longleftrightarrow> (flow_step fe)\<^sup>*\<^sup>* no_flow w"

section \<open>What the log justifies\<close>

definition registered :: "string \<Rightarrow> flow \<Rightarrow> bool" where
  "registered uri w \<longleftrightarrow> (\<exists>i c. gm_get (os_clients (ah_oauth (fl_handler w))) i = Some c \<and> hasRedirectURI c uri)"

text \<open>Why an event may follow a log.\<close>

fun justified_event :: "flow_env \<Rightarrow> flow_event \<Rightarrow> flow_event list \<Rightarrow> bool" where
  "justified_event fe (Ev_login u) pre \<longleftrightarrow> True"
| "justified_event fe (Ev_issued c u r ch t) pre \<longleftrightarrow> Ev_login u \<in> set pre \<and> (\<forall>u' r' ch' t'. Ev_issued c u' r' ch' t' \<notin> set pre)"
| "justified_event fe (Ev_token c u v tok t) pre \<longleftrightarrow>
     (\<exists>r t0. Ev_issued c u r (fe_pkce fe v) t0 \<in> set pre \<and> t \<le> t0 + 600) \<and> (\<forall>u' v' tok' t'. Ev_token c u' v' tok' t' \<notin> set pre) \<and>
     GenerateToken (fe_jwt fe) t u (fe_secret fe) (30 * 24 * 3600) [MCPScope] AudienceMCP = Inr tok"
| "justified_event fe (Ev_cli_begun c t) pre \<longleftrightarrow> True"
| "justified_event fe (Ev_cli_approved c u t) pre \<longleftrightarrow> Ev_login u \<in> set pre \<and> (\<exists>t0. Ev_cli_begun c t0 \<in> set pre \<and> t \<le> t0 + 600)"
| "justified_event fe (Ev_cli_token c u tok t) pre \<longleftrightarrow>
     (\<exists>t1. Ev_cli_approved c u t1 \<in> set pre) \<and> (\<exists>t0. Ev_cli_begun c t0 \<in> set pre \<and> t \<le> t0 + 600) \<and>
     (\<forall>u' tok' t'. Ev_cli_token c u' tok' t' \<notin> set pre) \<and>
     GenerateToken (fe_jwt fe) t u (fe_secret fe) (30 * 24 * 3600) [] AudienceAPI = Inr tok"

fun justified :: "flow_env \<Rightarrow> flow_event list \<Rightarrow> bool" where
  "justified fe [] \<longleftrightarrow> True"
| "justified fe (e # pre) \<longleftrightarrow> justified_event fe e pre \<and> justified fe pre"

lemma justified_append: "justified fe (post @ pre) \<Longrightarrow> justified fe pre"
  by (induction post) auto

text \<open>The invariant: the log is justified, and every code, cookie and pending flow that the server or a browser holds comes from it.\<close>

definition codes_logged :: "flow \<Rightarrow> bool" where
  "codes_logged w \<longleftrightarrow> (\<forall>c ac. gm_get (os_codes (ah_oauth (fl_handler w))) c = Some ac \<longrightarrow>
     Ev_issued c (cd_user ac) (cd_redirect_uri ac) (cd_code_challenge ac) (cd_expires_at ac - 600) \<in> set (fl_log w) \<and>
     (\<forall>u v tok t. Ev_token c u v tok t \<notin> set (fl_log w)))"

definition cli_logged :: "flow \<Rightarrow> bool" where
  "cli_logged w \<longleftrightarrow> (\<forall>c s. gm_get (ah_cli_codes (fl_handler w)) c = Some s \<longrightarrow>
     Ev_cli_begun c (cl_expires_at s - 600) \<in> set (fl_log w) \<and> (\<forall>u tok t. Ev_cli_token c u tok t \<notin> set (fl_log w)) \<and>
     (\<forall>u. cl_user s = Some u \<longrightarrow> (\<exists>t. Ev_cli_approved c u t \<in> set (fl_log w))))"

definition cookies_logged :: "flow \<Rightarrow> bool" where
  "cookies_logged w \<longleftrightarrow> (\<forall>k\<in>set (fl_cookies w). (\<forall>u. ss_user k = Some u \<longrightarrow> Ev_login u \<in> set (fl_log w)) \<and>
     (\<forall>uri. ss_redirect_uri k = Some uri \<longrightarrow> registered uri w))"

definition issued_registered :: "flow \<Rightarrow> bool" where
  "issued_registered w \<longleftrightarrow> (\<forall>c u r ch t. Ev_issued c u r ch t \<in> set (fl_log w) \<longrightarrow> registered r w)"

definition codes_of :: "flow_event \<Rightarrow> string set" where
  "codes_of e = (case e of Ev_login _ \<Rightarrow> {} | Ev_issued c _ _ _ _ \<Rightarrow> {c} | Ev_token c _ _ _ _ \<Rightarrow> {c} | Ev_cli_begun c _ \<Rightarrow> {c}
     | Ev_cli_approved c _ _ \<Rightarrow> {c} | Ev_cli_token c _ _ _ \<Rightarrow> {c})"

definition used_logged :: "flow \<Rightarrow> bool" where
  "used_logged w \<longleftrightarrow> (\<forall>e\<in>set (fl_log w). codes_of e \<subseteq> set (fl_used w)) \<and>
     (\<forall>i. gm_get (os_clients (ah_oauth (fl_handler w))) i \<noteq> None \<longrightarrow> i \<in> set (fl_used w))"

definition flow_inv :: "flow_env \<Rightarrow> flow \<Rightarrow> bool" where
  "flow_inv fe w \<longleftrightarrow> justified fe (fl_log w) \<and> codes_logged w \<and> cli_logged w \<and> cookies_logged w \<and> issued_registered w \<and> used_logged w"

named_theorems flow_defs \<open>the parts of the invariant\<close>

lemmas [flow_defs] = flow_inv_def codes_logged_def cli_logged_def cookies_logged_def issued_registered_def used_logged_def registered_def

lemma inv_used: "flow_inv fe w \<Longrightarrow> flow_inv fe (w\<lparr>fl_used := ds @ fl_used w\<rparr>)"
  by (auto simp: flow_defs)

lemma inv_cookies:
  "flow_inv fe w \<Longrightarrow> \<forall>k\<in>set ks. (\<forall>u. ss_user k = Some u \<longrightarrow> Ev_login u \<in> set (fl_log w)) \<and>
     (\<forall>uri. ss_redirect_uri k = Some uri \<longrightarrow> registered uri w) \<Longrightarrow> flow_inv fe (w\<lparr>fl_cookies := ks @ fl_cookies w\<rparr>)"
  unfolding flow_inv_def codes_logged_def cli_logged_def cookies_logged_def issued_registered_def used_logged_def registered_def
  by (simp add: ball_Un)

lemma inv_login: "flow_inv fe w \<Longrightarrow> flow_inv fe (w\<lparr>fl_log := Ev_login u # fl_log w\<rparr>)"
  unfolding flow_inv_def codes_logged_def cli_logged_def cookies_logged_def issued_registered_def used_logged_def registered_def
  by (auto simp: codes_of_def)

lemma fresh_unlogged:
  assumes "flow_inv fe w" and "c \<notin> set (fl_used w)" and "e \<in> set (fl_log w)"
  shows "c \<notin> codes_of e"
  using assms by (auto simp: flow_inv_def used_logged_def)

lemma fresh_not_held:
  assumes "flow_inv fe w" and "c \<notin> set (fl_used w)"
  shows "gm_get (os_codes (ah_oauth (fl_handler w))) c = None" "gm_get (os_clients (ah_oauth (fl_handler w))) c = None"
    "gm_get (ah_cli_codes (fl_handler w)) c = None"
proof -
  have "gm_get (os_codes (ah_oauth (fl_handler w))) c \<noteq> Some ac" for ac
    using assms fresh_unlogged [OF assms] by (fastforce simp: flow_inv_def codes_logged_def codes_of_def)
  then show "gm_get (os_codes (ah_oauth (fl_handler w))) c = None" by auto
  have "gm_get (ah_cli_codes (fl_handler w)) c \<noteq> Some st" for st
    using assms fresh_unlogged [OF assms] by (fastforce simp: flow_inv_def cli_logged_def codes_of_def)
  then show "gm_get (ah_cli_codes (fl_handler w)) c = None" by auto
  show "gm_get (os_clients (ah_oauth (fl_handler w))) c = None" using assms by (auto simp: flow_inv_def used_logged_def)
qed

definition new_code :: "user \<Rightarrow> string \<Rightarrow> string \<Rightarrow> int \<Rightarrow> auth_code" where
  "new_code u uri ch now =
     \<lparr>cd_user_id = u_user_id u, cd_user = u, cd_code_challenge = ch, cd_redirect_uri = uri, cd_scopes = [MCPScope], cd_expires_at = now + 600\<rparr>"

text \<open>What drawing and issuing a code does to the server.\<close>

definition issues :: "string + string \<Rightarrow> int \<Rightarrow> flow \<Rightarrow> oauth_server \<Rightarrow> bool" where
  "issues random now w s \<longleftrightarrow> s = ah_oauth (fl_handler w) \<or>
     (\<exists>c u uri ch. drawn random = [c] \<and> Ev_login u \<in> set (fl_log w) \<and> registered uri w \<and>
        s = (ah_oauth (fl_handler w))\<lparr>os_codes := gm_set c (new_code u uri ch now) (os_codes (ah_oauth (fl_handler w)))\<rparr>)"

lemma inv_issues:
  assumes "flow_inv fe w" and "fresh_random random w" and "issues random now w s"
  shows "flow_inv fe ((set_server s w)\<lparr>fl_used := drawn random @ fl_used w, fl_log := issued_event random now s @ fl_log w\<rparr>)"
proof -
  have fresh: "c \<notin> set (fl_used w)" if "drawn random = [c]" for c
    using assms(2) that by (auto simp: fresh_random_def drawn_def split: sum.splits)
  have one: "drawn random = [] \<or> (\<exists>c. drawn random = [c])" by (auto simp: drawn_def split: sum.split)
  show ?thesis
  proof (cases "s = ah_oauth (fl_handler w)")
    case True
    then have "issued_event random now s = []"
      using one fresh fresh_not_held [OF assms(1)] by (auto simp: issued_event_def)
    with inv_used [OF assms(1), of "drawn random"] True show ?thesis by (simp add: set_server_def)
  next
    case False
    then obtain c u uri ch where d: "drawn random = [c]" and login: "Ev_login u \<in> set (fl_log w)" and reg: "registered uri w"
      and s: "s = (ah_oauth (fl_handler w))\<lparr>os_codes := gm_set c (new_code u uri ch now) (os_codes (ah_oauth (fl_handler w)))\<rparr>"
      using assms(3) by (auto simp: issues_def)
    have ev: "issued_event random now s = [Ev_issued c u uri ch now]"
      by (simp add: issued_event_def d s new_code_def)
    have new: "c \<notin> codes_of e" if "e \<in> set (fl_log w)" for e using fresh_unlogged [OF assms(1) fresh [OF d] that] .
    have old: "Ev_issued c u' r' ch' t' \<notin> set (fl_log w)" "Ev_token c u' r' ch' t' \<notin> set (fl_log w)" for u' r' ch' t'
      using new by (fastforce simp: codes_of_def)+
    have parts: "os_clients s = os_clients (ah_oauth (fl_handler w))"
      "\<And>k. gm_get (os_codes s) k = (if k = c then Some (new_code u uri ch now) else gm_get (os_codes (ah_oauth (fl_handler w))) k)"
      by (simp_all add: s)
    let ?w = "(set_server s w)\<lparr>fl_used := c # fl_used w, fl_log := Ev_issued c u uri ch now # fl_log w\<rparr>"
    note inv = assms(1) [unfolded flow_inv_def]
    have reg': "registered r ?w = registered r w" for r by (simp add: registered_def set_server_def parts(1))
    have "justified fe (fl_log ?w)" using inv login old by simp
    moreover have "codes_logged ?w"
      using inv old(2) by (auto simp: codes_logged_def set_server_def parts(2) new_code_def)
    moreover have "cli_logged ?w" using inv by (fastforce simp: cli_logged_def set_server_def)
    moreover have "cookies_logged ?w" using inv by (simp add: cookies_logged_def set_server_def reg' [unfolded set_server_def])
    moreover have "issued_registered ?w" using inv reg by (auto simp: issued_registered_def reg' [unfolded set_server_def] set_server_def)
    moreover have "used_logged ?w" using inv by (auto simp: used_logged_def set_server_def parts(1) codes_of_def)
    ultimately show ?thesis by (simp add: flow_inv_def ev d)
  qed
qed

text \<open>A cookie that the server may set: its user has logged in, its pending flow has a registered address.\<close>

definition good_cookie :: "flow \<Rightarrow> session \<Rightarrow> bool" where
  "good_cookie w k \<longleftrightarrow> (\<forall>u. ss_user k = Some u \<longrightarrow> Ev_login u \<in> set (fl_log w)) \<and> (\<forall>uri. ss_redirect_uri k = Some uri \<longrightarrow> registered uri w)"

lemma presented_cookie:
  assumes "flow_inv fe w" and "presents w r" and "wr_session r = Some k"
  shows "good_cookie w k"
  using assms by (auto simp: flow_inv_def cookies_logged_def presents_def good_cookie_def no_session_def)

lemma inv_good_cookie:
  "flow_inv fe w \<Longrightarrow> (\<And>k. cookie = Some k \<Longrightarrow> good_cookie w k) \<Longrightarrow> flow_inv fe (w\<lparr>fl_cookies := option_list cookie @ fl_cookies w\<rparr>)"
  by (rule inv_cookies) (auto simp: option_list_def good_cookie_def split: option.splits)

lemma issue_issues:
  assumes "issueCodeAndRedirect random now u uri state ch (ah_oauth (fl_handler w)) = (a, s)"
    and "Ev_login u \<in> set (fl_log w)" and "registered uri w"
  shows "issues random now w s"
  using assms
  by (auto simp: issueCodeAndRedirect_def issues_def generateRandomCode_def drawn_def new_code_def split: sum.splits)

lemma HandleAuthorize_inv:
  assumes "flow_inv fe w" and "presents w r" and "HandleAuthorize random now r (ah_oauth (fl_handler w)) = (a, cookie, s)"
  shows "issues random now w s \<and> (\<forall>k. cookie = Some k \<longrightarrow> good_cookie w k)"
proof -
  have same: "issues random now w (ah_oauth (fl_handler w))" by (simp add: issues_def)
  show ?thesis
  proof (cases "wr_session r")
    case None
    with assms(3) same show ?thesis
      by (auto simp: HandleAuthorize_def Let_def GetUserFromSession_def split: if_splits option.splits)
  next
    case (Some k)
    note good = presented_cookie [OF assms(1,2) Some]
    show ?thesis
    proof (cases "ss_user k")
      case None
      with assms(3) same Some good show ?thesis
        by (auto simp: HandleAuthorize_def Let_def GetUserFromSession_def good_cookie_def registered_def split: if_splits option.splits) blast
    next
      case (Some u)
      with assms(3) same \<open>wr_session r = Some k\<close> good issue_issues [of random now u _ _ _ w _ s] show ?thesis
        by (auto simp: HandleAuthorize_def Let_def GetUserFromSession_def good_cookie_def registered_def split: if_splits option.splits prod.splits) blast
    qed
  qed
qed

lemma issues_keep: "issues random now w s \<Longrightarrow> os_clients s = os_clients (ah_oauth (fl_handler w))"
  by (auto simp: issues_def)

lemma good_cookie_mono:
  assumes "good_cookie w k" and "set (fl_log w) \<subseteq> set (fl_log w')"
    and "os_clients (ah_oauth (fl_handler w')) = os_clients (ah_oauth (fl_handler w))"
  shows "good_cookie w' k"
  using assms by (auto simp: good_cookie_def registered_def)

lemma authorize_inv:
  assumes "flow_inv fe w" and "fresh_random random w" and "presents w r"
    and "HandleAuthorize random now r (ah_oauth (fl_handler w)) = (a, cookie, s)"
  shows "flow_inv fe ((set_server s w)\<lparr>fl_used := drawn random @ fl_used w, fl_cookies := option_list cookie @ fl_cookies w,
     fl_log := issued_event random now s @ fl_log w\<rparr>)"
proof -
  note h = HandleAuthorize_inv [OF assms(1,3,4)]
  let ?w = "(set_server s w)\<lparr>fl_used := drawn random @ fl_used w, fl_log := issued_event random now s @ fl_log w\<rparr>"
  have inv: "flow_inv fe ?w" using inv_issues [OF assms(1,2)] h by blast
  have good: "good_cookie ?w k" if "cookie = Some k" for k
    by (rule good_cookie_mono [of w]) (use h that issues_keep in \<open>auto simp: set_server_def\<close>)
  have "flow_inv fe (?w\<lparr>fl_cookies := option_list cookie @ fl_cookies ?w\<rparr>)" by (rule inv_good_cookie [OF inv]) (rule good)
  then show ?thesis by (rule back_subst [of "flow_inv fe"]) (rule flow.equality; simp add: set_server_def)
qed

lemma token_inv:
  assumes "flow_inv fe w" and "HandleToken (fe_jwt fe) (fe_pkce fe) (fe_secret fe) now r (ah_oauth (fl_handler w)) = (a, s)"
  shows "flow_inv fe ((set_server s w)\<lparr>fl_log := token_event (wr_form r) now a (ah_oauth (fl_handler w)) @ fl_log w\<rparr>)"
proof -
  let ?s = "ah_oauth (fl_handler w)"
  have gone: "flow_inv fe (set_server (?s\<lparr>os_codes := gm_del c (os_codes ?s)\<rparr>) w)" for c
    using assms(1) by (auto simp: flow_defs set_server_def)
  have same: "flow_inv fe (set_server ?s w)" using assms(1) by (simp add: set_server_def)
  have kept: "s = ?s \<or> (\<exists>c. s = ?s\<lparr>os_codes := gm_del c (os_codes ?s)\<rparr>)"
    using assms(2) by (auto simp: HandleToken_def Let_def split: if_splits option.splits sum.splits)
  show ?thesis
  proof (cases "token_event (wr_form r) now a ?s")
    case Nil
    with kept gone same show ?thesis by (auto simp: set_server_def)
  next
    case (Cons e es)
    then obtain f tok ac x y where f: "wr_form r = Some f" and a: "a = Token_json tok x y" and ac: "gm_get (os_codes ?s) (f ''code'') = Some ac"
      and ev: "token_event (wr_form r) now a ?s = [Ev_token (f ''code'') (cd_user ac) (f ''code_verifier'') tok now]"
      by (auto simp: token_event_def split: option.splits web_answer.splits)
    have s: "s = ?s\<lparr>os_codes := gm_del (f ''code'') (os_codes ?s)\<rparr>" and ok: "now \<le> cd_expires_at ac"
      "fe_pkce fe (f ''code_verifier'') = cd_code_challenge ac"
      "GenerateToken (fe_jwt fe) now (cd_user ac) (fe_secret fe) (30 * 24 * 3600) [MCPScope] AudienceMCP = Inr tok"
      using assms(2) f ac a by (auto simp: HandleToken_def Let_def split: if_splits sum.splits)
    have held: "Ev_issued (f ''code'') (cd_user ac) (cd_redirect_uri ac) (cd_code_challenge ac) (cd_expires_at ac - 600) \<in> set (fl_log w)"
      and unused: "Ev_token (f ''code'') u v t i \<notin> set (fl_log w)" for u v t i
      using assms(1) ac by (auto simp: flow_inv_def codes_logged_def)
    have used: "f ''code'' \<in> set (fl_used w)"
      using held assms(1) by (fastforce simp: flow_inv_def used_logged_def codes_of_def)
    have just: "justified_event fe (Ev_token (f ''code'') (cd_user ac) (f ''code_verifier'') tok now) (fl_log w)"
      using held unused ok by (auto intro!: exI [of _ "cd_redirect_uri ac"] exI [of _ "cd_expires_at ac - 600"])
    from gone [of "f ''code''"] just used show ?thesis
      unfolding s ev by (auto simp: flow_defs set_server_def codes_of_def)
  qed
qed

text \<open>Approving a code of the command line.\<close>

lemma approve_inv:
  assumes "flow_inv fe w" and "Ev_login u \<in> set (fl_log w)" and "gm_get (ah_cli_codes (fl_handler w)) c = Some st" and "now \<le> cl_expires_at st"
  shows "flow_inv fe (w\<lparr>fl_handler := approve_code c u st (fl_handler w),
    fl_log := approved_event now c (fl_handler w) (approve_code c u st (fl_handler w)) @ fl_log w\<rparr>)"
proof (cases "approve_code c u st (fl_handler w) = fl_handler w")
  case True
  with assms(1) show ?thesis by (simp add: approved_event_def)
next
  case False
  let ?e = "Ev_cli_approved c u now" and ?h = "approve_code c u st (fl_handler w)"
  have ev: "approved_event now c (fl_handler w) ?h = [?e]" using False by (simp add: approved_event_def) (simp add: approve_code_def)
  note inv = assms(1) [unfolded flow_inv_def]
  have begun: "Ev_cli_begun c (cl_expires_at st - 600) \<in> set (fl_log w)" using inv assms(3) by (auto simp: cli_logged_def)
  then have used: "c \<in> set (fl_used w)" using inv by (fastforce simp: used_logged_def codes_of_def)
  have oauth: "ah_oauth ?h = ah_oauth (fl_handler w)" by (simp add: approve_code_def)
  have "justified_event fe ?e (fl_log w)"
    using assms(2,4) begun by (auto intro!: exI [of _ "cl_expires_at st - 600"])
  moreover have "cli_logged (w\<lparr>fl_handler := ?h, fl_log := ?e # fl_log w\<rparr>)"
    using inv assms(3) by (fastforce simp: cli_logged_def approve_code_def)
  ultimately show ?thesis
    using inv used unfolding ev
    by (auto simp: flow_inv_def codes_logged_def cookies_logged_def issued_registered_def used_logged_def registered_def oauth codes_of_def)
qed

lemma CompleteAuthorize_inv:
  assumes "CompleteAuthorize random now (Some sess) fails u (ah_oauth (fl_handler w)) = (a, cookie, s)"
    and "Ev_login u \<in> set (fl_log w)" and "good_cookie w sess"
  shows "issues random now w s \<and> (\<forall>k. cookie = Some k \<longrightarrow> good_cookie w k \<and> ss_user k = ss_user sess)"
proof -
  have "issues random now w (ah_oauth (fl_handler w))" by (simp add: issues_def)
  then show ?thesis
    using assms issue_issues [of random now u _ _ _ w _ s]
    by (auto simp: CompleteAuthorize_def Let_def good_cookie_def clear_pending_def text_of_def split: if_splits option.splits prod.splits)
qed

lemma callback_inv:
  assumes "flow_inv fe w" and "fresh_random random w" and "presents w r"
    and "Callback le random now provider r (fl_handler w) = (a, cookie, h)"
  shows "flow_inv fe (w\<lparr>fl_handler := h, fl_used := drawn random @ fl_used w, fl_cookies := option_list cookie @ fl_cookies w,
     fl_log := approved_event now (wr_query r ''cli_code'') (fl_handler w) (h\<lparr>ah_oauth := ah_oauth (fl_handler w)\<rparr>)
       @ issued_event random now (ah_oauth h) @ login_event cookie @ fl_log w\<rparr>)"
proof (cases "cookie")
  case None
  with assms(4) have "h = fl_handler w" by (auto simp: Callback_def Let_def split: sum.splits option.splits prod.splits if_splits)
  moreover have "issues random now w (ah_oauth (fl_handler w))" by (simp add: issues_def)
  note inv_issues [OF assms(1,2) this]
  ultimately show ?thesis
    using None by (simp add: login_event_def approved_event_def set_server_def option_list_def)
next
  case (Some k)
  then obtain gu sess where gu: "le_complete le provider = Inr gu"
    and sess: "SaveUserToSession r (login_user le provider gu) = Some sess"
    using assms(4) by (auto simp: Callback_def Let_def split: sum.splits option.splits)
  let ?u = "login_user le provider gu" and ?code = "wr_query r ''cli_code''"
  obtain k0 where k0: "wr_session r = Some k0" "sess = k0\<lparr>ss_user := Some ?u\<rparr>"
    using sess by (auto simp: SaveUserToSession_def split: option.splits if_splits)
  let ?w1 = "w\<lparr>fl_log := Ev_login ?u # fl_log w\<rparr>"
  have inv1: "flow_inv fe ?w1" by (rule inv_login [OF assms(1)])
  have "good_cookie ?w1 k0" by (rule good_cookie_mono [OF presented_cookie [OF assms(1,3) k0(1)]]) auto
  then have good: "good_cookie ?w1 sess" by (simp add: k0(2) good_cookie_def)
  have fresh: "fresh_random random ?w1" using assms(2) by (simp add: fresh_random_def split: sum.splits)
  show ?thesis
  proof (cases "if ?code = [] then None else handleCLICallback now ?code ?u (fl_handler w)")
    case (Some ah)
    then obtain ans where cli: "handleCLICallback now ?code ?u (fl_handler w) = Some (ans, h)" and ck: "cookie = Some sess"
      using assms(4) gu sess by (cases ah) (auto simp: Callback_def Let_def split: if_splits)
    obtain st where st: "gm_get (ah_cli_codes (fl_handler w)) ?code = Some st"
      and h: "h = (if now < cl_expires_at st then approve_code ?code ?u st (fl_handler w) else fl_handler w)"
      using cli by (auto simp: handleCLICallback_def split: option.splits)
    have oauth: "ah_oauth h = ah_oauth (fl_handler w)" by (simp add: h approve_code_def)
    then have same_h: "h\<lparr>ah_oauth := ah_oauth (fl_handler w)\<rparr> = h" by (metis auth_handler.surjective auth_handler.update_convs(2))
    have log: "login_event cookie = [Ev_login ?u]" by (simp add: login_event_def ck k0(2))
    have "issues random now ?w1 (ah_oauth (fl_handler w))" by (simp add: issues_def)
    from inv_issues [OF inv1 fresh this]
    have inv2: "flow_inv fe (?w1\<lparr>fl_used := drawn random @ fl_used w,
        fl_log := issued_event random now (ah_oauth (fl_handler w)) @ Ev_login ?u # fl_log w\<rparr>)" (is "flow_inv fe ?w2")
      by (simp add: set_server_def)
    have "good_cookie ?w2 sess" by (rule good_cookie_mono [OF good]) auto
    with inv2 ck have inv3: "flow_inv fe (?w2\<lparr>fl_cookies := option_list cookie @ fl_cookies w\<rparr>)" (is "flow_inv fe ?w3")
      using inv_good_cookie [of fe ?w2 cookie] by simp
    show ?thesis
    proof (cases "now < cl_expires_at st")
      case True
      then have "flow_inv fe (?w3\<lparr>fl_handler := h, fl_log := approved_event now ?code (fl_handler w) h @ fl_log ?w3\<rparr>)"
        using approve_inv [OF inv3, of ?u ?code st now] st h by simp
      then show ?thesis by (rule back_subst [of "flow_inv fe"]) (rule flow.equality; simp add: same_h oauth log)
    next
      case False
      then have "h = fl_handler w" by (simp add: h)
      then show ?thesis
        by (intro back_subst [of "flow_inv fe", OF inv3]) (rule flow.equality; simp add: approved_event_def log)
    qed
  next
    case None
    then obtain ans ck s where c: "CompleteAuthorize random now (Some sess) (wr_save_fails r) ?u (ah_oauth (fl_handler w)) = (ans, ck, s)"
      and h: "h = (fl_handler w)\<lparr>ah_oauth := s\<rparr>" and ck: "cookie = (case ck of None \<Rightarrow> Some sess | Some c \<Rightarrow> Some c)"
      using assms(4) gu sess by (auto simp: Callback_def Let_def split: prod.splits if_splits)
    have "CompleteAuthorize random now (Some sess) (wr_save_fails r) ?u (ah_oauth (fl_handler ?w1)) = (ans, ck, s)" using c by simp
    then have both: "issues random now ?w1 s \<and> (\<forall>k. ck = Some k \<longrightarrow> good_cookie ?w1 k \<and> ss_user k = ss_user sess)"
      by (rule CompleteAuthorize_inv [OF _ _ good]) simp
    note iss = conjunct1 [OF both] and gc = conjunct2 [OF both]
    have su: "ss_user sess = Some ?u" by (simp add: k0(2))
    have gc': "ss_user k = Some ?u" if "ck = Some k" for k using gc that su by metis
    have log: "login_event cookie = [Ev_login ?u]"
      by (cases ck) (simp_all add: login_event_def ck su gc')
    from inv_issues [OF inv1 fresh iss]
    have inv2: "flow_inv fe (w\<lparr>fl_handler := h, fl_used := drawn random @ fl_used w,
        fl_log := issued_event random now s @ Ev_login ?u # fl_log w\<rparr>)" (is "flow_inv fe ?w2")
      by (simp add: set_server_def h)
    have good1: "good_cookie ?w1 k" if "cookie = Some k" for k
    proof (cases ck)
      case None
      with that have "k = sess" by (simp add: ck)
      with good show ?thesis by blast
    next
      case (Some c)
      with that have "ck = Some k" by (simp add: ck)
      with gc show ?thesis by blast
    qed
    have good2: "good_cookie ?w2 k" if "cookie = Some k" for k
      by (rule good_cookie_mono [OF good1 [OF that]]) (auto simp: h issues_keep [OF iss])
    have "flow_inv fe (?w2\<lparr>fl_cookies := option_list cookie @ fl_cookies ?w2\<rparr>)" by (rule inv_good_cookie [OF inv2]) (rule good2)
    then show ?thesis by (rule back_subst [of "flow_inv fe"]) (rule flow.equality; simp add: log h approved_event_def)
  qed
qed

lemma drawn_fresh: "fresh_random random w \<Longrightarrow> drawn random = [c] \<Longrightarrow> c \<notin> set (fl_used w)"
  by (auto simp: fresh_random_def drawn_def split: sum.splits)

lemma register_inv:
  assumes "flow_inv fe w" and "fresh_random random w" and "HandleRegister random now m body (ah_oauth (fl_handler w)) = (a, s)"
  shows "flow_inv fe ((set_server s w)\<lparr>fl_used := drawn random @ fl_used w\<rparr>)"
proof (cases "s = ah_oauth (fl_handler w)")
  case True
  with inv_used [OF assms(1)] show ?thesis by (simp add: set_server_def)
next
  case False
  then obtain c cl where d: "drawn random = [c]"
    and s: "s = (ah_oauth (fl_handler w))\<lparr>os_clients := gm_set c cl (os_clients (ah_oauth (fl_handler w)))\<rparr>"
    using assms(3)
    by (auto simp: HandleRegister_def Let_def generateRandomCode_def drawn_def split: if_splits option.splits sum.splits)
  have new: "gm_get (os_clients (ah_oauth (fl_handler w))) c = None"
    using fresh_not_held [OF assms(1) drawn_fresh [OF assms(2) d]] by simp
  let ?w = "(set_server s w)\<lparr>fl_used := drawn random @ fl_used w\<rparr>"
  have reg: "registered uri ?w" if "registered uri w" for uri
  proof -
    from that obtain i k where ik: "gm_get (os_clients (ah_oauth (fl_handler w))) i = Some k" "hasRedirectURI k uri"
      by (auto simp: registered_def)
    with new have "i \<noteq> c" by auto
    with ik show ?thesis by (auto simp: registered_def set_server_def s)
  qed
  have same: "fl_log ?w = fl_log w" "fl_cookies ?w = fl_cookies w" "os_codes (ah_oauth (fl_handler ?w)) = os_codes (ah_oauth (fl_handler w))"
    "ah_cli_codes (fl_handler ?w) = ah_cli_codes (fl_handler w)" by (simp_all add: set_server_def s)
  have used: "used_logged ?w"
    using assms(1) by (auto simp: flow_inv_def used_logged_def set_server_def s d)
  note inv = assms(1) [unfolded flow_inv_def]
  have "codes_logged ?w" using inv unfolding codes_logged_def same by blast
  moreover have "cli_logged ?w" using inv unfolding cli_logged_def same by blast
  moreover have "cookies_logged ?w" using inv reg unfolding cookies_logged_def same by blast
  moreover have "issued_registered ?w" using inv reg unfolding issued_registered_def same by blast
  ultimately show ?thesis using inv used by (simp only: flow_inv_def same)
qed

lemma gm_get_filter: "gm_wf m \<Longrightarrow> gm_get (filter P m) k = Some v \<Longrightarrow> gm_get m k = Some v"
  unfolding gm_get_def gm_wf_def by (meson distinct_map_filter filter_is_subset map_of_SomeD map_of_is_SomeI subsetD)

lemma gm_filter_wf [simp]: "gm_wf m \<Longrightarrow> gm_wf (filter P m)"
  unfolding gm_wf_def by (rule distinct_map_filter)

lemma gm_remove_wf [simp]: "gm_wf m \<Longrightarrow> gm_wf (gm_del k m)"
  unfolding gm_wf_def gm_del_def by (rule distinct_delete)

text \<open>The tables have one entry per code.\<close>

definition tables_wf :: "flow \<Rightarrow> bool" where
  "tables_wf w \<longleftrightarrow> gm_wf (os_codes (ah_oauth (fl_handler w))) \<and> gm_wf (ah_cli_codes (fl_handler w))"

lemma HandleRegister_codes: "HandleRegister random now m body s = (a, s') \<Longrightarrow> os_codes s' = os_codes s"
  by (auto simp: HandleRegister_def Let_def split: if_splits option.splits sum.splits)

lemma issue_wf: "issueCodeAndRedirect random now u uri st ch s = (a, s') \<Longrightarrow> gm_wf (os_codes s) \<Longrightarrow> gm_wf (os_codes s')"
  by (auto simp: issueCodeAndRedirect_def split: sum.splits)

lemma HandleAuthorize_wf: "HandleAuthorize random now r s = (a, k, s') \<Longrightarrow> gm_wf (os_codes s) \<Longrightarrow> gm_wf (os_codes s')"
  by (auto simp: HandleAuthorize_def Let_def intro: issue_wf split: if_splits option.splits prod.splits)

lemma CompleteAuthorize_wf: "CompleteAuthorize random now sess f u s = (a, k, s') \<Longrightarrow> gm_wf (os_codes s) \<Longrightarrow> gm_wf (os_codes s')"
  by (auto simp: CompleteAuthorize_def Let_def intro: issue_wf split: if_splits option.splits prod.splits)

lemma HandleToken_wf: "HandleToken jl pk sec now r s = (a, s') \<Longrightarrow> gm_wf (os_codes s) \<Longrightarrow> gm_wf (os_codes s')"
  by (auto simp: HandleToken_def Let_def split: if_splits option.splits sum.splits)

lemma Callback_wf:
  assumes "Callback le random now p r h = (a, k, h')" and "gm_wf (os_codes (ah_oauth h))" and "gm_wf (ah_cli_codes h)"
  shows "gm_wf (os_codes (ah_oauth h')) \<and> gm_wf (ah_cli_codes h')"
  using assms
  by (auto simp: Callback_def Let_def handleCLICallback_def approve_code_def intro: CompleteAuthorize_wf
      split: if_splits option.splits sum.splits prod.splits)

lemma flow_step_wf: "flow_step fe w w' \<Longrightarrow> tables_wf w \<Longrightarrow> tables_wf w'"
proof (induction rule: flow_step.induct)
  case (flow_callback random w r now provider a cookie h)
  then show ?case using Callback_wf [OF flow_callback(3)] by (simp add: tables_wf_def)
next
  case (flow_register random w now m body a s)
  then show ?case using HandleRegister_codes by (simp add: tables_wf_def set_server_def)
next
  case (flow_authorize random w r now a cookie s)
  then show ?case using HandleAuthorize_wf [OF flow_authorize(3)] by (simp add: tables_wf_def set_server_def)
next
  case (flow_token now r w a s)
  then show ?case using HandleToken_wf [OF flow_token(1)] by (simp add: tables_wf_def set_server_def)
next
  case (flow_cli_confirm w r now code a h)
  then show ?case
    by (auto simp: tables_wf_def CLIApproveConfirm_def approve_code_def split: if_splits option.splits)
next
  case (flow_cli_poll now code w a h)
  then show ?case
    by (auto simp: tables_wf_def CLIPoll_def Let_def split: if_splits option.splits sum.splits)
qed (auto simp: tables_wf_def set_server_def OAuth_cleanupExpiredCodes_def cli_cleanupExpiredCodes_def CLIBegin_def split: sum.splits)

lemma cleanup_inv: "flow_inv fe w \<Longrightarrow> tables_wf w \<Longrightarrow> flow_inv fe (set_server (OAuth_cleanupExpiredCodes now (ah_oauth (fl_handler w))) w)"
  by (auto simp: flow_defs set_server_def OAuth_cleanupExpiredCodes_def tables_wf_def dest!: gm_get_filter)

lemma cli_cleanup_inv: "flow_inv fe w \<Longrightarrow> tables_wf w \<Longrightarrow> flow_inv fe (w\<lparr>fl_handler := cli_cleanupExpiredCodes now (fl_handler w)\<rparr>)"
  by (auto simp: flow_defs cli_cleanupExpiredCodes_def tables_wf_def dest!: gm_get_filter)

lemma cli_begin_inv:
  assumes "flow_inv fe w" and "fresh_random random w" and "CLIBegin url random now (fl_handler w) = (a, h)"
  shows "flow_inv fe (w\<lparr>fl_handler := h, fl_used := drawn random @ fl_used w, fl_log := map (\<lambda>c. Ev_cli_begun c now) (drawn random) @ fl_log w\<rparr>)"
proof (cases random)
  case (Inl m)
  with assms(1,3) show ?thesis by (auto simp: CLIBegin_def generateRandomCode_def drawn_def)
next
  case (Inr b)
  let ?c = "hex_encode b"
  have d: "drawn random = [?c]" by (simp add: drawn_def Inr)
  have h: "h = (fl_handler w)\<lparr>ah_cli_codes := gm_set ?c \<lparr>cl_user = None, cl_expires_at = now + 600, cl_approved = False\<rparr> (ah_cli_codes (fl_handler w))\<rparr>"
    using assms(3) by (simp add: CLIBegin_def generateRandomCode_def Inr)
  have "?c \<notin> codes_of e" if "e \<in> set (fl_log w)" for e
    using fresh_unlogged [OF assms(1) drawn_fresh [OF assms(2) d] that] .
  then have new: "Ev_cli_token ?c u tok t \<notin> set (fl_log w)" for u tok t by (fastforce simp: codes_of_def)
  note inv = assms(1) [unfolded flow_inv_def]
  have "cli_logged (w\<lparr>fl_handler := h, fl_used := ?c # fl_used w, fl_log := Ev_cli_begun ?c now # fl_log w\<rparr>)"
    using inv new by (fastforce simp: cli_logged_def h)
  then show ?thesis
    using inv unfolding d
    by (auto simp: flow_inv_def h codes_logged_def cookies_logged_def issued_registered_def used_logged_def registered_def codes_of_def)
qed

lemma confirm_inv:
  assumes "flow_inv fe w" and "presents w r" and "CLIApproveConfirm now code r (fl_handler w) = (a, h)"
  shows "flow_inv fe (w\<lparr>fl_handler := h, fl_log := approved_event now code (fl_handler w) h @ fl_log w\<rparr>)"
proof (cases "\<exists>u st. GetUserFromSession r = Some u \<and> gm_get (ah_cli_codes (fl_handler w)) code = Some st \<and> now \<le> cl_expires_at st")
  case True
  then obtain u st where u: "GetUserFromSession r = Some u" and st: "gm_get (ah_cli_codes (fl_handler w)) code = Some st" "now \<le> cl_expires_at st"
    by auto
  obtain k where k: "wr_session r = Some k" "ss_user k = Some u" using u by (auto simp: GetUserFromSession_def bind_eq_Some_conv split: option.splits)
  have "Ev_login u \<in> set (fl_log w)" using presented_cookie [OF assms(1,2) k(1)] k(2) by (simp add: good_cookie_def)
  from approve_inv [OF assms(1) this st] assms(3) u st show ?thesis by (simp add: CLIApproveConfirm_def)
next
  case False
  with assms(3) have "h = fl_handler w" by (fastforce simp: CLIApproveConfirm_def split: option.splits if_splits)
  with assms(1) show ?thesis by (simp add: approved_event_def)
qed

lemma poll_inv:
  assumes "flow_inv fe w" and "CLIPoll (fe_jwt fe) (fe_secret fe) now code (fl_handler w) = (a, h)"
  shows "flow_inv fe (w\<lparr>fl_handler := h, fl_log := poll_event now code a (fl_handler w) @ fl_log w\<rparr>)"
proof -
  let ?h = "fl_handler w"
  have gone: "flow_inv fe (w\<lparr>fl_handler := ?h\<lparr>ah_cli_codes := gm_del code (ah_cli_codes ?h)\<rparr>\<rparr>)"
    using assms(1) by (auto simp: flow_defs)
  have kept: "h = ?h \<or> h = ?h\<lparr>ah_cli_codes := gm_del code (ah_cli_codes ?h)\<rparr>"
    using assms(2) by (auto simp: CLIPoll_def Let_def split: if_splits option.splits sum.splits)
  show ?thesis
  proof (cases "poll_event now code a ?h")
    case Nil
    with kept gone assms(1) show ?thesis by auto
  next
    case (Cons e es)
    then obtain u tok st where a: "a = Approved_json tok" and st: "gm_get (ah_cli_codes ?h) code = Some st" "cl_user st = Some u"
      and ev: "poll_event now code a ?h = [Ev_cli_token code u tok now]"
      by (auto simp: poll_event_def bind_eq_Some_conv split: option.splits web_answer.splits)
    have h: "h = ?h\<lparr>ah_cli_codes := gm_del code (ah_cli_codes ?h)\<rparr>" and ok: "now \<le> cl_expires_at st"
      "GenerateToken (fe_jwt fe) now u (fe_secret fe) (30 * 24 * 3600) [] AudienceAPI = Inr tok"
      using assms(2) a st by (auto simp: CLIPoll_def Let_def split: if_splits sum.splits)
    have begun: "Ev_cli_begun code (cl_expires_at st - 600) \<in> set (fl_log w)"
      and unused: "\<And>u tok t. Ev_cli_token code u tok t \<notin> set (fl_log w)"
      and approved: "\<exists>t. Ev_cli_approved code u t \<in> set (fl_log w)"
      using assms(1) st by (auto simp: flow_inv_def cli_logged_def)
    have used: "code \<in> set (fl_used w)" using begun assms(1) by (fastforce simp: flow_inv_def used_logged_def codes_of_def)
    have just: "justified_event fe (Ev_cli_token code u tok now) (fl_log w)"
      using begun unused approved ok by (auto intro!: exI [of _ "cl_expires_at st - 600"])
    from gone just used show ?thesis unfolding h ev by (auto simp: flow_defs codes_of_def)
  qed
qed

lemma flow_step_inv: "flow_step fe w w' \<Longrightarrow> tables_wf w \<Longrightarrow> flow_inv fe w \<Longrightarrow> flow_inv fe w'"
proof (induction rule: flow_step.induct)
  case (flow_register random w now m body a s)
  then show ?case using register_inv by blast
next
  case (flow_authorize random w r now a cookie s)
  then show ?case using authorize_inv by blast
next
  case (flow_token now r w a s)
  then show ?case using token_inv by blast
next
  case (flow_cleanup now w)
  then show ?case using cleanup_inv by blast
next
  case (flow_callback random w r now provider a cookie h)
  then show ?case using callback_inv by blast
next
  case (flow_cli_begin random w now a h)
  then show ?case using cli_begin_inv by blast
next
  case (flow_cli_confirm w r now code a h)
  then show ?case using confirm_inv by blast
next
  case (flow_cli_poll now code w a h)
  then show ?case using poll_inv by blast
next
  case (flow_cli_cleanup now w)
  then show ?case using cli_cleanup_inv by blast
qed

lemma flow_reachable_inv: "flow_reachable fe w \<Longrightarrow> flow_inv fe w"
proof -
  assume "flow_reachable fe w"
  then have "(flow_step fe)\<^sup>*\<^sup>* no_flow w" by (simp add: flow_reachable_def)
  then have "tables_wf w \<and> flow_inv fe w"
  proof induction
    case base
    show ?case by (simp add: flow_defs no_flow_def tables_wf_def gm_wf_def)
  next
    case (step v v')
    then show ?case using flow_step_inv flow_step_wf by blast
  qed
  then show ?thesis ..
qed

lemma justified_mem:
  assumes "justified fe log" and "e \<in> set log"
  obtains earlier where "justified_event fe e earlier" and "set earlier \<subseteq> set log"
  using assms
proof (induction log arbitrary: thesis)
  case (Cons a log)
  show ?case
  proof (cases "e = a")
    case True
    with Cons.prems(2) show ?thesis by (intro Cons.prems(1) [of log]) auto
  next
    case False
    with Cons.prems obtain pre where "justified_event fe e pre" and "set pre \<subseteq> set log" by (auto elim: Cons.IH)
    then show ?thesis by (intro Cons.prems(1) [of pre]) auto
  qed
qed simp

section \<open>No token without a login\<close>

text \<open>C39. Every access token that the MCP authorization server hands out is for a user who had logged in before: it was exchanged for a
  code that was issued to that user at most ten minutes earlier, to a redirect address that some registered client had declared,
  under the challenge of exactly the verifier that was presented, and no token had been handed out for that code before. This holds
  whatever cookies, codes and forms the callers send.\<close>

theorem mcp_token_was_earned:
  assumes "flow_reachable fe w" and "fl_log w = post @ Ev_token c u v tok t # pre"
  shows "Ev_login u \<in> set pre \<and> (\<exists>r t0. Ev_issued c u r (fe_pkce fe v) t0 \<in> set pre \<and> t \<le> t0 + 600 \<and> registered r w) \<and>
    (\<forall>u' v' tok' t'. Ev_token c u' v' tok' t' \<notin> set pre) \<and>
    GenerateToken (fe_jwt fe) t u (fe_secret fe) (30 * 24 * 3600) [MCPScope] AudienceMCP = Inr tok"
proof -
  note inv = flow_reachable_inv [OF assms(1), unfolded flow_inv_def]
  then have just: "justified fe (Ev_token c u v tok t # pre)" using justified_append assms(2) by metis
  then obtain r t0 where issued: "Ev_issued c u r (fe_pkce fe v) t0 \<in> set pre" "t \<le> t0 + 600" by auto
  from just have "justified fe pre" by simp
  from justified_mem [OF this issued(1)] have "Ev_login u \<in> set pre" by (metis justified_event.simps(2) subsetD)
  moreover have "registered r w" using inv issued(1) assms(2) by (auto simp: issued_registered_def)
  ultimately show ?thesis using just issued by auto
qed


section \<open>Corner cases\<close>

text \<open>A code that has expired is reported as approved although nothing is approved.\<close>

lemma expired_code_looks_approved:
  "gm_get (ah_cli_codes h) c = Some st \<Longrightarrow> cl_expires_at st \<le> now \<Longrightarrow> handleCLICallback now c u h = Some (Approve_page Approved_page, h)"
  by (simp add: handleCLICallback_def)

text \<open>Logging in with a code in the query approves it, without the confirmation that the page asks of a user who is logged in already.\<close>

lemma login_approves_code:
  assumes "le_complete le p = Inr gu" and "wr_session r = Some sess" and "\<not> wr_save_fails r" and "wr_query r ''cli_code'' \<noteq> []"
    and "gm_get (ah_cli_codes h) (wr_query r ''cli_code'') = Some st" and "now < cl_expires_at st"
  shows "Callback le random now p r h =
    (Approve_page Approved_page, Some (sess\<lparr>ss_user := Some (login_user le p gu)\<rparr>), approve_code (wr_query r ''cli_code'') (login_user le p gu) st h)"
  using assms by (simp add: Callback_def SaveUserToSession_def handleCLICallback_def Let_def)

text \<open>The state goes into the redirect address as it is.\<close>

lemma state_is_not_escaped:
  "issueCodeAndRedirect (Inr b) now u uri ''x&code=y'' ch s =
     (Redirect (uri @ ''?code='' @ hex_encode b @ ''&state=x&code=y''),
      s\<lparr>os_codes := gm_set (hex_encode b) (new_code u uri ch now) (os_codes s)\<rparr>)"
  by (simp add: issueCodeAndRedirect_def generateRandomCode_def new_code_def)

text \<open>A token does not depend on the client that asks for it: two forms that agree on the four fields that are read get the same answer.\<close>

lemma token_ignores_client:
  assumes "wr_method r' = wr_method r" and "wr_form r = Some f" and "wr_form r' = Some f'"
    and "\<forall>k\<in>{''grant_type'', ''code'', ''code_verifier'', ''redirect_uri''}. f' k = f k"
  shows "HandleToken jl pk sec now r' s = HandleToken jl pk sec now r s"
proof -
  have "f' ''grant_type'' = f ''grant_type''" "f' ''code'' = f ''code''" "f' ''code_verifier'' = f ''code_verifier''"
    "f' ''redirect_uri'' = f ''redirect_uri''" using assms(4) by simp_all
  then show ?thesis unfolding HandleToken_def assms(1-3) option.case by presburger
qed

section \<open>A run\<close>

definition sample_flow_env :: flow_env where
  "sample_flow_env =
     \<lparr>fe_jwt = \<lparr>jl_sign = (\<lambda>s c. Inr ''t''), jl_parse = (\<lambda>s now t. Inl ErrTokenOther)\<rparr>, fe_pkce = (\<lambda>v. ''h'' @ v), fe_secret = ''k'',
      fe_login = \<lparr>le_complete = (\<lambda>p. Inr \<lparr>gu_email = ''a@b'', gu_name = ''A'', gu_nick_name = ''a'', gu_avatar_url = [],
          gu_provider = p, gu_user_id = ''u1'', gu_raw_data = [], gu_access_token = []\<rparr>),
        le_orgs_http = (\<lambda>_. Inl ''down''), le_orgs_decode = (\<lambda>_. Inl ''bad'')\<rparr>, fe_callback_url = ''https://ci''\<rparr>"

definition gitlab_user :: user where
  "gitlab_user = \<lparr>u_email = ''a@b'', u_name = ''A'', u_nick_name = ''a'', u_avatar_url = [], u_provider = ''gitlab'', u_user_id = ''u1'',
     u_organizations = [], u_groups = [], u_raw_data = [], u_scopes = []\<rparr>"

definition sample_client :: registered_client where
  "sample_client = \<lparr>rc_client_id = ''61'', rc_client_name = ''editor'', rc_redirect_uris = [''http://e''], rc_grant_types = [''authorization_code''],
     rc_response_types = [''code''], rc_auth_method = ''none'', rc_issued_at = 0\<rparr>"

definition sample_session :: session where
  "sample_session = no_session\<lparr>ss_user := Some gitlab_user\<rparr>"

definition query_of :: "(string \<times> string) list \<Rightarrow> string \<Rightarrow> string" where
  "query_of kvs k = text_of (map_of kvs k)"

definition get_request :: "(string \<times> string) list \<Rightarrow> session option \<Rightarrow> web_request" where
  "get_request kvs sess = \<lparr>wr_method = ''GET'', wr_query = query_of kvs, wr_form = Some (query_of []), wr_session = sess, wr_save_fails = False\<rparr>"

lemma sample_hex: "hex_encode ''a'' = ''61''" "hex_encode ''b'' = ''62''" "hex_encode ''c'' = ''63''"
  by code_simp+

lemmas sample_flow_defs = query_of_def get_request_def text_of_def fresh_random_def drawn_def presents_def set_server_def
  option_list_def generateRandomCode_def sample_hex hasRedirectURI_def GetUserFromSession_def gm_get_def gm_set_def
  gm_del_def Let_def

text \<open>An editor registers, its user logs in, is sent back with a code, and the editor exchanges it.\<close>

definition editor_flow :: flow where
  "editor_flow = \<lparr>fl_handler = \<lparr>ah_cli_codes = [], ah_oauth = \<lparr>os_codes = [], os_clients = [(''61'', sample_client)]\<rparr>\<rparr>, fl_cookies = [sample_session],
     fl_used = [''63'', ''62'', ''61''],
     fl_log = [Ev_token ''63'' gitlab_user ''v'' ''t'' 5, Ev_issued ''63'' gitlab_user ''http://e'' ''hv'' 2, Ev_login gitlab_user]\<rparr>"

lemma editor_flow_reachable: "flow_reachable sample_flow_env editor_flow"
proof -
  let ?h = "\<lambda>codes. \<lparr>ah_cli_codes = [], ah_oauth = \<lparr>os_codes = codes, os_clients = [(''61'', sample_client)]\<rparr>\<rparr>"
  let ?w1 = "\<lparr>fl_handler = ?h [], fl_cookies = [], fl_used = [''61''], fl_log = []\<rparr> :: flow"
  let ?w2 = "\<lparr>fl_handler = ?h [], fl_cookies = [sample_session], fl_used = [''62'', ''61''], fl_log = [Ev_login gitlab_user]\<rparr> :: flow"
  let ?ac = "new_code gitlab_user ''http://e'' ''hv'' 2"
  let ?w3 = "\<lparr>fl_handler = ?h [(''63'', ?ac)], fl_cookies = [sample_session], fl_used = [''63'', ''62'', ''61''],
     fl_log = [Ev_issued ''63'' gitlab_user ''http://e'' ''hv'' 2, Ev_login gitlab_user]\<rparr> :: flow"
  let ?req = "Some \<lparr>cq_redirect_uris = [''http://e''], cq_client_name = ''editor'', cq_grant_types = [], cq_response_types = [], cq_auth_method = []\<rparr>"
  have "HandleRegister (Inr ''a'') 0 ''POST'' ?req (ah_oauth (fl_handler no_flow)) = (Client_json sample_client, ah_oauth (?h []))"
    by (simp add: HandleRegister_def no_flow_def sample_client_def sample_flow_defs)
  from flow_register [OF _ this] have s1: "flow_step sample_flow_env no_flow ?w1" by (simp add: no_flow_def sample_flow_defs)
  have "Callback (fe_login sample_flow_env) (Inr ''b'') 1 ''gitlab'' (get_request [] (Some no_session)) (fl_handler ?w1) =
      (Redirect ''/'', Some sample_session, ?h [])"
    by (simp add: Callback_def login_user_def fromGothUser_def SaveUserToSession_def CompleteAuthorize_def sample_flow_env_def
        gitlab_user_def sample_session_def no_session_def sample_flow_defs)
  from flow_callback [OF _ _ this] have s2: "flow_step sample_flow_env ?w1 ?w2"
    by (simp add: approved_event_def issued_event_def login_event_def sample_session_def no_session_def sample_flow_defs)
  let ?q = "get_request [(''response_type'', ''code''), (''client_id'', ''61''), (''redirect_uri'', ''http://e''), (''code_challenge'', ''hv''),
     (''code_challenge_method'', ''S256'')] (Some sample_session)"
  have "HandleAuthorize (Inr ''c'') 2 ?q (ah_oauth (fl_handler ?w2)) = (Redirect ''http://e?code=63'', None, ah_oauth (?h [(''63'', ?ac)]))"
    by (simp add: HandleAuthorize_def issueCodeAndRedirect_def sample_session_def no_session_def sample_client_def new_code_def sample_flow_defs)
  from flow_authorize [OF _ _ this] have s3: "flow_step sample_flow_env ?w2 ?w3"
    by (simp add: issued_event_def new_code_def sample_flow_defs)
  let ?f = "\<lparr>wr_method = ''POST'', wr_query = query_of [], wr_form = Some (query_of [(''grant_type'', ''authorization_code''), (''code'', ''63''),
     (''code_verifier'', ''v''), (''redirect_uri'', ''http://e'')]), wr_session = None, wr_save_fails = False\<rparr>"
  have "HandleToken (fe_jwt sample_flow_env) (fe_pkce sample_flow_env) (fe_secret sample_flow_env) 5 ?f (ah_oauth (fl_handler ?w3)) =
      (Token_json ''t'' (30 * 24 * 3600) MCPScope, ah_oauth (?h []))"
    by (simp add: HandleToken_def sample_flow_env_def GenerateToken_def new_code_def sample_flow_defs)
  from flow_token [OF this] have s4: "flow_step sample_flow_env ?w3 editor_flow"
    by (simp add: token_event_def new_code_def editor_flow_def sample_flow_defs)
  from s1 s2 s3 s4 show ?thesis unfolding flow_reachable_def by (meson rtranclp.rtrancl_refl rtranclp.rtrancl_into_rtrancl)
qed

text \<open>The command line begins a login, its user logs in with the code, and the command line collects the token.\<close>

definition cli_flow :: flow where
  "cli_flow = \<lparr>fl_handler = \<lparr>ah_cli_codes = [], ah_oauth = \<lparr>os_codes = [], os_clients = []\<rparr>\<rparr>, fl_cookies = [sample_session],
     fl_used = [''62'', ''61''],
     fl_log = [Ev_cli_token ''61'' gitlab_user ''t'' 5, Ev_cli_approved ''61'' gitlab_user 1, Ev_login gitlab_user, Ev_cli_begun ''61'' 0]\<rparr>"

lemma cli_flow_reachable: "flow_reachable sample_flow_env cli_flow"
proof -
  let ?h = "\<lambda>codes. \<lparr>ah_cli_codes = codes, ah_oauth = \<lparr>os_codes = [], os_clients = []\<rparr>\<rparr>"
  let ?st = "\<lambda>u. \<lparr>cl_user = u, cl_expires_at = 600, cl_approved = u \<noteq> None\<rparr>"
  let ?w1 = "\<lparr>fl_handler = ?h [(''61'', ?st None)], fl_cookies = [], fl_used = [''61''], fl_log = [Ev_cli_begun ''61'' 0]\<rparr> :: flow"
  let ?w2 = "\<lparr>fl_handler = ?h [(''61'', ?st (Some gitlab_user))], fl_cookies = [sample_session], fl_used = [''62'', ''61''],
     fl_log = [Ev_cli_approved ''61'' gitlab_user 1, Ev_login gitlab_user, Ev_cli_begun ''61'' 0]\<rparr> :: flow"
  have "CLIBegin (fe_callback_url sample_flow_env) (Inr ''a'') 0 (fl_handler no_flow) =
      (Login_json ''61'' ''https://ci/auth/cli/approve?code=61'', ?h [(''61'', ?st None)])"
    by (simp add: CLIBegin_def no_flow_def sample_flow_env_def sample_flow_defs)
  from flow_cli_begin [OF _ this] have s1: "flow_step sample_flow_env no_flow ?w1" by (simp add: no_flow_def sample_flow_defs)
  have "Callback (fe_login sample_flow_env) (Inr ''b'') 1 ''gitlab'' (get_request [(''cli_code'', ''61'')] (Some no_session)) (fl_handler ?w1) =
      (Approve_page Approved_page, Some sample_session, ?h [(''61'', ?st (Some gitlab_user))])"
    by (simp add: Callback_def login_user_def fromGothUser_def SaveUserToSession_def handleCLICallback_def approve_code_def sample_flow_env_def
        gitlab_user_def sample_session_def no_session_def sample_flow_defs)
  from flow_callback [OF _ _ this] have s2: "flow_step sample_flow_env ?w1 ?w2"
    by (simp add: approved_event_def issued_event_def login_event_def sample_session_def no_session_def sample_flow_defs)
  have "CLIPoll (fe_jwt sample_flow_env) (fe_secret sample_flow_env) 5 ''61'' (fl_handler ?w2) = (Approved_json ''t'', ?h [])"
    by (simp add: CLIPoll_def sample_flow_env_def GenerateToken_def sample_flow_defs)
  from flow_cli_poll [OF this] have s3: "flow_step sample_flow_env ?w2 cli_flow"
    by (simp add: poll_event_def cli_flow_def sample_flow_defs)
  from s1 s2 s3 show ?thesis unfolding flow_reachable_def by (meson rtranclp.rtrancl_refl rtranclp.rtrancl_into_rtrancl)
qed

theorem mcp_token_was_earned_witness:
  "\<exists>post pre. fl_log editor_flow = post @ Ev_token ''63'' gitlab_user ''v'' ''t'' 5 # pre \<and> Ev_login gitlab_user \<in> set pre"
proof -
  have "fl_log editor_flow = [] @ Ev_token ''63'' gitlab_user ''v'' ''t'' 5 # tl (fl_log editor_flow)" by (simp add: editor_flow_def)
  with mcp_token_was_earned [OF editor_flow_reachable this] show ?thesis by blast
qed


end
