(* ===== verification/Leaf_Steps.thy ===== *)
theory Leaf_Steps
  imports Get_Put Cache_Tasks Job_Run
begin

text \<open>
  The leaf steps \<open>notify\<close> and \<open>build_image\<close>: \<open>runtime/backwards/notify_handler.go\<close> and \<open>build_image_handler.go\<close>, with the
  notifier of \<open>runtime/jsapi/notify.go\<close> (also what scripts see of it), its adapters in \<open>runtime/jsapi/notifiers\<close>, and
  cache mounts with their restore tasks (\<open>resolveCaches\<close> of \<open>task_handler.go\<close>). The template engine, the notification
  services and the runner are parameters; a runner acts on the context of the step, whose store it shares.
\<close>

section \<open>Notification services\<close>

record notify_config =
  nc_type :: string
  nc_token :: string
  nc_webhook :: string
  nc_url :: string
  nc_channels :: "string list"
  nc_headers :: "(string, string) gomap"
  nc_method :: string
  nc_recipients :: "string list"
  nc_smtp_host :: string
  nc_from :: string
  nc_username :: string

record notify_context =
  nx_pipeline_name :: string
  nx_job_name :: string
  nx_build_id :: string
  nx_status :: string
  nx_start_time :: string
  nx_end_time :: string
  nx_duration :: string
  nx_environment :: "(string, string) gomap option"
  nx_task_results :: "(string, json) gomap option"

text \<open>What an adapter hands to the notification library.\<close>

datatype notify_service =
    Slack_service string "string list"
  | Discord_service string "string list"
  | Teams_service string
  | Http_service string "(string, string) gomap" string
  | Smtp_service string string "(string \<times> string \<times> string) option" "string list"

definition slack_Configure :: "notify_config \<Rightarrow> string + notify_service" where
  "slack_Configure c =
     (if nc_token c = [] then Inl ''slack token is required'' else Inr (Slack_service (nc_token c) (nc_channels c @ nc_recipients c)))"

definition teams_Configure :: "notify_config \<Rightarrow> string + notify_service" where
  "teams_Configure c = (if nc_webhook c = [] then Inl ''teams webhook URL is required'' else Inr (Teams_service (nc_webhook c)))"

text \<open>\<open>AuthenticateWithBotToken\<close> may fail.\<close>

definition discord_Configure :: "(string \<Rightarrow> string option) \<Rightarrow> notify_config \<Rightarrow> string + notify_service" where
  "discord_Configure authenticate c =
     (if nc_token c = [] then Inl ''discord bot token is required''
      else (case authenticate (nc_token c) of
              Some m \<Rightarrow> Inl (''discord: authenticate with bot token: '' @ m)
            | None \<Rightarrow> Inr (Discord_service (nc_token c) (nc_channels c @ nc_recipients c))))"

text \<open>\<open>http.CanonicalHeaderKey\<close>: a key of token characters gets its case fixed, any other key is kept.\<close>

definition token_char :: "char \<Rightarrow> bool" where
  "token_char c \<longleftrightarrow> is_digit c \<or> (CHR ''a'' \<le> c \<and> c \<le> CHR ''z'') \<or> (CHR ''A'' \<le> c \<and> c \<le> CHR ''Z'') \<or>
     c \<in> {CHR ''!'', CHR ''#'', CHR ''$'', CHR ''%'', CHR ''&'', CHR 0x27, CHR ''*'', CHR ''+'', CHR ''-'', CHR ''.'', CHR ''^'', CHR ''_'',
          CHR 0x60, CHR ''|'', CHR ''~''}"

definition upper_char :: "char \<Rightarrow> char" where
  "upper_char c = (if CHR ''a'' \<le> c \<and> c \<le> CHR ''z'' then char_of (of_char c - (32 :: nat)) else c)"

fun canonical_parts :: "bool \<Rightarrow> string \<Rightarrow> string" where
  "canonical_parts up [] = []"
| "canonical_parts up (c # cs) = (if up then upper_char c else lower_char c) # canonical_parts (c = CHR ''-'') cs"

definition CanonicalHeaderKey :: "string \<Rightarrow> string" where
  "CanonicalHeaderKey k = (if list_all token_char k then canonical_parts True k else k)"

definition headersToHTTPHeader :: "(string, string) gomap \<Rightarrow> (string, string) gomap" where
  "headersToHTTPHeader headers = fold (\<lambda>(k, v). gm_set (CanonicalHeaderKey k) v) headers []"

definition http_Configure :: "notify_config \<Rightarrow> string + notify_service" where
  "http_Configure c =
     (if nc_url c = [] then Inl ''HTTP URL is required''
      else Inr (Http_service (nc_url c) (headersToHTTPHeader (nc_headers c)) (if nc_method c = [] then ''POST'' else nc_method c)))"

text \<open>The host of \<open>net.SplitHostPort\<close>, empty on an error.\<close>

definition split_host :: "string \<Rightarrow> string" where
  "split_host hp =
     (let i = length hp - length (takeWhile (\<lambda>c. c \<noteq> CHR '':'') (rev hp)) - 1 in
      if CHR '':'' \<notin> set hp then []
      else if hd hp = CHR ''['' then
        (let inner = takeWhile (\<lambda>c. c \<noteq> CHR '']'') (tl hp); e = length inner + 1 in
         if CHR '']'' \<notin> set hp \<or> e + 1 \<noteq> i \<or> CHR ''['' \<in> set (tl hp) \<or> CHR '']'' \<in> set (drop (e + 1) hp) then [] else inner)
      else if CHR '':'' \<in> set (take i hp) \<or> CHR ''['' \<in> set hp \<or> CHR '']'' \<in> set hp then []
      else take i hp)"

definition smtp_Configure :: "notify_config \<Rightarrow> string + notify_service" where
  "smtp_Configure c =
     (if nc_smtp_host c = [] then Inl (''smtp: smtpHost is required (e.g. '' @ go_quote ''smtp.example.com:587'' @ '')'')
      else if nc_from c = [] then Inl ''smtp: from address is required''
      else Inr (Smtp_service (nc_from c) (nc_smtp_host c)
             (if nc_username c = [] then None else Some (nc_username c, nc_token c, split_host (nc_smtp_host c))) (nc_recipients c)))"

section \<open>The notifier\<close>

type_synonym adapter = "string \<times> (notify_config \<Rightarrow> string + notify_service)"

record notifier =
  nt_configs :: "(string, notify_config) gomap"
  nt_adapters :: "(string, notify_config \<Rightarrow> string + notify_service) gomap"
  nt_context :: notify_context
  nt_disabled :: bool
  nt_secrets :: "(string \<Rightarrow> string \<Rightarrow> secret_result) option"
  nt_pipeline_id :: string

definition zero_notify_context :: notify_context where
  "zero_notify_context =
     \<lparr>nx_pipeline_name = [], nx_job_name = [], nx_build_id = [], nx_status = [], nx_start_time = [], nx_end_time = [], nx_duration = [],
      nx_environment = None, nx_task_results = None\<rparr>"

definition NewNotifier :: "adapter list \<Rightarrow> notifier" where
  "NewNotifier adapters =
     \<lparr>nt_configs = [], nt_adapters = fold (\<lambda>(n, a). gm_set n a) adapters [], nt_context = zero_notify_context, nt_disabled = False,
      nt_secrets = None, nt_pipeline_id = []\<rparr>"

text \<open>Slim-sprig's functions, \<open>Parse\<close> with a set of functions, \<open>Execute\<close>, and the \<open>n\<close>-th call of a service.\<close>

record 't notify_lib =
  nl_functions :: "string list"
  nl_parse :: "string list \<Rightarrow> string \<Rightarrow> string + 't"
  nl_execute :: "'t \<Rightarrow> notify_context \<Rightarrow> string + string"
  nl_send :: "nat \<Rightarrow> notify_service \<Rightarrow> string \<Rightarrow> string \<Rightarrow> string option"

definition SetSecretsManager :: "(string \<Rightarrow> string \<Rightarrow> secret_result) option \<Rightarrow> string \<Rightarrow> notifier \<Rightarrow> notifier" where
  "SetSecretsManager mgr pipelineID n = n\<lparr>nt_secrets := mgr, nt_pipeline_id := pipelineID\<rparr>"

definition SetConfigs :: "(string, notify_config) gomap \<Rightarrow> notifier \<Rightarrow> notifier" where
  "SetConfigs configs n = n\<lparr>nt_configs := configs\<rparr>"

definition GetConfig :: "string \<Rightarrow> notifier \<Rightarrow> notify_config option" where
  "GetConfig name n = gm_get (nt_configs n) name"

definition SetContext :: "notify_context \<Rightarrow> notifier \<Rightarrow> notifier" where
  "SetContext cx n = n\<lparr>nt_context := cx\<rparr>"

definition UpdateContext :: "(notify_context \<Rightarrow> notify_context) \<Rightarrow> notifier \<Rightarrow> notifier" where
  "UpdateContext updates n = n\<lparr>nt_context := updates (nt_context n)\<rparr>"

text \<open>One field: its value, or the error with its name.\<close>

definition resolve_field :: "notifier \<Rightarrow> string \<Rightarrow> string \<Rightarrow> go_error + string" where
  "resolve_field n label v = map_sum (Wrapped label) fst (ResolveSecretString (nt_secrets n) (nt_pipeline_id n) v)"

fun resolve_headers :: "notifier \<Rightarrow> (string, string) gomap \<Rightarrow> go_error + (string, string) gomap" where
  "resolve_headers n [] = Inr []"
| "resolve_headers n ((k, v) # rest) =
     ebind (resolve_field n (''notification header '' @ go_quote k) v) (\<lambda>v'.
     ebind (resolve_headers n rest) (\<lambda>rest'. Inr ((k, v') # rest')))"

definition resolveConfigSecrets :: "notifier \<Rightarrow> notify_config \<Rightarrow> go_error + notify_config" where
  "resolveConfigSecrets n c =
     (let field = (\<lambda>name. resolve_field n (''notification field '' @ go_quote name)) in
      if nt_secrets n = None then Inr c
      else
        ebind (field ''token'' (nc_token c)) (\<lambda>token.
        ebind (field ''webhook'' (nc_webhook c)) (\<lambda>webhook.
        ebind (field ''url'' (nc_url c)) (\<lambda>url.
        ebind (field ''username'' (nc_username c)) (\<lambda>username.
        ebind (resolve_headers n (nc_headers c)) (\<lambda>headers.
          Inr (c\<lparr>nc_token := token, nc_webhook := webhook, nc_url := url, nc_headers := headers, nc_username := username\<rparr>)))))))"

definition safeFuncMap :: "'t notify_lib \<Rightarrow> string list" where
  "safeFuncMap nl = filter (\<lambda>f. f \<noteq> ''env'' \<and> f \<noteq> ''expandenv'') (nl_functions nl)"

definition RenderTemplate :: "'t notify_lib \<Rightarrow> string \<Rightarrow> notifier \<Rightarrow> go_error + string" where
  "RenderTemplate nl templateStr n =
     (case nl_parse nl (safeFuncMap nl) templateStr of
        Inl m \<Rightarrow> Inl (Wrapped ''could not parse template'' (Plain m))
      | Inr tmpl \<Rightarrow>
          (case nl_execute nl tmpl (nt_context n) of
             Inl m \<Rightarrow> Inl (Wrapped ''could not execute template'' (Plain m))
           | Inr t \<Rightarrow> Inr t))"

text \<open>The calls of a service so far, with the message: the newest last.\<close>

type_synonym sent = "(notify_service \<times> string) list"

definition notifier_Send :: "'t notify_lib \<Rightarrow> notifier \<Rightarrow> string \<Rightarrow> string \<Rightarrow> sent \<Rightarrow> go_error option \<times> sent" where
  "notifier_Send nl n name message sent =
     (if nt_disabled n then (Some (Plain ''notifications feature is not enabled''), sent)
      else
        (case gm_get (nt_configs n) name of
           None \<Rightarrow> (Some (Plain (''notification config '' @ go_quote name @ '' not found'')), sent)
         | Some config0 \<Rightarrow>
             (case resolveConfigSecrets n config0 of
                Inl e \<Rightarrow> (Some (Wrapped (''could not resolve secrets for notification '' @ go_quote name) e), sent)
              | Inr config \<Rightarrow>
                  (case RenderTemplate nl message n of
                     Inl e \<Rightarrow> (Some (Wrapped ''could not render message template'' e), sent)
                   | Inr rendered \<Rightarrow>
                       (case gm_get (nt_adapters n) (nc_type config) of
                          None \<Rightarrow> (Some (Plain (''unsupported notification type: '' @ nc_type config)), sent)
                        | Some configure \<Rightarrow>
                            (case configure config of
                               Inl m \<Rightarrow> (Some (Wrapped (''could not configure '' @ nc_type config @ '' service'') (Plain m)), sent)
                             | Inr service \<Rightarrow>
                                 (map_option (\<lambda>m. Wrapped ''could not send notification'' (Plain m))
                                    (nl_send nl (length sent) service ''Pipeline Notification'' rendered),
                                  sent @ [(service, rendered)])))))))"

section \<open>What scripts see of it\<close>

text \<open>\<open>None\<close> is an absent member of the input.\<close>

definition notify_Configure :: "(string, notify_config) gomap option \<Rightarrow> notify_context option \<Rightarrow> notifier \<Rightarrow> notifier" where
  "notify_Configure backends cx n =
     (let n1 = (case backends of None \<Rightarrow> n | Some b \<Rightarrow> SetConfigs b n) in
      case cx of None \<Rightarrow> n1 | Some c \<Rightarrow> SetContext c n1)"

definition or_new :: "string \<Rightarrow> string \<Rightarrow> string" where
  "or_new new old = (if new \<noteq> [] then new else old)"

definition partial_update :: "notify_context \<Rightarrow> notify_context \<Rightarrow> notify_context" where
  "partial_update p c =
     c\<lparr>nx_status := or_new (nx_status p) (nx_status c), nx_job_name := or_new (nx_job_name p) (nx_job_name c),
       nx_pipeline_name := or_new (nx_pipeline_name p) (nx_pipeline_name c), nx_build_id := or_new (nx_build_id p) (nx_build_id c),
       nx_end_time := or_new (nx_end_time p) (nx_end_time c), nx_duration := or_new (nx_duration p) (nx_duration c),
       nx_environment := (if nx_environment p \<noteq> None then nx_environment p else nx_environment c),
       nx_task_results := (if nx_task_results p \<noteq> None then nx_task_results p else nx_task_results c)\<rparr>"

definition runtime_UpdateContext :: "notify_context \<Rightarrow> notifier \<Rightarrow> notifier" where
  "runtime_UpdateContext p = UpdateContext (partial_update p)"

definition UpdateStatus :: "string \<Rightarrow> notifier \<Rightarrow> notifier" where
  "UpdateStatus status = UpdateContext (\<lambda>c. c\<lparr>nx_status := status\<rparr>)"

definition UpdateJobName :: "string \<Rightarrow> notifier \<Rightarrow> notifier" where
  "UpdateJobName jobName = UpdateContext (\<lambda>c. c\<lparr>nx_job_name := jobName\<rparr>)"

text \<open>How a promise of \<open>send\<close> and \<open>sendMultiple\<close> ends, given the notifier when the message goes out: \<open>Inl\<close> is a rejection with
  the text of the result.\<close>

definition runtime_Send :: "'t notify_lib \<Rightarrow> notifier \<Rightarrow> string \<Rightarrow> string \<Rightarrow> bool \<Rightarrow> sent \<Rightarrow> (string + unit) \<times> sent" where
  "runtime_Send nl n name message async sent =
     (case notifier_Send nl n name message sent of
        (err, sent') \<Rightarrow> (if async then Inr () else case err of None \<Rightarrow> Inr () | Some e \<Rightarrow> Inl (error_text e), sent'))"

fun send_each :: "'t notify_lib \<Rightarrow> notifier \<Rightarrow> string \<Rightarrow> string list \<Rightarrow> sent \<Rightarrow> nat \<times> sent" where
  "send_each nl n message [] sent = (0, sent)"
| "send_each nl n message (name # names) sent =
     (let (err, sent1) = notifier_Send nl n name message sent; (k, sent2) = send_each nl n message names sent1
      in (if err = None then k else Suc k, sent2))"

definition SendMultiple ::
  "'t notify_lib \<Rightarrow> notifier \<Rightarrow> string list \<Rightarrow> string \<Rightarrow> bool \<Rightarrow> sent \<Rightarrow> (string + unit) \<times> sent" where
  "SendMultiple nl n names message async sent =
     (let (k, sent') = send_each nl n message names sent in
      (if k > 0 \<and> \<not> async then Inl (itoa (int k) @ '' notification(s) failed'') else Inr (), sent'))"

section \<open>The context of a leaf step\<close>

text \<open>Beside what a task changes: the cache volumes that were restored, the notifier that the jobs of the run share (\<open>None\<close> is
  \<open>nil\<close>), the notifications of detached goroutines that have not been sent, the calls of the services, and what the runner keeps.\<close>

record 'r leaf_world =
  lw_task :: task_world
  lw_restored :: "string list"
  lw_notifier :: "notifier option"
  lw_detached :: "(string \<times> string) list"
  lw_sent :: sent
  lw_runner :: 'r

type_synonym 'r leaf_ctx = "'r leaf_world step_ctx"
type_synonym 'r leaf_env = "'r leaf_world step_env"

definition on_task :: "(task_world \<Rightarrow> task_world) \<Rightarrow> 'r leaf_ctx \<Rightarrow> 'r leaf_ctx" where
  "on_task f sc = sc\<lparr>sc_world := (sc_world sc)\<lparr>lw_task := f (lw_task (sc_world sc))\<rparr>\<rparr>"

definition on_notifier :: "(notifier \<Rightarrow> notifier) \<Rightarrow> 'r leaf_ctx \<Rightarrow> 'r leaf_ctx" where
  "on_notifier f sc = sc\<lparr>sc_world := (sc_world sc)\<lparr>lw_notifier := map_option f (lw_notifier (sc_world sc))\<rparr>\<rparr>"

definition with_sent :: "sent \<Rightarrow> 'r leaf_ctx \<Rightarrow> 'r leaf_ctx" where
  "with_sent sent sc = sc\<lparr>sc_world := (sc_world sc)\<lparr>lw_sent := sent\<rparr>\<rparr>"

section \<open>notify\<close>

definition initNotifier :: "(string, notify_config) gomap \<Rightarrow> string list \<Rightarrow> string \<Rightarrow> string \<Rightarrow> notifier option \<Rightarrow> notifier option" where
  "initNotifier configs jobNames runID now notifier =
     map_option (\<lambda>n.
       SetContext (zero_notify_context\<lparr>nx_pipeline_name := (case jobNames of [] \<Rightarrow> ''unknown'' | j # _ \<Rightarrow> j), nx_build_id := runID,
           nx_status := ''pending'', nx_start_time := now, nx_environment := Some [], nx_task_results := Some []\<rparr>)
         (if configs \<noteq> [] then SetConfigs configs n else n)) notifier"

fun send_until_error :: "'t notify_lib \<Rightarrow> notifier \<Rightarrow> string \<Rightarrow> string list \<Rightarrow> sent \<Rightarrow> go_error option \<times> sent" where
  "send_until_error nl n message [] sent = (None, sent)"
| "send_until_error nl n message (name # names) sent =
     (case notifier_Send nl n name message sent of
        (Some e, sent') \<Rightarrow> (Some e, sent')
      | (None, sent') \<Rightarrow> send_until_error nl n message names sent')"

definition notify_key :: "'r leaf_env \<Rightarrow> step \<Rightarrow> string \<Rightarrow> string" where
  "notify_key env step pathPrefix = BaseStorageKey env @ ''/'' @ pathPrefix @ ''/notify/'' @ notifyIdentifier step"

definition notify_message :: "task_driver \<Rightarrow> step \<Rightarrow> 'r leaf_ctx \<Rightarrow> string + string" where
  "notify_message d step sc =
     (if sf_message_file (sfields step) \<noteq> []
      then loadRawBytesFromVolume d (tw_known_volumes (lw_task (sc_world sc))) (sf_message_file (sfields step))
      else Inr (sf_message (sfields step)))"

text \<open>The sends: detached goroutines, or one after the other up to the first error.\<close>

definition send_step :: "'t notify_lib \<Rightarrow> step \<Rightarrow> notifier \<Rightarrow> string \<Rightarrow> 'r leaf_ctx \<Rightarrow> go_error option \<times> 'r leaf_ctx" where
  "send_step nl step n message sc =
     (if sf_async (sfields step)
      then (None, sc\<lparr>sc_world := (sc_world sc)\<lparr>lw_detached := lw_detached (sc_world sc) @ map (\<lambda>name. (name, message)) (NotifyNames step)\<rparr>\<rparr>)
      else (let (err, sent) = send_until_error nl n message (NotifyNames step) (lw_sent (sc_world sc)) in (err, with_sent sent sc)))"

definition NotifyHandler :: "'r leaf_env \<Rightarrow> task_driver \<Rightarrow> 't notify_lib \<Rightarrow> 'r leaf_world runner" where
  "NotifyHandler env d nl step pathPrefix sc =
     (let key = notify_key env step pathPrefix;
          failed = (\<lambda>sc. (Some (TaskFailed (''notify/'' @ notifyIdentifier step) 1), set_drop env key (status_payload ''failure'') sc))
      in (case storage_set env key (status_payload ''pending'') sc of
            (Some e, sc1) \<Rightarrow> (Some (Wrapped ''storage set pending'' e), sc1)
          | (None, sc1) \<Rightarrow>
              (let sc2 = on_notifier (UpdateContext (\<lambda>c. c\<lparr>nx_job_name := env_job_name env, nx_status := ''running''\<rparr>)) sc1 in
               case lw_notifier (sc_world sc2) of
                 None \<Rightarrow> failed sc1
               | Some n \<Rightarrow>
                   (case notify_message d step sc2 of
                      Inl _ \<Rightarrow> failed sc2
                    | Inr message \<Rightarrow>
                        (let (sendErr, sc3) = send_step nl step n message sc2;
                             sc4 = set_drop env key (status_payload (statusFromErr sendErr)) sc3
                         in (if sendErr = None then None else Some (TaskFailed (''notify/'' @ notifyIdentifier step) 1), sc4))))))"

text \<open>A detached goroutine runs: it sends with the notifier of that moment, and an error is only logged.\<close>

definition run_detached :: "'t notify_lib \<Rightarrow> 'r leaf_ctx \<Rightarrow> 'r leaf_ctx" where
  "run_detached nl sc =
     (case (lw_detached (sc_world sc), lw_notifier (sc_world sc)) of
        ((name, message) # rest, Some n) \<Rightarrow>
          with_sent (snd (notifier_Send nl n name message (lw_sent (sc_world sc)))) (sc\<lparr>sc_world := (sc_world sc)\<lparr>lw_detached := rest\<rparr>\<rparr>)
      | _ \<Rightarrow> sc)"

section \<open>Caches\<close>

definition restore_cache ::
  "'r leaf_ctx any_runner \<Rightarrow> cache_ctx \<Rightarrow> string \<Rightarrow> string \<Rightarrow> 'r leaf_ctx \<Rightarrow> 'r leaf_ctx option" where
  "restore_cache run cc volName pathPrefix sc =
     map_option (\<lambda>(restored, sc'). sc'\<lparr>sc_world := (sc_world sc')\<lparr>lw_restored := restored\<rparr>\<rparr>)
       (runCacheRestoreTask run cc volName pathPrefix (lw_restored (sc_world sc), sc))"

text \<open>\<open>None\<close> is a runner that does not return.\<close>

fun resolve_caches ::
  "task_driver \<Rightarrow> 'r leaf_ctx any_runner \<Rightarrow> cache_ctx \<Rightarrow> string \<Rightarrow> string \<Rightarrow> cache list \<Rightarrow> 'r leaf_ctx
   \<Rightarrow> (mount list \<times> 'r leaf_ctx) option" where
  "resolve_caches d run cc taskName pathPrefix [] sc = Some ([], sc)"
| "resolve_caches d run cc taskName pathPrefix (c # cs) sc =
     (let mnt = (\<lambda>vol. \<lparr>mt_name = vol, mt_path = cache_path c, mt_size_gb = cache_size_gb c\<rparr>);
          rest = (\<lambda>vol sc. map_option (\<lambda>(ms, sc'). (mnt vol # ms, sc')) (resolve_caches d run cc taskName pathPrefix cs sc))
      in (case gm_get (tw_cache_volumes (lw_task (sc_world sc))) (cache_lookup_key taskName c) of
            Some vol \<Rightarrow> rest vol sc
          | None \<Rightarrow>
              (let vol = cache_volume_name taskName c; sc1 = on_task (bind_cache d taskName c) sc in
               if td_create_volume d vol (cache_size_gb c) \<noteq> None then rest vol sc1
               else (case restore_cache run cc vol pathPrefix sc1 of None \<Rightarrow> None | Some sc2 \<Rightarrow> rest vol sc2))))"

section \<open>build\_image\<close>

definition fraction :: "nat \<Rightarrow> nat \<Rightarrow> string" where
  "fraction v prec =
     (let r = itoa (int (v mod 10 ^ prec));
          digits = rev (dropWhile (\<lambda>c. c = CHR ''0'') (rev (replicate (prec - length r) (CHR ''0'') @ r)))
      in if digits = [] then [] else CHR ''.'' # digits)"

text \<open>\<open>time.Duration.String\<close>.\<close>

definition Duration_String :: "int \<Rightarrow> string" where
  "Duration_String d =
     (let u = nat \<bar>d\<bar>; s = u div 10 ^ 9 in
      if u = 0 then ''0s''
      else (if d < 0 then ''-'' else []) @
        (if u < 1000 then itoa (int u) @ ''ns''
         else if u < 10 ^ 6 then itoa (int (u div 1000)) @ fraction u 3 @ [CHR 0xC2, CHR 0xB5, CHR ''s'']
         else if u < 10 ^ 9 then itoa (int (u div 10 ^ 6)) @ fraction u 6 @ ''ms''
         else (if s \<ge> 3600 then itoa (int (s div 3600)) @ ''h'' else []) @
              (if s \<ge> 60 then itoa (int (s div 60 mod 60)) @ ''m'' else []) @ itoa (int (s mod 60)) @ fraction u 9 @ ''s''))"

definition buildImageRegistryFromConfig :: "build_image_registry option \<Rightarrow> registry_auth option" where
  "buildImageRegistryFromConfig reg =
     map_option (\<lambda>r. \<lparr>ra_registry = reg_hostname r, ra_username = reg_username r, ra_password = reg_password r, ra_insecure = reg_insecure r\<rparr>) reg"

definition mountsToVolumeResults :: "mount list \<Rightarrow> (string, volume_result) gomap" where
  "mountsToVolumeResults mounts = fold (\<lambda>m. gm_set (mt_path m) \<lparr>vr_name = mt_name m, vr_path = mt_path m\<rparr>) mounts []"

definition build_image_request ::
  "cache_ctx \<Rightarrow> build_image_config \<Rightarrow> string \<Rightarrow> string \<Rightarrow> mount list \<Rightarrow> mount list \<Rightarrow> (string, string) gomap \<Rightarrow> build_image_input" where
  "build_image_request cc cfg name key inputMounts cacheMounts env =
     (let limits = BuildImageEffectiveLimits cfg in
      build_image_input.make name (build_image_config.bi_context cfg) (build_image_config.bi_dockerfile cfg)
        (build_image_config.bi_tag cfg) (build_image_config.bi_push cfg) (build_image_config.bi_build_args cfg)
        (build_image_config.bi_target cfg) (build_image_config.bi_platforms cfg) (build_image_config.bi_image cfg)
        (mountsToVolumeResults inputMounts) (mountsToVolumeResults cacheMounts) env
        (buildImageRegistryFromConfig (build_image_config.bi_registry cfg))
        (if build_image_config.bi_timeout cfg > 0 then Duration_String (build_image_config.bi_timeout cfg) else [])
        \<lparr>cl_cpu = lim_cpu limits, cl_cpu_kind = lim_cpu_kind limits, cl_memory = lim_memory limits\<rparr> (cc_output cc) key)"

text \<open>The mounts: inputs, then caches with their restore tasks.\<close>

definition build_mounts ::
  "'r leaf_env \<Rightarrow> task_driver \<Rightarrow> 'r leaf_ctx any_runner \<Rightarrow> cache_ctx \<Rightarrow> build_image_config \<Rightarrow> string \<Rightarrow> string \<Rightarrow> 'r leaf_ctx
   \<Rightarrow> (mount list \<times> mount list \<times> 'r leaf_ctx) option" where
  "build_mounts env d run cc cfg name pathPrefix sc =
     (let (ins, w) = mount_volumes (env_run_id env) (map (\<lambda>x. (in_name x, in_size_gb x)) (build_image_config.bi_inputs cfg))
                       (lw_task (sc_world sc))
      in map_option (Pair ins) (resolve_caches d run cc name pathPrefix (build_image_config.bi_caches cfg) (on_task (\<lambda>_. w) sc)))"

definition build_key :: "'r leaf_env \<Rightarrow> build_image_config \<Rightarrow> string \<Rightarrow> string" where
  "build_key env cfg pathPrefix = BaseStorageKey env @ ''/'' @ pathPrefix @ ''/build_image/'' @ buildImageStepName (Some cfg)"

definition leaf_tick :: "task_driver \<Rightarrow> 'r leaf_ctx \<Rightarrow> string \<times> 'r leaf_ctx" where
  "leaf_tick d sc = (td_clock d (tw_time (lw_task (sc_world sc))), on_task (\<lambda>w. w\<lparr>tw_time := tw_time w + 1\<rparr>) sc)"

text \<open>After the mounts: the pending row, the secrets, the build, the final row.\<close>

definition run_build ::
  "'r leaf_env \<Rightarrow> task_driver \<Rightarrow> 'r leaf_ctx any_runner \<Rightarrow> (string \<Rightarrow> json option) \<Rightarrow> cache_ctx \<Rightarrow> build_image_config \<Rightarrow> string
   \<Rightarrow> mount list \<Rightarrow> mount list \<Rightarrow> 'r leaf_ctx \<Rightarrow> 'r leaf_world outcome option" where
  "run_build env d run unmarshal cc cfg pathPrefix ins caches sc =
     (let name = buildImageStepName (Some cfg); key = build_key env cfg pathPrefix; (startedAt, sc1) = leaf_tick d sc;
          start = (''started_at'', JStr startedAt)
      in case storage_set env key (JObj [(''status'', JStr ''pending''), start]) sc1 of
           (Some e, sc2) \<Rightarrow> Some (Some (Wrapped ''storage set pending'' e), sc2)
         | (None, sc2) \<Rightarrow>
             (case resolveEnvSecrets d name (Some (build_image_config.bi_env cfg)) of
                Inl e \<Rightarrow> Some (Some (TaskErrored name (Some e)), set_drop env key (status_payload ''failure'') sc2)
              | Inr vars \<Rightarrow>
                  (case BuildImage run unmarshal (build_image_request cc cfg name key ins caches (cloneEnv vars)) sc2 of
                     None \<Rightarrow> None
                   | Some (result, runErr, sc3) \<Rightarrow>
                       (let row = [(''status'', JStr (if runErr = None then ''success'' else ''failure'')), start,
                              (''elapsed'', JStr (td_elapsed d (tw_time (lw_task (sc_world sc3))))),
                              (''tag'', JStr (build_image_config.bi_tag cfg))] @
                              (case result of None \<Rightarrow> [] | Some r \<Rightarrow> [(''digest'', JStr (br_digest r))])
                        in Some (if runErr = None then None else Some (TaskFailed name 1), set_drop env key (JObj row) sc3)))))"

definition BuildImageHandler ::
  "'r leaf_env \<Rightarrow> task_driver \<Rightarrow> 'r leaf_ctx any_runner \<Rightarrow> (string \<Rightarrow> json option) \<Rightarrow> cache_ctx \<Rightarrow> step \<Rightarrow> string \<Rightarrow> 'r leaf_ctx
   \<Rightarrow> 'r leaf_world outcome option" where
  "BuildImageHandler env d run unmarshal cc step pathPrefix sc =
     (let refuse = (\<lambda>m. Some (Some (TaskErrored ''build_image'' (Some (Plain m))), sc)) in
      case sf_build_image (sfields step) of
        None \<Rightarrow> Some (Some (Plain ''build_image: missing config''), sc)
      | Some cfg \<Rightarrow>
          if build_image_config.bi_tag cfg = [] then refuse ''tag is required''
          else if build_image_config.bi_context cfg = [] then refuse ''context is required''
          else
            (let name = buildImageStepName (Some cfg) in
             case build_mounts env d run cc cfg name pathPrefix (appendExecutedTask name sc) of
               None \<Rightarrow> None
             | Some (ins, caches, sc1) \<Rightarrow> run_build env d run unmarshal cc cfg pathPrefix ins caches sc1))"

section \<open>The rows tell the outcome\<close>

lemma set_drop_recorded:
  assumes "sets_ok env"
  shows "recorded_status env key (set_drop env key (JObj ((''status'', JStr v) # rest)) sc) = Some v"
  by (auto simp: set_drop_def set_ok [OF assms] recorded_status_def find_task_Set new_task_def merge_task_def
      json_extract_def column_text_def coalesce_def gm_get_def split: option.splits)

lemma set_drop_status_recorded: "sets_ok env \<Longrightarrow> recorded_status env key (set_drop env key (status_payload v) sc) = Some v"
  using set_drop_recorded [of env key v "[]" sc] by (simp add: status_payload_def)

definition leaf_status :: "go_error option \<Rightarrow> string" where
  "leaf_status err = (if err = None then ''success'' else ''failure'')"

lemma NotifyHandler_row:
  assumes "sets_ok env"
  shows "recorded_status env (notify_key env step p) (snd (NotifyHandler env d nl step p sc)) = Some (leaf_status (fst (NotifyHandler env d nl step p sc)))"
  by (simp add: NotifyHandler_def Let_def set_ok [OF assms] set_drop_status_recorded [OF assms] leaf_status_def statusFromErr_def
      split: option.split sum.split prod.split)

lemma run_build_row:
  assumes "sets_ok env" and "run_build env d run u cc cfg p ins caches sc = Some (err, sc')"
  shows "recorded_status env (build_key env cfg p) sc' = Some (leaf_status err)"
  using assms(2)
  by (auto simp: run_build_def Let_def leaf_tick_def set_ok [OF assms(1)] set_drop_status_recorded [OF assms(1)]
      set_drop_recorded [OF assms(1)] leaf_status_def split: sum.splits option.splits prod.splits if_splits)

text \<open>The row of a \<open>notify\<close> or \<open>build_image\<close> step that has returned tells its outcome: \<open>success\<close> exactly if it returned no error. A
  \<open>build_image\<close> without a tag or context has no row.\<close>

theorem leaf_row_is_outcome:
  assumes "sets_ok env" and "sf_build_image (sfields step) = Some cfg" and "build_image_config.bi_tag cfg \<noteq> []"
    and "build_image_config.bi_context cfg \<noteq> []" and "BuildImageHandler env d run u cc step p sc = Some (err, sc')"
  shows "recorded_status env (build_key env cfg p) sc' = Some (leaf_status err) \<and>
    recorded_status env (notify_key env step p) (snd (NotifyHandler env d nl step p sc)) = Some (leaf_status (fst (NotifyHandler env d nl step p sc)))"
proof
  obtain ins caches sc1 where "run_build env d run u cc cfg p ins caches sc1 = Some (err, sc')"
    using assms(2-5) by (auto simp: BuildImageHandler_def Let_def split: option.splits)
  then show "recorded_status env (build_key env cfg p) sc' = Some (leaf_status err)" by (rule run_build_row [OF assms(1)])
qed (rule NotifyHandler_row [OF assms(1)])

section \<open>When a build passes\<close>

lemma BuildImage_passes_iff:
  assumes "BuildImage run u inp st = Some (result, runErr, st')"
  shows "runErr = None \<longleftrightarrow> validateBuildImageInput inp = None \<and>
    (\<exists>res st'. run (buildImageRunInput inp) st = Some (Inr res, st') \<and> (res_status res = RunAbort \<or> res_code res = 0))"
  using assms by (auto simp: BuildImage_def Let_def split: option.splits sum.splits if_splits)

definition begin_build :: "'r leaf_env \<Rightarrow> task_driver \<Rightarrow> build_image_config \<Rightarrow> string \<Rightarrow> 'r leaf_ctx \<Rightarrow> 'r leaf_ctx" where
  "begin_build env d cfg p sc =
     snd (storage_set env (build_key env cfg p) (JObj [(''status'', JStr ''pending''), (''started_at'', JStr (fst (leaf_tick d sc)))])
       (snd (leaf_tick d sc)))"

lemma run_build_cases:
  assumes "sets_ok env" and "run_build env d run u cc cfg p ins caches sc = Some (err, sc')"
  shows "(\<exists>e. resolveEnvSecrets d (buildImageStepName (Some cfg)) (Some (build_image_config.bi_env cfg)) = Inl e \<and> err \<noteq> None) \<or>
    (\<exists>vars result runErr st'. resolveEnvSecrets d (buildImageStepName (Some cfg)) (Some (build_image_config.bi_env cfg)) = Inr vars \<and>
       BuildImage run u (build_image_request cc cfg (buildImageStepName (Some cfg)) (build_key env cfg p) ins caches (cloneEnv vars))
         (begin_build env d cfg p sc) = Some (result, runErr, st') \<and> (err = None \<longleftrightarrow> runErr = None))"
proof (cases "resolveEnvSecrets d (buildImageStepName (Some cfg)) (Some (build_image_config.bi_env cfg))")
  case (Inl e)
  with assms(2) show ?thesis by (auto simp: run_build_def Let_def set_ok [OF assms(1)] leaf_tick_def)
next
  case (Inr vars)
  let ?inp = "build_image_request cc cfg (buildImageStepName (Some cfg)) (build_key env cfg p) ins caches (cloneEnv vars)"
  obtain result runErr st' where b: "BuildImage run u ?inp (begin_build env d cfg p sc) = Some (result, runErr, st')"
    using assms(2) Inr
    by (auto simp: run_build_def Let_def set_ok [OF assms(1)] leaf_tick_def begin_build_def split: option.splits)
  then have "err = None \<longleftrightarrow> runErr = None"
    using assms(2) Inr by (auto simp: run_build_def Let_def set_ok [OF assms(1)] leaf_tick_def begin_build_def split: if_splits)
  with b Inr show ?thesis by blast
qed

definition build_request_of where
  "build_request_of env cc cfg p ins caches vars =
     build_image_request cc cfg (buildImageStepName (Some cfg)) (build_key env cfg p) ins caches (cloneEnv vars)"

lemma run_build_passes_iff:
  assumes "sets_ok env" and "run_build env d run u cc cfg p ins caches sc = Some (err, sc')"
  shows "err = None \<longleftrightarrow>
    (\<exists>vars res st'. resolveEnvSecrets d (buildImageStepName (Some cfg)) (Some (build_image_config.bi_env cfg)) = Inr vars \<and>
       validateBuildImageInput (build_request_of env cc cfg p ins caches vars) = None \<and>
       run (buildImageRunInput (build_request_of env cc cfg p ins caches vars)) (begin_build env d cfg p sc) = Some (Inr res, st') \<and>
       (res_status res = RunAbort \<or> res_code res = 0))"
  using run_build_cases [OF assms]
proof (elim disjE exE conjE)
  fix vars result runErr st'
  assume v: "resolveEnvSecrets d (buildImageStepName (Some cfg)) (Some (build_image_config.bi_env cfg)) = Inr vars"
    and b: "BuildImage run u (build_image_request cc cfg (buildImageStepName (Some cfg)) (build_key env cfg p) ins caches (cloneEnv vars))
         (begin_build env d cfg p sc) = Some (result, runErr, st')" and e: "(err = None) = (runErr = None)"
  show ?thesis using v e BuildImage_passes_iff [OF b] by (simp add: build_request_of_def)
qed simp

text \<open>A \<open>build_image\<close> step with a tag and a context passes exactly if its environment could be resolved, its request is well-formed, and the
  container of the build was aborted or exited with code 0. So a build that runs into its timeout passes.\<close>

theorem build_passes_iff:
  assumes "sets_ok env" and "sf_build_image (sfields step) = Some cfg" and "build_image_config.bi_tag cfg \<noteq> []"
    and "build_image_config.bi_context cfg \<noteq> []"
    and "build_mounts env d run cc cfg (buildImageStepName (Some cfg)) p (appendExecutedTask (buildImageStepName (Some cfg)) sc) = Some (ins, caches, sc1)"
    and "BuildImageHandler env d run u cc step p sc = Some (err, sc')"
  shows "err = None \<longleftrightarrow>
    (\<exists>vars res st'. resolveEnvSecrets d (buildImageStepName (Some cfg)) (Some (build_image_config.bi_env cfg)) = Inr vars \<and>
       validateBuildImageInput (build_request_of env cc cfg p ins caches vars) = None \<and>
       run (buildImageRunInput (build_request_of env cc cfg p ins caches vars)) (begin_build env d cfg p sc1) = Some (Inr res, st') \<and>
       (res_status res = RunAbort \<or> res_code res = 0))"
proof -
  have "run_build env d run u cc cfg p ins caches sc1 = Some (err, sc')"
    using assms(2-6) by (simp add: BuildImageHandler_def Let_def)
  from run_build_passes_iff [OF assms(1) this] show ?thesis .
qed

section \<open>Caches without S3\<close>

text \<open>Without S3, mounting caches is what a task does.\<close>

lemma resolve_caches_without_s3:
  assumes "cc_s3 cc = None"
  shows "resolve_caches d run cc taskName p cs sc =
    Some (fst (resolveCaches d taskName cs (lw_task (sc_world sc))), on_task (\<lambda>_. snd (resolveCaches d taskName cs (lw_task (sc_world sc)))) sc)"
proof (induction cs arbitrary: sc)
  case Nil
  show ?case by (simp add: on_task_def)
next
  case (Cons c cs)
  have restore: "restore_cache run cc v p st = Some st" for v st
    using assms by (simp add: restore_cache_def runCacheRestoreTask_def)
  show ?case
    by (cases "gm_get (tw_cache_volumes (lw_task (sc_world sc))) (cache_lookup_key taskName c)")
      (auto simp: Cons.IH restore on_task_def Let_def split: prod.split)
qed

section \<open>Notifications\<close>

lemma notifier_Send_cases:
  assumes "notifier_Send nl n name message sent = (err, sent')"
  shows "(sent' = sent \<and> err \<noteq> None) \<or>
    (\<exists>c c' configure service body. gm_get (nt_configs n) name = Some c \<and> resolveConfigSecrets n c = Inr c' \<and>
       RenderTemplate nl message n = Inr body \<and> gm_get (nt_adapters n) (nc_type c') = Some configure \<and> configure c' = Inr service \<and>
       sent' = sent @ [(service, body)])"
  using assms by (auto simp: notifier_Send_def split: if_splits option.splits sum.splits)

definition secret_free :: "(string \<Rightarrow> string \<Rightarrow> secret_result) \<Rightarrow> string \<Rightarrow> string \<Rightarrow> string \<Rightarrow> bool" where
  "secret_free get pid old new \<longleftrightarrow>
     (if HasPrefix old SecretPrefix
      then (\<exists>scope. scope \<in> {PipelineScope pid, GlobalScope} \<and> get scope (TrimPrefix old SecretPrefix) = Secret new)
      else new = old)"

lemma resolve_field_ok:
  assumes "nt_secrets n = Some get" and "resolve_field n label v = Inr v'"
  shows "secret_free get (nt_pipeline_id n) v v'"
  using assms
  by (auto simp: resolve_field_def ResolveSecretString_def secret_free_def Let_def map_sum_def split: sum.splits if_splits secret_result.splits)

lemma resolve_headers_ok:
  assumes "nt_secrets n = Some get" and "resolve_headers n hs = Inr hs'"
  shows "list_all2 (\<lambda>(k, v) (k', v'). k' = k \<and> secret_free get (nt_pipeline_id n) v v') hs hs'"
  using assms(2)
proof (induction hs arbitrary: hs')
  case (Cons h hs)
  then show ?case using resolve_field_ok [OF assms(1)] by (cases h) (auto simp: ebind_def split: sum.splits)
qed simp

text \<open>When a notification goes out, the service was configured with the stored configuration in which every documented field with a
  reference to a secret holds the secret's value from the pipeline's or the global scope; all other fields are as stored, and
  the stored configuration keeps its references.\<close>

theorem notification_secrets_resolved:
  assumes "nt_secrets n = Some get" and "notifier_Send nl n name message sent = (err, sent')" and "sent' \<noteq> sent"
  shows "\<exists>c c' configure service body.
    gm_get (nt_configs n) name = Some c \<and> gm_get (nt_adapters n) (nc_type c) = Some configure \<and> configure c' = Inr service \<and>
    sent' = sent @ [(service, body)] \<and> (\<forall>f\<in>{nc_token, nc_webhook, nc_url, nc_username}. secret_free get (nt_pipeline_id n) (f c) (f c')) \<and>
    list_all2 (\<lambda>(k, v) (k', v'). k' = k \<and> secret_free get (nt_pipeline_id n) v v') (nc_headers c) (nc_headers c') \<and>
    c' = c\<lparr>nc_token := nc_token c', nc_webhook := nc_webhook c', nc_url := nc_url c', nc_headers := nc_headers c', nc_username := nc_username c'\<rparr>"
proof -
  from notifier_Send_cases [OF assms(2)] assms(3)
  obtain c c' configure service body where c: "gm_get (nt_configs n) name = Some c" and r: "resolveConfigSecrets n c = Inr c'"
    and a: "gm_get (nt_adapters n) (nc_type c') = Some configure" "configure c' = Inr service" "sent' = sent @ [(service, body)]"
    by blast
  from r assms(1) obtain tok wh url un hs where f: "resolve_field n (''notification field '' @ go_quote ''token'') (nc_token c) = Inr tok"
      "resolve_field n (''notification field '' @ go_quote ''webhook'') (nc_webhook c) = Inr wh"
      "resolve_field n (''notification field '' @ go_quote ''url'') (nc_url c) = Inr url"
      "resolve_field n (''notification field '' @ go_quote ''username'') (nc_username c) = Inr un" "resolve_headers n (nc_headers c) = Inr hs"
    and c': "c' = c\<lparr>nc_token := tok, nc_webhook := wh, nc_url := url, nc_headers := hs, nc_username := un\<rparr>"
    by (auto simp: resolveConfigSecrets_def Let_def ebind_def split: sum.splits)
  have "\<forall>f\<in>{nc_token, nc_webhook, nc_url, nc_username}. secret_free get (nt_pipeline_id n) (f c) (f c')"
    using f(1-4) [THEN resolve_field_ok [OF assms(1)]] by (simp add: c')
  moreover have "list_all2 (\<lambda>(k, v) (k', v'). k' = k \<and> secret_free get (nt_pipeline_id n) v v') (nc_headers c) (nc_headers c')"
    using resolve_headers_ok [OF assms(1) f(5)] by (simp add: c')
  ultimately show ?thesis using c a by (intro exI [of _ c] exI [of _ c'] exI [of _ configure] exI [of _ service] exI [of _ body]) (simp add: c')
qed

text \<open>A step that waits for its notifications makes one call for each name, in order, unless one fails.\<close>

lemma send_until_error_all:
  "send_until_error nl n message names sent = (None, sent') \<Longrightarrow> length sent' = length sent + length names"
proof (induction names arbitrary: sent)
  case (Cons name names)
  then obtain sent1 where s: "notifier_Send nl n name message sent = (None, sent1)"
    and r: "send_until_error nl n message names sent1 = (None, sent')" by (auto split: prod.splits option.splits)
  from notifier_Send_cases [OF s] Cons.IH [OF r] show ?case by auto
qed simp

text \<open>Without a notifier every \<open>notify\<close> step fails, and nothing is sent.\<close>

lemma notify_needs_notifier:
  assumes "sets_ok env" and "lw_notifier (sc_world sc) = None"
  shows "fst (NotifyHandler env d nl step p sc) = Some (TaskFailed (''notify/'' @ notifyIdentifier step) 1) \<and>
    lw_sent (sc_world (snd (NotifyHandler env d nl step p sc))) = lw_sent (sc_world sc)"
  using assms by (simp add: NotifyHandler_def Let_def set_ok on_notifier_def set_drop_def)

text \<open>A detached notification is rendered with the context of the moment in which it is sent.\<close>

lemma detached_renders_later:
  assumes "lw_detached (sc_world sc) = (name, message) # rest" and "lw_notifier (sc_world sc) = Some n"
  shows "run_detached nl (on_notifier (UpdateContext f) sc) =
    with_sent (snd (notifier_Send nl (n\<lparr>nt_context := f (nt_context n)\<rparr>) name message (lw_sent (sc_world sc))))
      (on_notifier (UpdateContext f) sc\<lparr>sc_world := (sc_world (on_notifier (UpdateContext f) sc))\<lparr>lw_detached := rest\<rparr>\<rparr>)"
  using assms by (simp add: run_detached_def on_notifier_def UpdateContext_def)

text \<open>A partial update drops the start time.\<close>

lemma start_time_not_updated: "nx_start_time (partial_update p c) = nx_start_time c"
  by (simp add: partial_update_def)

section \<open>Samples\<close>

definition sample_build_config :: build_image_config where
  "sample_build_config =
     build_image_config.make ''img'' ''repo'' [] ''reg.io/a:1'' True [] [] [] [] [] [] [] None 0 zero_limits zero_limits"

definition sample_build_step :: step where
  "sample_build_step = leaf_step (zero_fields\<lparr>sf_build_image := Some sample_build_config\<rparr>)"

definition sample_leaf_env :: "unit leaf_env" where
  "sample_leaf_env = \<lparr>env_namespace = [], env_run_id = ''r'', env_job_name = ''j'', env_max_in_flight = 0,
     env_job_params = [], env_set_fails = (\<lambda>_. None), env_ctx_done = (\<lambda>_. False), env_pick = (\<lambda>_ _. None),
     env_handlers = (\<lambda>_. None)\<rparr>"

definition sample_leaf_ctx :: "unit leaf_ctx" where
  "sample_leaf_ctx = \<lparr>sc_executed = [], sc_preregistered = [], sc_failure_count = 0, sc_last_failure = FailureKindNone,
     sc_store = empty_db, sc_sets = 0,
     sc_world = \<lparr>lw_task = empty_world, lw_restored = [], lw_notifier = None, lw_detached = [], lw_sent = [], lw_runner = ()\<rparr>\<rparr>"

definition sample_cache_ctx :: cache_ctx where
  "sample_cache_ctx = \<lparr>cc_s3 = None, cc_run_id = ''r'', cc_pipeline_id = ''p'', cc_job_name = ''j'', cc_output = None\<rparr>"

text \<open>A runner whose container is aborted.\<close>

definition aborting_runner :: "unit leaf_ctx any_runner" where
  "aborting_runner inp sc = Some (Inr aborted_result, sc)"

lemma sample_build:
  "sets_ok sample_leaf_env" "sf_build_image (sfields sample_build_step) = Some sample_build_config"
  "build_image_config.bi_tag sample_build_config = ''reg.io/a:1''" "build_image_config.bi_context sample_build_config = ''repo''"
  by (simp_all add: sample_leaf_env_def sample_build_step_def leaf_step_def sample_build_config_def build_image_config.make_def)

lemma sample_build_mounts:
  "build_mounts sample_leaf_env (sample_driver (Exited 0)) aborting_runner sample_cache_ctx sample_build_config nm p sc = Some ([], [], sc)"
  by (simp add: build_mounts_def sample_build_config_def build_image_config.make_def on_task_def)

lemma sample_build_returns:
  "\<exists>err sc'. BuildImageHandler sample_leaf_env (sample_driver (Exited 0)) aborting_runner (\<lambda>_. None) sample_cache_ctx sample_build_step p sc
     = Some (err, sc')"
  by (simp add: BuildImageHandler_def Let_def sample_build sample_build_mounts run_build_def set_ok leaf_tick_def BuildImage_def
      aborting_runner_def aborted_result_def split: option.split sum.split)

theorem build_passes_iff_witness:
  "\<exists>sc'. BuildImageHandler sample_leaf_env (sample_driver (Exited 0)) aborting_runner (\<lambda>_. None) sample_cache_ctx sample_build_step ''0''
     sample_leaf_ctx = Some (None, sc')"
proof -
  obtain err sc' where run: "BuildImageHandler sample_leaf_env (sample_driver (Exited 0)) aborting_runner (\<lambda>_. None) sample_cache_ctx
      sample_build_step ''0'' sample_leaf_ctx = Some (err, sc')" using sample_build_returns by blast
  have tag: "build_image_config.bi_tag sample_build_config \<noteq> []" "build_image_config.bi_context sample_build_config \<noteq> []"
    by (simp_all add: sample_build)
  have "resolveEnvSecrets (sample_driver (Exited 0)) nm v = Inr v" for nm v by (simp add: resolveEnvSecrets_def sample_driver_def)
  moreover have "validateBuildImageInput (build_request_of sample_leaf_env sample_cache_ctx sample_build_config ''0'' [] [] v) = None" for v
    by (simp add: build_request_of_def build_image_request_def Let_def build_image_input.make_def validateBuildImageInput_def sample_build)
  ultimately have "err = None"
    using build_passes_iff [OF sample_build(1,2) tag sample_build_mounts run]
    by (simp add: aborting_runner_def aborted_result_def)
  with run show ?thesis by blast
qed

definition sample_notify_lib :: "string notify_lib" where
  "sample_notify_lib = \<lparr>nl_functions = [''upper'', ''env''], nl_parse = (\<lambda>fs t. Inr t), nl_execute = (\<lambda>t cx. Inr (t @ nx_status cx)),
     nl_send = (\<lambda>_ _ _ _. None)\<rparr>"

theorem leaf_row_is_outcome_witness:
  "recorded_status sample_leaf_env (notify_key sample_leaf_env sample_build_step ''0'')
     (snd (NotifyHandler sample_leaf_env (sample_driver (Exited 0)) sample_notify_lib sample_build_step ''0'' sample_leaf_ctx)) = Some ''failure''"
proof -
  obtain err sc' where run: "BuildImageHandler sample_leaf_env (sample_driver (Exited 0)) aborting_runner (\<lambda>_. None) sample_cache_ctx
      sample_build_step ''0'' sample_leaf_ctx = Some (err, sc')" using sample_build_returns by blast
  have tag: "build_image_config.bi_tag sample_build_config \<noteq> []" "build_image_config.bi_context sample_build_config \<noteq> []"
    by (simp_all add: sample_build)
  have "fst (NotifyHandler sample_leaf_env (sample_driver (Exited 0)) sample_notify_lib sample_build_step ''0'' sample_leaf_ctx) \<noteq> None"
    using notify_needs_notifier [OF sample_build(1), of sample_leaf_ctx "sample_driver (Exited 0)" sample_notify_lib] by (simp add: sample_leaf_ctx_def)
  with leaf_row_is_outcome [OF sample_build(1,2) tag run, of sample_notify_lib] show ?thesis by (simp add: leaf_status_def)
qed

definition sample_notify_config :: notify_config where
  "sample_notify_config = \<lparr>nc_type = ''slack'', nc_token = ''secret:tok'', nc_webhook = [], nc_url = [], nc_channels = [''#ci''], nc_headers = [],
     nc_method = [], nc_recipients = [], nc_smtp_host = [], nc_from = [], nc_username = []\<rparr>"

definition sample_notifier :: notifier where
  "sample_notifier = SetSecretsManager (Some (\<lambda>scope key. if key = ''tok'' then Secret ''xoxb'' else SecretNotFound)) ''p''
     (SetConfigs [(''team'', sample_notify_config)] (NewNotifier [(''slack'', slack_Configure)]))"

theorem notification_secrets_resolved_witness:
  "snd (notifier_Send sample_notify_lib sample_notifier ''team'' ''done '' []) = [(Slack_service ''xoxb'' [''#ci''], ''done '')]"
proof -
  let ?r = "notifier_Send sample_notify_lib sample_notifier ''team'' ''done '' []"
  have sec: "nt_secrets sample_notifier = Some (\<lambda>scope key. if key = ''tok'' then Secret ''xoxb'' else SecretNotFound)"
    by (simp add: sample_notifier_def SetSecretsManager_def)
  have tok: "HasPrefix ''secret:tok'' ''secret:''" "TrimPrefix ''secret:tok'' ''secret:'' = ''tok''" "\<not> HasPrefix [] ''secret:''" by code_simp+
  have r: "?r = (None, [(Slack_service ''xoxb'' [''#ci''], ''done '')])"
    by (simp add: notifier_Send_def sample_notifier_def SetSecretsManager_def SetConfigs_def NewNotifier_def sample_notify_config_def
        resolveConfigSecrets_def resolve_field_def ResolveSecretString_def SecretPrefix_def IsSystemKey_def RenderTemplate_def
        sample_notify_lib_def slack_Configure_def zero_notify_context_def ebind_def Let_def gm_get_def gm_set_def PipelineScope_def tok)
  from notification_secrets_resolved [OF sec r] show ?thesis by (simp add: r)
qed

end
