(* ===== verification/Sandboxes.thy ===== *)
theory Sandboxes
  imports Container_Runner
begin

text \<open>
  Sandboxes, \<open>runtime/runner/sandbox.go\<close>: a long-lived container in which commands are run one after the other, with secrets in the
  environment of each command and redaction of its output. The driver (\<open>orchestra.SandboxDriver\<close>) is a parameter.
\<close>

record sandbox_input =
  si_image :: string
  si_name :: string
  si_env :: "(string, string) gomap option"
  si_mounts :: "(string, volume_result) gomap"
  si_work_dir :: string
  si_privileged :: bool

record exec_input =
  xi_path :: string
  xi_args :: "string list"
  xi_user :: string
  xi_env :: "(string, string) gomap"
  xi_work_dir :: string
  xi_stdin :: string
  xi_timeout :: string
  xi_on_output :: "nat option"

text \<open>Starting is optional. The \<open>n\<close>-th command of a sandbox, with its deadline, environment, directory and input, writes chunks to
  the two streams and ends.\<close>

record sandbox_driver =
  sd_name :: string
  sd_start :: "(nat \<Rightarrow> container_task \<Rightarrow> string + string) option"
  sd_exec :: "string \<Rightarrow> nat \<Rightarrow> int option \<Rightarrow> string list \<Rightarrow> (string, string) gomap \<Rightarrow> string \<Rightarrow> string option
    \<Rightarrow> (string \<times> string) list \<times> (call_error + int)"
  sd_cleanup :: "string \<Rightarrow> string option"

record sandbox_state =
  sb_runner :: runner_state
  sb_execs :: nat
  sb_closed :: "string list"

definition StartSandbox ::
  "container_runner \<Rightarrow> sandbox_driver \<Rightarrow> sandbox_input \<Rightarrow> sandbox_state \<Rightarrow> (go_error + string) \<times> sandbox_state" where
  "StartSandbox rn d inp st =
     (case sd_start d of
        None \<Rightarrow> (Inl (Plain (''driver '' @ go_quote (sd_name d) @ '' does not support sandbox mode'')), st)
      | Some start \<Rightarrow>
          (let r = sb_runner st;
               stepID = itoa (int (rs_call_index r)) @ ''-'' @ si_name inp @ ''-sandbox'';
               task = \<lparr>ct_task_id = DeterministicTaskID (rn_sha256 rn) (rn_namespace rn) (rn_run_id rn) stepID (si_name inp),
                 ct_command = [], ct_env = si_env inp, ct_image = si_image inp, ct_mounts = map (\<lambda>(p, v). (vr_name v, p)) (si_mounts inp),
                 ct_privileged = si_privileged inp, ct_stdin = None, ct_user = [], ct_work_dir = si_work_dir inp,
                 ct_limits = \<lparr>cl_cpu = 0, cl_cpu_kind = [], cl_memory = 0\<rparr>\<rparr>;
               st1 = st\<lparr>sb_runner := r\<lparr>rs_call_index := rs_call_index r + 1, rs_started := rs_started r @ [task]\<rparr>\<rparr>
           in case start (length (rs_started r)) task of
                Inl m \<Rightarrow> (Inl (Wrapped ''failed to start sandbox'' (Plain m)), st1)
              | Inr handle \<Rightarrow> (Inr handle, st1)))"

text \<open>References that cannot be loaded stay in the environment as they are.\<close>

definition resolveSecretEnv :: "container_runner \<Rightarrow> (string, string) gomap \<Rightarrow> runner_state \<Rightarrow> (string, string) gomap \<times> runner_state" where
  "resolveSecretEnv rn env st =
     (if secret_keys env = [] then (env, st)
      else (case loadSecrets rn (secret_keys env) of
              Inl _ \<Rightarrow> (env, st)
            | Inr secretMap \<Rightarrow>
                (map (substitute_secret secretMap) env, st\<lparr>rs_secret_values := rs_secret_values st @ used_secrets secretMap env\<rparr>)))"

definition exec_env :: "container_runner \<Rightarrow> (string, string) gomap \<Rightarrow> runner_state \<Rightarrow> (string, string) gomap \<times> runner_state" where
  "exec_env rn env st = (if rn_secrets rn \<noteq> None \<and> env \<noteq> [] then resolveSecretEnv rn env st else (env, st))"

text \<open>\<open>sandboxStreamWriter\<close>: the callback gets every chunk that is not empty.\<close>

definition exec_callbacks :: "nat option \<Rightarrow> (string \<times> string) list \<Rightarrow> runner_state \<Rightarrow> runner_state" where
  "exec_callbacks cb chunks st = fold (\<lambda>(stream, data) st. if data = [] then st else call_back cb stream data st) chunks st"

definition stream_text :: "string \<Rightarrow> (string \<times> string) list \<Rightarrow> string" where
  "stream_text stream chunks = concat (map snd (filter (\<lambda>(s, _). s = stream) chunks))"

definition sandbox_Exec ::
  "container_runner \<Rightarrow> sandbox_driver \<Rightarrow> string \<Rightarrow> exec_input \<Rightarrow> sandbox_state \<Rightarrow> (go_error + container_result) \<times> sandbox_state" where
  "sandbox_Exec rn d handle inp st =
     (case (if xi_timeout inp = [] then Inr None
            else case ParseDuration (xi_timeout inp) of
                   None \<Rightarrow> Inl (Wrapped ''sandbox exec: invalid timeout'' (Plain (''time: invalid duration '' @ go_quote (xi_timeout inp))))
                 | Some t \<Rightarrow> Inr (if t > 0 then Some t else None)) of
        Inl e \<Rightarrow> (Inl e, st)
      | Inr deadline \<Rightarrow>
          (let (env, r1) = exec_env rn (xi_env inp) (sb_runner st);
               (chunks, ending) = sd_exec d handle (sb_execs st) deadline (xi_path inp # xi_args inp) env (xi_work_dir inp)
                                    (if xi_stdin inp = [] then None else Some (xi_stdin inp));
               r2 = exec_callbacks (xi_on_output inp) chunks r1;
               st2 = st\<lparr>sb_runner := r2, sb_execs := sb_execs st + 1\<rparr>
           in case ending of
                Inl ContextDone \<Rightarrow> (Inr aborted_result, st2)
              | Inl (CallFailed m) \<Rightarrow> (Inl (Wrapped ''sandbox exec'' (Plain m)), st2)
              | Inr code \<Rightarrow>
                  (Inr \<lparr>res_code = code, res_stderr = RedactSecrets (stream_text ''stderr'' chunks) (rs_secret_values r2),
                        res_stdout = RedactSecrets (stream_text ''stdout'' chunks) (rs_secret_values r2), res_status = RunComplete\<rparr>,
                   st2\<lparr>sb_runner := r2\<lparr>rs_secret_values := []\<rparr>\<rparr>)))"

definition sandbox_Close :: "sandbox_driver \<Rightarrow> string \<Rightarrow> sandbox_state \<Rightarrow> go_error option \<times> sandbox_state" where
  "sandbox_Close d handle st =
     (map_option (\<lambda>m. Wrapped ''cleanup'' (Plain m)) (sd_cleanup d handle), st\<lparr>sb_closed := sb_closed st @ [handle]\<rparr>)"

section \<open>Secrets of a command\<close>

lemma exec_callbacks_secrets [simp]: "rs_secret_values (exec_callbacks cb chunks st) = rs_secret_values st"
proof (induction chunks arbitrary: st)
  case (Cons c cs)
  then show ?case by (cases c) (auto simp: exec_callbacks_def call_back_def split: option.split)
qed (simp add: exec_callbacks_def)

text \<open>A command that ends returns output without the secrets of its environment, if the placeholder does not touch them.\<close>

lemma exec_output_redacted:
  assumes "sandbox_Exec rn d handle inp st = (Inr res, st')" and "res_status res = RunComplete"
    and "rn_secrets rn = Some get" and "secret_keys (xi_env inp) \<noteq> []" and "loadSecrets rn (secret_keys (xi_env inp)) = Inr m"
    and "v \<in> set (used_secrets m (xi_env inp))" and "apart RedactedPlaceholder v"
  shows "\<not> Contains (res_stdout res) v \<and> \<not> Contains (res_stderr res) v"
proof -
  have env: "exec_env rn (xi_env inp) (sb_runner st) =
      (map (substitute_secret m) (xi_env inp), (sb_runner st)\<lparr>rs_secret_values := rs_secret_values (sb_runner st) @ used_secrets m (xi_env inp)\<rparr>)"
    using assms(3-5) by (auto simp: exec_env_def resolveSecretEnv_def secret_keys_def)
  let ?vs = "rs_secret_values (sb_runner st) @ used_secrets m (xi_env inp)"
  from assms(1,2) obtain out err where "res_stdout res = RedactSecrets out ?vs" "res_stderr res = RedactSecrets err ?vs"
    by (auto simp: sandbox_Exec_def env Let_def aborted_result_def split: sum.splits prod.splits call_error.splits)
  then show ?thesis using RedactSecrets_removes [of v ?vs] assms(6,7) by simp
qed

text \<open>But the sandbox forgets the secrets: a later command whose environment has none returns its output as it is, so what an earlier
  command wrote to a file comes out in clear.\<close>

lemma exec_forgets_secrets:
  assumes "sandbox_Exec rn d handle inp st = (Inr res, st')" and "res_status res = RunComplete" and "secret_keys (xi_env inp') = []"
    and "xi_timeout inp' = []"
    and "sd_exec d handle (sb_execs st') None (xi_path inp' # xi_args inp') (xi_env inp') (xi_work_dir inp')
      (if xi_stdin inp' = [] then None else Some (xi_stdin inp')) = (chunks, Inr code)"
  shows "\<exists>res' st''. sandbox_Exec rn d handle inp' st' = (Inr res', st'') \<and> res_stdout res' = stream_text ''stdout'' chunks"
proof -
  have "rs_secret_values (sb_runner st') = []"
    using assms(1,2) by (auto simp: sandbox_Exec_def Let_def aborted_result_def split: sum.splits prod.splits call_error.splits)
  moreover have "exec_env rn (xi_env inp') (sb_runner st') = (xi_env inp', sb_runner st')"
    using assms(3) by (simp add: exec_env_def resolveSecretEnv_def)
  ultimately show ?thesis using assms(4,5) by (simp add: sandbox_Exec_def)
qed

text \<open>A secret that does not exist does not stop the command: it sees the reference itself.\<close>

lemma missing_secret_is_passed_on:
  assumes "loadSecrets rn (secret_keys env) = Inl e"
  shows "exec_env rn env st = (env, st)"
  using assms by (simp add: exec_env_def resolveSecretEnv_def)

end
