(* ===== verification/Agent_Tools.thy ===== *)
theory Agent_Tools
  imports Sandboxes Image_Build "HOL-Library.Word"
begin

text \<open>
  The tools of an agent, \<open>runtime/agent/tools.go\<close>, \<open>internal/helpers/helpers.go\<close>, \<open>memory.go\<close>, \<open>limits.go\<close> and
  \<open>resultwriter.go\<close>: the scripts that a sandbox runs for them, their answers, the lookup of earlier tasks of the run with
  its edit distance, and cross-run memory. Running a command is a parameter (\<open>SandboxHandle.Exec\<close>), as is the memory
  store. Strings are byte strings; case folding and the edit distance are those of ASCII text.
\<close>

section \<open>Helpers\<close>

definition FormatDuration :: "int \<Rightarrow> string" where
  "FormatDuration totalSeconds =
     (let h = totalSeconds div 3600; m = totalSeconds mod 3600 div 60; s = totalSeconds mod 60 in
      if h > 0 then itoa h @ ''h '' @ itoa m @ ''m '' @ itoa s @ ''s''
      else if m > 0 then itoa m @ ''m '' @ itoa s @ ''s''
      else itoa s @ ''s'')"

definition TruncateStr :: "string \<Rightarrow> int \<Rightarrow> string \<times> bool" where
  "TruncateStr s maxBytes = (if maxBytes \<le> 0 \<or> int (length s) \<le> maxBytes then (s, False) else (take (nat maxBytes) s, True))"

text \<open>The loop over the columns: \<open>prev ! j\<close>, \<open>prev ! (j + 1)\<close> and \<open>curr ! j\<close> are at hand.\<close>

fun lev_cells :: "char \<Rightarrow> string \<Rightarrow> nat list \<Rightarrow> nat \<Rightarrow> nat list" where
  "lev_cells ca (cb # bs) (p # q # ps) left =
     (let v = min (left + 1) (min (q + 1) (p + (if ca = cb then 0 else 1))) in v # lev_cells ca bs (q # ps) v)"
| "lev_cells ca _ _ left = []"

definition lev_row :: "char \<Rightarrow> string \<Rightarrow> nat \<Rightarrow> nat list \<Rightarrow> nat list" where
  "lev_row ca b i prev = (i + 1) # lev_cells ca b prev (i + 1)"

fun lev_rows :: "string \<Rightarrow> string \<Rightarrow> nat \<Rightarrow> nat list \<Rightarrow> nat list" where
  "lev_rows [] b i prev = prev"
| "lev_rows (ca # a) b i prev = lev_rows a b (i + 1) (lev_row ca b i prev)"

definition Levenshtein :: "string \<Rightarrow> string \<Rightarrow> nat" where
  "Levenshtein a0 b0 =
     (let a = ToLower a0; b = ToLower b0 in
      if a = [] then length b else if b = [] then length a
      else lev_rows a b 0 [0..<length b + 1] ! length b)"

record task_summary =
  sm_name :: string
  sm_index :: int
  sm_status :: string
  sm_started_at :: string
  sm_elapsed :: string
  sm_key :: string

fun closest :: "string \<Rightarrow> task_summary \<Rightarrow> nat \<Rightarrow> task_summary list \<Rightarrow> task_summary" where
  "closest name best bestDist [] = best"
| "closest name best bestDist (t # ts) =
     (let d = Levenshtein (sm_name t) name in if d < bestDist then closest name t d ts else closest name best bestDist ts)"

definition FuzzyFindTask :: "task_summary list \<Rightarrow> string \<Rightarrow> task_summary option" where
  "FuzzyFindTask summaries name =
     (case summaries of
        [] \<Rightarrow> None
      | t # ts \<Rightarrow>
          (case find (\<lambda>t. Contains (ToLower (sm_name t)) (ToLower name)) summaries of
             Some m \<Rightarrow> Some m
           | None \<Rightarrow> Some (closest name t (Levenshtein (sm_name t) name) ts)))"

definition ParseTaskStepID :: "string \<Rightarrow> int \<times> string" where
  "ParseTaskStepID stepID =
     (case SplitN2 (CHR ''-'') stepID of
        [n, rest] \<Rightarrow> (case parse_int64 n of Some i \<Rightarrow> (i, rest) | None \<Rightarrow> (-1, stepID))
      | _ \<Rightarrow> (-1, stepID))"

definition first_number :: "string list \<Rightarrow> int option" where
  "first_number parts = (case List.map_filter parse_int64 parts of [] \<Rightarrow> None | n # _ \<Rightarrow> Some n)"

text \<open>\<open>None\<close> is a panic: the slice \<open>parts[4:kindIndex]\<close> with \<open>kindIndex\<close> below 4.\<close>

definition ParseTaskSummaryPath :: "string \<Rightarrow> (int \<times> string) option option" where
  "ParseTaskSummaryPath p =
     (let trimmed = TrimSpace (TrimChar (CHR ''/'') p); parts = SplitChar (CHR ''/'') trimmed;
          before = takeWhile (\<lambda>x. x \<noteq> ''tasks'' \<and> x \<noteq> ''agent'') parts; kindIndex = length before
      in if trimmed = [] \<or> length parts < 4 \<or> parts ! 0 \<noteq> ''pipeline'' then Some None
         else if parts ! 2 = ''tasks'' then Some (Some (ParseTaskStepID (parts ! 3)))
         else if parts ! 2 \<noteq> ''jobs'' \<or> length parts < 7 then Some None
         else if kindIndex + 1 \<ge> length parts \<or> parts ! (kindIndex + 1) = [] then Some None
         else if kindIndex < 4 then None
         else Some (map_option (\<lambda>n. (n, parts ! (kindIndex + 1))) (first_number (drop 4 before))))"

definition TaskSummaryToMap :: "task_summary \<Rightarrow> (string \<times> json) list" where
  "TaskSummaryToMap t =
     [(''name'', JStr (sm_name t)), (''index'', JNum (sm_index t)), (''status'', JStr (sm_status t))] @
     (if sm_started_at t \<noteq> [] then [(''started_at'', JStr (sm_started_at t))] else []) @
     (if sm_elapsed t \<noteq> [] then [(''elapsed'', JStr (sm_elapsed t))] else [])"

section \<open>Earlier tasks of the run\<close>

definition payload_str :: "json \<Rightarrow> string \<Rightarrow> string" where
  "payload_str j k = (case j of JObj m \<Rightarrow> (case gm_get m k of Some (JStr s) \<Rightarrow> s | _ \<Rightarrow> []) | _ \<Rightarrow> [])"

definition summary_of :: "task_result \<Rightarrow> task_summary option option" where
  "summary_of r =
     map_option (map_option (\<lambda>(idx, name). \<lparr>sm_name = name, sm_index = idx, sm_status = payload_str (rs_payload r) ''status'',
         sm_started_at = payload_str (rs_payload r) ''started_at'', sm_elapsed = payload_str (rs_payload r) ''elapsed'', sm_key = rs_path r\<rparr>))
       (ParseTaskSummaryPath (rs_path r))"

definition better_summary :: "task_summary \<Rightarrow> ((int \<times> string) \<times> task_summary) list \<Rightarrow> ((int \<times> string) \<times> task_summary) list" where
  "better_summary t m =
     (let key = (sm_index t, sm_name t) in
      case gm_get m key of
        None \<Rightarrow> gm_set key t m
      | Some old \<Rightarrow> if sm_started_at t \<noteq> [] \<and> sm_started_at old = [] then gm_set key t m else m)"

fun string_less :: "string \<Rightarrow> string \<Rightarrow> bool" where
  "string_less [] [] = False"
| "string_less [] (d # ds) = True"
| "string_less (c # cs) [] = False"
| "string_less (c # cs) (d # ds) = ((of_char c :: nat) < of_char d \<or> c = d \<and> string_less cs ds)"

definition summary_less :: "task_summary \<Rightarrow> task_summary \<Rightarrow> bool" where
  "summary_less a b \<longleftrightarrow> (if sm_index a \<noteq> sm_index b then sm_index a < sm_index b else string_less (sm_name a) (sm_name b))"

text \<open>The keys differ, so the sort has one result.\<close>

fun insert_summary :: "task_summary \<Rightarrow> task_summary list \<Rightarrow> task_summary list" where
  "insert_summary t [] = [t]"
| "insert_summary t (u # us) = (if summary_less t u then t # u # us else u # insert_summary t us)"

definition loadTaskSummaries :: "string \<Rightarrow> string \<Rightarrow> db \<Rightarrow> task_summary list option" where
  "loadTaskSummaries ns runID d =
     (let flds = [''status'', ''started_at'', ''elapsed''];
          rows = GetAll ns (''/pipeline/'' @ runID @ ''/tasks/'') flds d @ GetAll ns (''/pipeline/'' @ runID @ ''/jobs/'') flds d
      in map_option (\<lambda>found. foldr insert_summary (map snd (fold better_summary (List.map_filter id found) [])) [])
           (those (map summary_of rows)))"

section \<open>Commands in the sandbox\<close>

text \<open>\<open>SandboxHandle.Exec\<close> as the tools see it.\<close>

type_synonym 's exec_runner = "exec_input \<Rightarrow> 's \<Rightarrow> (go_error + container_result) \<times> 's"

definition DefaultToolTimeout :: string where "DefaultToolTimeout = ''60s''"
definition DefaultRunScriptTimeout :: string where "DefaultRunScriptTimeout = ''300s''"

definition script_input :: "string \<Rightarrow> nat option \<Rightarrow> string \<Rightarrow> (string, string) gomap \<Rightarrow> exec_input" where
  "script_input script onOutput timeout env =
     \<lparr>xi_path = ''/bin/sh'', xi_args = [''-c'', script], xi_user = [], xi_env = env, xi_work_dir = [], xi_stdin = [], xi_timeout = timeout,
      xi_on_output = onOutput\<rparr>"

definition execScriptWithEnv ::
  "'s exec_runner \<Rightarrow> string \<Rightarrow> nat option \<Rightarrow> string \<Rightarrow> string \<Rightarrow> (string, string) gomap \<Rightarrow> 's \<Rightarrow> (go_error + container_result) \<times> 's" where
  "execScriptWithEnv exec script onOutput timeout toolName env st =
     (case exec (script_input script onOutput timeout env) st of
        (Inl e, st') \<Rightarrow> (Inl (Wrapped ''exec'' e), st')
      | (Inr res, st') \<Rightarrow>
          if res_status res = RunAbort then (Inl (Plain (toolName @ '' timed out after '' @ timeout)), st') else (Inr res, st'))"

definition execScript ::
  "'s exec_runner \<Rightarrow> string \<Rightarrow> nat option \<Rightarrow> string \<Rightarrow> string \<Rightarrow> 's \<Rightarrow> (go_error + container_result) \<times> 's" where
  "execScript exec script onOutput timeout toolName = execScriptWithEnv exec script onOutput timeout toolName []"

definition EffectiveToolTimeouts :: "string \<Rightarrow> string \<times> string" where
  "EffectiveToolTimeouts configTimeout =
     (if configTimeout = [] then DefaultToolTimeout else configTimeout, if configTimeout = [] then DefaultRunScriptTimeout else configTimeout)"

text \<open>The answer of a tool is its JSON object.\<close>

type_synonym tool_answer = "go_error + (string \<times> json) list"

definition command_output :: "go_error + container_result \<Rightarrow> tool_answer" where
  "command_output r =
     map_sum id (\<lambda>res. [(''stdout'', JStr (res_stdout res)), (''stderr'', JStr (res_stderr res)), (''exit_code'', JNum (res_code res))]) r"

definition run_script_tool :: "'s exec_runner \<Rightarrow> nat option \<Rightarrow> string \<Rightarrow> string \<Rightarrow> 's \<Rightarrow> tool_answer \<times> 's" where
  "run_script_tool exec onOutput timeout script st = apfst command_output (execScript exec script onOutput timeout ''run_script'' st)"

definition read_script :: "string \<Rightarrow> int \<Rightarrow> int \<Rightarrow> string" where
  "read_script path offset0 limit0 =
     (let offset = (if offset0 \<le> 0 then 1 else offset0); limit = (if limit0 \<le> 0 then 2000 else limit0) in
      ''awk '' @ sq @ ''NR>='' @ itoa offset @ '' && NR<='' @ itoa (offset + limit - 1) @ '' {printf '' @ dq @ ''%6d'' @ bsl @ ''t%s'' @ bsl @ ''n'' @ dq
      @ '', NR, $0}'' @ sq @ '' '' @ path)"

definition read_file_tool :: "'s exec_runner \<Rightarrow> nat option \<Rightarrow> string \<Rightarrow> string \<Rightarrow> int \<Rightarrow> int \<Rightarrow> 's \<Rightarrow> tool_answer \<times> 's" where
  "read_file_tool exec onOutput timeout path offset limit st =
     (case execScript exec (read_script path offset limit) onOutput timeout ''read_file'' st of
        (Inl e, st') \<Rightarrow> (Inl e, st')
      | (Inr res, st') \<Rightarrow>
          if res_code res \<noteq> 0
          then (Inl (Plain (''read_file: '' @ path @ '' exited '' @ itoa (res_code res) @ '': '' @ res_stderr res)), st')
          else (Inr [(''path'', JStr path), (''content'', JStr (res_stdout res))], st'))"

definition ShellJoinArgs :: "string list \<Rightarrow> string" where
  "ShellJoinArgs args = JoinStr (map (\<lambda>arg. if arg = ''--'' \<or> HasPrefix arg ''-'' then arg else shellQuote arg) args) '' ''"

definition grep_script :: "string \<Rightarrow> string \<Rightarrow> string \<Rightarrow> bool \<Rightarrow> int \<Rightarrow> string" where
  "grep_script pattern path globFilter caseInsensitive maxResults =
     ''grep '' @ ShellJoinArgs ([''-rn''] @ (if caseInsensitive then [''-i''] else []) @
        (if globFilter \<noteq> [] then [''--include='' @ globFilter] else []) @ [''--'', pattern, if path = [] then ''.'' else path]) @
     '' | head -n '' @ itoa (if maxResults \<le> 0 then 100 else maxResults)"

definition trim_newlines :: "string \<Rightarrow> string" where
  "trim_newlines s = rev (dropWhile (\<lambda>c. c = CHR 0x0A) (rev s))"

definition grep_tool ::
  "'s exec_runner \<Rightarrow> nat option \<Rightarrow> string \<Rightarrow> string \<Rightarrow> string \<Rightarrow> string \<Rightarrow> bool \<Rightarrow> int \<Rightarrow> 's \<Rightarrow> tool_answer \<times> 's" where
  "grep_tool exec onOutput timeout pattern path globFilter caseInsensitive maxResults st =
     (case execScript exec (grep_script pattern path globFilter caseInsensitive maxResults) onOutput timeout ''grep'' st of
        (Inl e, st') \<Rightarrow> (Inl e, st')
      | (Inr res, st') \<Rightarrow>
          if res_code res \<noteq> 0 \<and> res_code res \<noteq> 1
          then (Inl (Plain (''grep exited '' @ itoa (res_code res) @ '': '' @ res_stderr res)), st')
          else
            (let matches = trim_newlines (res_stdout res) in
             (Inr [(''matches'', JStr matches),
                   (''count'', JNum (if matches = [] then 0 else int (length (filter (\<lambda>c. c = CHR 0x0A) matches)) + 1))], st')))"

fun find_at :: "string \<Rightarrow> string \<Rightarrow> nat \<Rightarrow> nat option" where
  "find_at [] p i = (if p = [] then Some i else None)"
| "find_at (c # s) p i = (if HasPrefix (c # s) p then Some i else find_at s p (i + 1))"

definition BuildFindCommand :: "string \<Rightarrow> string \<Rightarrow> string" where
  "BuildFindCommand pattern path =
     (let tail_part = '' -type f | sort | head -n 1000'' in
      if HasPrefix pattern ''**/'' then
        ''find '' @ path @ '' -name '' @ sq @ TrimPrefix pattern ''**/'' @ sq @ tail_part
      else
        (case find_at pattern ''/**/'' 0 of
           Some idx \<Rightarrow> ''find '' @ path @ ''/'' @ take idx pattern @ '' -name '' @ sq @ drop (idx + 4) pattern @ sq @ tail_part
         | None \<Rightarrow>
             if \<not> Contains pattern ''/'' \<and> Contains pattern ''*''
             then ''find '' @ path @ '' -maxdepth 1 -name '' @ sq @ pattern @ sq @ tail_part
             else ''find '' @ path @ '' -path '' @ sq @ ''*'' @ pattern @ ''*'' @ sq @ tail_part))"

definition glob_tool :: "'s exec_runner \<Rightarrow> nat option \<Rightarrow> string \<Rightarrow> string \<Rightarrow> string \<Rightarrow> 's \<Rightarrow> tool_answer \<times> 's" where
  "glob_tool exec onOutput timeout pattern path st =
     (case execScript exec (BuildFindCommand pattern (if path = [] then ''.'' else path)) onOutput timeout ''glob'' st of
        (Inl e, st') \<Rightarrow> (Inl e, st')
      | (Inr res, st') \<Rightarrow>
          if res_code res \<noteq> 0 then (Inl (Plain (''glob exited '' @ itoa (res_code res) @ '': '' @ res_stderr res)), st')
          else
            (let text = trim_newlines (res_stdout res); files = (if text = [] then [] else SplitChar (CHR 0x0A) text) in
             (Inr [(''files'', JArr (map JStr files)), (''count'', JNum (int (length files)))], st')))"

text \<open>\<open>base64.StdEncoding\<close>.\<close>

definition base64_char :: "nat \<Rightarrow> char" where
  "base64_char n =
     (if n < 26 then char_of (65 + n) else if n < 52 then char_of (97 + (n - 26)) else if n < 62 then char_of (48 + (n - 52))
      else if n = 62 then CHR ''+'' else CHR ''/'')"

fun base64_encode :: "string \<Rightarrow> string" where
  "base64_encode (a # b # c # s) =
     (let n = of_char a * 65536 + of_char b * 256 + of_char c in
      [base64_char (n div 262144), base64_char (n div 4096 mod 64), base64_char (n div 64 mod 64), base64_char (n mod 64)] @ base64_encode s)"
| "base64_encode [a, b] =
     (let n = of_char a * 65536 + of_char b * 256 in
      [base64_char (n div 262144), base64_char (n div 4096 mod 64), base64_char (n div 64 mod 64), CHR ''=''])"
| "base64_encode [a] =
     (let n = of_char a * 65536 in [base64_char (n div 262144), base64_char (n div 4096 mod 64), CHR ''='', CHR ''=''])"
| "base64_encode [] = []"

definition write_script :: "string \<Rightarrow> string \<Rightarrow> string" where
  "write_script filePath content =
     ''mkdir -p '' @ dq @ ''$(dirname '' @ sq @ filePath @ sq @ '')'' @ dq @ '' && printf '' @ sq @ ''%s'' @ sq @ '' '' @ sq @ base64_encode content @ sq
     @ '' | base64 -d > '' @ sq @ filePath @ sq"

definition write_file_tool :: "'s exec_runner \<Rightarrow> nat option \<Rightarrow> string \<Rightarrow> string \<Rightarrow> string \<Rightarrow> 's \<Rightarrow> tool_answer \<times> 's" where
  "write_file_tool exec onOutput timeout filePath content st =
     (let (old, st1) = execScript exec (''cat '' @ sq @ filePath @ sq @ '' 2>/dev/null'') None timeout ''write_file_read'' st;
          previous = (case old of Inr res \<Rightarrow> if res_code res = 0 then res_stdout res else [] | Inl _ \<Rightarrow> []);
          answer = [(''path'', JStr filePath), (''written'', JBool True)] @
            (if previous \<noteq> [] then [(''previous_content'', JStr (fst (TruncateStr previous 4096)))] else []) @ [(''is_new'', JBool (previous = []))]
      in case execScript exec (write_script filePath content) onOutput timeout ''write_file'' st1 of
           (Inl e, st2) \<Rightarrow> (Inl e, st2)
         | (Inr res, st2) \<Rightarrow>
             if res_code res \<noteq> 0 then (Inl (Plain (''write_file: exited '' @ itoa (res_code res) @ '': '' @ res_stderr res)), st2)
             else (Inr answer, st2))"

section \<open>The other tools\<close>

text \<open>\<open>int\<close> of a float64: the numbers of payloads are integers here.\<close>

definition get_task_result_tool :: "string \<Rightarrow> string \<Rightarrow> db \<Rightarrow> string \<Rightarrow> int \<Rightarrow> tool_answer option" where
  "get_task_result_tool ns runID d name maxBytes0 =
     (if runID = [] then Some (Inl (Plain ''task storage not available''))
      else
        (case loadTaskSummaries ns runID d of
           None \<Rightarrow> None
         | Some summaries \<Rightarrow>
             (case FuzzyFindTask summaries name of
                None \<Rightarrow> Some (Inl (Plain ''no tasks found in current run''))
              | Some m \<Rightarrow>
                  (case store_Get ns (sm_key m) d of
                     Inl _ \<Rightarrow> Some (Inl (Wrapped (''get task '' @ go_quote (sm_name m)) (Plain ''not found'')))
                   | Inr payload \<Rightarrow>
                       (let maxBytes = (if maxBytes0 \<le> 0 then 4096 else maxBytes0);
                            (out, tout) = TruncateStr (payload_str payload ''stdout'') maxBytes;
                            (err, terr) = TruncateStr (payload_str payload ''stderr'') maxBytes;
                            started = payload_str payload ''started_at''; elapsed = payload_str payload ''elapsed'';
                            code = (case payload of JObj o' \<Rightarrow> (case gm_get o' ''code'' of Some (JNum n) \<Rightarrow> n | _ \<Rightarrow> 0) | _ \<Rightarrow> 0)
                        in Some (Inr ([(''name'', JStr (sm_name m)), (''index'', JNum (sm_index m)), (''status'', JStr (payload_str payload ''status'')),
                              (''exit_code'', JNum code), (''stdout'', JStr out), (''stderr'', JStr err)] @
                              (if started \<noteq> [] then [(''started_at'', JStr started)] else []) @
                              (if elapsed \<noteq> [] then [(''elapsed'', JStr elapsed)] else []) @ [(''truncated'', JBool (tout \<or> terr))])))))))"

definition list_tasks_tool :: "string \<Rightarrow> string \<Rightarrow> db \<Rightarrow> tool_answer option" where
  "list_tasks_tool ns runID d =
     (if runID = [] then Some (Inr [(''tasks'', JNull)])
      else map_option (\<lambda>ts. Inr [(''tasks'', JArr (map (\<lambda>t. JObj (TaskSummaryToMap t)) ts))]) (loadTaskSummaries ns runID d))"

record tool_def =
  td_tool_name :: string
  td_prompt :: string
  td_model :: string
  td_image :: string
  td_key_prefix :: string
  td_is_task :: bool
  td_description :: string
  td_command_path :: string
  td_command_args :: "string list"
  td_env :: "(string, string) gomap"

definition task_tool_script :: "tool_def \<Rightarrow> string" where
  "task_tool_script t = td_command_path t @ (if td_command_args t \<noteq> [] then '' '' @ ShellJoinArgs (td_command_args t) else [])"

definition task_tool :: "'s exec_runner \<Rightarrow> tool_def \<Rightarrow> nat option \<Rightarrow> string \<Rightarrow> string \<Rightarrow> 's \<Rightarrow> tool_answer \<times> 's" where
  "task_tool exec t onOutput timeout request st =
     apfst command_output
       (execScriptWithEnv exec (task_tool_script t) onOutput timeout (td_tool_name t)
          (if request = [] then td_env t else gm_set ''TOOL_REQUEST'' request (td_env t)) st)"

section \<open>Memory\<close>

record memory_config =
  mc_enabled :: bool
  mc_max_recall :: int
  mc_max_content_bytes :: int

record recalled =
  rm_content :: string
  rm_tags :: "string list"
  rm_created_at :: string
  rm_recall_count :: int
  rm_last_recalled :: string

text \<open>\<open>RecallAgentMemories\<close> and \<open>SaveAgentMemory\<close> of the storage, for a pipeline and an agent.\<close>

record 's memory_store =
  ms_recall :: "string \<Rightarrow> string \<Rightarrow> string \<Rightarrow> string list \<Rightarrow> int \<Rightarrow> 's \<Rightarrow> (string + recalled list) \<times> 's"
  ms_save :: "string \<Rightarrow> string \<Rightarrow> string \<Rightarrow> string list \<Rightarrow> 's \<Rightarrow> (string + bool) \<times> 's"

definition memoryAvailable :: "memory_config option \<Rightarrow> 's memory_store option \<Rightarrow> string \<Rightarrow> string \<Rightarrow> bool" where
  "memoryAvailable mem store pipelineID name \<longleftrightarrow>
     (case mem of None \<Rightarrow> False | Some m \<Rightarrow> mc_enabled m) \<and> store \<noteq> None \<and> pipelineID \<noteq> [] \<and> name \<noteq> []"

definition memoryLimits :: "memory_config option \<Rightarrow> int \<times> int" where
  "memoryLimits mem =
     (case mem of
        None \<Rightarrow> (5, 4096)
      | Some m \<Rightarrow> (if mc_max_recall m > 0 then mc_max_recall m else 5, if mc_max_content_bytes m > 0 then mc_max_content_bytes m else 4096))"

definition memory_json :: "recalled \<Rightarrow> json" where
  "memory_json m =
     JObj ([(''content'', JStr (rm_content m)), (''tags'', JArr (map JStr (rm_tags m))), (''created_at'', JStr (rm_created_at m)),
            (''recall_count'', JNum (rm_recall_count m))] @
           (if rm_last_recalled m \<noteq> [] then [(''last_recalled'', JStr (rm_last_recalled m))] else []))"

definition recall_memory_tool ::
  "memory_config option \<Rightarrow> 's memory_store option \<Rightarrow> string \<Rightarrow> string \<Rightarrow> string \<Rightarrow> string list \<Rightarrow> int \<Rightarrow> 's \<Rightarrow> tool_answer \<times> 's" where
  "recall_memory_tool mem store pipelineID name query tags limit0 st =
     (if \<not> memoryAvailable mem store pipelineID name then (Inl (Plain ''agent memory not available''), st)
      else
        (let maxRecall = fst (memoryLimits mem); limit = (if limit0 \<le> 0 \<or> limit0 > maxRecall then maxRecall else limit0) in
         case ms_recall (the store) pipelineID name query tags limit st of
           (Inl m, st') \<Rightarrow> (Inl (Wrapped ''recall_memory'' (Plain m)), st')
         | (Inr ms, st') \<Rightarrow> (Inr [(''memories'', JArr (map memory_json ms))], st')))"

definition save_memory_tool ::
  "memory_config option \<Rightarrow> 's memory_store option \<Rightarrow> string \<Rightarrow> string \<Rightarrow> string \<Rightarrow> string list \<Rightarrow> 's \<Rightarrow> tool_answer \<times> 's" where
  "save_memory_tool mem store pipelineID name content tags st =
     (if \<not> memoryAvailable mem store pipelineID name then (Inl (Plain ''agent memory not available''), st)
      else if content = [] then (Inl (Plain ''content is required''), st)
      else if int (length content) > snd (memoryLimits mem)
      then (Inl (Plain (''content exceeds max '' @ itoa (snd (memoryLimits mem)) @ '' bytes'')), st)
      else
        (case ms_save (the store) pipelineID name content tags st of
           (Inl m, st') \<Rightarrow> (Inl (Wrapped ''save_memory'' (Plain m)), st')
         | (Inr deduped, st') \<Rightarrow> (Inr [(''saved'', JBool True), (''deduped'', JBool deduped)], st')))"

section \<open>The result file\<close>

definition ResultJsonWriteCmd :: "string \<Rightarrow> string \<Rightarrow> string" where
  "ResultJsonWriteCmd mountName data =
     ''mkdir -p '' @ go_quote mountName @ '' && printf '' @ sq @ ''%s'' @ sq @ '' '' @ shellQuote data @ '' > '' @ go_quote mountName @ ''/result.json''"

text \<open>The mounts: path, name and path of the volume.\<close>

definition ResolveOutputMountPath :: "string \<Rightarrow> (string, volume_result) gomap \<Rightarrow> string" where
  "ResolveOutputMountPath outputVolumePath mounts =
     (let v = TrimSpace outputVolumePath in
      if v = [] then []
      else if gm_get mounts v \<noteq> None then v
      else (case find (\<lambda>(p, vol). vr_path vol = v \<or> vr_name vol = v) mounts of Some (p, _) \<Rightarrow> p | None \<Rightarrow> v))"

section \<open>Limits\<close>

record limits_config =
  lc_max_turns :: int
  lc_max_total_tokens :: "32 word"

definition EffectiveAgentLimits :: "limits_config option \<Rightarrow> int \<times> 32 word" where
  "EffectiveAgentLimits cfg =
     (case cfg of
        None \<Rightarrow> (50, 0)
      | Some c \<Rightarrow> (if lc_max_turns c \<le> 0 then 50 else lc_max_turns c, lc_max_total_tokens c))"

record context_guard =
  cg_strategy :: string
  cg_max_turns :: int
  cg_max_tokens :: int

definition NormalizeContextGuardConfig :: "context_guard option \<Rightarrow> go_error + string \<times> int" where
  "NormalizeContextGuardConfig cg_opt =
     (case cg_opt of
        None \<Rightarrow> Inr ([], 0)
      | Some cg \<Rightarrow>
          (let s0 = ToLower (TrimSpace (cg_strategy cg));
               strategy = (if s0 = [] then (if cg_max_turns cg > 0 then ''sliding_window'' else ''threshold'') else s0)
           in if strategy = ''sliding_window'' then Inr (strategy, if cg_max_turns cg \<le> 0 then 30 else cg_max_turns cg)
              else if strategy = ''threshold'' then Inr (strategy, if cg_max_tokens cg \<le> 0 then 128000 else cg_max_tokens cg)
              else Inl (Plain (''invalid context_guard strategy '' @ go_quote (cg_strategy cg) @ '': expected '' @ go_quote ''threshold'' @ '' or ''
                     @ go_quote ''sliding_window''))))"

section \<open>The edit distance\<close>

text \<open>Alignments of two lists with their cost: an element is dropped, added, kept or replaced.\<close>

inductive align :: "'a list \<Rightarrow> 'a list \<Rightarrow> nat \<Rightarrow> bool" where
  align_done: "align [] [] 0"
| align_drop: "align a b n \<Longrightarrow> align (x # a) b (Suc n)"
| align_add: "align a b n \<Longrightarrow> align a (y # b) (Suc n)"
| align_keep: "align a b n \<Longrightarrow> align (x # a) (x # b) n"
| align_replace: "align a b n \<Longrightarrow> align (x # a) (y # b) (Suc n)"

fun edit :: "'a list \<Rightarrow> 'a list \<Rightarrow> nat" where
  "edit [] b = length b"
| "edit (x # a) [] = Suc (length a)"
| "edit (x # a) (y # b) = min (edit (x # a) b + 1) (min (edit a (y # b) + 1) (edit a b + (if x = y then 0 else 1)))"

lemma edit_Nil [simp]: "edit a [] = length a"
  by (cases a) simp_all

lemma align_edit: "align a b (edit a b)"
proof (induction a b rule: edit.induct)
  case (1 b)
  show ?case by (induction b) (auto intro: align.intros)
next
  case (2 x a)
  have "align a [] (length a)" for a :: "'a list" by (induction a) (auto intro: align.intros)
  then show ?case by (auto intro: align_drop)
next
  case (3 x a y b)
  note IH = 3
  have "edit (x # a) (y # b) = Suc (edit (x # a) b) \<or> edit (x # a) (y # b) = Suc (edit a (y # b)) \<or>
      edit (x # a) (y # b) = edit a b + (if x = y then 0 else 1)"
    by (simp add: min_def)
  then consider "edit (x # a) (y # b) = Suc (edit (x # a) b)" | "edit (x # a) (y # b) = Suc (edit a (y # b))"
    | "edit (x # a) (y # b) = edit a b" "x = y" | "edit (x # a) (y # b) = Suc (edit a b)"
    by (cases "x = y") (auto simp del: edit.simps)
  then show ?case
  proof cases
    case 1
    with IH(1) show ?thesis by (metis align_add)
  next
    case 2
    with IH(2) show ?thesis by (metis align_drop)
  next
    case 3
    with IH(3) show ?thesis by (metis align_keep)
  next
    case 4
    with IH(3) show ?thesis by (metis align_replace)
  qed
qed

lemma edit_drop: "edit (x # a) b \<le> Suc (edit a b)"
  by (cases b) auto

lemma edit_add: "edit a (y # b) \<le> Suc (edit a b)"
  by (cases a) auto

lemma edit_least: "align a b n \<Longrightarrow> edit a b \<le> n"
proof (induction rule: align.induct)
  case (align_drop a b n x)
  then show ?case using edit_drop [of x a b] by linarith
next
  case (align_add a b n y)
  then show ?case using edit_add [of a y b] by linarith
qed auto

lemma align_append: "align a b n \<Longrightarrow> align c d m \<Longrightarrow> align (a @ c) (b @ d) (n + m)"
  by (induction rule: align.induct) (auto intro: align.intros)

lemma align_rev: "align a b n \<Longrightarrow> align (rev a) (rev b) n"
proof (induction rule: align.induct)
  case (align_drop a b n x)
  then show ?case using align_append [of "rev a" "rev b" n "[x]" "[]" "Suc 0"] by (auto intro: align.intros)
next
  case (align_add a b n y)
  then show ?case using align_append [of "rev a" "rev b" n "[]" "[y]" "Suc 0"] by (auto intro: align.intros)
next
  case (align_keep a b n x)
  then show ?case using align_append [of "rev a" "rev b" n "[x]" "[x]" 0] by (auto intro: align.intros)
next
  case (align_replace a b n x y)
  then show ?case using align_append [of "rev a" "rev b" n "[x]" "[y]" "Suc 0"] by (auto intro: align.intros)
qed (auto intro: align.intros)

lemma edit_rev: "edit (rev a) (rev b) = edit a b"
proof (rule antisym)
  show "edit (rev a) (rev b) \<le> edit a b" by (rule edit_least [OF align_rev [OF align_edit]])
  show "edit a b \<le> edit (rev a) (rev b)" using edit_least [OF align_rev [OF align_edit [of "rev a" "rev b"]]] by simp
qed

text \<open>A row of the table: the distances of one reversed prefix from all prefixes of the other text.\<close>

fun dists :: "'a list \<Rightarrow> 'a list \<Rightarrow> 'a list \<Rightarrow> nat list" where
  "dists A P [] = [edit A P]"
| "dists A P (b # bs) = edit A P # dists A (b # P) bs"

lemma dists_begin: "\<exists>ds. dists A P bs = edit A P # ds"
  by (cases bs) simp_all

lemma lev_cells_dists: "lev_cells x bs (dists A P bs) (edit (x # A) P) = tl (dists (x # A) P bs)"
proof (induction bs arbitrary: P)
  case (Cons b bs)
  obtain ds where ds: "dists A (b # P) bs = edit A (b # P) # ds" using dists_begin by blast
  obtain es where es: "dists (x # A) (b # P) bs = edit (x # A) (b # P) # es" using dists_begin by blast
  have "lev_cells x (b # bs) (dists A P (b # bs)) (edit (x # A) P) =
      edit (x # A) (b # P) # lev_cells x bs (dists A (b # P) bs) (edit (x # A) (b # P))"
    by (simp add: ds Let_def)
  then show ?case by (simp add: Cons.IH es del: edit.simps)
qed simp

lemma lev_row_dists: "lev_row x b (length A) (dists A [] b) = dists (x # A) [] b"
  using lev_cells_dists [of x b A "[]"] dists_begin [of "x # A" "[]" b] by (auto simp: lev_row_def)

lemma lev_rows_dists: "lev_rows a b (length A) (dists A [] b) = dists (rev a @ A) [] b"
proof (induction a arbitrary: A)
  case (Cons x a)
  then show ?case using Cons.IH [of "x # A"] by (simp add: lev_row_dists)
qed simp

lemma dists_last: "dists A P bs ! length bs = edit A (rev bs @ P)"
  by (induction bs arbitrary: P) simp_all

lemma dists_first: "dists [] P bs = [length P..<length P + length bs + 1]"
  by (induction bs arbitrary: P) (simp_all add: upt_rec)

lemma Levenshtein_edit: "Levenshtein a b = edit (ToLower a) (ToLower b)"
proof -
  have "lev_rows (ToLower a) (ToLower b) 0 [0..<length (ToLower b) + 1] ! length (ToLower b) = edit (rev (ToLower a)) (rev (ToLower b))"
    using lev_rows_dists [of "ToLower a" "ToLower b" "[]"] dists_first [of "[]" "ToLower b"] by (simp add: dists_last)
  then show ?thesis by (simp add: Levenshtein_def Let_def edit_rev)
qed


text \<open>The task that is found is one of the run, and a name that is part of no task's gets one at the least distance.\<close>

lemma closest_least:
  "bestDist = Levenshtein (sm_name best) name \<Longrightarrow> closest name best bestDist ts \<in> set (best # ts) \<and>
    (\<forall>t\<in>set (best # ts). Levenshtein (sm_name (closest name best bestDist ts)) name \<le> Levenshtein (sm_name t) name)"
proof (induction ts arbitrary: best bestDist)
  case (Cons t ts)
  show ?case
  proof (cases "Levenshtein (sm_name t) name < bestDist")
    case True
    with Cons.IH [of "Levenshtein (sm_name t) name" t] Cons.prems show ?thesis by (fastforce simp: Let_def)
  next
    case False
    with Cons.IH [OF Cons.prems] Cons.prems show ?thesis by (fastforce simp: Let_def)
  qed
qed simp

lemma FuzzyFindTask_least:
  assumes "FuzzyFindTask ts name = Some m"
  shows "m \<in> set ts \<and> (Contains (ToLower (sm_name m)) (ToLower name) \<or>
    (\<forall>t\<in>set ts. Levenshtein (sm_name m) name \<le> Levenshtein (sm_name t) name))"
proof (cases ts)
  case (Cons t us)
  show ?thesis
  proof (cases "find (\<lambda>t. Contains (ToLower (sm_name t)) (ToLower name)) ts")
    case None
    with assms Cons closest_least [of "Levenshtein (sm_name t) name" t name us] show ?thesis by (auto simp: FuzzyFindTask_def)
  next
    case (Some x)
    then have "x \<in> set ts" "Contains (ToLower (sm_name x)) (ToLower name)" by (auto simp: find_Some_iff)
    moreover have "m = x" using assms Some unfolding FuzzyFindTask_def by (simp split: list.splits)
    ultimately show ?thesis by simp
  qed
qed (use assms in \<open>simp add: FuzzyFindTask_def\<close>)

section \<open>What the shell reads\<close>

definition tool_arg :: "string \<Rightarrow> build_arg" where
  "tool_arg a = (if HasPrefix a ''-'' then (a, None) else ([], Some a))"

lemma ShellJoinArgs_command: "ShellJoinArgs args = build_command (map tool_arg args)"
proof -
  have "HasPrefix ''--'' ''-''" by code_simp
  then have "(\<lambda>a. if a = ''--'' \<or> HasPrefix a ''-'' then a else shellQuote a) = arg_text \<circ> tool_arg"
    by (auto simp: fun_eq_iff arg_text_def tool_arg_def)
  then show ?thesis by (simp add: ShellJoinArgs_def build_command_def)
qed

lemma tool_args_ok:
  assumes "\<forall>a\<in>set args. HasPrefix a ''-'' \<longrightarrow> list_all shell_plain a"
  shows "list_all arg_ok (map tool_arg args)" "map arg_value (map tool_arg args) = args"
proof -
  have "a \<noteq> []" if "HasPrefix a ''-''" for a using that by (auto simp: HasPrefix_def)
  then show "list_all arg_ok (map tool_arg args)"
    using assms by (auto simp: list_all_iff arg_ok_def tool_arg_def)
  show "map arg_value (map tool_arg args) = args" by (induction args) (auto simp: arg_value_def tool_arg_def)
qed

text \<open>The shell reads the command of a task tool back as the configured program and its arguments, and the data of the result file as one word,
  whatever characters these contain, as long as an argument that begins with a dash has none that the shell interprets.\<close>

theorem tool_commands_read_back:
  assumes "posix_word word" and "td_command_path t \<noteq> []" and "list_all shell_plain (td_command_path t)"
    and "\<forall>a\<in>set (td_command_args t). HasPrefix a ''-'' \<longrightarrow> list_all shell_plain a"
  shows "(\<exists>n. shell_words word n (task_tool_script t @ newline @ rest) = Some (td_command_path t # td_command_args t)) \<and>
    word (shellQuote data @ '' > '' @ dir) = Some (data, '' > '' @ dir)"
proof
  let ?args = "(td_command_path t, None) # map tool_arg (td_command_args t)"
  have ok: "list_all arg_ok ?args" using tool_args_ok(1) [OF assms(4)] assms(2,3) by (simp add: arg_ok_def)
  have "task_tool_script t = build_command ?args"
    by (cases "td_command_args t") (simp_all add: task_tool_script_def ShellJoinArgs_command build_command_def arg_text_def)
  moreover have "map arg_value ?args = td_command_path t # td_command_args t"
    using tool_args_ok(2) [OF assms(4)] by (simp add: arg_value_def)
  ultimately show "\<exists>n. shell_words word n (task_tool_script t @ newline @ rest) = Some (td_command_path t # td_command_args t)"
    using command_words [OF assms(1) ok lessI, of rest] by (intro exI) (simp add: newline_def del: shell_words.simps)
  have "word ('' > '' @ dir) = Some ([], '' > '' @ dir)" by (rule posix_end [OF assms(1)]) simp
  then show "word (shellQuote data @ '' > '' @ dir) = Some (data, '' > '' @ dir)"
    unfolding word_shellQuote [OF assms(1)] by simp
qed

definition sample_task_tool :: tool_def where
  "sample_task_tool = \<lparr>td_tool_name = ''lint'', td_prompt = [], td_model = [], td_image = [], td_key_prefix = [], td_is_task = True,
     td_description = [], td_command_path = ''make'', td_command_args = [''-j4'', ''it's $HOME''], td_env = []\<rparr>"

theorem tool_commands_read_back_witness:
  "\<exists>n. shell_words (sh_lex False) n (task_tool_script sample_task_tool @ newline @ []) = Some [''make'', ''-j4'', ''it's $HOME'']"
proof -
  have "\<not> HasPrefix ''it's $HOME'' ''-''" "list_all shell_plain ''-j4''" "list_all shell_plain ''make''" by code_simp+
  then show ?thesis
    using tool_commands_read_back [OF sh_lex_posix, of sample_task_tool "[]" "[]" "[]"] by (simp add: sample_task_tool_def del: shell_words.simps)
qed

text \<open>An argument with a leading dash goes into the script as it is.\<close>

lemma dashed_argument_unquoted: "ShellJoinArgs [''-x; id''] = ''-x; id''"
  by code_simp

text \<open>So does a quote in the pattern of \<open>glob\<close> or the path of \<open>write_file\<close>, which ends the quotation.\<close>

lemma glob_pattern_breaks_out:
  "BuildFindCommand (''*'' @ sq @ ''; id; '' @ sq) ''.'' = ''find . -maxdepth 1 -name '' @ sq @ ''*'' @ sq @ ''; id; '' @ sq @ sq @ '' -type f | sort | head -n 1000''"
  by code_simp

section \<open>A job called agent\<close>

text \<open>The row of an agent step in a job whose name is \<open>agent\<close> or \<open>tasks\<close> makes the parsing of task paths panic, and with it every
  look at the tasks of the run.\<close>

lemma agent_job_panics:
  "ParseTaskSummaryPath ''/pipeline/r/jobs/agent/0/agent/review/run'' = None"
  "ParseTaskSummaryPath ''/pipeline/r/jobs/tasks/0/tasks/lint'' = None"
  "ParseTaskSummaryPath ''/pipeline/r/jobs/build/0/agent/review/run'' = Some (Some (0, ''review''))"
  by code_simp+

lemma those_None: "None \<in> set xs \<Longrightarrow> those xs = None"
  by (induction xs) (auto split: option.splits)

lemma panicking_row:
  assumes "r \<in> set (GetAll ns (''/pipeline/'' @ runID @ ''/jobs/'') [''status'', ''started_at'', ''elapsed''] d)"
    and "ParseTaskSummaryPath (rs_path r) = None"
  shows "loadTaskSummaries ns runID d = None \<and> (runID \<noteq> [] \<longrightarrow> list_tasks_tool ns runID d = None \<and> get_task_result_tool ns runID d name n = None)"
proof -
  have "summary_of r = None" using assms(2) by (simp add: summary_of_def)
  then have "None \<in> set (map summary_of (GetAll ns (''/pipeline/'' @ runID @ ''/tasks/'') [''status'', ''started_at'', ''elapsed''] d @
      GetAll ns (''/pipeline/'' @ runID @ ''/jobs/'') [''status'', ''started_at'', ''elapsed''] d))"
    using assms(1) by (force simp: image_iff)
  then have "loadTaskSummaries ns runID d = None" by (simp only: loadTaskSummaries_def Let_def those_None) simp
  then show ?thesis by (simp add: list_tasks_tool_def get_task_result_tool_def)
qed

section \<open>Bounds of memory\<close>

lemma saved_memory_bounded:
  assumes "save_memory_tool mem store pid name content tags st = (Inr ans, st')"
  shows "memoryAvailable mem store pid name \<and> content \<noteq> [] \<and> int (length content) \<le> snd (memoryLimits mem)"
  using assms by (auto simp: save_memory_tool_def split: if_splits)

lemma recall_asks_at_most_limit:
  assumes "memoryAvailable mem (Some store) pid name"
  shows "\<exists>limit. 0 < limit \<and> limit \<le> fst (memoryLimits mem) \<and>
    snd (recall_memory_tool mem (Some store) pid name query tags limit0 st) = snd (ms_recall store pid name query tags limit st)"
proof -
  let ?limit = "if limit0 \<le> 0 \<or> limit0 > fst (memoryLimits mem) then fst (memoryLimits mem) else limit0"
  have "0 < fst (memoryLimits mem)" by (auto simp: memoryLimits_def split: option.split)
  then have "0 < ?limit \<and> ?limit \<le> fst (memoryLimits mem)" by auto
  moreover have "snd (recall_memory_tool mem (Some store) pid name query tags limit0 st) = snd (ms_recall store pid name query tags ?limit st)"
    using assms by (auto simp: recall_memory_tool_def Let_def split: prod.split sum.split)
  ultimately show ?thesis by blast
qed

end
