(* ===== verification/Agent_Schema.thy ===== *)
theory Agent_Schema
  imports Agent_Tools Complex_Main
begin

text \<open>
  Output schemas of agents, \<open>runtime/agent/schema/schema.go\<close>: expanding the compact notation, converting a full schema, and checking the
  JSON value of an answer. Numbers are rationals here, since the code tells integers from other numbers. The members of an
  object are in the order in which the loops over them run.
\<close>

datatype jvalue = VNull | VBool bool | VNum rat | VStr string | VArr "jvalue list" | VObj "(string \<times> jvalue) list"

datatype schema = Schema
  (sch_type: string)
  (sch_properties: "(string \<times> schema) list")
  (sch_items: "schema option")
  (sch_required: "string list")
  (sch_enum: "string list")
  (sch_description: string)

definition plain_schema :: "string \<Rightarrow> schema" where
  "plain_schema t = Schema t [] None [] [] []"

definition genaiTypes :: "string list" where
  "genaiTypes = [''OBJECT'', ''STRING'', ''ARRAY'', ''INTEGER'', ''NUMBER'', ''BOOLEAN'']"

definition typeMap :: "(string, string) gomap" where
  "typeMap = [(''string'', ''STRING''), (''int'', ''INTEGER''), (''integer'', ''INTEGER''), (''number'', ''NUMBER''), (''bool'', ''BOOLEAN''),
     (''boolean'', ''BOOLEAN'')]"

definition isFullSchema :: "(string \<times> jvalue) list \<Rightarrow> bool" where
  "isFullSchema m = (case gm_get m ''type'' of Some (VStr t) \<Rightarrow> t \<in> set genaiTypes | _ \<Rightarrow> False)"

definition expandTypeString :: "string \<Rightarrow> schema" where
  "expandTypeString s =
     (case gm_get typeMap s of
        Some t \<Rightarrow> plain_schema t
      | None \<Rightarrow>
          if Contains s ''|'' then Schema ''STRING'' [] None [] (map TrimSpace (SplitChar (CHR ''|'') s)) []
          else plain_schema ''STRING'')"

definition key_is_array :: "string \<Rightarrow> bool" where
  "key_is_array k = Contains k ''[]''"

definition key_is_optional :: "string \<Rightarrow> bool" where
  "key_is_optional k = HasSuffix k ''?''"

definition clean_key :: "string \<Rightarrow> string" where
  "clean_key k = (let c = ReplaceAll k ''[]'' [] in if HasSuffix c ''?'' then take (length c - 1) c else c)"

text \<open>\<open>expandValue\<close>, with \<open>expandObject\<close> for its objects.\<close>

fun expandValue :: "jvalue \<Rightarrow> schema" where
  "expandValue (VStr s) = expandTypeString s"
| "expandValue (VObj m) =
     Schema ''OBJECT''
       (fold (\<lambda>(k, sch). gm_set (clean_key k) (if key_is_array k then Schema ''ARRAY'' [] (Some sch) [] [] [] else sch))
          (map (\<lambda>(k, v). (k, expandValue v)) m) [])
       None (map (\<lambda>(k, v). clean_key k) (filter (\<lambda>(k, v). \<not> key_is_optional k) m)) [] []"
| "expandValue _ = plain_schema ''STRING''"

definition strings_of :: "jvalue option \<Rightarrow> string list" where
  "strings_of v = (case v of Some (VArr xs) \<Rightarrow> List.map_filter (\<lambda>x. case x of VStr s \<Rightarrow> Some s | _ \<Rightarrow> None) xs | _ \<Rightarrow> [])"

definition string_of_value :: "jvalue option \<Rightarrow> string" where
  "string_of_value v = (case v of Some (VStr s) \<Rightarrow> s | _ \<Rightarrow> [])"

definition obj_of :: "jvalue \<Rightarrow> (string \<times> jvalue) list option" where
  "obj_of v = (case v of VObj m \<Rightarrow> Some m | _ \<Rightarrow> None)"

lemma obj_member_smaller: "gm_get m k = Some v \<Longrightarrow> size v < Suc (size_list (size_prod (\<lambda>_. 0) size) m)"
  unfolding gm_get_def by (induction m) (auto split: if_splits)

fun convertFullSchema :: "nat \<Rightarrow> jvalue \<Rightarrow> schema" where
  "convertFullSchema 0 v = plain_schema []"
| "convertFullSchema (Suc n) v =
     (case v of
        VObj m \<Rightarrow>
          Schema (string_of_value (gm_get m ''type''))
            (case gm_get m ''properties'' of
               Some (VObj ps) \<Rightarrow> List.map_filter (\<lambda>(k, p). map_option (\<lambda>_. (k, convertFullSchema n p)) (obj_of p)) ps
             | _ \<Rightarrow> [])
            (case gm_get m ''items'' of Some (VObj i) \<Rightarrow> Some (convertFullSchema n (VObj i)) | _ \<Rightarrow> None)
            (strings_of (gm_get m ''required'')) (strings_of (gm_get m ''enum'')) (string_of_value (gm_get m ''description''))
      | _ \<Rightarrow> plain_schema [])"

text \<open>The fuel is the size of the value, which bounds its depth. \<open>None\<close> is \<open>nil\<close>.\<close>

definition ExpandOutputSchema :: "(string \<times> jvalue) list option \<Rightarrow> schema option" where
  "ExpandOutputSchema inp =
     map_option (\<lambda>m. if isFullSchema m then convertFullSchema (Suc (size (VObj m))) (VObj m) else expandValue (VObj m)) inp"

section \<open>Validation\<close>

datatype schema_error =
    Invalid_JSON string
  | Expected string string jvalue
  | Missing_field string
  | Not_integral string rat
  | Not_in_enum string string "string list"

definition fieldPath :: "string \<Rightarrow> string \<Rightarrow> string" where
  "fieldPath parent key = (if parent = [] then key else parent @ ''.'' @ key)"

definition validateString :: "jvalue \<Rightarrow> schema \<Rightarrow> string \<Rightarrow> schema_error option" where
  "validateString v s path =
     (case v of
        VStr t \<Rightarrow> if sch_enum s \<noteq> [] \<and> t \<notin> set (sch_enum s) then Some (Not_in_enum t path (sch_enum s)) else None
      | _ \<Rightarrow> Some (Expected ''string'' path v))"

definition validateInteger :: "jvalue \<Rightarrow> string \<Rightarrow> schema_error option" where
  "validateInteger v path =
     (case v of VNum q \<Rightarrow> if q \<noteq> of_int \<lfloor>q\<rfloor> then Some (Not_integral path q) else None | _ \<Rightarrow> Some (Expected ''integer'' path v))"

definition validateNumber :: "jvalue \<Rightarrow> string \<Rightarrow> schema_error option" where
  "validateNumber v path = (case v of VNum q \<Rightarrow> None | _ \<Rightarrow> Some (Expected ''number'' path v))"

definition validateBoolean :: "jvalue \<Rightarrow> string \<Rightarrow> schema_error option" where
  "validateBoolean v path = (case v of VBool b \<Rightarrow> None | _ \<Rightarrow> Some (Expected ''boolean'' path v))"

fun validateValue :: "schema \<Rightarrow> jvalue \<Rightarrow> string \<Rightarrow> schema_error option" where
  "validateValue (Schema t props items req enum desc) v path =
     (if t = ''OBJECT'' then
        (case v of
           VObj m \<Rightarrow>
             (case find (\<lambda>r. gm_get m r = None) req of
                Some r \<Rightarrow> Some (Missing_field (fieldPath path r))
              | None \<Rightarrow>
                  first_err (\<lambda>(k, p). case gm_get m k of None \<Rightarrow> None | Some x \<Rightarrow> validateValue p x (fieldPath path k)) props)
         | _ \<Rightarrow> Some (Expected ''object'' path v))
      else if t = ''ARRAY'' then
        (case v of
           VArr xs \<Rightarrow>
             (case items of
                None \<Rightarrow> None
              | Some p \<Rightarrow> first_err (\<lambda>(i, x). validateValue p x (path @ ''['' @ itoa (int i) @ '']'')) (zip [0..<length xs] xs))
         | _ \<Rightarrow> Some (Expected ''array'' path v))
      else if t = ''STRING'' then validateString v (Schema t props items req enum desc) path
      else if t = ''INTEGER'' then validateInteger v path
      else if t = ''NUMBER'' then validateNumber v path
      else if t = ''BOOLEAN'' then validateBoolean v path
      else None)"

definition ValidateJSON :: "(string \<Rightarrow> string + jvalue) \<Rightarrow> string \<Rightarrow> schema \<Rightarrow> schema_error option" where
  "ValidateJSON unmarshal text s =
     (case unmarshal text of Inl m \<Rightarrow> Some (Invalid_JSON m) | Inr v \<Rightarrow> validateValue s v [])"

section \<open>What a compact schema means\<close>

definition type_ok :: "string \<Rightarrow> jvalue \<Rightarrow> bool" where
  "type_ok t v \<longleftrightarrow>
     (if t = ''int'' \<or> t = ''integer'' then \<exists>n. v = VNum (of_int n)
      else if t = ''number'' then \<exists>q. v = VNum q
      else if t = ''bool'' \<or> t = ''boolean'' then \<exists>b. v = VBool b
      else if Contains t ''|'' \<and> t \<noteq> ''string'' then \<exists>s\<in>set (SplitChar (CHR ''|'') t). v = VStr (TrimSpace s)
      else \<exists>s. v = VStr s)"

text \<open>Directly on the notation: an object has every member whose key does not end in a question mark, and each of its members that is
  named has its type, or is an array of it if the key contains brackets.\<close>

fun dsl_ok :: "jvalue \<Rightarrow> jvalue \<Rightarrow> bool" where
  "dsl_ok (VStr t) v \<longleftrightarrow> type_ok t v"
| "dsl_ok (VObj fs) v \<longleftrightarrow>
     (\<exists>m. v = VObj m \<and>
        (\<forall>(k, d)\<in>set fs. case gm_get m (clean_key k) of
           None \<Rightarrow> key_is_optional k
         | Some x \<Rightarrow> if key_is_array k then \<exists>xs. x = VArr xs \<and> (\<forall>y\<in>set xs. dsl_ok d y) else dsl_ok d x))"
| "dsl_ok _ v \<longleftrightarrow> (\<exists>s. v = VStr s)"

fun well_keyed :: "jvalue \<Rightarrow> bool" where
  "well_keyed (VObj fs) \<longleftrightarrow> distinct (map (\<lambda>(k, _). clean_key k) fs) \<and> (\<forall>(k, d)\<in>set fs. well_keyed d)"
| "well_keyed _ \<longleftrightarrow> True"

lemma validate_typeString: "validateValue (expandTypeString t) v path = None \<longleftrightarrow> type_ok t v"
proof -
  have int: "validateValue (plain_schema ''INTEGER'') v path = None \<longleftrightarrow> (\<exists>n. v = VNum (of_int n))"
    by (cases v) (auto simp: plain_schema_def validateInteger_def)
  have str: "validateValue (plain_schema ''STRING'') v path = None \<longleftrightarrow> (\<exists>s. v = VStr s)"
    by (cases v) (auto simp: plain_schema_def validateString_def)
  have num: "validateValue (plain_schema ''NUMBER'') v path = None \<longleftrightarrow> (\<exists>q. v = VNum q)"
    by (cases v) (auto simp: plain_schema_def validateNumber_def)
  have bool: "validateValue (plain_schema ''BOOLEAN'') v path = None \<longleftrightarrow> (\<exists>b. v = VBool b)"
    by (cases v) (auto simp: plain_schema_def validateBoolean_def)
  have "SplitChar (CHR ''|'') t \<noteq> []" by (induction t) (auto split: list.splits)
  then have enum: "validateValue (Schema ''STRING'' [] None [] (map TrimSpace (SplitChar (CHR ''|'') t)) []) v path = None \<longleftrightarrow>
      (\<exists>s\<in>set (SplitChar (CHR ''|'') t). v = VStr (TrimSpace s))"
    by (cases v) (auto simp: validateString_def)
  show ?thesis
    by (auto simp: expandTypeString_def typeMap_def gm_get_def type_ok_def int str num bool enum simp del: validateValue.simps)
qed

lemma fold_set_fresh:
  "distinct (map fst acc @ map (\<lambda>(k, _). f k) kvs) \<Longrightarrow>
    fold (\<lambda>(k, x). gm_set (f k) (g k x)) kvs acc = acc @ map (\<lambda>(k, x). (f k, g k x)) kvs"
proof (induction kvs arbitrary: acc)
  case (Cons kx kvs)
  obtain k x where kx: "kx = (k, x)" by fastforce
  have fresh: "f k \<notin> set (map fst acc)" using Cons.prems by (auto simp: kx)
  have upd: "gm_set (f k) (g k x) acc = acc @ [(f k, g k x)]"
    unfolding gm_set_def using fresh by (induction acc) auto
  have "distinct (map fst (acc @ [(f k, g k x)]) @ map (\<lambda>(k, _). f k) kvs)" using Cons.prems by (auto simp: kx)
  from Cons.IH [OF this] show ?case by (simp add: kx upd)
qed simp

lemma expanded_properties:
  assumes "distinct (map (\<lambda>(k, _). clean_key k) fs)"
  shows "sch_properties (expandValue (VObj fs)) =
    map (\<lambda>(k, d). (clean_key k, if key_is_array k then Schema ''ARRAY'' [] (Some (expandValue d)) [] [] [] else expandValue d)) fs"
proof -
  have "distinct (map fst [] @ map (\<lambda>(k, _). clean_key k) (map (\<lambda>(k, v). (k, expandValue v)) fs))"
    using assms by (simp add: comp_def case_prod_unfold)
  from fold_set_fresh [where f = clean_key and g = "\<lambda>k sch. if key_is_array k then Schema ''ARRAY'' [] (Some sch) [] [] [] else sch", OF this]
  show ?thesis by (simp add: comp_def case_prod_unfold)
qed

lemma validate_array:
  "validateValue (Schema ''ARRAY'' [] (Some s) [] [] []) x path = None \<longleftrightarrow>
     (\<exists>xs. x = VArr xs \<and> (\<forall>i<length xs. validateValue s (xs ! i) (path @ ''['' @ itoa (int i) @ '']'') = None))"
proof -
  have "zip [0..<length xs] xs = map (\<lambda>i. (i, xs ! i)) [0..<length xs]" for xs :: "jvalue list" by (rule nth_equalityI) auto
  then show ?thesis by (cases x) auto
qed

lemma validate_object:
  "validateValue (Schema ''OBJECT'' ps it req en ds) (VObj m) path = None \<longleftrightarrow>
     (\<forall>r\<in>set req. gm_get m r \<noteq> None) \<and>
     (\<forall>(k, p)\<in>set ps. case gm_get m k of None \<Rightarrow> True | Some x \<Rightarrow> validateValue p x (fieldPath path k) = None)"
proof (cases "find (\<lambda>r. gm_get m r = None) req")
  case None
  then have "\<forall>r\<in>set req. gm_get m r \<noteq> None" by (auto simp: find_None_iff)
  with None show ?thesis by (auto split: option.splits)
next
  case (Some r)
  then have "r \<in> set req" "gm_get m r = None" by (auto simp: find_Some_iff)
  with Some show ?thesis by auto
qed

lemma validate_expanded: "well_keyed d \<Longrightarrow> validateValue (expandValue d) v path = None \<longleftrightarrow> dsl_ok d v"
proof (induction d arbitrary: v path rule: expandValue.induct)
  case (1 t)
  show ?case by (simp add: validate_typeString)
next
  case (2 fs)
  let ?S = "expandValue (VObj fs)"
  have dist: "distinct (map (\<lambda>(k, _). clean_key k) fs)" and wk: "\<And>k d. (k, d) \<in> set fs \<Longrightarrow> well_keyed d" using 2(2) by auto
  have IH: "validateValue (expandValue d) y p = None \<longleftrightarrow> dsl_ok d y" if "(k, d) \<in> set fs" for k d y p
    using 2(1) [OF that _ wk [OF that]] by simp
  have parts: "?S = Schema ''OBJECT'' (sch_properties ?S) None (map (\<lambda>(k, v). clean_key k) (filter (\<lambda>(k, v). \<not> key_is_optional k) fs)) [] []"
    by simp
  have member: "validateValue (if key_is_array k then Schema ''ARRAY'' [] (Some (expandValue d)) [] [] [] else expandValue d) x p = None \<longleftrightarrow>
      (if key_is_array k then \<exists>xs. x = VArr xs \<and> (\<forall>y\<in>set xs. dsl_ok d y) else dsl_ok d x)" if "(k, d) \<in> set fs" for k d x p
    using IH [OF that] by (auto simp: validate_array all_set_conv_all_nth simp del: validateValue.simps)
  show ?case
  proof (cases v)
    case (VObj m)
    have "validateValue ?S v path = None \<longleftrightarrow>
        (\<forall>(k, d)\<in>set fs. \<not> key_is_optional k \<longrightarrow> gm_get m (clean_key k) \<noteq> None) \<and>
        (\<forall>(k, d)\<in>set fs. case gm_get m (clean_key k) of None \<Rightarrow> True
           | Some x \<Rightarrow> validateValue (if key_is_array k then Schema ''ARRAY'' [] (Some (expandValue d)) [] [] [] else expandValue d) x
               (fieldPath path (clean_key k)) = None)"
    proof (subst parts, unfold VObj, subst validate_object, unfold expanded_properties [OF dist], rule arg_cong2 [where f = "(\<and>)"])
      show "(\<forall>r\<in>set (map (\<lambda>(k, v). clean_key k) (filter (\<lambda>(k, v). \<not> key_is_optional k) fs)). gm_get m r \<noteq> None) \<longleftrightarrow>
          (\<forall>(k, d)\<in>set fs. \<not> key_is_optional k \<longrightarrow> gm_get m (clean_key k) \<noteq> None)" by auto
    qed (simp only: set_map ball_simps case_prod_unfold fst_conv snd_conv)
    also have "\<dots> \<longleftrightarrow> dsl_ok (VObj fs) v"
      using member by (fastforce simp: VObj simp del: validateValue.simps expandValue.simps split: option.splits)
    finally show ?thesis .
  qed (simp_all add: expandValue.simps)
qed (auto simp: plain_schema_def validateString_def split: jvalue.splits)

text \<open>C37. With a compact output schema whose keys are distinct, an answer passes \<open>ValidateJSON\<close> exactly if it is JSON and has the shape that the
  notation describes: every member without a question mark is there, and every member that is named has its type.\<close>

theorem output_schema_meaning:
  assumes "well_keyed (VObj m)" and "\<not> isFullSchema m"
  shows "ValidateJSON unmarshal t (the (ExpandOutputSchema (Some m))) = None \<longleftrightarrow> (\<exists>v. unmarshal t = Inr v \<and> dsl_ok (VObj m) v)"
proof -
  have "the (ExpandOutputSchema (Some m)) = expandValue (VObj m)" using assms(2) by (simp add: ExpandOutputSchema_def)
  then show ?thesis
    using validate_expanded [OF assms(1)] by (auto simp: ValidateJSON_def simp del: expandValue.simps dsl_ok.simps split: sum.splits)
qed

definition sample_dsl :: "(string \<times> jvalue) list" where
  "sample_dsl = [(''verdict'', VStr ''pass|fail''), (''notes[]?'', VStr ''string''), (''score'', VStr ''int'')]"

theorem output_schema_meaning_witness:
  "ValidateJSON (\<lambda>t. Inr (VObj [(''verdict'', VStr ''pass''), (''score'', VNum 3)])) [] (the (ExpandOutputSchema (Some sample_dsl))) = None \<and>
   ValidateJSON (\<lambda>t. Inr (VObj [(''verdict'', VStr ''maybe''), (''score'', VNum 3)])) [] (the (ExpandOutputSchema (Some sample_dsl))) \<noteq> None"
proof -
  have keys: "clean_key ''verdict'' = ''verdict''" "clean_key ''notes[]?'' = ''notes''" "clean_key ''score'' = ''score''"
    by (simp_all add: clean_key_def HasPrefix_def HasSuffix_def Let_def)
  have opt: "key_is_optional ''notes[]?''" "\<not> key_is_array ''verdict''" "\<not> key_is_array ''score''" by code_simp+
  have trim: "TrimSpace ''pass'' = ''pass''" "TrimSpace ''fail'' = ''fail''" by (simp_all add: TrimSpace_def is_space_def)
  have wk: "well_keyed (VObj sample_dsl)" by (simp add: sample_dsl_def keys)
  have nf: "\<not> isFullSchema sample_dsl" by (simp add: sample_dsl_def isFullSchema_def gm_get_def)
  have "\<exists>n. (3 :: rat) = of_int n" by (rule exI [of _ 3]) simp
  then have yes: "dsl_ok (VObj sample_dsl) (VObj [(''verdict'', VStr ''pass''), (''score'', VNum 3)])"
    by (simp add: sample_dsl_def keys opt gm_get_def type_ok_def HasPrefix_def trim)
  have no: "\<not> dsl_ok (VObj sample_dsl) (VObj [(''verdict'', VStr ''maybe''), (''score'', VNum 3)])"
    by (simp add: sample_dsl_def keys opt gm_get_def type_ok_def HasPrefix_def trim)
  show ?thesis using output_schema_meaning [OF wk nf] yes no by simp
qed

text \<open>An empty schema is not \<open>nil\<close>: it demands an object.\<close>

lemma empty_schema_demands_object:
  "ExpandOutputSchema (Some []) = Some (plain_schema ''OBJECT'')" "validateValue (plain_schema ''OBJECT'') (VStr t) [] \<noteq> None"
  by (simp_all add: ExpandOutputSchema_def isFullSchema_def plain_schema_def)

end
