(* ===== verification/Agent_Config.thy ===== *)
theory Agent_Config
  imports Agent_Schema
begin

text \<open>
  The configuration of an agent, \<open>runtime/agent/config.go\<close>, \<open>result.go\<close>; the choice of the model and its settings,
  \<open>runtime/agent/model/model.go\<close>; the system instruction, \<open>system_prompt.go\<close>. The callbacks of a configuration change the
  caller's state. A \<open>float32\<close> is a rational here.
\<close>

section \<open>Configuration\<close>

record llm_config =
  lm_temperature :: "rat option"
  lm_max_tokens :: "32 word"

record thinking_config =
  tk_budget :: "32 word"
  tk_level :: string

record validation_config =
  va_expr :: string
  va_prompt :: string

record context_task =
  xt_name :: string
  xt_field :: string

record context_file =
  xf_path :: string
  xf_max_bytes :: int

record agent_context =
  ax_tasks :: "context_task list"
  ax_files :: "context_file list"
  ax_max_bytes :: int

record agent_usage =
  au_prompt :: "32 word"
  au_completion :: "32 word"
  au_total :: "32 word"
  au_requests :: nat
  au_tool_calls :: nat

definition zero_usage :: agent_usage where
  "zero_usage = \<lparr>au_prompt = 0, au_completion = 0, au_total = 0, au_requests = 0, au_tool_calls = 0\<rparr>"

text \<open>\<open>AuditUsage\<close>, and the token counts that the model reports: of the prompt, of the completion, in total.\<close>

type_synonym token_counts = "32 word \<times> 32 word \<times> 32 word"

record audit_event =
  ae_timestamp :: string
  ae_invocation :: string
  ae_author :: string
  ae_type :: string
  ae_text :: string
  ae_tool_name :: string
  ae_call_id :: string
  ae_args :: "(string \<times> json) list"
  ae_result :: "(string \<times> json) list"
  ae_usage :: "token_counts option"

definition text_event :: "string \<Rightarrow> string \<Rightarrow> string \<Rightarrow> string \<Rightarrow> audit_event" where
  "text_event ts author kind txt =
     \<lparr>ae_timestamp = ts, ae_invocation = [], ae_author = author, ae_type = kind, ae_text = txt, ae_tool_name = [], ae_call_id = [],
      ae_args = [], ae_result = [], ae_usage = None\<rparr>"

record agent_result =
  ar_text :: string
  ar_status :: string
  ar_usage :: agent_usage
  ar_audit :: "audit_event list"

text \<open>The callbacks that are not \<open>nil\<close>. Each may change the state of the caller.\<close>

record 's agent_callbacks =
  cb_output :: "(string \<Rightarrow> string \<Rightarrow> 's \<Rightarrow> 's) option"
  cb_audit :: "(audit_event \<Rightarrow> 's \<Rightarrow> 's) option"
  cb_usage :: "(agent_usage \<Rightarrow> 's \<Rightarrow> 's) option"

definition no_callbacks :: "'s agent_callbacks" where
  "no_callbacks = \<lparr>cb_output = None, cb_audit = None, cb_usage = None\<rparr>"

record agent_config =
  ag_name :: string
  ag_prompt :: string
  ag_model :: string
  ag_image :: string
  ag_mounts :: "(string, volume_result) gomap"
  ag_output_volume :: string
  ag_llm :: "llm_config option"
  ag_thinking :: "thinking_config option"
  ag_safety :: "(string, string) gomap"
  ag_context_guard :: "context_guard option"
  ag_limits :: "limits_config option"
  ag_context :: "agent_context option"
  ag_validation :: "validation_config option"
  ag_tools :: "tool_def list"
  ag_output_schema :: "(string \<times> jvalue) list option"
  ag_tool_timeout :: string
  ag_memory :: "memory_config option"
  ag_storage :: bool
  ag_namespace :: string
  ag_run_id :: string
  ag_pipeline_id :: string
  ag_triggered_by :: string
  ag_base_urls :: "(string, string) gomap"

section \<open>The model\<close>

definition to_upper :: "char \<Rightarrow> char" where
  "to_upper c = (if 97 \<le> (of_char c :: nat) \<and> (of_char c :: nat) \<le> 122 then char_of (of_char c - 32 :: nat) else c)"

definition ToUpper :: "string \<Rightarrow> string" where
  "ToUpper s = map to_upper s"

definition SplitModel :: "string \<Rightarrow> string \<times> string" where
  "SplitModel m = (case find_at m ''/'' 0 of None \<Rightarrow> (m, m) | Some i \<Rightarrow> (take i m, drop (i + 1) m))"

definition ResolveSecret :: "(string \<Rightarrow> string \<Rightarrow> secret_result) option \<Rightarrow> string \<Rightarrow> string \<Rightarrow> string" where
  "ResolveSecret sm pipelineID key =
     (case sm of
        None \<Rightarrow> []
      | Some get \<Rightarrow>
          (let global = (case get GlobalScope key of Secret v \<Rightarrow> v | _ \<Rightarrow> []) in
           if pipelineID \<noteq> [] then (case get (PipelineScope pipelineID) key of Secret v \<Rightarrow> v | _ \<Rightarrow> global) else global))"

text \<open>The key of a provider: a secret, else \<open>PROVIDER_API_KEY\<close> of the environment.\<close>

definition api_key :: "(string \<Rightarrow> string \<Rightarrow> secret_result) option \<Rightarrow> (string \<Rightarrow> string) \<Rightarrow> string \<Rightarrow> string \<Rightarrow> string" where
  "api_key sm getenv pipelineID provider =
     (let k = ResolveSecret sm pipelineID (''agent/'' @ provider) in
      if k = [] then getenv (ToUpper (map (\<lambda>c. if c = CHR ''-'' then CHR ''_'' else c) provider) @ ''_API_KEY'') else k)"

definition DefaultBaseURLs :: "(string, string) gomap" where
  "DefaultBaseURLs =
     [(''openrouter'', ''https://openrouter.ai/api/v1''), (''ollama'', ''http://localhost:11434/v1''), (''openai'', ''https://api.openai.com/v1'')]"

text \<open>Key, name, most output tokens and thinking budget; or key, base URL and name.\<close>

datatype llm_model = AnthropicModel string string int int | OpenAIModel string string string

definition gm_str :: "(string, string) gomap \<Rightarrow> string \<Rightarrow> string" where
  "gm_str m k = (case gm_get m k of None \<Rightarrow> [] | Some v \<Rightarrow> v)"

definition Resolve ::
  "string \<Rightarrow> string \<Rightarrow> string \<Rightarrow> llm_config option \<Rightarrow> thinking_config option \<Rightarrow> (string, string) gomap \<Rightarrow> go_error + llm_model" where
  "Resolve provider modelName apiKey llm thinking overrides =
     (if provider = ''anthropic'' then
        (let maxOut = (case llm of None \<Rightarrow> 0 | Some c \<Rightarrow> if sint (lm_max_tokens c) > 0 then sint (lm_max_tokens c) else 0);
             budget = (case thinking of None \<Rightarrow> 0 | Some t \<Rightarrow> if sint (tk_budget t) > 0 then sint (tk_budget t) else 0)
         in Inr (AnthropicModel apiKey modelName (if budget > 0 \<and> maxOut = 0 then 8192 else maxOut) budget))
      else
        (let own = gm_str overrides provider; url = (if own = [] then gm_str DefaultBaseURLs provider else own) in
         if url = []
         then Inl (Plain (''unknown provider '' @ go_quote provider @ '': set a base URL or use anthropic/openai/openrouter/ollama''))
         else Inr (OpenAIModel apiKey url modelName)))"

definition HarmCategoryFromString :: "string \<Rightarrow> string" where
  "HarmCategoryFromString s = ''HARM_CATEGORY_'' @ ToUpper s"

definition HarmThresholdFromString :: "string \<Rightarrow> string" where
  "HarmThresholdFromString s = ToUpper s"

record generation_config =
  gn_temperature :: "rat option"
  gn_max_tokens :: "32 word"
  gn_thinking :: "(32 word \<times> string) option"
  gn_safety :: "(string \<times> string) list"

definition BuildGenerateContentConfig ::
  "string \<Rightarrow> llm_config option \<Rightarrow> thinking_config option \<Rightarrow> (string, string) gomap \<Rightarrow> generation_config option" where
  "BuildGenerateContentConfig provider llm thinking safety =
     (let temp = (case llm of None \<Rightarrow> None | Some c \<Rightarrow> lm_temperature c);
          maxTokens = (case llm of None \<Rightarrow> 0 | Some c \<Rightarrow> if sint (lm_max_tokens c) > 0 then lm_max_tokens c else 0);
          think = (if provider = ''anthropic'' then None else map_option (\<lambda>t. (tk_budget t, ToUpper (tk_level t))) thinking)
      in if temp = None \<and> maxTokens = 0 \<and> think = None \<and> safety = [] then None
         else Some \<lparr>gn_temperature = temp, gn_max_tokens = maxTokens, gn_thinking = think,
                gn_safety = map (\<lambda>(c, t). (HarmCategoryFromString c, HarmThresholdFromString t)) safety\<rparr>)"

section \<open>The system instruction\<close>

definition line :: "string \<Rightarrow> string" where
  "line s = s @ newline"

definition env_line :: "string \<Rightarrow> string \<Rightarrow> string" where
  "env_line label v = (if v = [] then [] else line (label @ '': '' @ v))"

definition section_text :: "string \<Rightarrow> string \<Rightarrow> string" where
  "section_text tag body = newline @ line (''<'' @ tag @ ''>'') @ body @ line (''</'' @ tag @ ''>'')"

definition tools_text :: string where
  "tools_text = section_text ''tools''
     (line ''Use dedicated tools instead of run_script when possible:'' @
      line ''- To read files use read_file instead of cat, head, or sed.'' @
      line ''- To search file contents use grep instead of shell grep or rg.'' @
      line ''- To find files by name use glob instead of shell find or ls.'' @
      line ''- To write files use write_file instead of shell redirection.'' @
      line ''- Use run_script only for commands that have no dedicated tool (e.g. git).'')"

definition efficiency_text :: "int \<Rightarrow> string" where
  "efficiency_text maxTurns = section_text ''efficiency''
     (line ''- Each tool call costs one LLM round-trip. Minimise calls.'' @
      line (''- Combine sequential shell steps into one run_script call with '' @ sq @ ''set -e'' @ sq @ ''.'') @
      line ''- If context already contains the data you need, do not re-read it.'' @
      line (''- Budget: '' @ itoa maxTurns @ '' turns.''))"

text \<open>\<open>json.Marshal\<close> of the schema type of the model library is a parameter.\<close>

definition BuildSystemInstruction :: "(schema \<Rightarrow> string option) \<Rightarrow> agent_config \<Rightarrow> int \<Rightarrow> schema option \<Rightarrow> string" where
  "BuildSystemInstruction schemaJSON cfg maxTurns expanded =
     (let env = env_line ''Container image'' (ag_image cfg) @ env_line ''Pipeline run ID'' (ag_run_id cfg) @
                env_line ''Pipeline ID'' (ag_pipeline_id cfg) @ env_line ''Triggered by'' (ag_triggered_by cfg)
      in line ''You are an AI agent operating inside a CI/CD pipeline run. Use the tools available to you to complete the task described in the user message.'' @
         (if env = [] then [] else section_text ''environment'' env) @
         (if ag_mounts cfg = [] then [] else section_text ''volumes'' (concat (map (\<lambda>(name, v). line (''- '' @ name @ ''/'')) (ag_mounts cfg)))) @
         tools_text @ efficiency_text maxTurns @
         (case Option.bind expanded schemaJSON of
            None \<Rightarrow> []
          | Some j \<Rightarrow> section_text ''output_format''
              (line ''Your FINAL response must be valid JSON conforming to this schema:'' @ line j @
               line ''Do not include any text outside the JSON object.'')))"

section \<open>What the model gets\<close>

lemma SplitModel_join:
  assumes "Contains m ''/''"
  shows "m = fst (SplitModel m) @ ''/'' @ snd (SplitModel m)"
proof -
  have split: "\<exists>k. find_at m ''/'' i = Some (i + k) \<and> m = take k m @ ''/'' @ drop (k + 1) m" if "Contains m ''/''" for i
    using that
  proof (induction m arbitrary: i)
    case (Cons c s)
    show ?case
    proof (cases "c = CHR ''/''")
      case True
      then show ?thesis by (auto simp: HasPrefix_def intro: exI [of _ 0])
    next
      case False
      with Cons.prems have "Contains s ''/''" by (simp add: HasPrefix_def)
      from Cons.IH [OF this, of "Suc i"] obtain k where k: "find_at s ''/'' (Suc i) = Some (Suc i + k)" "s = take k s @ ''/'' @ drop (k + 1) s"
        by blast
      have "find_at (c # s) ''/'' i = Some (i + Suc k)" using False k(1) by (simp add: HasPrefix_def)
      moreover have "c # s = take (Suc k) (c # s) @ ''/'' @ drop (Suc k + 1) (c # s)" using k(2) by simp
      ultimately show ?thesis by blast
    qed
  qed simp
  from split [OF assms, of 0] show ?thesis by (auto simp: SplitModel_def)
qed

text \<open>The maximum of output tokens exceeds the thinking budget only if it is configured so, or the budget is below the default.\<close>

lemma anthropic_budget_exceeds_default:
  "Resolve ''anthropic'' m k None (Some \<lparr>tk_budget = 16384, tk_level = []\<rparr>) [] = Inr (AnthropicModel k m 8192 16384)"
  by (simp add: Resolve_def)

end
