(* ===== verification/Agent_Run.thy ===== *)
theory Agent_Run
  imports Agent_Config
begin

text \<open>
  The run of an agent, \<open>runtime/agent/agent.go\<close>, \<open>agent_helpers.go\<close>, \<open>audit.go\<close>, \<open>validation.go\<close> and \<open>context.go\<close>.
  The agent library (sessions, the runner that calls the model and its tools) is a parameter: it yields the next event
  of a run, or an error, or the end, and changes the state on the way. \<open>None\<close> is a run that does not return, or panics.
\<close>

section \<open>The agent library\<close>

text \<open>A part of the content: a call (name, id, arguments), a response (name, id, result), text. \<open>ev_final\<close> is
  \<open>IsFinalResponse\<close>; a timestamp of \<open>None\<close> is zero; a content of \<open>None\<close> is \<open>nil\<close>.\<close>

type_synonym call_part = "string \<times> string \<times> (string \<times> json) list"

record llm_part =
  pt_call :: "call_part option"
  pt_response :: "call_part option"
  pt_text :: string

record llm_event =
  ev_invocation :: string
  ev_author :: string
  ev_timestamp :: "string option"
  ev_usage :: "token_counts option"
  ev_final :: bool
  ev_role :: string
  ev_skip_summarization :: bool
  ev_content :: "llm_part list option"

datatype run_error = Cancelled | RunFailed string

text \<open>The tools of an agent: those of the sandbox and the storage with their timeout, task tools, sub-agents in the same container with
  the agent that was made for them, sub-agents in a container of their own with their model.\<close>

datatype agent_tool =
    BuiltinTool string string
  | TaskTool tool_def string
  | SharedSubAgent tool_def agent_spec
  | OwnSubAgent tool_def string
and agent_spec = AgentSpec (as_name: string) (as_model: llm_model) (as_description: string) (as_instruction: string)
    (as_tools: "agent_tool list") (as_config: "generation_config option")

record 's agent_env =
  en_getenv :: "string \<Rightarrow> string"
  en_secrets :: "(string \<Rightarrow> string \<Rightarrow> secret_result) option"
  en_start :: "sandbox_input \<Rightarrow> 's \<Rightarrow> (go_error + string) \<times> 's"
  en_exec :: "string \<Rightarrow> 's exec_runner"
  en_close :: "string \<Rightarrow> 's \<Rightarrow> 's"
  en_new_tool :: "agent_tool \<Rightarrow> string option"
  en_new_agent :: "agent_spec \<Rightarrow> string option"
  en_new_session :: "'s \<Rightarrow> (string + string) \<times> 's"
  en_new_runner :: "agent_spec \<Rightarrow> string \<Rightarrow> (string \<times> int) option \<Rightarrow> string option"
  en_append :: "string \<Rightarrow> llm_event \<Rightarrow> 's \<Rightarrow> string option \<times> 's"
  en_run :: "string \<Rightarrow> string option \<Rightarrow> 's \<Rightarrow> 's"
  en_next :: "string \<Rightarrow> 's \<Rightarrow> (run_error + llm_event) option \<times> 's"
  en_clock :: "'s \<Rightarrow> string"
  en_uuid :: "'s \<Rightarrow> string \<times> 's"
  en_db :: "'s \<Rightarrow> db"
  en_db_namespace :: string
  en_set :: "string \<Rightarrow> json \<Rightarrow> 's \<Rightarrow> 's"
  en_memory :: "'s memory_store"
  en_since :: "string \<Rightarrow> 's \<Rightarrow> int"
  en_unmarshal :: "string \<Rightarrow> string + jvalue"
  en_schema_json :: "schema \<Rightarrow> string option"
  en_show_float :: "rat \<Rightarrow> string"
  en_expr :: "string \<Rightarrow> string \<Rightarrow> string + bool"

section \<open>Usage and the audit log\<close>

record agent_log =
  al_usage :: agent_usage
  al_audit :: "audit_event list"
  al_text :: string
  al_result :: string

definition empty_log :: agent_log where
  "empty_log = \<lparr>al_usage = zero_usage, al_audit = [], al_text = [], al_result = []\<rparr>"

definition EmitUsageSnapshot :: "'s agent_callbacks \<Rightarrow> agent_usage \<Rightarrow> 's \<Rightarrow> 's" where
  "EmitUsageSnapshot cb usage st = (case cb_usage cb of None \<Rightarrow> st | Some f \<Rightarrow> f usage st)"

definition AppendAuditEvent :: "'s agent_callbacks \<Rightarrow> audit_event \<Rightarrow> agent_log \<times> 's \<Rightarrow> agent_log \<times> 's" where
  "AppendAuditEvent cb e ls =
     (let (l, st) = ls in
      (l\<lparr>al_audit := al_audit l @ [e]\<rparr>, case cb_audit cb of None \<Rightarrow> st | Some f \<Rightarrow> f e st))"

definition add_usage :: "token_counts \<Rightarrow> agent_usage \<Rightarrow> agent_usage" where
  "add_usage c u =
     u\<lparr>au_prompt := au_prompt u + fst c, au_completion := au_completion u + fst (snd c), au_total := au_total u + snd (snd c),
       au_requests := au_requests u + 1\<rparr>"

definition accumulateUsage :: "'s agent_callbacks \<Rightarrow> token_counts \<Rightarrow> agent_log \<times> 's \<Rightarrow> agent_log \<times> 's" where
  "accumulateUsage cb c ls =
     (let (l, st) = ls; u = add_usage c (al_usage l) in (l\<lparr>al_usage := u\<rparr>, EmitUsageSnapshot cb u st))"

definition processTextOutput :: "'s agent_callbacks \<Rightarrow> audit_event \<Rightarrow> agent_log \<times> 's \<Rightarrow> agent_log \<times> 's" where
  "processTextOutput cb e ls =
     (let (l, st) = ls in
      AppendAuditEvent cb e
        (l\<lparr>al_text := al_text l @ ae_text e\<rparr>, case cb_output cb of None \<Rightarrow> st | Some f \<Rightarrow> f ''stdout'' (ae_text e) st))"

definition count_tool_call :: "agent_log \<Rightarrow> agent_log" where
  "count_tool_call l = l\<lparr>al_usage := (al_usage l)\<lparr>au_tool_calls := au_tool_calls (al_usage l) + 1\<rparr>\<rparr>"

definition call_event :: "string \<Rightarrow> llm_event \<Rightarrow> call_part \<Rightarrow> audit_event" where
  "call_event ts ev c =
     (text_event ts (ev_author ev) ''tool_call'' [])\<lparr>ae_invocation := ev_invocation ev, ae_tool_name := fst c, ae_call_id := fst (snd c),
        ae_args := snd (snd c)\<rparr>"

definition response_event :: "string \<Rightarrow> llm_event \<Rightarrow> call_part \<Rightarrow> audit_event" where
  "response_event ts ev c =
     (text_event ts (ev_author ev) ''tool_response'' [])\<lparr>ae_invocation := ev_invocation ev, ae_tool_name := fst c, ae_call_id := fst (snd c),
        ae_result := snd (snd c)\<rparr>"

definition part_call :: "'s agent_callbacks \<Rightarrow> string \<Rightarrow> llm_event \<Rightarrow> llm_part \<Rightarrow> agent_log \<times> 's \<Rightarrow> agent_log \<times> 's" where
  "part_call cb ts ev p ls =
     (case pt_call p of
        None \<Rightarrow> ls
      | Some c \<Rightarrow>
          (let (l, st) = AppendAuditEvent cb (call_event ts ev c) (count_tool_call (fst ls), snd ls) in
           (l, EmitUsageSnapshot cb (al_usage l) st)))"

definition part_response :: "'s agent_callbacks \<Rightarrow> string \<Rightarrow> llm_event \<Rightarrow> llm_part \<Rightarrow> agent_log \<times> 's \<Rightarrow> agent_log \<times> 's" where
  "part_response cb ts ev p ls =
     (case pt_response p of None \<Rightarrow> ls | Some c \<Rightarrow> AppendAuditEvent cb (response_event ts ev c) ls)"

text \<open>The usage of the event goes to its first text.\<close>

definition part_text :: "'s agent_callbacks \<Rightarrow> string \<Rightarrow> llm_event \<Rightarrow> token_counts option \<Rightarrow> llm_part \<Rightarrow> agent_log \<times> 's \<Rightarrow> agent_log \<times> 's" where
  "part_text cb ts ev usage p ls =
     (if pt_text p = [] then ls
      else
        (let e = (text_event ts (ev_author ev) (if ev_final ev then ''model_final'' else ''model_text'') (pt_text p))
                   \<lparr>ae_invocation := ev_invocation ev, ae_usage := usage\<rparr>;
             (l, st) = processTextOutput cb e ls
         in (if ev_final ev then l\<lparr>al_result := al_result l @ pt_text p\<rparr> else l, st)))"

fun process_parts ::
  "'s agent_callbacks \<Rightarrow> string \<Rightarrow> llm_event \<Rightarrow> token_counts option \<Rightarrow> llm_part list \<Rightarrow> agent_log \<times> 's \<Rightarrow> agent_log \<times> 's" where
  "process_parts cb ts ev usage [] ls = ls"
| "process_parts cb ts ev usage (p # ps) ls =
     process_parts cb ts ev (if pt_text p = [] then usage else None) ps
       (part_text cb ts ev usage p (part_response cb ts ev p (part_call cb ts ev p ls)))"

definition processEventParts ::
  "'s agent_env \<Rightarrow> 's agent_callbacks \<Rightarrow> llm_event \<Rightarrow> token_counts option \<Rightarrow> agent_log \<times> 's \<Rightarrow> agent_log \<times> 's" where
  "processEventParts en cb ev usage ls =
     (case ev_content ev of
        None \<Rightarrow> ls
      | Some parts \<Rightarrow>
          process_parts cb (case ev_timestamp ev of Some t \<Rightarrow> t | None \<Rightarrow> en_clock en (snd ls)) ev usage parts ls)"

section \<open>The loop and its limits\<close>

definition limitWarningTurnsBefore :: int where
  "limitWarningTurnsBefore = 2"

definition warn :: "'s agent_env \<Rightarrow> 's agent_callbacks \<Rightarrow> string \<Rightarrow> agent_log \<times> 's \<Rightarrow> agent_log \<times> 's" where
  "warn en cb txt ls = AppendAuditEvent cb (text_event (en_clock en (snd ls)) ''system'' ''limit_warning'' txt) ls"

definition approaching_text :: "int \<Rightarrow> int \<Rightarrow> string" where
  "approaching_text turns maxTurns =
     ''You are approaching your turn limit ('' @ itoa turns @ ''/'' @ itoa maxTurns @ '' turns used). Please wrap up your current task and '' @
     ''provide a final response within the next '' @ itoa limitWarningTurnsBefore @ '' turn(s).''"

definition checkAgentLimits ::
  "'s agent_env \<Rightarrow> 's agent_callbacks \<Rightarrow> int \<Rightarrow> int \<Rightarrow> 32 word \<Rightarrow> bool \<Rightarrow> agent_log \<times> 's \<Rightarrow> bool \<times> bool \<times> agent_log \<times> 's" where
  "checkAgentLimits en cb turns maxTurns maxTotal warned ls =
     (let used = sint (au_total (al_usage (fst ls))) in
      if sint maxTotal > 0 \<and> used \<ge> sint maxTotal then
        (True, warned, warn en cb (''Total token budget exhausted ('' @ itoa used @ ''/'' @ itoa (sint maxTotal) @ '' tokens used). Stopping agent.'') ls)
      else
        (let near = (\<not> warned \<and> turns = maxTurns - limitWarningTurnsBefore);
             ls1 = (if near then warn en cb (approaching_text turns maxTurns) ls else ls)
         in if turns \<ge> maxTurns
            then (True, near, warn en cb (''Turn limit reached ('' @ itoa turns @ ''/'' @ itoa maxTurns @ ''). Stopping agent.'') ls1)
            else (False, near, ls1)))"

text \<open>One event: whether the loop ends on a limit, the turns, whether a warning was given, log and state.\<close>

definition loop_event ::
  "'s agent_env \<Rightarrow> 's agent_callbacks \<Rightarrow> int \<Rightarrow> 32 word \<Rightarrow> llm_event \<Rightarrow> int \<Rightarrow> bool \<Rightarrow> agent_log \<times> 's \<Rightarrow> bool \<times> int \<times> bool \<times> agent_log \<times> 's" where
  "loop_event en cb maxTurns maxTotal ev turns warned ls =
     (case ev_usage ev of
        None \<Rightarrow> (False, turns, warned, processEventParts en cb ev None ls)
      | Some c \<Rightarrow>
          (let (exceeded, w, ls1) = checkAgentLimits en cb (turns + 1) maxTurns maxTotal warned (accumulateUsage cb c ls) in
           if exceeded then (True, turns + 1, warned, ls1)
           else (False, turns + 1, w \<or> warned, processEventParts en cb ev (Some c) ls1)))"

partial_function (option) agent_loop ::
  "'s agent_env \<Rightarrow> 's agent_callbacks \<Rightarrow> string \<Rightarrow> int \<Rightarrow> 32 word \<Rightarrow> int \<Rightarrow> bool \<Rightarrow> agent_log \<times> 's \<Rightarrow> ((string + bool) \<times> agent_log \<times> 's) option" where
  "agent_loop en cb sess maxTurns maxTotal turns warned ls =
     (case en_next en sess (snd ls) of
        (None, st) \<Rightarrow> Some (Inr False, fst ls, st)
      | (Some (Inl Cancelled), st) \<Rightarrow> Some (Inr False, fst ls, st)
      | (Some (Inl (RunFailed m)), st) \<Rightarrow> Some (Inl m, fst ls, st)
      | (Some (Inr ev), st) \<Rightarrow>
          (case loop_event en cb maxTurns maxTotal ev turns warned (fst ls, st) of
             (exceeded, turns', warned', ls') \<Rightarrow>
               if exceeded then Some (Inr True, ls') else agent_loop en cb sess maxTurns maxTotal turns' warned' ls'))"

definition executeAgentLoop ::
  "'s agent_env \<Rightarrow> 's agent_callbacks \<Rightarrow> string \<Rightarrow> int \<Rightarrow> 32 word \<Rightarrow> agent_log \<times> 's \<Rightarrow> ((go_error + bool) \<times> agent_log \<times> 's) option" where
  "executeAgentLoop en cb sess maxTurns maxTotal ls =
     map_option (apfst (map_sum (\<lambda>m. Wrapped ''agent: run failed'' (Plain m)) id))
       (agent_loop en cb sess maxTurns maxTotal 0 False (fst ls, en_run en sess None (snd ls)))"

section \<open>Validation\<close>

definition json_type_name :: "jvalue \<Rightarrow> string" where
  "json_type_name v =
     (case v of VNull \<Rightarrow> ''<nil>'' | VBool _ \<Rightarrow> ''bool'' | VNum _ \<Rightarrow> ''float64'' | VStr _ \<Rightarrow> ''string''
      | VArr _ \<Rightarrow> ''[]interface {}'' | VObj _ \<Rightarrow> ''map[string]interface {}'')"

definition schema_error_text :: "(rat \<Rightarrow> string) \<Rightarrow> schema_error \<Rightarrow> string" where
  "schema_error_text show_float e =
     (case e of
        Invalid_JSON m \<Rightarrow> ''invalid JSON: '' @ m
      | Expected t p v \<Rightarrow> ''expected '' @ t @ '' at '' @ go_quote p @ '', got '' @ json_type_name v
      | Missing_field p \<Rightarrow> ''missing required field '' @ go_quote p
      | Not_integral p q \<Rightarrow> ''expected integer at '' @ go_quote p @ '', got float '' @ show_float q
      | Not_in_enum t p ts \<Rightarrow> ''value '' @ go_quote t @ '' at '' @ go_quote p @ '' not in enum ['' @ JoinStr ts '' '' @ '']'')"

definition no_answer_text :: string where
  "no_answer_text = ''You have not provided a final text response yet. Please produce your complete response now based on the information you have gathered.''"

definition system_note :: "'s agent_env \<Rightarrow> 's agent_callbacks \<Rightarrow> string \<Rightarrow> string \<Rightarrow> agent_log \<times> 's \<Rightarrow> agent_log \<times> 's" where
  "system_note en cb kind txt ls = AppendAuditEvent cb (text_event (en_clock en (snd ls)) ''system'' kind txt) ls"

definition schema_followup :: "string \<Rightarrow> string" where
  "schema_followup m =
     ''Your response is not valid JSON conforming to the required schema. Error: '' @ m @
     ''. Please output ONLY a valid JSON object matching the schema, with no surrounding text.''"

text \<open>The follow-up to send, if any. The expression sees the text and the status \<open>success\<close>.\<close>

definition evaluateValidation ::
  "'s agent_env \<Rightarrow> 's agent_callbacks \<Rightarrow> agent_config \<Rightarrow> schema option \<Rightarrow> agent_log \<times> 's \<Rightarrow> string option \<times> agent_log \<times> 's" where
  "evaluateValidation en cb cfg expanded ls =
     (let txt = al_result (fst ls) in
      if txt = [] then (Some no_answer_text, ls)
      else
        (case Option.bind expanded (ValidateJSON (en_unmarshal en) txt) of
           Some e \<Rightarrow>
             (let m = schema_followup (schema_error_text (en_show_float en) e) in (Some m, system_note en cb ''schema_validation_error'' m ls))
         | None \<Rightarrow>
             (case ag_validation cfg of
                None \<Rightarrow> (None, ls)
              | Some v \<Rightarrow>
                  (let again = (if va_prompt v \<noteq> [] then va_prompt v else no_answer_text) in
                   if va_expr v = [] then (None, ls)
                   else
                     (case en_expr en (va_expr v) txt of
                        Inl m \<Rightarrow> (Some again, system_note en cb ''validation_error'' (''Validation expression error: '' @ m) ls)
                      | Inr passed \<Rightarrow> (if passed then None else Some again, ls))))))"

text \<open>A follow-up knows no limits.\<close>

definition followup_event :: "'s agent_env \<Rightarrow> 's agent_callbacks \<Rightarrow> llm_event \<Rightarrow> agent_log \<times> 's \<Rightarrow> agent_log \<times> 's" where
  "followup_event en cb ev ls =
     processEventParts en cb ev None (case ev_usage ev of None \<Rightarrow> ls | Some c \<Rightarrow> accumulateUsage cb c ls)"

partial_function (option) followup_loop ::
  "'s agent_env \<Rightarrow> 's agent_callbacks \<Rightarrow> string \<Rightarrow> agent_log \<times> 's \<Rightarrow> (string option \<times> agent_log \<times> 's) option" where
  "followup_loop en cb sess ls =
     (case en_next en sess (snd ls) of
        (None, st) \<Rightarrow> Some (None, fst ls, st)
      | (Some (Inl Cancelled), st) \<Rightarrow> Some (None, fst ls, st)
      | (Some (Inl (RunFailed m)), st) \<Rightarrow> Some (Some m, fst ls, st)
      | (Some (Inr ev), st) \<Rightarrow> followup_loop en cb sess (followup_event en cb ev (fst ls, st)))"

definition runValidationFollowUp ::
  "'s agent_env \<Rightarrow> 's agent_callbacks \<Rightarrow> agent_config \<Rightarrow> schema option \<Rightarrow> string \<Rightarrow> agent_log \<times> 's \<Rightarrow> (string option \<times> agent_log \<times> 's) option" where
  "runValidationFollowUp en cb cfg expanded sess ls =
     (case evaluateValidation en cb cfg expanded ls of
        (None, ls1) \<Rightarrow> Some (None, ls1)
      | (Some m, ls1) \<Rightarrow>
          (let (l, st) = system_note en cb ''validation_followup'' m ls1 in
           followup_loop en cb sess (l\<lparr>al_result := []\<rparr>, en_run en sess (Some m) st)))"

section \<open>The limits hold\<close>

text \<open>The library makes progress on its own between two answers of the model, whatever the callbacks do.\<close>

definition quiet_progress :: "'s agent_env \<Rightarrow> 's agent_callbacks \<Rightarrow> string \<Rightarrow> ('s \<Rightarrow> nat) \<Rightarrow> bool" where
  "quiet_progress en cb sess rank \<longleftrightarrow>
     (\<forall>st ev st'. en_next en sess st = (Some (Inr ev), st') \<longrightarrow> ev_usage ev = None \<longrightarrow> rank st' < rank st) \<and>
     (\<forall>f. cb_output cb = Some f \<longrightarrow> (\<forall>stream t st. rank (f stream t st) = rank st)) \<and>
     (\<forall>f. cb_audit cb = Some f \<longrightarrow> (\<forall>e st. rank (f e st) = rank st)) \<and>
     (\<forall>f. cb_usage cb = Some f \<longrightarrow> (\<forall>u st. rank (f u st) = rank st))"

lemma quiet_progress_callbacks:
  assumes "quiet_progress en cb sess rank"
  shows "rank (snd (AppendAuditEvent cb e ls)) = rank (snd ls)" "rank (EmitUsageSnapshot cb u st) = rank st"
    "rank (snd (processTextOutput cb e ls)) = rank (snd ls)"
proof -
  show a: "rank (snd (AppendAuditEvent cb e ls)) = rank (snd ls)" for ls
    using assms by (auto simp: quiet_progress_def AppendAuditEvent_def split: prod.split option.split)
  show "rank (EmitUsageSnapshot cb u st) = rank st"
    using assms by (auto simp: quiet_progress_def EmitUsageSnapshot_def split: option.split)
  show "rank (snd (processTextOutput cb e ls)) = rank (snd ls)"
    using assms by (auto simp: quiet_progress_def processTextOutput_def Let_def a split: prod.split option.split)
qed

lemma quiet_progress_parts:
  assumes "quiet_progress en cb sess rank"
  shows "rank (snd (process_parts cb ts ev usage ps ls)) = rank (snd ls)"
proof (induction ps arbitrary: usage ls)
  case (Cons p ps)
  have "rank (snd (part_call cb ts ev p ls)) = rank (snd ls)" for ls
    using quiet_progress_callbacks(1) [OF assms, of _ "(count_tool_call (fst ls), snd ls)"]
    by (simp add: part_call_def Let_def split_def quiet_progress_callbacks(2) [OF assms] split: option.split)
  moreover have "rank (snd (part_response cb ts ev p ls)) = rank (snd ls)" for ls
    by (auto simp: part_response_def quiet_progress_callbacks(1) [OF assms] split: option.split)
  moreover have "rank (snd (part_text cb ts ev usage p ls)) = rank (snd ls)" for ls
    using quiet_progress_callbacks(3) [OF assms] by (simp add: part_text_def Let_def split_def)
  ultimately show ?case by (simp add: Cons.IH)
qed simp

lemma quiet_progress_event:
  assumes "quiet_progress en cb sess rank"
  shows "rank (snd (processEventParts en cb ev usage ls)) = rank (snd ls)"
  by (simp add: processEventParts_def quiet_progress_parts [OF assms] split: option.split)

text \<open>What parts do to the usage: nothing but counting tool calls.\<close>

definition same_tokens :: "agent_log \<Rightarrow> agent_log \<Rightarrow> bool" where
  "same_tokens l l' \<longleftrightarrow> au_requests (al_usage l') = au_requests (al_usage l) \<and> au_total (al_usage l') = au_total (al_usage l)"

lemma same_tokens_refl [simp]: "same_tokens l l"
  by (simp add: same_tokens_def)

lemma same_tokens_trans: "same_tokens a b \<Longrightarrow> same_tokens b c \<Longrightarrow> same_tokens a c"
  by (simp add: same_tokens_def)

lemma audit_same_tokens [simp]: "same_tokens l (fst (AppendAuditEvent cb e (l, st)))"
  by (simp add: AppendAuditEvent_def same_tokens_def)

lemma audit_fst: "fst (AppendAuditEvent cb e ls) = (fst ls)\<lparr>al_audit := al_audit (fst ls) @ [e]\<rparr>"
  by (simp add: AppendAuditEvent_def split: prod.split)

lemma text_output_fst:
  "fst (processTextOutput cb e ls) = (fst ls)\<lparr>al_text := al_text (fst ls) @ ae_text e, al_audit := al_audit (fst ls) @ [e]\<rparr>"
  by (simp add: processTextOutput_def audit_fst split: prod.split)

lemma part_call_fst:
  "fst (part_call cb ts ev p ls) =
     (case pt_call p of None \<Rightarrow> fst ls
      | Some c \<Rightarrow> (count_tool_call (fst ls))\<lparr>al_audit := al_audit (fst ls) @ [call_event ts ev c]\<rparr>)"
  using audit_fst [of cb _ "(count_tool_call (fst ls), snd ls)"]
  by (simp add: part_call_def Let_def split_def count_tool_call_def split: option.split)

lemma part_response_fst:
  "fst (part_response cb ts ev p ls) =
     (case pt_response p of None \<Rightarrow> fst ls | Some c \<Rightarrow> (fst ls)\<lparr>al_audit := al_audit (fst ls) @ [response_event ts ev c]\<rparr>)"
  by (simp add: part_response_def audit_fst split: option.split)

lemma part_text_fst:
  "fst (part_text cb ts ev usage p ls) =
     (if pt_text p = [] then fst ls
      else (fst ls)\<lparr>al_text := al_text (fst ls) @ pt_text p,
             al_audit := al_audit (fst ls) @ [(text_event ts (ev_author ev) (if ev_final ev then ''model_final'' else ''model_text'') (pt_text p))
                   \<lparr>ae_invocation := ev_invocation ev, ae_usage := usage\<rparr>],
             al_result := al_result (fst ls) @ (if ev_final ev then pt_text p else [])\<rparr>)"
proof -
  let ?e = "(text_event ts (ev_author ev) (if ev_final ev then ''model_final'' else ''model_text'') (pt_text p))
              \<lparr>ae_invocation := ev_invocation ev, ae_usage := usage\<rparr>"
  have "fst (part_text cb ts ev usage p ls) = (if pt_text p = [] then fst ls
      else (let l = fst (processTextOutput cb ?e ls) in if ev_final ev then l\<lparr>al_result := al_result l @ pt_text p\<rparr> else l))"
    by (simp add: part_text_def Let_def split: prod.split)
  then show ?thesis by (cases "ev_final ev") (simp_all add: text_output_fst text_event_def Let_def)
qed

lemmas parts_fst = part_call_fst part_response_fst part_text_fst

lemma process_parts_same_tokens: "same_tokens (fst ls) (fst (process_parts cb ts ev usage ps ls))"
proof (induction ps arbitrary: usage ls)
  case (Cons p ps)
  have "same_tokens (fst ls) (fst (part_text cb ts ev usage p (part_response cb ts ev p (part_call cb ts ev p ls))))"
    by (auto simp: parts_fst count_tool_call_def same_tokens_def split: option.split)
  from same_tokens_trans [OF this Cons.IH] show ?case by simp
qed simp

lemma processEventParts_same_tokens: "same_tokens (fst ls) (fst (processEventParts en cb ev usage ls))"
  by (simp add: processEventParts_def process_parts_same_tokens split: option.split)

definition limit_hit :: "int \<Rightarrow> 32 word \<Rightarrow> agent_usage \<Rightarrow> bool" where
  "limit_hit maxTurns maxTotal u \<longleftrightarrow> int (au_requests u) \<ge> maxTurns \<or> 0 < sint maxTotal \<and> sint maxTotal \<le> sint (au_total u)"

lemma limit_hit_same: "same_tokens l l' \<Longrightarrow> limit_hit m t (al_usage l') = limit_hit m t (al_usage l)"
  by (simp add: same_tokens_def limit_hit_def)

lemma checkAgentLimits_cases:
  assumes "checkAgentLimits en cb turns maxTurns maxTotal warned ls = (exceeded, w, ls')"
  shows "same_tokens (fst ls) (fst ls') \<and> (exceeded \<longleftrightarrow> turns \<ge> maxTurns \<or> 0 < sint maxTotal \<and> sint maxTotal \<le> sint (au_total (al_usage (fst ls))))"
  using assms by (auto simp: checkAgentLimits_def warn_def same_tokens_def audit_fst Let_def split: if_splits)

lemma checkAgentLimits_rank:
  assumes "quiet_progress en cb sess rank"
  shows "rank (snd (snd (snd (checkAgentLimits en cb turns maxTurns maxTotal warned ls)))) = rank (snd ls)"
  by (simp add: checkAgentLimits_def warn_def Let_def quiet_progress_callbacks(1) [OF assms])

text \<open>One event: the turns are the requests, and the loop stops exactly when a limit is hit.\<close>

lemma loop_event_limits:
  assumes "loop_event en cb maxTurns maxTotal ev turns warned ls = (exceeded, turns', warned', ls')"
    and "turns = int (au_requests (al_usage (fst ls)))" and "\<not> limit_hit maxTurns maxTotal (al_usage (fst ls))"
  shows "turns' = int (au_requests (al_usage (fst ls'))) \<and> (exceeded \<longleftrightarrow> limit_hit maxTurns maxTotal (al_usage (fst ls'))) \<and>
    turns' \<le> turns + 1"
proof (cases "ev_usage ev")
  case None
  with assms(1) have "\<not> exceeded \<and> turns' = turns \<and> ls' = processEventParts en cb ev None ls" by (simp add: loop_event_def)
  moreover have "same_tokens (fst ls) (fst (processEventParts en cb ev None ls))" by (rule processEventParts_same_tokens)
  ultimately show ?thesis using assms(2,3) by (simp add: limit_hit_same) (simp add: same_tokens_def)
next
  case (Some c)
  define ls1 where "ls1 = accumulateUsage cb c ls"
  obtain ex w ls2 where chk: "checkAgentLimits en cb (turns + 1) maxTurns maxTotal warned ls1 = (ex, w, ls2)" by (metis prod_cases3)
  from checkAgentLimits_cases [OF chk] have chk': "same_tokens (fst ls1) (fst ls2)"
    "ex \<longleftrightarrow> turns + 1 \<ge> maxTurns \<or> 0 < sint maxTotal \<and> sint maxTotal \<le> sint (au_total (al_usage (fst ls1)))" by auto
  have req: "au_requests (al_usage (fst ls1)) = Suc (au_requests (al_usage (fst ls)))"
    by (simp add: ls1_def accumulateUsage_def add_usage_def Let_def split: prod.split)
  then have ex: "ex \<longleftrightarrow> limit_hit maxTurns maxTotal (al_usage (fst ls2))"
    using chk' assms(2) by (auto simp: limit_hit_def same_tokens_def)
  let ?ls3 = "processEventParts en cb ev (Some c) ls2"
  have "exceeded = ex \<and> turns' = turns + 1 \<and> ls' = (if ex then ls2 else ?ls3)"
    using assms(1) Some chk by (auto simp: loop_event_def ls1_def [symmetric])
  moreover have "same_tokens (fst ls2) (fst ?ls3)" by (rule processEventParts_same_tokens)
  ultimately have "same_tokens (fst ls2) (fst ls') \<and> exceeded = ex \<and> turns' = turns + 1" by simp
  then show ?thesis using ex req chk'(1) assms(2) by (simp add: same_tokens_def limit_hit_def)
qed

lemma loop_event_rank:
  assumes "quiet_progress en cb sess rank"
    and "loop_event en cb maxTurns maxTotal ev turns warned ls = (exceeded, turns', warned', ls')" and "ev_usage ev = None"
  shows "rank (snd ls') = rank (snd ls) \<and> turns' = turns \<and> \<not> exceeded"
  using assms(2,3) quiet_progress_event [OF assms(1), of ev None ls] by (auto simp: loop_event_def)

lemma agent_loop_stops:
  assumes progress: "quiet_progress en cb sess rank"
    and "turns = int (au_requests (al_usage (fst ls)))" and "\<not> limit_hit maxTurns maxTotal (al_usage (fst ls))"
  shows "\<exists>r ls'. agent_loop en cb sess maxTurns maxTotal turns warned ls = Some (r, ls') \<and>
    int (au_requests (al_usage (fst ls'))) \<le> maxTurns \<and> (\<forall>ex. r = Inr ex \<longrightarrow> ex = limit_hit maxTurns maxTotal (al_usage (fst ls')))"
  using assms(2,3)
proof (induction "(nat (maxTurns - turns), rank (snd ls))" arbitrary: turns warned ls
    rule: wf_induct_rule [OF wf_lex_prod [OF wf_less_than wf_less_than], case_names less])
  case less
  have below: "turns < maxTurns" using less.prems by (auto simp: limit_hit_def)
  obtain x st where nx: "en_next en sess (snd ls) = (x, st)" by fastforce
  show ?case
  proof (cases x)
    case None
    with nx less.prems below show ?thesis by (subst agent_loop.simps) auto
  next
    case (Some y)
    show ?thesis
    proof (cases y)
      case (Inl e)
      with Some nx less.prems below show ?thesis by (cases e; subst agent_loop.simps) auto
    next
      case (Inr ev)
      obtain exceeded turns' warned' ls' where le: "loop_event en cb maxTurns maxTotal ev turns warned (fst ls, st) = (exceeded, turns', warned', ls')"
        by (metis prod_cases4)
      have lim: "turns' = int (au_requests (al_usage (fst ls')))" "exceeded = limit_hit maxTurns maxTotal (al_usage (fst ls'))" "turns' \<le> turns + 1"
        using loop_event_limits [OF le] less.prems by auto
      have step: "agent_loop en cb sess maxTurns maxTotal turns warned ls =
          (if exceeded then Some (Inr True, ls') else agent_loop en cb sess maxTurns maxTotal turns' warned' ls')"
        using Some Inr nx le by (subst agent_loop.simps) simp
      show ?thesis
      proof (cases exceeded)
        case True
        with step lim below show ?thesis by auto
      next
        case False
        have "((nat (maxTurns - turns'), rank (snd ls')), (nat (maxTurns - turns), rank (snd ls))) \<in> less_than <*lex*> less_than"
        proof (cases "ev_usage ev")
          case None
          then have "rank st < rank (snd ls)" using progress nx Some Inr by (auto simp: quiet_progress_def)
          moreover have "rank (snd ls') = rank st \<and> turns' = turns" using loop_event_rank [OF progress le None] by simp
          ultimately show ?thesis by simp
        next
          case (Some c)
          then have "turns' = turns + 1" using le by (auto simp: loop_event_def Let_def split: prod.splits if_splits)
          then show ?thesis using below by simp
        qed
        from less.hyps [OF this lim(1)] False lim(2) have "\<exists>r l''. agent_loop en cb sess maxTurns maxTotal turns' warned' ls' = Some (r, l'') \<and>
            int (au_requests (al_usage (fst l''))) \<le> maxTurns \<and> (\<forall>ex. r = Inr ex \<longrightarrow> ex = limit_hit maxTurns maxTotal (al_usage (fst l'')))"
          by simp
        with step False show ?thesis by simp
      qed
    qed
  qed
qed

lemma effective_turns_positive: "0 < fst (EffectiveAgentLimits limits)"
  by (simp add: EffectiveAgentLimits_def split: option.split)

end
