(* ===== verification/Agent_Exec.thy ===== *)
theory Agent_Exec
  imports Agent_Run
begin

text \<open>
  \<open>RunAgent\<close> (\<open>runtime/agent/agent.go\<close>) from the sandbox to the result, what goes into the session before the first turn
  (\<open>context.go\<close>), the tools (\<open>agent_helpers.go\<close>), and sub-agents (\<open>subagent.go\<close>).
\<close>

section \<open>Before the first turn\<close>

definition new_event :: "string \<Rightarrow> string \<Rightarrow> string \<Rightarrow> string \<Rightarrow> llm_part \<Rightarrow> llm_event" where
  "new_event ts invocation author role part =
     \<lparr>ev_invocation = invocation, ev_author = author, ev_timestamp = Some ts, ev_usage = None, ev_final = False, ev_role = role,
      ev_skip_summarization = False, ev_content = Some [part]\<rparr>"

definition seedSessionWithPrompt ::
  "'s agent_env \<Rightarrow> 's agent_callbacks \<Rightarrow> string \<Rightarrow> agent_config \<Rightarrow> string \<Rightarrow> agent_log \<times> 's \<Rightarrow> agent_log \<times> 's" where
  "seedSessionWithPrompt en cb sess cfg now ls =
     (let (inv, st) = en_uuid en (snd ls);
          (_, st1) = en_append en sess
            (new_event (en_clock en st) inv ''user'' ''user'' \<lparr>pt_call = None, pt_response = None, pt_text = ag_prompt cfg\<rparr>) st
      in AppendAuditEvent cb (text_event now ''user'' ''user_message'' (ag_prompt cfg)) (fst ls, st1))"

text \<open>A call and its response go into the session; an error is dropped by every caller.\<close>

definition injectSyntheticToolCall ::
  "'s agent_env \<Rightarrow> string \<Rightarrow> string \<Rightarrow> string \<Rightarrow> (string \<times> json) list \<Rightarrow> (string \<times> json) list \<Rightarrow> 's \<Rightarrow> 's" where
  "injectSyntheticToolCall en sess agentName toolName args res st =
     (let (callID, st1) = en_uuid en st; (inv, st2) = en_uuid en st1;
          (err, st3) = en_append en sess
            (new_event (en_clock en st2) inv agentName ''model'' \<lparr>pt_call = Some (toolName, callID, args), pt_response = None, pt_text = []\<rparr>) st2
      in if err \<noteq> None then st3
         else snd (en_append en sess
                ((new_event (en_clock en st3) inv agentName ''user'' \<lparr>pt_call = None, pt_response = Some (toolName, callID, res), pt_text = []\<rparr>)
                   \<lparr>ev_skip_summarization := True\<rparr>) st3))"

definition pre_context ::
  "'s agent_env \<Rightarrow> 's agent_callbacks \<Rightarrow> string \<Rightarrow> agent_config \<Rightarrow> string \<Rightarrow> string \<Rightarrow> (string \<times> json) list \<Rightarrow> (string \<times> json) list
   \<Rightarrow> agent_log \<times> 's \<Rightarrow> agent_log \<times> 's" where
  "pre_context en cb sess cfg now toolName args res ls =
     AppendAuditEvent cb
       ((text_event now (ag_name cfg) ''pre_context'' [])\<lparr>ae_tool_name := toolName, ae_args := args, ae_result := res\<rparr>)
       (fst ls, injectSyntheticToolCall en sess (ag_name cfg) toolName args res (snd ls))"

definition injectListTasksContext ::
  "'s agent_env \<Rightarrow> 's agent_callbacks \<Rightarrow> string \<Rightarrow> agent_config \<Rightarrow> string \<Rightarrow> agent_log \<times> 's \<Rightarrow> (agent_log \<times> 's) option" where
  "injectListTasksContext en cb sess cfg now ls =
     (if \<not> ag_storage cfg \<or> ag_run_id cfg = [] then Some ls
      else
        map_option (\<lambda>ts. if ts = [] then ls
            else pre_context en cb sess cfg now ''list_tasks'' [] [(''tasks'', JArr (map (\<lambda>t. JObj (TaskSummaryToMap t)) ts))] ls)
          (loadTaskSummaries (en_db_namespace en) (ag_run_id cfg) (en_db en (snd ls))))"

definition payload_member :: "json \<Rightarrow> string \<Rightarrow> json option" where
  "payload_member j k = (case j of JObj m \<Rightarrow> gm_get m k | _ \<Rightarrow> None)"

definition buildTaskContextResult ::
  "string \<Rightarrow> db \<Rightarrow> agent_config \<Rightarrow> task_summary list \<Rightarrow> context_task \<Rightarrow> int \<Rightarrow> (string \<times> json) list option" where
  "buildTaskContextResult ns d cfg summaries ct maxBytes =
     (case FuzzyFindTask summaries (xt_name ct) of
        None \<Rightarrow> None
      | Some m \<Rightarrow>
          (let key = (if sm_key m = [] then ''/pipeline/'' @ ag_run_id cfg @ ''/tasks/'' @ itoa (sm_index m) @ ''-'' @ sm_name m else sm_key m) in
           case store_Get ns key d of
             Inl _ \<Rightarrow> None
           | Inr payload \<Rightarrow>
               (let out = fst (TruncateStr (if xt_field ct = ''stderr'' then [] else payload_str payload ''stdout'') maxBytes);
                    err = fst (TruncateStr (if xt_field ct = ''stdout'' then [] else payload_str payload ''stderr'') maxBytes)
                in Some ([(''name'', JStr (sm_name m)), (''index'', JNum (sm_index m))] @
                     (case payload_member payload ''status'' of Some (JStr s) \<Rightarrow> [(''status'', JStr s)] | _ \<Rightarrow> []) @
                     (case payload_member payload ''code'' of Some (JNum n) \<Rightarrow> [(''exit_code'', JNum n)] | _ \<Rightarrow> []) @
                     (if out \<noteq> [] then [(''stdout'', JStr out)] else []) @ (if err \<noteq> [] then [(''stderr'', JStr err)] else [])))))"

definition positive_or :: "int \<Rightarrow> int \<Rightarrow> int" where
  "positive_or n d = (if n \<le> 0 then d else n)"

definition injectTaskContexts ::
  "'s agent_env \<Rightarrow> 's agent_callbacks \<Rightarrow> string \<Rightarrow> agent_config \<Rightarrow> string \<Rightarrow> agent_log \<times> 's \<Rightarrow> (agent_log \<times> 's) option" where
  "injectTaskContexts en cb sess cfg now ls =
     (case ag_context cfg of
        None \<Rightarrow> Some ls
      | Some x \<Rightarrow>
          if \<not> ag_storage cfg \<or> ag_run_id cfg = [] then Some ls
          else
            map_option (\<lambda>summaries.
                fold (\<lambda>ct ls.
                    case buildTaskContextResult (en_db_namespace en) (en_db en (snd ls)) cfg summaries ct (positive_or (ax_max_bytes x) 4096) of
                      None \<Rightarrow> ls
                    | Some res \<Rightarrow> pre_context en cb sess cfg now ''get_task_result'' [(''name'', JStr (xt_name ct))] res ls) (ax_tasks x) ls)
              (loadTaskSummaries (en_db_namespace en) (ag_run_id cfg) (en_db en (snd ls))))"

text \<open>Files that cannot be read are left out.\<close>

definition inject_file ::
  "'s agent_env \<Rightarrow> 's agent_callbacks \<Rightarrow> string \<Rightarrow> string \<Rightarrow> agent_config \<Rightarrow> agent_context \<Rightarrow> string \<Rightarrow> context_file \<Rightarrow> agent_log \<times> 's \<Rightarrow> agent_log \<times> 's" where
  "inject_file en cb handle sess cfg x now cf ls =
     (case en_exec en handle (script_input (''cat '' @ xf_path cf) None [] []) (snd ls) of
        (Inl _, st) \<Rightarrow> (fst ls, st)
      | (Inr res, st) \<Rightarrow>
          if res_code res \<noteq> 0 then (fst ls, st)
          else
            (let (content, truncated) = TruncateStr (res_stdout res) (positive_or (xf_max_bytes cf) (positive_or (ax_max_bytes x) 4096))
             in pre_context en cb sess cfg now ''read_file'' [(''path'', JStr (xf_path cf))]
                  ([(''path'', JStr (xf_path cf)), (''content'', JStr content)] @ (if truncated then [(''truncated'', JBool True)] else []))
                  (fst ls, st)))"

definition injectFileContexts ::
  "'s agent_env \<Rightarrow> 's agent_callbacks \<Rightarrow> string \<Rightarrow> string \<Rightarrow> agent_config \<Rightarrow> string \<Rightarrow> agent_log \<times> 's \<Rightarrow> agent_log \<times> 's" where
  "injectFileContexts en cb handle sess cfg now ls =
     (case ag_context cfg of None \<Rightarrow> ls | Some x \<Rightarrow> fold (inject_file en cb handle sess cfg x now) (ax_files x) ls)"

section \<open>Tools\<close>

definition new_tool :: "'s agent_env \<Rightarrow> string \<Rightarrow> agent_tool \<Rightarrow> go_error + agent_tool" where
  "new_tool en name t =
     (case en_new_tool en t of None \<Rightarrow> Inr t | Some m \<Rightarrow> Inl (Wrapped (''failed to create '' @ name @ '' tool'') (Plain m)))"

fun all_or_error :: "('e + 'a) list \<Rightarrow> 'e + 'a list" where
  "all_or_error [] = Inr []"
| "all_or_error (x # xs) = ebind x (\<lambda>y. map_sum id ((#) y) (all_or_error xs))"

definition buildMemoryTools :: "'s agent_env \<Rightarrow> agent_config \<Rightarrow> go_error + agent_tool list" where
  "buildMemoryTools en cfg =
     (if \<not> memoryAvailable (ag_memory cfg) (if ag_storage cfg then Some (en_memory en) else None) (ag_pipeline_id cfg) (ag_name cfg) then Inr []
      else all_or_error (map (\<lambda>n. new_tool en n (BuiltinTool n [])) [''recall_memory'', ''save_memory'']))"

definition buildSandboxTools :: "'s agent_env \<Rightarrow> agent_config \<Rightarrow> go_error + agent_tool list" where
  "buildSandboxTools en cfg =
     (let (toolTimeout, scriptTimeout) = EffectiveToolTimeouts (ag_tool_timeout cfg) in
      ebind (all_or_error (map (\<lambda>(n, t). new_tool en n (BuiltinTool n t))
          [(''run_script'', scriptTimeout), (''read_file'', toolTimeout), (''grep'', toolTimeout), (''glob'', toolTimeout),
           (''write_file'', toolTimeout), (''list_tasks'', []), (''get_task_result'', [])]))
        (\<lambda>tools. map_sum id (append tools) (buildMemoryTools en cfg)))"

definition wrap_error :: "string \<Rightarrow> go_error + 'a \<Rightarrow> go_error + 'a" where
  "wrap_error w = map_sum (Wrapped w) id"

definition library_error :: "string \<Rightarrow> string option \<Rightarrow> 'a \<Rightarrow> go_error + 'a" where
  "library_error w err x = (case err of None \<Rightarrow> Inr x | Some m \<Rightarrow> Inl (Wrapped w (Plain m)))"

definition plain_error :: "string option \<Rightarrow> 'a \<Rightarrow> go_error + 'a" where
  "plain_error err x = (case err of None \<Rightarrow> Inr x | Some m \<Rightarrow> Inl (Plain m))"

definition sub_agent_text :: "string \<Rightarrow> string" where
  "sub_agent_text name = ''Specialist sub-agent: '' @ name @ ''. Call this when you need its expertise.''"

definition buildSubAgentTool :: "'s agent_env \<Rightarrow> string \<Rightarrow> tool_def \<Rightarrow> agent_config \<Rightarrow> go_error + agent_tool" where
  "buildSubAgentTool en pipelineID sub parent =
     (let subImage = (if td_image sub = [] then ag_image parent else td_image sub);
          subModel = (if td_model sub = [] then ag_model parent else td_model sub)
      in if subImage \<noteq> ag_image parent then plain_error (en_new_tool en (OwnSubAgent sub subModel)) (OwnSubAgent sub subModel)
         else
           (let (provider, modelName) = SplitModel subModel; key = api_key (en_secrets en) (en_getenv en) pipelineID provider in
            ebind (wrap_error ''resolve model'' (Resolve provider modelName key None None (ag_base_urls parent))) (\<lambda>llm.
            ebind (wrap_error ''sub-agent tools'' (buildSandboxTools en parent)) (\<lambda>tools.
              let spec = AgentSpec (td_tool_name sub) llm (sub_agent_text (td_tool_name sub)) (td_prompt sub) tools None in
              ebind (library_error ''create sub-agent'' (en_new_agent en spec) spec) (\<lambda>spec.
                plain_error (en_new_tool en (SharedSubAgent sub spec)) (SharedSubAgent sub spec))))))"

definition buildAgentTools :: "'s agent_env \<Rightarrow> string \<Rightarrow> agent_config \<Rightarrow> go_error + agent_tool list" where
  "buildAgentTools en pipelineID cfg =
     (let toolTimeout = fst (EffectiveToolTimeouts (ag_tool_timeout cfg)) in
      ebind (wrap_error ''agent'' (buildSandboxTools en cfg)) (\<lambda>tools.
        map_sum id (append tools)
          (all_or_error (map (\<lambda>t. wrap_error (''agent: tool '' @ go_quote (td_tool_name t))
              (if td_is_task t then plain_error (en_new_tool en (TaskTool t toolTimeout)) (TaskTool t toolTimeout)
               else buildSubAgentTool en pipelineID t cfg)) (ag_tools cfg)))))"

section \<open>RunAgent\<close>

definition agent_description :: string where
  "agent_description = ''An agent running in a CI/CD system with access to a containerized environment.''"

definition resolveContextGuardOptions :: "context_guard option \<Rightarrow> go_error + (string \<times> int) option" where
  "resolveContextGuardOptions cg = map_sum id (\<lambda>(strategy, v). if strategy = [] then None else Some (strategy, v)) (NormalizeContextGuardConfig cg)"

definition expanded_schema :: "agent_config \<Rightarrow> schema option" where
  "expanded_schema cfg = ExpandOutputSchema (ag_output_schema cfg)"

text \<open>Model, tools and instruction make the agent.\<close>

definition build_agent :: "'s agent_env \<Rightarrow> string \<Rightarrow> agent_config \<Rightarrow> go_error + agent_spec" where
  "build_agent en pipelineID cfg =
     (let (provider, modelName) = SplitModel (ag_model cfg); key = api_key (en_secrets en) (en_getenv en) pipelineID provider in
      ebind (wrap_error ''agent'' (Resolve provider modelName key (ag_llm cfg) (ag_thinking cfg) (ag_base_urls cfg))) (\<lambda>llm.
      ebind (buildAgentTools en pipelineID cfg) (\<lambda>tools.
        let spec = AgentSpec (ag_name cfg) llm agent_description
              (BuildSystemInstruction (en_schema_json en) cfg (fst (EffectiveAgentLimits (ag_limits cfg))) (expanded_schema cfg)) tools
              (BuildGenerateContentConfig provider (ag_llm cfg) (ag_thinking cfg) (ag_safety cfg))
        in library_error ''agent: failed to create agent'' (en_new_agent en spec) spec)))"

definition setupAgentSession :: "'s agent_env \<Rightarrow> agent_spec \<Rightarrow> context_guard option \<Rightarrow> 's \<Rightarrow> (go_error + string) \<times> 's" where
  "setupAgentSession en spec guard st =
     (case en_new_session en st of
        (Inl m, st') \<Rightarrow> (Inl (Wrapped ''agent: failed to create session'' (Plain m)), st')
      | (Inr sess, st') \<Rightarrow>
          (ebind (library_error ''agent: failed to create runner'' (en_new_runner en spec sess None) sess) (\<lambda>sess.
             if guard = None then Inr sess
             else ebind (wrap_error ''agent'' (resolveContextGuardOptions guard)) (\<lambda>opts.
               library_error ''agent: failed to create runner with context guard'' (en_new_runner en spec sess opts) sess)), st'))"

definition seed_session ::
  "'s agent_env \<Rightarrow> 's agent_callbacks \<Rightarrow> string \<Rightarrow> string \<Rightarrow> agent_config \<Rightarrow> 's \<Rightarrow> (agent_log \<times> 's) option" where
  "seed_session en cb handle sess cfg st =
     (let now = en_clock en st in
      map_option (injectFileContexts en cb handle sess cfg now)
        (Option.bind (injectListTasksContext en cb sess cfg now (seedSessionWithPrompt en cb sess cfg now (empty_log, st)))
          (injectTaskContexts en cb sess cfg now)))"

definition writeResultJSON :: "'s agent_env \<Rightarrow> string \<Rightarrow> string \<Rightarrow> string \<Rightarrow> string \<Rightarrow> 's \<Rightarrow> go_error option \<times> 's" where
  "writeResultJSON en handle mountPath status txt st =
     (case en_exec en handle
        ((script_input (ResultJsonWriteCmd mountPath (marshal_strmap [(''status'', status), (''text'', txt)])) None [] [])\<lparr>xi_path := ''sh''\<rparr>) st of
        (Inl e, st') \<Rightarrow> (Some (Wrapped ''agent: write result.json'' e), st')
      | (Inr res, st') \<Rightarrow>
          (if res_code res = 0 then None
           else Some (Plain (''agent: write result.json failed with exit code '' @ itoa (res_code res) @ '': '' @ res_stderr res)), st'))"

definition buildAgentResult ::
  "'s agent_env \<Rightarrow> string \<Rightarrow> agent_config \<Rightarrow> bool \<Rightarrow> agent_log \<times> 's \<Rightarrow> (go_error + agent_result) \<times> 's" where
  "buildAgentResult en handle cfg exceeded ls =
     (let (l, st) = ls; status = (if exceeded then ''limit_exceeded'' else ''success'');
          mountPath = ResolveOutputMountPath (ag_output_volume cfg) (ag_mounts cfg);
          (err, st') = (if mountPath = [] then (None, st) else writeResultJSON en handle mountPath status (al_result l) st)
      in (case err of
            Some e \<Rightarrow> Inl e
          | None \<Rightarrow> Inr \<lparr>ar_text = al_result l, ar_status = status, ar_usage = al_usage l, ar_audit = al_audit l\<rparr>, st'))"

definition converse_agent ::
  "'s agent_env \<Rightarrow> 's agent_callbacks \<Rightarrow> string \<Rightarrow> string \<Rightarrow> agent_config \<Rightarrow> agent_log \<times> 's \<Rightarrow> ((go_error + agent_result) \<times> 's) option" where
  "converse_agent en cb handle sess cfg ls =
     (let (maxTurns, maxTotal) = EffectiveAgentLimits (ag_limits cfg) in
      case executeAgentLoop en cb sess maxTurns maxTotal ls of
        None \<Rightarrow> None
      | Some (Inl e, ls1) \<Rightarrow> Some (Inl e, snd ls1)
      | Some (Inr exceeded, ls1) \<Rightarrow>
          if exceeded then Some (buildAgentResult en handle cfg True ls1)
          else
            (case runValidationFollowUp en cb cfg (expanded_schema cfg) sess ls1 of
               None \<Rightarrow> None
             | Some (Some m, ls2) \<Rightarrow> Some (Inl (Wrapped ''agent: follow-up run failed'' (Plain m)), snd ls2)
             | Some (None, ls2) \<Rightarrow> Some (buildAgentResult en handle cfg False ls2)))"

definition run_in_sandbox ::
  "'s agent_env \<Rightarrow> 's agent_callbacks \<Rightarrow> string \<Rightarrow> agent_config \<Rightarrow> string \<Rightarrow> 's \<Rightarrow> ((go_error + agent_result) \<times> 's) option" where
  "run_in_sandbox en cb pipelineID cfg handle st =
     (case build_agent en pipelineID cfg of
        Inl e \<Rightarrow> Some (Inl e, st)
      | Inr spec \<Rightarrow>
          (case setupAgentSession en spec (ag_context_guard cfg) st of
             (Inl e, st1) \<Rightarrow> Some (Inl e, st1)
           | (Inr sess, st1) \<Rightarrow> Option.bind (seed_session en cb handle sess cfg st1) (converse_agent en cb handle sess cfg)))"

definition Run_agent ::
  "'s agent_env \<Rightarrow> 's agent_callbacks \<Rightarrow> string \<Rightarrow> agent_config \<Rightarrow> 's \<Rightarrow> ((go_error + agent_result) \<times> 's) option" where
  "Run_agent en cb pipelineID cfg st =
     (case en_start en \<lparr>si_image = ag_image cfg, si_name = ag_name cfg, si_env = None, si_mounts = ag_mounts cfg, si_work_dir = [],
                          si_privileged = False\<rparr> st of
        (Inl e, st1) \<Rightarrow> Some (Inl (Wrapped ''agent: failed to start sandbox'' e), st1)
      | (Inr handle, st1) \<Rightarrow> map_option (apsnd (en_close en handle)) (run_in_sandbox en cb pipelineID cfg handle st1))"

section \<open>Sub-agents\<close>

definition composePrompt :: "string \<Rightarrow> string \<Rightarrow> string" where
  "composePrompt base request =
     (if request = [] then base
      else if base \<noteq> [] then base @ newline @ newline @ ''Specific request: '' @ request
      else request)"

definition counts_json :: "token_counts \<Rightarrow> json" where
  "counts_json c =
     JObj [(''promptTokens'', JNum (sint (fst c))), (''completionTokens'', JNum (sint (fst (snd c)))), (''totalTokens'', JNum (sint (snd (snd c))))]"

definition usage_json :: "agent_usage \<Rightarrow> json" where
  "usage_json u =
     JObj [(''promptTokens'', JNum (sint (au_prompt u))), (''completionTokens'', JNum (sint (au_completion u))),
           (''totalTokens'', JNum (sint (au_total u))), (''llmRequests'', JNum (int (au_requests u))), (''toolCallCount'', JNum (int (au_tool_calls u)))]"

text \<open>Empty members are left out, apart from the type.\<close>

definition audit_str_member :: "string \<Rightarrow> string \<Rightarrow> (string \<times> json) list" where
  "audit_str_member k v = (if v = [] then [] else [(k, JStr v)])"

definition obj_member :: "string \<Rightarrow> (string \<times> json) list \<Rightarrow> (string \<times> json) list" where
  "obj_member k v = (if v = [] then [] else [(k, JObj v)])"

definition audit_json :: "audit_event \<Rightarrow> json" where
  "audit_json e =
     JObj (audit_str_member ''timestamp'' (ae_timestamp e) @ audit_str_member ''invocationId'' (ae_invocation e) @ audit_str_member ''author'' (ae_author e) @
           [(''type'', JStr (ae_type e))] @ audit_str_member ''text'' (ae_text e) @ audit_str_member ''toolName'' (ae_tool_name e) @
           audit_str_member ''toolCallId'' (ae_call_id e) @ obj_member ''toolArgs'' (ae_args e) @ obj_member ''toolResult'' (ae_result e) @
           (case ae_usage e of None \<Rightarrow> [] | Some c \<Rightarrow> [(''usage'', counts_json c)]))"

definition persistSubAgentProgress ::
  "'s agent_env \<Rightarrow> tool_def \<Rightarrow> agent_config \<Rightarrow> string \<Rightarrow> string \<Rightarrow> agent_usage \<Rightarrow> audit_event list \<Rightarrow> string \<Rightarrow> 's \<Rightarrow> 's" where
  "persistSubAgentProgress en sub parent status txt usage audit startedAt st =
     (if td_key_prefix sub = [] \<or> \<not> ag_storage parent then st
      else en_set en (td_key_prefix sub @ ''/sub-agents/'' @ td_tool_name sub @ ''/run'')
             (JObj [(''status'', JStr status), (''stdout'', JStr txt), (''usage'', usage_json usage), (''audit_log'', JArr (map audit_json audit)),
                    (''started_at'', JStr startedAt), (''elapsed'', JStr (FormatDuration (en_since en startedAt st)))]) st)"

definition sub_event ::
  "'s agent_env \<Rightarrow> tool_def \<Rightarrow> agent_config \<Rightarrow> string \<Rightarrow> llm_event \<Rightarrow> agent_log \<times> 's \<Rightarrow> agent_log \<times> 's" where
  "sub_event en sub parent startedAt ev ls =
     (let (l, st) = followup_event en no_callbacks ev ls in
      (l, if ev_usage ev = None then st
          else persistSubAgentProgress en sub parent ''running'' (al_text l) (al_usage l) (al_audit l) startedAt st))"

text \<open>The events of a sub-agent, up to the first error (here also a cancellation), without limits.\<close>

partial_function (option) sub_loop ::
  "'s agent_env \<Rightarrow> tool_def \<Rightarrow> agent_config \<Rightarrow> string \<Rightarrow> string \<Rightarrow> agent_log \<times> 's \<Rightarrow> (run_error option \<times> agent_log \<times> 's) option" where
  "sub_loop en sub parent startedAt sess ls =
     (case en_next en sess (snd ls) of
        (None, st) \<Rightarrow> Some (None, fst ls, st)
      | (Some (Inl e), st) \<Rightarrow> Some (Some e, fst ls, st)
      | (Some (Inr ev), st) \<Rightarrow> sub_loop en sub parent startedAt sess (sub_event en sub parent startedAt ev (fst ls, st)))"

definition sub_followup_text :: string where
  "sub_followup_text = ''You have completed your tool calls. Now provide your complete response summarizing your findings.''"

definition runSubAgentFollowUp ::
  "'s agent_env \<Rightarrow> tool_def \<Rightarrow> agent_config \<Rightarrow> string \<Rightarrow> string \<Rightarrow> agent_log \<times> 's \<Rightarrow> (agent_log \<times> 's) option" where
  "runSubAgentFollowUp en sub parent startedAt sess ls =
     map_option snd (sub_loop en sub parent startedAt sess (fst ls, en_run en sess (Some sub_followup_text) (snd ls)))"

definition run_error_text :: "run_error \<Rightarrow> string" where
  "run_error_text e = (case e of Cancelled \<Rightarrow> ''context canceled'' | RunFailed m \<Rightarrow> m)"

definition finish_sub_agent ::
  "'s agent_env \<Rightarrow> tool_def \<Rightarrow> agent_config \<Rightarrow> string \<Rightarrow> agent_log \<times> 's \<Rightarrow> (go_error + string \<times> string) \<times> 's" where
  "finish_sub_agent en sub parent startedAt ls =
     (let (l, st) = ls; final = (if al_result l = [] then al_text l else al_result l);
          status = (if final = [] \<and> au_tool_calls (al_usage l) = 0 \<and> au_requests (al_usage l) = 0 then ''error'' else ''success'')
      in (Inr (final, status), persistSubAgentProgress en sub parent status final (al_usage l) (al_audit l) startedAt st))"

definition executeSharedSubAgent ::
  "'s agent_env \<Rightarrow> tool_def \<Rightarrow> agent_spec \<Rightarrow> agent_config \<Rightarrow> string \<Rightarrow> 's \<Rightarrow> ((go_error + string \<times> string) \<times> 's) option" where
  "executeSharedSubAgent en sub spec parent request st =
     (let prompt = composePrompt (td_prompt sub) request; startedAt = en_clock en st in
      case en_new_session en st of
        (Inl m, st1) \<Rightarrow> Some (Inl (Wrapped ''create session'' (Plain m)), st1)
      | (Inr sess, st1) \<Rightarrow>
          (case en_new_runner en spec sess None of
             Some m \<Rightarrow> Some (Inl (Wrapped ''create runner'' (Plain m)), st1)
           | None \<Rightarrow>
               (let ls1 = AppendAuditEvent no_callbacks (text_event startedAt ''user'' ''user_message'' prompt) (empty_log, en_run en sess (Some prompt) st1)
                in case sub_loop en sub parent startedAt sess ls1 of
                     None \<Rightarrow> None
                   | Some (Some e, ls2) \<Rightarrow> Some (Inl (Wrapped ''sub-agent run'' (Plain (run_error_text e))), snd ls2)
                   | Some (None, ls2) \<Rightarrow>
                       map_option (finish_sub_agent en sub parent startedAt)
                         (if al_result (fst ls2) = [] then runSubAgentFollowUp en sub parent startedAt sess ls2 else Some ls2))))"

text \<open>A sub-agent in a container of its own gets the parent's mounts, storage, run and output, and nothing else of it.\<close>

definition sub_config :: "tool_def \<Rightarrow> string \<Rightarrow> agent_config \<Rightarrow> string \<Rightarrow> agent_config" where
  "sub_config sub subModel parent prompt =
     \<lparr>ag_name = td_tool_name sub, ag_prompt = prompt, ag_model = subModel, ag_image = td_image sub, ag_mounts = ag_mounts parent,
      ag_output_volume = [], ag_llm = None, ag_thinking = None, ag_safety = [], ag_context_guard = None, ag_limits = None, ag_context = None,
      ag_validation = None, ag_tools = [], ag_output_schema = None, ag_tool_timeout = [], ag_memory = None, ag_storage = ag_storage parent,
      ag_namespace = ag_namespace parent, ag_run_id = ag_run_id parent, ag_pipeline_id = ag_pipeline_id parent,
      ag_triggered_by = ag_triggered_by parent, ag_base_urls = []\<rparr>"

definition call_agent ::
  "'s agent_env \<Rightarrow> 's agent_callbacks \<Rightarrow> string \<Rightarrow> tool_def \<Rightarrow> string \<Rightarrow> agent_config \<Rightarrow> string \<Rightarrow> 's
   \<Rightarrow> ((go_error + string \<times> string) \<times> 's) option" where
  "call_agent en cb pipelineID sub subModel parent request st =
     (let startedAt = en_clock en st in
      map_option (\<lambda>(res, st').
          case res of
            Inl e \<Rightarrow> (Inl e, st')
          | Inr r \<Rightarrow> (Inr (ar_text r, ar_status r),
              persistSubAgentProgress en sub parent (ar_status r) (ar_text r) (ar_usage r) (ar_audit r) startedAt st'))
        (Run_agent en (no_callbacks\<lparr>cb_output := cb_output cb\<rparr>) pipelineID (sub_config sub subModel parent (composePrompt (td_prompt sub) request)) st))"

section \<open>The audit log tells the answer\<close>

text \<open>The answer that a reader of the log finds: the final texts since the last follow-up.\<close>

fun answer_of :: "string \<Rightarrow> audit_event list \<Rightarrow> string" where
  "answer_of acc [] = acc"
| "answer_of acc (e # es) =
     answer_of (if ae_type e = ''validation_followup'' then [] else if ae_type e = ''model_final'' then acc @ ae_text e else acc) es"

definition audited :: "agent_log \<Rightarrow> bool" where
  "audited l \<longleftrightarrow> al_result l = answer_of [] (al_audit l)"

lemma answer_of_snoc:
  "answer_of acc (es @ [e]) =
     (if ae_type e = ''validation_followup'' then [] else if ae_type e = ''model_final'' then answer_of acc es @ ae_text e else answer_of acc es)"
  by (induction es arbitrary: acc) auto

lemma audit_audited:
  assumes "ae_type e \<noteq> ''validation_followup''" "ae_type e \<noteq> ''model_final''"
  shows "audited (fst (AppendAuditEvent cb e ls)) = audited (fst ls)"
  using assms by (simp add: audit_fst audited_def answer_of_snoc)

lemma part_audited: "audited (fst ls) \<Longrightarrow> audited (fst (part_text cb ts ev usage p (part_response cb ts ev p (part_call cb ts ev p ls))))"
  by (auto simp: parts_fst audited_def answer_of_snoc count_tool_call_def call_event_def response_event_def text_event_def split: option.split)

lemma process_parts_audited: "audited (fst ls) \<Longrightarrow> audited (fst (process_parts cb ts ev usage ps ls))"
  by (induction ps arbitrary: usage ls) (simp_all add: part_audited)

lemma processEventParts_audited: "audited (fst ls) \<Longrightarrow> audited (fst (processEventParts en cb ev usage ls))"
  by (simp add: processEventParts_def process_parts_audited split: option.split)

lemma accumulateUsage_audited: "audited (fst (accumulateUsage cb c ls)) = audited (fst ls)"
  by (simp add: accumulateUsage_def audited_def Let_def split: prod.split)

lemma note_audited: "kind \<noteq> ''validation_followup'' \<Longrightarrow> kind \<noteq> ''model_final'' \<Longrightarrow> audited (fst (system_note en cb kind txt ls)) = audited (fst ls)"
  by (simp add: system_note_def audit_audited text_event_def)

lemma warn_audited: "audited (fst (warn en cb txt ls)) = audited (fst ls)"
  by (simp add: warn_def audit_audited text_event_def)

lemma checkAgentLimits_audited: "audited (fst (snd (snd (checkAgentLimits en cb turns m t w ls)))) = audited (fst ls)"
  by (simp add: checkAgentLimits_def Let_def warn_audited)

lemma loop_event_audited:
  assumes "audited (fst ls)"
  shows "audited (fst (snd (snd (snd (loop_event en cb m t ev turns warned ls)))))"
proof (cases "ev_usage ev")
  case (Some c)
  obtain ex w ls2 where chk: "checkAgentLimits en cb (turns + 1) m t warned (accumulateUsage cb c ls) = (ex, w, ls2)" by (metis prod_cases3)
  then have "audited (fst ls2)"
    using checkAgentLimits_audited [of en cb "turns + 1" m t warned "accumulateUsage cb c ls"] assms accumulateUsage_audited [of cb c ls] by simp
  with Some chk show ?thesis by (simp add: loop_event_def processEventParts_audited)
qed (simp add: loop_event_def processEventParts_audited assms)

lemma followup_event_audited: "audited (fst ls) \<Longrightarrow> audited (fst (followup_event en cb ev ls))"
  by (simp add: followup_event_def processEventParts_audited accumulateUsage_audited split: option.split)

lemma agent_loop_audited:
  assumes "agent_loop en cb sess m t turns warned ls = Some y" and "audited (fst ls)"
  shows "audited (fst (snd y))"
proof -
  have "audited (fst ls) \<longrightarrow> audited (fst (snd y))"
  proof (rule agent_loop.raw_induct [where P = "\<lambda>en cb sess m t turns warned ls y. audited (fst ls) \<longrightarrow> audited (fst (snd y))", OF _ assms(1)],
      intro impI)
    fix loop en cb sess m t turns warned ls y
    assume IH: "\<And>en cb sess m t turns warned ls y. loop en cb sess m t turns warned ls = Some y \<Longrightarrow> audited (fst ls) \<longrightarrow> audited (fst (snd y))"
      and body: "(case en_next en sess (snd ls) of
        (None, st) \<Rightarrow> Some (Inr False, fst ls, st)
      | (Some (Inl Cancelled), st) \<Rightarrow> Some (Inr False, fst ls, st)
      | (Some (Inl (RunFailed m)), st) \<Rightarrow> Some (Inl m, fst ls, st)
      | (Some (Inr ev), st) \<Rightarrow>
          (case loop_event en cb m t ev turns warned (fst ls, st) of
             (exceeded, turns', warned', ls') \<Rightarrow>
               if exceeded then Some (Inr True, ls') else loop en cb sess m t turns' warned' ls')) = Some y"
      and ok: "audited (fst (ls :: agent_log \<times> 's))"
    have ev: "audited (fst ls')" if "loop_event en cb m t ev turns warned (fst ls, st) = (exceeded, turns', warned', ls')" for ev st exceeded turns' warned' ls'
      using loop_event_audited [of "(fst ls, st)" en cb m t ev turns warned] ok that by simp
    from body ok show "audited (fst (snd y))"
      by (auto split: prod.splits option.splits sum.splits run_error.splits if_splits dest!: IH ev)
  qed
  then show ?thesis using assms(2) by blast
qed

lemma followup_loop_audited:
  assumes "followup_loop en cb sess ls = Some y" and "audited (fst ls)"
  shows "audited (fst (snd y))"
proof -
  have "audited (fst ls) \<longrightarrow> audited (fst (snd y))"
  proof (rule followup_loop.raw_induct [where P = "\<lambda>en cb sess ls y. audited (fst ls) \<longrightarrow> audited (fst (snd y))", OF _ assms(1)], intro impI)
    fix loop en cb sess ls y
    assume IH: "\<And>en cb sess ls y. loop en cb sess ls = Some y \<Longrightarrow> audited (fst ls) \<longrightarrow> audited (fst (snd y))"
      and body: "(case en_next en sess (snd ls) of
        (None, st) \<Rightarrow> Some (None, fst ls, st)
      | (Some (Inl Cancelled), st) \<Rightarrow> Some (None, fst ls, st)
      | (Some (Inl (RunFailed m)), st) \<Rightarrow> Some (Some m, fst ls, st)
      | (Some (Inr ev), st) \<Rightarrow> loop en cb sess (followup_event en cb ev (fst ls, st))) = Some y"
      and ok: "audited (fst (ls :: agent_log \<times> 's))"
    have "audited (fst (followup_event en cb ev (fst ls, st)))" for ev st using ok by (simp add: followup_event_audited)
    with body ok show "audited (fst (snd y))"
      by (auto split: prod.splits option.splits sum.splits run_error.splits dest!: IH)
  qed
  then show ?thesis using assms(2) by blast
qed

lemma evaluateValidation_audited:
  assumes "evaluateValidation en cb cfg expanded ls = (m, ls')"
  shows "audited (fst ls') = audited (fst ls)"
proof -
  have "audited (fst (snd (evaluateValidation en cb cfg expanded ls))) = audited (fst ls)"
    by (simp add: evaluateValidation_def Let_def note_audited split: option.split sum.split)
  with assms show ?thesis by simp
qed

lemma followup_note_audited:
  "system_note en cb ''validation_followup'' m ls = (l, st) \<Longrightarrow> audited (l\<lparr>al_result := []\<rparr>)"
  using audit_fst [of cb "text_event (en_clock en (snd ls)) ''system'' ''validation_followup'' m" ls]
  by (simp add: system_note_def audited_def answer_of_snoc text_event_def)

lemma runValidationFollowUp_audited:
  assumes "runValidationFollowUp en cb cfg expanded sess ls = Some (r, ls')" and "audited (fst ls)"
  shows "audited (fst ls')"
proof -
  obtain m ls1 where ev: "evaluateValidation en cb cfg expanded ls = (m, ls1)" by (metis surj_pair)
  show ?thesis
  proof (cases m)
    case None
    with assms ev evaluateValidation_audited [OF ev] show ?thesis by (auto simp: runValidationFollowUp_def)
  next
    case (Some t)
    obtain l st where sn: "system_note en cb ''validation_followup'' t ls1 = (l, st)" by fastforce
    with assms(1) ev Some have "followup_loop en cb sess (l\<lparr>al_result := []\<rparr>, en_run en sess (Some t) st) = Some (r, ls')"
      by (simp add: runValidationFollowUp_def)
    from followup_loop_audited [OF this] followup_note_audited [OF sn] show ?thesis by simp
  qed
qed

lemma pre_context_audited [simp]: "audited (fst (pre_context en cb sess cfg now name args res ls)) = audited (fst ls)"
  by (simp add: pre_context_def audit_audited text_event_def)

lemma fold_audited:
  assumes "\<And>x ls. audited (fst (f x ls)) = audited (fst ls)"
  shows "audited (fst (fold f xs ls)) = audited (fst ls)"
  by (induction xs arbitrary: ls) (simp_all add: assms)

lemma inject_file_audited: "audited (fst (inject_file en cb handle sess cfg x now cf ls)) = audited (fst ls)"
  by (simp add: inject_file_def Let_def split: prod.split sum.split)

lemma seed_session_audited:
  assumes "seed_session en cb handle sess cfg st = Some ls"
  shows "audited (fst ls)"
proof -
  have prompt: "audited (fst (seedSessionWithPrompt en cb sess cfg now (empty_log, st)))" for now
    by (simp add: seedSessionWithPrompt_def split_def Let_def audit_audited text_event_def) (simp add: audited_def empty_log_def)
  have tasks: "audited (fst ls')" if "injectListTasksContext en cb sess cfg now ls = Some ls'" "audited (fst ls)" for now ls ls'
    using that by (auto simp: injectListTasksContext_def split: if_splits)
  have results: "audited (fst ls')" if "injectTaskContexts en cb sess cfg now ls = Some ls'" "audited (fst ls)" for now ls ls'
    using that by (auto simp: injectTaskContexts_def fold_audited split: option.splits if_splits)
  have files: "audited (fst (injectFileContexts en cb handle sess cfg now ls)) = audited (fst ls)" for now ls
    by (simp add: injectFileContexts_def fold_audited inject_file_audited split: option.split)
  let ?now = "en_clock en st"
  from assms obtain ls1 ls2 where ls: "injectListTasksContext en cb sess cfg ?now (seedSessionWithPrompt en cb sess cfg ?now (empty_log, st)) = Some ls1"
    "injectTaskContexts en cb sess cfg ?now ls1 = Some ls2" "ls = injectFileContexts en cb handle sess cfg ?now ls2"
    by (auto simp: seed_session_def Let_def split: bind_splits)
  show ?thesis unfolding ls(3) files by (rule results [OF ls(2) tasks [OF ls(1) prompt]])
qed

lemma converse_agent_audited:
  assumes "converse_agent en cb handle sess cfg ls = Some (Inr res, st')" and "audited (fst ls)"
  shows "ar_text res = answer_of [] (ar_audit res)"
proof -
  have built: "ar_text res = answer_of [] (ar_audit res)" if "buildAgentResult en handle cfg ex ls' = (Inr res, st'')" "audited (fst ls')" for ex ls' st''
    using that by (auto simp: buildAgentResult_def audited_def Let_def split: prod.splits option.splits)
  obtain maxTurns maxTotal where lim: "EffectiveAgentLimits (ag_limits cfg) = (maxTurns, maxTotal)" by fastforce
  from assms(1) lim obtain r ls1 where ex: "executeAgentLoop en cb sess maxTurns maxTotal ls = Some (Inr r, ls1)"
    by (auto simp: converse_agent_def split: option.splits sum.splits)
  then obtain r0 where "agent_loop en cb sess maxTurns maxTotal 0 False (fst ls, en_run en sess None (snd ls)) = Some (r0, ls1)"
    by (auto simp: executeAgentLoop_def apfst_def map_prod_def)
  then have ok1: "audited (fst ls1)" using agent_loop_audited assms(2) by fastforce
  show ?thesis
  proof (cases r)
    case True
    with assms(1) lim ex have "buildAgentResult en handle cfg True ls1 = (Inr res, st')" by (simp add: converse_agent_def)
    with built ok1 show ?thesis by blast
  next
    case False
    with assms(1) lim ex obtain ls2 where "runValidationFollowUp en cb cfg (expanded_schema cfg) sess ls1 = Some (None, ls2)"
      "buildAgentResult en handle cfg False ls2 = (Inr res, st')"
      by (auto simp: converse_agent_def split: option.splits)
    with built runValidationFollowUp_audited ok1 show ?thesis by blast
  qed
qed

text \<open>C34. The answer of a run is what its audit log tells: the final texts of the model since the last follow-up, joined, whatever the model,
  the callbacks and the sandbox do.\<close>

theorem answer_is_audited:
  assumes "Run_agent en cb pipelineID cfg st = Some (Inr res, st')"
  shows "ar_text res = answer_of [] (ar_audit res)"
  using assms
  by (auto simp: Run_agent_def run_in_sandbox_def split: prod.splits sum.splits bind_splits
      dest!: seed_session_audited dest: converse_agent_audited)

section \<open>A sample library\<close>

text \<open>A model that reasons, looks at a file and answers; the state is the number of events so far.\<close>

definition sample_event :: "nat \<Rightarrow> llm_event option" where
  "sample_event n =
     (let e = \<lparr>ev_invocation = ''i'', ev_author = ''review'', ev_timestamp = Some ''t'', ev_usage = Some (10, 5, 15), ev_final = False,
                ev_role = ''model'', ev_skip_summarization = False,
                ev_content = Some [\<lparr>pt_call = Some (''glob'', ''c'', []), pt_response = None, pt_text = ''looking''\<rparr>]\<rparr>
      in if n = 0 then Some e
         else if n = 1 then Some (e\<lparr>ev_usage := None, ev_content := Some [\<lparr>pt_call = None, pt_response = Some (''glob'', ''c'', []), pt_text = []\<rparr>]\<rparr>)
         else if n = 2 then Some (e\<lparr>ev_final := True, ev_content := Some [\<lparr>pt_call = None, pt_response = None, pt_text = ''fine''\<rparr>]\<rparr>)
         else None)"

definition ok_result :: container_result where
  "ok_result = \<lparr>res_code = 0, res_stderr = [], res_stdout = [], res_status = RunComplete\<rparr>"

definition sample_library :: "nat agent_env" where
  "sample_library =
     \<lparr>en_getenv = (\<lambda>_. ''key''), en_secrets = None, en_start = (\<lambda>_ st. (Inr ''box'', st)), en_exec = (\<lambda>_ _ st. (Inr ok_result, st)),
      en_close = (\<lambda>_ st. st), en_new_tool = (\<lambda>_. None), en_new_agent = (\<lambda>_. None), en_new_session = (\<lambda>st. (Inr ''s'', st)),
      en_new_runner = (\<lambda>_ _ _. None), en_append = (\<lambda>_ _ st. (None, st)), en_run = (\<lambda>_ _ st. st),
      en_next = (\<lambda>_ st. (map_option Inr (sample_event st), st + 1)), en_clock = (\<lambda>_. ''t''), en_uuid = (\<lambda>st. (''u'', st)),
      en_db = (\<lambda>_. empty_db), en_db_namespace = ''ns'', en_set = (\<lambda>_ _ st. st),
      en_memory = \<lparr>ms_recall = (\<lambda>_ _ _ _ _ st. (Inr [], st)), ms_save = (\<lambda>_ _ _ _ st. (Inr False, st))\<rparr>, en_since = (\<lambda>_ _. 0),
      en_unmarshal = (\<lambda>_. Inl ''no''), en_schema_json = (\<lambda>_. None), en_show_float = (\<lambda>_. []), en_expr = (\<lambda>_ _. Inr True)\<rparr>"

definition sample_agent :: "int \<Rightarrow> agent_config" where
  "sample_agent maxTurns =
     \<lparr>ag_name = ''review'', ag_prompt = ''check it'', ag_model = ''openai/gpt'', ag_image = ''alpine'', ag_mounts = [], ag_output_volume = [],
      ag_llm = None, ag_thinking = None, ag_safety = [], ag_context_guard = None,
      ag_limits = Some \<lparr>lc_max_turns = maxTurns, lc_max_total_tokens = 0\<rparr>, ag_context = None, ag_validation = None, ag_tools = [],
      ag_output_schema = None, ag_tool_timeout = [], ag_memory = None, ag_storage = False, ag_namespace = [], ag_run_id = [],
      ag_pipeline_id = [], ag_triggered_by = [], ag_base_urls = []\<rparr>"

lemma sample_agent_build: "\<exists>spec. build_agent sample_library [] (sample_agent n) = Inr spec"
proof -
  have m: "SplitModel ''openai/gpt'' = (''openai'', ''gpt'')" by (simp add: SplitModel_def HasPrefix_def)
  have url: "gm_str DefaultBaseURLs ''openai'' = ''https://api.openai.com/v1''" by (simp add: gm_str_def DefaultBaseURLs_def gm_get_def)
  have own: "gm_str [] k = []" for k by (simp add: gm_str_def gm_get_def)
  have model: "Resolve ''openai'' ''gpt'' k None None [] = Inr (OpenAIModel k ''https://api.openai.com/v1'' ''gpt'')" for k
    by (simp add: Resolve_def url own)
  have tool: "new_tool sample_library k t = Inr t" for k t by (simp add: new_tool_def sample_library_def)
  have tools: "\<exists>ts. buildAgentTools sample_library [] (sample_agent n) = Inr ts"
    by (simp add: buildAgentTools_def buildSandboxTools_def buildMemoryTools_def memoryAvailable_def tool sample_agent_def ebind_def wrap_error_def
        split_def Let_def)
  have new: "en_new_agent sample_library spec = None" for spec by (simp add: sample_library_def)
  show ?thesis using tools
    by (auto simp: build_agent_def m model ebind_def wrap_error_def library_error_def new Let_def sample_agent_def)
qed

lemma sample_session: "setupAgentSession sample_library spec None st = (Inr ''s'', st)"
  by (simp add: setupAgentSession_def sample_library_def library_error_def ebind_def)

lemma sample_seed:
  "seed_session sample_library no_callbacks handle sess (sample_agent n) st =
     Some (empty_log\<lparr>al_audit := [text_event ''t'' ''user'' ''user_message'' ''check it'']\<rparr>, st)"
  by (simp add: seed_session_def seedSessionWithPrompt_def injectListTasksContext_def injectTaskContexts_def injectFileContexts_def sample_agent_def
      sample_library_def AppendAuditEvent_def no_callbacks_def empty_log_def)

lemma sample_run:
  "Run_agent sample_library no_callbacks [] (sample_agent n) 0 =
     converse_agent sample_library no_callbacks ''box'' ''s'' (sample_agent n)
       (empty_log\<lparr>al_audit := [text_event ''t'' ''user'' ''user_message'' ''check it'']\<rparr>, 0)"
proof -
  obtain spec where spec: "build_agent sample_library [] (sample_agent n) = Inr spec" using sample_agent_build by blast
  have start: "en_start sample_library inp st = (Inr ''box'', st)" and close: "en_close sample_library = (\<lambda>_ st. st)" for inp st
    by (simp_all add: sample_library_def)
  have "ag_context_guard (sample_agent n) = None" by (simp add: sample_agent_def)
  then show ?thesis
    by (simp add: Run_agent_def run_in_sandbox_def start close spec sample_session sample_seed apsnd_def map_prod_def option.map_ident id_def)
qed


lemma sample_progress: "quiet_progress sample_library no_callbacks sess (\<lambda>st. if st = 0 then 9 else if st = 1 then 8 else 7)"
  by (auto simp: quiet_progress_def sample_library_def no_callbacks_def sample_event_def Let_def split: if_splits)


text \<open>With a limit of three turns the sample answers. With a limit of two the answer of the second turn, the last that the limit allows, is
  thrown away.\<close>

lemma sample_fields:
  "en_next sample_library sess st = (map_option Inr (sample_event st), st + 1)" "en_clock sample_library st = ''t''"
  "en_run sample_library sess m st = st" "en_exec sample_library h x st = (Inr ok_result, st)"
  by (simp_all add: sample_library_def)

lemma silent:
  "AppendAuditEvent no_callbacks e ls = ((fst ls)\<lparr>al_audit := al_audit (fst ls) @ [e]\<rparr>, snd ls)" "EmitUsageSnapshot no_callbacks u st = st"
  by (simp_all add: AppendAuditEvent_def EmitUsageSnapshot_def no_callbacks_def split_def)

lemma silent_text: "processTextOutput no_callbacks e ls = ((fst ls)\<lparr>al_text := al_text (fst ls) @ ae_text e, al_audit := al_audit (fst ls) @ [e]\<rparr>, snd ls)"
  by (simp add: processTextOutput_def silent split_def) (simp add: no_callbacks_def)

lemmas silent_loop = silent silent_text sample_fields loop_event_def checkAgentLimits_def warn_def accumulateUsage_def processEventParts_def part_call_def
  part_response_def part_text_def sample_event_def limitWarningTurnsBefore_def Let_def split_def

lemma sample_loop:
  "\<exists>l. agent_loop sample_library no_callbacks sess 3 0 0 False (empty_log\<lparr>al_audit := a\<rparr>, 0) = Some (Inr False, l, 4) \<and> al_result l = ''fine''"
  "\<exists>l. agent_loop sample_library no_callbacks sess 2 0 0 False (empty_log\<lparr>al_audit := a\<rparr>, 0) = Some (Inr True, l, 3) \<and> al_result l = []"
   apply (subst agent_loop.simps, simp add: silent_loop)
   apply (subst agent_loop.simps, simp add: silent_loop)
   apply (subst agent_loop.simps, simp add: silent_loop)
   apply (subst agent_loop.simps, simp add: silent_loop empty_log_def count_tool_call_def)
  apply (subst agent_loop.simps, simp add: silent_loop)
  apply (subst agent_loop.simps, simp add: silent_loop)
  apply (subst agent_loop.simps, simp add: silent_loop empty_log_def count_tool_call_def)
  done

lemma sample_config:
  "EffectiveAgentLimits (ag_limits (sample_agent n)) = (if n \<le> 0 then 50 else n, 0)" "expanded_schema (sample_agent n) = None"
  "ag_validation (sample_agent n) = None" "ResolveOutputMountPath (ag_output_volume (sample_agent n)) (ag_mounts (sample_agent n)) = []"
  by (simp_all add: sample_agent_def EffectiveAgentLimits_def expanded_schema_def ExpandOutputSchema_def ResolveOutputMountPath_def TrimSpace_def)

lemma sample_answers:
  "\<exists>res. Run_agent sample_library no_callbacks [] (sample_agent 3) 0 = Some (Inr res, 4) \<and> ar_text res = ''fine'' \<and> ar_status res = ''success''"
proof -
  let ?a = "[text_event ''t'' ''user'' ''user_message'' ''check it'']"
  obtain l where l: "agent_loop sample_library no_callbacks ''s'' 3 0 0 False (empty_log\<lparr>al_audit := ?a\<rparr>, 0) = Some (Inr False, l, 4)" "al_result l = ''fine''"
    using sample_loop(1) by blast
  have "executeAgentLoop sample_library no_callbacks ''s'' 3 0 (empty_log\<lparr>al_audit := ?a\<rparr>, 0) = Some (Inr False, l, 4)"
    by (simp add: executeAgentLoop_def sample_fields l(1))
  moreover have "runValidationFollowUp sample_library no_callbacks (sample_agent 3) None ''s'' (l, 4) = Some (None, l, 4)"
    by (simp add: runValidationFollowUp_def evaluateValidation_def sample_config l(2))
  ultimately have "Run_agent sample_library no_callbacks [] (sample_agent 3) 0 = Some (buildAgentResult sample_library ''box'' (sample_agent 3) False (l, 4))"
    by (simp add: sample_run converse_agent_def sample_config)
  then show ?thesis by (simp add: buildAgentResult_def sample_config l(2))
qed

lemma last_answer_thrown_away:
  "\<exists>res. Run_agent sample_library no_callbacks [] (sample_agent 2) 0 = Some (Inr res, 3) \<and> ar_text res = [] \<and> ar_status res = ''limit_exceeded''"
proof -
  let ?a = "[text_event ''t'' ''user'' ''user_message'' ''check it'']"
  obtain l where l: "agent_loop sample_library no_callbacks ''s'' 2 0 0 False (empty_log\<lparr>al_audit := ?a\<rparr>, 0) = Some (Inr True, l, 3)" "al_result l = []"
    using sample_loop(2) by blast
  have "executeAgentLoop sample_library no_callbacks ''s'' 2 0 (empty_log\<lparr>al_audit := ?a\<rparr>, 0) = Some (Inr True, l, 3)"
    by (simp add: executeAgentLoop_def sample_fields l(1))
  then have "Run_agent sample_library no_callbacks [] (sample_agent 2) 0 = Some (buildAgentResult sample_library ''box'' (sample_agent 2) True (l, 3))"
    by (simp add: sample_run converse_agent_def sample_config)
  then show ?thesis by (simp add: buildAgentResult_def sample_config l(2))
qed

theorem answer_is_audited_witness:
  "\<exists>res. Run_agent sample_library no_callbacks [] (sample_agent 3) 0 = Some (Inr res, 4) \<and> ar_text res = ''fine'' \<and>
    answer_of [] (ar_audit res) = ''fine''"
  using sample_answers answer_is_audited [of sample_library no_callbacks "[]" "sample_agent 3" 0 _ 4] by fastforce

section \<open>Edges of a run\<close>

text \<open>The total of the tokens is a signed 32-bit number. Beyond its end it is negative, and no budget is exhausted.\<close>

lemma token_total_wraps:
  "sint (au_total (add_usage (0, 0, 2) (zero_usage\<lparr>au_total := 2147483646\<rparr>))) = - 2147483648"
  "\<not> limit_hit 50 2147483647 (add_usage (0, 0, 2) (zero_usage\<lparr>au_total := 2147483646\<rparr>))"
  by (simp_all add: add_usage_def zero_usage_def limit_hit_def)

text \<open>A run that is cancelled, whose commands then come back aborted, ends with a result whose status is \<open>success\<close>.\<close>

lemma cancelled_agent_succeeds:
  assumes cancelled: "\<And>sess st. en_next en sess st = (Some (Inl Cancelled), st)"
    and aborted: "\<And>h x st. en_exec en h x st = (Inr aborted_result, st)"
  shows "\<exists>audit st'. converse_agent en cb handle sess cfg (empty_log, st) =
    Some (Inr \<lparr>ar_text = [], ar_status = ''success'', ar_usage = zero_usage, ar_audit = audit\<rparr>, st')"
proof -
  obtain n t where lim: "EffectiveAgentLimits (ag_limits cfg) = (n, t)" by fastforce
  let ?st = "en_run en sess None st"
  have loop: "executeAgentLoop en cb sess n t (empty_log, st) = Some (Inr False, empty_log, ?st)"
    unfolding executeAgentLoop_def by (subst agent_loop.simps) (simp add: cancelled)
  obtain l1 st1 where sn: "system_note en cb ''validation_followup'' no_answer_text (empty_log, ?st) = (l1, st1)" by fastforce
  have "fst (system_note en cb ''validation_followup'' no_answer_text (empty_log, ?st)) = l1" by (simp add: sn)
  then have l1: "\<exists>a. l1 = empty_log\<lparr>al_audit := a\<rparr>" unfolding system_note_def audit_fst by (auto intro: sym)
  then obtain a where l1: "l1 = empty_log\<lparr>al_audit := a\<rparr>" by blast
  have none: "al_result empty_log = []" by (simp add: empty_log_def)
  have ev: "evaluateValidation en cb cfg (expanded_schema cfg) (empty_log, ?st) = (Some no_answer_text, empty_log, ?st)"
    by (simp add: evaluateValidation_def none)
  have "followup_loop en cb sess (l, st2) = Some (None, l, st2)" for l st2
    by (subst followup_loop.simps) (simp add: cancelled)
  then have follow: "runValidationFollowUp en cb cfg (expanded_schema cfg) sess (empty_log, ?st) =
      Some (None, l1\<lparr>al_result := []\<rparr>, en_run en sess (Some no_answer_text) st1)"
    by (simp add: runValidationFollowUp_def ev sn)
  have result: "\<exists>st'. buildAgentResult en handle cfg False (l1\<lparr>al_result := []\<rparr>, st2) =
      (Inr \<lparr>ar_text = [], ar_status = ''success'', ar_usage = zero_usage, ar_audit = al_audit l1\<rparr>, st')" for st2
    by (simp add: l1 buildAgentResult_def writeResultJSON_def aborted aborted_result_def empty_log_def Let_def)
  have "converse_agent en cb handle sess cfg (empty_log, st) =
      Some (buildAgentResult en handle cfg False (l1\<lparr>al_result := []\<rparr>, en_run en sess (Some no_answer_text) st1))"
    by (simp add: converse_agent_def lim loop follow)
  moreover obtain st' where "buildAgentResult en handle cfg False (l1\<lparr>al_result := []\<rparr>, en_run en sess (Some no_answer_text) st1) =
      (Inr \<lparr>ar_text = [], ar_status = ''success'', ar_usage = zero_usage, ar_audit = al_audit l1\<rparr>, st')"
    using result by blast
  ultimately have "converse_agent en cb handle sess cfg (empty_log, st) =
      Some (Inr \<lparr>ar_text = [], ar_status = ''success'', ar_usage = zero_usage, ar_audit = al_audit l1\<rparr>, st')" by simp
  then show ?thesis by blast
qed

end
