(* ===== verification/Agent_Step.thy ===== *)
theory Agent_Step
  imports Agent_Exec Leaf_Steps
begin

text \<open>
  The agent step of the YAML engine, \<open>runtime/backwards/agent_handler.go\<close>: the configuration from the step and its file, image, tools and
  mounts, the callbacks that keep the row of the step and the audit log up to date, and the outcome. The agent library of
  \<open>Agent_Run\<close>, the YAML decoder and the clock are parameters. A configured tool whose file sets its command is not written back
  into the step.
\<close>

section \<open>State of a run\<close>

text \<open>\<open>agentRunState\<close> and \<open>throttledPersister\<close>; \<open>None\<close> is the zero time.\<close>

record agent_run_state =
  rn_output :: string
  rn_latest :: "agent_usage option"
  rn_audit :: "audit_event list"
  rn_last_persist :: "int option"
  rn_pending :: bool

definition fresh_run :: agent_run_state where
  "fresh_run = \<lparr>rn_output = [], rn_latest = None, rn_audit = [], rn_last_persist = None, rn_pending = False\<rparr>"

type_synonym 'r agent_state = "agent_run_state \<times> 'r leaf_ctx"

text \<open>The agent's own fields of a step, and the members of an external file that are used.\<close>

record agent_settings =
  se_llm :: "llm_config option"
  se_thinking :: "thinking_config option"
  se_safety :: "(string, string) gomap"
  se_context_guard :: "context_guard option"
  se_limits :: "limits_config option"
  se_context :: "agent_context option"
  se_validation :: "validation_config option"
  se_memory :: "memory_config option"
  se_output_schema :: "(string \<times> jvalue) list option"
  se_tool_timeout :: string

record agent_file =
  fl_prompt :: "string option"
  fl_model :: "string option"
  fl_config :: "task_config option"
  fl_context :: "agent_context option"

record 'r agent_lib =
  gl_env :: "'r agent_state agent_env"
  gl_now :: "'r leaf_ctx \<Rightarrow> int"
  gl_format :: "int \<Rightarrow> string"
  gl_settings :: "json \<Rightarrow> agent_settings"
  gl_file :: "string \<Rightarrow> string + agent_file"
  gl_task :: "string \<Rightarrow> string + task_config"

type_synonym agent_step = "step \<times> agent_settings"

section \<open>The configuration\<close>

definition known_volumes :: "'r leaf_ctx \<Rightarrow> (string, string) gomap" where
  "known_volumes sc = tw_known_volumes (lw_task (sc_world sc))"

definition loadAgentConfig :: "task_driver \<Rightarrow> step \<Rightarrow> 'r leaf_ctx \<Rightarrow> string + string option" where
  "loadAgentConfig d step sc =
     (let f = sfields step in
      if sf_file f \<noteq> [] then map_sum id Some (loadRawBytesFromVolume d (known_volumes sc) (sf_file f))
      else if sf_uri f \<noteq> [] then
        (case parseURI (sf_uri f) of
           Inl m \<Rightarrow> Inl m
         | Inr (schemeFile, v) \<Rightarrow> map_sum id Some (loadRawBytesFromVolume d (known_volumes sc) v)
         | Inr (schemeHTTP, v) \<Rightarrow> map_sum id Some (td_http d v))
      else Inr None)"

definition or_else :: "'a option \<Rightarrow> 'a option \<Rightarrow> 'a option" where
  "or_else a b = (case a of None \<Rightarrow> b | Some x \<Rightarrow> Some x)"

definition mergeAgentFromContents :: "'r agent_lib \<Rightarrow> string \<Rightarrow> agent_step \<Rightarrow> agent_step" where
  "mergeAgentFromContents lib contents inline =
     (case gl_file lib contents of
        Inl _ \<Rightarrow> inline
      | Inr file \<Rightarrow>
          (let f = sfields (fst inline);
               prompt = (case fl_prompt file of None \<Rightarrow> sf_prompt f | Some p \<Rightarrow> if sf_prompt f = [] then p else p @ newline @ sf_prompt f);
               model = (if sf_model f = [] then (case fl_model file of None \<Rightarrow> [] | Some m \<Rightarrow> m) else sf_model f)
           in (with_fields (\<lambda>f. f\<lparr>sf_prompt := prompt, sf_model := model, sf_config := or_else (sf_config f) (fl_config file)\<rparr>) (fst inline),
               (snd inline)\<lparr>se_context := or_else (se_context (snd inline)) (fl_context file)\<rparr>)))"

definition agent_step_of :: "'r agent_lib \<Rightarrow> step \<Rightarrow> agent_step" where
  "agent_step_of lib step = (step, gl_settings lib (sf_agent_settings (sfields step)))"

definition mergeAgentExternalConfig :: "'r agent_lib \<Rightarrow> task_driver \<Rightarrow> step \<Rightarrow> 'r leaf_ctx \<Rightarrow> string + agent_step" where
  "mergeAgentExternalConfig lib d step sc =
     map_sum id (\<lambda>c. case c of None \<Rightarrow> agent_step_of lib step | Some t \<Rightarrow> mergeAgentFromContents lib t (agent_step_of lib step))
       (loadAgentConfig d step sc)"

definition loadAgentStep :: "'r agent_lib \<Rightarrow> task_driver \<Rightarrow> step \<Rightarrow> 'r leaf_ctx \<Rightarrow> go_error + agent_step" where
  "loadAgentStep lib d step sc =
     (let f = sfields step in
      if sf_file f \<noteq> [] \<or> sf_uri f \<noteq> []
      then map_sum (\<lambda>m. TaskErrored (sf_agent f) (Some (Plain m))) id (mergeAgentExternalConfig lib d step sc)
      else if sf_prompt_file f \<noteq> [] then
        map_sum (\<lambda>m. TaskErrored (sf_agent f) (Some (Wrapped (''loading prompt_file '' @ go_quote (sf_prompt_file f)) (Plain m))))
          (\<lambda>t. apfst (with_fields (\<lambda>f. f\<lparr>sf_prompt := t\<rparr>)) (agent_step_of lib step))
          (loadRawBytesFromVolume d (known_volumes sc) (sf_prompt_file f))
      else Inr (agent_step_of lib step))"

definition resolveAgentImage :: "task_config option \<Rightarrow> string" where
  "resolveAgentImage cfg =
     (case cfg of
        None \<Rightarrow> ''busybox''
      | Some c \<Rightarrow>
          if tc_image c \<noteq> [] then tc_image c
          else (case gm_get (ir_source (tc_image_resource c)) ''repository'' of Some (JStr repo) \<Rightarrow> repo | _ \<Rightarrow> ''busybox''))"

definition own_image :: "task_config option \<Rightarrow> string" where
  "own_image cfg = (if resolveAgentImage cfg = ''busybox'' then [] else resolveAgentImage cfg)"

definition resolveAgentToolDef :: "'r agent_lib \<Rightarrow> task_driver \<Rightarrow> step \<Rightarrow> string \<Rightarrow> 'r leaf_ctx \<Rightarrow> go_error + tool_def" where
  "resolveAgentToolDef lib d tool keyPrefix sc =
     map_sum (\<lambda>m. Wrapped (''resolving agent tool '' @ go_quote (sf_agent (sfields tool))) (Plain m))
       (\<lambda>(s, _). \<lparr>td_tool_name = sf_agent (sfields s), td_prompt = sf_prompt (sfields s), td_model = sf_model (sfields s),
          td_image = own_image (sf_config (sfields s)), td_key_prefix = keyPrefix, td_is_task = False, td_description = [], td_command_path = [],
          td_command_args = [], td_env = []\<rparr>)
       (mergeAgentExternalConfig lib d tool sc)"

definition mergeTaskConfigFromFile :: "'r agent_lib \<Rightarrow> task_driver \<Rightarrow> step \<Rightarrow> 'r leaf_ctx \<Rightarrow> task_config option" where
  "mergeTaskConfigFromFile lib d tool sc =
     (let inline = sf_config (sfields tool) in
      case loadAgentConfig d tool sc of
        Inr (Some contents) \<Rightarrow>
          (case gl_task lib contents of
             Inl _ \<Rightarrow> inline
           | Inr file \<Rightarrow>
               (case inline of
                  None \<Rightarrow> Some file
                | Some c \<Rightarrow> Some (c\<lparr>tc_run := or_else (tc_run c) (tc_run file), tc_image := (if tc_image c = [] then tc_image file else tc_image c)\<rparr>)))
      | _ \<Rightarrow> inline)"

definition resolveTaskToolDef :: "'r agent_lib \<Rightarrow> task_driver \<Rightarrow> step \<Rightarrow> string \<Rightarrow> 'r leaf_ctx \<Rightarrow> tool_def" where
  "resolveTaskToolDef lib d tool keyPrefix sc =
     (let cfg = mergeTaskConfigFromFile lib d tool sc; run = Option.bind cfg tc_run in
      \<lparr>td_tool_name = sf_task (sfields tool), td_prompt = [], td_model = [], td_image = own_image cfg, td_key_prefix = keyPrefix, td_is_task = True,
       td_description = sf_description (sfields tool), td_command_path = (case run of None \<Rightarrow> [] | Some r \<Rightarrow> run_path r),
       td_command_args = (case run of None \<Rightarrow> [] | Some r \<Rightarrow> run_args r),
       td_env = (case Option.bind cfg tc_env of None \<Rightarrow> [] | Some e \<Rightarrow> e)\<rparr>)"

text \<open>A tool that is neither an agent nor a task is left out.\<close>

fun resolveAgentTools :: "'r agent_lib \<Rightarrow> task_driver \<Rightarrow> step list \<Rightarrow> string \<Rightarrow> 'r leaf_ctx \<Rightarrow> go_error + tool_def list" where
  "resolveAgentTools lib d [] keyPrefix sc = Inr []"
| "resolveAgentTools lib d (tool # rest) keyPrefix sc =
     (if sf_agent (sfields tool) \<noteq> [] then
        ebind (resolveAgentToolDef lib d tool keyPrefix sc) (\<lambda>t. map_sum id ((#) t) (resolveAgentTools lib d rest keyPrefix sc))
      else if sf_task (sfields tool) \<noteq> []
      then map_sum id ((#) (resolveTaskToolDef lib d tool keyPrefix sc)) (resolveAgentTools lib d rest keyPrefix sc)
      else resolveAgentTools lib d rest keyPrefix sc)"

definition mount_known :: "'r leaf_ctx \<Rightarrow> string \<Rightarrow> (string, volume_result) gomap \<Rightarrow> (string, volume_result) gomap" where
  "mount_known sc name mounts =
     (case gm_get (known_volumes sc) name of None \<Rightarrow> mounts | Some vol \<Rightarrow> gm_set name \<lparr>vr_name = vol, vr_path = []\<rparr> mounts)"

definition agent_outputs :: "step \<Rightarrow> string list" where
  "agent_outputs step =
     (case sf_config (sfields step) of
        Some c \<Rightarrow> if tc_outputs c \<noteq> [] then map out_name (tc_outputs c) else [sf_agent (sfields step)]
      | None \<Rightarrow> [sf_agent (sfields step)])"

text \<open>An output without a volume gets one that is known from then on.\<close>

definition mount_output ::
  "string \<Rightarrow> string \<Rightarrow> (string, volume_result) gomap \<times> 'r leaf_ctx \<Rightarrow> (string, volume_result) gomap \<times> 'r leaf_ctx" where
  "mount_output runID name ms =
     (let (mounts, sc) = ms in
      case gm_get (known_volumes sc) name of
        Some vol \<Rightarrow> (gm_set name \<lparr>vr_name = vol, vr_path = []\<rparr> mounts, sc)
      | None \<Rightarrow>
          (let vol = resourceVolumeName runID name in
           (gm_set name \<lparr>vr_name = vol, vr_path = []\<rparr> mounts,
            on_task (\<lambda>w. w\<lparr>tw_known_volumes := gm_set name vol (tw_known_volumes w)\<rparr>) sc)))"

definition resolveAgentMounts ::
  "string \<Rightarrow> agent_step \<Rightarrow> 'r leaf_ctx \<Rightarrow> (string, volume_result) gomap \<times> string \<times> 'r leaf_ctx" where
  "resolveAgentMounts runID step sc =
     (let ins = (case sf_config (sfields (fst step)) of None \<Rightarrow> [] | Some c \<Rightarrow> map in_name (tc_inputs c));
          cts = (case se_context (snd step) of None \<Rightarrow> [] | Some x \<Rightarrow> map xt_name (ax_tasks x));
          m1 = fold (mount_known sc) ins [];
          m2 = fold (\<lambda>name m. if gm_get m name \<noteq> None then m else mount_known sc name m) cts m1;
          outs = agent_outputs (fst step);
          (m3, sc') = fold (mount_output runID) outs (m2, sc)
      in (m3, hd outs, sc'))"

section \<open>Rows\<close>

definition agent_key :: "'r leaf_env \<Rightarrow> string \<Rightarrow> string" where
  "agent_key env pathPrefix = BaseStorageKey env @ ''/'' @ pathPrefix @ ''/run''"

definition audit_base_key :: "'r leaf_env \<Rightarrow> string \<Rightarrow> string" where
  "audit_base_key env pathPrefix =
     ''/agent-audit/'' @ env_run_id env @ ''/jobs/'' @ env_job_name env @ ''/'' @ pathPrefix @ ''/events''"

definition opt_usage_json :: "agent_usage option \<Rightarrow> json" where
  "opt_usage_json u = (case u of None \<Rightarrow> JNull | Some u \<Rightarrow> usage_json u)"

definition audit_log_json :: "audit_event list \<Rightarrow> json" where
  "audit_log_json es = (if es = [] then JNull else JArr (map audit_json es))"

definition agent_running_row :: "string \<Rightarrow> agent_run_state \<Rightarrow> json" where
  "agent_running_row startedAt rs =
     JObj [(''status'', JStr ''running''), (''started_at'', JStr startedAt), (''stdout'', JStr (rn_output rs)),
           (''usage'', opt_usage_json (rn_latest rs)), (''audit_log'', audit_log_json (rn_audit rs))]"

text \<open>Members that are not set are \<open>null\<close>, as an empty map is here.\<close>

definition map_json :: "(string \<times> json) list \<Rightarrow> json" where
  "map_json m = (if m = [] then JNull else JObj m)"

definition audit_row :: "audit_event \<Rightarrow> nat \<Rightarrow> json" where
  "audit_row e idx =
     JObj [(''timestamp'', JStr (ae_timestamp e)), (''invocationId'', JStr (ae_invocation e)), (''author'', JStr (ae_author e)),
           (''type'', JStr (ae_type e)), (''text'', JStr (ae_text e)), (''toolName'', JStr (ae_tool_name e)), (''toolCallId'', JStr (ae_call_id e)),
           (''toolArgs'', map_json (ae_args e)), (''toolResult'', map_json (ae_result e)),
           (''usage'', case ae_usage e of None \<Rightarrow> JNull | Some c \<Rightarrow> counts_json c), (''index'', JNum (int idx))]"

definition agent_interval :: int where
  "agent_interval = 500000000"

definition doPersist :: "'r leaf_env \<Rightarrow> 'r agent_lib \<Rightarrow> string \<Rightarrow> string \<Rightarrow> 'r agent_state \<Rightarrow> 'r agent_state" where
  "doPersist env lib key startedAt s =
     (let (rs, sc) = s; rs1 = rs\<lparr>rn_pending := False, rn_last_persist := Some (gl_now lib sc)\<rparr>
      in (rs1, set_drop env key (agent_running_row startedAt rs1) sc))"

definition trigger :: "'r leaf_env \<Rightarrow> 'r agent_lib \<Rightarrow> string \<Rightarrow> string \<Rightarrow> 'r agent_state \<Rightarrow> 'r agent_state" where
  "trigger env lib key startedAt s =
     (let recent = (case rn_last_persist (fst s) of None \<Rightarrow> False | Some t \<Rightarrow> gl_now lib (snd s) - t < agent_interval)
      in if recent then ((fst s)\<lparr>rn_pending := True\<rparr>, snd s) else doPersist env lib key startedAt s)"

definition flush_pending :: "'r leaf_env \<Rightarrow> 'r agent_lib \<Rightarrow> string \<Rightarrow> string \<Rightarrow> 'r agent_state \<Rightarrow> 'r agent_state" where
  "flush_pending env lib key startedAt s = (if rn_pending (fst s) then doPersist env lib key startedAt s else s)"

definition on_usage :: "('r agent_state \<Rightarrow> 'r agent_state) \<Rightarrow> agent_usage \<Rightarrow> 'r agent_state \<Rightarrow> 'r agent_state" where
  "on_usage trig u s = trig ((fst s)\<lparr>rn_latest := Some u\<rparr>, snd s)"

definition on_audit :: "'r leaf_env \<Rightarrow> string \<Rightarrow> ('r agent_state \<Rightarrow> 'r agent_state) \<Rightarrow> audit_event \<Rightarrow> 'r agent_state \<Rightarrow> 'r agent_state" where
  "on_audit env auditKey trig e s =
     (let idx = length (rn_audit (fst s)) in
      trig ((fst s)\<lparr>rn_audit := rn_audit (fst s) @ [e]\<rparr>, set_drop env (auditKey @ ''/'' @ itoa (int idx)) (audit_row e idx) (snd s)))"

definition on_output :: "('r agent_state \<Rightarrow> 'r agent_state) \<Rightarrow> string \<Rightarrow> string \<Rightarrow> 'r agent_state \<Rightarrow> 'r agent_state" where
  "on_output trig stream data s = trig ((fst s)\<lparr>rn_output := rn_output (fst s) @ data\<rparr>, snd s)"

definition agent_callbacks_of :: "'r leaf_env \<Rightarrow> 'r agent_lib \<Rightarrow> string \<Rightarrow> string \<Rightarrow> 'r agent_state agent_callbacks" where
  "agent_callbacks_of env lib pathPrefix startedAt =
     (let trig = trigger env lib (agent_key env pathPrefix) startedAt in
      \<lparr>cb_output = Some (on_output trig), cb_audit = Some (on_audit env (audit_base_key env pathPrefix) trig), cb_usage = Some (on_usage trig)\<rparr>)"

section \<open>The handler\<close>

definition buildAgentConfig ::
  "'r leaf_env \<Rightarrow> task_driver \<Rightarrow> (string, string) gomap \<Rightarrow> agent_step \<Rightarrow> tool_def list \<Rightarrow> (string, volume_result) gomap \<Rightarrow> string \<Rightarrow> agent_config" where
  "buildAgentConfig env d baseURLs step tools mounts outputVolume =
     (let f = sfields (fst step); s = snd step in
      \<lparr>ag_name = sf_agent f, ag_prompt = sf_prompt f, ag_model = sf_model f, ag_image = resolveAgentImage (sf_config f), ag_mounts = mounts,
       ag_output_volume = outputVolume, ag_llm = se_llm s, ag_thinking = se_thinking s, ag_safety = se_safety s,
       ag_context_guard = se_context_guard s, ag_limits = se_limits s, ag_context = se_context s, ag_validation = se_validation s,
       ag_tools = tools, ag_output_schema = se_output_schema s, ag_tool_timeout = se_tool_timeout s, ag_memory = se_memory s, ag_storage = True,
       ag_namespace = env_job_name env, ag_run_id = env_run_id env, ag_pipeline_id = td_pipeline_id d, ag_triggered_by = [],
       ag_base_urls = baseURLs\<rparr>)"

definition finalizeAgentRun ::
  "'r leaf_env \<Rightarrow> 'r agent_lib \<Rightarrow> string \<Rightarrow> string \<Rightarrow> int \<Rightarrow> go_error + agent_result \<Rightarrow> 'r agent_state \<Rightarrow> 'r leaf_world outcome" where
  "finalizeAgentRun env lib name pathPrefix startedAt result s =
     (let key = agent_key env pathPrefix; started = gl_format lib startedAt; elapsed = Duration_String (gl_now lib (snd s) - startedAt) in
      case result of
        Inl e \<Rightarrow>
          (Some (TaskFailed name 1),
           set_drop env key
             (JObj [(''status'', JStr ''failure''), (''started_at'', JStr started), (''elapsed'', JStr elapsed),
                    (''stdout'', JStr (rn_output (fst s))), (''error_message'', JStr (error_text e)), (''usage'', opt_usage_json (rn_latest (fst s))),
                    (''audit_log'', audit_log_json (rn_audit (fst s)))]) (snd s))
      | Inr res \<Rightarrow>
          (let (rs, sc) = flush_pending env lib key started s;
               usage = (case rn_latest rs of None \<Rightarrow> ar_usage res | Some u \<Rightarrow> u);
               status = (if ar_status res = ''limit_exceeded'' then ''limit_exceeded'' else ''success'')
           in (None,
               set_drop env key
                 (JObj [(''status'', JStr status), (''started_at'', JStr started), (''elapsed'', JStr elapsed), (''stdout'', JStr (ar_text res)),
                        (''usage'', usage_json usage), (''audit_log'', audit_log_json (ar_audit res))]) sc)))"

text \<open>\<open>None\<close> is an agent that does not return, or panics.\<close>

definition AgentHandler ::
  "'r leaf_env \<Rightarrow> task_driver \<Rightarrow> 'r agent_lib \<Rightarrow> (string, string) gomap \<Rightarrow> step \<Rightarrow> string \<Rightarrow> 'r leaf_ctx \<Rightarrow> 'r leaf_world outcome option" where
  "AgentHandler env d lib baseURLs step pathPrefix sc =
     (case loadAgentStep lib d step sc of
        Inl e \<Rightarrow> Some (Some e, sc)
      | Inr agentStep \<Rightarrow>
          (let name = sf_agent (sfields (fst agentStep)); sc1 = appendExecutedTask name sc in
           case resolveAgentTools lib d (step_tools (fst agentStep)) (BaseStorageKey env @ ''/'' @ pathPrefix) sc1 of
             Inl e \<Rightarrow> Some (Some (TaskErrored name (Some (Wrapped ''resolving tools'' e))), sc1)
           | Inr tools \<Rightarrow>
               (let (mounts, outputVolume, sc2) = resolveAgentMounts (env_run_id env) agentStep sc1;
                    startedAt = gl_now lib sc2; started = gl_format lib startedAt;
                    sc3 = set_drop env (agent_key env pathPrefix) (JObj [(''status'', JStr ''pending''), (''started_at'', JStr started)]) sc2;
                    cfg = buildAgentConfig env d baseURLs agentStep tools mounts outputVolume
                in map_option (\<lambda>(result, s). finalizeAgentRun env lib name pathPrefix startedAt result s)
                     (Run_agent (gl_env lib) (agent_callbacks_of env lib pathPrefix started) (td_pipeline_id d) cfg (fresh_run, sc3)))))"

section \<open>The row of the step\<close>

lemma finalize_row:
  assumes "sets_ok env" and "finalizeAgentRun env lib name p startedAt result s = (err, sc')"
  shows "(err = None \<longleftrightarrow> (\<exists>res. result = Inr res)) \<and> (err \<noteq> None \<longrightarrow> err = Some (TaskFailed name 1)) \<and>
    recorded_status env (agent_key env p) sc' =
      Some (case result of Inl _ \<Rightarrow> ''failure'' | Inr res \<Rightarrow> if ar_status res = ''limit_exceeded'' then ''limit_exceeded'' else ''success'')"
  using assms(2) by (auto simp: finalizeAgentRun_def Let_def split_def set_drop_recorded [OF assms(1)] split: sum.splits)


text \<open>A step that cannot be prepared leaves no row.\<close>

lemma unprepared_agent_no_row:
  "loadAgentStep lib d step sc = Inl e \<Longrightarrow> AgentHandler env d lib urls step p sc = Some (Some e, sc)"
  by (simp add: AgentHandler_def)

section \<open>The audit log of the step\<close>

definition keeps_audit :: "'r agent_state agent_env \<Rightarrow> bool" where
  "keeps_audit en \<longleftrightarrow>
     (\<forall>i s. rn_audit (fst (snd (en_start en i s))) = rn_audit (fst s)) \<and> (\<forall>h x s. rn_audit (fst (snd (en_exec en h x s))) = rn_audit (fst s)) \<and>
     (\<forall>h s. rn_audit (fst (en_close en h s)) = rn_audit (fst s)) \<and> (\<forall>s. rn_audit (fst (snd (en_new_session en s))) = rn_audit (fst s)) \<and>
     (\<forall>h e s. rn_audit (fst (snd (en_append en h e s))) = rn_audit (fst s)) \<and> (\<forall>h m s. rn_audit (fst (en_run en h m s)) = rn_audit (fst s)) \<and>
     (\<forall>h s. rn_audit (fst (snd (en_next en h s))) = rn_audit (fst s)) \<and> (\<forall>s. rn_audit (fst (snd (en_uuid en s))) = rn_audit (fst s))"

definition in_step :: "agent_log \<times> 'r agent_state \<Rightarrow> bool" where
  "in_step ls \<longleftrightarrow> rn_audit (fst (snd ls)) = al_audit (fst ls)"

lemma doPersist_audit [simp]: "rn_audit (fst (doPersist env lib key t s)) = rn_audit (fst s)"
  by (simp add: doPersist_def Let_def split_def)

lemma trigger_audit [simp]: "rn_audit (fst (trigger env lib key t s)) = rn_audit (fst s)"
  by (simp add: trigger_def Let_def)

lemma step_callbacks:
  "rn_audit (fst (EmitUsageSnapshot (agent_callbacks_of env lib p t) u s)) = rn_audit (fst s)"
  "in_step (AppendAuditEvent (agent_callbacks_of env lib p t) e ls) = in_step ls"
  "in_step (processTextOutput (agent_callbacks_of env lib p t) e ls) = in_step ls"
  by (simp_all add: EmitUsageSnapshot_def AppendAuditEvent_def processTextOutput_def agent_callbacks_of_def on_usage_def on_audit_def on_output_def
      in_step_def split_def Let_def)

lemma in_step_parts: "in_step (process_parts (agent_callbacks_of env lib p t) ts ev usage ps ls) = in_step ls"
proof (induction ps arbitrary: usage ls)
  case (Cons q ps)
  have call: "in_step (part_call (agent_callbacks_of env lib p t) ts ev q ls) = in_step ls" for ls
  proof (cases "pt_call q")
    case (Some c)
    let ?r = "AppendAuditEvent (agent_callbacks_of env lib p t) (call_event ts ev c) (count_tool_call (fst ls), snd ls)"
    have "in_step (part_call (agent_callbacks_of env lib p t) ts ev q ls) = in_step ?r"
      using Some by (simp add: part_call_def in_step_def split_def Let_def step_callbacks(1))
    also have "\<dots> = in_step ls" by (simp add: step_callbacks(2)) (simp add: in_step_def count_tool_call_def)
    finally show ?thesis .
  qed (simp add: part_call_def)
  have response: "in_step (part_response (agent_callbacks_of env lib p t) ts ev q ls) = in_step ls" for ls
    by (simp add: part_response_def step_callbacks(2) split: option.split)
  have said: "in_step (part_text (agent_callbacks_of env lib p t) ts ev usage q ls) = in_step ls" for ls
  proof (cases "pt_text q = []")
    case False
    let ?r = "processTextOutput (agent_callbacks_of env lib p t) ((text_event ts (ev_author ev) (if ev_final ev then ''model_final'' else ''model_text'')
        (pt_text q))\<lparr>ae_invocation := ev_invocation ev, ae_usage := usage\<rparr>) ls"
    have "in_step (part_text (agent_callbacks_of env lib p t) ts ev usage q ls) = in_step ?r"
      using False by (simp add: part_text_def in_step_def split_def Let_def)
    then show ?thesis by (simp only: step_callbacks(3))
  qed (simp add: part_text_def)
  show ?case by (simp add: Cons.IH said response call)
qed simp

lemma in_step_event: "in_step (processEventParts en (agent_callbacks_of env lib p t) ev usage ls) = in_step ls"
  by (simp add: processEventParts_def in_step_parts split: option.split)

lemma in_step_note: "in_step (system_note en (agent_callbacks_of env lib p t) kind txt ls) = in_step ls"
  by (simp add: system_note_def step_callbacks(2))

lemma in_step_usage: "in_step (accumulateUsage (agent_callbacks_of env lib p t) c ls) = in_step ls"
  by (simp add: accumulateUsage_def in_step_def step_callbacks(1) split_def Let_def)

lemma in_step_limits: "in_step (snd (snd (checkAgentLimits en (agent_callbacks_of env lib p t) turns m tot w ls))) = in_step ls"
  by (simp add: checkAgentLimits_def warn_def Let_def step_callbacks(2))

lemma in_step_loop_event: "in_step (snd (snd (snd (loop_event en (agent_callbacks_of env lib p t) m tot ev turns w ls)))) = in_step ls"
proof (cases "ev_usage ev")
  case (Some c)
  obtain ex w' ls2 where chk: "checkAgentLimits en (agent_callbacks_of env lib p t) (turns + 1) m tot w (accumulateUsage (agent_callbacks_of env lib p t) c ls) = (ex, w', ls2)"
    by (metis prod_cases3)
  have "in_step ls2 = in_step ls"
    using in_step_limits [of en env lib p t "turns + 1" m tot w "accumulateUsage (agent_callbacks_of env lib p t) c ls"] chk by (simp add: in_step_usage)
  with Some chk show ?thesis by (simp add: loop_event_def in_step_event)
qed (simp add: loop_event_def in_step_event)

lemma in_step_followup_event: "in_step (followup_event en (agent_callbacks_of env lib p t) ev ls) = in_step ls"
  by (simp add: followup_event_def in_step_event in_step_usage split: option.split)

lemma in_step_next:
  assumes "keeps_audit en" and "en_next en sess (snd ls) = (x, s)"
  shows "in_step (fst ls, s) = in_step ls"
proof -
  have "rn_audit (fst (snd (en_next en sess (snd ls)))) = rn_audit (fst (snd ls))" using assms(1) unfolding keeps_audit_def by blast
  with assms(2) show ?thesis by (simp add: in_step_def)
qed

lemma in_step_agent_loop:
  assumes keeps: "keeps_audit en" and "agent_loop en (agent_callbacks_of env lib p t) sess m tot turns w ls = Some y" and "in_step ls"
  shows "in_step (snd y)"
proof -
  let ?cb = "agent_callbacks_of env lib p t"
  have "en = en \<and> ?cb = ?cb \<longrightarrow> in_step ls \<longrightarrow> in_step (snd y)"
  proof (rule agent_loop.raw_induct [where P = "\<lambda>en' cb' sess m tot turns w ls y. en' = en \<and> cb' = ?cb \<longrightarrow> in_step ls \<longrightarrow> in_step (snd y)", OF _ assms(2)],
      intro impI, elim conjE, hypsubst)
    fix loop sess m tot turns w ls y
    assume IH: "\<And>en' cb' sess m tot turns w ls y. loop en' cb' sess m tot turns w ls = Some y \<Longrightarrow> en' = en \<and> cb' = ?cb \<longrightarrow> in_step ls \<longrightarrow> in_step (snd y)"
      and body: "(case en_next en sess (snd ls) of
        (None, st) \<Rightarrow> Some (Inr False, fst ls, st)
      | (Some (Inl Cancelled), st) \<Rightarrow> Some (Inr False, fst ls, st)
      | (Some (Inl (RunFailed m)), st) \<Rightarrow> Some (Inl m, fst ls, st)
      | (Some (Inr ev), st) \<Rightarrow>
          (case loop_event en ?cb m tot ev turns w (fst ls, st) of
             (exceeded, turns', warned', ls') \<Rightarrow>
               if exceeded then Some (Inr True, ls') else loop en ?cb sess m tot turns' warned' ls')) = Some y"
      and ok: "in_step ls"
    obtain x st where nx: "en_next en sess (snd ls) = (x, st)" by (metis surj_pair)
    then have st: "in_step (fst ls, st)" using in_step_next [OF keeps] ok by blast
    have ev: "in_step ls'" if "loop_event en ?cb m tot ev turns w (fst ls, st) = (exceeded, turns', warned', ls')" for ev exceeded turns' warned' ls'
      using in_step_loop_event [of en env lib p t m tot ev turns w "(fst ls, st)"] that st by simp
    from body nx st show "in_step (snd y)"
      by (auto split: prod.splits option.splits sum.splits run_error.splits if_splits dest!: IH ev)
  qed
  then show ?thesis using assms(3) by blast
qed

lemma in_step_followup_loop:
  assumes keeps: "keeps_audit en" and "followup_loop en (agent_callbacks_of env lib p t) sess ls = Some y" and "in_step ls"
  shows "in_step (snd y)"
proof -
  let ?cb = "agent_callbacks_of env lib p t"
  have "en = en \<and> ?cb = ?cb \<longrightarrow> in_step ls \<longrightarrow> in_step (snd y)"
  proof (rule followup_loop.raw_induct [where P = "\<lambda>en' cb' sess ls y. en' = en \<and> cb' = ?cb \<longrightarrow> in_step ls \<longrightarrow> in_step (snd y)", OF _ assms(2)],
      intro impI, elim conjE, hypsubst)
    fix loop sess ls y
    assume IH: "\<And>en' cb' sess ls y. loop en' cb' sess ls = Some y \<Longrightarrow> en' = en \<and> cb' = ?cb \<longrightarrow> in_step ls \<longrightarrow> in_step (snd y)"
      and body: "(case en_next en sess (snd ls) of
        (None, st) \<Rightarrow> Some (None, fst ls, st)
      | (Some (Inl Cancelled), st) \<Rightarrow> Some (None, fst ls, st)
      | (Some (Inl (RunFailed m)), st) \<Rightarrow> Some (Some m, fst ls, st)
      | (Some (Inr ev), st) \<Rightarrow> loop en ?cb sess (followup_event en ?cb ev (fst ls, st))) = Some y"
      and ok: "in_step ls"
    obtain x st where nx: "en_next en sess (snd ls) = (x, st)" by (metis surj_pair)
    then have st: "in_step (fst ls, st)" using in_step_next [OF keeps] ok by blast
    then have "in_step (followup_event en ?cb ev (fst ls, st))" for ev by (simp add: in_step_followup_event)
    with body nx st show "in_step (snd y)"
      by (auto split: prod.splits option.splits sum.splits run_error.splits dest!: IH)
  qed
  then show ?thesis using assms(3) by blast
qed

lemma keeps_auditD:
  assumes "keeps_audit en"
  shows "rn_audit (fst (snd (en_start en i s))) = rn_audit (fst s)" "rn_audit (fst (snd (en_exec en h x s))) = rn_audit (fst s)"
    "rn_audit (fst (en_close en h s)) = rn_audit (fst s)" "rn_audit (fst (snd (en_new_session en s))) = rn_audit (fst s)"
    "rn_audit (fst (snd (en_append en h e s))) = rn_audit (fst s)" "rn_audit (fst (en_run en h m s)) = rn_audit (fst s)"
    "rn_audit (fst (snd (en_uuid en s))) = rn_audit (fst s)"
  using assms unfolding keeps_audit_def by blast+

lemma in_step_validation:
  "in_step (snd (evaluateValidation en (agent_callbacks_of env lib p t) cfg expanded ls)) = in_step ls"
  by (simp add: evaluateValidation_def Let_def in_step_note split: option.split sum.split)

lemma in_step_followup:
  assumes keeps: "keeps_audit en" and "runValidationFollowUp en (agent_callbacks_of env lib p t) cfg expanded sess ls = Some (r, ls')" and "in_step ls"
  shows "in_step ls'"
proof -
  let ?cb = "agent_callbacks_of env lib p t"
  obtain m ls1 where ev: "evaluateValidation en ?cb cfg expanded ls = (m, ls1)" by (metis surj_pair)
  then have ok1: "in_step ls1" using in_step_validation [of en env lib p t cfg expanded ls] assms(3) by simp
  show ?thesis
  proof (cases m)
    case None
    with assms(2) ev ok1 show ?thesis by (simp add: runValidationFollowUp_def)
  next
    case (Some x)
    obtain l s where sn: "system_note en ?cb ''validation_followup'' x ls1 = (l, s)" by (metis surj_pair)
    then have "in_step (l, s)" using in_step_note [of en env lib p t "''validation_followup''" x ls1] ok1 by simp
    then have "in_step (l\<lparr>al_result := []\<rparr>, en_run en sess (Some x) s)" by (simp add: in_step_def keeps_auditD [OF keeps])
    with in_step_followup_loop [OF keeps, of env lib p t sess _ "(r, ls')"] assms(2) ev Some sn show ?thesis
      by (simp add: runValidationFollowUp_def)
  qed
qed

lemma in_step_pre_context:
  assumes keeps: "keeps_audit en"
  shows "in_step (pre_context en (agent_callbacks_of env lib p t) sess cfg now name args res ls) = in_step ls"
proof -
  have "rn_audit (fst (injectSyntheticToolCall en sess an name args res s)) = rn_audit (fst s)" for an s
    by (simp add: injectSyntheticToolCall_def Let_def split_def keeps_auditD [OF keeps])
  then show ?thesis by (simp add: pre_context_def step_callbacks(2)) (simp add: in_step_def)
qed

lemma fold_in_step:
  assumes "\<And>x ls. in_step (f x ls) = in_step ls"
  shows "in_step (fold f xs ls) = in_step ls"
  by (induction xs arbitrary: ls) (simp_all add: assms)

lemma in_step_seed:
  assumes keeps: "keeps_audit en" and "seed_session en (agent_callbacks_of env lib p t) handle sess cfg s = Some ls" and "rn_audit (fst s) = []"
  shows "in_step ls"
proof -
  let ?cb = "agent_callbacks_of env lib p t" and ?now = "en_clock en s"
  have prompt: "in_step (seedSessionWithPrompt en ?cb sess cfg ?now (empty_log, s))"
    by (simp add: seedSessionWithPrompt_def split_def Let_def step_callbacks(2)) (simp add: in_step_def keeps_auditD [OF keeps] empty_log_def assms(3))
  have tasks: "in_step ls'" if "injectListTasksContext en ?cb sess cfg ?now ls = Some ls'" "in_step ls" for ls ls'
    using that by (auto simp: injectListTasksContext_def in_step_pre_context [OF keeps] split: if_splits)
  have results: "in_step ls'" if "injectTaskContexts en ?cb sess cfg ?now ls = Some ls'" "in_step ls" for ls ls'
    using that by (auto simp: injectTaskContexts_def fold_in_step in_step_pre_context [OF keeps] split: option.splits if_splits)
  have one_file: "in_step (inject_file en ?cb handle sess cfg x ?now cf ls) = in_step ls" for x cf ls
  proof -
    obtain r s' where r: "en_exec en handle (script_input (''cat '' @ xf_path cf) None [] []) (snd ls) = (r, s')" by (metis surj_pair)
    then have "rn_audit (fst s') = rn_audit (fst (snd ls))" using keeps_auditD(2) [OF keeps] by (metis snd_conv)
    then have "in_step (fst ls, s') = in_step ls" by (simp add: in_step_def)
    with r show ?thesis by (simp add: inject_file_def Let_def split_def in_step_pre_context [OF keeps] split: sum.split)
  qed
  have files: "in_step (injectFileContexts en ?cb handle sess cfg ?now ls) = in_step ls" for ls
    by (simp add: injectFileContexts_def fold_in_step one_file split: option.split)
  from assms(2) obtain ls1 ls2 where ls: "injectListTasksContext en ?cb sess cfg ?now (seedSessionWithPrompt en ?cb sess cfg ?now (empty_log, s)) = Some ls1"
    "injectTaskContexts en ?cb sess cfg ?now ls1 = Some ls2" "ls = injectFileContexts en ?cb handle sess cfg ?now ls2"
    by (auto simp: seed_session_def Let_def split: bind_splits)
  show ?thesis unfolding ls(3) files by (rule results [OF ls(2) tasks [OF ls(1) prompt]])
qed

lemma in_step_result:
  assumes keeps: "keeps_audit en" and "buildAgentResult en handle cfg ex ls = (Inr res, s')" and "in_step ls"
  shows "rn_audit (fst s') = ar_audit res"
proof -
  have written: "rn_audit (fst (snd (writeResultJSON en handle m status x s))) = rn_audit (fst s)" for m status x s
  proof -
    have "snd (writeResultJSON en handle m status x s) = snd (en_exec en handle
        ((script_input (ResultJsonWriteCmd m (marshal_strmap [(''status'', status), (''text'', x)])) None [] [])\<lparr>xi_path := ''sh''\<rparr>) s)"
      by (simp add: writeResultJSON_def split: prod.split sum.split)
    then show ?thesis by (simp only: keeps_auditD(2) [OF keeps])
  qed
  have "rn_audit (fst (snd (buildAgentResult en handle cfg ex ls))) = rn_audit (fst (snd ls)) \<and>
      (\<forall>res. fst (buildAgentResult en handle cfg ex ls) = Inr res \<longrightarrow> ar_audit res = al_audit (fst ls))"
    by (auto simp: buildAgentResult_def Let_def split_def written split: option.splits)
  with assms(2,3) show ?thesis by (simp add: in_step_def)
qed

lemma in_step_converse:
  assumes keeps: "keeps_audit en" and "converse_agent en (agent_callbacks_of env lib p t) handle sess cfg ls = Some (Inr res, s')" and "in_step ls"
  shows "rn_audit (fst s') = ar_audit res"
proof -
  let ?cb = "agent_callbacks_of env lib p t"
  obtain maxTurns maxTotal where lim: "EffectiveAgentLimits (ag_limits cfg) = (maxTurns, maxTotal)" by fastforce
  from assms(2) lim obtain r ls1 where ex: "executeAgentLoop en ?cb sess maxTurns maxTotal ls = Some (Inr r, ls1)"
    by (auto simp: converse_agent_def split: option.splits sum.splits)
  then obtain r0 where r0: "agent_loop en ?cb sess maxTurns maxTotal 0 False (fst ls, en_run en sess None (snd ls)) = Some (r0, ls1)"
    by (auto simp: executeAgentLoop_def apfst_def map_prod_def)
  have "in_step (fst ls, en_run en sess None (snd ls))" using assms(3) by (simp add: in_step_def keeps_auditD [OF keeps])
  with in_step_agent_loop [OF keeps r0] have ok1: "in_step ls1" by simp
  show ?thesis
  proof (cases r)
    case True
    with assms(2) lim ex have "buildAgentResult en handle cfg True ls1 = (Inr res, s')" by (simp add: converse_agent_def)
    with in_step_result [OF keeps] ok1 show ?thesis by blast
  next
    case False
    with assms(2) lim ex obtain ls2 where "runValidationFollowUp en ?cb cfg (expanded_schema cfg) sess ls1 = Some (None, ls2)"
      "buildAgentResult en handle cfg False ls2 = (Inr res, s')"
      by (auto simp: converse_agent_def split: option.splits)
    with in_step_result [OF keeps] in_step_followup [OF keeps] ok1 show ?thesis by blast
  qed
qed

text \<open>C35. The audit log that the callbacks of the step have kept, and written out event by event, is the log of the result when the agent
  returns one: no event is lost, repeated or reordered.\<close>

theorem audit_log_is_complete:
  assumes "keeps_audit en" and "rn_audit (fst s) = []"
    and "Run_agent en (agent_callbacks_of env lib p t) pipelineID cfg s = Some (Inr res, s')"
  shows "rn_audit (fst s') = ar_audit res"
proof -
  let ?inp = "\<lparr>si_image = ag_image cfg, si_name = ag_name cfg, si_env = None, si_mounts = ag_mounts cfg, si_work_dir = [], si_privileged = False\<rparr>"
  from assms(3) obtain handle s1 s2 where start: "en_start en ?inp s = (Inr handle, s1)" and s': "s' = en_close en handle s2"
    and run: "run_in_sandbox en (agent_callbacks_of env lib p t) pipelineID cfg handle s1 = Some (Inr res, s2)"
    by (auto simp: Run_agent_def split: prod.splits sum.splits)
  have s1: "rn_audit (fst s1) = []" using keeps_auditD(1) [OF assms(1), of ?inp s] start assms(2) by simp
  from run obtain spec sess s3 ls where sess: "setupAgentSession en spec (ag_context_guard cfg) s1 = (Inr sess, s3)"
    and seed: "seed_session en (agent_callbacks_of env lib p t) handle sess cfg s3 = Some ls"
    and conv: "converse_agent en (agent_callbacks_of env lib p t) handle sess cfg ls = Some (Inr res, s2)"
    by (auto simp: run_in_sandbox_def split: sum.splits prod.splits bind_splits)
  have "snd (setupAgentSession en spec (ag_context_guard cfg) s1) = snd (en_new_session en s1)"
    by (simp add: setupAgentSession_def split: prod.split sum.split)
  then have "rn_audit (fst s3) = []" using keeps_auditD(4) [OF assms(1), of s1] sess s1 by simp
  from in_step_converse [OF assms(1) conv in_step_seed [OF assms(1) seed this]] show ?thesis
    by (simp add: s' keeps_auditD(3) [OF assms(1)])
qed

section \<open>A sample step\<close>

text \<open>A library whose runs end at once and leave the state as it is.\<close>

definition idle_library :: "'s agent_env" where
  "idle_library =
     \<lparr>en_getenv = (\<lambda>_. ''key''), en_secrets = None, en_start = (\<lambda>_ st. (Inr ''box'', st)), en_exec = (\<lambda>_ _ st. (Inr ok_result, st)),
      en_close = (\<lambda>_ st. st), en_new_tool = (\<lambda>_. None), en_new_agent = (\<lambda>_. None), en_new_session = (\<lambda>st. (Inr ''s'', st)),
      en_new_runner = (\<lambda>_ _ _. None), en_append = (\<lambda>_ _ st. (None, st)), en_run = (\<lambda>_ _ st. st), en_next = (\<lambda>_ st. (None, st)),
      en_clock = (\<lambda>_. ''t''), en_uuid = (\<lambda>st. (''u'', st)), en_db = (\<lambda>_. empty_db), en_db_namespace = ''ns'', en_set = (\<lambda>_ _ st. st),
      en_memory = \<lparr>ms_recall = (\<lambda>_ _ _ _ _ st. (Inr [], st)), ms_save = (\<lambda>_ _ _ _ st. (Inr False, st))\<rparr>, en_since = (\<lambda>_ _. 0),
      en_unmarshal = (\<lambda>_. Inl ''no''), en_schema_json = (\<lambda>_. None), en_show_float = (\<lambda>_. []), en_expr = (\<lambda>_ _. Inr True)\<rparr>"

lemma idle_keeps_audit: "keeps_audit idle_library"
  by (simp add: keeps_audit_def idle_library_def)

lemma idle_fields:
  "en_next idle_library sess s = (None, s)" "en_run idle_library sess m s = s" "en_exec idle_library h x s = (Inr ok_result, s)"
  "en_start idle_library i s = (Inr ''box'', s)" "en_db idle_library s = empty_db"
  by (simp_all add: idle_library_def)

lemma no_rows: "loadTaskSummaries ns r empty_db = Some []"
  by (simp add: loadTaskSummaries_def GetAll_def rows_under_def empty_db_def)

lemma idle_session: "setupAgentSession idle_library spec None s = (Inr ''s'', s)"
  by (simp add: setupAgentSession_def idle_library_def library_error_def ebind_def)

lemma idle_seed:
  assumes "ag_context cfg = None"
  shows "seed_session idle_library cb handle sess cfg s \<noteq> None"
  using assms by (simp add: seed_session_def injectListTasksContext_def injectTaskContexts_def idle_fields no_rows Let_def)

lemma idle_result: "\<exists>res. buildAgentResult idle_library handle cfg ex ls = (Inr res, snd ls)"
  by (cases ls) (simp add: buildAgentResult_def writeResultJSON_def idle_fields ok_result_def Let_def)

lemma idle_converse:
  assumes "ag_validation cfg = None" "ag_output_schema cfg = None"
  shows "\<exists>res s'. converse_agent idle_library cb handle sess cfg ls = Some (Inr res, s')"
proof -
  obtain n t where lim: "EffectiveAgentLimits (ag_limits cfg) = (n, t)" by (metis surj_pair)
  have loop: "executeAgentLoop idle_library cb sess n t ls = Some (Inr False, ls)"
    unfolding executeAgentLoop_def by (subst agent_loop.simps) (simp add: idle_fields)
  have "followup_loop idle_library cb sess l = Some (None, l)" for l by (subst followup_loop.simps) (simp add: idle_fields)
  then have "\<exists>ls'. runValidationFollowUp idle_library cb cfg (expanded_schema cfg) sess ls = Some (None, ls')"
    using assms by (auto simp: runValidationFollowUp_def evaluateValidation_def expanded_schema_def ExpandOutputSchema_def idle_fields split_def Let_def)
  then obtain ls' where "runValidationFollowUp idle_library cb cfg (expanded_schema cfg) sess ls = Some (None, ls')" by blast
  moreover obtain res where "buildAgentResult idle_library handle cfg False ls' = (Inr res, snd ls')" using idle_result by blast
  ultimately show ?thesis by (simp add: converse_agent_def lim loop)
qed

lemma idle_build:
  assumes "ag_model cfg = ''anthropic/claude''" "ag_tools cfg = []" "ag_memory cfg = None"
  shows "\<exists>spec. build_agent (idle_library :: 's agent_env) pid cfg = Inr spec"
proof -
  have m: "SplitModel ''anthropic/claude'' = (''anthropic'', ''claude'')" by (simp add: SplitModel_def HasPrefix_def)
  have tool: "new_tool (idle_library :: 's agent_env) k t = Inr t" for k t by (simp add: new_tool_def idle_library_def)
  have tools: "\<exists>ts. buildAgentTools (idle_library :: 's agent_env) pid cfg = Inr ts"
    using assms(2,3) by (simp add: buildAgentTools_def buildSandboxTools_def buildMemoryTools_def memoryAvailable_def tool ebind_def wrap_error_def
        split_def Let_def)
  then obtain ts where ts: "buildAgentTools (idle_library :: 's agent_env) pid cfg = Inr ts" by blast
  obtain llm where llm: "Resolve ''anthropic'' ''claude'' (api_key (en_secrets (idle_library :: 's agent_env)) (en_getenv (idle_library :: 's agent_env)) pid ''anthropic'')
      (ag_llm cfg) (ag_thinking cfg) (ag_base_urls cfg) = Inr llm"
    by (simp add: Resolve_def Let_def)
  have new: "en_new_agent (idle_library :: 's agent_env) spec = None" for spec by (simp add: idle_library_def)
  show ?thesis by (simp add: build_agent_def m assms(1) llm ts new ebind_def wrap_error_def library_error_def Let_def)
qed

lemma idle_run:
  assumes "ag_model cfg = ''anthropic/claude''" "ag_tools cfg = []" "ag_memory cfg = None" "ag_context cfg = None" "ag_context_guard cfg = None"
    "ag_validation cfg = None" "ag_output_schema cfg = None"
  shows "\<exists>res s'. Run_agent (idle_library :: 's agent_env) cb pid cfg s = Some (Inr res, s')"
proof -
  obtain spec where spec: "build_agent (idle_library :: 's agent_env) pid cfg = Inr spec" using idle_build [OF assms(1-3)] by blast
  obtain ls where ls: "seed_session idle_library cb ''box'' ''s'' cfg s = Some ls" using idle_seed [OF assms(4), of cb "''box''" "''s''" s] by blast
  obtain res s' where "converse_agent idle_library cb ''box'' ''s'' cfg ls = Some (Inr res, s')" using idle_converse [OF assms(6,7), of cb "''box''" "''s''" ls] by blast
  with spec ls show ?thesis by (simp add: Run_agent_def run_in_sandbox_def idle_fields assms(5) idle_session)
qed

definition sample_agent_lib :: "unit agent_lib" where
  "sample_agent_lib =
     \<lparr>gl_env = idle_library, gl_now = (\<lambda>_. 0), gl_format = (\<lambda>_. ''t''),
      gl_settings = (\<lambda>_. \<lparr>se_llm = None, se_thinking = None, se_safety = [], se_context_guard = None, se_limits = None, se_context = None,
        se_validation = None, se_memory = None, se_output_schema = None, se_tool_timeout = []\<rparr>),
      gl_file = (\<lambda>_. Inl ''no''), gl_task = (\<lambda>_. Inl ''no'')\<rparr>"

definition sample_agent_step :: step where
  "sample_agent_step = leaf_step (zero_fields\<lparr>sf_agent := ''review'', sf_prompt := ''check it'', sf_model := ''anthropic/claude''\<rparr>)"

lemma sample_agent_loaded:
  "loadAgentStep sample_agent_lib d sample_agent_step sc = Inr (agent_step_of sample_agent_lib sample_agent_step)"
  "step_tools sample_agent_step = []" "sf_agent (sfields sample_agent_step) = ''review''" "sf_model (sfields sample_agent_step) = ''anthropic/claude''"
  by (simp_all add: loadAgentStep_def sample_agent_step_def leaf_step_def zero_fields_def)

lemma sample_agent_config:
  fixes env :: "unit leaf_env" and d urls tools mounts out
  defines "cfg \<equiv> buildAgentConfig env d urls (agent_step_of sample_agent_lib sample_agent_step) tools mounts out"
  shows "ag_model cfg = ''anthropic/claude''" "ag_tools cfg = tools" "ag_memory cfg = None" "ag_context cfg = None" "ag_context_guard cfg = None"
    "ag_validation cfg = None" "ag_output_schema cfg = None"
  by (simp_all add: cfg_def buildAgentConfig_def agent_step_of_def sample_agent_lib_def sample_agent_loaded Let_def)


theorem audit_log_is_complete_witness:
  "\<exists>res s'. Run_agent idle_library (agent_callbacks_of sample_leaf_env sample_agent_lib ''0'' ''t'') []
       (buildAgentConfig sample_leaf_env (sample_driver (Exited 0)) [] (agent_step_of sample_agent_lib sample_agent_step) [] [] ''review'')
       (fresh_run, sample_leaf_ctx) = Some (Inr res, s') \<and> rn_audit (fst s') = ar_audit res"
proof -
  let ?cfg = "buildAgentConfig sample_leaf_env (sample_driver (Exited 0)) [] (agent_step_of sample_agent_lib sample_agent_step) [] [] ''review''"
  obtain res s' where run: "Run_agent idle_library (agent_callbacks_of sample_leaf_env sample_agent_lib ''0'' ''t'') [] ?cfg (fresh_run, sample_leaf_ctx)
      = Some (Inr res, s')"
    using idle_run [of ?cfg "agent_callbacks_of sample_leaf_env sample_agent_lib ''0'' ''t''" "[]" "(fresh_run, sample_leaf_ctx)"]
    by (auto simp: sample_agent_config)
  have "rn_audit (fst (fresh_run, sample_leaf_ctx)) = []" by (simp add: fresh_run_def)
  from audit_log_is_complete [OF idle_keeps_audit this run] run show ?thesis by blast
qed

section \<open>Images\<close>

text \<open>The tag of an image resource is dropped, and a tool that asks for \<open>busybox\<close> runs in the image of its parent.\<close>

lemma agent_image_without_tag:
  assumes "tc_image cfg = []" "gm_get (ir_source (tc_image_resource cfg)) ''repository'' = Some (JStr ''golang'')"
    and "gm_get (ir_source (tc_image_resource cfg)) ''tag'' = Some (JStr ''1.24'')"
  shows "resolveAgentImage (Some cfg) = ''golang''" "resolveImage cfg = ''golang:1.24''"
  using assms by (simp_all add: resolveAgentImage_def resolveImage_def source_str_def after_last_slash_def HasPrefix_def)

lemma explicit_busybox_is_parent_image: "tc_image cfg = ''busybox'' \<Longrightarrow> own_image (Some cfg) = []"
  by (simp add: own_image_def resolveAgentImage_def)

end
