(* ===== verification/Spec2Isabelle.thy ===== *)
theory Spec2Isabelle
  imports Validate Store_Runs Resource_Store Runner Run_Lifecycle Resumable Get_Put Cache_Tasks Auth_Tokens Webhooks Schedules Pipeline_Api OAuth_Flow Leaf_Steps Agent_Step
begin

text \<open>
  Verification of PocketCI, a CI server that runs Concourse-style YAML pipelines.

  The program. A pipeline is a YAML document of resources and jobs; a job is a plan of steps. The server stores pipelines in SQLite
  (\<open>storage\<close>, \<open>storage/sqlite\<close>), checks them (\<open>backwards/pipeline.go\<close>, \<open>runtime/backwards/runner.go\<close>), admits, queues and
  dispatches runs (\<open>server/execution*.go\<close>), and executes a run as Go code over the parsed document (\<open>runtime/backwards\<close>): the
  runner orders the jobs, the job runner processes the steps of a plan with their hooks, and step handlers
  drive containers. Every level records its status as a task row of the store, from which the service computes the status of the
  run. Scripts drive containers through a second runner (\<open>runtime/runner\<close>), which YAML pipelines share for image builds and caches and
  whose resumable wrapper survives a restart of the server. Runs are started by the JSON API (\<open>server/api_*.go\<close>), by webhooks
  (\<open>webhooks\<close>), by the scheduler (\<open>scheduler\<close>) and by the success of other jobs; \<open>server/auth\<close> decides who may do so. A step of
  a plan may also be an LLM agent (\<open>runtime/agent\<close>), which works on the mounts of the job through the commands of a sandbox.

  Theories, in the order of their imports.

    \<^item> Basics. \<open>Prelude\<close>: Go maps, results and generic lemmas. \<open>Go_Strings\<close>, \<open>Go_Time\<close>: the string functions and
      \<open>time.ParseDuration\<close>. \<open>Json\<close>: JSON values, their text, merge patch. \<open>Dfs\<close>: the depth-first search that both cycle checks use,
      proved to decide acyclicity. \<open>Sql\<close>: \<open>GLOB\<close>, \<open>LIKE\<close>, \<open>ORDER BY\<close>.
    \<^item> Documents. \<open>Config\<close>: the schema of \<open>backwards/config.go\<close>, byte sizes and limits. \<open>Samples\<close>: small documents for concrete
      evaluations. \<open>Validate\<close>: \<open>ValidatePipeline\<close> and \<open>ValidateConfig\<close> with the exact set of documents each accepts.
    \<^item> Storage. \<open>Database\<close>: tables as lists of rows, cascades, integrity. \<open>Store_Tasks\<close>: \<open>storage/sqlite/tasks.go\<close>; the locale
      \<open>kv_store\<close> states what a store of records promises and is interpreted by \<open>store_Set\<close> and \<open>store_Get\<close>. \<open>Store_Runs\<close>: pipelines, runs,
      gates, schedules, webhook deduplication; the step relation \<open>db_step\<close> and its invariants. \<open>Resource_Store\<close>: resource versions,
      built on the facts of the interpretation \<open>kv\<close>, as a refinement of update-or-append on a list.
    \<^item> Steps. \<open>Step_Errors\<close>: \<open>errors.go\<close> and helpers of \<open>step.go\<close>. \<open>Group\<close>: the bounded group of goroutines, as a step relation with
      all interleavings and as a function of a scheduler. \<open>Step_Engine\<close>: \<open>processStep\<close> of \<open>job.go\<close> with the composite handlers \<open>do\<close>, \<open>try\<close>,
      \<open>in_parallel\<close>, \<open>across\<close>, \<open>attempts\<close> and the hooks. \<open>Step_Laws\<close>: the locale \<open>step_runner\<close>, a relation on contexts that leaf
      handlers keep is kept by every step. \<open>Step_Props\<close>: what each composite step does. \<open>Task_Handler\<close>: task steps
      (\<open>task_handler.go\<close>), which interpret \<open>step_runner\<close> as \<open>engine\<close>.
    \<^item> Jobs and runs. \<open>Job_Run\<close>: \<open>JobRunner.Run\<close>, gates, webhook filters, job hooks and assertions. \<open>Runner\<close>: \<open>Runner.Run\<close>; the locale
      \<open>run_invariant\<close> lifts an invariant over jobs, dependents and targeted runs, and is interpreted as \<open>once\<close> and \<open>grows\<close>.
      \<open>Get_Put\<close>: get and put steps with native resources and resource containers.
    \<^item> Containers. \<open>Redaction\<close>: \<open>RedactSecrets\<close>. \<open>Container_Runner\<close>: \<open>PipelineRunner\<close> of \<open>runtime/runner/pipeline.go\<close>, a run from its secrets to its
      cleanup. \<open>Resumable\<close>: \<open>state.go\<close> and \<open>resumable.go\<close>, the stored state of a run and how a later session takes it up. \<open>Image_Build\<close>,
      \<open>Cache_Tasks\<close>: the containers that build images and move caches to and from S3, with their shell scripts. \<open>Leaf_Steps\<close>: the
      steps \<open>notify\<close> and \<open>build_image\<close> (\<open>notify_handler.go\<close>, \<open>build_image_handler.go\<close>), the notifier of \<open>runtime/jsapi\<close> with its
      adapters, and cache mounts.
    \<^item> Agents. \<open>Sandboxes\<close>: \<open>runtime/runner/sandbox.go\<close>. \<open>Agent_Tools\<close>: the tools an agent may call, as commands of its sandbox, and the
      lookup of earlier tasks. \<open>Agent_Schema\<close>: output schemas. \<open>Agent_Config\<close>: configuration, model settings and system instruction.
      \<open>Agent_Run\<close>: the conversation loop, its limits, the audit log and the follow-up of a validation. \<open>Agent_Exec\<close>: \<open>RunAgent\<close> from the
      sandbox to the result, with sub-agents. \<open>Agent_Step\<close>: \<open>agent_handler.go\<close>, the agent step of a plan with its rows.
    \<^item> Service. \<open>Execution\<close>: slots, queue processor, concurrency rules, triggers, stop, resume and recovery. \<open>Run_Lifecycle\<close>: the
      goroutine of a run, final status, retention, \<open>triggers.passed\<close>, and \<open>exec_step\<close>, one operation of the service.
    \<^item> Server. \<open>Auth_Tokens\<close>: bearer tokens, middlewares, access expressions, share links. \<open>OAuth_Flow\<close>: the callback of a login, the device
      flow of the command line and the authorization server for MCP clients, with the histories of the requests they serve. \<open>Webhooks\<close>: the ten providers, each an interpretation
      of the locale \<open>authenticated_provider\<close>, and the webhook controller. \<open>Schedules\<close>: the tick of the scheduler for any trigger (locale
      \<open>schedule_trigger\<close>, interpreted with the server's as \<open>server_trigger\<close>) and the schedules a document declares. \<open>Pipeline_Api\<close>: the calls of
      the API over pipelines, runs and gates.

  Conventions. Definitions carry the names of the Go functions. State is passed explicitly: \<open>db\<close> is the database, \<open>step_ctx\<close> the mutable part
  of \<open>StepContext\<close> with the database and the world of the leaf handlers, \<open>run_state\<close> the maps of \<open>Runner.Run\<close>, \<open>exec_state\<close> the
  fields of \<open>ExecutionService\<close>, \<open>agent_log\<close> what an agent has recorded so far. Errors are values: \<open>go_error\<close> in the engine, \<open>db_error\<close> in the store, \<open>exec_error\<close> in
  the service. A nil dereference is \<open>None\<close> or the error \<open>nil_panic\<close>. Waiting for ever is \<open>None\<close>.

  Termination and bounds. \<open>processStep\<close> runs on fuel, and the depth of a step is enough (\<open>processStep_terminates\<close>). A chain of dependent jobs is
  cut by the jobs already done; one more than the number of jobs is enough (\<open>runJob_terminates\<close>). Polling a gate is a
  \<open>partial_function\<close>, because a gate without timeout may be polled for ever (\<open>Run_returns\<close>). So are the loops over the events of an
  agent, since the library may go on yielding events; the limits end the first of them (\<open>agent_stops\<close>). \<open>int64\<close> and \<open>int32\<close> are modelled where they
  wrap (byte sizes, token counts); other counters of runs, rows and attempts are unbounded.

  What the lemmas show. Validation: the accepted documents. Storage: integrity of every reachable database, the run
  status machine, exact effect of deletion, pruning and gates. Resource versions: refinement, frame and queries. Steps: termination, order, error
  propagation, recorded status, concurrency limits for every interleaving, precedence of environments. Tasks: the outcome recorded for every way
  a container can end. Jobs: gates guard, statuses are outcomes, assertions are not hidden. Runs: each job at most once, passed
  constraints. Service: the limit on goroutines as an invariant, fairness of a queue turn towards slots and groups, admission by concurrency
  mode, recovery, when \<open>triggers.passed\<close> fires and that it does not repeat. Gets and puts: which version a get takes, and the row it
  leaves. Containers: every container is cleaned up, completed output is redacted, a resumed session repeats the answers of the first one
  without starting a container; the shell reads the build command back as intended. Server: a token opens one surface, a webhook needs the secret, a call
  needs access, an accepted pipeline is what was asked for, a tick fires what is due; tokens of MCP clients and of the command line were granted by
  a login. Agents: a conversation stops at its limits, every answer is in the audit log, an output schema means what it says, a row is the outcome of
  its step, the tools' commands are read back by the shell as intended, the edit distance is the least number of edits. This theory: records of
  steps decide the status of the run (\<open>absorbed_failure_fails_run\<close>, \<open>cold_cache_fails_run\<close>), across the engine, the store and the service. Lemmas on concrete states document behaviour that departs from
  the comments or guides: \<open>run_dispatched_twice\<close>, \<open>serial_runs_overlap\<close>, \<open>boot_sweep_panics\<close>, \<open>untargeted_run_never_fresh\<close>,
  \<open>dependent_ignores_trigger\<close>, \<open>cache_paths_collide\<close>, \<open>own_output_satisfies_own_input\<close>, \<open>aborted_log_keeps_secret\<close>,
  \<open>second_result_unredacted\<close>, \<open>retry_keeps_old_container\<close>, \<open>failed_poll_leaks_container\<close>, \<open>registry_breaks_out\<close>, \<open>cache_keys_collide\<close>,
  \<open>token_users_have_no_organizations\<close>, \<open>share_secret_may_be_empty\<close>, \<open>signing_key_readable_by_tasks\<close>, \<open>full_queue_skips_schedules\<close>,
  \<open>stopped_tick_loses_schedules\<close>, \<open>script_keeps_schedules\<close>, \<open>rejected_request_saves_pipeline\<close>, \<open>task_lookup_escapes_run\<close>,
  \<open>seeded_run_is_dispatched\<close>, \<open>missing_secret_is_passed_on\<close>, \<open>dashed_argument_unquoted\<close>, \<open>glob_pattern_breaks_out\<close>,
  \<open>agent_job_panics\<close>, \<open>empty_schema_demands_object\<close>, \<open>anthropic_budget_exceeds_default\<close>, \<open>last_answer_thrown_away\<close>,
  \<open>token_total_wraps\<close>, \<open>cancelled_agent_succeeds\<close>.

  Parameters. The YAML and JSON decoders, the template engine, the struct validator and the cron parser; the expression language of webhook
  filters and access rules; JWT and HMAC; the leaf handlers inside the step engine; container driver, native resources, HTTP client and secret store; the
  agent library with its models, the login providers, the notification services; the schedulers of goroutine groups; what others do to
  the store while a gate is polled; the id generator and the iteration order of Go maps. The \<open>n\<close>-th write of a run to the store may
  fail with any error (\<open>env_set_fails\<close>); other database errors are those of missing rows and constraints.

  Idealisations. Strings are bytes and case mapping is that of ASCII. Rows that \<open>ORDER BY\<close> does not distinguish keep their row order. Store times are
  in seconds, times of a job in nanoseconds. The body of a group is one step of its relation, and an operation of the service is
  one step of \<open>exec_step\<close>: races between reading the slot counter and taking a slot are outside the model, whereas the gap between dispatching a run and
  marking it running is part of it.

  Not modelled. I/O around third-party services has no behaviour of its own in the sources: container drivers (\<open>orchestra\<close>),
  S3 and the encrypted secret stores, logging and metrics. The JavaScript runtime (\<open>runtime/jsapi\<close>) runs in a
  third-party VM; the functions it calls are those of \<open>Container_Runner\<close> and \<open>Resumable\<close>. Of the server: templates and web pages, the start of a login,
  logout and the metadata documents, the MCP server, listing and paging of runs and pipelines, the synchronous run over HTTP (\<open>RunByNameSync\<close>)
  and the choice of driver configurations. Of the store: full-text search, the table of agent memories and the tree for the web views. Command line and client only
  parse flags and send requests.
\<close>

section \<open>Step records and the status of the run\<close>

text \<open>The records of jobs and their steps lie under the prefix that the final status looks at.\<close>

lemma jobs_row_prefix:
  assumes "plain_part i" and "plain_path rest"
  shows "HasPrefix (task_path ns (''/pipeline/'' @ i @ ''/jobs/'' @ rest)) (task_path ns (jobs_prefix i))"
proof -
  let ?base = "SplitChar (CHR ''/'') (''/'' @ ns) @ [[]]" and ?mid = "[''pipeline'', i, ''jobs'']"
  have i: "CHR ''/'' \<notin> set i" "plain_part ''pipeline''" "plain_part ''jobs''" using assms(1) by (simp_all add: plain_part_def)
  have mid: "SplitChar (CHR ''/'') (''pipeline/'' @ i @ ''/jobs'') = ?mid"
    using i(1) SplitChar_append_sep [of "CHR ''/''" i "''jobs''"] by simp
  have short: "SplitChar (CHR ''/'') (''/'' @ ns @ ''/'' @ jobs_prefix i) = ?base @ ?mid"
    using SplitChar_append_plain [of "''/'' @ ns" "''/pipeline/'' @ i @ ''/jobs''"] mid by (simp add: jobs_prefix_def)
  have long: "SplitChar (CHR ''/'') (''/'' @ ns @ ''/'' @ ''/pipeline/'' @ i @ ''/jobs/'' @ rest)
      = ?base @ ?mid @ SplitChar (CHR ''/'') rest"
    using SplitChar_append_plain [of "''/'' @ ns" "''/pipeline/'' @ i @ ''/jobs/'' @ rest"]
      SplitChar_append_plain [of "''pipeline/'' @ i @ ''/jobs''" rest] mid by simp
  have plain: "plain_part p" if "p \<in> set (?mid @ SplitChar (CHR ''/'') rest)" for p
    using that assms i(2,3) by (auto simp: plain_path_def list_all_iff)
  let ?pre = "clean_parts [] ?base @ ?mid" and ?tail = "SplitChar (CHR ''/'') rest"
  have "clean_parts [] (?base @ ?mid @ ?tail) = clean_parts [] ?base @ (?mid @ ?tail)"
    by (rule clean_parts_append, rule plain)
  then have "task_path ns (''/pipeline/'' @ i @ ''/jobs/'' @ rest) = CHR ''/'' # JoinStr (?pre @ ?tail) ''/''"
    unfolding task_path_def clean_rooted_def long append_assoc by (rule arg_cong)
  moreover have "clean_parts [] (?base @ ?mid) = ?pre"
    by (rule clean_parts_append, rule plain) auto
  then have "task_path ns (jobs_prefix i) = CHR ''/'' # JoinStr ?pre ''/''"
    unfolding task_path_def clean_rooted_def short by (rule arg_cong)
  moreover have "JoinStr (?pre @ ?tail) ''/'' = JoinStr ?pre ''/'' @ ''/'' @ JoinStr ?tail ''/''"
    by (rule JoinStr_append) (simp_all add: SplitChar_nonempty)
  ultimately show ?thesis by (simp only: HasPrefix_append flip: append_Cons)
qed

lemma row_fails_run:
  assumes "plain_part i" and "plain_path rest" and "glob_literal (task_path (sv_namespace sv) (jobs_prefix i))"
    and "find_task (task_path (sv_namespace sv) (''/pipeline/'' @ i @ ''/jobs/'' @ rest)) d = Some t" and "row_failed t"
  shows "fst (determineRunStatus sv i d) = RunStatusFailed"
proof -
  let ?ns = "sv_namespace sv"
  have "rows_under ?ns (jobs_prefix i) d = filter (\<lambda>t. HasPrefix (t_path t) (task_path ?ns (jobs_prefix i))) (tasks d)"
    by (simp add: rows_under_def glob_prefix [OF assms(3)])
  moreover have "t \<in> set (tasks d)" "t_path t = task_path ?ns (''/pipeline/'' @ i @ ''/jobs/'' @ rest)"
    using assms(4) find_SomeD by (fastforce simp: find_task_def)+
  ultimately have "t \<in> set (rows_under ?ns (jobs_prefix i) d)" using jobs_row_prefix [OF assms(1,2)] by simp
  with assms(5) show ?thesis by (auto simp: determineRunStatus_def GetAll_def status_loop_selected)
qed

lemma finalize_failed:
  assumes "fst (determineRunStatus sv (r_id run) (ex_db st)) = RunStatusFailed"
    and "finalizeExecRun sv now False run p None st = Some st'" and "r \<in> set (runs (ex_db st'))" and "r_id r = r_id run"
  shows "r_status r = RunStatusFailed"
proof -
  obtain msg where det: "determineRunStatus sv (r_id run) (ex_db st) = (RunStatusFailed, msg)"
    using assms(1) by (metis prod.collapse)
  let ?st1 = "update_run now (r_id run) RunStatusFailed msg st"
  have "st' = ?st1 \<or> st' = pruneOldRuns sv now p ?st1"
    using assms(2) det by (auto simp: finalizeExecRun_def update_run_def split: prod.splits option.splits)
  moreover have "runs (ex_db (pruneOldRuns sv now p ?st1)) = runs (ex_db ?st1)
      \<or> (\<exists>n c. runs (ex_db (pruneOldRuns sv now p ?st1)) = runs (PruneRunsByPipeline (p_id p) n c (ex_db ?st1)))"
    by (auto simp: pruneOldRuns_def split: option.split prod.split)
  ultimately have "r \<in> set (runs (ex_db ?st1))" using assms(3) by (auto dest: subsetD [OF PruneRunsByPipeline_subset])
  with assms(4) show ?thesis by (auto simp: runs_update_run transition_allowed_def)
qed


text \<open>A failing block inside a \<open>try\<close>.\<close>

definition failing_do :: "step \<Rightarrow> string \<Rightarrow> nat step_ctx \<Rightarrow> go_error option \<times> nat step_ctx" where
  "failing_do = DoHandler sample_env (\<lambda>s p sc. (Some (TaskFailed ''t'' 1), sc))"

definition absorbed :: "go_error option \<times> nat step_ctx" where
  "absorbed = TryHandler sample_env failing_do (try_step [do_step [task_step ''t'']]) ''0'' sample_ctx"

definition absorbed_state :: exec_state where
  "absorbed_state = service_state ((sc_store (snd absorbed))\<lparr>runs := [(sample_run ''r'' ''p1'')\<lparr>r_status := RunStatusRunning\<rparr>]\<rparr>)"


text \<open>A cold cache fails the run: if the container that restores a volume from S3 exits with an error -- the script exits with 1
  when there is no object yet -- the job goes on, but the row that the container has left is a failed record below the jobs of the run,
  and the run is marked failed though its pipeline ended without error.\<close>

theorem cold_cache_fails_run:
  assumes "silent_store rn" and "sv_namespace sv = rn_store_namespace rn" and "plain_part (cc_run_id cc)"
    and "glob_literal (task_path (sv_namespace sv) (jobs_prefix (cc_run_id cc)))"
    and "plain_path (cc_job_name cc @ ''/'' @ q @ ''/cache/restore/'' @ vol)"
    and "cc_s3 cc = Some cfg" and "s3_bucket cfg \<noteq> []" and "vol \<noteq> []" and "vol \<notin> set restored"
    and "Run_container rn d (cacheOpRunInput (restore_input cfg cc vol q)) cst = Some (Inr res, cst')"
    and "res_status res = RunComplete" and "res_code res \<noteq> 0" and "tasks (ex_db st) = tasks (rs_store cst')"
    and "finalizeExecRun sv now False run p None st = Some st'" and "r_id run = cc_run_id cc"
  shows "runCacheRestoreTask (Run_container rn d) cc vol q (restored, cst) = Some (vol # restored, cst') \<and>
    list_all (\<lambda>r. r_id r = cc_run_id cc \<longrightarrow> r_status r = RunStatusFailed) (runs (ex_db st'))"
proof -
  let ?rest = "cc_job_name cc @ ''/'' @ q @ ''/cache/restore/'' @ vol" and ?inp = "restore_input cfg cc vol q"
  have dir: "?inp\<lparr>co_direction := Inl CacheRestoreDirection\<rparr> = ?inp" by (simp add: restore_input_def)
  have goes_on: "runCacheRestoreTask (Run_container rn d) cc vol q (restored, cst) = Some (vol # restored, cst')"
    using assms(6-10) cacheOpInput_valid
    by (simp add: runCacheRestoreTask_def CacheRestore_def dir runCacheOp_def)
  have key: "effective_key rn (cacheOpRunInput ?inp) cst = ''/pipeline/'' @ cc_run_id cc @ ''/jobs/'' @ ?rest"
    by (simp add: effective_key_def cacheOpRunInput_def restore_input_def cache_base_key_def)
  from failed_run_row [OF assms(10-12,1)] obtain t
    where "find_task (task_path (sv_namespace sv) (''/pipeline/'' @ cc_run_id cc @ ''/jobs/'' @ ?rest)) (rs_store cst') = Some t"
      and "row_failed t"
    unfolding key assms(2) row_failed_def by auto
  then have "find_task (task_path (sv_namespace sv) (''/pipeline/'' @ cc_run_id cc @ ''/jobs/'' @ ?rest)) (ex_db st) = Some t"
    using assms(13) by (simp add: find_task_def)
  from row_fails_run [OF assms(3,5,4) this \<open>row_failed t\<close>] have "fst (determineRunStatus sv (r_id run) (ex_db st)) = RunStatusFailed"
    by (simp add: assms(15))
  from finalize_failed [OF this assms(14)] assms(15) goes_on show ?thesis by (simp add: list_all_iff)
qed

definition cold_runner :: container_runner where
  "cold_runner = sample_container_runner\<lparr>rn_store_namespace := [], rn_secrets := None\<rparr>"

definition cold_driver :: container_driver where
  "cold_driver = sample_container_driver (sample_container [] [] (Poll_done 1) ''miss'')"

definition cold_bucket :: cache_s3 where
  "cold_bucket = \<lparr>s3_endpoint = [], s3_region = [], s3_bucket = ''b'', s3_prefix = [], s3_access_key_id = [], s3_secret_access_key = []\<rparr>"

definition cold_ctx :: cache_ctx where
  "cold_ctx = \<lparr>cc_s3 = Some cold_bucket, cc_run_id = ''r'', cc_pipeline_id = ''p1'', cc_job_name = ''j'', cc_output = None\<rparr>"

theorem cold_cache_fails_run_witness:
  "\<exists>cst' st'. runCacheRestoreTask (Run_container cold_runner cold_driver) cold_ctx ''v'' ''0'' ([], fresh_state) = Some ([''v''], cst') \<and>
     finalizeExecRun sample_service 9 False (sample_run ''r'' ''p1'') (mode_pipeline []) None
       (service_state ((rs_store cst')\<lparr>runs := [(sample_run ''r'' ''p1'')\<lparr>r_status := RunStatusRunning\<rparr>]\<rparr>)) = Some st' \<and>
     list_all (\<lambda>r. r_id r = ''r'' \<longrightarrow> r_status r = RunStatusFailed) (runs (ex_db st'))"
proof -
  let ?inp = "cacheOpRunInput (restore_input cold_bucket cold_ctx ''v'' ''0'')" and ?run = "sample_run ''r'' ''p1''"
  have deadline: "run_deadline (ri_timeout ?inp) = Inr None"
    by (simp add: run_deadline_def cacheOpRunInput_def restore_input_def cacheOpInputBase_def)
  have inj: "injectSecrets cold_runner ?inp key st = (Inr ?inp, st)" for key st
    by (simp add: injectSecrets_def cold_runner_def)
  have ct: "dr_run_container cold_driver n None task = Inr (sample_container [] [] (Poll_done 1) ''miss'')" for n task
    by (simp add: cold_driver_def sample_container_driver_def)
  have poll: "poll_from (ct_status (sample_container [] [] (Poll_done 1) ''miss'')) 0 = Some (Inr 1)"
    and logs: "ct_logs (sample_container [] [] (Poll_done 1) ''miss'') = Inr (''miss'', [])"
    by (simp_all add: sample_container_def poll_sample)
  obtain res cst' where run: "Run_container cold_runner cold_driver ?inp fresh_state = Some (Inr res, cst')"
    "res_status res = RunComplete" "res_code res \<noteq> 0"
    using Run_container_result [OF deadline inj ct poll logs] by fastforce
  define st where "st = service_state ((rs_store cst')\<lparr>runs := [?run\<lparr>r_status := RunStatusRunning\<rparr>]\<rparr>)"
  obtain st' where fin: "finalizeExecRun sample_service 9 False ?run (mode_pipeline []) None st = Some st'"
  proof -
    have "finalizeExecRun sample_service 9 False ?run (mode_pipeline []) None st \<noteq> None"
      by (simp add: finalizeExecRun_def scanPassedDownstreams_def sample_service_def split: prod.split option.split)
    then show ?thesis using that by blast
  qed
  have env: "silent_store cold_runner" "sv_namespace sample_service = rn_store_namespace cold_runner" "plain_part (cc_run_id cold_ctx)"
    "plain_path (cc_job_name cold_ctx @ ''/'' @ ''0'' @ ''/cache/restore/'' @ ''v'')" "cc_s3 cold_ctx = Some cold_bucket"
    "s3_bucket cold_bucket \<noteq> []" "r_id ?run = cc_run_id cold_ctx" "cc_run_id cold_ctx = ''r''" "tasks (ex_db st) = tasks (rs_store cst')"
    by (simp_all add: cold_runner_def sample_container_runner_def silent_store_def sample_service_def cold_ctx_def cold_bucket_def
        plain_part_def plain_path_def sample_run_def st_def service_state_def)
  have glob: "glob_literal (task_path (sv_namespace sample_service) (jobs_prefix (cc_run_id cold_ctx)))" by code_simp
  from cold_cache_fails_run [OF env(1-3) glob env(4-6) _ _ run env(9) fin env(7), of "[]"] fin env(8) show ?thesis
    unfolding st_def by auto
qed

end
